(* ===== verification/Prelude.thy ===== *)
theory Prelude
  imports Main "HOL-Library.Word" "HOL-Library.Sublist" "HOL-Library.Char_ord" "HOL-Library.Code_Target_Nat"
begin

text \<open>
  Shared vocabulary of the development.

  A Rust \<^verbatim>\<open>u8\<close> is a \<^typ>\<open>char\<close> (Isabelle characters are exactly the 256 byte
  values), a \<^verbatim>\<open>[u8]\<close>, \<^verbatim>\<open>str\<close> or \<^verbatim>\<open>String\<close> is the list of its bytes, so that
  \<open>length\<close> is Rust's \<^verbatim>\<open>len()\<close>.  A \<^verbatim>\<open>Result\<close> is a sum whose left side is the
  error.  A \<^verbatim>\<open>Duration\<close> is its number of nanoseconds.  \<^verbatim>\<open>usize\<close> is the natural
  numbers below \<open>2 ^ 64\<close>; checked and saturating arithmetic is written out here.
\<close>

named_theorems byte_simps \<open>facts about single bytes and byte classes\<close>
named_theorems text_simps \<open>facts about the string operations of the standard library\<close>

type_synonym byte = char
type_synonym bytes = "char list"
type_synonym duration = nat
type_synonym ('e, 'a) result = "'e + 'a"

abbreviation Ok :: "'a \<Rightarrow> ('e, 'a) result" where "Ok \<equiv> Inr"
abbreviation Err :: "'e \<Rightarrow> ('e, 'a) result" where "Err \<equiv> Inl"

abbreviation is_ok :: "('e, 'a) result \<Rightarrow> bool" where "is_ok r \<equiv> \<not> isl r"

abbreviation LF :: byte where "LF \<equiv> CHR 0x0A"
abbreviation CR :: byte where "CR \<equiv> CHR 0x0D"

section \<open>Results\<close>

definition res_bind :: "('e, 'a) result \<Rightarrow> ('a \<Rightarrow> ('e, 'b) result) \<Rightarrow> ('e, 'b) result" where
  "res_bind r f = (case r of Err e \<Rightarrow> Err e | Ok x \<Rightarrow> f x)"

definition map_err :: "('e \<Rightarrow> 'f) \<Rightarrow> ('e, 'a) result \<Rightarrow> ('f, 'a) result" where
  "map_err g r = (case r of Err e \<Rightarrow> Err (g e) | Ok x \<Rightarrow> Ok x)"

definition ok_or :: "'a option \<Rightarrow> 'e \<Rightarrow> ('e, 'a) result" where
  "ok_or x e = (case x of None \<Rightarrow> Err e | Some v \<Rightarrow> Ok v)"

lemma is_ok_iff: "is_ok r \<longleftrightarrow> (\<exists>x. r = Ok x)"
  by (cases r) auto

lemma res_bind_simps [simp]:
  "res_bind (Err e) f = Err e" "res_bind (Ok x) f = f x"
  by (simp_all add: res_bind_def)

lemma res_bind_Ok_iff: "res_bind r f = Ok y \<longleftrightarrow> (\<exists>x. r = Ok x \<and> f x = Ok y)"
  by (cases r) auto

lemma res_bind_Err_iff: "res_bind r f = Err e \<longleftrightarrow> r = Err e \<or> (\<exists>x. r = Ok x \<and> f x = Err e)"
  by (cases r) auto

lemma res_bind_cong [fundef_cong]:
  "r = r' \<Longrightarrow> (\<And>x. r' = Ok x \<Longrightarrow> f x = f' x) \<Longrightarrow> res_bind r f = res_bind r' f'"
  by (cases r') auto

lemma map_err_simps [simp]: "map_err g (Err e) = Err (g e)" "map_err g (Ok x) = Ok x"
  by (simp_all add: map_err_def)

lemma map_err_Ok_iff [simp]: "map_err g r = Ok x \<longleftrightarrow> r = Ok x"
  by (cases r) auto

lemma ok_or_simps [simp]: "ok_or None e = Err e" "ok_or (Some v) e = Ok v"
  by (simp_all add: ok_or_def)

lemma ok_or_Ok_iff [simp]: "ok_or x e = Ok v \<longleftrightarrow> x = Some v"
  by (cases x) auto

lemma ok_or_Err_iff [simp]: "ok_or x e = Err e' \<longleftrightarrow> x = None \<and> e' = e"
  by (cases x) auto

section \<open>Machine arithmetic\<close>

definition USIZE_MAX :: nat where "USIZE_MAX = 2 ^ 64 - 1"
definition U64_MAX :: nat where "U64_MAX = 2 ^ 64 - 1"

definition checked_add :: "nat \<Rightarrow> nat \<Rightarrow> nat option" where
  "checked_add a b = (if a + b \<le> USIZE_MAX then Some (a + b) else None)"

definition saturating_add :: "nat \<Rightarrow> nat \<Rightarrow> nat" where
  "saturating_add a b = min (a + b) USIZE_MAX"

text \<open>\<^verbatim>\<open>saturating_sub\<close> is the subtraction of the naturals; \<^verbatim>\<open>checked_sub\<close> is \<open>None\<close> below 0.\<close>

definition saturating_sub :: "nat \<Rightarrow> nat \<Rightarrow> nat" where
  [simp]: "saturating_sub a b = a - b"

definition checked_sub :: "nat \<Rightarrow> nat \<Rightarrow> nat option" where
  "checked_sub a b = (if b \<le> a then Some (a - b) else None)"

definition from_millis :: "nat \<Rightarrow> duration" where "from_millis ms = ms * 10 ^ 6"
definition from_secs :: "nat \<Rightarrow> duration" where "from_secs s = s * 10 ^ 9"
definition as_secs :: "duration \<Rightarrow> nat" where "as_secs d = d div 10 ^ 9"

lemma checked_add_Some_iff: "checked_add a b = Some c \<longleftrightarrow> c = a + b \<and> a + b \<le> USIZE_MAX"
  by (auto simp: checked_add_def)

lemma checked_sub_Some_iff: "checked_sub a b = Some c \<longleftrightarrow> b \<le> a \<and> c = a - b"
  by (auto simp: checked_sub_def)

section \<open>Bytes\<close>

definition code :: "byte \<Rightarrow> nat" where "code b = of_char b"

lemma code_less [simp]: "code b < 256"
  by (simp add: code_def)

lemma code_inject [simp]: "code a = code b \<longleftrightarrow> a = b"
  by (simp add: code_def)

definition is_ascii :: "byte \<Rightarrow> bool" where "is_ascii b \<longleftrightarrow> code b < 128"
definition is_ascii_digit :: "byte \<Rightarrow> bool" where "is_ascii_digit b \<longleftrightarrow> 48 \<le> code b \<and> code b \<le> 57"
definition is_ascii_alphabetic :: "byte \<Rightarrow> bool" where
  "is_ascii_alphabetic b \<longleftrightarrow> 65 \<le> code b \<and> code b \<le> 90 \<or> 97 \<le> code b \<and> code b \<le> 122"
definition is_ascii_alphanumeric :: "byte \<Rightarrow> bool" where
  "is_ascii_alphanumeric b \<longleftrightarrow> is_ascii_alphabetic b \<or> is_ascii_digit b"

text \<open>\<^verbatim>\<open>u8::is_ascii_whitespace\<close>: space, tab, line feed, form feed, carriage return.\<close>

definition is_ascii_whitespace :: "byte \<Rightarrow> bool" where
  "is_ascii_whitespace b \<longleftrightarrow> code b \<in> {32, 9, 10, 12, 13}"

lemma is_ascii_digit_ascii [byte_simps]: "is_ascii_digit b \<Longrightarrow> is_ascii b"
  by (simp add: is_ascii_digit_def is_ascii_def)

lemma is_ascii_alphanumeric_ascii [byte_simps]: "is_ascii_alphanumeric b \<Longrightarrow> is_ascii b"
  by (auto simp: is_ascii_alphanumeric_def is_ascii_alphabetic_def is_ascii_digit_def is_ascii_def)

section \<open>String operations\<close>

fun split_once :: "'a \<Rightarrow> 'a list \<Rightarrow> ('a list \<times> 'a list) option" where
  "split_once c [] = None"
| "split_once c (x # xs) =
     (if x = c then Some ([], xs)
      else map_option (\<lambda>(l, r). (x # l, r)) (split_once c xs))"

definition strip_prefix :: "'a list \<Rightarrow> 'a list \<Rightarrow> 'a list option" where
  "strip_prefix p xs = (if prefix p xs then Some (drop (length p) xs) else None)"

definition strip_suffix :: "'a list \<Rightarrow> 'a list \<Rightarrow> 'a list option" where
  "strip_suffix s xs = (if suffix s xs then Some (take (length xs - length s) xs) else None)"

text \<open>\<^verbatim>\<open>str::split(c)\<close>: the fields between occurrences of \<open>c\<close>; at least one field.\<close>

fun split_on :: "'a \<Rightarrow> 'a list \<Rightarrow> 'a list list" where
  "split_on c [] = [[]]"
| "split_on c (x # xs) =
     (if x = c then [] # split_on c xs
      else (case split_on c xs of [] \<Rightarrow> [[x]] | f # fs \<Rightarrow> (x # f) # fs))"

text \<open>\<^verbatim>\<open>Iterator::position\<close>.\<close>

fun position :: "('a \<Rightarrow> bool) \<Rightarrow> 'a list \<Rightarrow> nat option" where
  "position P [] = None"
| "position P (x # xs) = (if P x then Some 0 else map_option Suc (position P xs))"

text \<open>\<^verbatim>\<open>slice::chunks(n)\<close>; a chunk size of zero panics and never occurs in the sources.\<close>

function chunks :: "nat \<Rightarrow> 'a list \<Rightarrow> 'a list list" where
  "chunks n xs = (if n = 0 \<or> xs = [] then [] else take n xs # chunks n (drop n xs))"
  by pat_completeness auto
termination
  by (relation "measure (\<lambda>(n, xs). length xs)") auto

declare chunks.simps [simp del]

text \<open>\<^verbatim>\<open>u64::from_str\<close>: an optional \<open>+\<close>, at least one digit, no overflow.\<close>

fun digits_value :: "nat \<Rightarrow> bytes \<Rightarrow> nat" where
  "digits_value acc [] = acc"
| "digits_value acc (b # bs) = digits_value (10 * acc + (code b - 48)) bs"

definition parse_u64 :: "bytes \<Rightarrow> nat option" where
  "parse_u64 s =
     (let ds = (case s of b # bs \<Rightarrow> if b = CHR ''+'' then bs else s | [] \<Rightarrow> s)
      in if ds = [] \<or> \<not> list_all is_ascii_digit ds then None
         else if digits_value 0 ds \<le> U64_MAX then Some (digits_value 0 ds) else None)"

text \<open>Decimal rendering of an unsigned integer.\<close>

function nat_to_string :: "nat \<Rightarrow> bytes" where
  "nat_to_string n =
     (if n < 10 then [char_of (48 + n)] else nat_to_string (n div 10) @ [char_of (48 + n mod 10)])"
  by pat_completeness auto
termination
  by (relation "measure id") auto

declare nat_to_string.simps [simp del]

lemma split_once_Some_iff:
  "split_once c xs = Some (l, r) \<longleftrightarrow> xs = l @ c # r \<and> c \<notin> set l"
proof (induction xs arbitrary: l)
  case (Cons x xs)
  then show ?case by (cases l) auto
qed simp

lemma split_once_None_iff: "split_once c xs = None \<longleftrightarrow> c \<notin> set xs"
  by (induction xs) auto

lemma strip_prefix_Some_iff: "strip_prefix p xs = Some r \<longleftrightarrow> xs = p @ r"
  by (auto simp: strip_prefix_def prefix_def)

lemma strip_prefix_None_iff: "strip_prefix p xs = None \<longleftrightarrow> \<not> prefix p xs"
  by (simp add: strip_prefix_def)

lemma strip_suffix_Some_iff: "strip_suffix s xs = Some r \<longleftrightarrow> xs = r @ s"
  by (auto simp: strip_suffix_def suffix_def)

lemma split_on_nonempty [simp]: "split_on c xs \<noteq> []"
  by (cases xs) (auto split: list.splits)

text \<open>Joining the fields with the separator gives the string back.\<close>

fun join_with :: "'a \<Rightarrow> 'a list list \<Rightarrow> 'a list" where
  "join_with c [] = []"
| "join_with c [f] = f"
| "join_with c (f # fs) = f @ c # join_with c fs"

lemma join_with_Cons: "fs \<noteq> [] \<Longrightarrow> join_with c (f # fs) = f @ c # join_with c fs"
  by (cases fs) auto

lemma join_split_on [text_simps]: "join_with c (split_on c xs) = xs"
proof (induction xs)
  case (Cons x xs)
  show ?case
  proof (cases "split_on c xs")
    case (Cons f fs)
    with Cons.IH show ?thesis by (cases fs) auto
  qed simp
qed simp

lemma split_on_no_sep: "f \<in> set (split_on c xs) \<Longrightarrow> c \<notin> set f"
  by (induction xs arbitrary: f) (auto split: list.splits if_splits)

lemma split_on_absent: "c \<notin> set xs \<Longrightarrow> split_on c xs = [xs]"
  by (induction xs) auto

lemma split_on_append: "c \<notin> set l \<Longrightarrow> split_on c (l @ c # r) = l # split_on c r"
  by (induction l) auto

lemma position_None_iff: "position P xs = None \<longleftrightarrow> (\<forall>x\<in>set xs. \<not> P x)"
  by (induction xs) auto

lemma position_SomeD:
  "position P xs = Some n \<Longrightarrow>
     \<exists>l x r. xs = l @ x # r \<and> length l = n \<and> P x \<and> (\<forall>y\<in>set l. \<not> P y)"
proof (induction xs arbitrary: n)
  case (Cons a xs)
  show ?case
  proof (cases "P a")
    case True
    with Cons.prems show ?thesis by fastforce
  next
    case False
    with Cons.prems obtain m where m: "position P xs = Some m" "n = Suc m" by auto
    from Cons.IH [OF m(1)] obtain l x r where
      "xs = l @ x # r" "length l = m" "P x" "\<forall>y\<in>set l. \<not> P y" by blast
    with False m(2) show ?thesis by (intro exI [of _ "a # l"]) auto
  qed
qed simp

lemma concat_chunks: "0 < n \<Longrightarrow> concat (chunks n xs) = xs"
  by (induction n xs rule: chunks.induct) (subst chunks.simps, simp)

lemma chunks_length: "c \<in> set (chunks n xs) \<Longrightarrow> length c \<le> n"
  by (induction n xs rule: chunks.induct) (subst (asm) chunks.simps, auto split: if_splits)

lemma chunks_nonempty: "c \<in> set (chunks n xs) \<Longrightarrow> c \<noteq> []"
  by (induction n xs rule: chunks.induct) (subst (asm) chunks.simps, auto split: if_splits)

lemma chunks_Nil [simp]: "chunks n [] = []"
  by (simp add: chunks.simps)

lemma parse_u64_bound: "parse_u64 s = Some n \<Longrightarrow> n \<le> U64_MAX"
  by (auto simp: parse_u64_def Let_def split: if_splits)

end
