(* ===== verification/Utf8.thy ===== *)
theory Utf8
  imports Prelude
begin

text \<open>
  The part of the Rust standard library the decoders use for text: \<^verbatim>\<open>str::from_utf8\<close> with the
  position (\<^verbatim>\<open>valid_up_to\<close>) and the length (\<^verbatim>\<open>error_len\<close>) of its error, and the facts that make
  slicing at an ASCII byte and joining with an ASCII byte safe: both keep validity.
\<close>

section \<open>Validation\<close>

definition utf8_char_width :: "nat \<Rightarrow> nat" where
  "utf8_char_width b =
     (if b < 0x80 then 1
      else if 0xC2 \<le> b \<and> b \<le> 0xDF then 2
      else if 0xE0 \<le> b \<and> b \<le> 0xEF then 3
      else if 0xF0 \<le> b \<and> b \<le> 0xF4 then 4 else 0)"

definition is_cont :: "byte \<Rightarrow> bool" where
  "is_cont b \<longleftrightarrow> 0x80 \<le> code b \<and> code b \<le> 0xBF"

text \<open>\<^verbatim>\<open>chars().count()\<close> on a valid string: every character has one byte that is not a continuation byte.\<close>

definition char_count :: "bytes \<Rightarrow> nat" where
  "char_count s = length (filter (\<lambda>b. \<not> is_cont b) s)"

definition second_of_three :: "nat \<Rightarrow> byte \<Rightarrow> bool" where
  "second_of_three b c \<longleftrightarrow>
     b = 0xE0 \<and> 0xA0 \<le> code c \<and> code c \<le> 0xBF \<or>
     0xE1 \<le> b \<and> b \<le> 0xEC \<and> is_cont c \<or>
     b = 0xED \<and> 0x80 \<le> code c \<and> code c \<le> 0x9F \<or>
     0xEE \<le> b \<and> b \<le> 0xEF \<and> is_cont c"

definition second_of_four :: "nat \<Rightarrow> byte \<Rightarrow> bool" where
  "second_of_four b c \<longleftrightarrow>
     b = 0xF0 \<and> 0x90 \<le> code c \<and> code c \<le> 0xBF \<or>
     0xF1 \<le> b \<and> b \<le> 0xF3 \<and> is_cont c \<or>
     b = 0xF4 \<and> 0x80 \<le> code c \<and> code c \<le> 0x8F"

text \<open>
  One character: \<open>Ok n\<close> when the first byte is followed by its \<open>n\<close> continuation bytes,
  \<open>Err error_len\<close> otherwise.
\<close>

definition utf8_char :: "byte \<Rightarrow> bytes \<Rightarrow> (nat option, nat) result" where
  "utf8_char b bs =
     (if utf8_char_width (code b) = 1 then Ok 0
      else if utf8_char_width (code b) = 2 then
        (case bs of [] \<Rightarrow> Err None
         | c # _ \<Rightarrow> if is_cont c then Ok 1 else Err (Some 1))
      else if utf8_char_width (code b) = 3 then
        (case bs of [] \<Rightarrow> Err None
         | c # bs' \<Rightarrow>
             if \<not> second_of_three (code b) c then Err (Some 1)
             else (case bs' of [] \<Rightarrow> Err None
                   | c' # _ \<Rightarrow> if is_cont c' then Ok 2 else Err (Some 2)))
      else if utf8_char_width (code b) = 4 then
        (case bs of [] \<Rightarrow> Err None
         | c # bs' \<Rightarrow>
             if \<not> second_of_four (code b) c then Err (Some 1)
             else (case bs' of [] \<Rightarrow> Err None
                   | c' # bs'' \<Rightarrow>
                       if \<not> is_cont c' then Err (Some 2)
                       else (case bs'' of [] \<Rightarrow> Err None
                             | c'' # _ \<Rightarrow> if is_cont c'' then Ok 3 else Err (Some 3))))
      else Err (Some 1))"

record utf8_error =
  valid_up_to :: nat
  error_len :: "nat option"

function utf8_check :: "nat \<Rightarrow> bytes \<Rightarrow> utf8_error option" where
  "utf8_check i [] = None"
| "utf8_check i (b # bs) =
     (case utf8_char b bs of
        Err el \<Rightarrow> Some \<lparr>valid_up_to = i, error_len = el\<rparr>
      | Ok n \<Rightarrow> utf8_check (i + 1 + n) (drop n bs))"
  by pat_completeness auto
termination
  by (relation "measure (\<lambda>(i, bs). length bs)") auto

definition from_utf8 :: "bytes \<Rightarrow> (utf8_error, bytes) result" where
  "from_utf8 bs = (case utf8_check 0 bs of None \<Rightarrow> Ok bs | Some e \<Rightarrow> Err e)"

definition utf8_valid :: "bytes \<Rightarrow> bool" where
  "utf8_valid bs \<longleftrightarrow> utf8_check 0 bs = None"

section \<open>Facts\<close>

lemma from_utf8_Ok_iff [simp]: "from_utf8 bs = Ok s \<longleftrightarrow> s = bs \<and> utf8_valid bs"
  by (auto simp: from_utf8_def utf8_valid_def split: option.splits)

lemma from_utf8_Err_iff: "from_utf8 bs = Err e \<longleftrightarrow> utf8_check 0 bs = Some e"
  by (auto simp: from_utf8_def split: option.splits)

lemma from_utf8_if:
  "from_utf8 bs = (if utf8_valid bs then Ok bs else Err (the (utf8_check 0 bs)))"
  by (auto simp: from_utf8_def utf8_valid_def split: option.splits)

lemma utf8_check_None_shift: "utf8_check i bs = None \<longleftrightarrow> utf8_check j bs = None"
proof (induction i bs arbitrary: j rule: utf8_check.induct)
  case (2 i b bs)
  show ?case
  proof (cases "utf8_char b bs")
    case (Inr n)
    have "utf8_check (i + 1 + n) (drop n bs) = None
      \<longleftrightarrow> utf8_check (j + 1 + n) (drop n bs) = None"
      by (rule "2.IH" [OF Inr])
    with Inr show ?thesis by simp
  qed simp
qed simp

lemma utf8_valid_Nil [simp]: "utf8_valid []"
  by (simp add: utf8_valid_def)

lemma utf8_valid_Cons:
  "utf8_valid (b # bs) \<longleftrightarrow>
     (case utf8_char b bs of Err _ \<Rightarrow> False | Ok n \<Rightarrow> utf8_valid (drop n bs))"
  by (auto simp: utf8_valid_def split: sum.split intro: utf8_check_None_shift [THEN iffD1])

lemma utf8_char_ascii [simp]: "is_ascii b \<Longrightarrow> utf8_char b bs = Ok 0"
  by (simp add: utf8_char_def utf8_char_width_def is_ascii_def)

lemma utf8_valid_ascii_Cons [simp]: "is_ascii b \<Longrightarrow> utf8_valid (b # bs) \<longleftrightarrow> utf8_valid bs"
  by (simp add: utf8_valid_Cons)

lemma list_all_ascii_utf8_valid: "list_all is_ascii bs \<Longrightarrow> utf8_valid bs"
  by (induction bs) auto

lemma second_cont:
  "second_of_three b c \<Longrightarrow> \<not> is_ascii c" "second_of_four b c \<Longrightarrow> \<not> is_ascii c"
  "is_cont c \<Longrightarrow> \<not> is_ascii c"
  by (auto simp: second_of_three_def second_of_four_def is_cont_def is_ascii_def)

text \<open>A character's bytes are there, none of its continuation bytes is ASCII, and it is the same
  character whatever follows.\<close>

lemma utf8_char_OkD:
  assumes "utf8_char b bs = Ok n"
  shows "n \<le> length bs \<and> list_all (\<lambda>c. \<not> is_ascii c) (take n bs)
    \<and> utf8_char b (take n bs @ rest) = Ok n"
  using assms
  by (auto simp: utf8_char_def second_cont split: if_splits list.splits)

lemma utf8_valid_append: "utf8_valid a \<Longrightarrow> utf8_valid b \<Longrightarrow> utf8_valid (a @ b)"
proof (induction "length a" arbitrary: a rule: less_induct)
  case less
  show ?case
  proof (cases a)
    case (Cons x xs)
    with less.prems obtain n where n: "utf8_char x xs = Ok n" "utf8_valid (drop n xs)"
      by (auto simp: utf8_valid_Cons split: sum.splits)
    from utf8_char_OkD [OF n(1), of "drop n xs @ b"]
    have len: "n \<le> length xs" and "utf8_char x (xs @ b) = Ok n"
      by (simp_all flip: append_assoc)
    moreover have "utf8_valid (drop n xs @ b)"
      using n(2) Cons less.prems(2) by (intro less.hyps) auto
    ultimately show ?thesis using Cons by (simp add: utf8_valid_Cons)
  qed (simp add: less.prems)
qed

text \<open>Cutting a valid string at an ASCII byte gives two valid strings: what makes Rust's
  \<^verbatim>\<open>split_once\<close> on an ASCII separator return strings.\<close>

lemma utf8_valid_cut:
  assumes "utf8_valid (a @ c # b)" and "is_ascii c"
  shows "utf8_valid a \<and> utf8_valid b"
  using assms(1)
proof (induction "length a" arbitrary: a rule: less_induct)
  case less
  show ?case
  proof (cases a)
    case Nil
    with less.prems assms(2) show ?thesis by simp
  next
    case (Cons x xs)
    with less.prems obtain n where n: "utf8_char x (xs @ c # b) = Ok n"
      and v: "utf8_valid (drop n (xs @ c # b))"
      by (auto simp: utf8_valid_Cons split: sum.splits)
    have le: "n \<le> length xs"
    proof (rule ccontr)
      assume "\<not> n \<le> length xs"
      then have "c \<in> set (take n (xs @ c # b))" by (simp add: take_Cons')
      with utf8_char_OkD [OF n] assms(2) show False by (auto simp: list_all_iff)
    qed
    then have "take n (xs @ c # b) = take n xs" by simp
    with utf8_char_OkD [OF n, of "drop n xs"] have "utf8_char x xs = Ok n" by simp
    moreover have "utf8_valid (drop n xs) \<and> utf8_valid b"
      using v le Cons by (intro less.hyps) auto
    ultimately show ?thesis using Cons by (simp add: utf8_valid_Cons)
  qed
qed

lemma utf8_valid_ascii_join:
  "is_ascii c \<Longrightarrow> utf8_valid a \<Longrightarrow> utf8_valid b \<Longrightarrow> utf8_valid (a @ c # b)"
  by (rule utf8_valid_append) auto

lemma utf8_valid_split_once:
  assumes "utf8_valid s" and "is_ascii c" and "split_once c s = Some (l, r)"
  shows "utf8_valid l \<and> utf8_valid r"
  using assms by (auto simp: split_once_Some_iff dest: utf8_valid_cut)

lemma utf8_valid_strip_ascii:
  "utf8_valid s \<Longrightarrow> is_ascii c \<Longrightarrow> strip_prefix [c] s = Some r \<Longrightarrow> utf8_valid r"
  by (auto simp: strip_prefix_Some_iff)

text \<open>The reported position is inside the string and everything before it is valid.\<close>

lemma utf8_check_position:
  "utf8_check i bs = Some e \<Longrightarrow>
     i \<le> valid_up_to e \<and> valid_up_to e < i + length bs \<and> utf8_valid (take (valid_up_to e - i) bs)"
proof (induction i bs rule: utf8_check.induct)
  case (2 i b bs)
  show ?case
  proof (cases "utf8_char b bs")
    case (Inl el)
    with "2.prems" show ?thesis by auto
  next
    case (Inr n)
    have len: "n \<le> length bs" using utf8_char_OkD [OF Inr] by simp
    from "2.prems" Inr have "utf8_check (i + 1 + n) (drop n bs) = Some e" by simp
    from "2.IH" [OF Inr this] len
    have *: "i + 1 + n \<le> valid_up_to e" "valid_up_to e < i + 1 + length bs"
      "utf8_valid (take (valid_up_to e - (i + 1 + n)) (drop n bs))" by auto
    define m where "m = valid_up_to e - (i + 1)"
    have m: "n \<le> m" "valid_up_to e - i = Suc m" "valid_up_to e - (i + 1 + n) = m - n"
      using *(1) by (auto simp: m_def)
    have "take m bs = take n bs @ take (m - n) (drop n bs)"
      using m(1) len by (metis le_add_diff_inverse take_add)
    with utf8_char_OkD [OF Inr] have "utf8_char b (take m bs) = Ok n" by auto
    moreover have "utf8_valid (drop n (take m bs))"
      using *(3) m by (simp add: drop_take)
    ultimately have "utf8_valid (take (valid_up_to e - i) (b # bs))"
      using m by (simp add: utf8_valid_Cons)
    with *(1,2) show ?thesis by simp
  qed
qed simp

lemma from_utf8_error_position:
  "from_utf8 bs = Err e \<Longrightarrow> valid_up_to e < length bs \<and> utf8_valid (take (valid_up_to e) bs)"
  using utf8_check_position [of 0 bs e] by (simp add: from_utf8_Err_iff)

end
