(* ===== verification/Sse_Decoder.thy ===== *)
theory Sse_Decoder
  imports Utf8
begin

text \<open>
  The incremental Server-Sent-Events parser of the Platform client,
  \<^verbatim>\<open>SseLimits\<close>, \<^verbatim>\<open>SseFrame\<close> and \<^verbatim>\<open>SseDecoder\<close> of
  \<^verbatim>\<open>crates/openai-rs-client/src/sse.rs\<close>.

  The decoder is a record with the source's fields.  A \<^verbatim>\<open>&mut self\<close> method is a function from
  the decoder to its result and the new decoder; a method that also appends to a caller's
  \<^verbatim>\<open>&mut Vec<SseFrame>\<close> returns that vector as well.
\<close>

section \<open>Data\<close>

definition UTF8_BOM :: bytes where "UTF8_BOM = [CHR 0xEF, CHR 0xBB, CHR 0xBF]"

definition FEED_SLICE_BYTES :: nat where "FEED_SLICE_BYTES = 8 * 1024"

definition DEFAULT_MAX_SSE_LINE_BYTES :: nat where
  "DEFAULT_MAX_SSE_LINE_BYTES = 32 * 1024 * 1024"
definition DEFAULT_MAX_SSE_EVENT_BYTES :: nat where
  "DEFAULT_MAX_SSE_EVENT_BYTES = 32 * 1024 * 1024"
definition DEFAULT_MAX_SSE_DATA_LINES :: nat where
  "DEFAULT_MAX_SSE_DATA_LINES = 4096"

record sse_limits =
  max_line_bytes :: nat
  max_event_bytes :: nat
  max_data_lines :: nat

record sse_frame =
  frame_event :: "bytes option"
  frame_data :: bytes
  frame_id :: "bytes option"
  frame_retry :: "duration option"

datatype sse_decoder_state = DecoderActive | DecoderFinished | DecoderFailed

datatype sse_stream_state = StreamActive | StreamCompleted | StreamRemoteError | StreamFailed

datatype sse_decode_error =
    InvalidLimit bytes
  | LineTooLarge nat
  | EventTooLarge nat
  | TooManyDataLines nat
  | InvalidUtf8 nat "nat option"
  | DecoderInactive sse_decoder_state
  | StreamInactive sse_stream_state
  | UnexpectedEof bytes

record sse_decoder =
  limits :: sse_limits
  decoder_state :: sse_decoder_state
  line_buffer :: bytes
  search_from :: nat
  bom_checked :: bool
  event_name :: "bytes option"
  event_data :: bytes
  data_lines :: nat
  last_event_id :: "bytes option"
  event_retry :: "duration option"
  reconnect_retry :: "duration option"

section \<open>Limits and construction\<close>

definition sse_limits_new :: "nat \<Rightarrow> nat \<Rightarrow> nat \<Rightarrow> (sse_decode_error, sse_limits) result" where
  "sse_limits_new line_bytes event_bytes lines =
     (if line_bytes = 0 then Err (InvalidLimit ''max_line_bytes'')
      else if event_bytes = 0 then Err (InvalidLimit ''max_event_bytes'')
      else if lines = 0 then Err (InvalidLimit ''max_data_lines'')
      else Ok \<lparr>max_line_bytes = line_bytes, max_event_bytes = event_bytes,
               max_data_lines = lines\<rparr>)"

definition sse_limits_default :: sse_limits where
  "sse_limits_default =
     \<lparr>max_line_bytes = DEFAULT_MAX_SSE_LINE_BYTES,
      max_event_bytes = DEFAULT_MAX_SSE_EVENT_BYTES,
      max_data_lines = DEFAULT_MAX_SSE_DATA_LINES\<rparr>"

definition sse_decoder_new :: "sse_limits \<Rightarrow> sse_decoder" where
  "sse_decoder_new l =
     \<lparr>limits = l, decoder_state = DecoderActive, line_buffer = [], search_from = 0,
      bom_checked = False, event_name = None, event_data = [], data_lines = 0,
      last_event_id = None, event_retry = None, reconnect_retry = None\<rparr>"

definition buffered_bytes :: "sse_decoder \<Rightarrow> nat" where
  "buffered_bytes d =
     saturating_add
       (saturating_add
         (saturating_add (length (line_buffer d)) (length (event_data d)))
         (case event_name d of None \<Rightarrow> 0 | Some s \<Rightarrow> length s))
       (case last_event_id d of None \<Rightarrow> 0 | Some s \<Rightarrow> length s)"

section \<open>Fields of an event\<close>

definition take_event :: "sse_decoder \<Rightarrow> sse_frame option \<times> sse_decoder" where
  "take_event d =
     (if data_lines d = 0 then (None, d\<lparr>event_name := None, event_retry := None\<rparr>)
      else (Some \<lparr>frame_event = event_name d, frame_data = event_data d,
                  frame_id = last_event_id d, frame_retry = event_retry d\<rparr>,
            d\<lparr>data_lines := 0, event_name := None, event_data := [], event_retry := None\<rparr>))"

definition push_data :: "bytes \<Rightarrow> sse_decoder \<Rightarrow> (sse_decode_error, unit) result \<times> sse_decoder" where
  "push_data value d =
     (if data_lines d \<ge> max_data_lines (limits d)
      then (Err (TooManyDataLines (max_data_lines (limits d))), d)
      else
        let separator_bytes = (if data_lines d \<noteq> 0 then 1 else 0);
            next_len = Option.bind (checked_add (length (event_data d)) separator_bytes)
                         (\<lambda>len. checked_add len (length value))
        in case next_len of
             None \<Rightarrow> (Err (EventTooLarge (max_event_bytes (limits d))), d)
           | Some n \<Rightarrow>
               if n > max_event_bytes (limits d)
               then (Err (EventTooLarge (max_event_bytes (limits d))), d)
               else (Ok (), d\<lparr>event_data :=
                               event_data d @ (if data_lines d \<noteq> 0 then [LF] else []) @ value,
                              data_lines := data_lines d + 1\<rparr>))"

definition set_retry :: "bytes \<Rightarrow> sse_decoder \<Rightarrow> sse_decoder" where
  "set_retry value d =
     (if value = [] \<or> \<not> list_all is_ascii_digit value then d
      else case parse_u64 value of
             None \<Rightarrow> d
           | Some milliseconds \<Rightarrow>
               d\<lparr>event_retry := Some (from_millis milliseconds),
                 reconnect_retry := Some (from_millis milliseconds)\<rparr>)"

text \<open>The part of \<^verbatim>\<open>process_line\<close> after the line is known to be a field: its name and value.\<close>

definition split_field :: "bytes \<Rightarrow> bytes \<times> bytes" where
  "split_field line =
     (let (field, value) = (case split_once (CHR '':'') line of
                              Some parts \<Rightarrow> parts | None \<Rightarrow> (line, []))
      in (field, case strip_prefix '' '' value of Some v \<Rightarrow> v | None \<Rightarrow> value))"

definition process_field ::
    "bytes \<Rightarrow> bytes \<Rightarrow> sse_decoder \<Rightarrow> (sse_decode_error, unit) result \<times> sse_decoder" where
  "process_field field value d =
     (if field = ''event'' then
        (Ok (), d\<lparr>event_name := (if value = [] then None else Some value)\<rparr>)
      else if field = ''data'' then push_data value d
      else if field = ''id'' \<and> CHR 0x00 \<notin> set value then
        (Ok (), d\<lparr>last_event_id := Some value\<rparr>)
      else if field = ''retry'' then (Ok (), set_retry value d)
      else (Ok (), d))"

definition process_line ::
    "bytes \<Rightarrow> sse_decoder \<Rightarrow> sse_frame list \<Rightarrow>
       (sse_decode_error, unit) result \<times> sse_decoder \<times> sse_frame list" where
  "process_line raw_line d frames =
     (if length raw_line > max_line_bytes (limits d)
      then (Err (LineTooLarge (max_line_bytes (limits d))), d, frames)
      else case from_utf8 raw_line of
        Err e \<Rightarrow> (Err (InvalidUtf8 (valid_up_to e) (error_len e)), d, frames)
      | Ok line \<Rightarrow>
          if line = [] then
            (case take_event d of
               (Some frame, d') \<Rightarrow> (Ok (), d', frames @ [frame])
             | (None, d') \<Rightarrow> (Ok (), d', frames))
          else if prefix '':'' line then (Ok (), d, frames)
          else
            let (field, value) = split_field line;
                (r, d') = process_field field value d
            in (r, d', frames))"

section \<open>Line framing\<close>

definition ensure_bom_checked :: "bool \<Rightarrow> sse_decoder \<Rightarrow> bool \<times> sse_decoder" where
  "ensure_bom_checked eof d =
     (if bom_checked d then (True, d)
      else if \<not> eof \<and> length (line_buffer d) < length UTF8_BOM \<and> prefix (line_buffer d) UTF8_BOM
      then (False, d)
      else
        let d' = (if prefix UTF8_BOM (line_buffer d)
                  then d\<lparr>line_buffer := drop (length UTF8_BOM) (line_buffer d),
                         search_from := saturating_sub (search_from d) (length UTF8_BOM)\<rparr>
                  else d)
        in (True, d'\<lparr>bom_checked := True\<rparr>))"

text \<open>
  The scan of \<^verbatim>\<open>next_line\<close>: from \<open>cursor\<close>, the first line end with the length of its
  terminator, and the position the next scan resumes from.
\<close>

function next_line_loop :: "bool \<Rightarrow> bytes \<Rightarrow> nat \<Rightarrow> nat \<Rightarrow> (nat \<times> nat) option \<times> nat" where
  "next_line_loop eof buf resume cursor =
     (if cursor < length buf then
        (if buf ! cursor = LF then (Some (cursor, 1), resume)
         else if buf ! cursor = CR \<and> cursor + 1 < length buf then
           (Some (cursor, if buf ! (cursor + 1) = LF then 2 else 1), resume)
         else if buf ! cursor = CR \<and> eof then (Some (cursor, 1), resume)
         else if buf ! cursor = CR then (None, cursor)
         else next_line_loop eof buf resume (cursor + 1))
      else (None, length buf))"
  by pat_completeness auto
termination
  by (relation "measure (\<lambda>(eof, buf, resume, cursor). length buf - cursor)") auto

declare next_line_loop.simps [simp del]

definition next_line :: "bool \<Rightarrow> sse_decoder \<Rightarrow> (nat \<times> nat) option \<times> sse_decoder" where
  "next_line eof d =
     (let (r, resume) = next_line_loop eof (line_buffer d) (search_from d)
                          (min (search_from d) (length (line_buffer d)))
      in (r, d\<lparr>search_from := resume\<rparr>))"

lemma next_line_loop_Some:
  "next_line_loop eof buf resume cursor = (Some (e, t), r) \<Longrightarrow> e < length buf \<and> 0 < t"
proof (induction eof buf resume cursor rule: next_line_loop.induct)
  case (1 eof buf resume cursor)
  from "1.prems" show ?case
    by (subst (asm) next_line_loop.simps) (auto split: if_splits dest: "1.IH")
qed

lemma process_field_line_buffer [simp]:
  "line_buffer (snd (process_field f v d)) = line_buffer d"
  by (auto simp: process_field_def push_data_def set_retry_def Let_def split: option.splits)

lemma take_event_line_buffer [simp]: "line_buffer (snd (take_event d)) = line_buffer d"
  by (simp add: take_event_def)

lemma process_line_line_buffer [simp]:
  "line_buffer (fst (snd (process_line l d fs))) = line_buffer d"
  using take_event_line_buffer [of d] process_field_line_buffer [of "fst (split_field l)" "snd (split_field l)" d]
  by (auto simp: process_line_def Let_def split: sum.splits prod.splits option.splits
           simp del: take_event_line_buffer process_field_line_buffer)

lemma drain_step_shrinks:
  assumes "next_line eof d = (Some (e, t), d1)"
    and "process_line l (d1\<lparr>line_buffer := drop (e + t) (line_buffer d1), search_from := 0\<rparr>) fs
      = (r, d3, fs')"
  shows "length (line_buffer d3) < length (line_buffer d)"
proof -
  have "line_buffer d3 = drop (e + t) (line_buffer d1)"
    using process_line_line_buffer [of l
        "d1\<lparr>line_buffer := drop (e + t) (line_buffer d1), search_from := 0\<rparr>" fs] assms(2)
    by simp
  with assms(1) show ?thesis
    by (auto simp: next_line_def split: prod.splits dest!: next_line_loop_Some)
qed

text \<open>The \<^verbatim>\<open>while let\<close> loop of \<^verbatim>\<open>drain_complete_lines\<close>; each round takes at least one byte off.\<close>

function drain_loop ::
    "bool \<Rightarrow> sse_decoder \<Rightarrow> sse_frame list \<Rightarrow>
       (sse_decode_error, unit) result \<times> sse_decoder \<times> sse_frame list" where
  "drain_loop eof d frames =
     (case next_line eof d of
        (None, d1) \<Rightarrow> (Ok (), d1, frames)
      | (Some (line_end, terminator_len), d1) \<Rightarrow>
          let next_start = line_end + terminator_len;
              line = take line_end (take next_start (line_buffer d1));
              d2 = d1\<lparr>line_buffer := drop next_start (line_buffer d1), search_from := 0\<rparr>
          in case process_line line d2 frames of
               (Err e, d3, frames') \<Rightarrow> (Err e, d3, frames')
             | (Ok _, d3, frames') \<Rightarrow> drain_loop eof d3 frames')"
  by pat_completeness auto
termination
  by (relation "measure (\<lambda>(eof, d, frames). length (line_buffer d))")
    (auto simp: Let_def dest: drain_step_shrinks [OF sym sym])

declare drain_loop.simps [simp del]

definition drain_complete_lines ::
    "bool \<Rightarrow> sse_decoder \<Rightarrow> sse_frame list \<Rightarrow>
       (sse_decode_error, unit) result \<times> sse_decoder \<times> sse_frame list" where
  "drain_complete_lines eof d frames =
     (case ensure_bom_checked eof d of
        (False, d1) \<Rightarrow> (Ok (), d1, frames)
      | (True, d1) \<Rightarrow> drain_loop eof d1 frames)"

definition check_incomplete_line_limit :: "sse_decoder \<Rightarrow> (sse_decode_error, unit) result" where
  "check_incomplete_line_limit d =
     (if \<not> bom_checked d \<and> prefix (line_buffer d) UTF8_BOM then Ok ()
      else
        let content_len =
              (if line_buffer d \<noteq> [] \<and> last (line_buffer d) = CR
               then saturating_sub (length (line_buffer d)) 1
               else length (line_buffer d))
        in if content_len > max_line_bytes (limits d)
           then Err (LineTooLarge (max_line_bytes (limits d))) else Ok ())"

section \<open>The public operations\<close>

definition clear_retained :: "sse_decoder \<Rightarrow> sse_decoder" where
  "clear_retained d =
     d\<lparr>line_buffer := [], search_from := 0, event_name := None, event_data := [],
       data_lines := 0, last_event_id := None, event_retry := None, reconnect_retry := None\<rparr>"

definition fail :: "sse_decoder \<Rightarrow> sse_decoder" where
  "fail d = (clear_retained d)\<lparr>decoder_state := DecoderFailed\<rparr>"

definition ensure_active :: "sse_decoder \<Rightarrow> (sse_decode_error, unit) result" where
  "ensure_active d =
     (if decoder_state d = DecoderActive then Ok () else Err (DecoderInactive (decoder_state d)))"

text \<open>One iteration of the \<^verbatim>\<open>for slice in chunk.chunks(..)\<close> loop of \<^verbatim>\<open>push_inner\<close>, and the loop.\<close>

definition feed_slice ::
    "bytes \<Rightarrow> sse_decoder \<Rightarrow> sse_frame list \<Rightarrow>
       (sse_decode_error, unit) result \<times> sse_decoder \<times> sse_frame list" where
  "feed_slice bs d frames =
     (case drain_complete_lines False (d\<lparr>line_buffer := line_buffer d @ bs\<rparr>) frames of
        (Err e, d', frames') \<Rightarrow> (Err e, d', frames')
      | (Ok _, d', frames') \<Rightarrow> (check_incomplete_line_limit d', d', frames'))"

fun feed_slices ::
    "bytes list \<Rightarrow> sse_decoder \<Rightarrow> sse_frame list \<Rightarrow>
       (sse_decode_error, unit) result \<times> sse_decoder \<times> sse_frame list" where
  "feed_slices [] d frames = (Ok (), d, frames)"
| "feed_slices (bs # slices) d frames =
     (case feed_slice bs d frames of
        (Err e, d', frames') \<Rightarrow> (Err e, d', frames')
      | (Ok _, d', frames') \<Rightarrow> feed_slices slices d' frames')"

definition push_inner ::
    "bytes \<Rightarrow> sse_decoder \<Rightarrow> (sse_decode_error, sse_frame list) result \<times> sse_decoder" where
  "push_inner chunk d =
     (case feed_slices (chunks FEED_SLICE_BYTES chunk) d [] of
        (Err e, d', _) \<Rightarrow> (Err e, d')
      | (Ok _, d', frames) \<Rightarrow> (Ok frames, d'))"

definition push ::
    "bytes \<Rightarrow> sse_decoder \<Rightarrow> (sse_decode_error, sse_frame list) result \<times> sse_decoder" where
  "push chunk d =
     (case ensure_active d of
        Err e \<Rightarrow> (Err e, d)
      | Ok _ \<Rightarrow>
          (case push_inner chunk d of
             (Err e, d') \<Rightarrow> (Err e, fail d')
           | (Ok frames, d') \<Rightarrow> (Ok frames, d')))"

definition finish_inner ::
    "sse_decoder \<Rightarrow> (sse_decode_error, sse_frame list) result \<times> sse_decoder" where
  "finish_inner d =
     (case drain_complete_lines True d [] of
        (Err e, d1, _) \<Rightarrow> (Err e, d1)
      | (Ok _, d1, frames) \<Rightarrow>
          (case (if line_buffer d1 \<noteq> []
                 then process_line (line_buffer d1)
                        (d1\<lparr>line_buffer := [], search_from := 0\<rparr>) frames
                 else (Ok (), d1, frames)) of
             (Err e, d2, _) \<Rightarrow> (Err e, d2)
           | (Ok _, d2, frames') \<Rightarrow>
               (case take_event d2 of
                  (Some frame, d3) \<Rightarrow> (Ok (frames' @ [frame]), d3)
                | (None, d3) \<Rightarrow> (Ok frames', d3))))"

definition finish ::
    "sse_decoder \<Rightarrow> (sse_decode_error, sse_frame list) result \<times> sse_decoder" where
  "finish d =
     (case ensure_active d of
        Err e \<Rightarrow> (Err e, d)
      | Ok _ \<Rightarrow>
          (case finish_inner d of
             (Ok frames, d') \<Rightarrow> (Ok frames, (clear_retained d')\<lparr>decoder_state := DecoderFinished\<rparr>)
           | (Err e, d') \<Rightarrow> (Err e, fail d')))"

definition close :: "sse_decoder \<Rightarrow> sse_decoder" where
  "close d =
     (if decoder_state d = DecoderActive then (clear_retained d)\<lparr>decoder_state := DecoderFinished\<rparr> else d)"

end
