(* ===== verification/Sse_Framing.thy ===== *)
theory Sse_Framing
  imports Sse_Decoder
begin

text \<open>
  What the incremental parser computes.  The specification is a one-shot decoder: strip a leading
  byte-order mark, split the whole input into lines, process the lines in order.  The refinement
  shows that the incremental decoder, with its resumable scan, its slicing of large chunks and its
  look-ahead at a trailing CR, gives the same frames or the same error for every way of cutting the
  input into chunks.
\<close>

section \<open>Specification: lines of a byte string\<close>

text \<open>The first complete line and what follows it.  A final CR is a line end only at end of file:
  before that the next byte decides between CR and CRLF.\<close>

fun take_line :: "bool \<Rightarrow> bytes \<Rightarrow> (bytes \<times> bytes) option" where
  "take_line eof [] = None"
| "take_line eof (b # bs) =
     (if b = LF then Some ([], bs)
      else if b = CR then
        (case bs of [] \<Rightarrow> if eof then Some ([], []) else None
         | c # cs \<Rightarrow> Some ([], if c = LF then cs else c # cs))
      else map_option (\<lambda>(l, r). (b # l, r)) (take_line eof bs))"

lemma take_line_shrinks: "take_line eof bs = Some (l, r) \<Longrightarrow> length l + length r < length bs"
proof (induction bs arbitrary: l)
  case (Cons b bs)
  then show ?case by (fastforce split: if_splits list.splits)
qed simp

function split_lines :: "bool \<Rightarrow> bytes \<Rightarrow> bytes list \<times> bytes" where
  "split_lines eof bs =
     (case take_line eof bs of
        None \<Rightarrow> ([], bs)
      | Some (l, r) \<Rightarrow> let (ls, rest) = split_lines eof r in (l # ls, rest))"
  by pat_completeness auto
termination
  by (relation "measure (\<lambda>(eof, bs). length bs)") (auto dest: take_line_shrinks)

declare split_lines.simps [simp del]

definition eof_lines :: "bytes \<Rightarrow> bytes list" where
  "eof_lines bs = (let (ls, r) = split_lines True bs in ls @ (if r = [] then [] else [r]))"

fun run_lines ::
    "bytes list \<Rightarrow> sse_decoder \<Rightarrow> sse_frame list \<Rightarrow>
       (sse_decode_error, unit) result \<times> sse_decoder \<times> sse_frame list" where
  "run_lines [] d frames = (Ok (), d, frames)"
| "run_lines (l # ls) d frames =
     (case process_line l d frames of
        (Err e, d', frames') \<Rightarrow> (Err e, d', frames')
      | (Ok _, d', frames') \<Rightarrow> run_lines ls d' frames')"

definition strip_bom :: "bytes \<Rightarrow> bytes" where
  "strip_bom bs = (if prefix UTF8_BOM bs then drop (length UTF8_BOM) bs else bs)"

definition sse_decode :: "sse_limits \<Rightarrow> bytes \<Rightarrow> (sse_decode_error, sse_frame list) result" where
  "sse_decode l bs =
     (case run_lines (eof_lines (strip_bom bs)) (sse_decoder_new l) [] of
        (Err e, _, _) \<Rightarrow> Err e
      | (Ok _, d, frames) \<Rightarrow>
          Ok (frames @ (case fst (take_event d) of None \<Rightarrow> [] | Some f \<Rightarrow> [f])))"

text \<open>The incremental decoder driven by a caller: push every chunk, then finish.\<close>

fun decode_chunks ::
    "bytes list \<Rightarrow> sse_decoder \<Rightarrow> (sse_decode_error, sse_frame list) result" where
  "decode_chunks [] d = fst (finish d)"
| "decode_chunks (c # cs) d =
     (case push c d of
        (Err e, _) \<Rightarrow> Err e
      | (Ok frames, d') \<Rightarrow>
          (case decode_chunks cs d' of Err e \<Rightarrow> Err e | Ok frames' \<Rightarrow> Ok (frames @ frames')))"

section \<open>Lines\<close>

definition no_terminator :: "bytes \<Rightarrow> bool" where
  "no_terminator bs \<longleftrightarrow> LF \<notin> set bs \<and> CR \<notin> set bs"

definition content_len :: "bytes \<Rightarrow> nat" where
  "content_len bs = (if bs \<noteq> [] \<and> last bs = CR then length bs - 1 else length bs)"

lemma take_line_no_terminator:
  "no_terminator p \<Longrightarrow> take_line eof (p @ bs) = map_option (\<lambda>(l, r). (p @ l, r)) (take_line eof bs)"
  by (induction p)
    (auto simp: no_terminator_def option.map_comp comp_def split_def option.map_ident)

lemma take_line_None_iff:
  "take_line eof bs = None \<longleftrightarrow>
     no_terminator bs \<or> \<not> eof \<and> (\<exists>p. bs = p @ [CR] \<and> no_terminator p)"
proof (induction bs)
  case (Cons b bs)
  have "(\<exists>p. b # bs = p @ [CR] \<and> no_terminator p) \<longleftrightarrow>
     bs = [] \<and> b = CR \<or> b \<noteq> LF \<and> b \<noteq> CR \<and> (\<exists>p. bs = p @ [CR] \<and> no_terminator p)"
    by (auto simp: no_terminator_def Cons_eq_append_conv)
  with Cons.IH show ?case
    by (auto simp: no_terminator_def split: list.splits)
qed (simp add: no_terminator_def)

lemma no_terminator_append [simp]:
  "no_terminator (a @ b) \<longleftrightarrow> no_terminator a \<and> no_terminator b"
  by (auto simp: no_terminator_def)

lemma no_terminator_Nil [simp]: "no_terminator []"
  by (simp add: no_terminator_def)

lemma content_len_no_terminator: "no_terminator p \<Longrightarrow> content_len p = length p"
  by (auto simp: content_len_def no_terminator_def dest: last_in_set)

lemma content_len_snoc_CR [simp]: "content_len (p @ [CR]) = length p"
  by (simp add: content_len_def)

text \<open>An incomplete line that is already too long stays too long: either it completes to a line at
  least as long, or it is still incomplete and at least as long.\<close>

lemma take_line_content_mono:
  assumes "take_line False r = None"
  shows "(case take_line False (r @ bs) of
            Some (l, _) \<Rightarrow> content_len r \<le> length l
          | None \<Rightarrow> content_len r \<le> content_len (r @ bs))"
proof -
  from assms consider "no_terminator r" | p where "r = p @ [CR]" "no_terminator p"
    by (auto simp: take_line_None_iff)
  then show ?thesis
  proof cases
    case 1
    have "length r \<le> content_len (r @ bs)"
      using 1 by (cases bs rule: rev_cases)
        (auto simp: content_len_def no_terminator_def dest: last_in_set)
    with 1 show ?thesis
      by (auto simp: take_line_no_terminator content_len_no_terminator split: option.splits)
  next
    case 2
    then show ?thesis
      by (cases bs) (auto simp: take_line_no_terminator)
  qed
qed

lemma take_line_append:
  assumes "take_line False a = Some (l, r)"
  shows "take_line eof (a @ b) = Some (l, r @ b)"
  using assms
proof (induction a arbitrary: l)
  case (Cons x xs)
  show ?case
  proof (cases "x = CR")
    case True
    with Cons.prems show ?thesis by (cases xs) auto
  next
    case False
    with Cons show ?thesis by (auto split: if_splits)
  qed
qed simp

lemma split_lines_append:
  assumes "split_lines False a = (ls, r)"
  shows "split_lines eof (a @ b) = (let (ls', r') = split_lines eof (r @ b) in (ls @ ls', r'))"
  using assms
proof (induction "length a" arbitrary: a ls r rule: less_induct)
  case less
  show ?case
  proof (cases "take_line False a")
    case None
    with less.prems show ?thesis
      by (subst (asm) split_lines.simps) (auto split: prod.splits)
  next
    case (Some x)
    obtain l a' where x: "x = (l, a')" by (cases x)
    obtain ls1 where ls1: "split_lines False a' = (ls1, r)" "ls = l # ls1"
      using less.prems Some x by (subst (asm) split_lines.simps) (auto split: prod.splits)
    have "length a' < length a"
      using take_line_shrinks [of False a l a'] Some x by simp
    from less.hyps [OF this ls1(1)] ls1(2) show ?thesis
      using take_line_append [of a l a' eof b] Some x
      by (subst split_lines.simps) (simp add: split_def Let_def)
  qed
qed

lemma split_lines_rest: "take_line eof (snd (split_lines eof bs)) = None"
proof (induction eof bs rule: split_lines.induct)
  case (1 eof bs)
  show ?case
    by (subst split_lines.simps) (auto split: option.splits prod.splits dest: "1.IH" [OF _ refl])
qed

lemma split_lines_None: "take_line eof bs = None \<Longrightarrow> split_lines eof bs = ([], bs)"
  by (subst split_lines.simps) simp

lemma split_lines_Some:
  "take_line eof bs = Some (l, r) \<Longrightarrow>
     split_lines eof bs = (l # fst (split_lines eof r), snd (split_lines eof r))"
  by (subst split_lines.simps) (simp add: split_def Let_def)

lemma eof_lines_append:
  "split_lines False a = (ls, r) \<Longrightarrow> eof_lines (a @ b) = ls @ eof_lines (r @ b)"
  by (simp add: eof_lines_def split_lines_append [of a ls r True b] split_def Let_def)

section \<open>The resumable scan\<close>

text \<open>Scanning from any position before which there is no terminator finds the first line, and
  leaves the resume position at the trailing CR or at the end.\<close>

definition resume_at :: "bytes \<Rightarrow> nat" where
  "resume_at bs = (if bs \<noteq> [] \<and> last bs = CR then length bs - 1 else length bs)"

lemma next_line_loop_take_line:
  assumes "c \<le> length buf" and "no_terminator (take c buf)"
  shows "(case take_line eof buf of
           None \<Rightarrow> next_line_loop eof buf s c = (None, resume_at buf)
         | Some (l, r) \<Rightarrow> \<exists>t. next_line_loop eof buf s c = (Some (length l, t), s)
               \<and> take (length l) buf = l \<and> drop (length l + t) buf = r)"
  using assms
proof (induction eof buf s c rule: next_line_loop.induct)
  case (1 eof buf s c)
  show ?case
  proof (cases "c < length buf")
    case False
    with "1.prems" have "no_terminator buf" and "c = length buf" by auto
    then have "take_line eof buf = None" "resume_at buf = length buf"
      by (auto simp: take_line_None_iff resume_at_def no_terminator_def dest: last_in_set)
    with False show ?thesis by (subst next_line_loop.simps) simp
  next
    case True
    define p where "p = take c buf"
    define q where "q = drop (Suc c) buf"
    have buf: "buf = p @ buf ! c # q" and p: "no_terminator p" "length p = c"
      using True "1.prems" by (simp_all add: p_def q_def id_take_nth_drop)
    let ?b = "buf ! c"
    have tl: "take_line eof buf = map_option (\<lambda>(l, r). (p @ l, r)) (take_line eof (?b # q))"
      using take_line_no_terminator [OF p(1)] buf by metis
    have nth: "buf ! Suc c = q ! 0" if "q \<noteq> []"
      using that p(2) by (subst buf) (simp add: nth_append)
    have lenb: "length buf = Suc (c + length q)"
      using p(2) by (subst buf) simp
    show ?thesis
    proof (cases "?b = LF \<or> ?b = CR")
      case False
      then have "no_terminator (take (c + 1) buf)"
        using p True by (auto simp: take_Suc_conv_app_nth p_def no_terminator_def)
      with False True "1.IH" have IH:
        "case take_line eof buf of
           None \<Rightarrow> next_line_loop eof buf s (c + 1) = (None, resume_at buf)
         | Some (l, r) \<Rightarrow> \<exists>t. next_line_loop eof buf s (c + 1) = (Some (length l, t), s)
               \<and> take (length l) buf = l \<and> drop (length l + t) buf = r"
        by auto
      have eq: "next_line_loop eof buf s c = next_line_loop eof buf s (c + 1)"
        using False True by (subst next_line_loop.simps) auto
      show ?thesis unfolding eq by (rule IH)
    next
      case brk: True
      have dr: "drop (c + n) buf = drop n (?b # q)" for n
        using p(2) by (subst (1) buf) simp
      have last: "last buf = ?b" if "q = []"
        using that by (subst buf) simp
      note loop = next_line_loop.simps [of _ buf s c]
      show ?thesis
      proof (cases "q = []")
        case True
        then show ?thesis
          using tl brk p lenb dr [of 1] last \<open>c < length buf\<close>
          by (auto simp: loop p_def resume_at_def)
      next
        case False
        then obtain x xs where q: "q = x # xs" by (cases q) auto
        show ?thesis
          using tl brk p lenb dr [of 1] dr [of 2] nth q \<open>c < length buf\<close>
          by (auto simp: loop p_def)
      qed
    qed
  qed
qed

section \<open>One line\<close>

definition utf8_failure :: "bytes \<Rightarrow> sse_decode_error" where
  "utf8_failure l =
     InvalidUtf8 (valid_up_to (the (utf8_check 0 l))) (error_len (the (utf8_check 0 l)))"

definition event_of :: "sse_decoder \<Rightarrow> sse_frame list" where
  "event_of d = (case fst (take_event d) of None \<Rightarrow> [] | Some f \<Rightarrow> [f])"

text \<open>The branches of \<^verbatim>\<open>process_line\<close>, with the pairs taken apart.\<close>

lemma process_line_branches:
  "process_line l d fs =
     (if length l > max_line_bytes (limits d)
      then (Err (LineTooLarge (max_line_bytes (limits d))), d, fs)
      else if \<not> utf8_valid l then (Err (utf8_failure l), d, fs)
      else if l = [] then (Ok (), snd (take_event d), fs @ event_of d)
      else if prefix '':'' l then (Ok (), d, fs)
      else (fst (process_field (fst (split_field l)) (snd (split_field l)) d),
            snd (process_field (fst (split_field l)) (snd (split_field l)) d), fs))"
  by (simp add: process_line_def from_utf8_if utf8_failure_def event_of_def Let_def split_def
      split: option.split)

lemma event_of_cases: "event_of d = [] \<or> (\<exists>f. event_of d = [f])"
  by (simp add: event_of_def split: option.splits)

section \<open>Processing lines leaves the framing alone\<close>

text \<open>The fields the line scanner owns; processing a line neither reads nor writes them.\<close>

definition set_framing :: "bytes \<Rightarrow> nat \<Rightarrow> bool \<Rightarrow> sse_decoder \<Rightarrow> sse_decoder" where
  "set_framing b s c d = d\<lparr>line_buffer := b, search_from := s, bom_checked := c\<rparr>"

lemma set_framing_simps [simp]:
  "limits (set_framing b s c d) = limits d"
  "decoder_state (set_framing b s c d) = decoder_state d"
  "line_buffer (set_framing b s c d) = b"
  "search_from (set_framing b s c d) = s"
  "bom_checked (set_framing b s c d) = c"
  "event_name (set_framing b s c d) = event_name d"
  "event_data (set_framing b s c d) = event_data d"
  "data_lines (set_framing b s c d) = data_lines d"
  "last_event_id (set_framing b s c d) = last_event_id d"
  "event_retry (set_framing b s c d) = event_retry d"
  "set_framing b s c (set_framing b' s' c' d) = set_framing b s c d"
  by (simp_all add: set_framing_def)

lemma set_framing_self [simp]:
  "set_framing (line_buffer d) (search_from d) (bom_checked d) d = d"
  by (simp add: set_framing_def)

lemma set_framing_fields:
  "(set_framing b s c d)\<lparr>event_name := x\<rparr> = set_framing b s c (d\<lparr>event_name := x\<rparr>)"
  "(set_framing b s c d)\<lparr>last_event_id := x\<rparr> = set_framing b s c (d\<lparr>last_event_id := x\<rparr>)"
  by (simp_all add: set_framing_def)

lemma push_data_framing:
  "push_data v (set_framing b s c d) = map_prod (\<lambda>r. r) (set_framing b s c) (push_data v d)"
  by (simp add: push_data_def set_framing_def Let_def split: option.split)

lemma set_retry_framing: "set_retry v (set_framing b s c d) = set_framing b s c (set_retry v d)"
  by (simp add: set_retry_def set_framing_def split: option.split)

lemma process_field_framing:
  "process_field f v (set_framing b s c d) =
     map_prod (\<lambda>r. r) (set_framing b s c) (process_field f v d)"
proof -
  consider "f = ''event''" | "f = ''data''" | "f = ''id''" | "f = ''retry''"
    | "f \<noteq> ''event''" "f \<noteq> ''data''" "f \<noteq> ''id''" "f \<noteq> ''retry''" by blast
  then show ?thesis
    by cases (simp_all add: process_field_def push_data_framing set_retry_framing
        set_framing_fields)
qed

lemma take_event_framing:
  "take_event (set_framing b s c d) = map_prod (\<lambda>r. r) (set_framing b s c) (take_event d)"
  by (simp add: take_event_def set_framing_def)

lemma process_line_framing:
  "process_line l (set_framing b s c d) fs =
     map_prod (\<lambda>r. r) (map_prod (set_framing b s c) (\<lambda>fs. fs)) (process_line l d fs)"
  by (simp add: process_line_branches process_field_framing take_event_framing event_of_def)

lemma run_lines_framing:
  "run_lines ls (set_framing b s c d) fs =
     map_prod (\<lambda>r. r) (map_prod (set_framing b s c) (\<lambda>fs. fs)) (run_lines ls d fs)"
  by (induction ls arbitrary: d fs)
    (auto simp: process_line_framing split: prod.splits sum.splits)

definition same_setup :: "sse_decoder \<Rightarrow> sse_decoder \<Rightarrow> bool" where
  "same_setup d d' \<longleftrightarrow> limits d' = limits d \<and> decoder_state d' = decoder_state d
     \<and> bom_checked d' = bom_checked d"

lemma same_setup_refl [simp]: "same_setup d d"
  by (simp add: same_setup_def)

lemma same_setup_trans: "same_setup a b \<Longrightarrow> same_setup b c \<Longrightarrow> same_setup a c"
  by (simp add: same_setup_def)

lemma fail_same_setup: "same_setup d d' \<Longrightarrow> fail d' = fail d"
  by (simp add: same_setup_def fail_def clear_retained_def)

lemma process_field_setup: "same_setup d (snd (process_field f v d))"
  by (auto simp: process_field_def push_data_def set_retry_def same_setup_def Let_def
      split: option.splits)

lemma process_line_setup: "process_line l d fs = (r, d', fs') \<Longrightarrow> same_setup d d'"
  using process_field_setup [of d "fst (split_field l)" "snd (split_field l)"]
  by (auto simp: process_line_branches take_event_def same_setup_def split: if_splits)

lemma run_lines_setup: "run_lines ls d fs = (r, d', fs') \<Longrightarrow> same_setup d d'"
proof (induction ls arbitrary: d fs)
  case (Cons l ls)
  then show ?case
    by (auto split: prod.splits sum.splits dest!: process_line_setup intro: same_setup_trans)
qed auto

lemma process_line_frames:
  "process_line l d (fs @ gs) = map_prod (\<lambda>r. r) (map_prod (\<lambda>d. d) ((@) fs)) (process_line l d gs)"
  by (simp add: process_line_branches)

lemma run_lines_frames:
  "run_lines ls d (fs @ gs) = map_prod (\<lambda>r. r) (map_prod (\<lambda>d. d) ((@) fs)) (run_lines ls d gs)"
  by (induction ls arbitrary: d gs)
    (auto simp: process_line_frames split: prod.splits sum.splits)

lemma run_lines_append:
  "run_lines (ls @ ls') d fs =
     (case run_lines ls d fs of
        (Err e, d', fs') \<Rightarrow> (Err e, d', fs')
      | (Ok _, d', fs') \<Rightarrow> run_lines ls' d' fs')"
  by (induction ls arbitrary: d fs) (auto split: prod.splits sum.splits)

section \<open>The drain loop processes the complete lines\<close>

lemma next_line_take_line:
  assumes "no_terminator (take (search_from d) (line_buffer d))"
  shows "(case take_line eof (line_buffer d) of
           None \<Rightarrow> next_line eof d = (None, d\<lparr>search_from := resume_at (line_buffer d)\<rparr>)
         | Some (l, r) \<Rightarrow> \<exists>t. next_line eof d = (Some (length l, t), d)
               \<and> take (length l) (line_buffer d) = l \<and> drop (length l + t) (line_buffer d) = r)"
proof -
  let ?c = "min (search_from d) (length (line_buffer d))"
  have "no_terminator (take ?c (line_buffer d))"
    using assms by (auto simp: min_def not_le)
  from next_line_loop_take_line [OF _ this, of eof "search_from d"] show ?thesis
    by (auto simp: next_line_def split: option.splits)
qed

lemma drain_loop_lines:
  assumes "no_terminator (take (search_from d) (line_buffer d))"
    and "split_lines eof (line_buffer d) = (ls, rest)"
    and "run_lines ls d fs = (r, d', fs')"
  shows "\<exists>d''. drain_loop eof d fs = (r, d'', fs') \<and> same_setup d d''
    \<and> (r = Ok () \<longrightarrow> d'' = d'\<lparr>line_buffer := rest, search_from := resume_at rest\<rparr>)"
  using assms
proof (induction "length (line_buffer d)" arbitrary: d ls fs d' rule: less_induct)
  case less
  show ?case
  proof (cases "take_line eof (line_buffer d)")
    case None
    then have ls: "ls = []" "rest = line_buffer d" "d' = d" "r = Ok ()" "fs' = fs"
      using less.prems by (auto simp: split_lines_None)
    have "drain_loop eof d fs = (Ok (), d\<lparr>search_from := resume_at (line_buffer d)\<rparr>, fs)"
      using next_line_take_line [OF less.prems(1), of eof] None
      by (subst drain_loop.simps) simp
    with ls show ?thesis by (simp add: same_setup_def)
  next
    case (Some lr)
    obtain l r0 where lr: "lr = (l, r0)" by (cases lr)
    let ?d = "set_framing r0 0 (bom_checked d) d"
    have ls: "ls = l # fst (split_lines eof r0)" "rest = snd (split_lines eof r0)"
      using less.prems(2) Some lr by (simp_all add: split_lines_Some)
    obtain t where t: "next_line eof d = (Some (length l, t), d)"
      "take (length l) (line_buffer d) = l" "drop (length l + t) (line_buffer d) = r0"
      using next_line_take_line [OF less.prems(1), of eof] Some lr by auto
    have d2: "d\<lparr>line_buffer := r0, search_from := 0\<rparr> = ?d"
      by (simp add: set_framing_def)
    obtain q d1 fs1 where pl: "process_line l d fs = (q, d1, fs1)"
      by (cases "process_line l d fs") auto
    then have pl': "process_line l ?d fs = (q, set_framing r0 0 (bom_checked d) d1, fs1)"
      by (simp add: process_line_framing)
    have stp: "same_setup d (set_framing r0 0 (bom_checked d) d1)"
      using process_line_setup [OF pl] by (simp add: same_setup_def)
    have step: "drain_loop eof d fs = (case q of Err e \<Rightarrow> (Err e, set_framing r0 0 (bom_checked d) d1, fs1)
      | Ok _ \<Rightarrow> drain_loop eof (set_framing r0 0 (bom_checked d) d1) fs1)"
      by (subst drain_loop.simps) (simp add: t d2 pl' min_absorb1 split: sum.splits)
    show ?thesis
    proof (cases q)
      case (Inl e)
      with step stp less.prems(3) ls(1) pl show ?thesis by auto
    next
      case (Inr u)
      let ?d1 = "set_framing r0 0 (bom_checked d) d1"
      obtain r1 e1 g1 where rl: "run_lines (fst (split_lines eof r0)) d1 fs1 = (r1, e1, g1)"
        by (cases "run_lines (fst (split_lines eof r0)) d1 fs1") auto
      have same: "r1 = r" "e1 = d'" "g1 = fs'"
        using less.prems(3) ls(1) pl Inr rl by auto
      have len: "length (line_buffer ?d1) < length (line_buffer d)"
        using take_line_shrinks Some lr by fastforce
      from rl have rl': "run_lines (fst (split_lines eof r0)) ?d1 fs1
          = (r, set_framing r0 0 (bom_checked d) d', fs')"
        by (simp add: run_lines_framing same)
      obtain d'' where d'': "drain_loop eof ?d1 fs1 = (r, d'', fs')" "same_setup ?d1 d''"
        "r = Ok () \<longrightarrow> d'' = (set_framing r0 0 (bom_checked d) d')
           \<lparr>line_buffer := rest, search_from := resume_at rest\<rparr>"
        using less.hyps [OF len _ _ rl'] ls(2) by auto
      have "bom_checked d' = bom_checked d"
        using run_lines_setup [OF less.prems(3)] by (simp add: same_setup_def)
      with d'' step Inr stp show ?thesis
        by (auto simp: set_framing_def intro: same_setup_trans)
    qed
  qed
qed

end
