(* ===== verification/Sse_Refinement.thy ===== *)
theory Sse_Refinement
  imports Sse_Framing
begin

text \<open>
  The framing invariant of an active decoder and the refinement of the one-shot specification:
  \<open>feed_spec\<close> is what one call of \<^verbatim>\<open>push\<close> computes on the retained bytes followed by the chunk,
  it distributes over concatenation, and hence the decoder does not depend on chunk boundaries.
\<close>

section \<open>The byte-order mark\<close>

definition bom_split :: "bool \<Rightarrow> bytes \<Rightarrow> bool \<times> bytes" where
  "bom_split checked buf =
     (if checked then (True, buf)
      else if length buf < length UTF8_BOM \<and> prefix buf UTF8_BOM then (False, buf)
      else (True, strip_bom buf))"

lemma UTF8_BOM_length [simp]: "length UTF8_BOM = 3"
  by (simp add: UTF8_BOM_def)

lemma bom_prefix_cases:
  "prefix buf UTF8_BOM \<Longrightarrow> buf = [] \<or> buf = [CHR 0xEF] \<or> buf = [CHR 0xEF, CHR 0xBB] \<or> buf = UTF8_BOM"
  by (auto simp: UTF8_BOM_def prefix_Cons)

lemma bom_prefix_no_terminator: "prefix buf UTF8_BOM \<Longrightarrow> no_terminator buf"
  using bom_prefix_cases [of buf] by (auto simp: no_terminator_def UTF8_BOM_def)

lemma bom_split_append:
  assumes "bom_split c a = (True, a')"
  shows "bom_split c (a @ b) = (True, a' @ b)"
proof (cases c)
  case False
  with assms have a: "\<not> (length a < 3 \<and> prefix a UTF8_BOM)" "a' = strip_bom a"
    by (auto simp: bom_split_def split: if_splits)
  have nolt: "\<not> (length (a @ b) < 3 \<and> prefix (a @ b) UTF8_BOM)"
    using a(1) by (auto dest: append_prefixD)
  have "prefix UTF8_BOM (a @ b) \<longleftrightarrow> prefix UTF8_BOM a"
  proof
    assume *: "prefix UTF8_BOM (a @ b)"
    show "prefix UTF8_BOM a"
    proof (cases "length a < 3")
      case True
      with * have "prefix a UTF8_BOM"
        using prefix_length_prefix [of a "a @ b" UTF8_BOM] by simp
      with a(1) True show ?thesis by simp
    next
      case False
      with * show ?thesis using prefix_length_prefix [of UTF8_BOM "a @ b" a] by simp
    qed
  qed simp
  moreover have "length a \<ge> 3" if "prefix UTF8_BOM a"
    using prefix_length_le [OF that] by simp
  ultimately show ?thesis using a nolt False
    by (auto simp: bom_split_def strip_bom_def)
qed (use assms in \<open>simp add: bom_split_def\<close>)

section \<open>The framing invariant\<close>

definition framing_inv :: "sse_decoder \<Rightarrow> bool" where
  "framing_inv d \<longleftrightarrow>
     (if bom_checked d
      then take_line False (line_buffer d) = None \<and> search_from d = resume_at (line_buffer d)
           \<and> content_len (line_buffer d) \<le> max_line_bytes (limits d)
      else length (line_buffer d) < length UTF8_BOM \<and> prefix (line_buffer d) UTF8_BOM
           \<and> search_from d = 0)"

lemma framing_inv_new: "framing_inv (sse_decoder_new l)"
  by (simp add: framing_inv_def sse_decoder_new_def)

lemma take_line_None_resume:
  "take_line False buf = None \<Longrightarrow> no_terminator (take (resume_at buf) buf)"
  by (auto simp: take_line_None_iff resume_at_def no_terminator_def dest: in_set_takeD)

lemma framing_inv_scanned:
  assumes "framing_inv d"
  shows "no_terminator (take (search_from d) (line_buffer d @ bs))"
proof (cases "bom_checked d")
  case True
  with assms have "take_line False (line_buffer d) = None" "search_from d = resume_at (line_buffer d)"
    by (simp_all add: framing_inv_def)
  moreover have "resume_at (line_buffer d) \<le> length (line_buffer d)"
    by (simp add: resume_at_def)
  ultimately show ?thesis using take_line_None_resume by simp
qed (use assms in \<open>simp add: framing_inv_def\<close>)

section \<open>What one call computes\<close>

definition feed_spec ::
    "bytes \<Rightarrow> sse_decoder \<Rightarrow> sse_frame list \<Rightarrow>
       (sse_decode_error, sse_frame list) result \<times> sse_decoder" where
  "feed_spec bs d fs =
     (case bom_split (bom_checked d) (line_buffer d @ bs) of
        (False, buf) \<Rightarrow> (Ok fs, d\<lparr>line_buffer := buf\<rparr>)
      | (True, buf) \<Rightarrow>
          let (ls, rest) = split_lines False buf in
          (case run_lines ls d fs of
             (Err e, _, _) \<Rightarrow> (Err e, fail (d\<lparr>bom_checked := True\<rparr>))
           | (Ok _, d', fs') \<Rightarrow>
               if content_len rest > max_line_bytes (limits d)
               then (Err (LineTooLarge (max_line_bytes (limits d))), fail (d\<lparr>bom_checked := True\<rparr>))
               else (Ok fs', set_framing rest (resume_at rest) True d')))"

definition settle ::
    "(sse_decode_error, unit) result \<times> sse_decoder \<times> sse_frame list \<Rightarrow>
       (sse_decode_error, sse_frame list) result \<times> sse_decoder" where
  "settle x = (case x of (Err e, d, _) \<Rightarrow> (Err e, fail d) | (Ok _, d, fs) \<Rightarrow> (Ok fs, d))"

lemma check_incomplete_checked:
  "bom_checked d \<Longrightarrow> check_incomplete_line_limit d =
     (if content_len (line_buffer d) > max_line_bytes (limits d)
      then Err (LineTooLarge (max_line_bytes (limits d))) else Ok ())"
  by (simp add: check_incomplete_line_limit_def content_len_def)

text \<open>Draining after the byte-order mark was dealt with.\<close>

lemma drain_checked_settle:
  assumes "no_terminator (take (search_from d) (line_buffer d))" and "bom_checked d"
  shows "settle (case drain_loop False d fs of
            (Err e, d', fs') \<Rightarrow> (Err e, d', fs')
          | (Ok _, d', fs') \<Rightarrow> (check_incomplete_line_limit d', d', fs'))
     = (let (ls, rest) = split_lines False (line_buffer d) in
        case run_lines ls d fs of
          (Err e, _, _) \<Rightarrow> (Err e, fail d)
        | (Ok _, d', fs') \<Rightarrow>
            if content_len rest > max_line_bytes (limits d)
            then (Err (LineTooLarge (max_line_bytes (limits d))), fail d)
            else (Ok fs', set_framing rest (resume_at rest) True d'))"
proof -
  obtain ls rest where sl: "split_lines False (line_buffer d) = (ls, rest)" by fastforce
  obtain r d' fs' where rl: "run_lines ls d fs = (r, d', fs')" by (cases "run_lines ls d fs")
  obtain d'' where d'': "drain_loop False d fs = (r, d'', fs')" "same_setup d d''"
    "r = Ok () \<longrightarrow> d'' = d'\<lparr>line_buffer := rest, search_from := resume_at rest\<rparr>"
    using drain_loop_lines [OF assms(1) sl rl] by blast
  have same: "same_setup d d'" by (rule run_lines_setup [OF rl])
  have "bom_checked d''" "limits d'' = limits d" "bom_checked d'" "limits d' = limits d"
    using d''(2) same assms(2) by (auto simp: same_setup_def)
  then show ?thesis
    using d'' sl rl fail_same_setup [OF d''(2)]
    by (cases r) (auto simp: settle_def check_incomplete_checked set_framing_def)
qed

lemma feed_slice_settle:
  assumes "framing_inv d"
  shows "settle (feed_slice bs d fs) = feed_spec bs d fs"
proof -
  let ?buf = "line_buffer d @ bs"
  let ?d = "d\<lparr>line_buffer := ?buf\<rparr>"
  have scanned: "no_terminator (take (search_from d) ?buf)"
    by (rule framing_inv_scanned [OF assms])
  show ?thesis
  proof (cases "bom_split (bom_checked d) ?buf")
    case (Pair c buf)
    show ?thesis
    proof (cases c)
      case False
      with Pair have *: "\<not> bom_checked d" "length ?buf < 3" "prefix ?buf UTF8_BOM" "buf = ?buf"
        by (auto simp: bom_split_def split: if_splits)
      then have "ensure_bom_checked False ?d = (False, ?d)"
        by (simp add: ensure_bom_checked_def)
      moreover have "check_incomplete_line_limit ?d = Ok ()"
        using * by (simp add: check_incomplete_line_limit_def)
      ultimately show ?thesis
        using Pair False *
        by (simp add: feed_slice_def drain_complete_lines_def feed_spec_def settle_def)
    next
      case True
      let ?e = "set_framing buf (search_from d) True d"
      have e: "ensure_bom_checked False ?d = (True, ?e)"
        using Pair True assms
        by (auto simp: ensure_bom_checked_def bom_split_def strip_bom_def set_framing_def
            framing_inv_def split: if_splits)
      have sc: "no_terminator (take (search_from ?e) (line_buffer ?e))"
        using scanned Pair True assms
        by (auto simp: bom_split_def framing_inv_def split: if_splits)
      have fl: "fail ?e = fail (d\<lparr>bom_checked := True\<rparr>)"
        by (simp add: set_framing_def fail_def clear_retained_def)
      show ?thesis
        unfolding feed_slice_def drain_complete_lines_def e
        using drain_checked_settle [OF sc, of fs] Pair True fl
        by (simp add: feed_spec_def run_lines_framing split_def Let_def split: sum.split)
    qed
  qed
qed

lemma feed_spec_setup:
  "feed_spec bs d fs = (Ok fs', d') \<Longrightarrow> limits d' = limits d \<and> decoder_state d' = decoder_state d"
  by (auto simp: feed_spec_def same_setup_def dest!: run_lines_setup
      split: prod.splits bool.splits sum.splits if_splits)

lemma feed_spec_framing_inv:
  assumes "framing_inv d" and "feed_spec bs d fs = (Ok fs', d')"
  shows "framing_inv d'"
proof (cases "bom_split (bom_checked d) (line_buffer d @ bs)")
  case (Pair c buf)
  show ?thesis
  proof (cases c)
    case False
    with Pair assms show ?thesis
      by (auto simp: feed_spec_def framing_inv_def bom_split_def split: if_splits)
  next
    case True
    have "limits d' = limits d" using feed_spec_setup [OF assms(2)] by simp
    then show ?thesis
      using assms(2) Pair True split_lines_rest [of False buf]
      by (auto simp: feed_spec_def framing_inv_def split_def Let_def
          split: prod.splits sum.splits if_splits)
  qed
qed

section \<open>Chunk boundaries do not matter\<close>

text \<open>\<open>feed_spec\<close> with the frames that were complete before an error kept beside it.\<close>

definition feed_keep ::
    "bytes \<Rightarrow> sse_decoder \<Rightarrow> sse_decode_error option \<times> sse_frame list \<times> sse_decoder" where
  "feed_keep bs d =
     (case bom_split (bom_checked d) (line_buffer d @ bs) of
        (False, buf) \<Rightarrow> (None, [], d\<lparr>line_buffer := buf\<rparr>)
      | (True, buf) \<Rightarrow>
          let (ls, rest) = split_lines False buf in
          (case run_lines ls d [] of
             (Err e, _, fs) \<Rightarrow> (Some e, fs, fail (d\<lparr>bom_checked := True\<rparr>))
           | (Ok _, d', fs) \<Rightarrow>
               if content_len rest > max_line_bytes (limits d)
               then (Some (LineTooLarge (max_line_bytes (limits d))), fs,
                     fail (d\<lparr>bom_checked := True\<rparr>))
               else (None, fs, set_framing rest (resume_at rest) True d')))"

lemma feed_spec_keep:
  "feed_spec bs d fs =
     (case feed_keep bs d of
        (Some e, _, d') \<Rightarrow> (Err e, d') | (None, gs, d') \<Rightarrow> (Ok (fs @ gs), d'))"
proof (cases "bom_split (bom_checked d) (line_buffer d @ bs)")
  case (Pair c buf)
  obtain q d1 gs where "run_lines (fst (split_lines False buf)) d [] = (q, d1, gs)"
    by (cases "run_lines (fst (split_lines False buf)) d []")
  with Pair run_lines_frames [of "fst (split_lines False buf)" d fs "[]"] show ?thesis
    by (cases c; cases q) (simp_all add: feed_spec_def feed_keep_def split_def Let_def)
qed

text \<open>A retained line that already exceeds the limit makes the rest fail with the same error.\<close>

lemma run_lines_too_long:
  assumes "take_line False r = None" and "content_len r > max_line_bytes (limits d)"
    and "split_lines False (r @ bs) = (ls, rest)"
  shows "run_lines ls d fs = (Err (LineTooLarge (max_line_bytes (limits d))), d, fs)
    \<or> ls = [] \<and> content_len rest > max_line_bytes (limits d)"
proof (cases "take_line False (r @ bs)")
  case None
  with assms take_line_content_mono [OF assms(1), of bs] show ?thesis
    by (auto simp: split_lines_None)
next
  case (Some lr)
  obtain l r' where lr: "lr = (l, r')" by (cases lr)
  with Some take_line_content_mono [OF assms(1), of bs] assms(2)
  have "length l > max_line_bytes (limits d)" by simp
  moreover have "ls = l # fst (split_lines False r')"
    using assms(3) Some lr by (simp add: split_lines_Some)
  ultimately show ?thesis by (simp add: process_line_branches)
qed

lemma feed_keep_append:
  "feed_keep (a @ b) d =
     (case feed_keep a d of
        (Some e, fs, d') \<Rightarrow> (Some e, fs, d')
      | (None, fs, d') \<Rightarrow> (case feed_keep b d' of (e, fs', d'') \<Rightarrow> (e, fs @ fs', d'')))"
proof (cases "bom_split (bom_checked d) (line_buffer d @ a)")
  case (Pair c buf)
  show ?thesis
  proof (cases c)
    case False
    then have nb: "\<not> bom_checked d" "buf = line_buffer d @ a"
      using Pair by (auto simp: bom_split_def split: if_splits)
    let ?d = "d\<lparr>line_buffer := line_buffer d @ a\<rparr>"
    have d: "?d = set_framing (line_buffer d @ a) (search_from d) (bom_checked d) d"
      by (simp add: set_framing_def)
    have fl: "fail (?d\<lparr>bom_checked := True\<rparr>) = fail (d\<lparr>bom_checked := True\<rparr>)"
      by (simp add: fail_def clear_retained_def)
    have "feed_keep a d = (None, [], ?d)"
      using Pair False nb by (simp add: feed_keep_def)
    moreover have "feed_keep b ?d = feed_keep (a @ b) d"
      unfolding feed_keep_def fl
      by (simp add: d run_lines_framing split: prod.split sum.split bool.split)
        (simp add: set_framing_def)
    ultimately show ?thesis by (simp split: prod.split)
  next
    case True
    obtain ls r where sl: "split_lines False buf = (ls, r)" by fastforce
    obtain ls2 r2 where sl2: "split_lines False (r @ b) = (ls2, r2)" by fastforce
    have sl3: "split_lines False (buf @ b) = (ls @ ls2, r2)"
      using split_lines_append [OF sl, of False b] sl2 by simp
    have bs: "bom_split (bom_checked d) (line_buffer d @ a @ b) = (True, buf @ b)"
      using bom_split_append [of "bom_checked d" "line_buffer d @ a" buf b] Pair True by simp
    have rest: "take_line False r = None"
      using split_lines_rest [of False buf] sl by simp
    obtain q d1 fs1 where rl: "run_lines ls d [] = (q, d1, fs1)" by (cases "run_lines ls d []")
    have same: "limits d1 = limits d" "bom_checked d1 = bom_checked d"
      using run_lines_setup [OF rl] by (simp_all add: same_setup_def)
    show ?thesis
    proof (cases q)
      case (Inl e)
      then show ?thesis
        using Pair True sl sl3 bs rl by (simp add: feed_keep_def run_lines_append)
    next
      case (Inr u)
      show ?thesis
      proof (cases "content_len r > max_line_bytes (limits d)")
        case long: True
        let ?E = "(Some (LineTooLarge (max_line_bytes (limits d))), fs1, fail (d\<lparr>bom_checked := True\<rparr>))"
        have "feed_keep a d = ?E"
          using Pair True sl rl Inr long by (simp add: feed_keep_def)
        moreover have "feed_keep (a @ b) d = ?E"
          using run_lines_too_long [OF rest _ sl2, of d1 fs1] long same sl3 bs rl Inr
          by (auto simp: feed_keep_def run_lines_append)
        ultimately show ?thesis by simp
      next
        case short: False
        let ?d1 = "set_framing r (resume_at r) True d1"
        have "feed_keep a d = (None, fs1, ?d1)"
          using Pair True sl rl Inr short by (simp add: feed_keep_def)
        moreover have "fail (?d1\<lparr>bom_checked := True\<rparr>) = fail (d\<lparr>bom_checked := True\<rparr>)"
          using run_lines_setup [OF rl]
          by (simp add: fail_def clear_retained_def set_framing_def same_setup_def)
        then have "feed_keep (a @ b) d = (case feed_keep b ?d1 of (e, fs', d'') \<Rightarrow> (e, fs1 @ fs', d''))"
          using sl2 sl3 bs rl Inr same run_lines_frames [of ls2 d1 fs1 "[]"]
          by (cases "run_lines ls2 d1 []")
            (simp add: feed_keep_def bom_split_def run_lines_framing run_lines_append
              split: sum.split)
        ultimately show ?thesis by simp
      qed
    qed
  qed
qed

lemma feed_spec_append:
  "feed_spec (a @ b) d fs =
     (case feed_spec a d fs of (Err e, d') \<Rightarrow> (Err e, d') | (Ok fs', d') \<Rightarrow> feed_spec b d' fs')"
  by (simp add: feed_spec_keep feed_keep_append split: prod.split option.split)

lemma feed_spec_Nil:
  assumes "framing_inv d"
  shows "feed_spec [] d fs = (Ok fs, d)"
proof (cases "bom_checked d")
  case True
  with assms have "split_lines False (line_buffer d) = ([], line_buffer d)"
    by (simp add: framing_inv_def split_lines_None)
  with assms True show ?thesis
    by (simp add: feed_spec_def bom_split_def framing_inv_def set_framing_def)
next
  case False
  with assms show ?thesis by (simp add: feed_spec_def bom_split_def framing_inv_def)
qed

lemma feed_slices_settle:
  assumes "framing_inv d"
  shows "settle (feed_slices ss d fs) = feed_spec (concat ss) d fs"
  using assms
proof (induction ss arbitrary: d fs)
  case Nil
  then show ?case by (simp add: feed_spec_Nil settle_def)
next
  case (Cons s ss)
  obtain r d1 fs1 where f: "feed_slice s d fs = (r, d1, fs1)" by (cases "feed_slice s d fs")
  have sp: "feed_spec s d fs = settle (r, d1, fs1)"
    using feed_slice_settle [OF Cons.prems, of s fs] f by simp
  show ?case
  proof (cases r)
    case (Inl e)
    with f sp show ?thesis by (simp add: feed_spec_append settle_def)
  next
    case (Inr u)
    with sp have "feed_spec s d fs = (Ok fs1, d1)" by (simp add: settle_def)
    with Cons.IH [OF feed_spec_framing_inv [OF Cons.prems this]] f Inr show ?thesis
      by (simp add: feed_spec_append)
  qed
qed

text \<open>One call of \<^verbatim>\<open>push\<close>, however large the chunk: slicing it does not show.\<close>

lemma push_feed_spec:
  assumes "framing_inv d" and "decoder_state d = DecoderActive"
  shows "push chunk d = feed_spec chunk d []"
proof -
  have "settle (feed_slices (chunks FEED_SLICE_BYTES chunk) d []) = feed_spec chunk d []"
    using feed_slices_settle [OF assms(1)] by (simp add: concat_chunks FEED_SLICE_BYTES_def)
  then show ?thesis
    using assms(2)
    by (auto simp: push_def ensure_active_def push_inner_def settle_def
        split: prod.splits sum.splits)
qed

end
