(* ===== verification/Chunked.thy ===== *)
theory Chunked
  imports Prelude
begin

text \<open>
  The contract of an incremental decoder.  A decoder is fed byte chunks; feeding a concatenation is
  feeding the parts one after the other until one of them stops.  The client's conclusion: what a
  sequence of chunks yields depends on their concatenation only.  The interpretations on the two SSE
  parsers and on the endpoint stream decoder are in the theories of those components.
\<close>

fun feed_all ::
    "('b list \<Rightarrow> 's \<Rightarrow> 'r \<times> 's) \<Rightarrow> ('r \<Rightarrow> 's \<Rightarrow> bool) \<Rightarrow> ('r \<Rightarrow> 'r \<Rightarrow> 'r) \<Rightarrow> 'r \<Rightarrow>
       'b list list \<Rightarrow> 's \<Rightarrow> 'r \<times> 's" where
  "feed_all feed continue join none [] s = (none, s)"
| "feed_all feed continue join none (c # cs) s =
     (let (r, s') = feed c s
      in if continue r s'
         then let (r', s'') = feed_all feed continue join none cs s' in (join r r', s'')
         else (r, s'))"

locale chunked_decoder =
  fixes feed :: "'b list \<Rightarrow> 's \<Rightarrow> 'r \<times> 's"
    and continue :: "'r \<Rightarrow> 's \<Rightarrow> bool"
    and join :: "'r \<Rightarrow> 'r \<Rightarrow> 'r"
    and none :: 'r
    and inv :: "'s \<Rightarrow> bool"
  assumes feed_Nil: "inv s \<Longrightarrow> feed [] s = (none, s)"
    and feed_append: "inv s \<Longrightarrow>
      feed (a @ b) s =
        (let (r, s') = feed a s
         in if continue r s' then let (r', s'') = feed b s' in (join r r', s'') else (r, s'))"
    and feed_inv: "inv s \<Longrightarrow> feed a s = (r, s') \<Longrightarrow> continue r s' \<Longrightarrow> inv s'"
begin

lemma chunking: "inv s \<Longrightarrow> feed_all feed continue join none cs s = feed (concat cs) s"
proof (induction cs arbitrary: s)
  case Nil
  then show ?case by (simp add: feed_Nil)
next
  case (Cons c cs)
  show ?case
  proof (cases "feed c s")
    case (Pair r s')
    show ?thesis
    proof (cases "continue r s'")
      case True
      from Cons.IH [OF feed_inv [OF Cons.prems Pair True]] Pair True show ?thesis
        by (simp add: feed_append [OF Cons.prems])
    next
      case False
      with Pair show ?thesis by (simp add: feed_append [OF Cons.prems])
    qed
  qed
qed

lemma chunk_boundaries_irrelevant:
  "inv s \<Longrightarrow> concat cs = concat cs' \<Longrightarrow>
     feed_all feed continue join none cs s = feed_all feed continue join none cs' s"
  by (simp add: chunking)

end

end
