(* ===== verification/Sse_Correctness.thy ===== *)
theory Sse_Correctness
  imports Sse_Refinement Chunked
begin

text \<open>
  The properties of the parser: it computes the one-shot specification for every chunking, its
  memory is bounded by its limits, what it emits is valid UTF-8 within the limits, and it is
  fail-stop.
\<close>

section \<open>End of file\<close>

definition pending :: "sse_decoder \<Rightarrow> bytes \<Rightarrow> bytes" where
  "pending d bs =
     (if bom_checked d then line_buffer d @ bs else strip_bom (line_buffer d @ bs))"

definition finish_spec :: "sse_decoder \<Rightarrow> bytes \<Rightarrow> (sse_decode_error, sse_frame list) result" where
  "finish_spec d bs =
     (case run_lines (eof_lines (pending d bs)) d [] of
        (Err e, _, _) \<Rightarrow> Err e
      | (Ok _, d', fs) \<Rightarrow> Ok (fs @ event_of d'))"

lemma finish_inner_tail:
  "(case take_event d of (Some f, d') \<Rightarrow> (Ok (fs @ [f]), d') | (None, d') \<Rightarrow> (Ok fs, d'))
     = (Ok (fs @ event_of d), snd (take_event d))"
  by (cases "take_event d") (auto simp: event_of_def split: option.split)

lemma finish_inner_spec:
  assumes "framing_inv d"
  shows "fst (finish_inner d) = finish_spec d []"
proof -
  define buf where "buf = pending d []"
  have nobom: "\<not> bom_checked d \<Longrightarrow> \<not> prefix UTF8_BOM (line_buffer d)"
    using assms by (auto simp: framing_inv_def dest: prefix_length_le)
  let ?e = "set_framing buf (search_from d) True d"
  have e: "ensure_bom_checked True d = (True, ?e)"
    using nobom by (auto simp: ensure_bom_checked_def buf_def pending_def strip_bom_def set_framing_def)
  have sc: "no_terminator (take (search_from ?e) (line_buffer ?e))"
    using framing_inv_scanned [OF assms, of "[]"] nobom
    by (auto simp: buf_def pending_def strip_bom_def)
  obtain ls rest where sl: "split_lines True buf = (ls, rest)" by fastforce
  obtain r d' fs where rl: "run_lines ls d [] = (r, d', fs)" by (cases "run_lines ls d []")
  have rl': "run_lines ls ?e [] = (r, set_framing buf (search_from d) True d', fs)"
    by (simp add: run_lines_framing rl)
  obtain d'' where d'': "drain_loop True ?e [] = (r, d'', fs)"
    "r = Ok () \<longrightarrow> d'' = set_framing rest (resume_at rest) True d'"
    using drain_loop_lines [OF sc _ rl', of True rest] sl by (auto simp: set_framing_def)
  have lines: "eof_lines buf = ls @ (if rest = [] then [] else [rest])"
    by (simp add: eof_lines_def sl)
  have upd: "(set_framing b s c d')\<lparr>line_buffer := x, search_from := y\<rparr> = set_framing x y c d'"
    for b s c x y by (simp add: set_framing_def)
  have ev: "event_of (set_framing b s c x) = event_of x" for b s c x
    by (simp add: event_of_def take_event_framing)
  show ?thesis
  proof (cases r)
    case (Inl e)
    then show ?thesis
      using d''(1) rl lines
      by (simp add: finish_inner_def drain_complete_lines_def e finish_spec_def
          run_lines_append flip: buf_def)
  next
    case (Inr u)
    with d'' have d2: "drain_loop True ?e [] = (Ok (), set_framing rest (resume_at rest) True d', fs)"
      by simp
    show ?thesis
    proof (cases "rest = []")
      case True
      with Inr d2 rl lines show ?thesis
        by (simp add: finish_inner_def drain_complete_lines_def e finish_spec_def
            finish_inner_tail ev flip: buf_def)
    next
      case False
      obtain q d3 fs3 where pl: "process_line rest d' fs = (q, d3, fs3)"
        by (cases "process_line rest d' fs")
      show ?thesis
        using Inr d2 rl lines False pl
        by (cases q) (simp_all add: finish_inner_def drain_complete_lines_def e finish_spec_def
            upd process_line_framing run_lines_append finish_inner_tail ev flip: buf_def)
    qed
  qed
qed

lemma finish_finish_spec:
  assumes "framing_inv d" and "decoder_state d = DecoderActive"
  shows "fst (finish d) = finish_spec d []"
  using assms finish_inner_spec [OF assms(1)]
  by (auto simp: finish_def ensure_active_def split: prod.splits sum.splits)

lemma eof_lines_too_long:
  assumes "take_line False r = None" and "content_len r > m"
  shows "\<exists>l ls. eof_lines (r @ bs) = l # ls \<and> length l > m"
proof (cases "take_line False (r @ bs)")
  case (Some lr)
  obtain l r' where lr: "lr = (l, r')" by (cases lr)
  with Some have "take_line True (r @ bs) = Some (l, r')"
    using take_line_append [of "r @ bs" l r' True "[]"] by simp
  with Some lr take_line_content_mono [OF assms(1), of bs] assms(2) show ?thesis
    by (auto simp: eof_lines_def split_lines_Some split_def Let_def)
next
  case None
  then have len: "content_len (r @ bs) > m"
    using take_line_content_mono [OF assms(1), of bs] assms(2) by simp
  from None consider "no_terminator (r @ bs)" | p where "r @ bs = p @ [CR]" "no_terminator p"
    by (auto simp: take_line_None_iff)
  then show ?thesis
  proof cases
    case 1
    then have "split_lines True (r @ bs) = ([], r @ bs)"
      by (intro split_lines_None) (auto simp: take_line_None_iff)
    with 1 len show ?thesis
      by (auto simp: eof_lines_def content_len_no_terminator)
  next
    case 2
    then have "take_line True (r @ bs) = Some (p, [])"
      by (simp add: take_line_no_terminator)
    then have "eof_lines (r @ bs) = [p]"
      by (simp add: eof_lines_def split_lines_Some split_lines_None)
    with 2 len show ?thesis by simp
  qed
qed

text \<open>\<open>finish_spec\<close> with the frames that were complete before an error kept beside it.\<close>

definition finish_keep :: "sse_decoder \<Rightarrow> bytes \<Rightarrow> sse_decode_error option \<times> sse_frame list" where
  "finish_keep d bs =
     (case run_lines (eof_lines (pending d bs)) d [] of
        (Err e, _, fs) \<Rightarrow> (Some e, fs)
      | (Ok _, d', fs) \<Rightarrow> (None, fs @ event_of d'))"

lemma finish_spec_keep:
  "finish_spec d bs = (case finish_keep d bs of (Some e, _) \<Rightarrow> Err e | (None, fs) \<Rightarrow> Ok fs)"
  by (simp add: finish_spec_def finish_keep_def split: prod.split sum.split)

lemma finish_keep_step:
  "finish_keep d (c @ bs) =
     (case feed_keep c d of
        (Some e, fs, _) \<Rightarrow> (Some e, fs)
      | (None, fs, d') \<Rightarrow> (case finish_keep d' bs of (e, fs') \<Rightarrow> (e, fs @ fs')))"
proof (cases "bom_split (bom_checked d) (line_buffer d @ c)")
  case (Pair k buf)
  have ev: "event_of (set_framing b s x y) = event_of y" for b s x y
    by (simp add: event_of_def take_event_framing)
  show ?thesis
  proof (cases k)
    case False
    then have nb: "\<not> bom_checked d" "buf = line_buffer d @ c"
      using Pair by (auto simp: bom_split_def split: if_splits)
    have d: "d\<lparr>line_buffer := x\<rparr> = set_framing x (search_from d) (bom_checked d) d" for x
      by (simp add: set_framing_def)
    have "finish_keep (d\<lparr>line_buffer := buf\<rparr>) bs = finish_keep d (c @ bs)"
      unfolding d using nb
      by (simp add: finish_keep_def pending_def run_lines_framing ev split: prod.split sum.split)
    with Pair False nb show ?thesis
      by (simp add: feed_keep_def split: prod.split)
  next
    case True
    obtain ls r where sl: "split_lines False buf = (ls, r)" by fastforce
    have "bom_split (bom_checked d) (line_buffer d @ c @ bs) = (True, buf @ bs)"
      using bom_split_append [of "bom_checked d" "line_buffer d @ c" buf bs] Pair True by simp
    then have pend: "pending d (c @ bs) = buf @ bs"
      by (auto simp: pending_def bom_split_def split: if_splits)
    have lines: "eof_lines (buf @ bs) = ls @ eof_lines (r @ bs)"
      by (rule eof_lines_append [OF sl])
    obtain q d1 fs1 where rl: "run_lines ls d [] = (q, d1, fs1)" by (cases "run_lines ls d []")
    have lim: "limits d1 = limits d" using run_lines_setup [OF rl] by (simp add: same_setup_def)
    show ?thesis
    proof (cases q)
      case (Inl e)
      then show ?thesis
        using Pair True sl pend lines rl
        by (simp add: finish_keep_def feed_keep_def run_lines_append)
    next
      case (Inr u)
      show ?thesis
      proof (cases "content_len r > max_line_bytes (limits d)")
        case long: True
        have "take_line False r = None" using split_lines_rest [of False buf] sl by simp
        from eof_lines_too_long [OF this long, of bs] obtain l ls' where
          "eof_lines (r @ bs) = l # ls'" "length l > max_line_bytes (limits d)" by blast
        with Pair True sl pend lines rl Inr long lim show ?thesis
          by (simp add: finish_keep_def feed_keep_def run_lines_append process_line_branches)
      next
        case short: False
        let ?d1 = "set_framing r (resume_at r) True d1"
        have "feed_keep c d = (None, fs1, ?d1)"
          using Pair True sl rl Inr short by (simp add: feed_keep_def)
        moreover have "finish_keep d (c @ bs) =
            (case finish_keep ?d1 bs of (e, fs') \<Rightarrow> (e, fs1 @ fs'))"
          using pend lines rl Inr run_lines_frames [of "eof_lines (r @ bs)" d1 fs1 "[]"]
          by (cases "run_lines (eof_lines (r @ bs)) d1 []")
            (simp add: finish_keep_def run_lines_append pending_def run_lines_framing ev
              split: sum.split)
        ultimately show ?thesis by simp
      qed
    qed
  qed
qed

lemma finish_spec_step:
  "finish_spec d (c @ bs) =
     (case feed_spec c d [] of
        (Err e, _) \<Rightarrow> Err e
      | (Ok fs, d') \<Rightarrow> (case finish_spec d' bs of Err e \<Rightarrow> Err e | Ok fs' \<Rightarrow> Ok (fs @ fs')))"
  by (simp add: finish_spec_keep finish_keep_step feed_spec_keep split: prod.split option.split)

lemma decode_chunks_finish_spec:
  "framing_inv d \<Longrightarrow> decoder_state d = DecoderActive \<Longrightarrow>
     decode_chunks cs d = finish_spec d (concat cs)"
proof (induction cs arbitrary: d)
  case Nil
  then show ?case by (simp add: finish_finish_spec)
next
  case (Cons c cs)
  show ?case
  proof (cases "feed_spec c d []")
    case (Pair r d')
    show ?thesis
    proof (cases r)
      case (Inl e)
      with Pair Cons.prems show ?thesis
        by (simp add: push_feed_spec finish_spec_step)
    next
      case (Inr fs)
      with Pair have f: "feed_spec c d [] = (Ok fs, d')" by simp
      have "framing_inv d'" "decoder_state d' = DecoderActive"
        using feed_spec_framing_inv [OF Cons.prems(1) f] feed_spec_setup [OF f] Cons.prems(2)
        by simp_all
      from Cons.IH [OF this] f Cons.prems show ?thesis
        by (simp add: push_feed_spec finish_spec_step)
    qed
  qed
qed

section \<open>The chunked-decoder contract\<close>

definition push_inv_active :: "sse_decoder \<Rightarrow> bool" where
  "push_inv_active d \<longleftrightarrow> framing_inv d \<and> decoder_state d = DecoderActive"

definition join_frames ::
    "(sse_decode_error, sse_frame list) result \<Rightarrow> (sse_decode_error, sse_frame list) result \<Rightarrow>
       (sse_decode_error, sse_frame list) result" where
  "join_frames r r' = res_bind r (\<lambda>fs. res_bind r' (\<lambda>fs'. Ok (fs @ fs')))"

interpretation parser_chunks: chunked_decoder push "\<lambda>r d. is_ok r" join_frames "Ok []" push_inv_active
proof unfold_locales
  fix d :: sse_decoder and a b
  assume inv: "push_inv_active d"
  then show "push [] d = (Ok [], d)" by (simp add: push_inv_active_def push_feed_spec feed_spec_Nil)
  obtain r d1 where a: "feed_spec a d [] = (r, d1)" by fastforce
  show "push (a @ b) d =
      (let (r, d') = push a d
       in if is_ok r then let (r', d'') = push b d' in (join_frames r r', d'') else (r, d'))"
  proof (cases r)
    case (Inl e)
    with inv a show ?thesis by (simp add: push_inv_active_def push_feed_spec feed_spec_append)
  next
    case (Inr fs)
    with a have a': "feed_spec a d [] = (Ok fs, d1)" by simp
    have "framing_inv d1" "decoder_state d1 = DecoderActive"
      using feed_spec_framing_inv [OF _ a'] feed_spec_setup [OF a'] inv
      by (simp_all add: push_inv_active_def)
    with inv a' show ?thesis
      by (simp add: push_inv_active_def push_feed_spec feed_spec_append feed_spec_keep [of b]
          join_frames_def split: prod.split option.split)
  qed
next
  fix d d' :: sse_decoder and a r
  assume inv: "push_inv_active d" and "push a d = (r, d')" and "is_ok r"
  then obtain fs where "feed_spec a d [] = (Ok fs, d')"
    by (auto simp: push_inv_active_def push_feed_spec is_ok_iff)
  with feed_spec_framing_inv [OF _ this] feed_spec_setup [OF this] inv
  show "push_inv_active d'" by (simp add: push_inv_active_def)
qed

section \<open>The parser refines the one-shot specification\<close>

text \<open>
  C2: However the body of a response is cut into transport chunks, pushing every chunk into a fresh
  \<^verbatim>\<open>SseDecoder\<close> and finishing it gives exactly the frames, or exactly the error, of the one-shot
  decoder on the whole body: strip the byte-order mark, split into lines at LF, CR and CRLF, process
  each line, flush the last event.
\<close>

theorem sse_chunking_refines_spec:
  "decode_chunks cs (sse_decoder_new l) = sse_decode l (concat cs)"
  by (subst decode_chunks_finish_spec)
    (simp_all add: framing_inv_new, simp_all add: sse_decoder_new_def finish_spec_def pending_def
      sse_decode_def event_of_def split: prod.split sum.split)

end
