(* ===== verification/Sse_Invariants.thy ===== *)
theory Sse_Invariants
  imports Sse_Correctness
begin

text \<open>
  The invariants of the parser over all histories of calls: the retained event respects the
  configured limits, everything retained or emitted is valid UTF-8, the memory is bounded, and a
  decoder that has failed or finished retains nothing and refuses every further call.
\<close>

section \<open>The event under construction\<close>

text \<open>A string the decoder retains or emits: valid UTF-8 of at most \<open>m\<close> bytes.\<close>

definition text_within :: "nat \<Rightarrow> bytes \<Rightarrow> bool" where
  "text_within m s \<longleftrightarrow> utf8_valid s \<and> length s \<le> m"

lemma text_within_Nil [simp]: "text_within m []"
  by (simp add: text_within_def)

definition event_inv :: "sse_decoder \<Rightarrow> bool" where
  "event_inv d \<longleftrightarrow>
     text_within (max_event_bytes (limits d)) (event_data d)
     \<and> data_lines d \<le> max_data_lines (limits d)
     \<and> (data_lines d = 0 \<longrightarrow> event_data d = [])
     \<and> pred_option (\<lambda>s. text_within (max_line_bytes (limits d)) s \<and> s \<noteq> []) (event_name d)
     \<and> pred_option (\<lambda>s. text_within (max_line_bytes (limits d)) s \<and> CHR 0x00 \<notin> set s)
         (last_event_id d)"

definition frame_ok :: "sse_limits \<Rightarrow> sse_frame \<Rightarrow> bool" where
  "frame_ok l f \<longleftrightarrow>
     text_within (max_event_bytes l) (frame_data f)
     \<and> pred_option (\<lambda>s. text_within (max_line_bytes l) s \<and> s \<noteq> []) (frame_event f)
     \<and> pred_option (\<lambda>s. text_within (max_line_bytes l) s \<and> CHR 0x00 \<notin> set s) (frame_id f)"

lemma event_inv_new: "event_inv (sse_decoder_new l)"
  by (simp add: event_inv_def sse_decoder_new_def)

lemma event_inv_framing [simp]: "event_inv (set_framing b s c d) = event_inv d"
  by (simp add: event_inv_def)

lemma event_inv_clear [simp]:
  "event_inv (clear_retained d)" "event_inv ((clear_retained d)\<lparr>decoder_state := x\<rparr>)"
  by (simp_all add: event_inv_def clear_retained_def)

lemma ascii_colon_space [simp, byte_simps]:
  "is_ascii (CHR '':'')" "is_ascii (CHR '' '')" "is_ascii LF"
  by (simp_all add: is_ascii_def code_def)

lemma split_field_value:
  assumes "utf8_valid l"
  shows "utf8_valid (snd (split_field l)) \<and> length (snd (split_field l)) \<le> length l"
proof (cases "split_once (CHR '':'') l")
  case None
  then show ?thesis by (simp add: split_field_def strip_prefix_def)
next
  case (Some p)
  obtain f v where p: "p = (f, v)" by (cases p)
  have v: "utf8_valid v" "length v \<le> length l"
    using Some p utf8_valid_split_once [OF assms, of "CHR '':''" f v]
    by (auto simp: split_once_Some_iff)
  show ?thesis
  proof (cases "strip_prefix '' '' v")
    case None
    with Some p v show ?thesis by (simp add: split_field_def)
  next
    case (Some w)
    with v have "utf8_valid w" "length w \<le> length l"
      using utf8_valid_strip_ascii [OF v(1), of "CHR '' ''" w] by (auto simp: strip_prefix_Some_iff)
    with Some \<open>split_once _ _ = _\<close> p show ?thesis by (simp add: split_field_def)
  qed
qed

lemma push_data_event_inv:
  assumes "event_inv d" and "utf8_valid v"
  shows "event_inv (snd (push_data v d))"
proof -
  have "utf8_valid (event_data d @ (if data_lines d \<noteq> 0 then [LF] else []) @ v)"
    using assms by (auto simp: event_inv_def text_within_def intro!: utf8_valid_append)
  then show ?thesis
    using assms by (auto simp: push_data_def event_inv_def text_within_def Let_def
        checked_add_Some_iff bind_eq_Some_conv split: option.splits)
qed

lemma process_field_event_inv:
  assumes "event_inv d" and "text_within (max_line_bytes (limits d)) v"
  shows "event_inv (snd (process_field f v d))"
proof -
  consider "f = ''event''" | "f = ''data''" | "f = ''id''" | "f = ''retry''"
    | "f \<noteq> ''event''" "f \<noteq> ''data''" "f \<noteq> ''id''" "f \<noteq> ''retry''" by blast
  then show ?thesis
  proof cases
    case 2
    with push_data_event_inv [OF assms(1)] assms(2) show ?thesis
      by (simp add: process_field_def text_within_def)
  next
    case 4
    with assms show ?thesis
      by (simp add: process_field_def set_retry_def event_inv_def split: option.split)
  qed (use assms in \<open>simp_all add: process_field_def event_inv_def\<close>)
qed

lemma take_event_event_inv: "event_inv d \<Longrightarrow> event_inv (snd (take_event d))"
  by (simp add: take_event_def event_inv_def)

lemma event_of_ok: "event_inv d \<Longrightarrow> list_all (frame_ok (limits d)) (event_of d)"
  by (simp add: event_of_def take_event_def event_inv_def frame_ok_def)

lemma process_line_event_inv:
  assumes "event_inv d" and "process_line l d fs = (r, d', fs')"
  shows "event_inv d' \<and> (list_all (frame_ok (limits d)) fs \<longrightarrow> list_all (frame_ok (limits d)) fs')"
proof -
  have "event_inv (snd (process_field (fst (split_field l)) (snd (split_field l)) d))"
    if "utf8_valid l" "length l \<le> max_line_bytes (limits d)"
    using that split_field_value [OF that(1)] assms(1)
    by (intro process_field_event_inv) (simp_all add: text_within_def)
  with assms take_event_event_inv [OF assms(1)] event_of_ok [OF assms(1)] show ?thesis
    by (auto simp: process_line_branches split: if_splits)
qed

lemma run_lines_event_inv:
  assumes "event_inv d" and "run_lines ls d fs = (r, d', fs')"
    and "list_all (frame_ok (limits d)) fs"
  shows "event_inv d' \<and> list_all (frame_ok (limits d)) fs'"
  using assms
proof (induction ls arbitrary: d fs)
  case (Cons l ls)
  obtain q d1 fs1 where pl: "process_line l d fs = (q, d1, fs1)" by (cases "process_line l d fs")
  have lim: "limits d1 = limits d" using process_line_setup [OF pl] by (simp add: same_setup_def)
  from process_line_event_inv [OF Cons.prems(1) pl] Cons.prems(3)
  have *: "event_inv d1" "list_all (frame_ok (limits d1)) fs1" by (simp_all add: lim)
  show ?case
  proof (cases q)
    case (Inl e)
    with Cons.prems(2) pl * lim show ?thesis by simp
  next
    case (Inr u)
    with Cons.prems(2) pl have "run_lines ls d1 fs1 = (r, d', fs')" by simp
    from Cons.IH [OF *(1) this *(2)] show ?thesis by (simp add: lim)
  qed
qed simp

section \<open>The operations\<close>

definition sse_decoder_inv :: "sse_decoder \<Rightarrow> bool" where
  "sse_decoder_inv d \<longleftrightarrow>
     (if decoder_state d = DecoderActive then framing_inv d \<and> event_inv d
      else line_buffer d = [] \<and> event_data d = [] \<and> data_lines d = 0 \<and> event_name d = None
           \<and> last_event_id d = None \<and> event_retry d = None \<and> reconnect_retry d = None)"

lemma sse_decoder_inv_new: "sse_decoder_inv (sse_decoder_new l)"
  using framing_inv_new [of l] event_inv_new [of l]
  by (simp add: sse_decoder_inv_def) (simp add: sse_decoder_new_def)

lemma sse_decoder_inv_fail [simp]: "sse_decoder_inv (fail d)"
  by (simp add: sse_decoder_inv_def fail_def clear_retained_def)

lemma sse_decoder_inv_finished [simp]:
  "sse_decoder_inv ((clear_retained d)\<lparr>decoder_state := DecoderFinished\<rparr>)"
  by (simp add: sse_decoder_inv_def clear_retained_def)

lemma feed_spec_failed: "feed_spec bs d fs = (Err e, d') \<Longrightarrow> d' = fail (d\<lparr>bom_checked := True\<rparr>)"
  by (auto simp: feed_spec_def split: prod.splits bool.splits sum.splits if_splits)

lemma feed_spec_event_inv:
  assumes "event_inv d" and "feed_spec bs d fs = (Ok fs', d')"
    and "list_all (frame_ok (limits d)) fs"
  shows "event_inv d' \<and> list_all (frame_ok (limits d)) fs'"
proof -
  have upd: "event_inv (d\<lparr>line_buffer := b\<rparr>)" for b
    using assms(1) by (simp add: event_inv_def)
  from assms(2,3) upd show ?thesis
    by (auto simp: feed_spec_def split: prod.splits bool.splits sum.splits if_splits
        dest: run_lines_event_inv [OF assms(1)])
qed

lemma push_inactive:
  "decoder_state d \<noteq> DecoderActive \<Longrightarrow> push c d = (Err (DecoderInactive (decoder_state d)), d)"
  by (simp add: push_def ensure_active_def)

lemma finish_inactive:
  "decoder_state d \<noteq> DecoderActive \<Longrightarrow> finish d = (Err (DecoderInactive (decoder_state d)), d)"
  by (simp add: finish_def ensure_active_def)

lemma push_inv:
  assumes "sse_decoder_inv d" and "push c d = (r, d')"
  shows "sse_decoder_inv d' \<and> limits d' = limits d
    \<and> (\<forall>fs. r = Ok fs \<longrightarrow> list_all (frame_ok (limits d)) fs)"
proof (cases "decoder_state d = DecoderActive")
  case False
  with assms show ?thesis by (auto simp: push_inactive)
next
  case True
  with assms have inv: "framing_inv d" "event_inv d" and fs: "feed_spec c d [] = (r, d')"
    by (simp_all add: sse_decoder_inv_def push_feed_spec)
  show ?thesis
  proof (cases r)
    case (Inl e)
    with fs have "d' = fail (d\<lparr>bom_checked := True\<rparr>)" by (simp add: feed_spec_failed)
    with Inl show ?thesis by (simp add: fail_def clear_retained_def sse_decoder_inv_def)
  next
    case (Inr frames)
    with fs have fs': "feed_spec c d [] = (Ok frames, d')" by simp
    from feed_spec_event_inv [OF inv(2) fs'] feed_spec_framing_inv [OF inv(1) fs']
      feed_spec_setup [OF fs'] True Inr
    show ?thesis by (simp add: sse_decoder_inv_def)
  qed
qed

lemma finish_spec_frame_ok:
  assumes "event_inv d" and "finish_spec d bs = Ok fs"
  shows "list_all (frame_ok (limits d)) fs"
proof -
  from assms(2) obtain d' fs1 where rl: "run_lines (eof_lines (pending d bs)) d [] = (Ok (), d', fs1)"
    and fs: "fs = fs1 @ event_of d'"
    by (auto simp: finish_spec_def split: prod.splits sum.splits)
  have "limits d' = limits d" using run_lines_setup [OF rl] by (simp add: same_setup_def)
  with run_lines_event_inv [OF assms(1) rl] event_of_ok [of d'] fs show ?thesis by simp
qed

lemma finish_state:
  assumes "finish d = (r, d')" and "decoder_state d = DecoderActive"
  shows "sse_decoder_inv d' \<and> decoder_state d' \<noteq> DecoderActive"
  using assms
  by (auto simp: finish_def ensure_active_def fail_def split: prod.splits sum.splits)
    (auto simp: sse_decoder_inv_def clear_retained_def)

lemma finish_inv:
  assumes "sse_decoder_inv d" and "finish d = (r, d')"
  shows "sse_decoder_inv d' \<and> decoder_state d' \<noteq> DecoderActive
    \<and> (\<forall>fs. r = Ok fs \<longrightarrow> list_all (frame_ok (limits d)) fs)"
proof (cases "decoder_state d = DecoderActive")
  case False
  with assms show ?thesis by (auto simp: finish_inactive)
next
  case True
  with assms have inv: "framing_inv d" "event_inv d" by (simp_all add: sse_decoder_inv_def)
  have "r = finish_spec d []" using finish_finish_spec [OF inv(1) True] assms(2) by simp
  with finish_spec_frame_ok [OF inv(2)] finish_state [OF assms(2) True] show ?thesis by auto
qed

lemma close_inv: "sse_decoder_inv d \<Longrightarrow> sse_decoder_inv (close d)"
  by (simp add: close_def)

section \<open>Histories of calls\<close>

inductive sse_call :: "sse_decoder \<Rightarrow> (sse_decode_error, sse_frame list) result \<Rightarrow> sse_decoder \<Rightarrow> bool" where
  call_push: "push c d = (r, d') \<Longrightarrow> sse_call d r d'"
| call_finish: "finish d = (r, d') \<Longrightarrow> sse_call d r d'"
| call_close: "sse_call d (Ok []) (close d)"

inductive sse_reachable :: "sse_limits \<Rightarrow> sse_decoder \<Rightarrow> bool" for l where
  reach_new: "sse_reachable l (sse_decoder_new l)"
| reach_call: "sse_reachable l d \<Longrightarrow> sse_call d r d' \<Longrightarrow> sse_reachable l d'"

inductive_cases sse_callE: "sse_call d r d'"

lemma drain_loop_limits: "drain_loop eof d fs = (r, d', fs') \<Longrightarrow> limits d' = limits d"
proof (induction eof d fs rule: drain_loop.induct)
  case (1 eof d fs)
  show ?case
  proof (cases "next_line eof d")
    case (Pair o1 d1)
    have d1: "limits d1 = limits d" using Pair by (auto simp: next_line_def split: prod.splits)
    show ?thesis
    proof (cases o1)
      case None
      with Pair "1.prems" d1 show ?thesis by (subst (asm) drain_loop.simps) simp
    next
      case (Some et)
      obtain e t where et: "et = (e, t)" by (cases et)
      let ?d2 = "d1\<lparr>line_buffer := drop (e + t) (line_buffer d1), search_from := 0\<rparr>"
      let ?l = "take e (take (e + t) (line_buffer d1))"
      obtain q d3 fs3 where pl: "process_line ?l ?d2 fs = (q, d3, fs3)"
        by (cases "process_line ?l ?d2 fs")
      have d3: "limits d3 = limits d"
        using process_line_setup [OF pl] d1 by (simp add: same_setup_def)
      show ?thesis
      proof (cases q)
        case (Inl x)
        with "1.prems" Pair Some et pl d3 show ?thesis
          by (subst (asm) drain_loop.simps) (simp add: Let_def)
      next
        case (Inr u)
        with "1.prems" Pair Some et pl have "drain_loop eof d3 fs3 = (r, d', fs')"
          by (subst (asm) drain_loop.simps) (simp add: Let_def)
        with "1.IH" [OF Pair [symmetric] Some et [symmetric] refl refl refl pl [symmetric] Inr refl] d3
        show ?thesis by simp
      qed
    qed
  qed
qed

lemma finish_limits: "finish d = (r, d') \<Longrightarrow> limits d' = limits d"
  by (auto simp: finish_def finish_inner_def drain_complete_lines_def ensure_bom_checked_def
      take_event_def clear_retained_def fail_def same_setup_def Let_def
      split: prod.splits sum.splits if_splits bool.splits
      dest!: drain_loop_limits process_line_setup)

lemma sse_call_inv:
  assumes "sse_call d r d'" and "sse_decoder_inv d"
  shows "sse_decoder_inv d' \<and> limits d' = limits d
    \<and> (\<forall>fs. r = Ok fs \<longrightarrow> list_all (frame_ok (limits d)) fs)
    \<and> (\<forall>e. r = Err e \<longrightarrow> decoder_state d' \<noteq> DecoderActive)"
  using assms(1)
proof (rule sse_callE)
  fix c assume p: "push c d = (r, d')"
  have "decoder_state d' \<noteq> DecoderActive" if "r = Err e" for e
    using p that
    by (auto simp: push_def ensure_active_def fail_def split: prod.splits sum.splits if_splits)
  with push_inv [OF assms(2) p] show ?thesis by auto
next
  assume f: "finish d = (r, d')"
  with finish_inv [OF assms(2) f] finish_limits [OF f] show ?thesis by auto
next
  assume "r = Ok []" "d' = close d"
  with close_inv [OF assms(2)] show ?thesis by (simp add: close_def clear_retained_def)
qed

lemma sse_reachable_inv: "sse_reachable l d \<Longrightarrow> limits d = l \<and> sse_decoder_inv d"
proof (induction rule: sse_reachable.induct)
  case reach_new
  show ?case using sse_decoder_inv_new by (simp add: sse_decoder_new_def)
next
  case (reach_call d r d')
  with sse_call_inv show ?case by blast
qed

lemma sse_inactive_buffered:
  "sse_decoder_inv d \<Longrightarrow> decoder_state d \<noteq> DecoderActive \<Longrightarrow> buffered_bytes d = 0"
  by (simp add: sse_decoder_inv_def buffered_bytes_def saturating_add_def)

lemma framing_inv_length: "framing_inv d \<Longrightarrow> length (line_buffer d) \<le> max 2 (max_line_bytes (limits d) + 1)"
  by (auto simp: framing_inv_def content_len_def split: if_splits)

lemma event_inv_lengths:
  assumes "event_inv d"
  shows "length (event_data d) \<le> max_event_bytes (limits d)"
    "(case event_name d of None \<Rightarrow> 0 | Some s \<Rightarrow> length s) \<le> max_line_bytes (limits d)"
    "(case last_event_id d of None \<Rightarrow> 0 | Some s \<Rightarrow> length s) \<le> max_line_bytes (limits d)"
  using assms by (auto simp: event_inv_def text_within_def split: option.splits)

section \<open>Properties of every history\<close>

text \<open>A decoder with small limits after the bytes \<^verbatim>\<open>id: 1\<close>, and the rest of that event.\<close>

definition tiny_limits :: sse_limits where
  "tiny_limits = \<lparr>max_line_bytes = 8, max_event_bytes = 4, max_data_lines = 2\<rparr>"

definition tiny_decoder :: sse_decoder where
  "tiny_decoder = snd (push ''id: 1'' (sse_decoder_new tiny_limits))"

definition tiny_event :: bytes where "tiny_event = [CR, LF] @ ''data:a'' @ [LF, LF]"

definition tiny_frame :: sse_frame where
  "tiny_frame = \<lparr>frame_event = None, frame_data = ''a'', frame_id = Some ''1'', frame_retry = None\<rparr>"

lemma tiny_decoder_reachable: "sse_reachable tiny_limits tiny_decoder"
  unfolding tiny_decoder_def
  by (rule reach_call [OF reach_new call_push]) (rule prod.collapse [symmetric])

text \<open>
  C37: In every state a \<^verbatim>\<open>SseDecoder\<close> can reach by calls of \<^verbatim>\<open>push\<close>, \<^verbatim>\<open>finish\<close> and
  \<^verbatim>\<open>close\<close>, whatever the bytes, the memory it retains (\<^verbatim>\<open>buffered_bytes\<close>) is bounded by
  its limits alone: three lines (the unfinished line, the event name and the last event id), the byte
  of a pending CR, and one event.
\<close>

theorem sse_memory_bounded:
  assumes "sse_reachable l d" and "0 < max_line_bytes l"
  shows "buffered_bytes d \<le> 3 * max_line_bytes l + 1 + max_event_bytes l"
proof (cases "decoder_state d = DecoderActive")
  case True
  with sse_reachable_inv [OF assms(1)] have inv: "framing_inv d" "event_inv d" and l: "limits d = l"
    by (simp_all add: sse_decoder_inv_def)
  from framing_inv_length [OF inv(1)] event_inv_lengths [OF inv(2)] l assms(2) show ?thesis
    by (simp add: buffered_bytes_def saturating_add_def)
next
  case False
  with sse_reachable_inv [OF assms(1)] show ?thesis by (simp add: sse_inactive_buffered)
qed

theorem sse_memory_bounded_witness:
  "sse_reachable tiny_limits tiny_decoder \<and> buffered_bytes tiny_decoder \<le> 3 * 8 + 1 + 4"
  using sse_memory_bounded [OF tiny_decoder_reachable] tiny_decoder_reachable
  by (simp add: tiny_limits_def)

text \<open>
  Every frame any call of a reachable decoder returns is valid UTF-8 and within the limits: its
  data within \<^verbatim>\<open>max_event_bytes\<close>, its event name non-empty and its id without a NUL byte, both
  within \<^verbatim>\<open>max_line_bytes\<close>.
\<close>

theorem sse_frames_valid:
  assumes "sse_reachable l d" and "sse_call d (Ok frames) d'"
  shows "list_all (frame_ok l) frames"
  using sse_reachable_inv [OF assms(1)] sse_call_inv [OF assms(2)] by blast

theorem sse_frames_valid_witness:
  "fst (push tiny_event tiny_decoder) = Ok [tiny_frame] \<and> list_all (frame_ok tiny_limits) [tiny_frame]"
proof -
  have p: "fst (push tiny_event tiny_decoder) = Ok [tiny_frame]" by code_simp
  then have "push tiny_event tiny_decoder = (Ok [tiny_frame], snd (push tiny_event tiny_decoder))"
    by (simp add: prod_eq_iff)
  from sse_frames_valid [OF tiny_decoder_reachable call_push [OF this]] p show ?thesis by simp
qed

text \<open>
  The decoder is fail-stop.  After any call that returns an error the decoder is no longer
  active, retains not a single byte, and every later \<^verbatim>\<open>push\<close> or \<^verbatim>\<open>finish\<close> is refused with
  \<^verbatim>\<open>DecoderInactive\<close> and changes nothing.
\<close>

theorem sse_fail_stop:
  assumes "sse_reachable l d" and "sse_call d (Err e) d'"
  shows "decoder_state d' \<noteq> DecoderActive \<and> buffered_bytes d' = 0
    \<and> push c d' = (Err (DecoderInactive (decoder_state d')), d')
    \<and> finish d' = (Err (DecoderInactive (decoder_state d')), d') \<and> close d' = d'"
  using sse_reachable_inv [OF assms(1)] sse_call_inv [OF assms(2)]
  by (simp add: sse_inactive_buffered push_inactive finish_inactive close_def)

theorem sse_fail_stop_witness:
  "fst (push ''23456789'' tiny_decoder) = Err (LineTooLarge 8)
   \<and> buffered_bytes (snd (push ''23456789'' tiny_decoder)) = 0"
proof -
  have p: "fst (push ''23456789'' tiny_decoder) = Err (LineTooLarge 8)" by code_simp
  then have "push ''23456789'' tiny_decoder
      = (Err (LineTooLarge 8), snd (push ''23456789'' tiny_decoder))"
    by (simp add: prod_eq_iff)
  from sse_fail_stop [OF tiny_decoder_reachable call_push [OF this]] p show ?thesis by simp
qed

end
