(* ===== verification/Sse_Stream.thy ===== *)
theory Sse_Stream
  imports Sse_Invariants
begin

text \<open>
  The endpoint-aware stream decoder of \<^verbatim>\<open>crates/openai-rs-client/src/sse.rs\<close>:
  \<^verbatim>\<open>SseEndpointPolicy\<close>, \<^verbatim>\<open>SseDispatch\<close> and \<^verbatim>\<open>SseStreamDecoder\<close>.  It wraps the parser, feeds
  it one physical line at a time, classifies every frame by the policy of the endpoint and stops at the
  first terminal frame.
\<close>

section \<open>Endpoint policies\<close>

datatype sse_eof_behavior = Complete | RequireTerminal

record sse_endpoint_policy =
  policy_eof :: sse_eof_behavior
  terminal_events :: "bytes list"
  consumed_data_sentinels :: "bytes list"
  remote_error_events :: "bytes list"

definition policy_new :: "sse_eof_behavior \<Rightarrow> sse_endpoint_policy" where
  "policy_new e =
     \<lparr>policy_eof = e, terminal_events = [], consumed_data_sentinels = [], remote_error_events = []\<rparr>"

definition with_terminal_event :: "bytes \<Rightarrow> sse_endpoint_policy \<Rightarrow> sse_endpoint_policy" where
  "with_terminal_event ev p = p\<lparr>terminal_events := terminal_events p @ [ev]\<rparr>"

definition with_consumed_data_sentinel :: "bytes \<Rightarrow> sse_endpoint_policy \<Rightarrow> sse_endpoint_policy" where
  "with_consumed_data_sentinel s p =
     p\<lparr>consumed_data_sentinels := consumed_data_sentinels p @ [s]\<rparr>"

definition with_remote_error_event :: "bytes \<Rightarrow> sse_endpoint_policy \<Rightarrow> sse_endpoint_policy" where
  "with_remote_error_event ev p = p\<lparr>remote_error_events := remote_error_events p @ [ev]\<rparr>"

definition eof_terminated :: sse_endpoint_policy where
  "eof_terminated = policy_new Complete"

definition legacy_done :: sse_endpoint_policy where
  "legacy_done =
     with_remote_error_event ''error''
       (with_consumed_data_sentinel ''[DONE]'' (policy_new RequireTerminal))"

definition responses_policy :: sse_endpoint_policy where
  "responses_policy =
     with_remote_error_event ''error''
       (with_consumed_data_sentinel ''[DONE]''
         (with_terminal_event ''response.incomplete''
           (with_terminal_event ''response.failed''
             (with_terminal_event ''response.completed'' (policy_new RequireTerminal)))))"

datatype frame_classification = FrameEvent | EmittedTerminal | ConsumedTerminal | FrameRemoteError

definition contains :: "bytes list \<Rightarrow> bytes \<Rightarrow> bool" where
  "contains values candidate \<longleftrightarrow> list_ex (\<lambda>v. v = candidate) values"

definition is_some_and :: "'a option \<Rightarrow> ('a \<Rightarrow> bool) \<Rightarrow> bool" where
  "is_some_and x P = (case x of None \<Rightarrow> False | Some v \<Rightarrow> P v)"

definition classify :: "sse_endpoint_policy \<Rightarrow> sse_frame \<Rightarrow> frame_classification" where
  "classify p frame =
     (if contains (consumed_data_sentinels p) (frame_data frame) then ConsumedTerminal
      else if is_some_and (frame_event frame) (contains (remote_error_events p)) then FrameRemoteError
      else if is_some_and (frame_event frame) (contains (terminal_events p)) then EmittedTerminal
      else FrameEvent)"

fun join_or :: "bytes list \<Rightarrow> bytes" where
  "join_or [] = []"
| "join_or [s] = s"
| "join_or (s # ss) = s @ '' or '' @ join_or ss"

definition expected_terminal :: "sse_endpoint_policy \<Rightarrow> bytes" where
  "expected_terminal p =
     (let expected = map (\<lambda>ev. ''event `'' @ ev @ ''`'') (terminal_events p)
            @ map (\<lambda>s. ''data sentinel `'' @ s @ ''`'') (consumed_data_sentinels p)
      in if expected = [] then ''the endpoint's required terminal marker'' else join_or expected)"

section \<open>The stream decoder\<close>

datatype sse_dispatch = Event sse_frame | Terminal sse_frame | RemoteError sse_frame

fun dispatch_frame :: "sse_dispatch \<Rightarrow> sse_frame" where
  "dispatch_frame (Event f) = f"
| "dispatch_frame (Terminal f) = f"
| "dispatch_frame (RemoteError f) = f"

fun is_terminal :: "sse_dispatch \<Rightarrow> bool" where
  "is_terminal (Event f) = False"
| "is_terminal (Terminal f) = True"
| "is_terminal (RemoteError f) = True"

record sse_stream_decoder =
  stream_decoder :: sse_decoder
  stream_policy :: sse_endpoint_policy
  stream_state :: sse_stream_state

definition sse_stream_decoder_new :: "sse_limits \<Rightarrow> sse_endpoint_policy \<Rightarrow> sse_stream_decoder" where
  "sse_stream_decoder_new l p =
     \<lparr>stream_decoder = sse_decoder_new l, stream_policy = p, stream_state = StreamActive\<rparr>"

definition stream_ensure_active :: "sse_stream_decoder \<Rightarrow> (sse_decode_error, unit) result" where
  "stream_ensure_active s =
     (if stream_state s = StreamActive then Ok () else Err (StreamInactive (stream_state s)))"

fun classify_frames ::
    "sse_frame list \<Rightarrow> sse_stream_decoder \<Rightarrow> sse_dispatch list \<times> sse_stream_decoder" where
  "classify_frames [] s = ([], s)"
| "classify_frames (frame # frames) s =
     (case classify (stream_policy s) frame of
        FrameEvent \<Rightarrow> let (ds, s') = classify_frames frames s in (Event frame # ds, s')
      | EmittedTerminal \<Rightarrow>
          ([Terminal frame],
           s\<lparr>stream_decoder := close (stream_decoder s), stream_state := StreamCompleted\<rparr>)
      | ConsumedTerminal \<Rightarrow>
          ([], s\<lparr>stream_decoder := close (stream_decoder s), stream_state := StreamCompleted\<rparr>)
      | FrameRemoteError \<Rightarrow>
          ([RemoteError frame],
           s\<lparr>stream_decoder := close (stream_decoder s), stream_state := StreamRemoteError\<rparr>))"

text \<open>How many bytes of the rest of the chunk the next round of the loop feeds.\<close>

definition segment_end :: "sse_decoder \<Rightarrow> bytes \<Rightarrow> nat" where
  "segment_end d rest =
     (if line_buffer d \<noteq> [] \<and> last (line_buffer d) = CR then 1
      else case position (\<lambda>b. b = CR \<or> b = LF) rest of
             None \<Rightarrow> length rest | Some relative \<Rightarrow> relative + 1)"

lemma segment_end_pos: "rest \<noteq> [] \<Longrightarrow> 0 < segment_end d rest"
  by (simp add: segment_end_def split: option.split)

text \<open>The \<^verbatim>\<open>while offset < chunk.len()\<close> loop; \<open>rest\<close> is \<^verbatim>\<open>chunk[offset..]\<close>.\<close>

function push_segments ::
    "bytes \<Rightarrow> sse_stream_decoder \<Rightarrow> sse_dispatch list \<Rightarrow>
       (sse_decode_error \<times> sse_dispatch list, sse_dispatch list) result \<times> sse_stream_decoder" where
  "push_segments rest s dispatches =
     (if rest = [] then (Ok dispatches, s)
      else
        let n = segment_end (stream_decoder s) rest
        in case push (take n rest) (stream_decoder s) of
             (Err error, d') \<Rightarrow>
               (Err (error, dispatches), s\<lparr>stream_decoder := d', stream_state := StreamFailed\<rparr>)
           | (Ok frames, d') \<Rightarrow>
               let (new, s') = classify_frames frames (s\<lparr>stream_decoder := d'\<rparr>)
               in if stream_state s' \<noteq> StreamActive then (Ok (dispatches @ new), s')
                  else push_segments (drop n rest) s' (dispatches @ new))"
  by pat_completeness auto
termination
  by (relation "measure (\<lambda>(rest, s, ds). length rest)") (auto simp: segment_end_pos)

declare push_segments.simps [simp del]

definition push_with_flushed ::
    "bytes \<Rightarrow> sse_stream_decoder \<Rightarrow>
       (sse_decode_error \<times> sse_dispatch list, sse_dispatch list) result \<times> sse_stream_decoder" where
  "push_with_flushed chunk s =
     (case stream_ensure_active s of
        Err error \<Rightarrow> (Err (error, []), s)
      | Ok _ \<Rightarrow> push_segments chunk s [])"

definition stream_push ::
    "bytes \<Rightarrow> sse_stream_decoder \<Rightarrow>
       (sse_decode_error, sse_dispatch list) result \<times> sse_stream_decoder" where
  "stream_push chunk s =
     (let (r, s') = push_with_flushed chunk s in (map_err fst r, s'))"

definition finish_with_flushed ::
    "sse_stream_decoder \<Rightarrow>
       (sse_decode_error \<times> sse_dispatch list, sse_dispatch list) result \<times> sse_stream_decoder" where
  "finish_with_flushed s =
     (case stream_ensure_active s of
        Err error \<Rightarrow> (Err (error, []), s)
      | Ok _ \<Rightarrow>
          (case finish (stream_decoder s) of
             (Err error, d') \<Rightarrow>
               (Err (error, []), s\<lparr>stream_decoder := d', stream_state := StreamFailed\<rparr>)
           | (Ok frames, d') \<Rightarrow>
               let (dispatches, s') = classify_frames frames (s\<lparr>stream_decoder := d'\<rparr>)
               in if stream_state s' \<noteq> StreamActive then (Ok dispatches, s')
                  else case policy_eof (stream_policy s') of
                    Complete \<Rightarrow> (Ok dispatches, s'\<lparr>stream_state := StreamCompleted\<rparr>)
                  | RequireTerminal \<Rightarrow>
                      (Err (UnexpectedEof (expected_terminal (stream_policy s')), dispatches),
                       s'\<lparr>stream_state := StreamFailed\<rparr>)))"

definition stream_finish ::
    "sse_stream_decoder \<Rightarrow>
       (sse_decode_error, sse_dispatch list) result \<times> sse_stream_decoder" where
  "stream_finish s = (let (r, s') = finish_with_flushed s in (map_err fst r, s'))"

definition stream_close :: "sse_stream_decoder \<Rightarrow> sse_stream_decoder" where
  "stream_close s =
     (if stream_state s = StreamActive
      then s\<lparr>stream_decoder := close (stream_decoder s), stream_state := StreamCompleted\<rparr> else s)"

end
