(* ===== verification/Sse_Dispatch.thy ===== *)
theory Sse_Dispatch
  imports Sse_Stream Chunked
begin

text \<open>
  What the endpoint stream decoder delivers.  The specification classifies the frames of the whole
  body in order and stops at the first terminal one; frames complete before a parsing error are
  delivered before it.  The decoder implements it for every chunking, and its delivery does not depend
  on chunk boundaries.
\<close>

section \<open>Classification of a frame sequence\<close>

fun dispatch_frames ::
    "sse_endpoint_policy \<Rightarrow> sse_frame list \<Rightarrow> sse_dispatch list \<times> sse_stream_state" where
  "dispatch_frames p [] = ([], StreamActive)"
| "dispatch_frames p (f # fs) =
     (case classify p f of
        FrameEvent \<Rightarrow> let (ds, st) = dispatch_frames p fs in (Event f # ds, st)
      | EmittedTerminal \<Rightarrow> ([Terminal f], StreamCompleted)
      | ConsumedTerminal \<Rightarrow> ([], StreamCompleted)
      | FrameRemoteError \<Rightarrow> ([RemoteError f], StreamRemoteError))"

lemma dispatch_frames_append:
  "dispatch_frames p (fs @ gs) =
     (let (ds, st) = dispatch_frames p fs
      in if st \<noteq> StreamActive then (ds, st)
         else let (ds', st') = dispatch_frames p gs in (ds @ ds', st'))"
  by (induction fs) (auto simp: split_def Let_def split: frame_classification.split)

lemma classify_frames_dispatch:
  "classify_frames fs s =
     (let (ds, st) = dispatch_frames (stream_policy s) fs
      in (ds, if st = StreamActive then s
              else s\<lparr>stream_decoder := close (stream_decoder s), stream_state := st\<rparr>))"
  by (induction fs) (auto simp: split_def Let_def split: frame_classification.split)

section \<open>Segments\<close>

text \<open>One round of the loop completes at most one line, and leaves at most one byte after it.\<close>

lemma segment_lines:
  assumes "framing_inv d" and "rest \<noteq> []"
    and "bom_split (bom_checked d) (line_buffer d @ take (segment_end d rest) rest) = (True, buf)"
  obtains r where "split_lines False buf = ([], r)"
  | l r where "split_lines False buf = ([l], r)" and "length r \<le> 1"
proof (cases "line_buffer d \<noteq> [] \<and> last (line_buffer d) = CR")
  case True
  then obtain p where p: "line_buffer d = p @ [CR]" by (metis append_butlast_last_id)
  have chk: "bom_checked d"
    using assms(1) p bom_prefix_no_terminator [of "line_buffer d"]
    by (auto simp: framing_inv_def no_terminator_def split: if_splits)
  obtain b where b: "take (segment_end d rest) rest = [b]"
    using True assms(2) by (cases rest) (auto simp: segment_end_def)
  have "no_terminator p"
    using assms(1) chk p by (auto simp: framing_inv_def take_line_None_iff no_terminator_def)
  then have "take_line False buf = Some (p, if b = LF then [] else [b])"
    using assms(3) chk b p by (auto simp: bom_split_def take_line_no_terminator)
  moreover have "take_line False (if b = LF then [] else [b]) = None" by auto
  ultimately have "split_lines False buf = ([p], if b = LF then [] else [b])"
    by (simp add: split_lines_Some split_lines_None)
  then show ?thesis by (rule that(2)) simp
next
  case False
  have nt: "no_terminator (line_buffer d)"
    using assms(1) False bom_prefix_no_terminator [of "line_buffer d"]
    by (auto simp: framing_inv_def take_line_None_iff split: if_splits)
  consider xs where "take (segment_end d rest) rest = xs" "no_terminator xs"
    | xs t where "take (segment_end d rest) rest = xs @ [t]" "no_terminator xs" "t = CR \<or> t = LF"
  proof (cases "position (\<lambda>b. b = CR \<or> b = LF) rest")
    case None
    with False have "take (segment_end d rest) rest = rest"
      by (simp add: segment_end_def del: de_Morgan_conj)
    moreover have "no_terminator rest"
      using None unfolding position_None_iff no_terminator_def by blast
    ultimately show ?thesis by (rule that(1))
  next
    case (Some n)
    from position_SomeD [OF this] obtain l x r where
      "rest = l @ x # r" "length l = n" "x = CR \<or> x = LF" "\<forall>y\<in>set l. \<not> (y = CR \<or> y = LF)" by blast
    moreover from this Some False have "take (segment_end d rest) rest = l @ [x]"
      by (simp add: segment_end_def del: de_Morgan_conj)
    moreover from calculation have "no_terminator l" unfolding no_terminator_def by blast
    ultimately show ?thesis by (intro that(2))
  qed
  then show ?thesis
  proof cases
    case 1
    then have "no_terminator buf"
      using assms(3) nt set_drop_subset [of 3 "line_buffer d @ xs"]
      by (auto simp: bom_split_def strip_bom_def no_terminator_def split: if_splits)
    then show ?thesis
      by (intro that(1)) (simp add: split_lines_None take_line_None_iff)
  next
    case 2
    let ?B = "line_buffer d @ xs"
    have "t \<notin> set UTF8_BOM" using 2 by (auto simp: UTF8_BOM_def)
    then have "UTF8_BOM \<noteq> ?B @ [t]" by (metis in_set_conv_decomp)
    then have pre: "prefix UTF8_BOM (?B @ [t]) \<longleftrightarrow> prefix UTF8_BOM ?B"
      by (simp add: prefix_snoc del: append_assoc)
    obtain q where q: "buf = q @ [t]" "no_terminator q"
    proof (cases "bom_checked d \<or> \<not> prefix UTF8_BOM ?B")
      case True
      with assms(3) 2 pre have "buf = ?B @ [t]"
        by (auto simp: bom_split_def strip_bom_def split: if_splits)
      then show ?thesis using nt 2 that [of ?B] by simp
    next
      case False
      then have len: "length ?B \<ge> 3" using prefix_length_le [of UTF8_BOM ?B] by simp
      with assms(3) 2 pre False have "buf = drop 3 ?B @ [t]"
        by (auto simp: bom_split_def strip_bom_def split: if_splits)
      moreover have "no_terminator (drop 3 ?B)"
        using nt 2 set_drop_subset [of 3 ?B] by (auto simp: no_terminator_def)
      ultimately show ?thesis using that by simp
    qed
    show ?thesis
    proof (cases "t = LF")
      case True
      with q have "take_line False buf = Some (q, [])" by (simp add: take_line_no_terminator)
      then have "split_lines False buf = ([q], [])" by (simp add: split_lines_Some split_lines_None)
      then show ?thesis by (rule that(2)) simp
    next
      case False
      with 2 q have "take_line False buf = None" by (auto simp: take_line_None_iff)
      then show ?thesis by (intro that(1)) (simp add: split_lines_None)
    qed
  qed
qed

lemma process_line_error_frames: "process_line l d fs = (Err e, d', fs') \<Longrightarrow> fs' = fs"
  by (auto simp: process_line_branches split: if_splits)

lemma segment_feed:
  assumes "framing_inv d" and "rest \<noteq> []" and "0 < max_line_bytes (limits d)"
    and "feed_keep (take (segment_end d rest) rest) d = (err, fs, d')"
  shows "(err \<noteq> None \<longrightarrow> fs = []) \<and> (fs \<noteq> [] \<longrightarrow> bom_checked d')"
proof (cases "bom_split (bom_checked d) (line_buffer d @ take (segment_end d rest) rest)")
  case (Pair c buf)
  show ?thesis
  proof (cases c)
    case False
    with Pair assms(4) show ?thesis by (auto simp: feed_keep_def)
  next
    case True
    from True Pair have "bom_split (bom_checked d) (line_buffer d @ take (segment_end d rest) rest) = (True, buf)"
      by simp
    from segment_lines [OF assms(1,2) this] show ?thesis
    proof cases
      case (1 r)
      with Pair True assms(4) show ?thesis by (auto simp: feed_keep_def split: if_splits)
    next
      case (2 l r)
      have "content_len r \<le> max_line_bytes (limits d)"
        using 2(2) assms(3) by (auto simp: content_len_def)
      with Pair True assms(4) 2 show ?thesis
        by (auto simp: feed_keep_def dest: process_line_error_frames
            split: prod.splits sum.splits if_splits)
    qed
  qed
qed

section \<open>One chunk\<close>

definition closed_decoder :: "sse_decoder \<Rightarrow> sse_decoder" where
  "closed_decoder d = (clear_retained d)\<lparr>decoder_state := DecoderFinished, bom_checked := True\<rparr>"

definition chunk_spec ::
    "bytes \<Rightarrow> sse_stream_decoder \<Rightarrow>
       (sse_decode_error \<times> sse_dispatch list, sse_dispatch list) result \<times> sse_stream_decoder" where
  "chunk_spec bs s =
     (let (err, fs, d') = feed_keep bs (stream_decoder s);
          (ds, st) = dispatch_frames (stream_policy s) fs
      in if st \<noteq> StreamActive
         then (Ok ds, s\<lparr>stream_decoder := closed_decoder (stream_decoder s), stream_state := st\<rparr>)
         else case err of
           Some e \<Rightarrow> (Err (e, ds), s\<lparr>stream_decoder := d', stream_state := StreamFailed\<rparr>)
         | None \<Rightarrow> (Ok ds, s\<lparr>stream_decoder := d'\<rparr>))"

definition stream_inv :: "sse_stream_decoder \<Rightarrow> bool" where
  "stream_inv s \<longleftrightarrow>
     stream_state s = StreamActive \<and> decoder_state (stream_decoder s) = DecoderActive
     \<and> framing_inv (stream_decoder s) \<and> 0 < max_line_bytes (limits (stream_decoder s))"

lemma stream_inv_new: "0 < max_line_bytes l \<Longrightarrow> stream_inv (sse_stream_decoder_new l p)"
  using framing_inv_new [of l]
  by (simp add: stream_inv_def sse_stream_decoder_new_def) (simp add: sse_decoder_new_def)

lemma feed_keep_inv:
  assumes "framing_inv d" and "feed_keep bs d = (None, fs, d')"
  shows "framing_inv d' \<and> limits d' = limits d \<and> decoder_state d' = decoder_state d"
proof -
  have "feed_spec bs d [] = (Ok fs, d')" using assms(2) by (simp add: feed_spec_keep)
  from feed_spec_framing_inv [OF assms(1) this] feed_spec_setup [OF this] show ?thesis by simp
qed

lemma feed_keep_push:
  assumes "stream_inv s"
  shows "push bs (stream_decoder s) =
    (case feed_keep bs (stream_decoder s) of (Some e, _, d') \<Rightarrow> (Err e, d') | (None, fs, d') \<Rightarrow> (Ok fs, d'))"
  using assms push_feed_spec [of "stream_decoder s" bs]
  by (simp add: stream_inv_def feed_spec_keep split: prod.split option.split)

lemma close_closed:
  "decoder_state d' = DecoderActive \<Longrightarrow> limits d' = limits d \<Longrightarrow> bom_checked d' \<Longrightarrow>
     close d' = closed_decoder d"
  by (simp add: close_def closed_decoder_def clear_retained_def)

lemma dispatch_frames_Nil_state:
  "dispatch_frames p fs = (ds, st) \<Longrightarrow> st \<noteq> StreamActive \<Longrightarrow> fs \<noteq> []"
  by auto

definition with_dispatches ::
    "sse_dispatch list \<Rightarrow>
       (sse_decode_error \<times> sse_dispatch list, sse_dispatch list) result \<Rightarrow>
       (sse_decode_error \<times> sse_dispatch list, sse_dispatch list) result" where
  "with_dispatches ds r = map_sum (map_prod id ((@) ds)) ((@) ds) r"

lemma with_dispatches_simps [simp]:
  "with_dispatches ds (Ok xs) = Ok (ds @ xs)"
  "with_dispatches ds (Err (e, xs)) = Err (e, ds @ xs)"
  "with_dispatches [] r = r"
  "with_dispatches ds (with_dispatches ds' r) = with_dispatches (ds @ ds') r"
  by (cases r; auto simp: with_dispatches_def)+

lemma chunk_spec_append:
  assumes "stream_inv s" and "feed_keep a (stream_decoder s) = (None, fs, d')"
    and "dispatch_frames (stream_policy s) fs = (ds, StreamActive)"
  shows "chunk_spec (a @ b) s =
    map_prod (with_dispatches ds) (\<lambda>s. s) (chunk_spec b (s\<lparr>stream_decoder := d'\<rparr>))"
proof -
  have same: "closed_decoder d' = closed_decoder (stream_decoder s)"
    using feed_keep_inv [OF _ assms(2)] assms(1)
    by (simp add: closed_decoder_def clear_retained_def stream_inv_def)
  show ?thesis
    using assms same
    by (simp add: chunk_spec_def feed_keep_append dispatch_frames_append
        split: prod.split option.split)
qed

lemma push_segments_spec:
  "stream_inv s \<Longrightarrow>
     push_segments rest s ds = map_prod (with_dispatches ds) (\<lambda>s. s) (chunk_spec rest s)"
proof (induction rest s ds rule: push_segments.induct)
  case (1 rest s ds)
  let ?d = "stream_decoder s"
  have inv: "framing_inv ?d" "decoder_state ?d = DecoderActive" "0 < max_line_bytes (limits ?d)"
    using "1.prems" by (simp_all add: stream_inv_def)
  show ?case
  proof (cases "rest = []")
    case True
    then have "feed_keep [] ?d = (None, [], ?d)"
      using feed_spec_Nil [OF inv(1), of "[]"]
      by (auto simp: feed_spec_keep split: prod.splits option.splits)
    with True show ?thesis by (subst push_segments.simps) (simp add: chunk_spec_def)
  next
    case False
    let ?n = "segment_end ?d rest"
    obtain err fs d' where fk: "feed_keep (take ?n rest) ?d = (err, fs, d')"
      by (cases "feed_keep (take ?n rest) ?d")
    have seg: "err \<noteq> None \<longrightarrow> fs = []" "fs \<noteq> [] \<longrightarrow> bom_checked d'"
      using segment_feed [OF inv(1) False inv(3) fk] by blast+
    note app = feed_keep_append [of "take ?n rest" "drop ?n rest" ?d, simplified append_take_drop_id]
    show ?thesis
    proof (cases err)
      case (Some e)
      with seg fk False feed_keep_push [OF "1.prems", of "take ?n rest"] show ?thesis
        by (subst push_segments.simps) (simp add: chunk_spec_def app)
    next
      case None
      with fk have fk': "feed_keep (take ?n rest) ?d = (None, fs, d')" by simp
      have d': "framing_inv d'" "limits d' = limits ?d" "decoder_state d' = DecoderActive"
        using feed_keep_inv [OF inv(1) fk'] inv(2) by simp_all
      have pu: "push (take ?n rest) ?d = (Ok fs, d')"
        using feed_keep_push [OF "1.prems", of "take ?n rest"] fk' by simp
      obtain new st where df: "dispatch_frames (stream_policy s) fs = (new, st)" by fastforce
      show ?thesis
      proof (cases "st = StreamActive")
        case True
        let ?s = "s\<lparr>stream_decoder := d'\<rparr>"
        have cf: "classify_frames fs ?s = (new, ?s)"
          using df True by (simp add: classify_frames_dispatch)
        have active: "stream_state s = StreamActive" using "1.prems" by (simp add: stream_inv_def)
        have "stream_inv ?s" using "1.prems" d' by (simp add: stream_inv_def)
        from "1.IH" [OF False refl pu [symmetric] refl refl cf [symmetric] _ this] active
        have "push_segments (drop ?n rest) ?s (ds @ new) =
            map_prod (with_dispatches (ds @ new)) (\<lambda>s. s) (chunk_spec (drop ?n rest) ?s)"
          by simp
        with False pu cf active chunk_spec_append [OF "1.prems" fk', of new "drop ?n rest"] df True
        show ?thesis
          by (subst push_segments.simps) (simp add: prod.map_comp comp_def)
      next
        case stopped: False
        have "bom_checked d'" using seg dispatch_frames_Nil_state [OF df stopped] by simp
        with close_closed [OF d'(3,2)] have "close d' = closed_decoder ?d" by simp
        with False pu df stopped fk' show ?thesis
          by (subst push_segments.simps)
            (simp add: chunk_spec_def app classify_frames_dispatch dispatch_frames_append
              split: prod.split)
      qed
    qed
  qed
qed

lemma push_with_flushed_spec: "stream_inv s \<Longrightarrow> push_with_flushed bs s = chunk_spec bs s"
  by (simp add: push_with_flushed_def stream_ensure_active_def push_segments_spec)
    (simp add: stream_inv_def map_prod_def split_def)

section \<open>The chunked-decoder contract\<close>

definition join_results ::
    "(sse_decode_error \<times> sse_dispatch list, sse_dispatch list) result \<Rightarrow>
       (sse_decode_error \<times> sse_dispatch list, sse_dispatch list) result \<Rightarrow>
       (sse_decode_error \<times> sse_dispatch list, sse_dispatch list) result" where
  "join_results r r' = (case r of Ok ds \<Rightarrow> with_dispatches ds r' | Err e \<Rightarrow> Err e)"

definition stream_continues ::
    "(sse_decode_error \<times> sse_dispatch list, sse_dispatch list) result \<Rightarrow> sse_stream_decoder \<Rightarrow> bool" where
  "stream_continues r s \<longleftrightarrow> is_ok r \<and> stream_state s = StreamActive"

lemma chunk_spec_continues:
  assumes "stream_inv s" and "chunk_spec a s = (r, s')" and "stream_continues r s'"
  obtains fs ds d' where "feed_keep a (stream_decoder s) = (None, fs, d')"
    and "dispatch_frames (stream_policy s) fs = (ds, StreamActive)"
    and "r = Ok ds" and "s' = s\<lparr>stream_decoder := d'\<rparr>"
proof -
  obtain err fs d' where fk: "feed_keep a (stream_decoder s) = (err, fs, d')"
    by (cases "feed_keep a (stream_decoder s)")
  obtain ds st where df: "dispatch_frames (stream_policy s) fs = (ds, st)" by fastforce
  from assms fk df have "err = None" "st = StreamActive" "r = Ok ds" "s' = s\<lparr>stream_decoder := d'\<rparr>"
    by (auto simp: chunk_spec_def stream_continues_def split: option.splits if_splits)
  with fk df that show ?thesis by blast
qed

lemma chunk_spec_stops:
  assumes "stream_inv s" and "chunk_spec a s = (r, s')" and "\<not> stream_continues r s'"
  shows "chunk_spec (a @ b) s = (r, s')"
proof -
  obtain err fs d' where fk: "feed_keep a (stream_decoder s) = (err, fs, d')"
    by (cases "feed_keep a (stream_decoder s)")
  obtain ds st where df: "dispatch_frames (stream_policy s) fs = (ds, st)" by fastforce
  have "stream_state s = StreamActive" using assms(1) by (simp add: stream_inv_def)
  with assms(2,3) fk df have "err \<noteq> None \<or> st \<noteq> StreamActive"
    by (auto simp: chunk_spec_def stream_continues_def split: option.splits if_splits)
  with assms(2) fk df show ?thesis
    by (auto simp: chunk_spec_def feed_keep_append dispatch_frames_append
        split: prod.splits option.splits if_splits)
qed

interpretation stream_chunks: chunked_decoder push_with_flushed stream_continues join_results
  "Ok []" stream_inv
proof unfold_locales
  fix s :: sse_stream_decoder
  assume "stream_inv s"
  then show "push_with_flushed [] s = (Ok [], s)"
    by (simp add: push_with_flushed_def stream_ensure_active_def stream_inv_def push_segments.simps)
next
  fix s :: sse_stream_decoder and a b
  assume inv: "stream_inv s"
  obtain r s' where a: "chunk_spec a s = (r, s')" by (cases "chunk_spec a s")
  show "push_with_flushed (a @ b) s =
      (let (r, s') = push_with_flushed a s
       in if stream_continues r s' then let (r', s'') = push_with_flushed b s' in (join_results r r', s'')
          else (r, s'))"
  proof (cases "stream_continues r s'")
    case True
    from chunk_spec_continues [OF inv a True] obtain fs ds d' where
      fk: "feed_keep a (stream_decoder s) = (None, fs, d')"
      and df: "dispatch_frames (stream_policy s) fs = (ds, StreamActive)"
      and r: "r = Ok ds" "s' = s\<lparr>stream_decoder := d'\<rparr>" by metis
    have "stream_inv s'"
      using inv r(2) feed_keep_inv [OF _ fk] by (simp add: stream_inv_def)
    with chunk_spec_append [OF inv fk df, of b] True inv a r show ?thesis
      by (simp add: push_with_flushed_spec join_results_def map_prod_def split_def Let_def)
  next
    case False
    with chunk_spec_stops [OF inv a False, of b] inv a show ?thesis
      by (simp add: push_with_flushed_spec)
  qed
next
  fix s s' :: sse_stream_decoder and a r
  assume inv: "stream_inv s" and "push_with_flushed a s = (r, s')" and cont: "stream_continues r s'"
  then have "chunk_spec a s = (r, s')" by (simp add: push_with_flushed_spec)
  from chunk_spec_continues [OF inv this cont] show "stream_inv s'"
    using inv feed_keep_inv by (fastforce simp: stream_inv_def)
qed

section \<open>The whole stream\<close>

text \<open>A consumer that delivers what every call returns, before the error if there is one, and stops
  once the stream is no longer active: the dispatches, the error and the final state.\<close>

fun run_stream ::
    "bytes list \<Rightarrow> sse_stream_decoder \<Rightarrow> sse_dispatch list \<times> sse_decode_error option \<times> sse_stream_state" where
  "run_stream [] s =
     (case finish_with_flushed s of
        (Ok ds, s') \<Rightarrow> (ds, None, stream_state s')
      | (Err (e, ds), s') \<Rightarrow> (ds, Some e, stream_state s'))"
| "run_stream (c # cs) s =
     (case push_with_flushed c s of
        (Err (e, ds), s') \<Rightarrow> (ds, Some e, stream_state s')
      | (Ok ds, s') \<Rightarrow>
          if stream_state s' \<noteq> StreamActive then (ds, None, stream_state s')
          else let (ds', e, st) = run_stream cs s' in (ds @ ds', e, st))"

text \<open>What is delivered for a sequence of frames followed by an error or by the end of the body.\<close>

definition deliver ::
    "sse_endpoint_policy \<Rightarrow> sse_decode_error option \<Rightarrow> sse_frame list \<Rightarrow>
       sse_dispatch list \<times> sse_decode_error option \<times> sse_stream_state" where
  "deliver p err fs =
     (let (ds, st) = dispatch_frames p fs
      in if st \<noteq> StreamActive then (ds, None, st)
         else case err of
           Some e \<Rightarrow> (ds, Some e, StreamFailed)
         | None \<Rightarrow>
             (case policy_eof p of
                Complete \<Rightarrow> (ds, None, StreamCompleted)
              | RequireTerminal \<Rightarrow> (ds, Some (UnexpectedEof (expected_terminal p)), StreamFailed)))"

text \<open>The specification: decode the whole body line by line, keeping the frames before an error.\<close>

definition stream_decode ::
    "sse_endpoint_policy \<Rightarrow> sse_limits \<Rightarrow> bytes \<Rightarrow>
       sse_dispatch list \<times> sse_decode_error option \<times> sse_stream_state" where
  "stream_decode p l bs =
     (case run_lines (eof_lines (strip_bom bs)) (sse_decoder_new l) [] of
        (Err e, _, fs) \<Rightarrow> deliver p (Some e) fs
      | (Ok _, d, fs) \<Rightarrow> deliver p None (fs @ event_of d))"

lemma deliver_append:
  assumes "dispatch_frames p fs = (ds, StreamActive)"
  shows "deliver p err (fs @ gs) = (let (ds', e, st) = deliver p err gs in (ds @ ds', e, st))"
  using assms
  by (simp add: deliver_def dispatch_frames_append split: prod.split option.split sse_eof_behavior.split)

lemma deliver_stopped:
  "dispatch_frames p fs = (ds, st) \<Longrightarrow> st \<noteq> StreamActive \<Longrightarrow> deliver p err (fs @ gs) = (ds, None, st)"
  by (simp add: deliver_def dispatch_frames_append)

text \<open>At the end of the body the retained bytes hold at most one line, so an error there comes before
  any frame.\<close>

lemma finish_keep_error:
  assumes "framing_inv d" and "finish_keep d [] = (Some e, fs)"
  shows "fs = []"
proof -
  let ?b = "line_buffer d"
  have "pending d [] = ?b"
    using assms(1) prefix_length_le [of UTF8_BOM ?b]
    by (auto simp: pending_def strip_bom_def framing_inv_def)
  moreover have "eof_lines ?b = [] \<or> (\<exists>l. eof_lines ?b = [l])"
  proof -
    consider "no_terminator ?b" | p where "?b = p @ [CR]" "no_terminator p"
      using assms(1) bom_prefix_no_terminator [of ?b]
      by (auto simp: framing_inv_def take_line_None_iff split: if_splits)
    then show ?thesis
    proof cases
      case 1
      then show ?thesis by (simp add: eof_lines_def split_lines_None take_line_None_iff)
    next
      case 2
      then have "take_line True ?b = Some (p, [])" by (simp add: take_line_no_terminator)
      then show ?thesis by (simp add: eof_lines_def split_lines_Some split_lines_None)
    qed
  qed
  ultimately show ?thesis
    using assms(2)
    by (auto simp: finish_keep_def dest: process_line_error_frames split: prod.splits sum.splits)
qed

lemma finish_with_flushed_deliver:
  assumes "stream_inv s"
  shows "run_stream [] s =
    (case finish_keep (stream_decoder s) [] of (e, fs) \<Rightarrow> deliver (stream_policy s) e fs)"
proof -
  let ?d = "stream_decoder s"
  have inv: "framing_inv ?d" "decoder_state ?d = DecoderActive" "stream_state s = StreamActive"
    using assms by (simp_all add: stream_inv_def)
  obtain err fs where fk: "finish_keep ?d [] = (err, fs)" by fastforce
  obtain r d' where fin: "finish ?d = (r, d')" by fastforce
  have r: "r = (case err of Some e \<Rightarrow> Err e | None \<Rightarrow> Ok fs)"
    using finish_finish_spec [OF inv(1,2)] fin fk
    by (simp add: finish_spec_keep split: option.split)
  show ?thesis
  proof (cases err)
    case (Some e)
    with r fin fk inv finish_keep_error [OF inv(1), of e fs] show ?thesis
      by (simp add: finish_with_flushed_def stream_ensure_active_def deliver_def)
  next
    case None
    with r fin fk inv show ?thesis
      by (simp add: finish_with_flushed_def stream_ensure_active_def deliver_def
          classify_frames_dispatch split: prod.split sse_eof_behavior.split)
  qed
qed

lemma run_stream_deliver:
  "stream_inv s \<Longrightarrow> run_stream cs s =
    (case finish_keep (stream_decoder s) (concat cs) of (e, fs) \<Rightarrow> deliver (stream_policy s) e fs)"
proof (induction cs arbitrary: s)
  case Nil
  then show ?case using finish_with_flushed_deliver [of s] by simp
next
  case (Cons c cs)
  obtain err fs d' where fk: "feed_keep c (stream_decoder s) = (err, fs, d')"
    by (cases "feed_keep c (stream_decoder s)")
  obtain ds st where df: "dispatch_frames (stream_policy s) fs = (ds, st)" by fastforce
  have active: "stream_state s = StreamActive" using Cons.prems by (simp add: stream_inv_def)
  note sp = push_with_flushed_spec [OF Cons.prems, of c] chunk_spec_def finish_keep_step
  show ?case
  proof (cases "st = StreamActive \<and> err = None")
    case True
    let ?s = "s\<lparr>stream_decoder := d'\<rparr>"
    have "stream_inv ?s"
      using Cons.prems fk True feed_keep_inv [of "stream_decoder s" c fs d'] by (simp add: stream_inv_def)
    from Cons.IH [OF this] fk df True active deliver_append [of "stream_policy s" fs ds] show ?thesis
      by (simp add: sp split: prod.split)
  next
    case False
    show ?thesis
    proof (cases "st = StreamActive")
      case True
      with False fk df active show ?thesis by (auto simp: sp deliver_def)
    next
      case stopped: False
      note stop = deliver_stopped [OF df stopped]
      from stop [of _ "[]"] stop fk df active stopped show ?thesis
        by (simp add: sp split: prod.split option.split)
    qed
  qed
qed

lemma run_stream_decode:
  assumes "0 < max_line_bytes l"
  shows "run_stream cs (sse_stream_decoder_new l p) = stream_decode p l (concat cs)"
  using run_stream_deliver [OF stream_inv_new [OF assms], of cs p]
  by (simp add: sse_stream_decoder_new_def stream_decode_def finish_keep_def pending_def
      sse_decoder_new_def split: prod.split sum.split)

text \<open>
  C3: For every way of cutting the body into transport chunks, a consumer of the
  \<^verbatim>\<open>SseStreamDecoder\<close> receives exactly the dispatches, the error and the final state of the
  one-shot specification: the frames of the body in order, classified by the endpoint policy, up to and
  including the first terminal frame; without one, everything decoded before a parsing error and then
  that error, or, at a clean end of the body, completion or \<^verbatim>\<open>UnexpectedEof\<close> as the policy says.
\<close>

theorem stream_decoder_refines_spec:
  assumes "0 < max_line_bytes l"
  shows "run_stream cs (sse_stream_decoder_new l p) = stream_decode p l (concat cs)"
  by (rule run_stream_decode [OF assms])

definition demo_body :: bytes where
  "demo_body = ''data: a'' @ [CR, LF, CR, LF] @ ''data: [DONE]'' @ [LF, LF] @ [CHR 0xFF]"

theorem stream_decoder_refines_spec_witness:
  "run_stream [take 9 demo_body, drop 9 demo_body] (sse_stream_decoder_new sse_limits_default legacy_done)
     = ([Event \<lparr>frame_event = None, frame_data = ''a'', frame_id = None, frame_retry = None\<rparr>],
        None, StreamCompleted)"
proof -
  have "stream_decode legacy_done sse_limits_default demo_body
     = ([Event \<lparr>frame_event = None, frame_data = ''a'', frame_id = None, frame_retry = None\<rparr>],
        None, StreamCompleted)" by code_simp
  then show ?thesis
    using stream_decoder_refines_spec
      [of sse_limits_default "[take 9 demo_body, drop 9 demo_body]" legacy_done]
    by (simp add: sse_limits_default_def DEFAULT_MAX_SSE_LINE_BYTES_def)
qed

text \<open>
  What the stream decoder delivers in the middle of a stream does not depend on chunk boundaries
  either: from any active state, two ways of cutting the same bytes give the same dispatches, the same
  error and the same decoder, including which bytes it still retains.
\<close>

theorem stream_chunk_boundaries_irrelevant:
  assumes "stream_inv s" and "concat cs = concat cs'"
  shows "feed_all push_with_flushed stream_continues join_results (Ok []) cs s =
    feed_all push_with_flushed stream_continues join_results (Ok []) cs' s"
  by (rule stream_chunks.chunk_boundaries_irrelevant [OF assms])

theorem stream_chunk_boundaries_irrelevant_witness:
  "feed_all push_with_flushed stream_continues join_results (Ok []) [''data:'', ''x'', [LF]]
      (sse_stream_decoder_new tiny_limits responses_policy) =
    feed_all push_with_flushed stream_continues join_results (Ok []) [''da'', ''ta:x'' @ [LF]]
      (sse_stream_decoder_new tiny_limits responses_policy)"
  by (rule stream_chunk_boundaries_irrelevant)
    (simp_all add: stream_inv_new tiny_limits_def)

text \<open>
  The stream decoder closes once.  A dispatch that ends the stream is the last one delivered, and
  whenever the state after a call is not active, any further \<^verbatim>\<open>push\<close> or \<^verbatim>\<open>finish\<close> delivers
  nothing, reports \<^verbatim>\<open>StreamInactive\<close> and leaves the decoder as it is.
\<close>

theorem stream_terminal_is_last:
  assumes "stream_inv s" and "push_with_flushed bs s = (Ok ds, s')"
  shows "list_all (\<lambda>x. \<not> is_terminal x) (butlast ds)
    \<and> (stream_state s' = StreamActive \<longrightarrow> list_all (\<lambda>x. \<not> is_terminal x) ds)
    \<and> (stream_state s' \<noteq> StreamActive \<longrightarrow>
         buffered_bytes (stream_decoder s') = 0
         \<and> push_with_flushed c s' = (Err (StreamInactive (stream_state s'), []), s')
         \<and> finish_with_flushed s' = (Err (StreamInactive (stream_state s'), []), s'))"
proof -
  have df: "dispatch_frames p fs = (ds, st) \<Longrightarrow>
      list_all (\<lambda>x. \<not> is_terminal x) (butlast ds)
      \<and> (st = StreamActive \<longrightarrow> list_all (\<lambda>x. \<not> is_terminal x) ds)" for p fs ds st
    by (induction fs arbitrary: ds) (auto split: frame_classification.splits prod.splits if_splits)
  have active: "stream_state s = StreamActive" using assms(1) by (simp add: stream_inv_def)
  from assms have "chunk_spec bs s = (Ok ds, s')" by (simp add: push_with_flushed_spec)
  then obtain fs err d' st where "feed_keep bs (stream_decoder s) = (err, fs, d')"
    and d: "dispatch_frames (stream_policy s) fs = (ds, st)"
    and st: "stream_state s' = st"
      "st \<noteq> StreamActive \<longrightarrow> stream_decoder s' = closed_decoder (stream_decoder s)"
    using active by (auto simp: chunk_spec_def split: prod.splits option.splits if_splits)
  from df [OF d] st show ?thesis
    by (auto simp: push_with_flushed_def finish_with_flushed_def stream_ensure_active_def
        buffered_bytes_def saturating_add_def closed_decoder_def clear_retained_def)
qed

definition demo_stream :: sse_stream_decoder where
  "demo_stream = sse_stream_decoder_new sse_limits_default legacy_done"

definition demo_after :: sse_stream_decoder where
  "demo_after = snd (push_with_flushed demo_body demo_stream)"

theorem stream_terminal_is_last_witness:
  "stream_state demo_after = StreamCompleted
   \<and> push_with_flushed ''x'' demo_after = (Err (StreamInactive StreamCompleted, []), demo_after)"
proof -
  have inv: "stream_inv demo_stream"
    by (simp add: demo_stream_def stream_inv_new sse_limits_default_def DEFAULT_MAX_SSE_LINE_BYTES_def)
  have st: "stream_state demo_after = StreamCompleted" by code_simp
  have "is_ok (fst (push_with_flushed demo_body demo_stream))" by code_simp
  then obtain ds where "push_with_flushed demo_body demo_stream = (Ok ds, demo_after)"
    by (cases "push_with_flushed demo_body demo_stream") (auto simp: demo_after_def is_ok_iff)
  from stream_terminal_is_last [OF inv this, of "''x''"] st show ?thesis by simp
qed

end
