(* ===== verification/Direct_Sse.thy ===== *)
theory Direct_Sse
  imports Sse_Invariants
begin

text \<open>
  The byte-at-a-time SSE decoder of the direct Codex transport,
  \<^verbatim>\<open>crates/openai-rs-codex/src/direct/sse.rs\<close>, and its agreement with the parser of the
  Platform client: whatever the Platform parser accepts, this decoder accepts with the same data,
  up to the \<^verbatim>\<open>[DONE]\<close> sentinel.
\<close>

section \<open>The decoder\<close>

datatype direct_error = DirectErrorSse bytes

datatype sse_item = Data bytes | Done

record direct_decoder =
  dir_line :: bytes
  dir_data :: bytes
  dir_has_data :: bool
  dir_max_line_bytes :: nat
  dir_max_event_bytes :: nat
  dir_bom_checked :: bool
  dir_bom_len :: nat
  dir_after_cr :: bool
  dir_done :: bool

definition direct_new :: "nat \<Rightarrow> nat \<Rightarrow> direct_decoder" where
  "direct_new line_bytes event_bytes =
     \<lparr>dir_line = [], dir_data = [], dir_has_data = False, dir_max_line_bytes = line_bytes,
      dir_max_event_bytes = event_bytes, dir_bom_checked = False, dir_bom_len = 0,
      dir_after_cr = False, dir_done = False\<rparr>"

definition direct_dispatch :: "direct_decoder \<Rightarrow> sse_item list \<Rightarrow> direct_decoder \<times> sse_item list" where
  "direct_dispatch d output =
     (if dir_done d then (d\<lparr>dir_data := [], dir_has_data := False\<rparr>, output)
      else if \<not> dir_has_data d then (d, output)
      else
        let d' = d\<lparr>dir_data := [], dir_has_data := False\<rparr>
        in if dir_data d = ''[DONE]'' then (d'\<lparr>dir_done := True\<rparr>, output @ [Done])
           else (d', output @ [Data (dir_data d)]))"

text \<open>The \<^verbatim>\<open>data\<close> branch of \<^verbatim>\<open>process_line\<close>, with the unstripped value.\<close>

definition direct_push_data ::
    "bytes \<Rightarrow> direct_decoder \<Rightarrow> (direct_error, unit) result \<times> direct_decoder" where
  "direct_push_data raw_value d =
     (let value = (case strip_prefix '' '' raw_value of Some v \<Rightarrow> v | None \<Rightarrow> raw_value);
          separator_bytes = (if dir_has_data d then 1 else 0)
      in case Option.bind (checked_add (length (dir_data d)) separator_bytes)
                (\<lambda>len. checked_add len (length value)) of
           None \<Rightarrow> (Err (DirectErrorSse ''event exceeded size limit''), d)
         | Some next_len \<Rightarrow>
             if next_len > dir_max_event_bytes d
             then (Err (DirectErrorSse ''event exceeded size limit''), d)
             else (Ok (), d\<lparr>dir_data := dir_data d @ (if dir_has_data d then [LF] else []) @ value,
                            dir_has_data := True\<rparr>))"

definition direct_process_line ::
    "bytes \<Rightarrow> direct_decoder \<Rightarrow> sse_item list \<Rightarrow>
       (direct_error, unit) result \<times> direct_decoder \<times> sse_item list" where
  "direct_process_line line_bytes d output =
     (if line_bytes = [] then let (d', output') = direct_dispatch d output in (Ok (), d', output')
      else if hd line_bytes = CHR '':'' then (Ok (), d, output)
      else case from_utf8 line_bytes of
        Err _ \<Rightarrow> (Err (DirectErrorSse ''event line was not UTF-8''), d, output)
      | Ok line \<Rightarrow>
          let (field, value) = (case split_once (CHR '':'') line of
                                  Some parts \<Rightarrow> parts | None \<Rightarrow> (line, []))
          in if field = ''data'' then let (r, d') = direct_push_data value d in (r, d', output)
             else (Ok (), d, output))"

definition terminate_line ::
    "direct_decoder \<Rightarrow> sse_item list \<Rightarrow>
       (direct_error, unit) result \<times> direct_decoder \<times> sse_item list" where
  "terminate_line d output = direct_process_line (dir_line d) (d\<lparr>dir_line := []\<rparr>) output"

definition push_line_byte ::
    "byte \<Rightarrow> direct_decoder \<Rightarrow> sse_item list \<Rightarrow>
       (direct_error, unit) result \<times> direct_decoder \<times> sse_item list" where
  "push_line_byte b d output =
     (if b = CR then terminate_line (d\<lparr>dir_after_cr := True\<rparr>) output
      else if b = LF then
        (case (if \<not> dir_after_cr d then terminate_line d output else (Ok (), d, output)) of
           (Err e, d', output') \<Rightarrow> (Err e, d', output')
         | (Ok _, d', output') \<Rightarrow> (Ok (), d'\<lparr>dir_after_cr := False\<rparr>, output'))
      else
        let d' = d\<lparr>dir_after_cr := False\<rparr>
        in if length (dir_line d') \<ge> dir_max_line_bytes d'
           then (Err (DirectErrorSse
                  (''line exceeded the '' @ nat_to_string (dir_max_line_bytes d') @ ''-byte limit'')),
                 d', output)
           else (Ok (), d'\<lparr>dir_line := dir_line d' @ [b]\<rparr>, output))"

text \<open>The replay of a mismatched byte-order-mark prefix: \<^verbatim>\<open>for &prefix in &UTF8_BOM[..replay]\<close>.\<close>

fun push_line_bytes ::
    "bytes \<Rightarrow> direct_decoder \<Rightarrow> sse_item list \<Rightarrow>
       (direct_error, unit) result \<times> direct_decoder \<times> sse_item list" where
  "push_line_bytes [] d output = (Ok (), d, output)"
| "push_line_bytes (b # bs) d output =
     (case push_line_byte b d output of
        (Err e, d', output') \<Rightarrow> (Err e, d', output')
      | (Ok _, d', output') \<Rightarrow> push_line_bytes bs d' output')"

fun direct_feed_loop ::
    "bytes \<Rightarrow> direct_decoder \<Rightarrow> sse_item list \<Rightarrow>
       (direct_error, unit) result \<times> direct_decoder \<times> sse_item list" where
  "direct_feed_loop [] d output = (Ok (), d, output)"
| "direct_feed_loop (b # bs) d output =
     (if dir_done d then (Ok (), d, output)
      else if \<not> dir_bom_checked d \<and> b = UTF8_BOM ! dir_bom_len d then
        (let d' = d\<lparr>dir_bom_len := dir_bom_len d + 1\<rparr>
         in direct_feed_loop bs
              (if dir_bom_len d' = length UTF8_BOM then d'\<lparr>dir_bom_checked := True\<rparr> else d') output)
      else
        case (if \<not> dir_bom_checked d
              then push_line_bytes (take (dir_bom_len d) UTF8_BOM) (d\<lparr>dir_bom_checked := True\<rparr>) output
              else (Ok (), d, output)) of
          (Err e, d', output') \<Rightarrow> (Err e, d', output')
        | (Ok _, d', output') \<Rightarrow>
            (case push_line_byte b d' output' of
               (Err e, d'', output'') \<Rightarrow> (Err e, d'', output'')
             | (Ok _, d'', output'') \<Rightarrow> direct_feed_loop bs d'' output''))"

definition direct_feed ::
    "bytes \<Rightarrow> direct_decoder \<Rightarrow> (direct_error, sse_item list) result \<times> direct_decoder" where
  "direct_feed chunk d =
     (case direct_feed_loop chunk d [] of
        (Err e, d', _) \<Rightarrow> (Err e, d')
      | (Ok _, d', output) \<Rightarrow> (Ok output, d'))"

definition direct_finish ::
    "direct_decoder \<Rightarrow> (direct_error, sse_item list) result \<times> direct_decoder" where
  "direct_finish d =
     (case (if \<not> dir_bom_checked d
            then push_line_bytes (take (dir_bom_len d) UTF8_BOM) (d\<lparr>dir_bom_checked := True\<rparr>) []
            else (Ok (), d, [])) of
        (Err e, d1, _) \<Rightarrow> (Err e, d1)
      | (Ok _, d1, output1) \<Rightarrow>
          (case (if dir_line d1 \<noteq> []
                 then direct_process_line (dir_line d1) (d1\<lparr>dir_line := []\<rparr>) output1
                 else (Ok (), d1, output1)) of
             (Err e, d2, _) \<Rightarrow> (Err e, d2)
           | (Ok _, d2, output2) \<Rightarrow>
               if dir_has_data d2
               then let (d3, output3) = direct_dispatch d2 output2 in (Ok output3, d3)
               else (Ok output2, d2)))"

text \<open>The decoder as its caller drives it.\<close>

definition direct_decode ::
    "bytes list \<Rightarrow> direct_decoder \<Rightarrow> (direct_error, sse_item list) result" where
  "direct_decode cs d =
     (case feed_all direct_feed (\<lambda>r d. is_ok r)
         (\<lambda>r r'. res_bind r (\<lambda>xs. res_bind r' (\<lambda>ys. Ok (xs @ ys)))) (Ok []) cs d of
        (Err e, _) \<Rightarrow> Err e
      | (Ok xs, d') \<Rightarrow> res_bind (fst (direct_finish d')) (\<lambda>ys. Ok (xs @ ys)))"

section \<open>Output is only appended\<close>

abbreviation (input) shift_out ::
    "sse_item list \<Rightarrow> (direct_error, unit) result \<times> direct_decoder \<times> sse_item list \<Rightarrow>
       (direct_error, unit) result \<times> direct_decoder \<times> sse_item list" where
  "shift_out out x \<equiv> map_prod (\<lambda>r. r) (map_prod (\<lambda>d. d) ((@) out)) x"

lemma direct_dispatch_out:
  "direct_dispatch d (out @ o2) = map_prod (\<lambda>d. d) ((@) out) (direct_dispatch d o2)"
  by (simp add: direct_dispatch_def Let_def)

text \<open>The branches of \<^verbatim>\<open>process_line\<close>, with the pairs taken apart.\<close>

definition raw_field :: "bytes \<Rightarrow> bytes \<times> bytes" where
  "raw_field l = (case split_once (CHR '':'') l of Some parts \<Rightarrow> parts | None \<Rightarrow> (l, []))"

lemma direct_process_line_branches:
  "direct_process_line l d out =
     (if l = [] then (Ok (), direct_dispatch d out)
      else if hd l = CHR '':'' then (Ok (), d, out)
      else if \<not> utf8_valid l then (Err (DirectErrorSse ''event line was not UTF-8''), d, out)
      else if fst (raw_field l) = ''data''
      then (fst (direct_push_data (snd (raw_field l)) d),
            snd (direct_push_data (snd (raw_field l)) d), out)
      else (Ok (), d, out))"
  by (simp add: direct_process_line_def from_utf8_if raw_field_def Let_def split_def)

lemma direct_process_line_out:
  "direct_process_line l d (out @ o2) = shift_out out (direct_process_line l d o2)"
  by (simp add: direct_process_line_branches direct_dispatch_out)

lemma push_line_byte_out: "push_line_byte b d (out @ o2) = shift_out out (push_line_byte b d o2)"
  by (simp add: push_line_byte_def terminate_line_def direct_process_line_out Let_def
      split: prod.split sum.split)

lemma push_line_bytes_out: "push_line_bytes bs d (out @ o2) = shift_out out (push_line_bytes bs d o2)"
  by (induction bs arbitrary: d o2) (auto simp: push_line_byte_out split: prod.split sum.split)

lemma direct_feed_loop_out:
  "direct_feed_loop bs d (out @ o2) = shift_out out (direct_feed_loop bs d o2)"
  by (induction bs arbitrary: d o2)
    (auto simp: push_line_byte_out push_line_bytes_out Let_def split: prod.split sum.split)

lemma direct_feed_loop_append:
  "direct_feed_loop (a @ b) d out =
     (case direct_feed_loop a d out of
        (Err e, d', out') \<Rightarrow> (Err e, d', out')
      | (Ok _, d', out') \<Rightarrow> direct_feed_loop b d' out')"
proof (induction a arbitrary: d out)
  case (Cons x a)
  show ?case
  proof (cases "dir_done d")
    case True
    then show ?thesis by (cases b) simp_all
  qed (auto simp: Cons.IH Let_def split: prod.split sum.split)
qed simp

interpretation direct_chunks: chunked_decoder direct_feed "\<lambda>r d. is_ok r"
  "\<lambda>r r'. res_bind r (\<lambda>xs. res_bind r' (\<lambda>ys. Ok (xs @ ys)))" "Ok []" "\<lambda>d. True"
proof unfold_locales
  fix d a b
  show "direct_feed [] d = (Ok [], d)" by (simp add: direct_feed_def)
  show "direct_feed (a @ b) d =
      (let (r, d') = direct_feed a d
       in if is_ok r
          then let (r', d'') = direct_feed b d' in (res_bind r (\<lambda>xs. res_bind r' (\<lambda>ys. Ok (xs @ ys))), d'')
          else (r, d'))"
  proof (cases "direct_feed_loop a d []")
    case (fields r d' out)
    with direct_feed_loop_out [of b d' out "[]"] show ?thesis
      by (cases r; cases "direct_feed_loop b d' []")
        (auto simp: direct_feed_def direct_feed_loop_append split: sum.split)
  qed
qed simp

lemma direct_decode_concat:
  "direct_decode cs d =
     (case direct_feed (concat cs) d of
        (Err e, _) \<Rightarrow> Err e
      | (Ok xs, d') \<Rightarrow> res_bind (fst (direct_finish d')) (\<lambda>ys. Ok (xs @ ys)))"
  by (simp add: direct_decode_def direct_chunks.chunking)

section \<open>Bytes and lines\<close>

definition skip_lf :: "bytes \<Rightarrow> bytes" where
  "skip_lf bs = (case bs of [] \<Rightarrow> [] | c # cs \<Rightarrow> if c = LF then cs else bs)"

lemma eof_lines_Some:
  "take_line True bs = Some (l, r) \<Longrightarrow> eof_lines bs = l # eof_lines r"
  by (simp add: eof_lines_def split_lines_Some split_def Let_def)

lemma eof_lines_LF: "no_terminator p \<Longrightarrow> eof_lines (p @ LF # bs) = p # eof_lines bs"
  by (rule eof_lines_Some) (simp add: take_line_no_terminator)

lemma eof_lines_CR: "no_terminator p \<Longrightarrow> eof_lines (p @ CR # bs) = p # eof_lines (skip_lf bs)"
  by (rule eof_lines_Some) (simp add: take_line_no_terminator skip_lf_def split: list.split)

lemma eof_lines_end: "no_terminator p \<Longrightarrow> eof_lines p = (if p = [] then [] else [p])"
  by (simp add: eof_lines_def split_lines_None take_line_None_iff)

text \<open>The decoder run on the lines of a body; it stops at the sentinel.\<close>

fun direct_run_lines ::
    "bytes list \<Rightarrow> direct_decoder \<Rightarrow> sse_item list \<Rightarrow>
       (direct_error, unit) result \<times> direct_decoder \<times> sse_item list" where
  "direct_run_lines [] d out = (Ok (), d, out)"
| "direct_run_lines (l # ls) d out =
     (if dir_done d then (Ok (), d, out)
      else case direct_process_line l d out of
        (Err e, d', out') \<Rightarrow> (Err e, d', out')
      | (Ok _, d', out') \<Rightarrow> direct_run_lines ls d' out')"

definition lines_total ::
    "bytes list \<Rightarrow> direct_decoder \<Rightarrow> sse_item list \<Rightarrow> (direct_error, sse_item list) result" where
  "lines_total ls d out =
     (case direct_run_lines ls d out of
        (Err e, _, _) \<Rightarrow> Err e
      | (Ok _, d', out') \<Rightarrow> Ok (snd (direct_dispatch d' out')))"

definition bytes_total ::
    "bytes \<Rightarrow> direct_decoder \<Rightarrow> sse_item list \<Rightarrow> (direct_error, sse_item list) result" where
  "bytes_total bs d out =
     (case direct_feed_loop bs d out of
        (Err e, _, _) \<Rightarrow> Err e
      | (Ok _, d', out') \<Rightarrow> res_bind (fst (direct_finish d')) (\<lambda>ys. Ok (out' @ ys)))"

text \<open>The fields of the tokenizer, which processing a line neither reads nor writes.\<close>

definition set_dir :: "bytes \<Rightarrow> bool \<Rightarrow> nat \<Rightarrow> bool \<Rightarrow> direct_decoder \<Rightarrow> direct_decoder" where
  "set_dir p c k a d = d\<lparr>dir_line := p, dir_bom_checked := c, dir_bom_len := k, dir_after_cr := a\<rparr>"

lemma set_dir_simps [simp]:
  "dir_line (set_dir p c k a d) = p" "dir_bom_checked (set_dir p c k a d) = c"
  "dir_bom_len (set_dir p c k a d) = k"
  "dir_after_cr (set_dir p c k a d) = a" "dir_done (set_dir p c k a d) = dir_done d"
  "dir_has_data (set_dir p c k a d) = dir_has_data d" "dir_data (set_dir p c k a d) = dir_data d"
  "dir_max_line_bytes (set_dir p c k a d) = dir_max_line_bytes d"
  "set_dir p c k a (set_dir p' c' k' a' d) = set_dir p c k a d"
  by (simp_all add: set_dir_def)

lemma set_dir_eq: "d = set_dir (dir_line d) (dir_bom_checked d) (dir_bom_len d) (dir_after_cr d) d"
  by (simp add: set_dir_def)

lemma direct_dispatch_set_dir:
  "direct_dispatch (set_dir p c k a d) out = map_prod (set_dir p c k a) (\<lambda>out. out) (direct_dispatch d out)"
  by (simp add: direct_dispatch_def set_dir_def Let_def)

lemma direct_push_data_set_dir:
  "direct_push_data v (set_dir p c k a d) = map_prod (\<lambda>r. r) (set_dir p c k a) (direct_push_data v d)"
  by (simp add: direct_push_data_def set_dir_def Let_def split: option.split)

lemma direct_process_line_set_dir:
  "direct_process_line l (set_dir p c k a d) out =
     map_prod (\<lambda>r. r) (map_prod (set_dir p c k a) (\<lambda>out. out)) (direct_process_line l d out)"
  by (simp add: direct_process_line_branches direct_push_data_set_dir direct_dispatch_set_dir)

lemma direct_run_lines_set_dir:
  "direct_run_lines ls (set_dir p c k a d) out =
     map_prod (\<lambda>r. r) (map_prod (set_dir p c k a) (\<lambda>out. out)) (direct_run_lines ls d out)"
  by (induction ls arbitrary: d out)
    (auto simp: direct_process_line_set_dir split: prod.splits sum.splits)

lemma lines_total_set_dir [simp]: "lines_total ls (set_dir p c k a d) out = lines_total ls d out"
  by (simp add: lines_total_def direct_run_lines_set_dir direct_dispatch_set_dir
      split: prod.split sum.split)

lemma lines_total_Cons:
  "\<not> dir_done d \<Longrightarrow> lines_total (l # ls) d out =
     (case direct_process_line l d out of
        (Err e, _, _) \<Rightarrow> Err e | (Ok _, d', out') \<Rightarrow> lines_total ls d' out')"
  by (simp add: lines_total_def split: prod.split sum.split)

lemma lines_total_done: "dir_done d \<Longrightarrow> lines_total ls d out = Ok out"
  by (cases ls) (simp_all add: lines_total_def direct_dispatch_def)

text \<open>Once done, the decoder retains no data.\<close>

definition dir_inv :: "direct_decoder \<Rightarrow> bool" where
  "dir_inv d \<longleftrightarrow> (dir_done d \<longrightarrow> \<not> dir_has_data d) \<and> (\<not> dir_has_data d \<longrightarrow> dir_data d = [])"

lemma dir_inv_set_dir [simp]: "dir_inv (set_dir p c k a d) = dir_inv d"
  by (simp add: dir_inv_def)

lemma direct_process_line_keeps:
  assumes "direct_process_line l d out = (r, d', out')" and "dir_inv d" and "\<not> dir_done d"
  shows "dir_inv d' \<and> dir_max_line_bytes d' = dir_max_line_bytes d \<and> dir_line d' = dir_line d
    \<and> dir_bom_checked d' = dir_bom_checked d \<and> dir_after_cr d' = dir_after_cr d"
proof -
  have "dir_inv (snd (direct_push_data v d)) \<and> dir_max_line_bytes (snd (direct_push_data v d)) = dir_max_line_bytes d
      \<and> dir_line (snd (direct_push_data v d)) = dir_line d
      \<and> dir_bom_checked (snd (direct_push_data v d)) = dir_bom_checked d
      \<and> dir_after_cr (snd (direct_push_data v d)) = dir_after_cr d" for v
    using assms(2,3) by (simp add: direct_push_data_def dir_inv_def Let_def split: option.split)
  with assms show ?thesis
    by (auto simp: direct_process_line_branches direct_dispatch_def dir_inv_def Let_def split: if_splits)
qed

lemma bytes_total_done:
  assumes "dir_done d" and "dir_inv d" and "dir_line d = []" and "dir_bom_checked d"
  shows "bytes_total bs d out = Ok out"
  using assms by (cases bs) (simp_all add: bytes_total_def direct_finish_def dir_inv_def)

lemma bytes_total_Nil:
  assumes "\<not> dir_done d" and "no_terminator (dir_line d)" and "dir_bom_checked d"
  shows "bytes_total [] d out = lines_total (eof_lines (dir_line d)) d out"
proof (cases "dir_line d = []")
  case True
  with assms show ?thesis
    using direct_dispatch_out [of d out "[]"]
    by (auto simp: bytes_total_def direct_finish_def lines_total_def eof_lines_end direct_dispatch_def
        Let_def)
next
  case False
  let ?l = "dir_line d"
  have d0: "d\<lparr>dir_line := []\<rparr> = set_dir [] (dir_bom_checked d) (dir_bom_len d) (dir_after_cr d) d"
    by (simp add: set_dir_def)
  obtain r d' o' where pl: "direct_process_line ?l d [] = (r, d', o')"
    by (cases "direct_process_line ?l d []")
  have o': "o' = []" using pl False by (auto simp: direct_process_line_branches split: if_splits)
  have pl': "direct_process_line ?l d out = (r, d', out)"
    using direct_process_line_out [of ?l d out "[]"] pl o' by simp
  have nd: "r = Ok u \<Longrightarrow> \<not> dir_done d'" for u
    using pl False assms(1)
    by (auto simp: direct_process_line_branches direct_push_data_def Let_def
        split: if_splits option.splits)
  show ?thesis
  proof (cases r)
    case (Inl e)
    with pl pl' assms False show ?thesis
      by (simp add: bytes_total_def direct_finish_def lines_total_def eof_lines_end d0
          direct_process_line_set_dir)
  next
    case (Inr u)
    with pl pl' assms False nd o' show ?thesis
      by (simp add: bytes_total_def direct_finish_def lines_total_def eof_lines_end d0
          direct_process_line_set_dir direct_dispatch_def Let_def)
  qed
qed

lemma terminate_step:
  assumes "dir_inv d" and "\<not> dir_done d"
    and "direct_process_line (dir_line d) d out = (r, d', out')"
    and "\<lbrakk>r = Ok (); \<not> dir_done d'; dir_inv d'; dir_max_line_bytes d' = dir_max_line_bytes d\<rbrakk>
         \<Longrightarrow> bytes_total bs (set_dir [] True k a d') out' = lines_total ls d' out'"
  shows "(case r of Err e \<Rightarrow> Err e | Ok _ \<Rightarrow> bytes_total bs (set_dir [] True k a d') out')
    = lines_total (dir_line d # ls) d out"
proof (cases r)
  case (Inl e)
  with assms(2,3) show ?thesis by (simp add: lines_total_Cons)
next
  case (Inr u)
  have keep: "dir_inv d'" "dir_max_line_bytes d' = dir_max_line_bytes d"
    using direct_process_line_keeps [OF assms(3,1,2)] by simp_all
  show ?thesis
  proof (cases "dir_done d'")
    case True
    with Inr keep assms(2,3) show ?thesis
      by (simp add: lines_total_Cons lines_total_done bytes_total_done)
  next
    case False
    with Inr keep assms(2,3,4) show ?thesis by (simp add: lines_total_Cons)
  qed
qed

lemma bytes_total_Cons:
  assumes "\<not> dir_done d" and "dir_bom_checked d"
  shows "bytes_total (b # bs) d out =
    (case push_line_byte b d out of
       (Err e, _, _) \<Rightarrow> Err e | (Ok _, d', out') \<Rightarrow> bytes_total bs d' out')"
  using assms by (simp add: bytes_total_def split: prod.split sum.split)

lemma bytes_total_lines:
  assumes "dir_inv d" and "\<not> dir_done d" and "dir_bom_checked d"
    and "no_terminator (dir_line d)" and "dir_after_cr d \<Longrightarrow> dir_line d = []"
    and "list_all (\<lambda>l. length l \<le> dir_max_line_bytes d)
          (eof_lines (dir_line d @ (if dir_after_cr d then skip_lf bs else bs)))"
  shows "bytes_total bs d out =
    lines_total (eof_lines (dir_line d @ (if dir_after_cr d then skip_lf bs else bs))) d out"
  using assms
proof (induction bs arbitrary: d out)
  case Nil
  then show ?case by (simp add: bytes_total_Nil skip_lf_def)
next
  case (Cons b bs)
  let ?k = "dir_bom_len d"
  have upd: "d\<lparr>dir_after_cr := True, dir_line := []\<rparr> = set_dir [] True ?k True d"
    "d\<lparr>dir_line := []\<rparr> = set_dir [] True ?k (dir_after_cr d) d"
    "d\<lparr>dir_after_cr := False\<rparr> = set_dir (dir_line d) True ?k False d"
    "(set_dir p c k x d')\<lparr>dir_after_cr := y\<rparr> = set_dir p c k y d'"
    "(set_dir p c k x d')\<lparr>dir_line := q\<rparr> = set_dir q c k x d'"
    for p c k x d' y q using Cons.prems(3) by (simp_all add: set_dir_def)
  obtain r d' out' where pl: "direct_process_line (dir_line d) d out = (r, d', out')"
    by (cases "direct_process_line (dir_line d) d out")
  note start = bytes_total_Cons [OF Cons.prems(2,3)] push_line_byte_def terminate_line_def upd
    direct_process_line_set_dir pl
  consider (cr) "b = CR" | (lf) "b = LF" "\<not> dir_after_cr d" | (crlf) "b = LF" "dir_after_cr d"
    | (other) "no_terminator [b]"
    by (auto simp: no_terminator_def)
  then show ?case
  proof cases
    case cr
    have ls: "eof_lines (dir_line d @ (if dir_after_cr d then skip_lf (b # bs) else b # bs))
        = dir_line d # eof_lines (skip_lf bs)"
      using cr Cons.prems(4) by (simp add: skip_lf_def [of "CR # bs"] eof_lines_CR)
    have "bytes_total (b # bs) d out = (case r of Err e \<Rightarrow> Err e
        | Ok _ \<Rightarrow> bytes_total bs (set_dir [] True ?k True d') out')"
      using cr by (simp add: start split: sum.split)
    also have "\<dots> = lines_total (dir_line d # eof_lines (skip_lf bs)) d out"
    proof (rule terminate_step [OF Cons.prems(1,2) pl])
      assume "\<not> dir_done d'" "dir_inv d'" "dir_max_line_bytes d' = dir_max_line_bytes d"
      with Cons.IH [of "set_dir [] True ?k True d'" out'] Cons.prems(6) ls
      show "bytes_total bs (set_dir [] True ?k True d') out' = lines_total (eof_lines (skip_lf bs)) d' out'"
        by simp
    qed
    finally show ?thesis by (simp add: ls)
  next
    case lf
    have ls: "eof_lines (dir_line d @ (if dir_after_cr d then skip_lf (b # bs) else b # bs))
        = dir_line d # eof_lines bs"
      using lf Cons.prems(4) by (simp add: eof_lines_LF)
    have "bytes_total (b # bs) d out = (case r of Err e \<Rightarrow> Err e
        | Ok _ \<Rightarrow> bytes_total bs (set_dir [] True ?k False d') out')"
      using lf by (simp add: start split: sum.split)
    also have "\<dots> = lines_total (dir_line d # eof_lines bs) d out"
    proof (rule terminate_step [OF Cons.prems(1,2) pl])
      assume "\<not> dir_done d'" "dir_inv d'" "dir_max_line_bytes d' = dir_max_line_bytes d"
      with Cons.IH [of "set_dir [] True ?k False d'" out'] Cons.prems(6) ls
      show "bytes_total bs (set_dir [] True ?k False d') out' = lines_total (eof_lines bs) d' out'"
        by simp
    qed
    finally show ?thesis by (simp add: ls)
  next
    case crlf
    with Cons.IH [of "set_dir (dir_line d) True ?k False d" out] Cons.prems show ?thesis
      by (simp add: start skip_lf_def)
  next
    case other
    then have b: "b \<noteq> CR" "b \<noteq> LF" by (auto simp: no_terminator_def)
    then have sk: "(if dir_after_cr d then skip_lf (b # bs) else b # bs) = b # bs"
      by (simp add: skip_lf_def)
    have "length (dir_line d) < dir_max_line_bytes d"
    proof -
      have nt: "no_terminator (dir_line d @ [b])" using other Cons.prems(4) by simp
      then have "take_line False (dir_line d @ [b]) = None"
        "content_len (dir_line d @ [b]) > length (dir_line d)"
        by (simp_all add: take_line_None_iff content_len_no_terminator)
      from eof_lines_too_long [OF this, of bs] Cons.prems(6) show ?thesis by (auto simp: sk)
    qed
    with b have "bytes_total (b # bs) d out =
        bytes_total bs (set_dir (dir_line d @ [b]) True ?k False d) out"
      by (simp add: start Let_def)
    with Cons.IH [of "set_dir (dir_line d @ [b]) True ?k False d" out] Cons.prems other sk
    show ?thesis by simp
  qed
qed

section \<open>The byte-order mark\<close>

lemma push_line_bytes_replay:
  assumes "\<not> dir_done d" and "dir_bom_checked d" and "no_terminator xs"
  shows "direct_feed_loop (xs @ ys) d out =
    (case push_line_bytes xs d out of
       (Err e, d', out') \<Rightarrow> (Err e, d', out')
     | (Ok _, d', out') \<Rightarrow> direct_feed_loop ys d' out')"
  using assms
proof (induction xs arbitrary: d out)
  case (Cons x xs)
  obtain r d' out' where b: "push_line_byte x d out = (r, d', out')" by (cases "push_line_byte x d out")
  then have "\<not> dir_done d'" "dir_bom_checked d'"
    using Cons.prems by (auto simp: push_line_byte_def no_terminator_def Let_def split: if_splits)
  with Cons b show ?case by (cases r) (auto simp: no_terminator_def)
qed simp

lemma direct_finish_replay:
  assumes "\<not> dir_done d" and "dir_bom_len d = k" and "\<not> dir_bom_checked d" and "k < 3"
  shows "bytes_total [] d out = bytes_total (take k UTF8_BOM) (d\<lparr>dir_bom_checked := True\<rparr>) out"
proof -
  let ?d = "d\<lparr>dir_bom_checked := True\<rparr>"
  have nt: "no_terminator (take k UTF8_BOM)"
    by (rule bom_prefix_no_terminator) (simp add: take_is_prefix)
  obtain r d' o' where pb: "push_line_bytes (take k UTF8_BOM) ?d [] = (r, d', o')"
    by (cases "push_line_bytes (take k UTF8_BOM) ?d []")
  have keep: "push_line_bytes xs e [] = (r, e', x) \<Longrightarrow> no_terminator xs \<Longrightarrow>
      x = [] \<and> dir_bom_checked e' = dir_bom_checked e" for xs e e' x
    by (induction xs arbitrary: e)
      (auto simp: push_line_byte_def no_terminator_def Let_def split: if_splits)
  have o': "o' = []" "dir_bom_checked d'" using keep [OF pb nt] by simp_all
  have lp: "direct_feed_loop (take k UTF8_BOM) ?d out = (r, d', out)"
    using push_line_bytes_replay [of ?d "take k UTF8_BOM" "[]" out] nt assms(1) pb o'
      push_line_bytes_out [of "take k UTF8_BOM" ?d out "[]"]
    by (cases r) simp_all
  show ?thesis
    using assms lp pb o' by (cases r) (simp_all add: bytes_total_def direct_finish_def)
qed

lemma strip_bom_mismatch:
  assumes "k < 3" and "b \<noteq> UTF8_BOM ! k"
  shows "strip_bom (take k UTF8_BOM @ b # bs) = take k UTF8_BOM @ b # bs"
proof -
  from assms(1) have "k = 0 \<or> k = 1 \<or> k = 2" by arith
  with assms(2) show ?thesis
    by (auto simp: strip_bom_def UTF8_BOM_def)
qed

lemma bytes_total_bom:
  assumes "dir_inv d" and "\<not> dir_done d" and "\<not> dir_bom_checked d" and "dir_line d = []"
    and "\<not> dir_after_cr d" and "dir_bom_len d = k" and "k < 3"
    and "list_all (\<lambda>l. length l \<le> dir_max_line_bytes d) (eof_lines (strip_bom (take k UTF8_BOM @ bs)))"
  shows "bytes_total bs d out = lines_total (eof_lines (strip_bom (take k UTF8_BOM @ bs))) d out"
  using assms
proof (induction bs arbitrary: d k)
  case Nil
  have sb: "strip_bom (take k UTF8_BOM) = take k UTF8_BOM"
    using Nil.prems(7) prefix_length_le [of UTF8_BOM "take k UTF8_BOM"] by (auto simp: strip_bom_def)
  have d: "d\<lparr>dir_bom_checked := True\<rparr> = set_dir [] True k False d"
    using Nil.prems by (simp add: set_dir_def)
  from direct_finish_replay [OF Nil.prems(2,6,3,7), of out] show ?case
    unfolding d using bytes_total_lines [of "set_dir [] True k False d" "take k UTF8_BOM" out] Nil.prems sb
    by simp
next
  case (Cons b bs)
  have d: "d\<lparr>dir_bom_checked := True\<rparr> = set_dir [] True k False d"
    "d\<lparr>dir_bom_len := Suc k\<rparr> = set_dir [] False (Suc k) False d"
    "d\<lparr>dir_bom_len := n, dir_bom_checked := True\<rparr> = set_dir [] True n False d" for n
    using Cons.prems by (simp_all add: set_dir_def)
  show ?case
  proof (cases "b = UTF8_BOM ! k")
    case True
    have tk: "take k UTF8_BOM @ b # bs = take (Suc k) UTF8_BOM @ bs"
      using True Cons.prems(7) by (simp add: take_Suc_conv_app_nth)
    show ?thesis
    proof (cases "Suc k = 3")
      case True
      then have "strip_bom (take k UTF8_BOM @ b # bs) = bs"
        unfolding tk by (simp add: strip_bom_def)
      with True \<open>b = _\<close> Cons.prems bytes_total_lines [of "set_dir [] True (Suc k) False d" bs out]
      show ?thesis by (simp add: bytes_total_def Let_def d)
    next
      case False
      let ?d = "set_dir [] False (Suc k) False d"
      have "bytes_total (b # bs) d out = bytes_total bs ?d out"
        using False \<open>b = _\<close> Cons.prems by (simp add: bytes_total_def Let_def d)
      moreover have "dir_bom_len ?d = Suc k" by (simp add: set_dir_def)
      ultimately show ?thesis
        using Cons.IH [of ?d "Suc k"] Cons.prems False unfolding tk by simp
    qed
  next
    case False
    let ?d = "set_dir [] True k False d"
    have nt: "no_terminator (take k UTF8_BOM)"
      by (rule bom_prefix_no_terminator) (simp add: take_is_prefix)
    have keep: "push_line_bytes xs e o1 = (Ok u, e', o2) \<Longrightarrow> no_terminator xs \<Longrightarrow>
        \<not> dir_done e \<Longrightarrow> dir_bom_checked e \<Longrightarrow> \<not> dir_done e' \<and> dir_bom_checked e'" for xs e e' o1 o2 u
      by (induction xs arbitrary: e o1)
        (fastforce simp: push_line_byte_def no_terminator_def Let_def split: if_splits)+
    have "direct_feed_loop (b # bs) d out = direct_feed_loop (take k UTF8_BOM @ b # bs) ?d out"
      using push_line_bytes_replay [of ?d "take k UTF8_BOM" "b # bs" out] nt Cons.prems False
        keep [OF _ nt, of ?d out]
      by (auto simp: d split: prod.split sum.split)
    then have "bytes_total (b # bs) d out = bytes_total (take k UTF8_BOM @ b # bs) ?d out"
      by (simp add: bytes_total_def)
    with bytes_total_lines [of ?d "take k UTF8_BOM @ b # bs" out] Cons.prems
      strip_bom_mismatch [OF Cons.prems(7) False, of bs]
    show ?thesis by simp
  qed
qed

lemma direct_decode_lines:
  assumes "list_all (\<lambda>l. length l \<le> ml) (eof_lines (strip_bom (concat cs)))"
  shows "direct_decode cs (direct_new ml me) =
    lines_total (eof_lines (strip_bom (concat cs))) (direct_new ml me) []"
proof -
  let ?d = "direct_new ml me"
  have "direct_decode cs ?d = bytes_total (concat cs) ?d []"
    by (simp add: direct_decode_concat bytes_total_def direct_feed_def split: prod.split sum.split)
  also have "\<dots> = lines_total (eof_lines (strip_bom (concat cs))) ?d []"
    using bytes_total_bom [of ?d 0 "concat cs" "[]"] assms
    by (simp add: direct_new_def dir_inv_def)
  finally show ?thesis .
qed

section \<open>Agreement with the Platform parser\<close>

fun items_of :: "sse_frame list \<Rightarrow> sse_item list" where
  "items_of [] = []"
| "items_of (f # fs) =
     (if frame_data f = ''[DONE]'' then [Done] else Data (frame_data f) # items_of fs)"

definition agrees :: "direct_decoder \<Rightarrow> sse_decoder \<Rightarrow> bool" where
  "agrees d p \<longleftrightarrow> \<not> dir_done d \<and> dir_data d = event_data p \<and> (dir_has_data d \<longleftrightarrow> data_lines p \<noteq> 0)
     \<and> dir_max_event_bytes d = max_event_bytes (limits p)"

lemma raw_field_split:
  "fst (raw_field l) = fst (split_field l)"
  "snd (split_field l) = (case strip_prefix '' '' (snd (raw_field l)) of Some v \<Rightarrow> v | None \<Rightarrow> snd (raw_field l))"
  by (simp_all add: raw_field_def split_field_def split_def Let_def cong: option.case_cong)

lemma agrees_push_data:
  assumes "agrees d p" and "push_data (snd (split_field l)) p = (Ok (), p')"
  shows "\<exists>d'. direct_push_data (snd (raw_field l)) d = (Ok (), d') \<and> agrees d' p'"
  using assms
  by (auto simp: push_data_def direct_push_data_def agrees_def raw_field_split Let_def
      split: option.splits if_splits)

lemma agrees_other_field:
  assumes "agrees d p" and "f \<noteq> ''data''"
  shows "agrees d (snd (process_field f v p))"
proof -
  consider "f = ''event''" | "f = ''id''" | "f = ''retry''"
    | "f \<noteq> ''event''" "f \<noteq> ''id''" "f \<noteq> ''retry''" by blast
  then show ?thesis using assms
    by cases (simp_all add: process_field_def agrees_def set_retry_def split: option.split)
qed

lemma agrees_line:
  assumes "agrees d p" and "l \<noteq> []" and "process_line l p fs = (Ok (), p', fs')"
  shows "\<exists>d'. direct_process_line l d out = (Ok (), d', out) \<and> agrees d' p' \<and> fs' = fs"
proof -
  have colon: "prefix '':'' l \<longleftrightarrow> hd l = CHR '':''" using assms(2) by (cases l) auto
  show ?thesis
  proof (cases "prefix '':'' l")
    case True
    with assms colon show ?thesis
      by (auto simp: process_line_branches direct_process_line_branches split: if_splits)
  next
    case False
    with assms(2,3) have v: "utf8_valid l" "fs' = fs"
      and pf: "process_field (fst (split_field l)) (snd (split_field l)) p = (Ok (), p')"
      by (auto simp: process_line_branches prod_eq_iff split: if_splits)
    show ?thesis
    proof (cases "fst (split_field l) = ''data''")
      case True
      with pf have "push_data (snd (split_field l)) p = (Ok (), p')" by (simp add: process_field_def)
      from agrees_push_data [OF assms(1) this] v True False colon assms(2) show ?thesis
        by (auto simp: direct_process_line_branches raw_field_split)
    next
      case other: False
      with agrees_other_field [OF assms(1) other, of "snd (split_field l)"] pf v False colon assms(2)
      show ?thesis by (auto simp: direct_process_line_branches raw_field_split)
    qed
  qed
qed

lemma agrees_blank:
  assumes "agrees d p" and "event_inv p"
  shows "(event_of p = [] \<and> direct_dispatch d out = (d, out) \<and> agrees d (snd (take_event p))) \<or>
    (\<exists>f d'. event_of p = [f] \<and> direct_dispatch d out = (d', out @ items_of [f])
      \<and> (frame_data f = ''[DONE]'' \<longrightarrow> dir_done d')
      \<and> (frame_data f \<noteq> ''[DONE]'' \<longrightarrow> agrees d' (snd (take_event p))))"
  using assms
  by (auto simp: agrees_def event_inv_def direct_dispatch_def event_of_def take_event_def Let_def)

lemma agrees_run:
  assumes "agrees d p" and "event_inv p" and "run_lines ls p [] = (Ok (), p', fs)"
  shows "lines_total ls d out = Ok (out @ items_of (fs @ event_of p'))"
  using assms
proof (induction ls arbitrary: d p out fs)
  case Nil
  then show ?case
    using agrees_blank [OF Nil.prems(1,2), of out] by (auto simp: lines_total_def)
next
  case (Cons l ls)
  obtain q p1 fs1 where pl: "process_line l p [] = (q, p1, fs1)" by (cases "process_line l p []")
  with Cons.prems(3) have q: "q = Ok ()" by (cases q) auto
  obtain fs2 where rl: "run_lines ls p1 [] = (Ok (), p', fs2)" and fs: "fs = fs1 @ fs2"
    using Cons.prems(3) pl q run_lines_frames [of ls p1 fs1 "[]"]
    by (cases "run_lines ls p1 []") auto
  have inv: "event_inv p1" using process_line_event_inv [OF Cons.prems(2) pl] by simp
  have nd: "\<not> dir_done d" using Cons.prems(1) by (simp add: agrees_def)
  show ?case
  proof (cases "l = []")
    case False
    from agrees_line [OF Cons.prems(1) False pl [unfolded q], of out] obtain d' where
      "direct_process_line l d out = (Ok (), d', out)" "agrees d' p1" "fs1 = []" by blast
    with Cons.IH [OF _ inv rl, of d' out] nd fs show ?thesis by (simp add: lines_total_Cons)
  next
    case True
    with pl q have p1: "p1 = snd (take_event p)" "fs1 = event_of p"
      by (auto simp: process_line_branches split: if_splits)
    note tot = True nd fs p1 lines_total_Cons direct_process_line_branches
    from agrees_blank [OF Cons.prems(1,2), of out] show ?thesis
    proof (elim disjE conjE exE)
      assume "event_of p = []" "direct_dispatch d out = (d, out)" "agrees d (snd (take_event p))"
      with Cons.IH [OF _ inv rl, of d out] tot show ?thesis by simp
    next
      fix f d'
      assume f: "event_of p = [f]" and dd: "direct_dispatch d out = (d', out @ items_of [f])"
        and dn: "frame_data f = ''[DONE]'' \<longrightarrow> dir_done d'"
        and ag: "frame_data f \<noteq> ''[DONE]'' \<longrightarrow> agrees d' (snd (take_event p))"
      show ?thesis
      proof (cases "frame_data f = ''[DONE]''")
        case True
        with dn f dd tot show ?thesis by (simp add: lines_total_done)
      next
        case False
        with ag Cons.IH [OF _ inv rl, of d' "out @ items_of [f]"] f dd tot show ?thesis by simp
      qed
    qed
  qed
qed

lemma run_lines_lengths:
  "run_lines ls p fs = (Ok (), p', fs') \<Longrightarrow> list_all (\<lambda>l. length l \<le> max_line_bytes (limits p)) ls"
proof (induction ls arbitrary: p fs)
  case (Cons l ls)
  obtain q p1 fs1 where pl: "process_line l p fs = (q, p1, fs1)" by (cases "process_line l p fs")
  with Cons.prems have rl: "run_lines ls p1 fs1 = (Ok (), p', fs')" and q: "q = Ok ()"
    by (auto split: sum.splits)
  have "length l \<le> max_line_bytes (limits p)"
    using pl q by (auto simp: process_line_branches split: if_splits)
  with Cons.IH [OF rl] process_line_setup [OF pl] show ?case by (simp add: same_setup_def)
qed simp

text \<open>
  C38: The direct Codex decoder agrees with the Platform parser.  Whenever the Platform parser accepts
  a body, the direct decoder with the same line and event limits accepts every chunking of it and
  returns the same event data in the same order, up to and including the first \<^verbatim>\<open>[DONE]\<close>.
\<close>

theorem direct_agrees_with_platform:
  assumes "sse_decode l (concat cs) = Ok frames"
  shows "direct_decode cs (direct_new (max_line_bytes l) (max_event_bytes l)) = Ok (items_of frames)"
proof -
  obtain r p fs where rl': "run_lines (eof_lines (strip_bom (concat cs))) (sse_decoder_new l) [] = (r, p, fs)"
    by (cases "run_lines (eof_lines (strip_bom (concat cs))) (sse_decoder_new l) []")
  then have "sse_decode l (concat cs) = (case r of Err e \<Rightarrow> Err e | Ok _ \<Rightarrow> Ok (fs @ event_of p))"
    unfolding sse_decode_def by (simp add: event_of_def split: sum.split)
  with assms have r: "r = Ok ()" and fr: "frames = fs @ event_of p"
    by (auto split: sum.splits)
  note rl = rl' [unfolded r]
  have "agrees (direct_new (max_line_bytes l) (max_event_bytes l)) (sse_decoder_new l)"
    by (simp add: agrees_def direct_new_def sse_decoder_new_def)
  from agrees_run [OF this event_inv_new rl, of "[]"] run_lines_lengths [OF rl] fr show ?thesis
    by (subst direct_decode_lines) (simp_all add: sse_decoder_new_def)
qed

definition codex_body :: bytes where
  "codex_body = UTF8_BOM @ '': ping'' @ [CR, CR] @ ''data: x'' @ [CR, LF] @ ''data: y'' @ [LF, CR]
     @ ''data: [DONE]'' @ [LF, LF] @ ''data: z''"

theorem direct_agrees_with_platform_witness:
  "direct_decode [take 17 codex_body, drop 17 codex_body]
      (direct_new DEFAULT_MAX_SSE_LINE_BYTES DEFAULT_MAX_SSE_EVENT_BYTES)
    = Ok [Data (''x'' @ [LF] @ ''y''), Done]"
proof -
  have "sse_decode sse_limits_default codex_body =
    Ok (map (\<lambda>s. \<lparr>frame_event = None, frame_data = s, frame_id = None, frame_retry = None\<rparr>)
      [''x'' @ [LF] @ ''y'', ''[DONE]'', ''z''])" by code_simp
  then show ?thesis
    using direct_agrees_with_platform
      [of sse_limits_default "[take 17 codex_body, drop 17 codex_body]"]
    by (simp add: sse_limits_default_def)
qed

text \<open>
  A comment line that is not valid UTF-8 ends a Platform stream with an error but not a direct
  one, because the direct decoder skips comments before it validates them: the two parsers agree on
  what the Platform parser accepts, not on what it rejects.
\<close>

theorem direct_accepts_malformed_comment:
  "\<exists>body. sse_decode sse_limits_default body = Err (InvalidUtf8 1 (Some 1))
     \<and> direct_decode [body] (direct_new DEFAULT_MAX_SSE_LINE_BYTES DEFAULT_MAX_SSE_EVENT_BYTES)
       = Ok [Data ''x'']"
  by (rule exI [of _ "[CHR '':'', CHR 0xFF, LF] @ ''data:x'' @ [LF, LF]"]) code_simp

end
