(* ===== verification/Operation.thy ===== *)
theory Operation
  imports Prelude
begin

text \<open>
  Response metadata of the Platform client, \<^verbatim>\<open>crates/openai-rs-client/src/operation.rs\<close>: the
  operation contract, the headers retained from a response and the decoded response itself.

  The header map is a type of the \<^verbatim>\<open>http\<close> crate: it is the parameter \<open>header\<close>, which gives
  the text of the first value of a header when it is there and is visible ASCII
  (\<^verbatim>\<open>headers.get(name).and_then(|v| v.to_str().ok())\<close>).
\<close>

datatype request_encoding = EncodingNone | EncodingJson
datatype response_mode = ModeJson | ModeEmptyOrJson | ModeEmpty | ModeSse
datatype retry_class = Safe | Replayable | Never

record operation_meta =
  op_id :: bytes
  op_method :: bytes
  op_route :: bytes
  op_request_encoding :: request_encoding
  op_response_mode :: response_mode
  op_retry :: retry_class
  success_statuses :: "nat list"

record rate_limit_metadata =
  limit_requests :: "bytes option"
  limit_tokens :: "bytes option"
  remaining_requests :: "bytes option"
  remaining_tokens :: "bytes option"
  reset_requests :: "bytes option"
  reset_tokens :: "bytes option"

record response_meta =
  meta_status :: nat
  meta_request_id :: "bytes option"
  meta_rate_limits :: rate_limit_metadata
  meta_retry_after :: "bytes option"
  meta_poll_after :: "bytes option"
  meta_x_should_retry :: "bool option"

definition or_else :: "'a option \<Rightarrow> 'a option \<Rightarrow> 'a option" where
  "or_else x y = (case x of None \<Rightarrow> y | Some _ \<Rightarrow> x)"

definition from_headers :: "nat \<Rightarrow> (bytes \<Rightarrow> bytes option) \<Rightarrow> response_meta" where
  "from_headers st header =
     (let retry_after = or_else (header ''retry-after-ms'') (header ''retry-after'');
          poll_after = header ''openai-poll-after-ms'';
          x_should_retry = Option.bind (header ''x-should-retry'')
            (\<lambda>value. if value = ''true'' then Some True
                      else if value = ''false'' then Some False else None)
      in \<lparr>meta_status = st,
          meta_request_id = header ''x-request-id'',
          meta_rate_limits =
            \<lparr>limit_requests = header ''x-ratelimit-limit-requests'',
             limit_tokens = header ''x-ratelimit-limit-tokens'',
             remaining_requests = header ''x-ratelimit-remaining-requests'',
             remaining_tokens = header ''x-ratelimit-remaining-tokens'',
             reset_requests = header ''x-ratelimit-reset-requests'',
             reset_tokens = header ''x-ratelimit-reset-tokens''\<rparr>,
          meta_retry_after = retry_after,
          meta_poll_after = poll_after,
          meta_x_should_retry = x_should_retry\<rparr>)"

definition poll_after_ms :: "response_meta \<Rightarrow> nat option" where
  "poll_after_ms m = Option.bind (meta_poll_after m) parse_u64"

record 'a api_response =
  body :: 'a
  meta :: response_meta

lemma or_else_simps [simp]: "or_else None y = y" "or_else (Some x) y = Some x"
  by (simp_all add: or_else_def)

lemma poll_after_ms_bound: "poll_after_ms m = Some n \<Longrightarrow> n \<le> U64_MAX"
  by (auto simp: poll_after_ms_def bind_eq_Some_conv dest: parse_u64_bound)

end
