(* ===== verification/State_Machine.thy ===== *)
theory State_Machine
  imports Main
begin

text \<open>
  Reachable states and inductive invariants, for the concurrent components: a machine is a start state and a
  step relation, an interleaving is a sequence of steps.
\<close>

inductive reach :: "'s \<Rightarrow> ('s \<Rightarrow> 's \<Rightarrow> bool) \<Rightarrow> 's \<Rightarrow> bool" for init :: 's and step :: "'s \<Rightarrow> 's \<Rightarrow> bool" where
  reach_init: "reach init step init"
| reach_step: "reach init step s \<Longrightarrow> step s s' \<Longrightarrow> reach init step s'"

locale machine_invariant =
  fixes init :: 's
    and step :: "'s \<Rightarrow> 's \<Rightarrow> bool"
    and inv :: "'s \<Rightarrow> bool"
  assumes inv_init: "inv init"
    and inv_step: "inv s \<Longrightarrow> step s s' \<Longrightarrow> inv s'"
begin

lemma reach_inv: "reach init step s \<Longrightarrow> inv s"
  by (induction rule: reach.induct) (auto intro: inv_init inv_step)

end

text \<open>A machine whose steps are, under an abstraction, steps of another or no steps at all.\<close>

locale machine_simulation =
  fixes init :: 's
    and step :: "'s \<Rightarrow> 's \<Rightarrow> bool"
    and ainit :: 'a
    and astep :: "'a \<Rightarrow> 'a \<Rightarrow> bool"
    and abs :: "'s \<Rightarrow> 'a"
  assumes abs_init: "abs init = ainit"
    and abs_step: "step s s' \<Longrightarrow> abs s' = abs s \<or> astep (abs s) (abs s')"
begin

lemma reach_abs: "reach init step s \<Longrightarrow> reach ainit astep (abs s)"
proof (induction rule: reach.induct)
  case reach_init
  then show ?case by (simp add: abs_init reach.reach_init)
next
  case (reach_step s s')
  then show ?case using abs_step [OF reach_step(2)] by (auto intro: reach.reach_step)
qed

end

end
