(* ===== verification/Polling.thy ===== *)
theory Polling
  imports Operation State_Machine
begin

text \<open>
  Bounded polling, \<^verbatim>\<open>crates/openai-rs-client/src/poll.rs\<close>.

  The environment is a parameter: \<open>fetch n\<close> is how long the \<open>n\<close>-th retrieval takes and what it
  gives, \<open>cancel_at\<close> the moment the cancellation token is cancelled, if ever, and \<open>cancel_first t\<close>
  which branch of an unbiased \<^verbatim>\<open>tokio::select!\<close> wins when both are ready at the moment \<open>t\<close>.
  Time is the time since \<^verbatim>\<open>started\<close>.
\<close>

section \<open>Options\<close>

record poll_options =
  interval :: "duration option"
  fallback_interval :: duration
  timeout :: duration
  cancellation :: "duration option"

definition poll_options_new :: poll_options where
  "poll_options_new =
     \<lparr>interval = None, fallback_interval = from_secs 1, timeout = from_secs (10 * 60),
      cancellation = None\<rparr>"

definition for_fine_tuning :: poll_options where
  "for_fine_tuning =
     \<lparr>interval = Some (from_secs 5), fallback_interval = from_secs 5,
      timeout = from_secs (24 * 60 * 60), cancellation = None\<rparr>"

definition for_eval_runs :: poll_options where
  "for_eval_runs =
     \<lparr>interval = Some (from_secs 1), fallback_interval = from_secs 1,
      timeout = from_secs (30 * 60), cancellation = None\<rparr>"

definition for_files :: poll_options where
  "for_files =
     \<lparr>interval = Some (from_secs 5), fallback_interval = from_secs 5,
      timeout = from_secs (30 * 60), cancellation = None\<rparr>"

definition for_batches :: poll_options where
  "for_batches =
     \<lparr>interval = Some (from_secs 5), fallback_interval = from_secs 5,
      timeout = from_secs (24 * 60 * 60), cancellation = None\<rparr>"

definition for_vector_stores :: poll_options where
  "for_vector_stores =
     \<lparr>interval = None, fallback_interval = from_secs 1, timeout = from_secs (10 * 60),
      cancellation = None\<rparr>"

definition with_interval :: "duration \<Rightarrow> poll_options \<Rightarrow> poll_options" where
  "with_interval d opts = opts\<lparr>interval := Some d\<rparr>"

definition with_timeout :: "duration \<Rightarrow> poll_options \<Rightarrow> poll_options" where
  "with_timeout d opts = opts\<lparr>timeout := d\<rparr>"

definition with_cancellation :: "duration \<Rightarrow> poll_options \<Rightarrow> poll_options" where
  "with_cancellation at opts = opts\<lparr>cancellation := Some at\<rparr>"

section \<open>The polling loop\<close>

datatype 'e poll_error =
    InvalidConfiguration
  | DeadlineExceeded "bytes option"
  | Cancelled
  | Client 'e

record 'a poll_env =
  terminal :: "'a \<Rightarrow> bool"
  status_of :: "'a \<Rightarrow> bytes"
  cancel_at :: "duration option"
  cancel_first :: "duration \<Rightarrow> bool"

definition cancelled_by :: "'a poll_env \<Rightarrow> duration \<Rightarrow> bool" where
  "cancelled_by env t = (case cancel_at env of None \<Rightarrow> False | Some c \<Rightarrow> c \<le> t)"

text \<open>A wait that would end at \<open>t\<close> is cut short by the token.\<close>

definition cancelled_before :: "'a poll_env \<Rightarrow> duration \<Rightarrow> bool" where
  "cancelled_before env t =
     (case cancel_at env of None \<Rightarrow> False | Some c \<Rightarrow> c < t \<or> c = t \<and> cancel_first env t)"

definition next_delay :: "duration option \<Rightarrow> duration \<Rightarrow> 'a api_response \<Rightarrow> duration \<Rightarrow> duration" where
  "next_delay itv fallback response remaining =
     min (case or_else itv (map_option from_millis (poll_after_ms (meta response))) of
            Some d \<Rightarrow> d | None \<Rightarrow> fallback) remaining"

text \<open>One run of the loop: the result and the moment it is returned.  \<open>n\<close> counts retrievals,
  \<open>now\<close> is \<^verbatim>\<open>started.elapsed()\<close>.\<close>

fun poll_loop ::
    "nat \<Rightarrow> (nat \<Rightarrow> duration \<times> ('e, 'a api_response) result) \<Rightarrow> 'a poll_env \<Rightarrow> duration option \<Rightarrow>
       duration \<Rightarrow> duration \<Rightarrow> nat \<Rightarrow> duration \<Rightarrow> bytes option \<Rightarrow>
       (('e poll_error, 'a api_response) result \<times> duration) option" where
  "poll_loop 0 fetch env itv fallback limit n now last_status = None"
| "poll_loop (Suc fuel) fetch env itv fallback limit n now last_status =
     (if cancelled_by env now then Some (Err Cancelled, now)
      else if limit - now = 0 then Some (Err (DeadlineExceeded last_status), now)
      else
        let remaining = limit - now; (took, outcome) = fetch n; until = now + min took remaining
        in if cancelled_before env until then Some (Err Cancelled, the (cancel_at env))
           else if took > remaining then Some (Err (DeadlineExceeded last_status), until)
           else case outcome of
             Err e \<Rightarrow> Some (Err (Client e), until)
           | Ok response \<Rightarrow>
               let last_status = Some (status_of env (body response))
               in if terminal env (body response) then Some (Ok response, until)
                  else if limit - until = 0 then Some (Err (DeadlineExceeded last_status), until)
                  else
                    let remaining = limit - until; delay = next_delay itv fallback response remaining
                    in if cancelled_before env (until + delay)
                       then Some (Err Cancelled, the (cancel_at env))
                       else poll_loop fuel fetch env itv fallback limit (n + 1) (until + delay)
                              last_status)"

definition poll_until ::
    "nat \<Rightarrow> (nat \<Rightarrow> duration \<times> ('e, 'a api_response) result) \<Rightarrow> 'a poll_env \<Rightarrow> duration option \<Rightarrow>
       duration \<Rightarrow> duration \<Rightarrow> (('e poll_error, 'a api_response) result \<times> duration) option" where
  "poll_until fuel fetch env itv fallback limit =
     (if itv = Some 0 \<or> fallback = 0 \<or> limit = 0 then Some (Err InvalidConfiguration, 0)
      else poll_loop fuel fetch env itv fallback limit 0 0 None)"

definition poll_resource_with_status ::
    "nat \<Rightarrow> (nat \<Rightarrow> duration \<times> ('e, 'a api_response) result) \<Rightarrow> ('a \<Rightarrow> bool) \<Rightarrow> ('a \<Rightarrow> bytes) \<Rightarrow>
       (duration \<Rightarrow> bool) \<Rightarrow> poll_options \<Rightarrow> (('e poll_error, 'a api_response) result \<times> duration) option" where
  "poll_resource_with_status fuel fetch is_done status tie opts =
     poll_until fuel fetch
       \<lparr>terminal = is_done, status_of = status, cancel_at = cancellation opts, cancel_first = tie\<rparr>
       (interval opts) (fallback_interval opts) (timeout opts)"

section \<open>The deadline holds\<close>

lemma cancelled_before_le:
  "cancelled_before env t \<Longrightarrow> the (cancel_at env) \<le> t"
  by (auto simp: cancelled_before_def split: option.splits)

lemma next_delay_le: "next_delay itv fallback r remaining \<le> remaining"
  by (simp add: next_delay_def)

lemma poll_loop_deadline:
  "poll_loop fuel fetch env itv fallback limit n now ls = Some (r, t) \<Longrightarrow> now \<le> limit \<Longrightarrow> t \<le> limit"
proof (induction fuel arbitrary: n now ls)
  case (Suc fuel)
  obtain took outcome where f: "fetch n = (took, outcome)" by fastforce
  have u: "now + min took (limit - now) \<le> limit" using Suc.prems(2) by simp
  have d: "now + min took (limit - now) + next_delay itv fallback x (limit - (now + min took (limit - now))) \<le> limit"
    for x using next_delay_le [of itv fallback x "limit - (now + min took (limit - now))"] u by linarith
  from Suc.prems u d Suc.IH f show ?case
    by (auto simp: Let_def dest!: cancelled_before_le split: if_splits sum.splits)
      (meson order_trans)+
qed simp

text \<open>
  Polling never overruns its deadline: whatever the server answers and however long it takes,
  whatever polling hints it sends and whenever the token is cancelled, the result is there no later
  than \<^verbatim>\<open>timeout\<close> after the start.
\<close>

theorem poll_within_deadline:
  assumes "poll_resource_with_status fuel fetch is_done status tie opts = Some (r, t)"
  shows "t \<le> timeout opts"
  using assms poll_loop_deadline
  by (fastforce simp: poll_resource_with_status_def poll_until_def split: if_splits)

definition demo_response :: "bytes \<Rightarrow> bytes option \<Rightarrow> bytes api_response" where
  "demo_response s hint =
     \<lparr>body = s, meta = from_headers 200 (\<lambda>h. if h = ''openai-poll-after-ms'' then hint else None)\<rparr>"

definition demo_fetch :: "nat \<Rightarrow> duration \<times> (unit, bytes api_response) result" where
  "demo_fetch n =
     (7, Ok (if n = 0 then demo_response ''queued'' (Some ''2'') else demo_response ''completed'' None))"

theorem poll_within_deadline_witness:
  "(7::nat) + 2 * 10 ^ 6 + 7 \<le> timeout for_vector_stores"
proof -
  have "poll_resource_with_status 2 demo_fetch (\<lambda>s. s = ''completed'') id (\<lambda>t. True) for_vector_stores
      = Some (Ok (demo_response ''completed'' None), 7 + 2 * 10 ^ 6 + 7)"
    by code_simp
  from poll_within_deadline [OF this] show ?thesis .
qed

section \<open>What the loop returns\<close>

lemma poll_loop_Ok:
  assumes "poll_loop fuel fetch env itv fallback limit n now ls = Some (Ok response, t)"
  shows "\<exists>m\<ge>n. snd (fetch m) = Ok response \<and> terminal env (body response)
    \<and> (\<forall>i. n \<le> i \<and> i < m \<longrightarrow> (\<exists>r. snd (fetch i) = Ok r \<and> \<not> terminal env (body r)))"
  using assms
proof (induction fuel arbitrary: n now ls)
  case (Suc fuel)
  obtain took outcome where f: "fetch n = (took, outcome)" by fastforce
  from Suc.prems f obtain r0 where r0: "outcome = Ok r0"
    by (auto simp: Let_def split: if_splits sum.splits)
  show ?case
  proof (cases "terminal env (body r0)")
    case True
    with Suc.prems f r0 show ?thesis
      by (intro exI [of _ n]) (auto simp: Let_def split: if_splits)
  next
    case False
    with Suc.prems f r0 obtain now' ls' where
      "poll_loop fuel fetch env itv fallback limit (n + 1) now' ls' = Some (Ok response, t)"
      by (auto simp: Let_def split: if_splits)
    from Suc.IH [OF this] obtain m where m: "m \<ge> n + 1" "snd (fetch m) = Ok response"
      "terminal env (body response)"
      "\<forall>i. n + 1 \<le> i \<and> i < m \<longrightarrow> (\<exists>r. snd (fetch i) = Ok r \<and> \<not> terminal env (body r))" by blast
    have "\<exists>r. snd (fetch i) = Ok r \<and> \<not> terminal env (body r)" if "n \<le> i" "i < m" for i
      using m(4) that f r0 False by (cases "i = n") auto
    with m show ?thesis by (intro exI [of _ m]) auto
  qed
qed simp

text \<open>
  A successful poll returns the first terminal state: it is the response of some retrieval, its
  body satisfies the terminal predicate, and every earlier retrieval succeeded with a body that does
  not.
\<close>

theorem poll_returns_first_terminal:
  assumes "poll_resource_with_status fuel fetch is_done status tie opts = Some (Ok response, t)"
  shows "is_done (body response) \<and> (\<exists>m. snd (fetch m) = Ok response
    \<and> (\<forall>i<m. \<exists>r. snd (fetch i) = Ok r \<and> \<not> is_done (body r)))"
  using assms poll_loop_Ok [of fuel fetch _ "interval opts" "fallback_interval opts" "timeout opts" 0 0]
  by (fastforce simp: poll_resource_with_status_def poll_until_def split: if_splits)

theorem poll_returns_first_terminal_witness:
  "\<exists>m. snd (demo_fetch m) = Ok (demo_response ''completed'' None)
    \<and> (\<forall>i<m. \<exists>r. snd (demo_fetch i) = Ok r \<and> body r \<noteq> ''completed'')"
proof -
  have "poll_resource_with_status 2 demo_fetch (\<lambda>s. s = ''completed'') id (\<lambda>t. True) for_vector_stores
      = Some (Ok (demo_response ''completed'' None), 7 + 2 * 10 ^ 6 + 7)"
    by code_simp
  from poll_returns_first_terminal [OF this] show ?thesis by simp
qed

text \<open>Every retrieval that takes time brings the deadline nearer, so the loop ends.\<close>

lemma poll_loop_terminates:
  assumes "\<And>n. 0 < fst (fetch n)" and "limit - now < fuel"
  shows "\<exists>x. poll_loop fuel fetch env itv fallback limit n now ls = Some x"
  using assms(2)
proof (induction fuel arbitrary: n now ls)
  case (Suc fuel)
  obtain took outcome where f: "fetch n = (took, outcome)" by fastforce
  have "limit - (now + min took (limit - now) + d) < fuel" if "limit - now \<noteq> 0" for d
    using Suc.prems that assms(1) [of n] f by auto
  with Suc.IH f show ?case
    by (auto simp: Let_def split: sum.split)
qed simp

text \<open>
  Polling terminates.  If every retrieval takes some time, at most one round per time unit of the
  timeout is needed: with that much fuel the loop always returns a result, whatever the pacing hints
  (a hint of zero included).
\<close>

theorem poll_terminates:
  assumes "\<And>n. 0 < fst (fetch n)"
  shows "\<exists>x. poll_resource_with_status (Suc (timeout opts)) fetch is_done status tie opts = Some x"
proof -
  have "\<exists>x. poll_loop (Suc (timeout opts)) fetch env (interval opts) (fallback_interval opts)
      (timeout opts) 0 0 None = Some x" for env
    by (rule poll_loop_terminates) (simp_all add: assms)
  then show ?thesis
    unfolding poll_resource_with_status_def poll_until_def by (simp del: poll_loop.simps)
qed

theorem poll_terminates_witness:
  "\<exists>x. poll_resource_with_status (Suc (timeout poll_options_new)) demo_fetch (\<lambda>s. False) id (\<lambda>t. True)
    poll_options_new = Some x"
  by (rule poll_terminates) (simp add: demo_fetch_def)

text \<open>
  Pacing precedence.  The wait after a non-terminal answer is the pinned interval if there is one,
  else the server's \<^verbatim>\<open>openai-poll-after-ms\<close> hint if it parses, else the fallback interval, and
  never longer than what remains until the deadline.
\<close>

theorem poll_pacing:
  "next_delay itv fallback r remaining =
     (case itv of
        Some d \<Rightarrow> min d remaining
      | None \<Rightarrow> (case poll_after_ms (meta r) of
                    Some ms \<Rightarrow> min (ms * 1000000) remaining | None \<Rightarrow> min fallback remaining))"
  by (simp add: next_delay_def from_millis_def or_else_def split: option.split)

section \<open>The cancellation token\<close>

text \<open>
  \<^verbatim>\<open>PollCancellationToken\<close> under concurrency: any number of threads call \<^verbatim>\<open>cancel\<close> (the swap
  of the flag and the notification are two steps), one task runs \<^verbatim>\<open>cancelled().await\<close> (first
  check, creation of the \<^verbatim>\<open>Notified\<close> future, second check, wait).  \<^verbatim>\<open>Notify::notify_waiters\<close>
  wakes every future created before it: the future keeps the number of notifications at its creation
  and is ready once that number has changed.
\<close>

datatype waiter = FirstCheck | CreateNotified | SecondCheck nat | Parked nat | Woken

record token_state =
  token_flag :: bool
  notifications :: nat
  notifying :: nat
  waiting :: waiter

definition token_new :: token_state where
  "token_new = \<lparr>token_flag = False, notifications = 0, notifying = 0, waiting = FirstCheck\<rparr>"

definition cancel_swap :: "token_state \<Rightarrow> token_state" where
  "cancel_swap s =
     (if \<not> token_flag s then s\<lparr>token_flag := True, notifying := notifying s + 1\<rparr> else s)"

definition cancel_notify :: "token_state \<Rightarrow> token_state" where
  "cancel_notify s = s\<lparr>notifications := notifications s + 1, notifying := notifying s - 1\<rparr>"

definition cancelled_step :: "token_state \<Rightarrow> token_state" where
  "cancelled_step s =
     (case waiting s of
        FirstCheck \<Rightarrow> s\<lparr>waiting := (if token_flag s then Woken else CreateNotified)\<rparr>
      | CreateNotified \<Rightarrow> s\<lparr>waiting := SecondCheck (notifications s)\<rparr>
      | SecondCheck k \<Rightarrow> s\<lparr>waiting := (if token_flag s then Woken else Parked k)\<rparr>
      | Parked k \<Rightarrow> s\<lparr>waiting := (if notifications s \<noteq> k then Woken else Parked k)\<rparr>
      | Woken \<Rightarrow> s)"

inductive token_step :: "token_state \<Rightarrow> token_state \<Rightarrow> bool" where
  step_swap: "token_step s (cancel_swap s)"
| step_notify: "0 < notifying s \<Longrightarrow> token_step s (cancel_notify s)"
| step_wait: "token_step s (cancelled_step s)"

inductive_cases token_stepE: "token_step s s'"

definition token_inv :: "token_state \<Rightarrow> bool" where
  "token_inv s \<longleftrightarrow>
     (\<not> token_flag s \<longrightarrow> notifications s = 0 \<and> notifying s = 0)
     \<and> notifications s + notifying s \<le> 1
     \<and> (token_flag s \<longrightarrow> notifications s + notifying s = 1)
     \<and> (case waiting s of SecondCheck k \<Rightarrow> k \<le> notifications s | Parked k \<Rightarrow> k = 0 | _ \<Rightarrow> True)
     \<and> (case waiting s of Woken \<Rightarrow> token_flag s | _ \<Rightarrow> True)"

lemma token_step_inv: "token_inv s \<Longrightarrow> token_step s s' \<Longrightarrow> token_inv s'"
  by (erule token_stepE)
    (auto simp: token_inv_def cancel_swap_def cancel_notify_def cancelled_step_def split: waiter.splits)

interpretation poll_token: machine_invariant token_new token_step token_inv
  by unfold_locales (simp add: token_inv_def token_new_def, rule token_step_inv)

text \<open>
  C34: No wake-up is lost and none is spurious.  In every interleaving, once the token is cancelled and
  no \<^verbatim>\<open>cancel\<close> call is still between its swap and its notification, one or two more steps of the
  waiting task complete \<^verbatim>\<open>cancelled().await\<close>; and it completes only on a cancelled token.
\<close>

theorem token_no_lost_wakeup:
  assumes "reach token_new token_step s"
  shows "(token_flag s \<and> notifying s = 0 \<longrightarrow> waiting ((cancelled_step ^^ 2) s) = Woken)
    \<and> (waiting s = Woken \<longrightarrow> token_flag s)"
  using poll_token.reach_inv [OF assms]
  by (auto simp: token_inv_def cancelled_step_def numeral_2_eq_2 split: waiter.splits)

definition cancelled_while_parked :: token_state where
  "cancelled_while_parked =
     cancel_notify (cancelled_step (cancel_swap (cancelled_step (cancelled_step (cancelled_step token_new)))))"

theorem token_no_lost_wakeup_witness:
  "waiting cancelled_while_parked = Parked 0
   \<and> waiting ((cancelled_step ^^ 2) cancelled_while_parked) = Woken"
proof -
  have "reach token_new token_step cancelled_while_parked"
    unfolding cancelled_while_parked_def
    by (intro reach_step [where step = token_step, OF _ step_notify] reach_step [where step = token_step, OF _ step_wait]
        reach_step [where step = token_step, OF _ step_swap] reach_init)
      (simp add: cancelled_step_def cancel_swap_def token_new_def)
  from token_no_lost_wakeup [OF this] show ?thesis
    by (simp add: cancelled_while_parked_def cancelled_step_def cancel_swap_def cancel_notify_def token_new_def)
qed

end
