(* ===== verification/Pagination.thy ===== *)
theory Pagination
  imports Operation
begin

text \<open>
  Cursor pagination, \<^verbatim>\<open>crates/openai-rs-client/src/pagination.rs\<close>, and the page streams of the
  resources that use it (\<^verbatim>\<open>list_pages\<close> of \<^verbatim>\<open>batches.rs\<close> and \<^verbatim>\<open>files.rs\<close>).

  The service is the parameter \<open>list_page\<close>: what its \<open>n\<close>-th call answers for the cursor it is
  asked to continue after.
\<close>

datatype pagination_fault = MissingCursor | RepeatedCursor

datatype 'e list_error =
    PageInvalidConfiguration bytes
  | Pagination bytes pagination_fault
  | PageClient 'e

section \<open>Cursors\<close>

definition option_filter :: "('a \<Rightarrow> bool) \<Rightarrow> 'a option \<Rightarrow> 'a option" where
  "option_filter P x = (case x of None \<Rightarrow> None | Some v \<Rightarrow> if P v then Some v else None)"

definition seed_seen :: "bytes set \<Rightarrow> bytes option \<Rightarrow> bytes set" where
  "seed_seen seen after =
     (case option_filter (\<lambda>v. v \<noteq> []) after of None \<Rightarrow> seen | Some cursor \<Rightarrow> insert cursor seen)"

definition reject_before_cursor :: "bool \<Rightarrow> bytes \<Rightarrow> ('e list_error, unit) result" where
  "reject_before_cursor has_before resource =
     (if has_before
      then Err (PageInvalidConfiguration
             (''automatic '' @ resource @ '' pagination does not accept a before cursor''))
      else Ok ())"

definition next_cursor ::
    "bool \<Rightarrow> bytes option \<Rightarrow> bytes option \<Rightarrow> bytes set \<Rightarrow> bytes \<Rightarrow>
       ('e list_error, bytes option) result \<times> bytes set" where
  "next_cursor has_more last_id last_item_id seen resource =
     (if \<not> has_more then (Ok None, seen)
      else case or_else (option_filter (\<lambda>c. c \<noteq> []) last_id) (option_filter (\<lambda>c. c \<noteq> []) last_item_id) of
        None \<Rightarrow> (Err (Pagination resource MissingCursor), seen)
      | Some cursor \<Rightarrow>
          if cursor \<in> seen then (Err (Pagination resource RepeatedCursor), seen)
          else (Ok (Some cursor), insert cursor seen))"

section \<open>Page streams\<close>

record 'a page =
  page_has_more :: bool
  page_last_id :: "bytes option"
  page_last_item_id :: "bytes option"
  page_data :: "'a list"

text \<open>The loop of \<^verbatim>\<open>list_pages\<close>: the pages yielded, the cursors asked for, and how the stream ends;
  \<open>None\<close> as the end means that the fuel ran out.\<close>

fun list_pages_loop ::
    "nat \<Rightarrow> (nat \<Rightarrow> bytes option \<Rightarrow> ('e, 'a page) result) \<Rightarrow> bytes \<Rightarrow> nat \<Rightarrow> bytes option \<Rightarrow> bytes set \<Rightarrow>
       'a page list \<times> bytes option list \<times> ('e list_error, unit) result option" where
  "list_pages_loop 0 list_page resource n after seen = ([], [], None)"
| "list_pages_loop (Suc fuel) list_page resource n after seen =
     (case list_page n after of
        Err e \<Rightarrow> ([], [after], Some (Err (PageClient e)))
      | Ok page \<Rightarrow>
          (case next_cursor (page_has_more page) (page_last_id page) (page_last_item_id page) seen resource of
             (Err e, _) \<Rightarrow> ([], [after], Some (Err e))
           | (Ok None, _) \<Rightarrow> ([page], [after], Some (Ok ()))
           | (Ok (Some cursor), seen') \<Rightarrow>
               let (pages, asked, fin) = list_pages_loop fuel list_page resource (n + 1) (Some cursor) seen'
               in (page # pages, after # asked, fin)))"

definition list_pages ::
    "nat \<Rightarrow> (nat \<Rightarrow> bytes option \<Rightarrow> ('e, 'a page) result) \<Rightarrow> bytes \<Rightarrow> bytes option \<Rightarrow>
       'a page list \<times> bytes option list \<times> ('e list_error, unit) result option" where
  "list_pages fuel list_page resource after =
     list_pages_loop fuel list_page resource 0 after (seed_seen {} after)"

text \<open>The stream of \<^verbatim>\<open>batches.rs\<close>, and of \<^verbatim>\<open>files.rs\<close>, where \<^verbatim>\<open>last_id\<close> is mandatory.\<close>

definition batches_list_pages ::
    "nat \<Rightarrow> (nat \<Rightarrow> bytes option \<Rightarrow> ('e, 'a page) result) \<Rightarrow> bytes option \<Rightarrow>
       'a page list \<times> bytes option list \<times> ('e list_error, unit) result option" where
  "batches_list_pages fuel list_page after = list_pages fuel list_page ''batch'' after"

definition files_list_pages ::
    "nat \<Rightarrow> (nat \<Rightarrow> bytes option \<Rightarrow> ('e, bytes \<times> 'a page) result) \<Rightarrow> bytes option \<Rightarrow>
       'a page list \<times> bytes option list \<times> ('e list_error, unit) result option" where
  "files_list_pages fuel list_page after =
     list_pages fuel
       (\<lambda>n cursor. map_sum id (\<lambda>(last_id, page). page\<lparr>page_last_id := Some last_id\<rparr>) (list_page n cursor))
       ''file'' after"

section \<open>Properties\<close>

lemma option_filter_Some [simp]: "option_filter P x = Some v \<longleftrightarrow> x = Some v \<and> P v"
  by (auto simp: option_filter_def split: option.split)

lemma next_cursor_fresh:
  "next_cursor hm l i seen res = (Ok (Some c), seen') \<Longrightarrow>
     hm \<and> c \<notin> seen \<and> c \<noteq> [] \<and> seen' = insert c seen \<and> (l = Some c \<or> i = Some c)"
  by (auto simp: next_cursor_def or_else_def split: if_splits option.splits)

text \<open>
  The cursor that a page hands on is \<^verbatim>\<open>last_id\<close> when that is there and not empty, else the id
  of the page's last element; it is never empty and never one that was asked for before; a page that
  promises more without a usable cursor, or with a used one, fails closed, and a page that promises
  nothing ends the pagination whatever cursors it carries.
\<close>

theorem next_cursor_spec:
  "next_cursor has_more last_id item_id seen resource =
     (let cursor = (if last_id \<notin> {None, Some []} then last_id
                    else if item_id \<notin> {None, Some []} then item_id else None)
      in if \<not> has_more then (Ok None, seen)
         else case cursor of
           None \<Rightarrow> (Err (Pagination resource MissingCursor), seen)
         | Some c \<Rightarrow> if c \<in> seen then (Err (Pagination resource RepeatedCursor), seen)
                     else (Ok (Some c), insert c seen))"
  by (auto simp: next_cursor_def or_else_def option_filter_def Let_def split: option.split)

lemma list_pages_loop_asked:
  fixes srv :: "nat \<Rightarrow> bytes option \<Rightarrow> ('e, 'a page) result"
  assumes "list_pages_loop fuel srv res n after seen = (pages, asked, fin)"
    and "after \<in> insert None (Some ` seen)"
  shows "distinct (tl asked) \<and> set (tl asked) \<inter> insert None (Some ` seen) = {}
    \<and> (asked \<noteq> [] \<longrightarrow> hd asked = after)"
  using assms
proof (induction fuel arbitrary: n after seen pages asked fin)
  case (Suc fuel)
  show ?case
  proof (cases "\<exists>p c seen'. srv n after = Ok p \<and>
      next_cursor (page_has_more p) (page_last_id p) (page_last_item_id p) seen res
        = (Ok (Some c) :: ('e list_error, bytes option) result, seen')")
    case False
    with Suc.prems(1) have "asked = [after]"
      by (auto split: sum.splits prod.splits option.splits)
    then show ?thesis by simp
  next
    case True
    then obtain p c seen' where p: "srv n after = Ok p"
      "next_cursor (page_has_more p) (page_last_id p) (page_last_item_id p) seen res = (Ok (Some c) :: ('e list_error, bytes option) result, seen')"
      by blast
    have c: "c \<notin> seen" "seen' = insert c seen" using next_cursor_fresh [OF p(2)] by auto
    obtain ps as e where rec: "list_pages_loop fuel srv res (n + 1) (Some c) seen' = (ps, as, e)"
      by (cases "list_pages_loop fuel srv res (n + 1) (Some c) seen'")
    with Suc.prems(1) p have asked: "asked = after # as" by simp
    from Suc.IH [OF rec] c have IH: "distinct (tl as)" "set (tl as) \<inter> insert None (Some ` seen') = {}"
      "as \<noteq> [] \<longrightarrow> hd as = Some c" by auto
    with c asked show ?thesis by (cases as) auto
  qed
qed simp

text \<open>
  A page stream never asks for the same cursor twice, whatever the service answers: after the
  first request, the cursors it continues after are pairwise different and different from the one it
  started with.
\<close>

theorem list_pages_no_repeat:
  assumes "list_pages fuel list_page resource after = (pages, asked, fin)" and "after \<noteq> Some []"
  shows "distinct asked"
proof -
  have "after \<in> insert None (Some ` seed_seen {} after)"
    using assms(2) by (cases after) (auto simp: seed_seen_def option_filter_def)
  from list_pages_loop_asked [OF assms(1) [unfolded list_pages_def] this] this show ?thesis
    by (cases asked) auto
qed

definition looping_service :: "nat \<Rightarrow> bytes option \<Rightarrow> (unit, nat page) result" where
  "looping_service n after =
     Ok \<lparr>page_has_more = True, page_last_id = (if n = 0 then None else Some ''b''),
         page_last_item_id = Some ''a'', page_data = [n]\<rparr>"

theorem list_pages_no_repeat_witness:
  "fst (snd (list_pages 5 looping_service ''batch'' None)) = [None, Some ''a'', Some ''b'']
   \<and> distinct [None, Some ''a'', Some ''b'']"
proof -
  have "fst (snd (list_pages 5 looping_service ''batch'' None)) = [None, Some ''a'', Some ''b'']"
    by code_simp
  moreover from this obtain ps e where
    "list_pages 5 looping_service ''batch'' None = (ps, [None, Some ''a'', Some ''b''], e)"
    by (cases "list_pages 5 looping_service ''batch'' None") auto
  from list_pages_no_repeat [OF this] have "distinct [None, Some ''a'', Some ''b'']" by simp
  ultimately show ?thesis by simp
qed

lemma list_pages_loop_ends:
  fixes srv :: "nat \<Rightarrow> bytes option \<Rightarrow> ('e, 'a page) result"
  assumes "finite C" and "seen \<subseteq> C" and "card (C - seen) < fuel"
    and "\<And>n after p c. srv n after = Ok p \<Longrightarrow> page_last_id p = Some c \<or> page_last_item_id p = Some c
           \<Longrightarrow> c \<in> C"
  shows "snd (snd (list_pages_loop fuel srv res n after seen)) \<noteq> None"
  using assms(2,3)
proof (induction fuel arbitrary: n after seen)
  case (Suc fuel)
  show ?case
  proof (cases "\<exists>p c seen'. srv n after = Ok p \<and>
      next_cursor (page_has_more p) (page_last_id p) (page_last_item_id p) seen res
        = (Ok (Some c) :: ('e list_error, bytes option) result, seen')")
    case False
    then show ?thesis by (auto split: sum.splits prod.splits option.splits)
  next
    case True
    then obtain p c seen' where p: "srv n after = Ok p"
      "next_cursor (page_has_more p) (page_last_id p) (page_last_item_id p) seen res = (Ok (Some c) :: ('e list_error, bytes option) result, seen')"
      by blast
    have c: "c \<notin> seen" "seen' = insert c seen" "c \<in> C"
      using next_cursor_fresh [OF p(2)] assms(4) [OF p(1)] by auto
    then have "C - seen' = (C - seen) - {c}" "c \<in> C - seen" by auto
    then have "card (C - seen') < card (C - seen)"
      using assms(1) card_Diff1_less [of "C - seen" c] by simp
    with Suc.prems(2) have "card (C - seen') < fuel" by simp
    with Suc.IH [of seen' "n + 1" "Some c"] c Suc.prems(1) p show ?thesis
      by (simp add: split_def Let_def)
  qed
qed simp

text \<open>
  Page streams terminate.  If the cursors a service hands out come from a finite set, a stream ends,
  by its last page or by an error, after at most one request more than there are cursors, even if the
  service promises more pages for ever.
\<close>

theorem list_pages_terminates:
  assumes "finite C" and "after \<in> insert None (Some ` C)"
    and "\<And>n after p c. list_page n after = Ok p \<Longrightarrow>
           page_last_id p = Some c \<or> page_last_item_id p = Some c \<Longrightarrow> c \<in> C"
  shows "snd (snd (list_pages (card C + 1) list_page resource after)) \<noteq> None"
  unfolding list_pages_def
proof (rule list_pages_loop_ends [OF assms(1) _ _ assms(3)])
  show sub: "seed_seen {} after \<subseteq> C"
    using assms(2) by (auto simp: seed_seen_def option_filter_def split: option.splits)
  show "card (C - seed_seen {} after) < card C + 1"
    using assms(1) by (simp add: card_Diff_subset_Int le_imp_less_Suc)
qed auto

theorem list_pages_terminates_witness:
  "snd (snd (list_pages (card {''a'', ''b''} + 1) looping_service ''file'' None)) \<noteq> None"
  by (rule list_pages_terminates) (auto simp: looping_service_def split: if_splits)

end
