(* ===== verification/Jsonl_Codec.thy ===== *)
theory Jsonl_Codec
  imports Prelude
begin

text \<open>
  The JSONL framing of the Codex app-server connection,
  \<^verbatim>\<open>crates/openai-rs-codex/src/app_server/codec.rs\<close>.

  The asynchronous reader is the sequence of what its \<^verbatim>\<open>fill_buf\<close> calls make available: chunks of
  bytes, of which \<^verbatim>\<open>consume\<close> drops a prefix, or a read error; the end of the sequence, like an empty
  chunk, is the end of the file.
\<close>

datatype connection_failure_kind =
    Closed | EndOfFile | Io | InvalidJson | InvalidMessage | LineTooLong | EventQueueFull | ChildExit | WriteTimeout

datatype connection_failure = ConnectionFailure connection_failure_kind bytes

datatype read_event = Chunk bytes | ReadError bytes

fun read_loop ::
    "nat \<Rightarrow> bytes \<Rightarrow> read_event list \<Rightarrow> (connection_failure, bytes option) result \<times> read_event list" where
  "read_loop limit line [] =
     ((if line = [] then Ok None
       else Err (ConnectionFailure EndOfFile ''app-server stdout ended in the middle of a JSONL frame'')), [])"
| "read_loop limit line (ReadError e # reader) =
     (Err (ConnectionFailure Io (''could not read app-server stdout: '' @ e)), reader)"
| "read_loop limit line (Chunk available # reader) =
     (if available = [] then
        ((if line = [] then Ok None
          else Err (ConnectionFailure EndOfFile
                 ''app-server stdout ended in the middle of a JSONL frame'')), Chunk available # reader)
      else
        let newline = position (\<lambda>b. b = LF) available;
            consumed = (case newline of None \<Rightarrow> length available | Some index \<Rightarrow> index + 1);
            payload_len = (case newline of None \<Rightarrow> length available | Some index \<Rightarrow> index)
        in if saturating_add (length line) payload_len > limit
           then (Err (ConnectionFailure LineTooLong
                  (''app-server JSONL frame exceeded the '' @ nat_to_string limit @ ''-byte limit'')),
                 Chunk available # reader)
           else
             let line = line @ take payload_len available;
                 reader = (if consumed < length available then Chunk (drop consumed available) # reader
                           else reader)
             in if newline \<noteq> None
                then (Ok (Some (if line \<noteq> [] \<and> last line = CR then butlast line else line)), reader)
                else read_loop limit line reader)"

definition read_bounded_line ::
    "nat \<Rightarrow> read_event list \<Rightarrow> (connection_failure, bytes option) result \<times> read_event list" where
  "read_bounded_line limit reader = read_loop limit [] reader"

section \<open>Specification on the byte stream\<close>

definition chunk_bytes :: "read_event list \<Rightarrow> bytes" where
  "chunk_bytes r = concat (map (\<lambda>e. case e of Chunk b \<Rightarrow> b | ReadError _ \<Rightarrow> []) r)"

definition readable :: "read_event list \<Rightarrow> bool" where
  "readable r \<longleftrightarrow> list_all (\<lambda>e. case e of Chunk b \<Rightarrow> b \<noteq> [] | ReadError _ \<Rightarrow> False) r"

definition strip_cr :: "bytes \<Rightarrow> bytes" where
  "strip_cr l = (if l \<noteq> [] \<and> last l = CR then butlast l else l)"

definition line_spec :: "nat \<Rightarrow> bytes \<Rightarrow> (connection_failure_kind, bytes option) result" where
  "line_spec limit bs =
     (case split_once LF bs of
        Some (payload, _) \<Rightarrow> if length payload > limit then Err LineTooLong else Ok (Some (strip_cr payload))
      | None \<Rightarrow> if length bs > limit then Err LineTooLong
                else if bs = [] then Ok None else Err EndOfFile)"

definition failure_kind :: "connection_failure \<Rightarrow> connection_failure_kind" where
  "failure_kind f = (case f of ConnectionFailure k _ \<Rightarrow> k)"

lemma readable_simps [simp]:
  "readable []" "readable (Chunk b # r) \<longleftrightarrow> b \<noteq> [] \<and> readable r" "\<not> readable (ReadError e # r)"
  by (simp_all add: readable_def)

lemma chunk_bytes_simps [simp]: "chunk_bytes [] = []" "chunk_bytes (Chunk b # r) = b @ chunk_bytes r"
  by (simp_all add: chunk_bytes_def)

lemma split_once_absent: "c \<notin> set l \<Longrightarrow> split_once c (l @ bs) = map_option (\<lambda>(x, y). (l @ x, y)) (split_once c bs)"
  by (induction l) (auto simp: option.map_comp comp_def split_def option.map_ident)

lemma saturating_exceeds: "limit < USIZE_MAX \<Longrightarrow> saturating_add a b > limit \<longleftrightarrow> a + b > limit"
  by (auto simp: saturating_add_def)

lemma read_loop_spec:
  assumes "readable reader" and "LF \<notin> set line" and "length line \<le> limit" and "limit < USIZE_MAX"
  shows "map_sum failure_kind id (fst (read_loop limit line reader)) = line_spec limit (line @ chunk_bytes reader)
    \<and> (\<forall>l. fst (read_loop limit line reader) = Ok (Some l) \<longrightarrow>
         (\<exists>payload. line @ chunk_bytes reader = payload @ LF # chunk_bytes (snd (read_loop limit line reader)))
         \<and> readable (snd (read_loop limit line reader)))"
  using assms
proof (induction limit line reader rule: read_loop.induct)
  case (1 limit line)
  then have "split_once LF line = None" by (simp add: split_once_None_iff)
  with "1.prems" show ?case by (simp add: line_spec_def failure_kind_def)
next
  case (2 limit line e reader)
  then show ?case by simp
next
  case (3 limit line available reader)
  show ?case
  proof (cases "position (\<lambda>b. b = LF) available")
    case (Some n)
    from position_SomeD [OF this] obtain p r where a: "available = p @ LF # r" "length p = n" "LF \<notin> set p"
      by auto
    have so: "split_once LF (line @ chunk_bytes (Chunk available # reader)) = Some (line @ p, r @ chunk_bytes reader)"
      using a "3.prems"(2) by (simp add: split_once_Some_iff)
    show ?thesis
    proof (cases "length line + n > limit")
      case True
      with Some a so "3.prems" show ?thesis
        by (simp add: saturating_exceeds line_spec_def failure_kind_def)
    next
      case False
      have "read_loop limit line (Chunk available # reader) =
          (Ok (Some (strip_cr (line @ p))), if r = [] then reader else Chunk r # reader)"
        using False Some a "3.prems" by (simp add: saturating_exceeds strip_cr_def)
      with False so a "3.prems" show ?thesis
        by (auto simp: line_spec_def)
    qed
  next
    case None
    then have nl: "LF \<notin> set available" by (auto simp: position_None_iff)
    show ?thesis
    proof (cases "length line + length available > limit")
      case True
      have "\<exists>k. line_spec limit (line @ chunk_bytes (Chunk available # reader)) = Err k \<and> k = LineTooLong"
        using True nl "3.prems"(2) split_once_absent [of LF "line @ available" "chunk_bytes reader"]
        by (auto simp: line_spec_def split: option.split)
      with True None "3.prems" show ?thesis
        by (auto simp: saturating_exceeds failure_kind_def)
    next
      case False
      have step: "read_loop limit line (Chunk available # reader) = read_loop limit (line @ available) reader"
        using False None "3.prems" by (simp add: saturating_exceeds)
      have "map_sum failure_kind id (fst (read_loop limit (line @ available) reader))
            = line_spec limit ((line @ available) @ chunk_bytes reader)
          \<and> (\<forall>l. fst (read_loop limit (line @ available) reader) = Ok (Some l) \<longrightarrow>
             (\<exists>payload. (line @ available) @ chunk_bytes reader
               = payload @ LF # chunk_bytes (snd (read_loop limit (line @ available) reader)))
             \<and> readable (snd (read_loop limit (line @ available) reader)))"
        using "3.IH" [OF _ refl refl refl _ refl refl] False None nl "3.prems"
        by (simp add: saturating_exceeds id_def)
      then show ?thesis unfolding step by (simp only: chunk_bytes_simps append_assoc) blast
    qed
  qed
qed

text \<open>
  Framing does not depend on how the pipe delivers the bytes.  For every chunking without read
  errors, \<^verbatim>\<open>read_bounded_line\<close> returns the bytes up to the first LF with a final CR removed, refuses
  a payload longer than the limit (the CR counts), reports a clean end of file only between frames, and
  leaves exactly the bytes after that LF for the next call.
\<close>

theorem read_bounded_line_spec:
  assumes "readable reader" and "limit < USIZE_MAX"
  shows "map_sum failure_kind id (fst (read_bounded_line limit reader)) = line_spec limit (chunk_bytes reader)
    \<and> (\<forall>l. fst (read_bounded_line limit reader) = Ok (Some l) \<longrightarrow>
         (\<exists>payload. chunk_bytes reader = payload @ LF # chunk_bytes (snd (read_bounded_line limit reader))))"
  using read_loop_spec [of reader "[]" limit] assms by (auto simp: read_bounded_line_def)

theorem read_bounded_line_spec_witness:
  "fst (read_bounded_line 4 [Chunk ''{'', Chunk (''}'' @ [CR]), Chunk ([LF] @ ''x'')]) = Ok (Some ''{}'')
   \<and> line_spec 4 (''{}'' @ [CR, LF] @ ''x'') = Ok (Some ''{}'')"
proof -
  let ?r = "[Chunk ''{'', Chunk (''}'' @ [CR]), Chunk ([LF] @ ''x'')]"
  have "fst (read_bounded_line 4 ?r) = Ok (Some ''{}'')" by code_simp
  with read_bounded_line_spec [of ?r 4] show ?thesis by (simp add: USIZE_MAX_def)
qed

end
