(* ===== verification/Json_Value.thy ===== *)
theory Json_Value
  imports Prelude
begin

text \<open>
  JSON values as the sources use them: \<^verbatim>\<open>serde_json::Value\<close> with the \<^verbatim>\<open>preserve_order\<close>
  feature.  An object is an association list in insertion order with distinct keys; \<^verbatim>\<open>insert\<close> on
  a key that is there replaces the value in place, \<^verbatim>\<open>remove\<close> moves the last entry into the gap
  (\<^verbatim>\<open>swap_remove\<close>).  Floating-point numbers are opaque 64-bit patterns.
\<close>

datatype json_number = PosInt nat | NegInt int | FloatBits "64 word"

datatype json =
    JNull
  | JBool bool
  | JNumber json_number
  | JString bytes
  | JArray "json list"
  | JObject "(bytes \<times> json) list"

type_synonym json_map = "(bytes \<times> json) list"

section \<open>Object maps\<close>

fun obj_insert :: "'k \<Rightarrow> 'v \<Rightarrow> ('k \<times> 'v) list \<Rightarrow> ('k \<times> 'v) list" where
  "obj_insert k v [] = [(k, v)]"
| "obj_insert k v ((k', v') # m) = (if k' = k then (k, v) # m else (k', v') # obj_insert k v m)"

fun obj_index :: "'k \<Rightarrow> ('k \<times> 'v) list \<Rightarrow> nat option" where
  "obj_index k [] = None"
| "obj_index k ((k', v') # m) = (if k' = k then Some 0 else map_option Suc (obj_index k m))"

definition obj_remove :: "'k \<Rightarrow> ('k \<times> 'v) list \<Rightarrow> ('k \<times> 'v) list" where
  "obj_remove k m =
     (case obj_index k m of
        None \<Rightarrow> m
      | Some i \<Rightarrow> if i + 1 = length m then butlast m else butlast (m[i := last m]))"

definition obj_keys :: "('k \<times> 'v) list \<Rightarrow> 'k list" where
  "obj_keys m = map fst m"

definition contains_key :: "('k \<times> 'v) list \<Rightarrow> 'k \<Rightarrow> bool" where
  "contains_key m k \<longleftrightarrow> map_of m k \<noteq> None"

definition obj_wf :: "('k \<times> 'v) list \<Rightarrow> bool" where
  "obj_wf m \<longleftrightarrow> distinct (map fst m)"

fun as_object :: "json \<Rightarrow> json_map option" where
  "as_object (JObject m) = Some m" | "as_object _ = None"

fun as_array :: "json \<Rightarrow> json list option" where
  "as_array (JArray xs) = Some xs" | "as_array _ = None"

fun as_str :: "json \<Rightarrow> bytes option" where
  "as_str (JString s) = Some s" | "as_str _ = None"

fun as_bool :: "json \<Rightarrow> bool option" where
  "as_bool (JBool b) = Some b" | "as_bool _ = None"

section \<open>Laws\<close>

lemma map_of_obj_insert [simp]: "map_of (obj_insert k v m) = (map_of m)(k \<mapsto> v)"
  by (induction k v m rule: obj_insert.induct) auto

lemma obj_insert_keys: "fst ` set (obj_insert k v m) = insert k (fst ` set m)"
  by (induction k v m rule: obj_insert.induct) auto

lemma obj_insert_wf: "obj_wf m \<Longrightarrow> obj_wf (obj_insert k v m)"
  by (induction k v m rule: obj_insert.induct) (auto simp: obj_wf_def obj_insert_keys simp flip: image_set)

text \<open>Insertion keeps the position of a key that is there and appends a new one.\<close>

lemma obj_insert_order:
  "obj_keys (obj_insert k v m) = (if k \<in> set (obj_keys m) then obj_keys m else obj_keys m @ [k])"
  by (induction k v m rule: obj_insert.induct) (auto simp: obj_keys_def)

lemma obj_insert_same: "map_of m k = Some v \<Longrightarrow> obj_insert k v m = m"
  by (induction k v m rule: obj_insert.induct) (auto split: if_splits)

lemma obj_index_Some:
  "obj_index k m = Some i \<Longrightarrow> i < length m \<and> fst (m ! i) = k"
  by (induction k m arbitrary: i rule: obj_index.induct) (auto split: if_splits)

lemma obj_index_None_iff: "obj_index k m = None \<longleftrightarrow> k \<notin> fst ` set m"
  by (induction k m rule: obj_index.induct) auto

lemma set_butlast_update:
  assumes "i < length m" and "i + 1 \<noteq> length m" and "distinct m"
  shows "set (butlast (m[i := last m])) = set m - {m ! i} \<and> distinct (butlast (m[i := last m]))"
proof -
  obtain xs z where m: "m = xs @ [z]" using assms(1) by (cases m rule: rev_cases) auto
  have i: "i < length xs" using assms(1,2) m by simp
  then have eq: "butlast (m[i := last m]) = xs[i := z]" "m ! i = xs ! i"
    using m by (simp_all add: list_update_append nth_append)
  have d: "distinct xs" "z \<notin> set xs" using assms(3) m by auto
  have "set (xs[i := z]) = insert z (set xs - {xs ! i})"
    using i d by (simp add: set_update_distinct)
  moreover have "xs ! i \<noteq> z" using d i by (metis nth_mem)
  moreover have "distinct (xs[i := z])" using d by (simp add: distinct_list_update)
  ultimately show ?thesis using eq m by auto
qed

lemma obj_wf_distinct: "obj_wf m \<Longrightarrow> distinct m"
  by (simp add: obj_wf_def distinct_map)

lemma obj_remove_set:
  assumes "obj_wf m"
  shows "set (obj_remove k m) = {x \<in> set m. fst x \<noteq> k} \<and> distinct (obj_remove k m)"
proof (cases "obj_index k m")
  case None
  then have "k \<notin> fst ` set m" by (simp add: obj_index_None_iff)
  moreover have "obj_remove k m = m" using None by (simp add: obj_remove_def)
  ultimately show ?thesis using obj_wf_distinct [OF assms] by auto
next
  case (Some i)
  have i: "i < length m" "fst (m ! i) = k" using obj_index_Some [OF Some] by auto
  have inj: "inj_on fst (set m)" using assms by (simp add: obj_wf_def distinct_map)
  have eq: "{x \<in> set m. fst x \<noteq> k} = set m - {m ! i}"
    using i inj by (auto dest: inj_onD)
  show ?thesis
  proof (cases "i + 1 = length m")
    case True
    then have "m = butlast m @ [m ! i]"
      using i by (metis add_diff_cancel_right' append_butlast_last_id last_conv_nth length_0_conv not_less_zero)
    then obtain xs where m: "m = xs @ [m ! i]" by blast
    have "m ! i \<notin> set xs" using obj_wf_distinct [OF assms] m by (metis distinct_append not_distinct_conv_prefix)
    with Some True m eq obj_wf_distinct [OF assms] show ?thesis
      by (simp add: obj_remove_def) (metis Diff_insert_absorb butlast_snoc distinct_butlast insert_Diff_single list.simps(15) rotate1.simps(2) set_rotate1)
  next
    case False
    with set_butlast_update [OF i(1) False obj_wf_distinct [OF assms]] Some eq show ?thesis
      by (simp add: obj_remove_def)
  qed
qed

lemma map_of_set_wf: "obj_wf m \<Longrightarrow> map_of m k = Some v \<longleftrightarrow> (k, v) \<in> set m"
  by (simp add: obj_wf_def)

lemma obj_remove_wf:
  assumes "obj_wf m"
  shows "obj_wf (obj_remove k m)"
proof -
  have "inj_on fst (set m)" using assms by (simp add: obj_wf_def distinct_map)
  then have "inj_on fst (set (obj_remove k m))"
    using obj_remove_set [OF assms, of k] by (auto intro: inj_on_subset)
  with obj_remove_set [OF assms, of k] show ?thesis by (simp add: obj_wf_def distinct_map)
qed

lemma map_of_obj_remove:
  assumes "obj_wf m"
  shows "map_of (obj_remove k m) = (map_of m)(k := None)"
proof
  fix x
  show "map_of (obj_remove k m) x = ((map_of m)(k := None)) x"
  proof (cases "x = k")
    case True
    then show ?thesis using obj_remove_set [OF assms, of k] by (auto simp: map_of_eq_None_iff)
  next
    case False
    have "map_of (obj_remove k m) x = Some v \<longleftrightarrow> map_of m x = Some v" for v
      using False obj_remove_set [OF assms, of k]
      by (simp add: map_of_set_wf assms obj_remove_wf)
    with False show ?thesis by (metis fun_upd_other not_None_eq)
  qed
qed

section \<open>The map contract\<close>

text \<open>What the clients of an object map rely on.\<close>

locale object_map =
  fixes get :: "'m \<Rightarrow> 'k \<Rightarrow> 'v option"
    and ins :: "'k \<Rightarrow> 'v \<Rightarrow> 'm \<Rightarrow> 'm"
    and del :: "'k \<Rightarrow> 'm \<Rightarrow> 'm"
    and wf :: "'m \<Rightarrow> bool"
  assumes get_ins: "wf m \<Longrightarrow> get (ins k v m) = (get m)(k \<mapsto> v)"
    and get_del: "wf m \<Longrightarrow> get (del k m) = (get m)(k := None)"
    and wf_ins: "wf m \<Longrightarrow> wf (ins k v m)"
    and wf_del: "wf m \<Longrightarrow> wf (del k m)"
begin

lemma ins_ins_same: "wf m \<Longrightarrow> get (ins k v (ins k w m)) = get (ins k v m)"
  by (simp add: get_ins wf_ins)

lemma del_ins: "wf m \<Longrightarrow> get m k = None \<Longrightarrow> get (del k (ins k v m)) = get m"
  by (auto simp: get_ins get_del wf_ins)

lemma wf_fold_ins: "wf m \<Longrightarrow> wf (fold (\<lambda>(k, v). ins k v) kvs m)"
  by (induction kvs arbitrary: m) (auto simp: wf_ins)

lemma get_fold_ins:
  "wf m \<Longrightarrow> k \<notin> fst ` set kvs \<Longrightarrow> get (fold (\<lambda>(k, v). ins k v) kvs m) k = get m k"
  by (induction kvs arbitrary: m) (auto simp: get_ins wf_ins)

end

interpretation json_object: object_map map_of obj_insert obj_remove obj_wf
  by unfold_locales (simp_all add: map_of_obj_remove obj_insert_wf obj_remove_wf)

end
