(* ===== verification/Webhook_Verifier.thy ===== *)
theory Webhook_Verifier
  imports Json_Value
begin

unbundle bit_operations_syntax

text \<open>
  Verification of webhook deliveries, \<^verbatim>\<open>crates/openai-rs-client/src/webhooks.rs\<close>.

  The cryptography, base64 and JSON decoding come from other crates and are the fields of the record
  \<open>webhook_crypto\<close>: \<open>hmac_sha256\<close> is the tag of a message under a key (\<open>None\<close> if the key is
  refused), \<open>hmac_verify\<close> the implementation's own tag check, \<open>base64_decode\<close> the standard
  alphabet's decoder, \<open>event_from_slice\<close> the typed event of a body or the position of the error,
  \<open>value_from_slice\<close> its untyped JSON.  A header map gives the texts of all values of a name;
  \<open>None\<close> is a value that is not visible ASCII.
\<close>

definition DEFAULT_TOLERANCE :: duration where "DEFAULT_TOLERANCE = from_secs (5 * 60)"
definition DEFAULT_MAX_PAYLOAD_BYTES :: nat where "DEFAULT_MAX_PAYLOAD_BYTES = 16 * 1024 * 1024"
definition MAX_SIGNATURE_HEADER_BYTES :: nat where "MAX_SIGNATURE_HEADER_BYTES = 8 * 1024"
definition MAX_WEBHOOK_ID_BYTES :: nat where "MAX_WEBHOOK_ID_BYTES = 512"
definition MAX_TIMESTAMP_BYTES :: nat where "MAX_TIMESTAMP_BYTES = 32"
definition HMAC_SHA256_BYTES :: nat where "HMAC_SHA256_BYTES = 32"

type_synonym header_map = "bytes \<Rightarrow> bytes option list"

record 'ev webhook_crypto =
  hmac_sha256 :: "bytes \<Rightarrow> bytes \<Rightarrow> bytes option"
  hmac_verify :: "bytes \<Rightarrow> bytes \<Rightarrow> bytes \<Rightarrow> bool"
  base64_decode :: "bytes \<Rightarrow> bytes option"
  event_from_slice :: "bytes \<Rightarrow> (nat \<times> nat, 'ev) result"
  value_from_slice :: "bytes \<Rightarrow> json option"

record webhook_verifier =
  secret :: bytes
  tolerance :: duration
  max_payload_bytes :: nat

datatype webhook_error =
    InvalidHeader bytes
  | InvalidSignatureHeader
  | InvalidTimestamp
  | TimestampTooOld
  | TimestampTooNew
  | SignatureMismatch
  | InvalidSecret
  | InvalidTolerance
  | InvalidPayloadLimit
  | PayloadTooLarge nat
  | Decode bytes nat nat
  | Clock

record 'ev verified_webhook =
  webhook_id :: bytes
  webhook_body :: 'ev

section \<open>Construction\<close>

definition decode_secret :: "'ev webhook_crypto \<Rightarrow> bytes \<Rightarrow> (webhook_error, bytes) result" where
  "decode_secret c s =
     (if s = [] then Err InvalidSecret
      else case strip_prefix ''whsec_'' s of
        Some encoded \<Rightarrow>
          (case base64_decode c encoded of
             None \<Rightarrow> Err InvalidSecret
           | Some decoded \<Rightarrow> if decoded = [] then Err InvalidSecret else Ok decoded)
      | None \<Rightarrow> Ok s)"

definition verifier_new :: "'ev webhook_crypto \<Rightarrow> bytes \<Rightarrow> (webhook_error, webhook_verifier) result" where
  "verifier_new c s =
     (if s = [] then Err InvalidSecret
      else res_bind (decode_secret c s) (\<lambda>_.
        Ok \<lparr>secret = s, tolerance = DEFAULT_TOLERANCE, max_payload_bytes = DEFAULT_MAX_PAYLOAD_BYTES\<rparr>))"

definition with_tolerance :: "duration \<Rightarrow> webhook_verifier \<Rightarrow> (webhook_error, webhook_verifier) result" where
  "with_tolerance t v = (if t < from_secs 1 then Err InvalidTolerance else Ok (v\<lparr>tolerance := t\<rparr>))"

definition with_max_payload_bytes ::
    "nat \<Rightarrow> webhook_verifier \<Rightarrow> (webhook_error, webhook_verifier) result" where
  "with_max_payload_bytes n v =
     (if n = 0 then Err InvalidPayloadLimit else Ok (v\<lparr>max_payload_bytes := n\<rparr>))"

section \<open>Headers\<close>

definition is_control :: "byte \<Rightarrow> bool" where "is_control b \<longleftrightarrow> code b < 32 \<or> code b = 127"

definition required_header :: "header_map \<Rightarrow> bytes \<Rightarrow> nat \<Rightarrow> (webhook_error, bytes) result" where
  "required_header headers name max_bytes =
     (case headers name of
        [] \<Rightarrow> Err (InvalidHeader name)
      | v # others \<Rightarrow>
          if others \<noteq> [] then Err (InvalidHeader name)
          else case v of
            None \<Rightarrow> Err (InvalidHeader name)
          | Some value \<Rightarrow>
              if value = [] \<or> length value > max_bytes \<or> list_ex is_control value
              then Err (InvalidHeader name) else Ok value)"

fun join_values :: "bytes \<Rightarrow> nat \<Rightarrow> bytes \<Rightarrow> bytes option list \<Rightarrow> (webhook_error, bytes) result" where
  "join_values name max_bytes joined [] = Ok joined"
| "join_values name max_bytes joined (v # vs) =
     (case v of
        None \<Rightarrow> Err (InvalidHeader name)
      | Some value \<Rightarrow>
          let joined = (if joined \<noteq> [] then joined @ '' '' else joined)
          in if saturating_add (length joined) (length value) > max_bytes
             then Err InvalidSignatureHeader
             else join_values name max_bytes (joined @ value) vs)"

definition joined_header_values :: "header_map \<Rightarrow> bytes \<Rightarrow> nat \<Rightarrow> (webhook_error, bytes) result" where
  "joined_header_values headers name max_bytes =
     res_bind (join_values name max_bytes [] (headers name))
       (\<lambda>joined. if joined = [] then Err (InvalidHeader name) else Ok joined)"

section \<open>Signatures\<close>

text \<open>\<^verbatim>\<open>str::split_ascii_whitespace\<close>: the maximal runs without whitespace.\<close>

fun split_whitespace_acc :: "bytes \<Rightarrow> bytes \<Rightarrow> bytes list" where
  "split_whitespace_acc word [] = (if word = [] then [] else [word])"
| "split_whitespace_acc word (b # bs) =
     (if is_ascii_whitespace b
      then (if word = [] then [] else [word]) @ split_whitespace_acc [] bs
      else split_whitespace_acc (word @ [b]) bs)"

definition split_ascii_whitespace :: "bytes \<Rightarrow> bytes list" where
  "split_ascii_whitespace bs = split_whitespace_acc [] bs"

definition decode_candidate :: "'ev webhook_crypto \<Rightarrow> bytes \<Rightarrow> bytes option" where
  "decode_candidate c candidate =
     (let encoded = (case strip_prefix ''v1,'' candidate of Some e \<Rightarrow> e | None \<Rightarrow> candidate)
      in case base64_decode c encoded of
           Some decoded \<Rightarrow> if length decoded = HMAC_SHA256_BYTES then Some decoded else None
         | None \<Rightarrow> None)"

definition decode_signatures :: "'ev webhook_crypto \<Rightarrow> bytes \<Rightarrow> (webhook_error, bytes list) result" where
  "decode_signatures c header =
     (let signatures = List.map_filter (decode_candidate c) (split_ascii_whitespace header)
      in if signatures = [] then Err InvalidSignatureHeader else Ok signatures)"

text \<open>The constant-time comparison: \<^verbatim>\<open>fold(0, |d, (e, c)| d | (e ^ c))\<close> over the paired bytes.\<close>

definition byte_word :: "byte \<Rightarrow> 8 word" where "byte_word b = of_nat (code b)"

definition tag_difference :: "bytes \<Rightarrow> bytes \<Rightarrow> 8 word" where
  "tag_difference expected candidate =
     fold (\<lambda>(e, c) d. d OR (byte_word e XOR byte_word c)) (zip expected candidate) 0"

fun select_signature :: "bytes \<Rightarrow> bytes list \<Rightarrow> bytes option \<Rightarrow> bytes option" where
  "select_signature expected [] selected = selected"
| "select_signature expected (s # ss) selected =
     select_signature expected ss (if tag_difference expected s = 0 then Some s else selected)"

definition sanitized_decode_failure :: "'ev webhook_crypto \<Rightarrow> bytes \<Rightarrow> nat \<times> nat \<Rightarrow> webhook_error" where
  "sanitized_decode_failure c payload err =
     (let kind = (case value_from_slice c payload of
            None \<Rightarrow> ''syntax''
          | Some v \<Rightarrow>
              (case as_object v of
                 Some object \<Rightarrow>
                   (case map_of object ''type'' of
                      Some t \<Rightarrow> if as_str t \<noteq> None then ''type'' else ''discriminator''
                    | None \<Rightarrow> ''discriminator'')
               | None \<Rightarrow> ''discriminator''))
      in Decode kind (fst err) (snd err))"

definition signed_content :: "bytes \<Rightarrow> bytes \<Rightarrow> bytes \<Rightarrow> bytes" where
  "signed_content i timestamp payload = i @ ''.'' @ timestamp @ ''.'' @ payload"

section \<open>Verification\<close>

definition verify_at ::
    "'ev webhook_crypto \<Rightarrow> webhook_verifier \<Rightarrow> bytes \<Rightarrow> header_map \<Rightarrow> nat \<Rightarrow>
       (webhook_error, 'ev verified_webhook) result" where
  "verify_at c v payload headers now =
     (if length payload > max_payload_bytes v then Err (PayloadTooLarge (max_payload_bytes v))
      else
        res_bind (required_header headers ''webhook-timestamp'' MAX_TIMESTAMP_BYTES) (\<lambda>timestamp_text.
        if timestamp_text = [] \<or> \<not> list_all is_ascii_digit timestamp_text then Err InvalidTimestamp
        else res_bind (ok_or (parse_u64 timestamp_text) InvalidTimestamp) (\<lambda>timestamp.
        if saturating_sub now timestamp > as_secs (tolerance v) then Err TimestampTooOld
        else if saturating_sub timestamp now > as_secs (tolerance v) then Err TimestampTooNew
        else res_bind (required_header headers ''webhook-id'' MAX_WEBHOOK_ID_BYTES) (\<lambda>wid.
        res_bind (joined_header_values headers ''webhook-signature'' MAX_SIGNATURE_HEADER_BYTES) (\<lambda>sig_header.
        res_bind (decode_signatures c sig_header) (\<lambda>signatures.
        res_bind (decode_secret c (secret v)) (\<lambda>signing_key.
        let signed = signed_content wid timestamp_text payload in
        res_bind (ok_or (hmac_sha256 c signing_key signed) InvalidSecret) (\<lambda>expected.
        res_bind (ok_or (select_signature expected signatures None) SignatureMismatch) (\<lambda>signature.
        if \<not> hmac_verify c signing_key signed signature then Err SignatureMismatch
        else res_bind (map_err (sanitized_decode_failure c payload) (event_from_slice c payload)) (\<lambda>event.
        Ok \<lparr>webhook_id = wid, webhook_body = event\<rparr>))))))))))"

text \<open>\<^verbatim>\<open>verify\<close> reads the clock; \<open>None\<close> is a clock before the epoch.\<close>

definition verify ::
    "'ev webhook_crypto \<Rightarrow> webhook_verifier \<Rightarrow> bytes \<Rightarrow> header_map \<Rightarrow> duration option \<Rightarrow>
       (webhook_error, 'ev verified_webhook) result" where
  "verify c v payload headers clock =
     (case clock of None \<Rightarrow> Err Clock | Some d \<Rightarrow> verify_at c v payload headers (as_secs d))"

section \<open>The comparison\<close>

lemma byte_word_inject [simp]: "byte_word a = byte_word b \<longleftrightarrow> a = b"
proof
  assume "byte_word a = byte_word b"
  then have "unat (byte_word a) = unat (byte_word b)" by simp
  then show "a = b"
    using code_less [of a] code_less [of b] by (simp add: byte_word_def unat_of_nat)
qed simp

lemma word_or_zero: "(a::8 word) OR b = 0 \<longleftrightarrow> a = 0 \<and> b = 0"
  by (auto simp: bit_eq_iff bit_simps)

lemma word_xor_zero: "(a::8 word) XOR b = 0 \<longleftrightarrow> a = b"
  by (auto simp: bit_eq_iff bit_simps)

lemma fold_difference_zero:
  "fold (\<lambda>(e, c) d. d OR (byte_word e XOR byte_word c)) ps d0 = 0 \<longleftrightarrow>
     d0 = 0 \<and> list_all (\<lambda>(e, c). e = c) ps"
proof (induction ps arbitrary: d0)
  case (Cons p ps)
  obtain e c where "p = (e, c)" by (cases p)
  with Cons.IH show ?case by (simp add: word_or_zero word_xor_zero del: bit.disj_zero_right)
qed simp

lemma tag_difference_zero:
  "length a = length b \<Longrightarrow> tag_difference a b = 0 \<longleftrightarrow> a = b"
  by (induction a b rule: list_induct2) (simp_all add: tag_difference_def fold_difference_zero word_xor_zero)

lemma select_signature_Some:
  assumes "list_all (\<lambda>s. length s = length expected) ss"
  shows "select_signature expected ss sel = (if expected \<in> set ss then Some expected else sel)"
  using assms by (induction ss arbitrary: sel) (auto simp: tag_difference_zero)

lemma map_filter_set: "set (List.map_filter f xs) = {y. \<exists>x \<in> set xs. f x = Some y}"
  by (induction xs) (auto simp: List.map_filter_simps split: option.splits)

lemma decode_candidate_length: "decode_candidate c cand = Some x \<Longrightarrow> length x = HMAC_SHA256_BYTES"
  by (simp add: decode_candidate_def Let_def split: option.split_asm if_split_asm)

lemma decode_signatures_Ok:
  assumes "decode_signatures c header = Ok ss"
  shows "list_all (\<lambda>s. length s = HMAC_SHA256_BYTES) ss"
    and "x \<in> set ss \<longleftrightarrow> (\<exists>cand \<in> set (split_ascii_whitespace header). decode_candidate c cand = Some x)"
  using assms decode_candidate_length
  by (auto simp: decode_signatures_def Let_def map_filter_set list_all_iff split: if_splits)

section \<open>Properties\<close>

text \<open>What makes a delivery authentic and fresh.\<close>

definition authentic ::
    "'ev webhook_crypto \<Rightarrow> webhook_verifier \<Rightarrow> bytes \<Rightarrow> header_map \<Rightarrow> nat \<Rightarrow> bytes \<Rightarrow> bool" where
  "authentic c v payload headers now wid \<longleftrightarrow>
     length payload \<le> max_payload_bytes v
     \<and> (\<exists>ts t sigs key. required_header headers ''webhook-timestamp'' MAX_TIMESTAMP_BYTES = Ok ts
        \<and> list_all is_ascii_digit ts \<and> parse_u64 ts = Some t
        \<and> now \<le> t + as_secs (tolerance v) \<and> t \<le> now + as_secs (tolerance v)
        \<and> required_header headers ''webhook-id'' MAX_WEBHOOK_ID_BYTES = Ok wid
        \<and> joined_header_values headers ''webhook-signature'' MAX_SIGNATURE_HEADER_BYTES = Ok sigs
        \<and> decode_secret c (secret v) = Ok key
        \<and> (\<exists>cand tag. cand \<in> set (split_ascii_whitespace sigs) \<and> decode_candidate c cand = Some tag
             \<and> hmac_sha256 c key (signed_content wid ts payload) = Some tag))"

definition hmac_laws :: "'ev webhook_crypto \<Rightarrow> bool" where
  "hmac_laws c \<longleftrightarrow>
     (\<forall>k m tag. hmac_sha256 c k m = Some tag \<longrightarrow> length tag = HMAC_SHA256_BYTES)
     \<and> (\<forall>k m tag. hmac_verify c k m tag \<longleftrightarrow> hmac_sha256 c k m = Some tag)"

lemma required_header_nonempty: "required_header h n m = Ok s \<Longrightarrow> s \<noteq> []"
  by (auto simp: required_header_def split: list.splits option.splits if_splits)

lemma accepted_authentic:
  assumes "hmac_laws c" and "verify_at c v payload headers now = Ok w"
  shows "authentic c v payload headers now (webhook_id w) \<and> event_from_slice c payload = Ok (webhook_body w)"
proof -
  from assms(2) obtain ts t wid sigs ss key expected tag where
    len: "length payload \<le> max_payload_bytes v"
    and ts: "required_header headers ''webhook-timestamp'' MAX_TIMESTAMP_BYTES = Ok ts"
      "list_all is_ascii_digit ts" "parse_u64 ts = Some t"
    and fresh: "now - t \<le> as_secs (tolerance v)" "t - now \<le> as_secs (tolerance v)"
    and hd: "required_header headers ''webhook-id'' MAX_WEBHOOK_ID_BYTES = Ok wid"
      "joined_header_values headers ''webhook-signature'' MAX_SIGNATURE_HEADER_BYTES = Ok sigs"
    and ss: "decode_signatures c sigs = Ok ss" and key: "decode_secret c (secret v) = Ok key"
    and ex: "hmac_sha256 c key (signed_content wid ts payload) = Some expected"
      "select_signature expected ss None = Some tag"
    and ev: "event_from_slice c payload = Ok (webhook_body w)" "webhook_id w = wid"
    by (auto simp: verify_at_def res_bind_Ok_iff Let_def split: if_split_asm)
  have "length expected = HMAC_SHA256_BYTES" using assms(1) ex(1) by (auto simp: hmac_laws_def)
  with ex(2) decode_signatures_Ok(1) [OF ss] have "expected \<in> set ss"
    by (auto simp: select_signature_Some split: if_splits)
  then obtain cand where "cand \<in> set (split_ascii_whitespace sigs)" "decode_candidate c cand = Some expected"
    using decode_signatures_Ok(2) [OF ss] by blast
  with len ts fresh hd key ex ev show ?thesis unfolding authentic_def by fastforce
qed

lemma authentic_accepted:
  assumes "hmac_laws c" and "authentic c v payload headers now (webhook_id w)" and "event_from_slice c payload = Ok (webhook_body w)"
  shows "verify_at c v payload headers now = Ok w"
proof -
  from assms(2) obtain ts t sigs key cand tag where
    h: "length payload \<le> max_payload_bytes v"
      "required_header headers ''webhook-timestamp'' MAX_TIMESTAMP_BYTES = Ok ts"
      "list_all is_ascii_digit ts" "parse_u64 ts = Some t"
      "now \<le> t + as_secs (tolerance v)" "t \<le> now + as_secs (tolerance v)"
      "required_header headers ''webhook-id'' MAX_WEBHOOK_ID_BYTES = Ok (webhook_id w)"
      "joined_header_values headers ''webhook-signature'' MAX_SIGNATURE_HEADER_BYTES = Ok sigs"
      "decode_secret c (secret v) = Ok key"
    and cand: "cand \<in> set (split_ascii_whitespace sigs)" "decode_candidate c cand = Some tag"
    and tag: "hmac_sha256 c key (signed_content (webhook_id w) ts payload) = Some tag"
    unfolding authentic_def by blast
  let ?ss = "List.map_filter (decode_candidate c) (split_ascii_whitespace sigs)"
  have "tag \<in> set ?ss" using cand by (auto simp: map_filter_set)
  then have ss: "decode_signatures c sigs = Ok ?ss" by (auto simp: decode_signatures_def Let_def)
  have "length tag = HMAC_SHA256_BYTES" using assms(1) tag by (auto simp: hmac_laws_def)
  then have sel: "select_signature tag ?ss None = Some tag"
    using select_signature_Some [of tag ?ss None] decode_signatures_Ok(1) [OF ss] \<open>tag \<in> set ?ss\<close>
    by simp
  have "hmac_verify c key (signed_content (webhook_id w) ts payload) tag"
    using assms(1) tag by (simp add: hmac_laws_def)
  moreover have "now - t \<le> as_secs (tolerance v)" "t - now \<le> as_secs (tolerance v)"
    using h(5,6) by linarith+
  ultimately show ?thesis
    using h ss sel tag assms(3) required_header_nonempty [OF h(2)] by (simp add: verify_at_def Let_def)
qed

text \<open>
  C15: A delivery is accepted exactly when it is authentic and fresh and its body decodes: the body is
  within the limit, the one timestamp header is a decimal number within the tolerance of the clock in
  both directions, and some candidate of the signature header, in any position, is the HMAC of
  \<^verbatim>\<open>id.timestamp.body\<close> under the decoded secret.  The result carries the \<^verbatim>\<open>webhook-id\<close> that was
  signed.
\<close>

theorem webhook_accepts_iff:
  assumes "hmac_laws c"
  shows "verify_at c v payload headers now = Ok w \<longleftrightarrow>
    authentic c v payload headers now (webhook_id w) \<and> event_from_slice c payload = Ok (webhook_body w)"
  using accepted_authentic [OF assms] authentic_accepted [OF assms] by blast

definition toy_crypto :: "bytes webhook_crypto" where
  "toy_crypto =
     \<lparr>hmac_sha256 = (\<lambda>k m. Some (take 32 (k @ m @ replicate 32 (CHR ''x'')))),
      hmac_verify = (\<lambda>k m tag. Some tag = Some (take 32 (k @ m @ replicate 32 (CHR ''x'')))),
      base64_decode = Some, event_from_slice = Ok, value_from_slice = (\<lambda>_. None)\<rparr>"

definition toy_verifier :: webhook_verifier where
  "toy_verifier = \<lparr>secret = ''whsec_k'', tolerance = from_secs 300, max_payload_bytes = 16\<rparr>"

definition toy_headers :: header_map where
  "toy_headers name =
     (if name = ''webhook-id'' then [Some ''wh_1''] else if name = ''webhook-timestamp'' then [Some ''900'']
      else if name = ''webhook-signature'' then
        [Some ''v1,bogus'', Some (''v1,'' @ take 32 (''kwh_1.900.{}'' @ replicate 32 (CHR ''x'')))]
      else [])"

theorem webhook_accepts_iff_witness:
  "authentic toy_crypto toy_verifier ''{}'' toy_headers 1000 ''wh_1''"
proof -
  have laws: "hmac_laws toy_crypto"
    by (auto simp: hmac_laws_def toy_crypto_def HMAC_SHA256_BYTES_def)
  have "verify_at toy_crypto toy_verifier ''{}'' toy_headers 1000 = Ok \<lparr>webhook_id = ''wh_1'', webhook_body = ''{}''\<rparr>"
    by code_simp
  with webhook_accepts_iff [OF laws] show ?thesis by fastforce
qed

text \<open>
  A verifier that was constructed never signs with an empty key: neither an empty secret nor a
  \<^verbatim>\<open>whsec_\<close> secret whose base64 is malformed or empty gives a verifier.
\<close>

theorem webhook_key_nonempty:
  assumes "verifier_new c s = Ok v"
  shows "\<exists>key. decode_secret c (secret v) = Ok key \<and> key \<noteq> [] \<and> as_secs (tolerance v) = 300"
  using assms
  by (auto simp: verifier_new_def res_bind_Ok_iff decode_secret_def DEFAULT_TOLERANCE_def from_secs_def
      as_secs_def split: if_splits option.splits)

theorem webhook_key_nonempty_witness:
  "\<exists>key. decode_secret toy_crypto ''whsec_k'' = Ok key \<and> key \<noteq> []"
proof -
  have "verifier_new toy_crypto ''whsec_k'' = Ok \<lparr>secret = ''whsec_k'', tolerance = DEFAULT_TOLERANCE,
      max_payload_bytes = DEFAULT_MAX_PAYLOAD_BYTES\<rparr>" by code_simp
  from webhook_key_nonempty [OF this] show ?thesis by auto
qed

end
