(* ===== verification/Oidc_Verifier.thy ===== *)
theory Oidc_Verifier
  imports Prelude
begin

text \<open>
  Verification of the ID token of the direct Codex login,
  \<^verbatim>\<open>crates/openai-rs-codex/src/direct/jwt.rs\<close>, with \<^verbatim>\<open>secure_equal\<close> of
  \<^verbatim>\<open>direct.rs\<close>.

  RSA and HMAC verification, base64url and JSON decoding are other crates' code: the fields of
  \<open>jwt_crypto\<close>.  Errors are \<^verbatim>\<open>DirectError::Jwt\<close> and \<^verbatim>\<open>DirectError::Configuration\<close> with
  their messages.
\<close>

definition MAX_JWT_BYTES :: nat where "MAX_JWT_BYTES = 64 * 1024"

datatype oidc_error = Configuration bytes | Jwt bytes

datatype chatgpt_account_id = ChatGptAccountId bytes

definition account_id_parse :: "bytes \<Rightarrow> (oidc_error, chatgpt_account_id) result" where
  "account_id_parse v =
     (if v = [] \<or> length v > 256
         \<or> \<not> list_all (\<lambda>b. is_ascii_alphanumeric b \<or> b = CHR ''-'' \<or> b = CHR ''_'') v
      then Err (Jwt ''invalid ChatGPT account identifier claim'')
      else Ok (ChatGptAccountId v))"

record json_web_key =
  kty :: bytes
  jwk_kid :: bytes
  usage :: "bytes option"
  jwk_alg :: "bytes option"
  jwk_n :: bytes
  jwk_e :: bytes

record jwt_header =
  header_alg :: bytes
  header_kid :: bytes

datatype audience = One bytes | Many "bytes list"

record id_token_claims =
  iss :: bytes
  aud :: audience
  exp :: nat
  nbf :: "nat option"
  iat :: "nat option"
  azp :: "bytes option"
  nonce :: bytes
  claims_account_id :: "bytes option"
  namespaced_auth :: "bytes option option"

record oidc_verifier =
  issuer :: bytes
  oidc_audience :: bytes
  jwks :: "json_web_key list"

record jwt_crypto =
  base64url_decode :: "bytes \<Rightarrow> bytes option"
  header_from_slice :: "bytes \<Rightarrow> jwt_header option"
  claims_from_slice :: "bytes \<Rightarrow> id_token_claims option"
  rsa_verify :: "bytes \<Rightarrow> bytes \<Rightarrow> bytes \<Rightarrow> bytes \<Rightarrow> bool"
  hmac_sign :: "bytes \<Rightarrow> bytes \<Rightarrow> bytes"
  hmac_check :: "bytes \<Rightarrow> bytes \<Rightarrow> bytes \<Rightarrow> bool"

definition oidc_verifier_new ::
    "bytes \<Rightarrow> bytes \<Rightarrow> json_web_key list \<Rightarrow> (oidc_error, oidc_verifier) result" where
  "oidc_verifier_new i a keys =
     (if i = [] \<or> a = [] \<or> keys = []
      then Err (Configuration ''OIDC issuer, audience, and JWKS must be non-empty'')
      else Ok \<lparr>issuer = i, oidc_audience = a, jwks = keys\<rparr>)"

definition secure_equal :: "jwt_crypto \<Rightarrow> bytes \<Rightarrow> bytes \<Rightarrow> bool" where
  "secure_equal c first second =
     (let key = ''openai-rs/direct-auth/equality/v1''; expected = hmac_sign c key first
      in hmac_check c key second expected)"

definition decode_segment :: "jwt_crypto \<Rightarrow> bytes \<Rightarrow> (oidc_error, bytes) result" where
  "decode_segment c s = ok_or (base64url_decode c s) (Jwt ''invalid base64url in JWT or JWK'')"

definition validate_audience :: "id_token_claims \<Rightarrow> bytes \<Rightarrow> (oidc_error, unit) result" where
  "validate_audience claims expected =
     (case aud claims of
        One value \<Rightarrow> if value = expected then Ok () else Err (Jwt ''audience mismatch'')
      | Many values \<Rightarrow>
          if list_ex (\<lambda>v. v = expected) values then
            (if length values > 1 \<and> azp claims \<noteq> Some expected
             then Err (Jwt ''multi-audience token omitted matching azp'') else Ok ())
          else Err (Jwt ''audience mismatch''))"

text \<open>The three segments of a compact token.\<close>

definition token_segments :: "bytes \<Rightarrow> (oidc_error, bytes \<times> bytes \<times> bytes) result" where
  "token_segments token =
     (let segments = split_on (CHR ''.'') token;
          nth_or_default = (\<lambda>i. if i < length segments then segments ! i else []);
          header = nth_or_default 0; payload = nth_or_default 1; sig = nth_or_default 2
      in if header = [] \<or> payload = [] \<or> sig = [] \<or> 3 < length segments
         then Err (Jwt ''malformed compact JWT'') else Ok (header, payload, sig))"

definition select_key :: "oidc_verifier \<Rightarrow> bytes \<Rightarrow> (oidc_error, json_web_key) result" where
  "select_key v kid =
     (case filter (\<lambda>key. jwk_kid key = kid) (jwks v) of
        [key] \<Rightarrow>
          if kty key \<noteq> ''RSA'' \<or> (usage key \<noteq> None \<and> usage key \<noteq> Some ''sig'')
             \<or> (jwk_alg key \<noteq> None \<and> jwk_alg key \<noteq> Some ''RS256'')
          then Err (Jwt ''selected JWK is not an RS256 signing key'') else Ok key
      | _ \<Rightarrow> Err (Jwt ''JWT kid did not select exactly one JWK''))"

text \<open>Everything up to and including the signature check: the payload segment that was signed.\<close>

definition verify_signature ::
    "jwt_crypto \<Rightarrow> oidc_verifier \<Rightarrow> bytes \<Rightarrow> (oidc_error, bytes) result" where
  "verify_signature c v token =
     res_bind (token_segments token) (\<lambda>(header_segment, payload_segment, signature_segment).
     res_bind (decode_segment c header_segment) (\<lambda>header_bytes.
     res_bind (ok_or (header_from_slice c header_bytes) (Jwt ''invalid JWT header'')) (\<lambda>header.
     if header_alg header \<noteq> ''RS256'' \<or> header_kid header = []
     then Err (Jwt ''only keyed RS256 ID tokens are accepted'')
     else res_bind (select_key v (header_kid header)) (\<lambda>key.
     res_bind (decode_segment c (jwk_n key)) (\<lambda>modulus.
     res_bind (decode_segment c (jwk_e key)) (\<lambda>exponent.
     res_bind (decode_segment c signature_segment) (\<lambda>signature.
     if rsa_verify c modulus exponent (header_segment @ ''.'' @ payload_segment) signature
     then Ok payload_segment else Err (Jwt ''JWT signature verification failed''))))))))"

text \<open>The checks on the claims, made only after the signature is known to be good.\<close>

definition check_claims ::
    "jwt_crypto \<Rightarrow> oidc_verifier \<Rightarrow> bytes \<Rightarrow> nat \<Rightarrow> id_token_claims \<Rightarrow> (oidc_error, chatgpt_account_id) result" where
  "check_claims c v expected_nonce now claims =
     (if iss claims \<noteq> issuer v then Err (Jwt ''issuer mismatch'')
      else res_bind (validate_audience claims (oidc_audience v)) (\<lambda>_.
      if exp claims \<le> now then Err (Jwt ''ID token expired'')
      else if (case nbf claims of None \<Rightarrow> False | Some not_before \<Rightarrow> not_before > now)
         \<or> (case iat claims of None \<Rightarrow> False | Some issued_at \<Rightarrow> issued_at > saturating_add now 60)
      then Err (Jwt ''ID token is not yet valid'')
      else if \<not> secure_equal c (nonce claims) expected_nonce then Err (Jwt ''nonce mismatch'')
      else
        let namespaced = Option.bind (namespaced_auth claims) (\<lambda>x. x)
        in case (claims_account_id claims, namespaced) of
             (Some first, Some second) \<Rightarrow>
               if first \<noteq> second then Err (Jwt ''conflicting ChatGPT account identifier claims'')
               else account_id_parse first
           | (Some value, None) \<Rightarrow> account_id_parse value
           | (None, Some value) \<Rightarrow> account_id_parse value
           | (None, None) \<Rightarrow> Err (Jwt ''verified ID token omitted ChatGPT account identifier'')))"

definition oidc_verify ::
    "jwt_crypto \<Rightarrow> oidc_verifier \<Rightarrow> bytes \<Rightarrow> bytes \<Rightarrow> nat \<Rightarrow> (oidc_error, chatgpt_account_id) result" where
  "oidc_verify c v token expected_nonce now =
     (if length token > MAX_JWT_BYTES \<or> expected_nonce = []
      then Err (Jwt ''token or expected nonce is invalid'')
      else res_bind (verify_signature c v token) (\<lambda>payload_segment.
      res_bind (decode_segment c payload_segment) (\<lambda>payload.
      res_bind (ok_or (claims_from_slice c payload) (Jwt ''invalid verified JWT claims'')) (\<lambda>claims.
      check_claims c v expected_nonce now claims))))"

section \<open>Segments\<close>

lemma list_of_three: "length xs = 3 \<Longrightarrow> xs = [xs ! 0, xs ! 1, xs ! 2]"
  by (cases xs; cases "tl xs"; cases "tl (tl xs)") auto

lemma token_segments_Ok:
  assumes "token_segments token = Ok (h, p, s)"
  shows "token = h @ ''.'' @ p @ ''.'' @ s" "CHR ''.'' \<notin> set h \<union> set p \<union> set s"
    "h \<noteq> []" "p \<noteq> []" "s \<noteq> []"
proof -
  let ?xs = "split_on (CHR ''.'') token"
  have len: "length ?xs = 3"
    using assms by (auto simp: token_segments_def Let_def split: if_splits)
  then have hps: "?xs = [h, p, s]" and ne: "h \<noteq> []" "p \<noteq> []" "s \<noteq> []"
    using assms list_of_three [OF len] by (auto simp: token_segments_def Let_def split: if_splits)
  from join_split_on [of "CHR ''.''" token] show "token = h @ ''.'' @ p @ ''.'' @ s" by (simp add: hps)
  show "CHR ''.'' \<notin> set h \<union> set p \<union> set s" using split_on_no_sep [of _ "CHR ''.''" token] by (auto simp: hps)
  show "h \<noteq> []" "p \<noteq> []" "s \<noteq> []" by (rule ne)+
qed

lemma token_segments_complete:
  assumes "CHR ''.'' \<notin> set h \<union> set p \<union> set s" and "h \<noteq> []" and "p \<noteq> []" and "s \<noteq> []"
  shows "token_segments (h @ ''.'' @ p @ ''.'' @ s) = Ok (h, p, s)"
  using assms by (simp add: token_segments_def split_on_append split_on_absent)

lemma select_key_Ok:
  assumes "select_key v kid = Ok key"
  shows "filter (\<lambda>k. jwk_kid k = kid) (jwks v) = [key] \<and> kty key = ''RSA''
    \<and> usage key \<in> {None, Some ''sig''} \<and> jwk_alg key \<in> {None, Some ''RS256''}"
  using assms by (auto simp: select_key_def split: list.splits if_splits)

section \<open>Properties\<close>

text \<open>What a verified signature is: the one key of that id in the key set signed exactly the first two
  segments of the token.\<close>

definition signed_by_issuer :: "jwt_crypto \<Rightarrow> oidc_verifier \<Rightarrow> bytes \<Rightarrow> bytes \<Rightarrow> bool" where
  "signed_by_issuer c v token payload_segment \<longleftrightarrow>
     (\<exists>h s hb header key n e sb.
        token = (h @ ''.'' @ payload_segment) @ ''.'' @ s \<and> CHR ''.'' \<notin> set h \<union> set payload_segment \<union> set s
        \<and> h \<noteq> [] \<and> payload_segment \<noteq> [] \<and> s \<noteq> []
        \<and> base64url_decode c h = Some hb \<and> header_from_slice c hb = Some header
        \<and> header_alg header = ''RS256'' \<and> header_kid header \<noteq> []
        \<and> filter (\<lambda>k. jwk_kid k = header_kid header) (jwks v) = [key] \<and> kty key = ''RSA''
        \<and> usage key \<in> {None, Some ''sig''} \<and> jwk_alg key \<in> {None, Some ''RS256''}
        \<and> base64url_decode c (jwk_n key) = Some n \<and> base64url_decode c (jwk_e key) = Some e
        \<and> base64url_decode c s = Some sb \<and> rsa_verify c n e (h @ ''.'' @ payload_segment) sb)"

lemma verify_signature_iff:
  "verify_signature c v token = Ok p \<longleftrightarrow> signed_by_issuer c v token p"
proof
  assume "verify_signature c v token = Ok p"
  then obtain h s hb header key n e sb where
    seg: "token_segments token = Ok (h, p, s)"
    and dec: "base64url_decode c h = Some hb" "header_from_slice c hb = Some header"
      "header_alg header = ''RS256''" "header_kid header \<noteq> []"
    and key: "select_key v (header_kid header) = Ok key"
    and sig: "base64url_decode c (jwk_n key) = Some n" "base64url_decode c (jwk_e key) = Some e"
      "base64url_decode c s = Some sb" "rsa_verify c n e (h @ ''.'' @ p) sb"
    by (auto simp: verify_signature_def res_bind_Ok_iff decode_segment_def split: if_split_asm)
  from token_segments_Ok [OF seg] dec select_key_Ok [OF key] sig show "signed_by_issuer c v token p"
    unfolding signed_by_issuer_def append_assoc by blast
next
  assume "signed_by_issuer c v token p"
  then obtain h s hb header key n e sb where
    tok: "token = h @ ''.'' @ p @ ''.'' @ s" "CHR ''.'' \<notin> set h \<union> set p \<union> set s" "h \<noteq> []" "p \<noteq> []" "s \<noteq> []"
    and rest: "base64url_decode c h = Some hb" "header_from_slice c hb = Some header"
      "header_alg header = ''RS256''" "header_kid header \<noteq> []"
      "filter (\<lambda>k. jwk_kid k = header_kid header) (jwks v) = [key]" "kty key = ''RSA''"
      "usage key \<in> {None, Some ''sig''}" "jwk_alg key \<in> {None, Some ''RS256''}"
      "base64url_decode c (jwk_n key) = Some n" "base64url_decode c (jwk_e key) = Some e"
      "base64url_decode c s = Some sb" "rsa_verify c n e (h @ ''.'' @ p) sb"
    unfolding signed_by_issuer_def append_assoc by blast
  have "select_key v (header_kid header) = Ok key" using rest by (auto simp: select_key_def)
  with rest token_segments_complete [OF tok(2-5)] show "verify_signature c v token = Ok p"
    unfolding tok(1) by (simp add: verify_signature_def decode_segment_def)
qed

text \<open>
  Nothing in an unsigned token matters.  If the signature of a token of acceptable size does not
  verify, the verdict is an error that does not depend on how claims would parse: any two claim parsers
  give the same result.
\<close>

theorem oidc_claims_after_signature:
  assumes "\<And>p. \<not> signed_by_issuer c v token p"
  shows "\<exists>e. oidc_verify (c\<lparr>claims_from_slice := parser\<rparr>) v token expected_nonce now = Err e
    \<and> oidc_verify c v token expected_nonce now = Err e"
proof -
  have same: "verify_signature (c\<lparr>claims_from_slice := parser\<rparr>) v token = verify_signature c v token"
    by (simp add: verify_signature_def decode_segment_def cong: if_cong)
  have "\<exists>e. verify_signature c v token = Err e"
    using assms verify_signature_iff [of c v token] by (cases "verify_signature c v token") auto
  with same show ?thesis by (auto simp: oidc_verify_def)
qed

lemma validate_audience_Ok:
  "validate_audience claims a = Ok u \<longleftrightarrow>
     aud claims = One a \<or> (\<exists>vs. aud claims = Many vs \<and> a \<in> set vs \<and> (1 < length vs \<longrightarrow> azp claims = Some a))"
  by (auto simp: validate_audience_def list_ex_iff split: audience.splits)

definition hmac_contract :: "jwt_crypto \<Rightarrow> bool" where
  "hmac_contract c \<longleftrightarrow> (\<forall>k m tag. hmac_check c k m tag \<longleftrightarrow> hmac_sign c k m = tag)"

definition nonce_tag :: "jwt_crypto \<Rightarrow> bytes \<Rightarrow> bytes" where
  "nonce_tag c s = hmac_sign c ''openai-rs/direct-auth/equality/v1'' s"

lemma secure_equal_iff: "hmac_contract c \<Longrightarrow> secure_equal c a b \<longleftrightarrow> nonce_tag c a = nonce_tag c b"
  by (auto simp: secure_equal_def hmac_contract_def nonce_tag_def Let_def)

lemma account_id_parse_Ok:
  "account_id_parse s = Ok a \<longleftrightarrow> a = ChatGptAccountId s \<and> s \<noteq> [] \<and> length s \<le> 256
     \<and> list_all (\<lambda>b. is_ascii_alphanumeric b \<or> b = CHR ''-'' \<or> b = CHR ''_'') s"
  by (auto simp: account_id_parse_def)

text \<open>
  C16: An accepted ID token is signed by the issuer's key over exactly its header and claims, and its
  claims are for this issuer and audience (a token for several audiences names this client as its
  authorized party), not expired, not from the future beyond sixty seconds, and carry the nonce of this
  login (equal tags under the equality key); the account identifier it yields is well formed.
\<close>

theorem oidc_accepts_only_valid:
  assumes "hmac_contract c" and "oidc_verify c v token expected_nonce now = Ok (ChatGptAccountId a)"
  shows "length token \<le> MAX_JWT_BYTES \<and> expected_nonce \<noteq> []
    \<and> (\<exists>p payload claims. signed_by_issuer c v token p \<and> base64url_decode c p = Some payload
        \<and> claims_from_slice c payload = Some claims \<and> iss claims = issuer v
        \<and> (aud claims = One (oidc_audience v)
           \<or> (\<exists>vs. aud claims = Many vs \<and> oidc_audience v \<in> set vs
                \<and> (1 < length vs \<longrightarrow> azp claims = Some (oidc_audience v))))
        \<and> now < exp claims \<and> (\<forall>t. nbf claims = Some t \<longrightarrow> t \<le> now) \<and> (\<forall>t. iat claims = Some t \<longrightarrow> t \<le> now + 60)
        \<and> nonce_tag c (nonce claims) = nonce_tag c expected_nonce
        \<and> (claims_account_id claims = Some a \<or> namespaced_auth claims = Some (Some a)))
    \<and> a \<noteq> [] \<and> length a \<le> 256
    \<and> list_all (\<lambda>b. is_ascii_alphanumeric b \<or> b = CHR ''-'' \<or> b = CHR ''_'') a"
proof -
  from assms(2) obtain p payload claims where
    p: "length token \<le> MAX_JWT_BYTES" "expected_nonce \<noteq> []" "signed_by_issuer c v token p"
      "base64url_decode c p = Some payload" "claims_from_slice c payload = Some claims"
    and cl: "check_claims c v expected_nonce now claims = Ok (ChatGptAccountId a)"
    by (auto simp: oidc_verify_def res_bind_Ok_iff decode_segment_def verify_signature_iff split: if_split_asm)
  have basic: "iss claims = issuer v" "validate_audience claims (oidc_audience v) = Ok ()"
    "now < exp claims" "\<forall>t. nbf claims = Some t \<longrightarrow> t \<le> now"
    "\<forall>t. iat claims = Some t \<longrightarrow> t \<le> saturating_add now 60"
    "nonce_tag c (nonce claims) = nonce_tag c expected_nonce"
    using cl by (auto simp: check_claims_def res_bind_Ok_iff secure_equal_iff [OF assms(1)]
        split: if_split_asm option.splits)
  have acct: "(claims_account_id claims = Some a \<or> namespaced_auth claims = Some (Some a))
      \<and> account_id_parse a = Ok (ChatGptAccountId a)"
    using cl by (auto simp: check_claims_def res_bind_Ok_iff account_id_parse_Ok Let_def bind_eq_Some_conv
        split: if_split_asm option.splits)
  have "\<forall>t. iat claims = Some t \<longrightarrow> t \<le> now + 60"
    using basic(5) by (auto simp: saturating_add_def)
  with p basic acct show ?thesis by (auto simp: validate_audience_Ok account_id_parse_Ok)
qed

definition toy_jwt_crypto :: jwt_crypto where
  "toy_jwt_crypto =
     \<lparr>base64url_decode = Some,
      header_from_slice = (\<lambda>b. if b = ''h'' then Some \<lparr>header_alg = ''RS256'', header_kid = ''k1''\<rparr> else None),
      claims_from_slice = (\<lambda>b. if b = ''p'' then
        Some \<lparr>iss = ''https://issuer'', aud = Many [''app'', ''other''], exp = 2000, nbf = Some 900, iat = Some 1030,
          azp = Some ''app'', nonce = ''n0'', claims_account_id = None, namespaced_auth = Some (Some ''acct-1'')\<rparr>
        else None),
      rsa_verify = (\<lambda>n e m s. s = n @ e @ m), hmac_sign = (@), hmac_check = (\<lambda>k m tag. tag = k @ m)\<rparr>"

definition toy_oidc :: oidc_verifier where
  "toy_oidc = \<lparr>issuer = ''https://issuer'', oidc_audience = ''app'',
     jwks = [\<lparr>kty = ''RSA'', jwk_kid = ''k1'', usage = Some ''sig'', jwk_alg = None, jwk_n = ''N'', jwk_e = ''E''\<rparr>]\<rparr>"

definition dotless_crypto :: jwt_crypto where
  "dotless_crypto = toy_jwt_crypto\<lparr>rsa_verify := (\<lambda>n e m s. s = n @ e @ filter (\<lambda>b. b \<noteq> CHR ''.'') m)\<rparr>"

theorem oidc_accepts_only_valid_witness:
  "\<exists>p. signed_by_issuer dotless_crypto toy_oidc ''h.p.NEhp'' p"
proof -
  have "hmac_contract dotless_crypto"
    by (auto simp: hmac_contract_def dotless_crypto_def toy_jwt_crypto_def)
  moreover have "oidc_verify dotless_crypto toy_oidc ''h.p.NEhp'' ''n0'' 1000 = Ok (ChatGptAccountId ''acct-1'')"
    by code_simp
  ultimately show ?thesis using oidc_accepts_only_valid by blast
qed

theorem oidc_claims_after_signature_witness:
  "\<exists>e. oidc_verify (dotless_crypto\<lparr>claims_from_slice := \<lambda>_. None\<rparr>) toy_oidc ''h.p.forged'' ''n0'' 1000 = Err e"
proof -
  have "verify_signature dotless_crypto toy_oidc ''h.p.forged'' = Err (Jwt ''JWT signature verification failed'')"
    by code_simp
  then have "\<not> signed_by_issuer dotless_crypto toy_oidc ''h.p.forged'' p" for p
    using verify_signature_iff [of dotless_crypto toy_oidc "''h.p.forged''" p] by simp
  from oidc_claims_after_signature [OF this, of "\<lambda>_. None" "''n0''" 1000] show ?thesis by blast
qed

end
