(* ===== verification/Strict_Schema.thy ===== *)
theory Strict_Schema
  imports Json_Value Utf8
begin

text \<open>
  Strict JSON-Schema normalization, \<^verbatim>\<open>crates/openai-rs-types/src/structured.rs\<close>.

  \<^verbatim>\<open>normalize\<close> and \<^verbatim>\<open>normalize_object\<close> mutate a JSON value in place and charge a node budget;
  here they return the new value and the nodes spent, or the error.  Their recursion is not structural
  (a reference is replaced by its target), so they take fuel; \<open>None\<close> is running out of it.  The
  rendering of a JSON value as text (used in one error message) is the parameter \<open>render\<close>.
\<close>

definition MAX_REF_INLINE_NODES :: nat where "MAX_REF_INLINE_NODES = 100000"
definition MAX_RESPONSE_FORMAT_NAME_CHARS :: nat where "MAX_RESPONSE_FORMAT_NAME_CHARS = 64"
definition MAX_FUNCTION_TOOL_NAME_CHARS :: nat where "MAX_FUNCTION_TOOL_NAME_CHARS = 128"
definition MAX_CHAT_FUNCTION_TOOL_NAME_CHARS :: nat where "MAX_CHAT_FUNCTION_TOOL_NAME_CHARS = 64"

datatype structured_error =
    InvalidName bytes
  | UnsupportedKeyword bytes bytes
  | ExternalReference bytes bytes
  | UnresolvableRef bytes bytes
  | RecursiveReference bytes bytes
  | ExpansionBudgetExceeded bytes nat
  | RootMustBeObject
  | SchemaEncode bytes
  | SchemaDecode bytes

section \<open>Names\<close>

definition validate_name :: "bytes \<Rightarrow> nat \<Rightarrow> (structured_error, unit) result" where
  "validate_name name max_chars =
     (if name \<noteq> [] \<and> char_count name \<le> max_chars
         \<and> list_all (\<lambda>b. is_ascii_alphanumeric b \<or> b = CHR ''_'' \<or> b = CHR ''-'') name
      then Ok () else Err (InvalidName name))"

definition validate_function_tool_name :: "bytes \<Rightarrow> (structured_error, unit) result" where
  "validate_function_tool_name name = validate_name name MAX_FUNCTION_TOOL_NAME_CHARS"

definition validate_chat_function_tool_name :: "bytes \<Rightarrow> (structured_error, unit) result" where
  "validate_chat_function_tool_name name = validate_name name MAX_CHAT_FUNCTION_TOOL_NAME_CHARS"

definition validate_response_format_name :: "bytes \<Rightarrow> (structured_error, unit) result" where
  "validate_response_format_name name = validate_name name MAX_RESPONSE_FORMAT_NAME_CHARS"

section \<open>JSON pointers\<close>

text \<open>Replacing \<^verbatim>\<open>~\<close> and then \<^verbatim>\<open>/\<close>: the first replacement introduces no slash.\<close>

definition escape_pointer :: "bytes \<Rightarrow> bytes" where
  "escape_pointer s =
     concat (map (\<lambda>b. if b = CHR ''/'' then ''~1'' else [b])
       (concat (map (\<lambda>b. if b = CHR ''~'' then ''~0'' else [b]) s)))"

fun unescape_pointer :: "bytes \<Rightarrow> bytes option" where
  "unescape_pointer [] = Some []"
| "unescape_pointer (b # bs) =
     (if b = CHR ''~'' then
        (case bs of
           c # cs \<Rightarrow>
             if c = CHR ''0'' then map_option ((#) (CHR ''~'')) (unescape_pointer cs)
             else if c = CHR ''1'' then map_option ((#) (CHR ''/'')) (unescape_pointer cs)
             else None
         | [] \<Rightarrow> None)
      else map_option ((#) b) (unescape_pointer bs))"

fun follow_pointer :: "bytes list \<Rightarrow> json \<Rightarrow> json option" where
  "follow_pointer [] v = Some v"
| "follow_pointer (s # ss) v =
     Option.bind (as_object v) (\<lambda>m. Option.bind (unescape_pointer s) (\<lambda>k.
       Option.bind (map_of m k) (follow_pointer ss)))"

definition resolve_ref :: "json \<Rightarrow> bytes \<Rightarrow> json option" where
  "resolve_ref base reference =
     (if reference = ''#'' then Some base
      else Option.bind (strip_prefix ''#/'' reference) (\<lambda>pointer.
        follow_pointer (split_on (CHR ''/'') pointer) base))"

section \<open>References of a document\<close>

text \<open>Every string under a \<^verbatim>\<open>$ref\<close> key; a reference met while following aliases is one of these.\<close>

fun ref_strings :: "json \<Rightarrow> bytes set" where
  "ref_strings (JObject m) =
     {r. map_of m ''$ref'' = Some (JString r)} \<union> (\<Union>(k, c) \<in> set m. ref_strings c)"
| "ref_strings (JArray xs) = (\<Union>x \<in> set xs. ref_strings x)"
| "ref_strings JNull = {}"
| "ref_strings (JBool b) = {}"
| "ref_strings (JNumber n) = {}"
| "ref_strings (JString s) = {}"

lemma finite_ref_strings [simp]: "finite (ref_strings v)"
proof (induction v rule: ref_strings.induct)
  case (1 m)
  have "finite {r. map_of m ''$ref'' = Some (JString r)}"
    by (rule finite_subset [of _ "case map_of m ''$ref'' of Some (JString r) \<Rightarrow> {r} | _ \<Rightarrow> {}"])
      (auto split: option.splits json.splits)
  with 1 show ?case by auto
qed auto

lemma follow_pointer_refs: "follow_pointer ss v = Some w \<Longrightarrow> ref_strings w \<subseteq> ref_strings v"
proof (induction ss arbitrary: v)
  case (Cons s ss)
  then obtain m k c where m: "v = JObject m" "map_of m k = Some c" "follow_pointer ss c = Some w"
    by (cases v) (auto simp: bind_eq_Some_conv)
  from Cons.IH [OF m(3)] map_of_SomeD [OF m(2)] m(1) show ?case by fastforce
qed simp

lemma resolve_ref_refs: "resolve_ref base r = Some w \<Longrightarrow> ref_strings w \<subseteq> ref_strings base"
  by (auto simp: resolve_ref_def bind_eq_Some_conv split: if_splits dest: follow_pointer_refs)

text \<open>The loop of \<^verbatim>\<open>validate_alias_chain\<close>; each round adds a new reference of the document to
  \<open>seen\<close>.\<close>

function alias_loop ::
    "(json \<Rightarrow> bytes) \<Rightarrow> json \<Rightarrow> bytes \<Rightarrow> bytes set \<Rightarrow> bytes \<Rightarrow> (structured_error, unit) result" where
  "alias_loop render base path seen current =
     (if current \<in> seen then Err (RecursiveReference (path @ ''/$ref'') current)
      else if current \<noteq> ''#'' \<and> \<not> prefix ''#/'' current
      then Err (ExternalReference (path @ ''/$ref'') current)
      else case Option.bind (resolve_ref base current) as_object of
        None \<Rightarrow> Err (UnresolvableRef (path @ ''/$ref'') current)
      | Some object \<Rightarrow>
          (case map_of object ''$ref'' of
             None \<Rightarrow> Ok ()
           | Some (JString n) \<Rightarrow> alias_loop render base path (insert current seen) n
           | Some other \<Rightarrow> Err (UnresolvableRef (path @ ''/$ref'') (render other))))"
  by pat_completeness auto
termination
proof (relation "measure (\<lambda>(render, base, path, seen, current).
    card (insert current (ref_strings base) - seen))")
  fix render :: "json \<Rightarrow> bytes" and base path seen current object j n
  assume new: "current \<notin> seen"
    and res: "Option.bind (resolve_ref base current) as_object = Some object"
    and nx: "map_of object ''$ref'' = Some j" "j = JString n"
  from res obtain w where "resolve_ref base current = Some w" "as_object w = Some object"
    by (auto simp: bind_eq_Some_conv)
  moreover from this(2) have "w = JObject object" by (cases w) auto
  ultimately have "n \<in> ref_strings base" using resolve_ref_refs nx by fastforce
  then have "insert n (ref_strings base) - insert current seen \<subset> insert current (ref_strings base) - seen"
    using new by auto
  then show "((render, base, path, insert current seen, n), (render, base, path, seen, current))
      \<in> measure (\<lambda>(render, base, path, seen, current). card (insert current (ref_strings base) - seen))"
    by (simp add: psubset_card_mono)
qed simp

declare alias_loop.simps [simp del]

definition validate_alias_chain ::
    "(json \<Rightarrow> bytes) \<Rightarrow> json \<Rightarrow> bytes \<Rightarrow> bytes \<Rightarrow> (structured_error, unit) result" where
  "validate_alias_chain render base reference path = alias_loop render base path {} reference"

section \<open>Shapes\<close>

fun count_nodes :: "json \<Rightarrow> nat" where
  "count_nodes (JObject m) = 1 + sum_list (map (\<lambda>(k, v). count_nodes v) m)"
| "count_nodes (JArray xs) = 1 + sum_list (map count_nodes xs)"
| "count_nodes v = 1"

definition is_string :: "bytes \<Rightarrow> json \<Rightarrow> bool" where "is_string s v \<longleftrightarrow> v = JString s"

definition schema_is_object :: "json_map \<Rightarrow> bool" where
  "schema_is_object m \<longleftrightarrow>
     contains_key m ''properties''
     \<or> (case map_of m ''type'' of
          Some (JString kind) \<Rightarrow> kind = ''object''
        | Some (JArray kinds) \<Rightarrow> list_ex (is_string ''object'') kinds
        | _ \<Rightarrow> False)"

lemma size_object_entry: "(k, c) \<in> set m \<Longrightarrow> size c < size (JObject m)"
  by (induction m) auto

lemma size_array_entry: "c \<in> set xs \<Longrightarrow> size c < size (JArray xs)"
  by (induction xs) auto

function schema_allows_null :: "json \<Rightarrow> bool" where
  "schema_allows_null v =
     (case v of
        JObject m \<Rightarrow>
          (case map_of m ''type'' of Some (JString kind) \<Rightarrow> kind = ''null''
           | Some (JArray kinds) \<Rightarrow> list_ex (is_string ''null'') kinds | _ \<Rightarrow> False)
          \<or> (case (case map_of m ''anyOf'' of None \<Rightarrow> map_of m ''oneOf'' | Some x \<Rightarrow> Some x) of
               Some (JArray variants) \<Rightarrow> list_ex schema_allows_null variants | _ \<Rightarrow> False)
      | _ \<Rightarrow> v = JBool True)"
  by pat_completeness auto
termination
proof (relation "measure size")
  fix v m x y variants z
  assume "v = JObject m"
    "(case map_of m ''anyOf'' of None \<Rightarrow> map_of m ''oneOf'' | Some x \<Rightarrow> Some x) = Some y"
    "y = JArray variants" "z \<in> set variants"
  then obtain k where "(k, JArray variants) \<in> set m" by (auto split: option.splits dest: map_of_SomeD)
  with \<open>v = _\<close> \<open>z \<in> _\<close> size_object_entry size_array_entry show "(z, v) \<in> measure size"
    by (metis in_measure less_trans)
qed simp

declare schema_allows_null.simps [simp del]

definition null_schema :: json where "null_schema = JObject [(''type'', JString ''null'')]"

definition make_nullable :: "json \<Rightarrow> json" where
  "make_nullable schema =
     (if schema_allows_null schema then schema
      else JObject [(''anyOf'', JArray [schema, null_schema])])"

section \<open>Normalization\<close>

definition unsupported_keywords :: "bytes list" where
  "unsupported_keywords =
     [''additionalItems'', ''allOf'', ''contains'', ''dependentRequired'', ''dependentSchemas'', ''else'',
      ''if'', ''maxContains'', ''maxProperties'', ''minContains'', ''minProperties'', ''not'', ''oneOf'',
      ''patternProperties'', ''prefixItems'', ''propertyNames'', ''then'', ''unevaluatedItems'',
      ''unevaluatedProperties'', ''uniqueItems'']"

fun check_keywords :: "bytes \<Rightarrow> json_map \<Rightarrow> bytes list \<Rightarrow> (structured_error, unit) result" where
  "check_keywords path m [] = Ok ()"
| "check_keywords path m (k # ks) =
     (if contains_key m k then Err (UnsupportedKeyword (path @ ''/'' @ escape_pointer k) k)
      else check_keywords path m ks)"

definition charge :: "nat \<Rightarrow> nat \<Rightarrow> bool \<times> nat" where
  "charge nodes spent =
     (let spent' = saturating_add spent nodes in (spent' \<le> MAX_REF_INLINE_NODES, spent'))"

text \<open>One step of the walk: the new value and the nodes spent so far; \<open>None\<close> is out of fuel.\<close>

type_synonym 'a walk = "(structured_error, 'a \<times> nat) result option"

definition walk_bind :: "'a walk \<Rightarrow> ('a \<Rightarrow> nat \<Rightarrow> 'b walk) \<Rightarrow> 'b walk" where
  "walk_bind x f = (case x of None \<Rightarrow> None | Some (Err e) \<Rightarrow> Some (Err e) | Some (Ok (a, s)) \<Rightarrow> f a s)"

text \<open>A \<^verbatim>\<open>for\<close> loop that normalizes every schema of a sequence at its own path.\<close>

fun walk_all :: "(bytes \<Rightarrow> json \<Rightarrow> nat \<Rightarrow> json walk) \<Rightarrow> (bytes \<times> json) list \<Rightarrow> nat \<Rightarrow> json list walk" where
  "walk_all f [] spent = Some (Ok ([], spent))"
| "walk_all f ((p, v) # rest) spent =
     walk_bind (f p v spent) (\<lambda>v' spent. walk_bind (walk_all f rest spent) (\<lambda>vs spent.
       Some (Ok (v' # vs, spent))))"

definition merge_siblings :: "json_map \<Rightarrow> json_map \<Rightarrow> json_map" where
  "merge_siblings resolved object =
     fold (\<lambda>(key, sibling) m. if key \<noteq> ''$ref'' then obj_insert key sibling m else m) object resolved"

definition required_names :: "json_map \<Rightarrow> bytes set" where
  "required_names m =
     (case map_of m ''required'' of Some (JArray xs) \<Rightarrow> set (List.map_filter as_str xs) | _ \<Rightarrow> {})"

text \<open>\<^verbatim>\<open>normalize_object\<close>, with the recursive call as the parameter \<open>f\<close>.\<close>

definition normalize_object ::
    "(bytes \<Rightarrow> json \<Rightarrow> nat \<Rightarrow> json walk) \<Rightarrow> bytes \<Rightarrow> json_map \<Rightarrow> nat \<Rightarrow> json_map walk" where
  "normalize_object f path m spent =
     (case (case map_of m ''additionalProperties'' of
              None \<Rightarrow> Ok (obj_insert ''additionalProperties'' (JBool False) m)
            | Some v \<Rightarrow>
                if v = JBool False then Ok m
                else Err (UnsupportedKeyword (path @ ''/additionalProperties'') ''additionalProperties'')) of
        Err e \<Rightarrow> Some (Err e)
      | Ok m1 \<Rightarrow>
          let previous_required = required_names m1
          in case map_of m1 ''properties'' of
               Some (JObject properties) \<Rightarrow>
                 walk_bind (walk_all f
                     (map (\<lambda>(name, property).
                        (path @ ''/properties/'' @ escape_pointer name,
                         if name \<notin> previous_required then make_nullable property else property)) properties) spent)
                   (\<lambda>vs spent.
                     Some (Ok (obj_insert ''required'' (JArray (map (\<lambda>(name, _). JString name) properties))
                                 (obj_insert ''properties'' (JObject (zip (map fst properties) vs)) m1), spent)))
             | _ \<Rightarrow> Some (Ok (obj_insert ''required'' (JArray []) m1, spent)))"

text \<open>One entry of the keyword loop at the end of \<^verbatim>\<open>normalize\<close>.\<close>

definition normalize_entry ::
    "(bytes \<Rightarrow> json \<Rightarrow> nat \<Rightarrow> json walk) \<Rightarrow> bytes \<Rightarrow> bytes \<Rightarrow> json \<Rightarrow> nat \<Rightarrow> json walk" where
  "normalize_entry f path key child spent =
     (if key = ''$defs'' \<or> key = ''definitions'' then
        (case child of
           JObject children \<Rightarrow>
             walk_bind (walk_all f
                 (map (\<lambda>(name, schema).
                    (path @ ''/'' @ escape_pointer key @ ''/'' @ escape_pointer name, schema)) children) spent)
               (\<lambda>vs spent. Some (Ok (JObject (zip (map fst children) vs), spent)))
         | _ \<Rightarrow> Some (Err (UnsupportedKeyword (path @ ''/'' @ escape_pointer key) key)))
      else if key = ''anyOf'' then
        (case child of
           JArray children \<Rightarrow>
             walk_bind (walk_all f
                 (map (\<lambda>(index, schema). (path @ ''/'' @ key @ ''/'' @ nat_to_string index, schema))
                   (enumerate 0 children)) spent)
               (\<lambda>vs spent. Some (Ok (JArray vs, spent)))
         | _ \<Rightarrow> Some (Err (UnsupportedKeyword (path @ ''/'' @ key) key)))
      else if key = ''items'' then
        (case child of
           JObject _ \<Rightarrow> f (path @ ''/'' @ key) child spent
         | JBool _ \<Rightarrow> f (path @ ''/'' @ key) child spent
         | _ \<Rightarrow> Some (Err (UnsupportedKeyword (path @ ''/'' @ key) key)))
      else Some (Ok (child, spent)))"

fun normalize_entries ::
    "(bytes \<Rightarrow> json \<Rightarrow> nat \<Rightarrow> json walk) \<Rightarrow> bytes \<Rightarrow> json_map \<Rightarrow> nat \<Rightarrow> json_map walk" where
  "normalize_entries f path [] spent = Some (Ok ([], spent))"
| "normalize_entries f path ((key, child) # m) spent =
     walk_bind (normalize_entry f path key child spent) (\<lambda>child' spent.
       walk_bind (normalize_entries f path m spent) (\<lambda>m' spent. Some (Ok ((key, child') # m', spent))))"

fun normalize ::
    "nat \<Rightarrow> (json \<Rightarrow> bytes) \<Rightarrow> json \<Rightarrow> bytes list \<Rightarrow> bytes \<Rightarrow> json \<Rightarrow> nat \<Rightarrow> json walk" where
  "normalize 0 render base chain path v spent = None"
| "normalize (Suc fuel) render base chain path v spent =
     (case as_object v of
        None \<Rightarrow> Some (Ok (v, spent))
      | Some object \<Rightarrow>
          (case check_keywords path object unsupported_keywords of
             Err e \<Rightarrow> Some (Err e)
           | Ok _ \<Rightarrow>
               (case map_of object ''$ref'' of
                  None \<Rightarrow>
                    walk_bind (if schema_is_object object
                               then normalize_object (normalize fuel render base chain) path object spent
                               else Some (Ok (object, spent)))
                      (\<lambda>object spent.
                        walk_bind (normalize_entries (normalize fuel render base chain) path object spent)
                          (\<lambda>object spent. Some (Ok (JObject object, spent))))
                | Some (JString reference) \<Rightarrow>
                    if reference \<noteq> ''#'' \<and> \<not> prefix ''#/'' reference
                    then Some (Err (ExternalReference (path @ ''/$ref'') reference))
                    else (case Option.bind (resolve_ref base reference) as_object of
                       None \<Rightarrow> Some (Err (UnresolvableRef (path @ ''/$ref'') reference))
                     | Some resolved \<Rightarrow>
                         (case validate_alias_chain render base reference path of
                            Err e \<Rightarrow> Some (Err e)
                          | Ok _ \<Rightarrow>
                              if length object = 1 then Some (Ok (v, spent))
                              else if reference \<in> set chain then
                                (if contains_key object ''anyOf''
                                 then Some (Err (UnsupportedKeyword (path @ ''/anyOf'') ''anyOf beside a recursive $ref''))
                                 else normalize fuel render base chain path
                                        (JObject (obj_insert ''anyOf''
                                           (JArray [JObject [(''$ref'', JString reference)]])
                                           (obj_remove ''$ref'' object))) spent)
                              else
                                let merged = JObject (merge_siblings resolved object);
                                    (within, spent') = charge (count_nodes merged) spent
                                in if \<not> within
                                   then Some (Err (ExpansionBudgetExceeded (path @ ''/$ref'') MAX_REF_INLINE_NODES))
                                   else normalize fuel render base (chain @ [reference]) path merged spent'))
                | Some other \<Rightarrow> Some (Err (UnresolvableRef (path @ ''/$ref'') (render other))))))"

definition normalize_strict_schema ::
    "nat \<Rightarrow> (json \<Rightarrow> bytes) \<Rightarrow> json \<Rightarrow> (structured_error, json) result option" where
  "normalize_strict_schema fuel render schema =
     (let base = (case schema of JObject m \<Rightarrow> JObject (obj_remove ''$schema'' m) | _ \<Rightarrow> schema)
      in case normalize fuel render base [] ''#'' base 0 of
           None \<Rightarrow> None
         | Some (Err e) \<Rightarrow> Some (Err e)
         | Some (Ok (v, _)) \<Rightarrow>
             (case as_object v of
                Some m \<Rightarrow> if schema_is_object m then Some (Ok v) else Some (Err RootMustBeObject)
              | None \<Rightarrow> Some (Err RootMustBeObject)))"

end
