(* ===== verification/Strict_Schema_Correctness.thy ===== *)
theory Strict_Schema_Correctness
  imports Strict_Schema
begin

text \<open>
  What normalization guarantees: an accepted schema is strict at every level that the service looks at,
  pointers round-trip, and the walk ends.
\<close>

section \<open>Strict schemas\<close>

definition strict_object :: "json_map \<Rightarrow> bool" where
  "strict_object m \<longleftrightarrow>
     map_of m ''additionalProperties'' = Some (JBool False)
     \<and> map_of m ''required'' = Some (JArray (case map_of m ''properties'' of
          Some (JObject ps) \<Rightarrow> map (\<lambda>(n, _). JString n) ps | _ \<Rightarrow> []))"

definition local_ref :: "json \<Rightarrow> bool" where
  "local_ref j = (case j of JString r \<Rightarrow> r = ''#'' \<or> prefix ''#/'' r | _ \<Rightarrow> False)"

text \<open>The schemas below an entry of an object schema: definitions, alternatives, items and properties.\<close>

definition entry_children :: "bytes \<Rightarrow> json \<Rightarrow> json list" where
  "entry_children k c =
     (if k = ''$defs'' \<or> k = ''definitions'' \<or> k = ''properties'' then
        (case c of JObject cs \<Rightarrow> map snd cs | _ \<Rightarrow> [])
      else if k = ''anyOf'' then (case c of JArray cs \<Rightarrow> cs | _ \<Rightarrow> [])
      else if k = ''items'' then [c] else [])"

definition entry_shape :: "bytes \<Rightarrow> json \<Rightarrow> bool" where
  "entry_shape k c =
     (if k = ''$defs'' \<or> k = ''definitions'' then as_object c \<noteq> None
      else if k = ''anyOf'' then as_array c \<noteq> None
      else if k = ''items'' then as_object c \<noteq> None \<or> as_bool c \<noteq> None else True)"

lemma entry_children_size: "x \<in> set (entry_children k c) \<Longrightarrow> size x \<le> size c"
  by (auto simp: entry_children_def split: if_splits json.splits dest!: size_object_entry size_array_entry)

function strict_schema :: "json \<Rightarrow> bool" where
  "strict_schema v =
     (case v of
        JObject m \<Rightarrow>
          list_all (\<lambda>k. \<not> contains_key m k) unsupported_keywords
          \<and> (case map_of m ''$ref'' of
               Some r \<Rightarrow> length m = 1 \<and> local_ref r
             | None \<Rightarrow>
                 (schema_is_object m \<longrightarrow> strict_object m)
                 \<and> list_all (\<lambda>(k, c). entry_shape k c \<and> list_all strict_schema (entry_children k c)) m)
      | _ \<Rightarrow> True)"
  by pat_completeness auto
termination
proof (relation "measure size")
  fix v m k c x z
  assume "v = JObject m" "z \<in> set m" "(k, c) = z" "x \<in> set (entry_children k c)"
  with entry_children_size [of x k c] size_object_entry [of k c m] show "(x, v) \<in> measure size" by simp
qed simp

declare strict_schema.simps [simp del]

function json_wf :: "json \<Rightarrow> bool" where
  "json_wf v =
     (case v of
        JObject m \<Rightarrow> obj_wf m \<and> list_all (\<lambda>(k, c). json_wf c) m
      | JArray xs \<Rightarrow> list_all json_wf xs
      | _ \<Rightarrow> True)"
  by pat_completeness auto
termination
  by (relation "measure size") (auto dest: size_object_entry size_array_entry simp: less_Suc_eq_le)

declare json_wf.simps [simp del]

lemma json_wf_simps [simp]:
  "json_wf (JObject m) \<longleftrightarrow> obj_wf m \<and> (\<forall>k c. (k, c) \<in> set m \<longrightarrow> json_wf c)"
  "json_wf (JArray xs) \<longleftrightarrow> (\<forall>x \<in> set xs. json_wf x)"
  "json_wf JNull" "json_wf (JBool b)" "json_wf (JNumber n)" "json_wf (JString s)"
  by (subst json_wf.simps; auto simp: list_all_iff)+

lemma json_wf_map_of: "json_wf (JObject m) \<Longrightarrow> map_of m k = Some c \<Longrightarrow> json_wf c"
  by (auto dest: map_of_SomeD)

lemma json_wf_obj_insert:
  assumes "json_wf (JObject m)" and "json_wf v"
  shows "json_wf (JObject (obj_insert k v m))"
proof -
  have "set (obj_insert k v m) \<subseteq> insert (k, v) (set m)" by (induction k v m rule: obj_insert.induct) auto
  with assms obj_insert_wf [of m k v] show ?thesis by auto
qed

lemma json_wf_obj_remove: "json_wf (JObject m) \<Longrightarrow> json_wf (JObject (obj_remove k m))"
  using obj_remove_set [of m k] by (auto simp: obj_remove_wf)

lemma json_wf_make_nullable: "json_wf v \<Longrightarrow> json_wf (make_nullable v)"
  by (auto simp: make_nullable_def null_schema_def obj_wf_def)

lemma json_wf_merge: "json_wf (JObject r) \<Longrightarrow> json_wf (JObject m) \<Longrightarrow> json_wf (JObject (merge_siblings r m))"
proof -
  have "json_wf (JObject (fold (\<lambda>(key, sibling) m. if key \<noteq> ''$ref'' then obj_insert key sibling m else m) m r))"
    if "\<forall>k c. (k, c) \<in> set m \<longrightarrow> json_wf c" "json_wf (JObject r)" for m
    using that
  proof (induction m arbitrary: r)
    case (Cons kc m)
    obtain k c where kc: "kc = (k, c)" by (cases kc)
    with Cons.prems have "json_wf (JObject (if k \<noteq> ''$ref'' then obj_insert k c r else r))"
      using json_wf_obj_insert [of r c k] by auto
    moreover have "\<forall>k c. (k, c) \<in> set m \<longrightarrow> json_wf c" using Cons.prems(1) by auto
    ultimately show ?case using Cons.IH kc by (simp del: json_wf_simps)
  qed simp
  then show "json_wf (JObject r) \<Longrightarrow> json_wf (JObject m) \<Longrightarrow> json_wf (JObject (merge_siblings r m))"
    unfolding merge_siblings_def by (meson json_wf_simps(1))
qed

lemma json_wf_follow: "follow_pointer ss v = Some w \<Longrightarrow> json_wf v \<Longrightarrow> json_wf w"
proof (induction ss arbitrary: v)
  case (Cons s ss)
  then show ?case by (cases v) (auto simp: bind_eq_Some_conv dest: map_of_SomeD)
qed simp

lemma json_wf_resolve:
  assumes "Option.bind (resolve_ref base r) as_object = Some m" and "json_wf base"
  shows "json_wf (JObject m)"
proof -
  from assms(1) obtain w where w: "resolve_ref base r = Some w" "as_object w = Some m"
    by (auto simp: bind_eq_Some_conv)
  then have "w = JObject m" by (cases w) auto
  with w(1) assms(2) show ?thesis
    by (auto simp: resolve_ref_def bind_eq_Some_conv simp del: json_wf_simps split: if_splits dest: json_wf_follow)
qed

section \<open>The loops\<close>

lemma walk_bind_Ok:
  "walk_bind x f = Some (Ok (b, t)) \<longleftrightarrow> (\<exists>a s. x = Some (Ok (a, s)) \<and> f a s = Some (Ok (b, t)))"
  by (auto simp: walk_bind_def split: option.split sum.split)

lemma walk_all_Ok:
  "walk_all f xs s = Some (Ok (vs, t)) \<Longrightarrow>
     list_all2 (\<lambda>(p, v) v'. \<exists>s s'. f p v s = Some (Ok (v', s'))) xs vs"
  by (induction f xs s arbitrary: vs t rule: walk_all.induct) (auto simp: walk_bind_Ok)

lemma normalize_entries_Ok:
  "normalize_entries f path m s = Some (Ok (m', t)) \<Longrightarrow>
     list_all2 (\<lambda>(k, c) (k', c'). k' = k \<and> (\<exists>s s'. normalize_entry f path k c s = Some (Ok (c', s')))) m m'"
  by (induction f path m s arbitrary: m' t rule: normalize_entries.induct) (auto simp: walk_bind_Ok)

definition good_walk :: "(bytes \<Rightarrow> json \<Rightarrow> nat \<Rightarrow> json walk) \<Rightarrow> bool" where
  "good_walk f \<longleftrightarrow> (\<forall>p v s v' s'. json_wf v \<longrightarrow> f p v s = Some (Ok (v', s')) \<longrightarrow>
     strict_schema v' \<and> (if as_object v = None then v' = v else as_object v' \<noteq> None))"

lemma good_walkD:
  "good_walk f \<Longrightarrow> json_wf v \<Longrightarrow> f p v s = Some (Ok (v', s')) \<Longrightarrow>
     strict_schema v' \<and> (if as_object v = None then v' = v else as_object v' \<noteq> None)"
  unfolding good_walk_def by blast

lemma walk_all_strict:
  assumes "good_walk f" and "walk_all f xs s = Some (Ok (vs, t))" and "\<forall>x \<in> set xs. json_wf (snd x)"
  shows "list_all strict_schema vs \<and> length vs = length xs"
  using walk_all_Ok [OF assms(2)] assms(3)
proof (induction rule: list_all2_induct)
  case (Cons x xs y ys)
  obtain p v where "x = (p, v)" by (cases x)
  with Cons good_walkD [OF assms(1), of v p] show ?case by auto
qed simp

definition special_keys :: "bytes set" where
  "special_keys = {''$defs'', ''definitions'', ''anyOf'', ''items''}"

lemma normalize_entry_other: "k \<notin> special_keys \<Longrightarrow> normalize_entry f path k c s = Some (Ok (c, s))"
  by (simp add: normalize_entry_def special_keys_def)

lemma map_snd_zip_fst [simp]: "length vs = length cs \<Longrightarrow> map snd (zip (map fst cs) vs) = vs"
  by simp

lemma normalize_entry_strict:
  assumes "good_walk f" and "json_wf c" and "k \<in> special_keys"
    and "normalize_entry f path k c s = Some (Ok (c', s'))"
  shows "entry_shape k c' \<and> list_all strict_schema (entry_children k c')"
proof -
  have k: "k = ''$defs'' \<or> k = ''definitions'' \<or> k = ''anyOf'' \<or> k = ''items''"
    using assms(3) by (auto simp: special_keys_def)
  then consider (defs) "k = ''$defs'' \<or> k = ''definitions''" | (any) "k = ''anyOf''" | (items) "k = ''items''"
    by blast
  then show ?thesis
  proof cases
    case defs
    then obtain cs vs s1 where c: "c = JObject cs" "c' = JObject (zip (map fst cs) vs)"
      and w: "walk_all f (map (\<lambda>(name, schema).
          (path @ ''/'' @ escape_pointer k @ ''/'' @ escape_pointer name, schema)) cs) s = Some (Ok (vs, s1))"
      using assms(4) by (auto simp: normalize_entry_def walk_bind_Ok split: json.splits)
    have "\<forall>x \<in> set (map (\<lambda>(name, schema).
        (path @ ''/'' @ escape_pointer k @ ''/'' @ escape_pointer name, schema)) cs). json_wf (snd x)"
      using assms(2) c(1) by auto
    from walk_all_strict [OF assms(1) w this] c defs show ?thesis by (auto simp: entry_shape_def entry_children_def)
  next
    case any
    then obtain cs vs s1 where c: "c = JArray cs" "c' = JArray vs"
      and w: "walk_all f (map (\<lambda>(index, schema). (path @ ''/'' @ k @ ''/'' @ nat_to_string index, schema))
          (enumerate 0 cs)) s = Some (Ok (vs, s1))"
      using assms(4) by (auto simp: normalize_entry_def walk_bind_Ok split: json.splits)
    have "\<forall>x \<in> set (map (\<lambda>(index, schema). (path @ ''/'' @ k @ ''/'' @ nat_to_string index, schema))
        (enumerate 0 cs)). json_wf (snd x)"
      using assms(2) c(1) by (auto simp: in_set_enumerate_eq)
    from walk_all_strict [OF assms(1) w this] c any show ?thesis by (auto simp: entry_shape_def entry_children_def)
  next
    case items
    then have f: "f (path @ ''/'' @ k) c s = Some (Ok (c', s'))" and sh: "as_object c \<noteq> None \<or> as_bool c \<noteq> None"
      using assms(4) by (auto simp: normalize_entry_def split: json.splits)
    from good_walkD [OF assms(1,2) f] sh items show ?thesis
      by (auto simp: entry_shape_def entry_children_def split: if_splits)
  qed
qed

section \<open>Objects\<close>

lemma list_all2_keys:
  "list_all2 (\<lambda>(k, c) (k', c'). k' = k \<and> P k c c') m m' \<Longrightarrow> map fst m' = map fst m"
  by (induction rule: list_all2_induct) auto

lemma normalize_entries_map_of:
  assumes "normalize_entries f path m s = Some (Ok (m', t))" and "k \<notin> special_keys"
  shows "map_of m' k = map_of m k"
  using normalize_entries_Ok [OF assms(1)]
proof (induction rule: list_all2_induct)
  case (Cons x xs y ys)
  then show ?case
    using assms(2) by (cases x; cases y) (auto simp: normalize_entry_other)
qed simp

lemma normalize_entries_entry:
  assumes "normalize_entries f path m s = Some (Ok (m', t))" and "(k, c') \<in> set m'"
  shows "\<exists>c s s'. (k, c) \<in> set m \<and> normalize_entry f path k c s = Some (Ok (c', s'))"
  using normalize_entries_Ok [OF assms(1)] assms(2)
  by (induction rule: list_all2_induct) fastforce+

lemma contains_key_fst: "contains_key m k \<longleftrightarrow> k \<in> set (map fst m)"
  by (auto simp: contains_key_def map_of_eq_None_iff)

lemma check_keywords_Ok: "check_keywords p m ks = Ok u \<longleftrightarrow> list_all (\<lambda>k. \<not> contains_key m k) ks"
  by (induction ks) auto

lemma schema_is_object_cong:
  "map_of m ''type'' = map_of m' ''type'' \<Longrightarrow> contains_key m ''properties'' = contains_key m' ''properties''
     \<Longrightarrow> schema_is_object m = schema_is_object m'"
  by (simp add: schema_is_object_def)

text \<open>What \<^verbatim>\<open>normalize_object\<close> leaves behind.\<close>

lemma normalize_object_Ok:
  assumes "good_walk f" and "json_wf (JObject m)" and "normalize_object f path m s = Some (Ok (m', t))"
  shows "obj_wf m'"
    and "k \<notin> {''additionalProperties'', ''required'', ''properties''} \<Longrightarrow> map_of m' k = map_of m k"
    and "contains_key m' k \<Longrightarrow> contains_key m k \<or> k \<in> {''additionalProperties'', ''required''}"
    and "contains_key m' ''properties'' = contains_key m ''properties''"
    and "strict_object m'"
    and "map_of m' ''properties'' = Some c \<Longrightarrow> list_all strict_schema (entry_children ''properties'' c)"
proof -
  define m1 where "m1 = (if map_of m ''additionalProperties'' = None
    then obj_insert ''additionalProperties'' (JBool False) m else m)"
  have ap: "map_of m1 ''additionalProperties'' = Some (JBool False)"
    using assms(3) by (auto simp: normalize_object_def m1_def split: option.splits if_splits)
  have m1: "obj_wf m1" "k \<noteq> ''additionalProperties'' \<Longrightarrow> map_of m1 k = map_of m k" for k
    using assms(2) by (auto simp: m1_def obj_insert_wf)
  have ck: "contains_key m1 k \<Longrightarrow> contains_key m k \<or> k = ''additionalProperties''" for k
    by (auto simp: m1_def contains_key_def split: if_splits)
  obtain props where m': "m' = obj_insert ''required'' (JArray (case map_of m1 ''properties'' of
        Some (JObject ps) \<Rightarrow> map (\<lambda>(n, _). JString n) ps | _ \<Rightarrow> []))
      (case props of None \<Rightarrow> m1 | Some p \<Rightarrow> obj_insert ''properties'' (JObject p) m1)"
    and pr: "(case map_of m1 ''properties'' of
        Some (JObject ps) \<Rightarrow> \<exists>vs. props = Some (zip (map fst ps) vs) \<and> length vs = length ps \<and> list_all strict_schema vs
      | _ \<Rightarrow> props = None)"
  proof (cases "\<exists>ps. map_of m1 ''properties'' = Some (JObject ps)")
    case True
    then obtain ps where ps: "map_of m1 ''properties'' = Some (JObject ps)" by blast
    have wfp: "json_wf (JObject ps)"
      using ps m1(2) [of "''properties''"] json_wf_map_of [OF assms(2)] by (simp del: json_wf_simps)
    let ?xs = "map (\<lambda>(name, property). (path @ ''/properties/'' @ escape_pointer name,
        if name \<notin> required_names m1 then make_nullable property else property)) ps"
    from assms(3) ps obtain vs t1 where w: "walk_all f ?xs s = Some (Ok (vs, t1))"
      and m': "m' = obj_insert ''required'' (JArray (map (\<lambda>(name, _). JString name) ps))
          (obj_insert ''properties'' (JObject (zip (map fst ps) vs)) m1)"
      by (auto simp: normalize_object_def m1_def walk_bind_Ok Let_def split: option.splits if_splits)
    have "\<forall>x \<in> set ?xs. json_wf (snd x)"
      using wfp json_wf_make_nullable by fastforce
    from walk_all_strict [OF assms(1) w this] have "list_all strict_schema vs" "length vs = length ps" by auto
    with that [of "Some (zip (map fst ps) vs)"] m' ps show ?thesis by auto
  next
    case False
    then have "m' = obj_insert ''required'' (JArray []) m1"
      using assms(3)
      by (auto simp: normalize_object_def m1_def Let_def split: option.splits if_splits json.splits)
    with that [of None] False show ?thesis by (auto split: option.splits json.splits)
  qed
  have mo: "map_of m' k = (if k = ''required'' then Some (JArray (case map_of m1 ''properties'' of
        Some (JObject ps) \<Rightarrow> map (\<lambda>(n, _). JString n) ps | _ \<Rightarrow> []))
      else if k = ''properties'' then (case props of None \<Rightarrow> map_of m1 k | Some p \<Rightarrow> Some (JObject p))
      else map_of m1 k)" for k
    by (simp add: m' split: option.split)
  show "obj_wf m'" using m1(1) by (simp add: m' obj_insert_wf split: option.split)
  show "k \<notin> {''additionalProperties'', ''required'', ''properties''} \<Longrightarrow> map_of m' k = map_of m k"
    by (simp add: mo m1(2))
  show pk: "contains_key m' ''properties'' = contains_key m ''properties''"
    using pr m1(2) [of "''properties''"] by (auto simp: contains_key_def mo split: option.splits json.splits)
  show "contains_key m' k \<Longrightarrow> contains_key m k \<or> k \<in> {''additionalProperties'', ''required''}"
    using pk ck [of k] by (auto simp: contains_key_def mo split: if_splits)
  have "map_of m' ''required'' = Some (JArray (case map_of m' ''properties'' of
        Some (JObject ps) \<Rightarrow> map (\<lambda>(n, _). JString n) ps | _ \<Rightarrow> []))"
  proof (cases "\<exists>ps. map_of m1 ''properties'' = Some (JObject ps)")
    case True
    then obtain ps where ps: "map_of m1 ''properties'' = Some (JObject ps)" by blast
    with pr obtain vs where vs: "props = Some (zip (map fst ps) vs)" "length vs = length ps" by auto
    then have "map (\<lambda>(n, _). JString n) (zip (map fst ps) vs) = map (\<lambda>(n, _). JString n) ps"
      by (simp add: list_eq_iff_nth_eq split_def)
    with ps vs show ?thesis by (simp add: mo)
  next
    case False
    with pr have "props = None" by (auto split: option.splits json.splits)
    with False show ?thesis by (simp add: mo)
  qed
  with ap show "strict_object m'" by (simp add: strict_object_def mo)
  show "map_of m' ''properties'' = Some c \<Longrightarrow> list_all strict_schema (entry_children ''properties'' c)"
    using pr by (auto simp: mo entry_children_def split: option.splits json.splits if_splits)
qed

section \<open>Normalization gives strict schemas\<close>

lemma unsupported_fresh:
  "list_all (\<lambda>k. k \<notin> {''additionalProperties'', ''required'', ''$ref'', ''anyOf''}) unsupported_keywords"
  by (simp add: unsupported_keywords_def)

lemma normalize_schema_strict:
  assumes "good_walk f" and "json_wf (JObject m)" and "map_of m ''$ref'' = None"
    and "list_all (\<lambda>k. \<not> contains_key m k) unsupported_keywords"
    and "(if schema_is_object m then normalize_object f path m s else Some (Ok (m, s))) = Some (Ok (m1, s1))"
    and "normalize_entries f path m1 s1 = Some (Ok (m2, s2))"
  shows "strict_schema (JObject m2)"
proof -
  have all: "obj_wf m1 \<and> map_of m1 ''$ref'' = None \<and> map_of m1 ''type'' = map_of m ''type'' \<and>
      contains_key m1 ''properties'' = contains_key m ''properties'' \<and>
      (\<forall>k. k \<in> special_keys \<longrightarrow> map_of m1 k = map_of m k) \<and>
      (\<forall>k. contains_key m1 k \<longrightarrow> contains_key m k \<or> k \<in> {''additionalProperties'', ''required''}) \<and>
      (schema_is_object m \<longrightarrow> strict_object m1) \<and>
      (\<forall>c. map_of m1 ''properties'' = Some c \<longrightarrow> list_all strict_schema (entry_children ''properties'' c))"
  proof (cases "schema_is_object m")
    case True
    with assms(5) have no: "normalize_object f path m s = Some (Ok (m1, s1))" by simp
    note n = normalize_object_Ok [OF assms(1,2) no]
    show ?thesis
      using n(1) n(2) [of "''$ref''"] n(2) [of "''type''"] n(4,5) n(3) n(6) n(2) assms(3)
      by (auto simp: special_keys_def)
  next
    case False
    with assms(5) have "m1 = m" by simp
    with False assms(2,3) show ?thesis by (auto simp: schema_is_object_def contains_key_def)
  qed
  then have spec: "obj_wf m1" "map_of m1 ''$ref'' = None" "map_of m1 ''type'' = map_of m ''type''"
    "contains_key m1 ''properties'' = contains_key m ''properties''"
    "\<And>k. k \<in> special_keys \<Longrightarrow> map_of m1 k = map_of m k"
    "\<And>k. contains_key m1 k \<Longrightarrow> contains_key m k \<or> k \<in> {''additionalProperties'', ''required''}"
    and obj: "schema_is_object m \<Longrightarrow> strict_object m1"
    and props: "\<And>c. map_of m1 ''properties'' = Some c \<Longrightarrow> list_all strict_schema (entry_children ''properties'' c)"
    by blast+
  have keys: "map fst m2 = map fst m1" using normalize_entries_Ok [OF assms(6)] by (rule list_all2_keys)
  then have ck: "contains_key m2 k = contains_key m1 k" for k by (simp add: contains_key_fst)
  have mo: "map_of m2 k = map_of m1 k" if "k \<notin> special_keys" for k
    by (rule normalize_entries_map_of [OF assms(6) that])
  have unsup: "list_all (\<lambda>k. \<not> contains_key m2 k) unsupported_keywords"
    using assms(4) spec(6) unsupported_fresh by (auto simp: ck list_all_iff)
  have noref: "map_of m2 ''$ref'' = None" using mo [of "''$ref''"] spec(2) by (simp add: special_keys_def)
  have so: "schema_is_object m2 = schema_is_object m"
    using spec(3,4) mo [of "''type''"] ck [of "''properties''"]
    by (intro schema_is_object_cong) (simp_all add: special_keys_def)
  have strict: "schema_is_object m2 \<longrightarrow> strict_object m2"
    using obj so mo [of "''additionalProperties''"] mo [of "''required''"] mo [of "''properties''"]
    by (simp add: strict_object_def special_keys_def)
  have entry: "entry_shape k c' \<and> list_all strict_schema (entry_children k c')" if "(k, c') \<in> set m2" for k c'
  proof -
    from normalize_entries_entry [OF assms(6) that] obtain c u u' where
      c: "(k, c) \<in> set m1" "normalize_entry f path k c u = Some (Ok (c', u'))" by blast
    show ?thesis
    proof (cases "k \<in> special_keys")
      case True
      have "map_of m1 k = Some c" using map_of_set_wf [OF spec(1)] c(1) by simp
      then have "map_of m k = Some c" using spec(5) [OF True] by simp
      then have "json_wf c" by (rule json_wf_map_of [OF assms(2)])
      from normalize_entry_strict [OF assms(1) this True c(2)] show ?thesis .
    next
      case False
      with c(2) have "c' = c" by (simp add: normalize_entry_other)
      show ?thesis
      proof (cases "k = ''properties''")
        case True
        with c(1) spec(1) have "map_of m1 ''properties'' = Some c" by (simp add: map_of_set_wf)
        from props [OF this] True \<open>c' = c\<close> show ?thesis by (simp add: entry_shape_def)
      next
        case nf: False
        with False show ?thesis by (auto simp: entry_shape_def entry_children_def special_keys_def)
      qed
    qed
  qed
  show ?thesis
    using unsup noref strict entry by (subst strict_schema.simps) (auto simp: list_all_iff)
qed

lemma as_object_Some [simp]: "as_object v = Some m \<longleftrightarrow> v = JObject m"
  by (cases v) auto

lemma normalize_good: "json_wf base \<Longrightarrow> good_walk (normalize fuel render base chain)"
proof (induction fuel arbitrary: chain)
  case 0
  show ?case by (simp add: good_walk_def)
next
  case (Suc fuel)
  show ?case unfolding good_walk_def
  proof (intro allI impI)
    fix p v s v' s'
    assume wf: "json_wf v" and n: "normalize (Suc fuel) render base chain p v s = Some (Ok (v', s'))"
    show "strict_schema v' \<and> (if as_object v = None then v' = v else as_object v' \<noteq> None)"
    proof (cases "as_object v")
      case None
      with n have "v' = v" by simp
      moreover have "strict_schema v" using None by (subst strict_schema.simps) (cases v, auto)
      ultimately show ?thesis using None by simp
    next
      case (Some m)
      then have v: "v = JObject m" by simp
      have kw: "list_all (\<lambda>k. \<not> contains_key m k) unsupported_keywords"
        using n v by (auto simp: check_keywords_Ok split: sum.splits)
      show ?thesis
      proof (cases "map_of m ''$ref''")
        case None
        with n v kw obtain m1 s1 m2 where
          "(if schema_is_object m then normalize_object (normalize fuel render base chain) p m s
            else Some (Ok (m, s))) = Some (Ok (m1, s1))"
          "normalize_entries (normalize fuel render base chain) p m1 s1 = Some (Ok (m2, s'))" "v' = JObject m2"
          by (auto simp: walk_bind_Ok split: sum.splits)
        with normalize_schema_strict [OF Suc.IH [OF Suc.prems] wf [unfolded v] None kw] Some show ?thesis
          by simp
      next
        case ref: (Some j)
        with n v obtain r where r: "j = JString r" by (auto split: sum.splits json.splits)
        with n v ref obtain resolved where res: "Option.bind (resolve_ref base r) as_object = Some resolved"
          and loc: "r = ''#'' \<or> prefix ''#/'' r"
          by (auto split: sum.splits if_splits option.splits)
        from n v ref r res loc consider (sole) "length m = 1" "v' = v"
          | (rec) "normalize fuel render base chain p (JObject (obj_insert ''anyOf''
               (JArray [JObject [(''$ref'', JString r)]]) (obj_remove ''$ref'' m))) s = Some (Ok (v', s'))"
          | (inl) spent where "normalize fuel render base (chain @ [r]) p (JObject (merge_siblings resolved m)) spent
               = Some (Ok (v', s'))"
          by (auto simp: Let_def split: sum.splits if_splits prod.splits)
        then show ?thesis
        proof cases
          case sole
          have "strict_schema v"
            using sole v kw ref r loc by (subst strict_schema.simps) (simp add: local_ref_def)
          with sole Some show ?thesis by simp
        next
          case rec
          have "json_wf (JObject (obj_insert ''anyOf'' (JArray [JObject [(''$ref'', JString r)]]) (obj_remove ''$ref'' m)))"
            using wf v by (intro json_wf_obj_insert json_wf_obj_remove) (auto simp: obj_wf_def)
          from good_walkD [OF Suc.IH [OF Suc.prems] this rec] Some show ?thesis by simp
        next
          case inl
          have "json_wf (JObject (merge_siblings resolved m))"
            using wf v json_wf_resolve [OF res Suc.prems] by (intro json_wf_merge) auto
          from good_walkD [OF Suc.IH [OF Suc.prems] this inl] Some show ?thesis by simp
        qed
      qed
    qed
  qed
qed

lemma accepted_is_strict:
  assumes "json_wf schema" and "normalize_strict_schema fuel render schema = Some (Ok v)"
  shows "strict_schema v \<and> (\<exists>m. v = JObject m \<and> schema_is_object m)"
proof -
  let ?base = "case schema of JObject m \<Rightarrow> JObject (obj_remove ''$schema'' m) | _ \<Rightarrow> schema"
  have wf: "json_wf ?base" using assms(1) by (auto simp del: json_wf_simps(1) intro: json_wf_obj_remove split: json.split)
  from assms(2) obtain m s where n: "normalize fuel render ?base [] ''#'' ?base 0 = Some (Ok (v, s))"
    and m: "v = JObject m" "schema_is_object m"
    by (auto simp: normalize_strict_schema_def Let_def split: option.splits sum.splits if_splits)
  from good_walkD [OF normalize_good [OF wf] wf n] m show ?thesis by blast
qed

text \<open>
  C5: A schema that \<^verbatim>\<open>normalize_strict_schema\<close> accepts is strict all the way down: at the root and
  under every definition, alternative, item and property, no unsupported keyword is left, every object
  schema forbids additional properties and requires exactly its properties in order, every reference is
  local and stands alone; and the root is an object schema.
\<close>

theorem normalize_strict_schema_strict:
  assumes "json_wf schema" and "normalize_strict_schema fuel render schema = Some (Ok v)"
  shows "strict_schema v \<and> (\<exists>m. v = JObject m \<and> schema_is_object m)"
  using assms by (rule accepted_is_strict)

definition demo_schema :: json where
  "demo_schema = JObject [(''$schema'', JString ''dialect''), (''type'', JString ''object''),
     (''properties'', JObject [(''next'', JObject [(''$ref'', JString ''#/$defs/n''), (''description'', JString ''d'')])]),
     (''$defs'', JObject [(''n'', JObject [(''type'', JString ''object''),
        (''properties'', JObject [(''a'', JObject [(''type'', JString ''string'')])])])])]"

theorem normalize_strict_schema_strict_witness:
  "\<exists>v. normalize_strict_schema 20 (\<lambda>_. []) demo_schema = Some (Ok v) \<and> strict_schema v"
proof -
  have "(case normalize_strict_schema 20 (\<lambda>_. []) demo_schema of Some (Ok _) \<Rightarrow> True | _ \<Rightarrow> False)"
    by code_simp
  then obtain v where v: "normalize_strict_schema 20 (\<lambda>_. []) demo_schema = Some (Ok v)"
    by (auto split: option.splits sum.splits)
  have "json_wf demo_schema" by (simp add: demo_schema_def obj_wf_def)
  from normalize_strict_schema_strict [OF this v] v show ?thesis by blast
qed

section \<open>Pointers\<close>

lemma escape_pointer_simps:
  "escape_pointer [] = []"
  "escape_pointer (b # s) =
     (if b = CHR ''~'' then ''~0'' else if b = CHR ''/'' then ''~1'' else [b]) @ escape_pointer s"
  by (simp_all add: escape_pointer_def)

lemma unescape_escape: "unescape_pointer (escape_pointer s) = Some s"
  by (induction s) (auto simp: escape_pointer_simps)

lemma escape_no_slash: "CHR ''/'' \<notin> set (escape_pointer s)"
  by (induction s) (auto simp: escape_pointer_simps)

lemma split_on_join:
  "fs \<noteq> [] \<Longrightarrow> list_all (\<lambda>f. c \<notin> set f) fs \<Longrightarrow> split_on c (join_with c fs) = fs"
  by (induction c fs rule: join_with.induct) (auto simp: split_on_append split_on_absent)

fun lookup_path :: "bytes list \<Rightarrow> json \<Rightarrow> json option" where
  "lookup_path [] v = Some v"
| "lookup_path (k # ks) v = Option.bind (as_object v) (\<lambda>m. Option.bind (map_of m k) (lookup_path ks))"

lemma follow_pointer_escape: "follow_pointer (map escape_pointer ks) = lookup_path ks"
proof (induction ks)
  case (Cons k ks)
  then show ?case by (intro ext) (simp add: unescape_escape)
qed (simp add: fun_eq_iff)

text \<open>
  A reference written with escaped keys resolves to the value under those keys: whatever slashes and
  tildes the keys contain, \<^verbatim>\<open>resolve_ref\<close> undoes \<^verbatim>\<open>escape_pointer\<close>.
\<close>

theorem resolve_ref_escaped_path:
  "resolve_ref base (''#/'' @ join_with (CHR ''/'') (map escape_pointer (k # ks))) = lookup_path (k # ks) base"
proof -
  let ?segs = "map escape_pointer (k # ks)"
  have "split_on (CHR ''/'') (join_with (CHR ''/'') ?segs) = ?segs"
    by (rule split_on_join) (simp_all add: list_all_iff escape_no_slash)
  moreover have "strip_prefix ''#/'' (''#/'' @ x) = Some x" for x by (simp add: strip_prefix_Some_iff)
  ultimately show ?thesis
    unfolding resolve_ref_def using follow_pointer_escape [of "k # ks"] by simp
qed

section \<open>The walk ends\<close>

abbreviation nodes_left :: "nat \<Rightarrow> nat" where
  "nodes_left s \<equiv> (MAX_REF_INLINE_NODES - s) * (2 * MAX_REF_INLINE_NODES + 1)"

definition mono_walk :: "(bytes \<Rightarrow> json \<Rightarrow> nat \<Rightarrow> json walk) \<Rightarrow> bool" where
  "mono_walk f \<longleftrightarrow> (\<forall>p v s v' s'. f p v s = Some (Ok (v', s')) \<longrightarrow> s \<le> s')"

definition ends :: "(bytes \<Rightarrow> json \<Rightarrow> nat \<Rightarrow> json walk) \<Rightarrow> json \<Rightarrow> nat \<Rightarrow> bool" where
  "ends f v s \<longleftrightarrow> (\<forall>p t. s \<le> t \<longrightarrow> f p v t \<noteq> None)"

lemma walk_bind_None: "walk_bind x f = None \<longleftrightarrow> x = None \<or> (\<exists>a s. x = Some (Ok (a, s)) \<and> f a s = None)"
  by (auto simp: walk_bind_def split: option.splits sum.splits)

lemma walk_all_mono: "mono_walk f \<Longrightarrow> walk_all f xs s = Some (Ok (vs, t)) \<Longrightarrow> s \<le> t"
  by (induction f xs s arbitrary: vs t rule: walk_all.induct)
    (auto simp: walk_bind_Ok mono_walk_def, meson order_trans)

lemma normalize_entry_mono: "mono_walk f \<Longrightarrow> normalize_entry f p k c s = Some (Ok (c', t)) \<Longrightarrow> s \<le> t"
  by (auto simp: normalize_entry_def walk_bind_Ok dest: walk_all_mono split: if_splits json.splits)
    (auto simp: mono_walk_def)

lemma normalize_entries_mono: "mono_walk f \<Longrightarrow> normalize_entries f p m s = Some (Ok (m', t)) \<Longrightarrow> s \<le> t"
  by (induction f p m s arbitrary: m' t rule: normalize_entries.induct)
    (auto simp: walk_bind_Ok, meson normalize_entry_mono order_trans)

lemma normalize_object_mono: "mono_walk f \<Longrightarrow> normalize_object f p m s = Some (Ok (m', t)) \<Longrightarrow> s \<le> t"
  by (auto simp: normalize_object_def walk_bind_Ok Let_def dest: walk_all_mono
      split: option.splits sum.splits json.splits if_splits)

lemma charge_within: "charge n s = (True, s') \<Longrightarrow> s' = s + n \<and> s + n \<le> MAX_REF_INLINE_NODES"
  by (auto simp: charge_def Let_def saturating_add_def MAX_REF_INLINE_NODES_def USIZE_MAX_def)

lemma normalize_mono: "mono_walk (normalize fuel render base chain)"
proof (induction fuel arbitrary: chain)
  case (Suc fuel)
  have rec: "normalize fuel render base ch p v s = Some (Ok (v', t)) \<Longrightarrow> s \<le> t" for ch p v s v' t
    using Suc.IH [of ch] unfolding mono_walk_def by blast
  show ?case unfolding mono_walk_def
  proof (intro allI impI)
    fix p v s v' s'
    assume n: "normalize (Suc fuel) render base chain p v s = Some (Ok (v', s'))"
    show "s \<le> s'"
    proof (cases "\<exists>m. v = JObject m \<and> map_of m ''$ref'' = None")
      case True
      with n obtain m m1 s1 m2 where
        "(if schema_is_object m then normalize_object (normalize fuel render base chain) p m s
          else Some (Ok (m, s))) = Some (Ok (m1, s1))"
        "normalize_entries (normalize fuel render base chain) p m1 s1 = Some (Ok (m2, s'))"
        by (auto simp: walk_bind_Ok split: sum.splits)
      with normalize_object_mono [OF Suc.IH] normalize_entries_mono [OF Suc.IH] show ?thesis
        by (auto split: if_splits) (meson order_trans)
    next
      case False
      with n show ?thesis
        by (auto simp: Let_def split: option.splits sum.splits json.splits if_splits prod.splits
            dest: rec dest!: charge_within)
    qed
  qed
qed (simp add: mono_walk_def)

lemma walk_all_ends:
  "mono_walk f \<Longrightarrow> \<forall>x \<in> set xs. ends f (snd x) s \<Longrightarrow> s \<le> t \<Longrightarrow> walk_all f xs t \<noteq> None"
proof (induction xs arbitrary: t)
  case (Cons x xs)
  obtain p v where x: "x = (p, v)" by (cases x)
  have "f p v t \<noteq> None" using Cons.prems x by (auto simp: ends_def)
  moreover have "walk_all f xs t' \<noteq> None" if "f p v t = Some (Ok (v', t'))" for v' t'
    using Cons.IH [OF Cons.prems(1), of t'] Cons.prems that x
    by (auto simp: mono_walk_def) (meson order_trans)
  ultimately show ?case using x by (auto simp: walk_bind_None walk_bind_Ok)
qed simp

lemma normalize_entry_ends:
  assumes "mono_walk f" and "\<forall>x \<in> set (entry_children k c). ends f x s" and "s \<le> t"
  shows "normalize_entry f p k c t \<noteq> None"
proof -
  have w: "walk_all f xs t \<noteq> None" if "\<forall>x \<in> set xs. ends f (snd x) s" for xs
    by (rule walk_all_ends [OF assms(1) that assms(3)])
  consider (defs) "k = ''$defs'' \<or> k = ''definitions''" | (any) "k = ''anyOf''" | (items) "k = ''items''"
    | (other) "k \<notin> special_keys" by (auto simp: special_keys_def)
  then show ?thesis
  proof cases
    case defs
    show ?thesis
    proof (cases c)
      case (JObject cs)
      have "walk_all f (map (\<lambda>(name, schema).
          (p @ ''/'' @ escape_pointer k @ ''/'' @ escape_pointer name, schema)) cs) t \<noteq> None"
        by (rule w) (use assms(2) defs JObject in \<open>fastforce simp: entry_children_def\<close>)
      with defs JObject show ?thesis by (auto simp: normalize_entry_def walk_bind_None)
    qed (use defs in \<open>auto simp: normalize_entry_def\<close>)
  next
    case any
    show ?thesis
    proof (cases c)
      case (JArray cs)
      have "walk_all f (map (\<lambda>(index, schema). (p @ ''/'' @ k @ ''/'' @ nat_to_string index, schema))
          (enumerate 0 cs)) t \<noteq> None"
        by (rule w) (use assms(2) any JArray in \<open>auto simp: entry_children_def in_set_enumerate_eq\<close>)
      with any JArray show ?thesis by (auto simp: normalize_entry_def walk_bind_None)
    qed (use any in \<open>auto simp: normalize_entry_def\<close>)
  next
    case items
    then have "f (p @ ''/'' @ k) c t \<noteq> None" using assms(2,3) by (auto simp: entry_children_def ends_def)
    with items show ?thesis by (auto simp: normalize_entry_def split: json.splits)
  next
    case other
    then show ?thesis by (simp add: normalize_entry_other)
  qed
qed

lemma normalize_entries_ends:
  "mono_walk f \<Longrightarrow> \<forall>(k, c) \<in> set m. \<forall>x \<in> set (entry_children k c). k \<in> special_keys \<longrightarrow> ends f x s \<Longrightarrow>
     s \<le> t \<Longrightarrow> normalize_entries f p m t \<noteq> None"
proof (induction m arbitrary: t)
  case (Cons kc m)
  obtain k c where kc: "kc = (k, c)" by (cases kc)
  have "normalize_entry f p k c t \<noteq> None"
  proof (cases "k \<in> special_keys")
    case True
    then show ?thesis
      by (intro normalize_entry_ends [OF Cons.prems(1) _ Cons.prems(3)]) (use Cons.prems(2) kc in auto)
  qed (simp add: normalize_entry_other)
  moreover have "normalize_entries f p m t' \<noteq> None" if "normalize_entry f p k c t = Some (Ok (c', t'))" for c' t'
    using Cons.IH [OF Cons.prems(1), of t'] Cons.prems normalize_entry_mono [OF Cons.prems(1) that]
    by auto
  ultimately show ?case using kc by (auto simp: walk_bind_None walk_bind_Ok)
qed simp

lemma count_nodes_obj_remove:
  assumes "obj_wf m"
  shows "count_nodes (JObject (obj_remove k m)) \<le> count_nodes (JObject m)"
proof -
  have m: "distinct m" using assms by (auto simp: obj_wf_def distinct_map)
  have "(\<Sum>x \<in> set (obj_remove k m). count_nodes (snd x)) \<le> (\<Sum>x \<in> set m. count_nodes (snd x))"
    using obj_remove_set [OF assms, of k] by (intro sum_mono2) auto
  with m obj_remove_set [OF assms, of k] show ?thesis
    by (simp add: split_def sum_list_distinct_conv_sum_set)
qed

lemma count_nodes_entry: "(k, c) \<in> set m \<Longrightarrow> count_nodes c + 1 \<le> count_nodes (JObject m)"
  by (induction m) (auto simp: split_def)

lemma count_nodes_item: "c \<in> set xs \<Longrightarrow> count_nodes c + 1 \<le> count_nodes (JArray xs)"
  by (induction xs) auto

lemma count_nodes_pos: "0 < count_nodes v"
  by (cases v) auto

lemma entry_children_count:
  "x \<in> set (entry_children k c) \<Longrightarrow> count_nodes x \<le> count_nodes c"
  "x \<in> set (entry_children ''properties'' c) \<Longrightarrow> count_nodes x + 1 \<le> count_nodes c"
  using count_nodes_entry count_nodes_item
  by (fastforce simp: entry_children_def split: if_splits json.splits)+

text \<open>With a reference beside it, an entry is one node smaller still.\<close>

lemma count_nodes_beside_ref:
  "(k, c) \<in> set m \<Longrightarrow> (k', j) \<in> set m \<Longrightarrow> k \<noteq> k' \<Longrightarrow> count_nodes c + 2 \<le> count_nodes (JObject m)"
proof (induction m)
  case (Cons x m)
  then show ?case
    using count_nodes_entry [of k c m] count_nodes_entry [of k' j m] count_nodes_pos [of j]
    by (auto simp: split_def)
qed simp

lemma json_wf_entry_children: "json_wf c \<Longrightarrow> x \<in> set (entry_children k c) \<Longrightarrow> json_wf x"
  by (auto simp: entry_children_def split: if_splits json.splits)

lemma set_obj_insert: "set (obj_insert k v m) \<subseteq> insert (k, v) (set m)"
  by (induction k v m rule: obj_insert.induct) auto

lemma normalize_object_special:
  assumes "normalize_object f path m s = Some (Ok (m', t))" and "(k, c) \<in> set m'" and "k \<in> special_keys"
  shows "(k, c) \<in> set m"
proof -
  have ins: "(k, c) \<in> set m" if "(k, c) \<in> set (obj_insert k' v m)" "k' \<notin> special_keys" for k' v m
    using set_obj_insert [of k' v m] that assms(3) by auto
  from assms(1,2) show ?thesis
    by (auto simp: normalize_object_def walk_bind_Ok Let_def special_keys_def
        split: option.splits json.splits if_splits dest!: ins)
qed

lemma schema_step_ends:
  assumes "mono_walk f" and "json_wf (JObject m)"
    and "\<And>k c x. (k, c) \<in> set m \<Longrightarrow> x \<in> set (entry_children k c) \<Longrightarrow> ends f x s"
    and "\<And>c x. (''properties'', c) \<in> set m \<Longrightarrow> x \<in> set (entry_children ''properties'' c) \<Longrightarrow> ends f (make_nullable x) s"
  shows "walk_bind (if schema_is_object m then normalize_object f path m s else Some (Ok (m, s)))
    (\<lambda>object spent. walk_bind (normalize_entries f path object spent)
       (\<lambda>object spent. Some (Ok (JObject object, spent)))) \<noteq> None"
proof -
  have obj: "normalize_object f path m s \<noteq> None"
  proof -
    define m1 where "m1 = (if map_of m ''additionalProperties'' = None
      then obj_insert ''additionalProperties'' (JBool False) m else m)"
    have pr: "map_of m1 ''properties'' = map_of m ''properties''" by (simp add: m1_def)
    have "walk_all f (map (\<lambda>(name, property). (path @ ''/properties/'' @ escape_pointer name,
        if name \<notin> required_names m1 then make_nullable property else property)) ps) s \<noteq> None"
      if "map_of m ''properties'' = Some (JObject ps)" for ps
    proof (rule walk_all_ends [OF assms(1) _ order_refl])
      have "(''properties'', JObject ps) \<in> set m" using that by (rule map_of_SomeD)
      with assms(3,4) show "\<forall>x \<in> set (map (\<lambda>(name, property). (path @ ''/properties/'' @ escape_pointer name,
          if name \<notin> required_names m1 then make_nullable property else property)) ps). ends f (snd x) s"
        by (fastforce simp: entry_children_def)
    qed
    with pr show ?thesis
      by (auto simp: normalize_object_def m1_def walk_bind_None Let_def split: option.splits json.splits if_splits)
        (auto simp: walk_bind_def split: sum.splits)
  qed
  have ents: "normalize_entries f path m1 s1 \<noteq> None"
    if "(if schema_is_object m then normalize_object f path m s else Some (Ok (m, s))) = Some (Ok (m1, s1))"
    for m1 s1
  proof (rule normalize_entries_ends [OF assms(1)])
    show "s \<le> s1" using that normalize_object_mono [OF assms(1)] by (auto split: if_splits)
    have "(k, c) \<in> set m" if "(k, c) \<in> set m1" "k \<in> special_keys" for k c
      using that normalize_object_special [of f path m s m1 s1 k c]
        \<open>(if _ then _ else _) = Some (Ok (m1, s1))\<close> by (auto split: if_splits)
    with assms(3) show "\<forall>(k, c) \<in> set m1. \<forall>x \<in> set (entry_children k c). k \<in> special_keys \<longrightarrow> ends f x s"
      by fastforce
  qed
  show ?thesis using obj ents by (auto simp: walk_bind_None)
qed

lemma normalize_nullable_ends:
  assumes "ends (normalize fuel render base chain) x s" and "0 < fuel"
    and "ends (normalize (Suc fuel) render base chain) x s"
  shows "ends (normalize (Suc fuel) render base chain) (make_nullable x) s"
proof (cases "schema_allows_null x")
  case True
  with assms(3) show ?thesis by (simp add: make_nullable_def)
next
  case False
  let ?f = "normalize fuel render base chain"
  have nul: "ends ?f null_schema s"
    using assms(2) by (cases fuel)
      (auto simp: ends_def null_schema_def unsupported_keywords_def contains_key_def schema_is_object_def
        is_string_def walk_bind_def normalize_entry_other special_keys_def)
  have "normalize (Suc fuel) render base chain p (make_nullable x) t \<noteq> None" if "s \<le> t" for p t
  proof -
    have "normalize_entry ?f p ''anyOf'' (JArray [x, null_schema]) t \<noteq> None"
      by (rule normalize_entry_ends [OF normalize_mono _ that]) (use assms(1) nul in \<open>auto simp: entry_children_def\<close>)
    moreover have "check_keywords p [(''anyOf'', v)] unsupported_keywords = Ok ()" for v
      by (simp add: unsupported_keywords_def contains_key_def)
    ultimately show ?thesis
      using False
      by (auto simp: make_nullable_def schema_is_object_def contains_key_def walk_bind_None walk_bind_Ok)
  qed
  then show ?thesis by (simp add: ends_def)
qed

lemma nodes_left_antimono: "s \<le> t \<Longrightarrow> nodes_left t \<le> nodes_left s"
  by (intro mult_le_mono1 diff_le_mono2)

lemma nodes_left_charge:
  assumes "charge n s = (True, s')" and "0 < n"
  shows "2 * n + nodes_left s' < nodes_left s"
proof -
  have s: "s' = s + n" "s + n \<le> MAX_REF_INLINE_NODES" using charge_within [OF assms(1)] by auto
  define a where "a = MAX_REF_INLINE_NODES - s'"
  have "MAX_REF_INLINE_NODES - s = a + n" using s by (simp add: a_def)
  then have "nodes_left s = nodes_left s' + n * (2 * MAX_REF_INLINE_NODES + 1)"
    by (simp add: a_def algebra_simps)
  moreover have "2 * n < n * (2 * MAX_REF_INLINE_NODES + 1)"
    using assms(2) by (simp add: MAX_REF_INLINE_NODES_def)
  ultimately show ?thesis by linarith
qed

lemma nullable_ends:
  assumes "\<And>fuel' w u ch. fuel' < fuel \<Longrightarrow> json_wf base \<Longrightarrow> json_wf w \<Longrightarrow>
      2 * count_nodes w + nodes_left u \<le> fuel' \<Longrightarrow> ends (normalize fuel' render base ch) w u"
    and "n < fuel" and "json_wf base" and "json_wf w" and "2 * count_nodes w + 1 + nodes_left u \<le> n"
  shows "ends (normalize n render base ch) (make_nullable w) u"
proof -
  obtain k where k: "n = Suc k" using assms(5) by (cases n) auto
  have "ends (normalize k render base ch) w u" "ends (normalize (Suc k) render base ch) w u"
    using assms(1) [of k w u ch] assms(1) [of n w u ch] assms(2-5) k by simp_all
  moreover have "0 < k" using assms(5) k count_nodes_pos [of w] by simp
  ultimately show ?thesis using normalize_nullable_ends k by simp
qed

lemma sole_ref_ends: "0 < n \<Longrightarrow> ends (normalize n render base ch) (JObject [(''$ref'', JString r)]) u"
  by (cases n) (auto simp: ends_def split: sum.splits option.splits)

lemma recursive_ref_ends:
  assumes IH: "\<And>fuel' w u ch. fuel' < fuel \<Longrightarrow> json_wf base \<Longrightarrow> json_wf w \<Longrightarrow>
      2 * count_nodes w + nodes_left u \<le> fuel' \<Longrightarrow> ends (normalize fuel' render base ch) w u"
    and wf: "json_wf base" "json_wf (JObject m)" and "n < fuel" and ref: "map_of m ''$ref'' = Some j"
    and bound: "2 * count_nodes (JObject m) + nodes_left t \<le> Suc n"
  shows "normalize n render base ch p (JObject (obj_insert ''anyOf''
           (JArray [JObject [(''$ref'', JString r)]]) (obj_remove ''$ref'' m))) t \<noteq> None"
    (is "normalize n render base ch p (JObject ?m) t \<noteq> None")
proof -
  have rin: "(''$ref'', j) \<in> set m" using ref by (rule map_of_SomeD)
  then have "4 \<le> Suc n" using bound count_nodes_entry [OF rin] count_nodes_pos [of j] by linarith
  then obtain k where k: "n = Suc k" "0 < k" by (cases n) auto
  have sub: "(key, c) = (''anyOf'', JArray [JObject [(''$ref'', JString r)]])
      \<or> (key, c) \<in> set m \<and> key \<noteq> ''$ref''" if "(key, c) \<in> set ?m" for key c
    using that set_obj_insert obj_remove_set [of m "''$ref''"] wf(2) by fastforce
  have beside: "2 * count_nodes x + 1 + nodes_left t \<le> k" "json_wf x"
    if "(key, c) \<in> set m" "key \<noteq> ''$ref''" "x \<in> set (entry_children key c)" for key c x
  proof -
    have "count_nodes x + 2 \<le> count_nodes (JObject m)"
      using count_nodes_beside_ref [OF that(1) rin that(2)] entry_children_count(1) [OF that(3)] by linarith
    with bound k show "2 * count_nodes x + 1 + nodes_left t \<le> k" by simp
    show "json_wf x" using json_wf_entry_children [OF _ that(3)] that(1) wf(2) by auto
  qed
  let ?f = "normalize k render base ch"
  have "walk_bind (if schema_is_object ?m then normalize_object ?f p ?m t else Some (Ok (?m, t)))
      (\<lambda>object spent. walk_bind (normalize_entries ?f p object spent)
         (\<lambda>object spent. Some (Ok (JObject object, spent)))) \<noteq> None"
  proof (rule schema_step_ends [OF normalize_mono])
    show "json_wf (JObject ?m)"
      using wf(2) by (intro json_wf_obj_insert json_wf_obj_remove) (auto simp: obj_wf_def)
    fix key c x assume kc: "(key, c) \<in> set ?m" "x \<in> set (entry_children key c)"
    from sub [OF kc(1)] show "ends ?f x t"
    proof
      assume "(key, c) = (''anyOf'', JArray [JObject [(''$ref'', JString r)]])"
      with kc(2) have "x = JObject [(''$ref'', JString r)]" by (simp add: entry_children_def)
      then show ?thesis using sole_ref_ends k(2) by simp
    next
      assume "(key, c) \<in> set m \<and> key \<noteq> ''$ref''"
      with beside [OF _ _ kc(2)] IH [of k x t ch] wf(1) \<open>n < fuel\<close> k(1) show ?thesis by simp
    qed
  next
    fix c x assume kc: "(''properties'', c) \<in> set ?m" "x \<in> set (entry_children ''properties'' c)"
    with sub [OF kc(1)] have "(''properties'', c) \<in> set m" by auto
    from beside [OF this _ kc(2)] wf(1) \<open>n < fuel\<close> k(1)
    show "ends ?f (make_nullable x) t" by (intro nullable_ends [OF IH, where n = k]) auto
  qed
  moreover have "map_of ?m ''$ref'' = None" using wf(2) by (simp add: map_of_obj_remove)
  ultimately show ?thesis by (auto simp: k(1) split: sum.splits)
qed

lemma normalize_ends:
  "json_wf base \<Longrightarrow> json_wf v \<Longrightarrow> 2 * count_nodes v + nodes_left s \<le> fuel \<Longrightarrow>
     ends (normalize fuel render base chain) v s"
proof (induction fuel arbitrary: v s chain rule: less_induct)
  case (less fuel)
  obtain n where n: "fuel = Suc n" using less.prems(3) count_nodes_pos [of v] by (cases fuel) auto
  have IH: "ends (normalize n render base ch) w u"
    if "json_wf w" "2 * count_nodes w + nodes_left u \<le> n" for ch w u
    using less.IH [of n w u ch] less.prems(1) that n by simp
  have IHn: "ends (normalize n render base ch) (make_nullable w) u"
    if wf: "json_wf w" and bd: "2 * count_nodes w + 1 + nodes_left u \<le> n" for ch w u
    using less.prems(1) wf bd n by (intro nullable_ends [OF less.IH, where n = n]) auto
  have "normalize fuel render base chain p v t \<noteq> None" if st: "s \<le> t" for p t
  proof (cases "as_object v")
    case None
    then show ?thesis by (simp add: n)
  next
    case (Some m)
    then have v: "v = JObject m" by simp
    have bound: "2 * count_nodes v + nodes_left t \<le> Suc n"
      using less.prems(3) nodes_left_antimono [OF st] n by linarith
    show ?thesis
    proof (cases "map_of m ''$ref''")
      case None
      have "walk_bind (if schema_is_object m then normalize_object (normalize n render base chain) p m t else Some (Ok (m, t)))
        (\<lambda>object spent. walk_bind (normalize_entries (normalize n render base chain) p object spent)
           (\<lambda>object spent. Some (Ok (JObject object, spent)))) \<noteq> None"
      proof (rule schema_step_ends [OF normalize_mono])
        show "json_wf (JObject m)" using less.prems(2) v by simp
        fix k c x assume kc: "(k, c) \<in> set m" "x \<in> set (entry_children k c)"
        have "json_wf x" using json_wf_entry_children [OF _ kc(2)] kc(1) less.prems(2) v by auto
        moreover have "2 * count_nodes x + nodes_left t \<le> n"
          using bound count_nodes_entry [OF kc(1)] entry_children_count(1) [OF kc(2)] v by simp
        ultimately show "ends (normalize n render base chain) x t" by (rule IH)
      next
        fix c x assume kc: "(''properties'', c) \<in> set m" "x \<in> set (entry_children ''properties'' c)"
        have "json_wf x" using json_wf_entry_children [OF _ kc(2)] kc(1) less.prems(2) v by auto
        moreover have "2 * count_nodes x + 1 + nodes_left t \<le> n"
          using bound count_nodes_entry [OF kc(1)] entry_children_count(2) [OF kc(2)] v by simp
        ultimately show "ends (normalize n render base chain) (make_nullable x) t" by (rule IHn)
      qed
      with None v show ?thesis by (auto simp: n split: sum.splits)
    next
      case ref: (Some j)
      have recur: "normalize n render base chain p (JObject (obj_insert ''anyOf''
          (JArray [JObject [(''$ref'', JString r)]]) (obj_remove ''$ref'' m))) t \<noteq> None" for r
        using less.prems(1,2) ref bound n v
        by (intro recursive_ref_ends [OF less.IH, where fuel = fuel]) auto
      have inl: "normalize n render base ch p (JObject (merge_siblings resolved m)) t' \<noteq> None"
        if "charge (count_nodes (JObject (merge_siblings resolved m))) t = (True, t')"
          "Option.bind (resolve_ref base r) as_object = Some resolved" for ch resolved r t'
      proof -
        have "json_wf (JObject (merge_siblings resolved m))"
          using json_wf_merge json_wf_resolve [OF that(2) less.prems(1)] less.prems(2) v by blast
        moreover have "2 * count_nodes (JObject (merge_siblings resolved m)) + nodes_left t' \<le> n"
          using nodes_left_charge [OF that(1) count_nodes_pos] bound count_nodes_pos [of v] by linarith
        ultimately show ?thesis using IH unfolding ends_def by blast
      qed
      show ?thesis
        using ref v recur inl
        by (auto simp: n Let_def split: sum.splits json.splits option.splits prod.splits)
    qed
  qed
  then show ?case by (simp add: ends_def)
qed


lemma normalization_ends:
  assumes "json_wf schema"
    and "2 * count_nodes schema + MAX_REF_INLINE_NODES * (2 * MAX_REF_INLINE_NODES + 1) \<le> fuel"
  shows "normalize_strict_schema fuel render schema \<noteq> None"
proof -
  define base where "base = (case schema of JObject m \<Rightarrow> JObject (obj_remove ''$schema'' m) | _ \<Rightarrow> schema)"
  have base: "json_wf base \<and> count_nodes base \<le> count_nodes schema"
  proof (cases schema)
    case (JObject m)
    then have "obj_wf m" using assms(1) by simp
    moreover have "base = JObject (obj_remove ''$schema'' m)" by (simp add: base_def JObject)
    ultimately show ?thesis using JObject assms(1) json_wf_obj_remove count_nodes_obj_remove by blast
  qed (use assms(1) in \<open>auto simp: base_def\<close>)
  have "ends (normalize fuel render base []) base 0"
    by (rule normalize_ends) (use base assms(2) in auto)
  then show ?thesis
    by (auto simp: normalize_strict_schema_def base_def [symmetric] ends_def Let_def
        split: option.splits sum.splits)
qed

text \<open>
  C36: the walk ends, with the fuel bounded by the size of the document.  Every descent into a
  subschema removes a node, wrapping in a nullable union costs one extra level, and every inlined
  reference is paid from the budget of 100,000 nodes, so a fuel of twice the nodes of the document
  plus the cost of the budget always gives a result, whatever references the document has.  The
  same amount of fuel or any larger one serves.
\<close>

theorem normalize_strict_schema_ends:
  assumes "json_wf schema"
    and "2 * count_nodes schema + MAX_REF_INLINE_NODES * (2 * MAX_REF_INLINE_NODES + 1) \<le> fuel"
  shows "normalize_strict_schema fuel render schema \<noteq> None"
  using assms by (rule normalization_ends)

theorem normalize_strict_schema_ends_witness:
  "normalize_strict_schema (2 * count_nodes demo_schema + MAX_REF_INLINE_NODES * (2 * MAX_REF_INLINE_NODES + 1))
     (\<lambda>_. []) demo_schema \<noteq> None"
proof (rule normalize_strict_schema_ends)
  show "json_wf demo_schema" by (simp add: demo_schema_def obj_wf_def)
qed simp

end
