(* ===== verification/Kernel.thy ===== *)
theory Kernel
  imports Json_Value
begin

text \<open>
  The wire-type primitives of \<^verbatim>\<open>crates/openai-rs-types/src/kernel.rs\<close>: \<^verbatim>\<open>Omittable\<close>,
  \<^verbatim>\<open>Nullable\<close>, \<^verbatim>\<open>ExtraFields\<close>, \<^verbatim>\<open>UnknownTaggedObject\<close> and the forward-compatible
  tagged unions.

  A serializer of a type is a function to JSON that may fail, a deserializer one from JSON that may
  fail; serde's decoding errors are their messages.  The fields of a containing object are encoded and
  decoded as its \<^verbatim>\<open>#[serde(default, skip_serializing_if = "Omittable::is_omitted")]\<close> attribute
  and serde's treatment of a missing field say.
\<close>

type_synonym 'a serializer = "'a \<Rightarrow> (bytes, json) result"
type_synonym 'a deserializer = "json \<Rightarrow> (bytes, 'a) result"

section \<open>Omittable and Nullable\<close>

datatype 'a omittable = Omitted | Present 'a

datatype 'a nullable = Null | NonNull 'a

fun is_omitted :: "'a omittable \<Rightarrow> bool" where
  "is_omitted Omitted = True" | "is_omitted (Present x) = False"

fun omittable_into_option :: "'a omittable \<Rightarrow> 'a option" where
  "omittable_into_option Omitted = None" | "omittable_into_option (Present x) = Some x"

fun omittable_map :: "('a \<Rightarrow> 'b) \<Rightarrow> 'a omittable \<Rightarrow> 'b omittable" where
  "omittable_map f Omitted = Omitted" | "omittable_map f (Present x) = Present (f x)"

fun omittable_from_option :: "'a option \<Rightarrow> 'a omittable" where
  "omittable_from_option None = Omitted" | "omittable_from_option (Some x) = Present x"

definition omittable_default :: "'a omittable" where "omittable_default = Omitted"

fun omittable_serialize :: "'a serializer \<Rightarrow> 'a omittable serializer" where
  "omittable_serialize ser (Present x) = ser x"
| "omittable_serialize ser Omitted =
     Err ''Omittable::Omitted must be skipped by its containing field''"

definition omittable_deserialize :: "'a deserializer \<Rightarrow> 'a omittable deserializer" where
  "omittable_deserialize de j = res_bind (de j) (\<lambda>x. Ok (Present x))"

fun nullable_is_null :: "'a nullable \<Rightarrow> bool" where
  "nullable_is_null Null = True" | "nullable_is_null (NonNull x) = False"

fun nullable_into_option :: "'a nullable \<Rightarrow> 'a option" where
  "nullable_into_option Null = None" | "nullable_into_option (NonNull x) = Some x"

fun nullable_map :: "('a \<Rightarrow> 'b) \<Rightarrow> 'a nullable \<Rightarrow> 'b nullable" where
  "nullable_map f Null = Null" | "nullable_map f (NonNull x) = NonNull (f x)"

fun nullable_from_option :: "'a option \<Rightarrow> 'a nullable" where
  "nullable_from_option None = Null" | "nullable_from_option (Some x) = NonNull x"

fun nullable_serialize :: "'a serializer \<Rightarrow> 'a nullable serializer" where
  "nullable_serialize ser Null = Ok JNull"
| "nullable_serialize ser (NonNull x) = ser x"

text \<open>The untagged \<^verbatim>\<open>NullableRepr\<close>: the unit variant takes JSON null, everything else goes to the value.\<close>

definition nullable_deserialize :: "'a deserializer \<Rightarrow> 'a nullable deserializer" where
  "nullable_deserialize de j =
     (if j = JNull then Ok Null
      else case de j of
        Ok x \<Rightarrow> Ok (NonNull x)
      | Err _ \<Rightarrow> Err ''data did not match any variant of untagged enum NullableRepr'')"

section \<open>Fields of an object\<close>

definition put_omittable ::
    "'a serializer \<Rightarrow> bytes \<Rightarrow> 'a omittable \<Rightarrow> json_map \<Rightarrow> (bytes, json_map) result" where
  "put_omittable ser key x m =
     (if is_omitted x then Ok m
      else res_bind (omittable_serialize ser x) (\<lambda>j. Ok (obj_insert key j m)))"

definition get_omittable :: "'a deserializer \<Rightarrow> bytes \<Rightarrow> json_map \<Rightarrow> (bytes, 'a omittable) result" where
  "get_omittable de key m =
     (case map_of m key of None \<Rightarrow> Ok omittable_default | Some j \<Rightarrow> omittable_deserialize de j)"

definition put_required ::
    "'a serializer \<Rightarrow> bytes \<Rightarrow> 'a \<Rightarrow> json_map \<Rightarrow> (bytes, json_map) result" where
  "put_required ser key x m = res_bind (ser x) (\<lambda>j. Ok (obj_insert key j m))"

definition get_required_nullable ::
    "'a deserializer \<Rightarrow> bytes \<Rightarrow> json_map \<Rightarrow> (bytes, 'a nullable) result" where
  "get_required_nullable de key m =
     (case map_of m key of None \<Rightarrow> Err (''missing field `'' @ key @ ''`'') | Some j \<Rightarrow> nullable_deserialize de j)"

section \<open>Extra fields\<close>

record extra_fields =
  extra_map :: json_map

datatype extra_fields_conflict = ExtraFieldsConflict bytes

definition extra_fields_new :: extra_fields where
  "extra_fields_new = \<lparr>extra_map = []\<rparr>"

fun ensure_no_reserved ::
    "bytes list \<Rightarrow> extra_fields \<Rightarrow> (extra_fields_conflict, unit) result" where
  "ensure_no_reserved [] e = Ok ()"
| "ensure_no_reserved (key # ks) e =
     (if contains_key (extra_map e) key then Err (ExtraFieldsConflict key) else ensure_no_reserved ks e)"

definition try_from_map ::
    "json_map \<Rightarrow> bytes list \<Rightarrow> (extra_fields_conflict, extra_fields) result" where
  "try_from_map m reserved =
     (let extra = \<lparr>extra_map = m\<rparr>
      in res_bind (ensure_no_reserved reserved extra) (\<lambda>_. Ok extra))"

definition extra_get :: "extra_fields \<Rightarrow> bytes \<Rightarrow> json option" where
  "extra_get e key = map_of (extra_map e) key"

definition extra_serialize :: "extra_fields serializer" where
  "extra_serialize e = Ok (JObject (extra_map e))"

definition extra_deserialize :: "extra_fields deserializer" where
  "extra_deserialize j =
     (case j of JObject m \<Rightarrow> Ok \<lparr>extra_map = m\<rparr> | _ \<Rightarrow> Err ''invalid type, expected a map'')"

section \<open>Tagged objects\<close>

definition object_discriminator :: "json \<Rightarrow> (bytes, bytes) result" where
  "object_discriminator v =
     res_bind (ok_or (as_object v) ''tagged value must be a JSON object'') (\<lambda>object.
     res_bind (ok_or (map_of object ''type'') ''tagged object is missing string field `type`'') (\<lambda>t.
     ok_or (as_str t) ''tagged object field `type` must be a string''))"

record unknown_tagged_object =
  discriminator :: bytes
  raw :: json_map

definition unknown_from_value :: "json \<Rightarrow> (bytes, unknown_tagged_object) result" where
  "unknown_from_value v =
     res_bind (object_discriminator v) (\<lambda>d.
       case v of JObject m \<Rightarrow> Ok \<lparr>discriminator = d, raw = m\<rparr>
       | _ \<Rightarrow> Err ''tagged value must be a JSON object'')"

definition unknown_into_value :: "unknown_tagged_object \<Rightarrow> json" where
  "unknown_into_value u = JObject (raw u)"

text \<open>\<^verbatim>\<open>tagged_union!\<close>: the decoder table maps each known wire discriminator to its variant's
  deserializer.\<close>

datatype 'a tagged = Known 'a | Unknown unknown_tagged_object

fun tagged_serialize :: "'a serializer \<Rightarrow> 'a tagged serializer" where
  "tagged_serialize ser (Known x) = ser x"
| "tagged_serialize ser (Unknown u) = Ok (unknown_into_value u)"

definition tagged_deserialize :: "(bytes \<times> 'a deserializer) list \<Rightarrow> 'a tagged deserializer" where
  "tagged_deserialize table v =
     res_bind (object_discriminator v) (\<lambda>d.
       case map_of table d of
         Some de \<Rightarrow> res_bind (de v) (\<lambda>x. Ok (Known x))
       | None \<Rightarrow> res_bind (unknown_from_value v) (\<lambda>u. Ok (Unknown u)))"

text \<open>\<^verbatim>\<open>tagged_union_reject_known!\<close>: some known discriminators are refused here.\<close>

definition tagged_deserialize_rejecting ::
    "bytes \<Rightarrow> (bytes \<times> 'a deserializer) list \<Rightarrow> bytes list \<Rightarrow> 'a tagged deserializer" where
  "tagged_deserialize_rejecting name table rejected v =
     res_bind (object_discriminator v) (\<lambda>d.
       case map_of table d of
         Some de \<Rightarrow> res_bind (de v) (\<lambda>x. Ok (Known x))
       | None \<Rightarrow>
           if d \<in> set rejected then Err (''known source tag `'' @ d @ ''` is not valid in '' @ name)
           else res_bind (unknown_from_value v) (\<lambda>u. Ok (Unknown u)))"

section \<open>Codecs\<close>

text \<open>The contract between a serializer and its deserializer, and what follows for the wrappers.\<close>

locale wire_codec =
  fixes ser :: "'a serializer" and de :: "'a deserializer"
  assumes de_ser: "ser x = Ok j \<Longrightarrow> de j = Ok x"
begin

lemma ser_inject: "ser x = Ok j \<Longrightarrow> ser y = Ok j \<Longrightarrow> x = y"
  using de_ser [of x j] de_ser [of y j] by simp

lemma omittable_field_roundtrip:
  assumes "map_of m key = None" and "put_omittable ser key x m = Ok m'"
  shows "get_omittable de key m' = Ok x"
  using assms
  by (cases x) (auto simp: put_omittable_def get_omittable_def omittable_default_def
      omittable_deserialize_def res_bind_Ok_iff dest: de_ser)

end

locale nonnull_codec = wire_codec +
  assumes ser_nonnull: "ser x \<noteq> Ok JNull"
begin

lemma nullable_codec: "wire_codec (nullable_serialize ser) (nullable_deserialize de)"
proof
  fix x j
  assume "nullable_serialize ser x = Ok j"
  with ser_nonnull show "nullable_deserialize de j = Ok x"
    by (cases x) (auto simp: nullable_deserialize_def dest: de_ser)
qed

end

sublocale nonnull_codec \<subseteq> nullable: wire_codec "nullable_serialize ser" "nullable_deserialize de"
  by (rule nullable_codec)

context nonnull_codec
begin

lemma tri_state_roundtrip:
  assumes "map_of m key = None" and "put_omittable (nullable_serialize ser) key x m = Ok m'"
  shows "get_omittable (nullable_deserialize de) key m' = Ok x"
  by (rule nullable.omittable_field_roundtrip [OF assms])

lemma tri_state_wire:
  assumes "put_omittable (nullable_serialize ser) key x m = Ok m'" and "map_of m key = None"
  shows "(case x of Omitted \<Rightarrow> map_of m' key = None
    | Present Null \<Rightarrow> map_of m' key = Some JNull
    | Present (NonNull v) \<Rightarrow> (\<exists>j. j \<noteq> JNull \<and> map_of m' key = Some j))"
  using assms ser_nonnull
  by (auto simp: put_omittable_def res_bind_Ok_iff split: omittable.splits nullable.splits)

end

section \<open>Codecs of the model\<close>

definition string_serialize :: "bytes serializer" where "string_serialize s = Ok (JString s)"

definition string_deserialize :: "bytes deserializer" where
  "string_deserialize j = ok_or (as_str j) ''invalid type, expected a string''"

interpretation string_codec: nonnull_codec string_serialize string_deserialize
  by unfold_locales (auto simp: string_serialize_def string_deserialize_def)

interpretation extra_codec: nonnull_codec extra_serialize extra_deserialize
  by unfold_locales (auto simp: extra_serialize_def extra_deserialize_def)

section \<open>Properties\<close>

text \<open>
  An optional nullable property keeps its three wire states apart.  For every codec that never
  writes null itself, \<^verbatim>\<open>Omittable<Nullable<T>>\<close> written into an object and read back is unchanged;
  an omitted property leaves no key, an explicit null writes null, a value writes something else.
\<close>

theorem tri_state_field:
  assumes "nonnull_codec ser de" and "map_of m key = None"
    and "put_omittable (nullable_serialize ser) key x m = Ok m'"
  shows "get_omittable (nullable_deserialize de) key m' = Ok x
    \<and> (x = Omitted \<longleftrightarrow> map_of m' key = None) \<and> (x = Present Null \<longleftrightarrow> map_of m' key = Some JNull)"
  using nonnull_codec.tri_state_roundtrip [OF assms] nonnull_codec.tri_state_wire [OF assms(1,3,2)]
  by (auto split: omittable.splits nullable.splits)

theorem tri_state_field_witness:
  "get_omittable (nullable_deserialize string_deserialize) ''user'' [(''user'', JNull)] = Ok (Present Null)"
proof -
  have "put_omittable (nullable_serialize string_serialize) ''user'' (Present Null) [] = Ok [(''user'', JNull)]"
    by (simp add: put_omittable_def)
  from tri_state_field [OF string_codec.nonnull_codec_axioms _ this] show ?thesis by simp
qed

text \<open>
  A required nullable property must be there: the decoder accepts null and values, and reports a
  missing key, which an optional property does not.
\<close>

theorem required_nullable_missing:
  "get_required_nullable de key m = Ok x \<longleftrightarrow>
     (\<exists>j. map_of m key = Some j \<and> (j = JNull \<and> x = Null \<or> j \<noteq> JNull \<and> (\<exists>v. de j = Ok v \<and> x = NonNull v)))"
  by (auto simp: get_required_nullable_def nullable_deserialize_def split: option.split sum.split)

lemma object_discriminator_Ok:
  "object_discriminator v = Ok d \<longleftrightarrow> (\<exists>m. v = JObject m \<and> map_of m ''type'' = Some (JString d))"
proof -
  have "as_object v = Some m \<longleftrightarrow> v = JObject m" for m by (cases v) auto
  moreover have "as_str v = Some s \<longleftrightarrow> v = JString s" for v s by (cases v) auto
  ultimately show ?thesis by (auto simp: object_discriminator_def res_bind_Ok_iff)
qed

lemma unknown_from_value_Ok:
  "unknown_from_value v = Ok u \<longleftrightarrow>
     (\<exists>m. v = JObject m \<and> raw u = m \<and> map_of m ''type'' = Some (JString (discriminator u)))"
  by (cases u) (auto simp: unknown_from_value_def res_bind_Ok_iff object_discriminator_Ok)

text \<open>
  Tagged unions are forward compatible and lossless.  Every JSON object whose string
  \<^verbatim>\<open>type\<close> is not in the union's table decodes to its unknown variant, whose discriminator is that
  \<^verbatim>\<open>type\<close>, and serializing it gives the same object back, field for field and in the same order;
  a known discriminator never falls back to the unknown variant, even if its payload is malformed.
\<close>

theorem tagged_union_unknown:
  "tagged_deserialize table v = Ok (Unknown u) \<longleftrightarrow>
     (\<exists>m. v = JObject m \<and> map_of m ''type'' = Some (JString (discriminator u))
        \<and> map_of table (discriminator u) = None \<and> raw u = m \<and> tagged_serialize ser (Unknown u) = Ok v)"
  by (auto simp: tagged_deserialize_def res_bind_Ok_iff object_discriminator_Ok unknown_from_value_Ok
      unknown_into_value_def split: option.splits)

text \<open>
  \<^verbatim>\<open>ensure_no_reserved\<close> accepts exactly the extra fields that collide with no reserved key, and
  otherwise names the first colliding key in the order of the reserved list.
\<close>

theorem ensure_no_reserved_spec:
  "(ensure_no_reserved ks e = Ok () \<longleftrightarrow> (\<forall>k. \<not> (k \<in> set ks \<and> extra_get e k \<noteq> None)))
   \<and> (ensure_no_reserved ks e = Err (ExtraFieldsConflict k) \<longleftrightarrow>
        (\<exists>before after. ks = before @ k # after \<and> extra_get e k \<noteq> None
          \<and> list_all (\<lambda>b. extra_get e b = None) before))"
proof (induction ks)
  case (Cons a ks)
  show ?case
  proof (cases "extra_get e a = None")
    case True
    then have nc: "\<not> contains_key (extra_map e) a" by (simp add: contains_key_def extra_get_def)
    have "(\<exists>before after. a # ks = before @ k # after \<and> extra_get e k \<noteq> None
          \<and> list_all (\<lambda>b. extra_get e b = None) before) \<longleftrightarrow>
        (\<exists>before after. ks = before @ k # after \<and> extra_get e k \<noteq> None
          \<and> list_all (\<lambda>b. extra_get e b = None) before)"
      using True by (auto simp: Cons_eq_append_conv) (metis list.pred_inject(2))
    with Cons.IH nc True show ?thesis by auto
  next
    case False
    then have "contains_key (extra_map e) a" by (simp add: contains_key_def extra_get_def)
    with False show ?thesis by (auto simp: Cons_eq_append_conv)
  qed
qed simp

end
