(* ===== verification/Tool_Registry.thy ===== *)
theory Tool_Registry
  imports Strict_Schema_Correctness Kernel
begin

text \<open>
  Typed tools and their registry, \<^verbatim>\<open>crates/openai-rs-types/src/structured.rs\<close> and the tool values of
  \<^verbatim>\<open>responses.rs\<close> it builds.

  A handler's arguments and outputs are Rust types chosen by the application; they are values of one
  type \<open>'v\<close> here, with the handler's own decoder and encoder.  Handlers may act on the outside world,
  which is the state \<open>'w\<close> threaded through the calls.  The schema that \<^verbatim>\<open>schemars\<close> derives, the JSON
  text encoder of \<^verbatim>\<open>serde_json\<close> and the rendering of its errors are parameters.
\<close>

section \<open>Strict normalization with the fuel it needs\<close>

definition strict_fuel :: "json \<Rightarrow> nat" where
  "strict_fuel schema = 2 * count_nodes schema + MAX_REF_INLINE_NODES * (2 * MAX_REF_INLINE_NODES + 1)"

definition normalized :: "(json \<Rightarrow> bytes) \<Rightarrow> json \<Rightarrow> (structured_error, json) result" where
  "normalized render schema =
     (case normalize_strict_schema (strict_fuel schema) render schema of
        Some r \<Rightarrow> r | None \<Rightarrow> Err RootMustBeObject)"

section \<open>Typed definitions\<close>

record structured_output =
  so_name :: bytes
  so_description :: "bytes option"
  so_schema :: json

definition structured_output_new ::
    "(json \<Rightarrow> bytes) \<Rightarrow> (bytes, json) result \<Rightarrow> bytes \<Rightarrow> (structured_error, structured_output) result" where
  "structured_output_new render schema_for name =
     res_bind (validate_response_format_name name) (\<lambda>_.
     res_bind (map_err SchemaEncode schema_for) (\<lambda>schema.
     res_bind (normalized render schema) (\<lambda>schema.
       Ok \<lparr>so_name = name, so_description = None, so_schema = schema\<rparr>)))"

definition to_response_format :: "structured_output \<Rightarrow> json" where
  "to_response_format s =
     (let format = obj_insert ''schema'' (so_schema s)
            (obj_insert ''strict'' (JBool True)
              (obj_insert ''name'' (JString (so_name s))
                (obj_insert ''type'' (JString ''json_schema'') [])));
          format = (case so_description s of
              Some d \<Rightarrow> obj_insert ''description'' (JString d) format | None \<Rightarrow> format)
      in JObject format)"

record typed_function =
  tf_name :: bytes
  tf_description :: "bytes option"
  tf_parameters :: json
  tf_output :: json

definition typed_function_new ::
    "(json \<Rightarrow> bytes) \<Rightarrow> (bytes, json) result \<Rightarrow> (bytes, json) result \<Rightarrow> bytes \<Rightarrow>
       (structured_error, typed_function) result" where
  "typed_function_new render schema_for_a schema_for_r name =
     res_bind (validate_function_tool_name name) (\<lambda>_.
     res_bind (map_err SchemaEncode schema_for_a) (\<lambda>parameters.
     res_bind (map_err SchemaEncode schema_for_r) (\<lambda>output.
     res_bind (normalized render parameters) (\<lambda>parameters.
     res_bind (normalized render output) (\<lambda>output.
       Ok \<lparr>tf_name = name, tf_description = None, tf_parameters = parameters, tf_output = output\<rparr>)))))"

definition to_tool_value :: "typed_function \<Rightarrow> json" where
  "to_tool_value f =
     (let tool = obj_insert ''output_schema'' (tf_output f)
            (obj_insert ''parameters'' (tf_parameters f)
              (obj_insert ''strict'' (JBool True)
                (obj_insert ''name'' (JString (tf_name f))
                  (obj_insert ''type'' (JString ''function'') []))));
          tool = (case tf_description f of
              Some d \<Rightarrow> obj_insert ''description'' (JString d) tool | None \<Rightarrow> tool)
      in JObject tool)"

section \<open>Tools and handlers\<close>

record function_tool =
  ft_name :: bytes
  ft_description :: "bytes nullable omittable"
  ft_parameters :: "json nullable omittable"
  ft_output_schema :: "json nullable omittable"
  ft_strict :: "bool nullable omittable"
  ft_defer_loading :: "bool omittable"
  ft_allowed_callers :: "bytes list nullable omittable"
  ft_asynchronous :: "bool omittable"
  ft_extra :: extra_fields

definition function_tool_new :: "bytes \<Rightarrow> function_tool" where
  "function_tool_new name =
     \<lparr>ft_name = name, ft_description = Omitted,
      ft_parameters = Present (NonNull (JObject
        (obj_insert ''properties'' (JObject []) (obj_insert ''type'' (JString ''object'') [])))),
      ft_output_schema = Omitted, ft_strict = Omitted, ft_defer_loading = Omitted,
      ft_allowed_callers = Omitted, ft_asynchronous = Omitted, ft_extra = extra_fields_new\<rparr>"

definition for_type ::
    "(json \<Rightarrow> bytes) \<Rightarrow> (bytes, json) result \<Rightarrow> bytes \<Rightarrow> bytes \<Rightarrow> (structured_error, function_tool) result" where
  "for_type render schema_for name description =
     res_bind (validate_function_tool_name name) (\<lambda>_.
     res_bind (map_err SchemaEncode schema_for) (\<lambda>schema.
     res_bind (normalized render schema) (\<lambda>schema.
       Ok ((function_tool_new name)
             \<lparr>ft_description := Present (NonNull description),
              ft_parameters := Present (NonNull schema),
              ft_strict := Present (NonNull True)\<rparr>))))"

datatype tool_execution_error = Custom bytes | InvalidArguments bytes

fun tool_error_to_string :: "tool_execution_error \<Rightarrow> bytes" where
  "tool_error_to_string (Custom m) = ''tool execution failed: '' @ m"
| "tool_error_to_string (InvalidArguments m) = ''invalid tool arguments: '' @ m"

record tool_context =
  tc_call_id :: bytes

text \<open>A registered handler: its \<^verbatim>\<open>ToolSpec\<close> (name, description, argument schema, argument decoder,
  output encoder) and its \<^verbatim>\<open>call\<close>.\<close>

record ('v, 'w) tool_handler =
  h_name :: bytes
  h_description :: bytes
  h_schema :: "(bytes, json) result"
  h_decode :: "bytes \<Rightarrow> (bytes, 'v) result"
  h_call :: "'v \<Rightarrow> tool_context \<Rightarrow> 'w \<Rightarrow> (tool_execution_error, 'v) result \<times> 'w"
  h_encode :: "'v \<Rightarrow> (bytes, bytes) result"

definition tool_definition ::
    "(json \<Rightarrow> bytes) \<Rightarrow> ('v, 'w) tool_handler \<Rightarrow> (structured_error, function_tool) result" where
  "tool_definition render h = for_type render (h_schema h) (h_name h) (h_description h)"

definition call_erased ::
    "('v, 'w) tool_handler \<Rightarrow> bytes \<Rightarrow> bytes \<Rightarrow> 'w \<Rightarrow> (tool_execution_error, bytes) result \<times> 'w" where
  "call_erased h call_id raw_arguments w =
     (case h_decode h raw_arguments of
        Ok args \<Rightarrow>
          (case h_call h args \<lparr>tc_call_id = call_id\<rparr> w of
             (output, w') \<Rightarrow> (res_bind output (\<lambda>v. map_err Custom (h_encode h v)), w'))
      | Err err \<Rightarrow> (Err (InvalidArguments err), w))"

section \<open>The registry\<close>

record ('v, 'w) tool_registry =
  tools :: "bytes \<rightharpoonup> ('v, 'w) tool_handler"

definition registry_new :: "('v, 'w) tool_registry" where
  "registry_new = \<lparr>tools = Map.empty\<rparr>"

definition register ::
    "('v, 'w) tool_handler \<Rightarrow> ('v, 'w) tool_registry \<Rightarrow>
       (structured_error, unit) result \<times> ('v, 'w) tool_registry" where
  "register handler r =
     (case validate_function_tool_name (h_name handler) of
        Err e \<Rightarrow> (Err e, r)
      | Ok _ \<Rightarrow>
          if tools r (h_name handler) \<noteq> None
          then (Err (InvalidName (''duplicate tool registration: `'' @ h_name handler @ ''`'')), r)
          else (Ok (), r\<lparr>tools := (tools r)(h_name handler \<mapsto> handler)\<rparr>))"

text \<open>\<^verbatim>\<open>HashMap::values\<close> visits the entries in some order of their keys, the parameter \<open>order\<close>.\<close>

fun collect_definitions ::
    "(json \<Rightarrow> bytes) \<Rightarrow> ('v, 'w) tool_handler list \<Rightarrow> (structured_error, function_tool list) result" where
  "collect_definitions render [] = Ok []"
| "collect_definitions render (h # hs) =
     res_bind (tool_definition render h) (\<lambda>d.
     res_bind (collect_definitions render hs) (\<lambda>ds. Ok (d # ds)))"

definition definitions ::
    "(json \<Rightarrow> bytes) \<Rightarrow> bytes list \<Rightarrow> ('v, 'w) tool_registry \<Rightarrow>
       (structured_error, function_tool list) result" where
  "definitions render order r = collect_definitions render (List.map_filter (tools r) order)"

record function_call =
  fc_call_id :: bytes
  fc_name :: bytes
  fc_arguments :: bytes

datatype function_call_output_value = Text bytes

record function_call_output =
  fco_call_id :: "bytes nullable omittable"
  fco_output :: function_call_output_value

definition function_call_output_new :: "bytes \<Rightarrow> bytes \<Rightarrow> function_call_output" where
  "function_call_output_new call_id out =
     \<lparr>fco_call_id = Present (NonNull call_id), fco_output = Text out\<rparr>"

definition execute ::
    "(json \<Rightarrow> (bytes, bytes) result) \<Rightarrow> ('v, 'w) tool_registry \<Rightarrow> function_call \<Rightarrow> 'w \<Rightarrow>
       (structured_error, function_call_output) result \<times> 'w" where
  "execute to_string r call w =
     (case tools r (fc_name call) of
        None \<Rightarrow> (Err (InvalidName (''unknown tool `'' @ fc_name call @ ''`'')), w)
      | Some tool \<Rightarrow>
          (case call_erased tool (fc_call_id call) (fc_arguments call) w of
             (res, w') \<Rightarrow>
               (res_bind (case res of
                    Ok json_output \<Rightarrow> Ok json_output
                  | Err exec_error \<Rightarrow>
                      map_err SchemaEncode (to_string
                        (JObject [(''error'', JString (tool_error_to_string exec_error))])))
                  (\<lambda>out. Ok (function_call_output_new (fc_call_id call) out)), w')))"

fun execute_all ::
    "(json \<Rightarrow> (bytes, bytes) result) \<Rightarrow> ('v, 'w) tool_registry \<Rightarrow> function_call list \<Rightarrow> 'w \<Rightarrow>
       (structured_error, function_call_output list) result \<times> 'w" where
  "execute_all to_string r [] w = (Ok [], w)"
| "execute_all to_string r (call # calls) w =
     (case execute to_string r call w of
        (Err e, w') \<Rightarrow> (Err e, w')
      | (Ok out, w') \<Rightarrow>
          (case execute_all to_string r calls w' of
             (res, w'') \<Rightarrow> (res_bind res (\<lambda>outs. Ok (out # outs)), w'')))"

section \<open>Definitions sent to the service\<close>

lemma normalized_iff:
  "json_wf schema \<Longrightarrow> normalized render schema = r \<longleftrightarrow>
     normalize_strict_schema (strict_fuel schema) render schema = Some r"
  using normalization_ends [of schema "strict_fuel schema" render]
  by (auto simp: normalized_def strict_fuel_def split: option.splits)

text \<open>What the service is promised of a function tool: a legal name and a strict object schema.\<close>

definition tool_strict :: "function_tool \<Rightarrow> bool" where
  "tool_strict t \<longleftrightarrow>
     validate_function_tool_name (ft_name t) = Ok () \<and> ft_strict t = Present (NonNull True)
     \<and> (\<exists>m. ft_parameters t = Present (NonNull (JObject m)) \<and> schema_is_object m \<and> strict_schema (JObject m))"

lemma for_type_strict:
  assumes "for_type render schema_for name description = Ok t" and "\<forall>s. schema_for = Ok s \<longrightarrow> json_wf s"
  shows "tool_strict t \<and> ft_name t = name"
  using assms
  by (auto simp: for_type_def res_bind_Ok_iff tool_strict_def function_tool_new_def normalized_iff
      dest!: accepted_is_strict)

lemma collect_definitions_Ok:
  "collect_definitions render hs = Ok ds \<longleftrightarrow> list_all2 (\<lambda>h d. tool_definition render h = Ok d) hs ds"
  by (induction hs arbitrary: ds) (auto simp: res_bind_Ok_iff list_all2_Cons1)

text \<open>Every registry is built from the empty one by registrations.\<close>

inductive registry_reachable :: "('v, 'w) tool_registry \<Rightarrow> bool" where
  empty_registry: "registry_reachable registry_new"
| registered: "registry_reachable r \<Longrightarrow> registry_reachable (snd (register h r))"

inductive_cases registry_reachableE: "registry_reachable r"

lemma register_Ok_iff:
  "fst (register h r) = Ok () \<longleftrightarrow>
     validate_function_tool_name (h_name h) = Ok () \<and> tools r (h_name h) = None"
  by (auto simp: register_def split: sum.splits)

lemma register_tools:
  "tools (snd (register h r)) n = Some h' \<longleftrightarrow>
     tools r n = Some h' \<or> fst (register h r) = Ok () \<and> n = h_name h \<and> h' = h"
  by (auto simp: register_def split: sum.splits if_splits)

lemma registry_names:
  "registry_reachable r \<Longrightarrow> tools r n = Some h \<Longrightarrow> h_name h = n \<and> validate_function_tool_name n = Ok ()"
  by (induction arbitrary: n h rule: registry_reachable.induct)
    (auto simp: registry_new_def register_tools register_Ok_iff)


text \<open>
  the definitions a registry sends.  In a registry built by registrations, for whatever order the
  hash map enumerates its keys in, a successful \<^verbatim>\<open>definitions\<close> gives one tool per registered
  handler, in that order and under the handler's name; the names are distinct, and every tool has a
  legal name, is marked strict and carries a strict object schema.
\<close>

theorem registry_definitions_strict:
  assumes "registry_reachable r" and "distinct order" and "set order = dom (tools r)"
    and "\<forall>h \<in> ran (tools r). \<forall>s. h_schema h = Ok s \<longrightarrow> json_wf s"
    and "definitions render order r = Ok ds"
  shows "map ft_name ds = order \<and> distinct (map ft_name ds) \<and> list_all tool_strict ds"
proof -
  have "list_all2 (\<lambda>n d. ft_name d = n \<and> tool_strict d) ns ds"
    if "set ns \<subseteq> dom (tools r)"
      "list_all2 (\<lambda>h d. tool_definition render h = Ok d) (List.map_filter (tools r) ns) ds" for ns ds
    using that
  proof (induction ns arbitrary: ds)
    case (Cons n ns)
    then obtain h where h: "tools r n = Some h" by auto
    with Cons.prems(2) obtain d ds' where d: "ds = d # ds'" "tool_definition render h = Ok d"
      "list_all2 (\<lambda>h d. tool_definition render h = Ok d) (List.map_filter (tools r) ns) ds'"
      by (auto simp: list_all2_Cons1)
    have "tool_strict d \<and> ft_name d = h_name h"
      using d(2) assms(4) ranI [of "tools r", OF h] by (auto simp: tool_definition_def intro!: for_type_strict)
    with registry_names [OF assms(1) h] Cons.IH [OF _ d(3)] Cons.prems(1) d(1) show ?case by auto
  qed simp
  from this [of order ds] assms(3,5) have "list_all2 (\<lambda>n d. ft_name d = n \<and> tool_strict d) order ds"
    by (simp add: definitions_def collect_definitions_Ok)
  then have "map ft_name ds = order \<and> list_all tool_strict ds"
    by (induction rule: list_all2_induct) auto
  with assms(2) show ?thesis by simp
qed

definition demo_tool :: "(nat, bytes list) tool_handler" where
  "demo_tool =
     \<lparr>h_name = ''len'', h_description = ''counts'', h_schema = Ok demo_schema,
      h_decode = (\<lambda>s. if s = [] then Err ''EOF'' else Ok (length s)),
      h_call = (\<lambda>n ctx w. (if n = 1 then Err (Custom ''too short'') else Ok n, w @ [tc_call_id ctx])),
      h_encode = (\<lambda>n. Ok (nat_to_string n))\<rparr>"

definition demo_registry :: "(nat, bytes list) tool_registry" where
  "demo_registry = snd (register demo_tool registry_new)"

lemma demo_registry_tools: "tools demo_registry = [''len'' \<mapsto> demo_tool]"
proof -
  have "validate_function_tool_name ''len'' = Ok ()" by code_simp
  then show ?thesis by (simp add: demo_registry_def register_def registry_new_def demo_tool_def)
qed

theorem registry_definitions_strict_witness:
  "\<exists>d. definitions (\<lambda>_. []) [''len''] demo_registry = Ok [d] \<and> tool_strict d \<and> ft_name d = ''len''"
proof -
  have "case normalized (\<lambda>_. []) demo_schema of Ok _ \<Rightarrow> True | _ \<Rightarrow> False" by code_simp
  moreover have "validate_function_tool_name ''len'' = Ok ()" by code_simp
  ultimately obtain d where d: "definitions (\<lambda>_. []) [''len''] demo_registry = Ok [d]"
    by (auto simp: definitions_def demo_registry_tools tool_definition_def demo_tool_def for_type_def
        split: sum.splits)
  have "registry_reachable demo_registry"
    unfolding demo_registry_def by (intro registry_reachable.intros)
  from registry_definitions_strict [OF this _ _ _ d] d show ?thesis
    by (auto simp: demo_registry_tools demo_tool_def demo_schema_def obj_wf_def)
qed

section \<open>Executing calls\<close>

text \<open>\<^verbatim>\<open>serde_json::to_string\<close> encodes every JSON object.\<close>

definition encodes_objects :: "(json \<Rightarrow> (bytes, bytes) result) \<Rightarrow> bool" where
  "encodes_objects to_string \<longleftrightarrow> (\<forall>m. is_ok (to_string (JObject m)))"

text \<open>The text of a result in the \<^verbatim>\<open>output\<close> member.\<close>

definition output_text :: "(json \<Rightarrow> (bytes, bytes) result) \<Rightarrow> (tool_execution_error, bytes) result \<Rightarrow> bytes" where
  "output_text to_string res =
     (case res of
        Ok text \<Rightarrow> text
      | Err e \<Rightarrow> projr (to_string (JObject [(''error'', JString (tool_error_to_string e))])))"

lemma execute_known:
  assumes "encodes_objects to_string" and "tools r (fc_name call) = Some h"
    and "call_erased h (fc_call_id call) (fc_arguments call) w = (res, w')"
  shows "execute to_string r call w = (Ok (function_call_output_new (fc_call_id call) (output_text to_string res)), w')"
proof -
  have "\<exists>s. to_string (JObject m) = Ok s" for m
    using assms(1) by (auto simp: encodes_objects_def is_ok_iff)
  then obtain f where f: "\<And>m. to_string (JObject m) = Ok (f m)" by metis
  show ?thesis using assms(2,3) by (cases res) (simp_all add: execute_def output_text_def f)
qed

lemma execute_unknown:
  "tools r (fc_name call) = None \<Longrightarrow>
     execute to_string r call w = (Err (InvalidName (''unknown tool `'' @ fc_name call @ ''`'')), w)"
  by (simp add: execute_def)

text \<open>
  an unknown tool is the only failure.  With an encoder that accepts JSON objects, \<^verbatim>\<open>execute\<close>
  returns an error exactly when no handler has the called name, and then no handler runs.  Otherwise
  the output carries the call's own identifier, and its text is the handler's encoded output or, when
  the arguments do not decode, the handler fails or its output does not encode, the JSON object
  whose \<^verbatim>\<open>error\<close> member describes the failure.  So the decoding and handler failures listed as errors in
  the function's documentation are delivered to the model in-band instead.
\<close>

theorem execute_fails_only_on_unknown_tool:
  assumes "encodes_objects to_string"
  shows "execute to_string r call w =
    (case tools r (fc_name call) of
       None \<Rightarrow> (Err (InvalidName (''unknown tool `'' @ fc_name call @ ''`'')), w)
     | Some h \<Rightarrow>
         let (res, w') = call_erased h (fc_call_id call) (fc_arguments call) w
         in (Ok (function_call_output_new (fc_call_id call) (output_text to_string res)), w'))"
  using execute_known [OF assms] execute_unknown by (cases "tools r (fc_name call)") (auto split: prod.split)

definition demo_to_string :: "json \<Rightarrow> (bytes, bytes) result" where
  "demo_to_string v = (case v of JObject [(k, JString s)] \<Rightarrow> Ok (k @ s) | _ \<Rightarrow> Ok [])"

lemma demo_to_string_encodes: "encodes_objects demo_to_string"
  by (auto simp: encodes_objects_def demo_to_string_def split: list.split json.split)

definition demo_call :: "bytes \<Rightarrow> bytes \<Rightarrow> bytes \<Rightarrow> function_call" where
  "demo_call cid n args = \<lparr>fc_call_id = cid, fc_name = n, fc_arguments = args\<rparr>"

theorem execute_fails_only_on_unknown_tool_witness:
  "execute demo_to_string demo_registry (demo_call ''c1'' ''len'' ''x'') [] =
     (Ok (function_call_output_new ''c1'' ''errortool execution failed: too short''), [''c1''])"
  by (subst execute_fails_only_on_unknown_tool [OF demo_to_string_encodes])
    (simp add: demo_registry_tools demo_call_def demo_tool_def call_erased_def demo_to_string_def output_text_def)

definition known_tool :: "('v, 'w) tool_registry \<Rightarrow> function_call \<Rightarrow> bool" where
  "known_tool r call \<longleftrightarrow> tools r (fc_name call) \<noteq> None"

definition run_calls ::
    "(json \<Rightarrow> (bytes, bytes) result) \<Rightarrow> ('v, 'w) tool_registry \<Rightarrow> function_call list \<Rightarrow> 'w \<Rightarrow> 'w" where
  "run_calls to_string r calls w = fold (\<lambda>c w. snd (execute to_string r c w)) calls w"

text \<open>
  \<^verbatim>\<open>execute_all\<close> runs the calls in order and stops at the first call of an unknown tool.  The
  effects are exactly those of the calls before it, none after it; when every name is known there
  is one output per call, in the order of the calls and under their identifiers.
\<close>

theorem execute_all_in_order:
  assumes "encodes_objects to_string"
  shows "snd (execute_all to_string r calls w) = run_calls to_string r (takeWhile (known_tool r) calls) w
    \<and> (if list_all (known_tool r) calls
       then \<exists>outs. fst (execute_all to_string r calls w) = Ok outs
         \<and> map fco_call_id outs = map (\<lambda>c. Present (NonNull (fc_call_id c))) calls
       else \<exists>name. fst (execute_all to_string r calls w) = Err (InvalidName (''unknown tool `'' @ name @ ''`'')))"
proof (induction calls arbitrary: w)
  case (Cons call calls)
  show ?case
  proof (cases "known_tool r call")
    case True
    then obtain h res w' where "tools r (fc_name call) = Some h"
      "call_erased h (fc_call_id call) (fc_arguments call) w = (res, w')"
      by (auto simp: known_tool_def) fastforce
    from execute_known [OF assms this] obtain out where
      e: "execute to_string r call w = (Ok out, w')" "fco_call_id out = Present (NonNull (fc_call_id call))"
      by (simp add: function_call_output_new_def)
    with True Cons.IH [of w'] show ?thesis
      by (auto simp: run_calls_def split: prod.splits if_splits)
  next
    case False
    then have "execute to_string r call w = (Err (InvalidName (''unknown tool `'' @ fc_name call @ ''`'')), w)"
      by (intro execute_unknown) (simp add: known_tool_def)
    with False show ?thesis by (auto simp: run_calls_def)
  qed
qed (simp add: run_calls_def)

theorem execute_all_in_order_witness:
  "snd (execute_all demo_to_string demo_registry
     [demo_call ''c1'' ''len'' ''xy'', demo_call ''c2'' ''nope'' [], demo_call ''c3'' ''len'' ''xy''] []) = [''c1'']"
proof -
  note all = execute_all_in_order [OF demo_to_string_encodes, THEN conjunct1]
  have "execute demo_to_string demo_registry (demo_call ''c1'' ''len'' ''xy'') [] =
      (Ok (function_call_output_new ''c1'' (nat_to_string 2)), [''c1''])"
    by (simp add: numeral_2_eq_2 execute_def demo_registry_tools demo_call_def demo_tool_def call_erased_def)
  then show ?thesis
    by (subst all) (simp add: run_calls_def known_tool_def demo_registry_tools demo_call_def)
qed

end
