(* ===== verification/Redaction.thy ===== *)
theory Redaction
  imports Json_Value Utf8
begin

text \<open>
  What the client keeps of a response body, \<^verbatim>\<open>crates/openai-rs-client/src/error.rs\<close>: the bounded
  \<^verbatim>\<open>BodyPreview\<close> and the redaction of JSON values and of free text.  Parsing and printing JSON are
  parameters.
\<close>

definition MAX_BODY_PREVIEW_BYTES :: nat where "MAX_BODY_PREVIEW_BYTES = 8 * 1024"

section \<open>Free text\<close>

abbreviation marker :: bytes where "marker \<equiv> ''[REDACTED]''"

definition redact_prefixes :: "bytes list" where
  "redact_prefixes = [''Bearer '', ''bearer '', ''sk-'', ''sess-'', ''api_key='', ''token='']"

text \<open>\<^verbatim>\<open>str::find\<close>: the offset of the first occurrence.\<close>

fun find_sub :: "'a list \<Rightarrow> 'a list \<Rightarrow> nat option" where
  "find_sub p [] = (if p = [] then Some 0 else None)"
| "find_sub p (x # xs) = (if prefix p (x # xs) then Some 0 else map_option Suc (find_sub p xs))"

text \<open>The characters that end a secret: \<^verbatim>\<open>char::is_whitespace\<close> and the listed punctuation.  The text is
  UTF-8, so each of these byte sequences starts at a character boundary.\<close>

definition unicode_spaces :: "bytes list" where
  "unicode_spaces =
     map (map char_of)
       ([[9], [10], [11], [12], [13], [32], [0xC2, 0x85], [0xC2, 0xA0], [0xE1, 0x9A, 0x80 :: nat]]
        @ map (\<lambda>n. [0xE2, 0x80, 0x80 + n]) [0..<11]
        @ [[0xE2, 0x80, 0xA8], [0xE2, 0x80, 0xA9], [0xE2, 0x80, 0xAF], [0xE2, 0x81, 0x9F], [0xE3, 0x80, 0x80]])"

definition secret_ends :: "bytes \<Rightarrow> bool" where
  "secret_ends s \<longleftrightarrow>
     list_ex (\<lambda>w. prefix w s) unicode_spaces
     \<or> (case s of [] \<Rightarrow> False | c # _ \<Rightarrow> c \<in> set [CHR 0x22, CHR 0x27, CHR '','', CHR '';'', CHR ''<'', CHR ''>'', CHR ''&''])"

fun secret_length :: "bytes \<Rightarrow> nat" where
  "secret_length [] = 0"
| "secret_length (c # cs) = (if secret_ends (c # cs) then 0 else Suc (secret_length cs))"

text \<open>The \<^verbatim>\<open>while let\<close> loop for one prefix; an empty prefix never occurs.\<close>

function redact_loop :: "bytes \<Rightarrow> bytes \<Rightarrow> nat \<Rightarrow> bytes" where
  "redact_loop p output search_from =
     (if p = [] then output
      else case find_sub p (drop search_from output) of
        None \<Rightarrow> output
      | Some relative_start \<Rightarrow>
          let start = search_from + relative_start;
              secret_start = start + length p;
              secret_end = secret_start + secret_length (drop secret_start output)
          in redact_loop p (take start output @ marker @ drop secret_end output) (start + length marker))"
  by pat_completeness auto


lemma find_sub_less: "find_sub p xs = Some n \<Longrightarrow> p \<noteq> [] \<Longrightarrow> n < length xs"
  by (induction xs arbitrary: n) (auto split: if_splits)

termination redact_loop
proof (relation "measure (\<lambda>(p, out, sf). length out - sf)")
  fix p out :: bytes and sf rel start secret_start secret_end
  assume "p \<noteq> []" "find_sub p (drop sf out) = Some rel" "start = sf + rel"
    "secret_start = start + length p" "secret_end = secret_start + secret_length (drop secret_start out)"
  moreover have "rel < length (drop sf out)" using find_sub_less calculation(1,2) by blast
  ultimately show "((p, take start out @ marker @ drop secret_end out, start + length marker), p, out, sf)
      \<in> measure (\<lambda>(p, out, sf). length out - sf)"
    by (cases p) auto
qed simp

declare redact_loop.simps [simp del]

definition redact_inline :: "bytes \<Rightarrow> bytes" where
  "redact_inline input = fold (\<lambda>p output. redact_loop p output 0) redact_prefixes input"

section \<open>JSON values\<close>

definition to_ascii_lowercase :: "bytes \<Rightarrow> bytes" where
  "to_ascii_lowercase s = map (\<lambda>b. if 65 \<le> code b \<and> code b \<le> 90 then char_of (code b + 32) else b) s"

definition sensitive_keys :: "bytes list" where
  "sensitive_keys =
     [''authorization'', ''api_key'', ''apikey'', ''access_token'', ''refresh_token'', ''token'', ''secret'',
      ''password'', ''prompt'', ''input'', ''content'', ''output'', ''text'', ''delta'', ''arguments'', ''after'',
      ''before'', ''cursor'', ''url'', ''uri'', ''metadata'', ''user'', ''email'']"

definition is_sensitive_key :: "bytes \<Rightarrow> bool" where
  "is_sensitive_key key =
     (let normalized = to_ascii_lowercase key
      in list_ex (\<lambda>sensitive. normalized = sensitive \<or> suffix sensitive normalized) sensitive_keys)"

fun redact_json :: "bytes option \<Rightarrow> json \<Rightarrow> json" where
  "redact_json key v =
     (if (case key of Some k \<Rightarrow> is_sensitive_key k | None \<Rightarrow> False) then JString marker
      else case v of
        JObject m \<Rightarrow> JObject (map (\<lambda>(k, c). (k, redact_json (Some k) c)) m)
      | JArray xs \<Rightarrow> JArray (map (redact_json key) xs)
      | JString s \<Rightarrow> JString (redact_inline s)
      | _ \<Rightarrow> v)"

declare redact_json.simps [simp del]

section \<open>Previews\<close>

text \<open>\<^verbatim>\<open>String::from_utf8_lossy\<close>: each maximal malformed sequence becomes U+FFFD.\<close>

definition replacement :: bytes where "replacement = [CHR 0xEF, CHR 0xBF, CHR 0xBD]"

lemma utf8_char_error_len: "utf8_char b bs = Err (Some n) \<Longrightarrow> 0 < n"
  by (auto simp: utf8_char_def split: if_splits list.splits)

lemma utf8_check_error_len: "utf8_check i bs = Some e \<Longrightarrow> error_len e = Some n \<Longrightarrow> 0 < n"
  by (induction i bs rule: utf8_check.induct) (auto dest: utf8_char_error_len split: sum.splits)

function from_utf8_lossy :: "bytes \<Rightarrow> bytes" where
  "from_utf8_lossy bs =
     (case utf8_check 0 bs of
        None \<Rightarrow> bs
      | Some e \<Rightarrow>
          take (valid_up_to e) bs @ replacement
            @ (case error_len e of None \<Rightarrow> [] | Some n \<Rightarrow> from_utf8_lossy (drop (valid_up_to e + n) bs)))"
  by pat_completeness auto
termination
proof (relation "measure length")
  fix bs e n assume "utf8_check 0 bs = Some e" "error_len e = Some n"
  then have "0 < n" "0 < length bs" using utf8_check_error_len utf8_check_position by fastforce+
  then show "(drop (valid_up_to e + n) bs, bs) \<in> measure length" by simp
qed simp

declare from_utf8_lossy.simps [simp del]

definition is_char_boundary :: "bytes \<Rightarrow> nat \<Rightarrow> bool" where
  "is_char_boundary s i \<longleftrightarrow> i = 0 \<or> i = length s \<or> i < length s \<and> \<not> is_cont (s ! i)"

fun floor_boundary :: "bytes \<Rightarrow> nat \<Rightarrow> nat" where
  "floor_boundary s 0 = 0"
| "floor_boundary s (Suc n) = (if is_char_boundary s (Suc n) then Suc n else floor_boundary s n)"

record body_preview =
  preview_text :: bytes
  preview_truncated :: bool

definition preview_from_bytes ::
    "(bytes \<Rightarrow> json option) \<Rightarrow> (json \<Rightarrow> bytes option) \<Rightarrow> bytes \<Rightarrow> bool \<Rightarrow> body_preview" where
  "preview_from_bytes parse to_string bs truncated =
     (let preview_bytes = take (min (length bs) MAX_BODY_PREVIEW_BYTES) bs;
          truncated = (truncated \<or> length preview_bytes < length bs);
          text = (case parse preview_bytes of
              Some v \<Rightarrow>
                (case to_string (redact_json None v) of
                   Some s \<Rightarrow> s | None \<Rightarrow> ''<unavailable JSON body>'')
            | None \<Rightarrow> redact_inline (from_utf8_lossy preview_bytes))
      in if length text > MAX_BODY_PREVIEW_BYTES
         then \<lparr>preview_text = take (floor_boundary text MAX_BODY_PREVIEW_BYTES) text, preview_truncated = True\<rparr>
         else \<lparr>preview_text = text, preview_truncated = truncated\<rparr>)"

section \<open>No marker of a secret survives\<close>

lemma find_sub_None: "p \<noteq> [] \<Longrightarrow> find_sub p xs = None \<longleftrightarrow> \<not> sublist p xs"
  by (induction xs) (auto simp: sublist_Cons_right)

lemma find_sub_Some:
  "find_sub p xs = Some n \<Longrightarrow>
     (\<exists>r. xs = take n xs @ p @ r) \<and> n \<le> length xs \<and> (p \<noteq> [] \<longrightarrow> \<not> sublist p (take n xs))"
proof (induction xs arbitrary: n)
  case (Cons x xs)
  show ?case
  proof (cases "prefix p (x # xs)")
    case True
    with Cons.prems show ?thesis by (auto simp: prefix_def)
  next
    case False
    with Cons.prems obtain m where m: "n = Suc m" "find_sub p xs = Some m" by auto
    have "\<not> prefix p (x # take m xs)" using False prefix_order.trans [of p "x # take m xs" "x # xs"] by (auto simp: take_is_prefix)
    with Cons.IH [OF m(2)] m(1) show ?thesis by (auto simp: sublist_Cons_right)
  qed
qed (auto split: if_splits)

text \<open>The marker shares no character with a prefix, so no occurrence reaches into it.\<close>

lemma sublist_marker:
  assumes "p \<noteq> []" and "set p \<inter> set m = {}" and "m \<noteq> []"
  shows "sublist p (a @ m @ b) \<longleftrightarrow> sublist p a \<or> sublist p b"
proof -
  have disj: "q = []" if "sublist q p" "sublist q m" for q
    using that assms(2) set_mono_sublist by (cases q) fastforce+
  have cross: "xs = []" if "p = ys @ xs" "prefix xs (m @ b)" for xs ys
  proof (cases xs)
    case (Cons x xs')
    with that(2) assms(3) have "x \<in> set m" by (cases m) auto
    with that(1) Cons assms(2) show ?thesis by auto
  qed simp
  have cross': "xs = []" if "p = xs @ ys" "suffix xs m" for xs ys
    using that disj [of xs] by (auto simp: suffix_imp_sublist)
  have "\<not> sublist p m" using disj [of p] assms(1) by auto
  then have "sublist p (m @ b) \<longleftrightarrow> sublist p b"
    using cross' by (auto simp: sublist_append) (metis append_Nil prefix_imp_sublist)
  moreover have "sublist p a" if "p = xs1 @ xs2" "suffix xs1 a" "prefix xs2 (m @ b)" for xs1 xs2
    using cross [OF that(1,3)] that(1,2) suffix_imp_sublist by auto
  ultimately show ?thesis by (auto simp: sublist_append [of p a])
qed

text \<open>The loop on what is left of the text.\<close>

function redact_rest :: "bytes \<Rightarrow> bytes \<Rightarrow> bytes" where
  "redact_rest p rest =
     (if p = [] then rest
      else case find_sub p rest of
        None \<Rightarrow> rest
      | Some n \<Rightarrow>
          take n rest @ marker
            @ redact_rest p (drop (n + length p + secret_length (drop (n + length p) rest)) rest))"
  by pat_completeness auto
termination
proof (relation "measure (\<lambda>(p, rest). length rest)")
  fix p rest :: bytes and n assume "p \<noteq> []" "find_sub p rest = Some n"
  then have "0 < length rest" "0 < n + length p + secret_length (drop (n + length p) rest)"
    using find_sub_less [of p rest n] by auto
  then show "((p, drop (n + length p + secret_length (drop (n + length p) rest)) rest), p, rest)
      \<in> measure (\<lambda>(p, rest). length rest)" by simp
qed simp

declare redact_rest.simps [simp del]

lemma redact_loop_rest: "redact_loop p (a @ rest) (length a) = a @ redact_rest p rest"
proof (induction p rest arbitrary: a rule: redact_rest.induct)
  case (1 p rest)
  show ?case
  proof (cases "find_sub p rest")
    case (Some n)
    show ?thesis
    proof (cases "p = []")
      case False
      let ?e = "n + length p + secret_length (drop (n + length p) rest)"
      have "n \<le> length rest" using find_sub_Some [OF Some] by simp
      then have l: "length (a @ take n rest @ marker) = length a + n + length marker" by simp
      have "redact_loop p ((a @ take n rest @ marker) @ drop ?e rest) (length (a @ take n rest @ marker))
          = (a @ take n rest @ marker) @ redact_rest p (drop ?e rest)"
        using "1.IH" [OF False Some] by blast
      with Some False l \<open>n \<le> length rest\<close> show ?thesis
        by (subst redact_loop.simps, subst redact_rest.simps) (simp add: add.assoc)
    qed (simp add: redact_loop.simps redact_rest.simps)
  qed (simp add: redact_loop.simps redact_rest.simps)
qed

definition marker_free :: "bytes \<Rightarrow> bool" where
  "marker_free p \<longleftrightarrow> p \<noteq> [] \<and> set p \<inter> set marker = {}"

lemma redact_rest_keeps:
  "marker_free q \<Longrightarrow> \<not> sublist q rest \<Longrightarrow> \<not> sublist q (redact_rest p rest)"
proof (induction p rest rule: redact_rest.induct)
  case (1 p rest)
  show ?case
  proof (cases "p = [] \<or> find_sub p rest = None")
    case False
    then obtain n where n: "find_sub p rest = Some n" by auto
    let ?d = "drop (n + length p + secret_length (drop (n + length p) rest)) rest"
    have "\<not> sublist q ?d" "\<not> sublist q (take n rest)"
      using "1.prems"(2) sublist_order.order_trans sublist_drop sublist_take by blast+
    with "1.IH" [OF _ n "1.prems"(1)] "1.prems"(1) False have "\<not> sublist q (take n rest @ marker @ redact_rest p ?d)"
      unfolding marker_free_def by (subst sublist_marker) auto
    with n False show ?thesis by (subst redact_rest.simps) simp
  qed (use 1 in \<open>auto simp: redact_rest.simps\<close>)
qed

lemma redact_rest_clean: "marker_free p \<Longrightarrow> \<not> sublist p (redact_rest p rest)"
proof (induction p rest rule: redact_rest.induct)
  case (1 p rest)
  have ne: "p \<noteq> []" using "1.prems" by (simp add: marker_free_def)
  show ?case
  proof (cases "find_sub p rest")
    case None
    with ne have "\<not> sublist p rest" by (simp add: find_sub_None)
    with None ne show ?thesis by (subst redact_rest.simps) simp
  next
    case (Some n)
    let ?d = "drop (n + length p + secret_length (drop (n + length p) rest)) rest"
    have "\<not> sublist p (take n rest)" using find_sub_Some [OF Some] ne by simp
    with "1.IH" [OF ne Some "1.prems"] "1.prems" have "\<not> sublist p (take n rest @ marker @ redact_rest p ?d)"
      unfolding marker_free_def by (subst sublist_marker) auto
    with Some ne show ?thesis by (subst redact_rest.simps) simp
  qed
qed

lemma redact_prefixes_marker_free: "list_all marker_free redact_prefixes"
  by (simp add: redact_prefixes_def marker_free_def)

lemma redact_fold_clean:
  "list_all marker_free ps \<Longrightarrow> marker_free q \<Longrightarrow> q \<in> set ps \<or> \<not> sublist q s \<Longrightarrow>
     \<not> sublist q (fold (\<lambda>p output. redact_loop p output 0) ps s)"
proof (induction ps arbitrary: s)
  case (Cons p ps)
  have l: "redact_loop p s 0 = redact_rest p s" using redact_loop_rest [of p "[]" s] by simp
  have "q \<in> set ps \<or> \<not> sublist q (redact_rest p s)"
    using Cons.prems redact_rest_keeps redact_rest_clean by auto
  from Cons.IH [OF _ Cons.prems(2) this] Cons.prems(1) l show ?case by simp
qed simp

lemma redact_inline_clean: "p \<in> set redact_prefixes \<Longrightarrow> \<not> sublist p (redact_inline s)"
  unfolding redact_inline_def using redact_prefixes_marker_free
  by (intro redact_fold_clean) (auto simp: list_all_iff)

text \<open>A redacted JSON value: nothing is left under a sensitive key and no string carries a secret marker.\<close>

definition text_clean :: "bytes \<Rightarrow> bool" where
  "text_clean s \<longleftrightarrow> (\<forall>p \<in> set redact_prefixes. \<not> sublist p s)"

fun json_clean :: "json \<Rightarrow> bool" where
  "json_clean (JObject m) =
     list_all (\<lambda>(k, c). (is_sensitive_key k \<longrightarrow> c = JString marker) \<and> json_clean c) m"
| "json_clean (JArray xs) = list_all json_clean xs"
| "json_clean (JString s) = text_clean s"
| "json_clean _ = True"

lemma text_clean_marker [simp]: "text_clean marker"
  by (simp add: text_clean_def redact_prefixes_def sublist_Cons_right)

lemma redact_inline_fixed: "text_clean s \<Longrightarrow> redact_inline s = s"
proof -
  have "redact_loop p s 0 = s" if "p \<noteq> [] \<longrightarrow> \<not> sublist p s" for p
    using that by (subst redact_loop.simps) (auto simp: find_sub_None [THEN iffD2])
  moreover assume "text_clean s"
  ultimately show ?thesis by (simp add: redact_inline_def redact_prefixes_def text_clean_def)
qed

lemma redact_inline_text_clean: "text_clean (redact_inline s)"
  by (simp add: text_clean_def redact_inline_clean)

lemma redact_json_sensitive: "is_sensitive_key k \<Longrightarrow> redact_json (Some k) v = JString marker"
  by (simp add: redact_json.simps)

lemma redact_json_clean: "json_clean (redact_json key v)"
proof (induction key v rule: redact_json.induct)
  case (1 key v)
  show ?case
  proof (cases "case key of Some k \<Rightarrow> is_sensitive_key k | None \<Rightarrow> False")
    case True
    then show ?thesis by (simp add: redact_json.simps)
  next
    case False
    from 1 [OF False] False show ?thesis
      by (subst redact_json.simps)
        (auto simp: list_all_iff redact_inline_text_clean redact_json_sensitive split: json.split)
  qed
qed

lemma redact_json_fixed:
  "json_clean v \<Longrightarrow> (\<forall>k. key = Some k \<longrightarrow> is_sensitive_key k \<longrightarrow> v = JString marker) \<Longrightarrow> redact_json key v = v"
proof (induction key v rule: redact_json.induct)
  case (1 key v)
  show ?case
  proof (cases "case key of Some k \<Rightarrow> is_sensitive_key k | None \<Rightarrow> False")
    case True
    with "1.prems"(2) show ?thesis by (auto simp: redact_json.simps split: option.splits)
  next
    case False
    have obj: "map (\<lambda>(k, c). (k, redact_json (Some k) c)) m = m" if "v = JObject m" for m
      using "1.IH"(2) [OF False that] "1.prems"(1) that by (fastforce simp: list_all_iff intro: map_idI)
    have arr: "map (redact_json key) xs = xs" if "v = JArray xs" for xs
      using "1.IH"(1) [OF False that] "1.prems" False that
      by (intro map_idI) (auto simp: list_all_iff split: option.splits)
    show ?thesis
      using False obj arr "1.prems"(1) redact_inline_fixed
      by (subst redact_json.simps) (auto split: json.split)
  qed
qed

section \<open>The secret itself is removed\<close>

text \<open>What follows a secret, and text at which a secret has ended.\<close>

definition past_secret :: "bytes \<Rightarrow> bytes" where
  "past_secret s = drop (secret_length s) s"

definition at_end :: "bytes \<Rightarrow> bool" where
  "at_end s \<longleftrightarrow> s = [] \<or> secret_ends s"

lemma past_secret_simps [simp]:
  "past_secret [] = []" "past_secret (c # s) = (if secret_ends (c # s) then c # s else past_secret s)"
  by (simp_all add: past_secret_def)

lemma past_secret_at_end: "at_end (past_secret s)"
  by (induction s) (auto simp: at_end_def)

lemma past_secret_fixed: "at_end s \<Longrightarrow> past_secret s = s"
  by (cases s) (auto simp: at_end_def)

lemma past_secret_suffix: "suffix (past_secret s) s"
  by (auto simp: past_secret_def suffix_drop)

lemma past_secret_run: "\<forall>i<length x. \<not> secret_ends (drop i (x @ b)) \<Longrightarrow> past_secret (x @ b) = past_secret b"
proof (induction x)
  case (Cons c x)
  from Cons.prems have "\<not> secret_ends (c # x @ b)" "\<forall>i<length x. \<not> secret_ends (drop i (x @ b))" by fastforce+
  with Cons.IH show ?case by simp
qed simp

text \<open>Whether a secret ends at a byte depends on that byte and on the continuation bytes after it.\<close>

lemma prefix_takeWhile: "list_all P w \<Longrightarrow> prefix w (takeWhile P s) \<longleftrightarrow> prefix w s"
proof (induction w arbitrary: s)
  case (Cons c w)
  then show ?case by (cases s) auto
qed simp

lemma unicode_spaces_conts: "list_all (\<lambda>w. w \<noteq> [] \<and> list_all is_cont (tl w)) unicode_spaces"
  by code_simp

lemma secret_ends_conts: "secret_ends (c # takeWhile is_cont s) \<longleftrightarrow> secret_ends (c # s)"
proof -
  have "prefix w (c # takeWhile is_cont s) \<longleftrightarrow> prefix w (c # s)" if "w \<in> set unicode_spaces" for w
    using unicode_spaces_conts that by (cases w) (auto simp: list_all_iff prefix_takeWhile)
  then show ?thesis by (auto simp: secret_ends_def list_ex_iff)
qed

text \<open>Text of which no byte can be the start of an end.\<close>

abbreviation solid :: "byte \<Rightarrow> bool" where
  "solid c \<equiv> is_ascii c \<and> \<not> secret_ends [c]"

lemma unicode_spaces_ascii: "list_all (\<lambda>w. is_ascii (hd w) \<longrightarrow> tl w = []) unicode_spaces"
  by code_simp

lemma secret_ends_ascii: "is_ascii c \<Longrightarrow> secret_ends (c # s) \<longleftrightarrow> secret_ends [c]"
proof -
  assume c: "is_ascii c"
  have "prefix w (c # s) \<longleftrightarrow> prefix w [c]" if "w \<in> set unicode_spaces" for w
    using unicode_spaces_ascii that c by (cases w) (auto simp: list_all_iff)
  then show ?thesis by (auto simp: secret_ends_def list_ex_iff)
qed

lemma past_secret_solid: "list_all solid u \<Longrightarrow> past_secret (u @ r) = past_secret r"
  by (induction u) (auto simp: secret_ends_ascii)

lemma past_secret_marker: "past_secret (marker @ r) = past_secret r"
  by (rule past_secret_solid) code_simp

lemma prefixes_solid:
  "list_all (\<lambda>q. q \<noteq> [] \<and> solid (hd q) \<and> \<not> is_cont (hd q) \<and> list_all solid (butlast q) \<and> (solid (last q) \<or> last q = CHR '' '')) redact_prefixes"
  by code_simp

lemma prefix_text:
  assumes "q \<in> set redact_prefixes"
  shows "q \<noteq> []" and "\<not> is_cont (hd q)" and "\<not> secret_ends (q @ r)"
    and "past_secret (q @ r) = past_secret r \<or> past_secret (q @ r) = CHR '' '' # r"
proof -
  have q: "q \<noteq> []" "solid (hd q)" "\<not> is_cont (hd q)" "list_all solid (butlast q)" "solid (last q) \<or> last q = CHR '' ''"
    using assms prefixes_solid unfolding list_all_iff by blast+
  then show "q \<noteq> []" "\<not> is_cont (hd q)" by blast+
  show "\<not> secret_ends (q @ r)" using q(1,2) by (cases q) (auto simp: secret_ends_ascii)
  have space: "is_ascii (CHR '' '')" "secret_ends '' ''" by code_simp+
  have "q @ r = (butlast q @ [last q]) @ r" using q(1) by simp
  also have "\<dots> = butlast q @ last q # r" by simp
  finally have e: "q @ r = butlast q @ last q # r" .
  have p: "past_secret (q @ r) = past_secret (last q # r)" by (subst e, rule past_secret_solid [OF q(4)])
  show "past_secret (q @ r) = past_secret r \<or> past_secret (q @ r) = CHR '' '' # r"
  proof (cases "solid (last q)")
    case True
    then show ?thesis unfolding p by (simp add: secret_ends_ascii)
  next
    case False
    then have "last q = CHR '' ''" using q(5) by blast
    moreover have "secret_ends (CHR '' '' # r)" using space(2) secret_ends_ascii [OF space(1), of r] by blast
    ultimately show ?thesis unfolding p by simp
  qed
qed

text \<open>No prefix overlaps another one, or itself.\<close>

lemma prefixes_checked:
  "list_all (\<lambda>p. list_all (\<lambda>q. list_all (\<lambda>v. (prefix v p \<or> prefix p v) \<longrightarrow> v = [] \<or> v = q \<and> p = q) (suffixes q)) redact_prefixes) redact_prefixes"
  by code_simp

lemma prefixes_apart:
  assumes "p \<in> set redact_prefixes" and "q \<in> set redact_prefixes" and "suffix v q" and "v \<noteq> []" and "prefix v p \<or> prefix p v"
  shows "v = q \<and> p = q"
proof -
  have "v \<in> set (suffixes q)" using assms(3) by (simp add: in_set_suffixes)
  then show ?thesis using prefixes_checked assms(1,2,4,5) unfolding list_all_iff by blast
qed

lemma first_occurrence:
  assumes "p \<in> set redact_prefixes" and "q \<in> set redact_prefixes" and "text_clean a" and "i < length (a @ p)"
    and "prefix q (drop i (a @ p @ r))"
  shows "q = p \<and> i = length a"
proof (cases "i < length a")
  case True
  let ?u = "drop i a"
  have "prefix q (?u @ p @ r)" using assms(5) True by simp
  moreover have "\<not> prefix q ?u" using assms(2,3) unfolding text_clean_def by (meson prefix_imp_sublist sublist_drop sublist_order.order_trans)
  ultimately obtain v where v: "q = ?u @ v" "prefix v (p @ r)" by (auto simp: prefix_append)
  then have "v \<noteq> []" using \<open>\<not> prefix q ?u\<close> by auto
  moreover have "prefix v p \<or> prefix p v" using v(2) by (metis prefixI prefix_same_cases)
  ultimately have "v = q" using prefixes_apart [OF assms(1,2), of v] v(1) by (auto simp: suffix_def)
  then show ?thesis using v(1) True by auto
next
  case False
  let ?v = "drop (i - length a) p"
  have "prefix q (?v @ r)" "?v \<noteq> []" using assms(4,5) False by auto
  moreover from this have "prefix ?v q \<or> prefix q ?v" by (metis prefixI prefix_same_cases)
  ultimately have "?v = p \<and> q = p" using prefixes_apart [OF assms(2,1), of ?v] by (simp add: suffix_drop)
  moreover from this have "length p - (i - length a) = length p" "0 < length p" using \<open>?v \<noteq> []\<close> by (metis length_drop, simp)
  ultimately show ?thesis using False by linarith
qed

text \<open>A pass over text that starts, or does not start, with the prefix.\<close>

lemma redact_rest_Nil [simp]: "redact_rest q [] = []"
  by (subst redact_rest.simps) simp

lemma redact_rest_Cons: "q \<noteq> [] \<Longrightarrow> \<not> prefix q (c # s) \<Longrightarrow> redact_rest q (c # s) = c # redact_rest q s"
  by (subst (1 2) redact_rest.simps) (auto split: option.split)

lemma redact_rest_hit: "q \<noteq> [] \<Longrightarrow> redact_rest q (q @ r) = marker @ redact_rest q (past_secret r)"
proof -
  assume "q \<noteq> []"
  moreover from this have "find_sub q (q @ r) = Some 0" by (cases q) auto
  ultimately show ?thesis by (subst redact_rest.simps) (simp add: past_secret_def add.commute)
qed

lemma redact_rest_skip: "q \<noteq> [] \<Longrightarrow> \<forall>i<length u. \<not> prefix q (drop i (u @ r)) \<Longrightarrow> redact_rest q (u @ r) = u @ redact_rest q r"
proof (induction u)
  case (Cons c u)
  from Cons.prems(2) have "\<not> prefix q (c # u @ r)" "\<forall>i<length u. \<not> prefix q (drop i (u @ r))" by fastforce+
  with Cons show ?case by (simp add: redact_rest_Cons)
qed simp

lemma redact_rest_other:
  assumes "p \<in> set redact_prefixes" and "q \<in> set redact_prefixes" and "text_clean a" and "q \<noteq> p"
  shows "redact_rest q (a @ p @ r) = a @ p @ redact_rest q r"
proof -
  have "q \<noteq> []" using assms(2) prefixes_solid by (simp add: list_all_iff)
  moreover have "\<forall>i<length (a @ p). \<not> prefix q (drop i ((a @ p) @ r))"
    using first_occurrence [OF assms(1-3), of _ r] assms(4) unfolding append_assoc by blast
  ultimately show ?thesis using redact_rest_skip [of q "a @ p" r] by simp
qed

lemma redact_rest_first:
  assumes "p \<in> set redact_prefixes" and "text_clean a"
  shows "redact_rest p (a @ p @ r) = a @ marker @ redact_rest p (past_secret r)"
proof -
  have "p \<noteq> []" using assms(1) prefixes_solid by (auto simp: list_all_iff)
  moreover have "\<forall>i<length a. \<not> prefix p (drop i (a @ p @ r))" 
    using first_occurrence [OF assms(1,1,2), of _ r] by (metis less_irrefl length_append trans_less_add1)
  ultimately show ?thesis using redact_rest_skip [of p a "p @ r"] redact_rest_hit [of p r] by simp
qed

lemma redact_rest_disjoint:
  assumes "q \<noteq> []" and "set q \<inter> set m = {}" and "\<not> sublist q a" and "m \<noteq> []"
  shows "redact_rest q (a @ m @ r) = a @ m @ redact_rest q r"
proof -
  have "\<not> prefix q (drop i ((a @ m) @ r))" if "i < length (a @ m)" for i
  proof
    assume pre: "prefix q (drop i ((a @ m) @ r))"
    let ?u = "drop i a" let ?m = "drop (i - length a) m"
    have "prefix q (?u @ ?m @ r)" using pre by (cases "length a \<le> i") (use that in auto)
    moreover have "?m \<noteq> []" using that assms(4) by (cases "length a \<le> i") auto
    moreover have "\<not> prefix q ?u" using assms(3) by (meson prefix_imp_sublist sublist_drop sublist_order.order_trans)
    ultimately obtain v where v: "q = ?u @ v" "v \<noteq> []" "prefix v (?m @ r)" by (auto simp: prefix_append)
    then have "hd v \<in> set ?m" using \<open>?m \<noteq> []\<close> by (metis hd_append2 hd_in_set prefix_def)
    then show False using v(1,2) assms(2) by (metis IntI UnI2 empty_iff hd_in_set in_set_dropD set_append)
  qed
  then show ?thesis using redact_rest_skip [of q "a @ m" r] assms(1) by simp
qed

lemma redact_rest_after:
  assumes "q \<in> set redact_prefixes" and "text_clean a"
  shows "redact_rest q (a @ marker @ r) = a @ marker @ redact_rest q r"
proof (rule redact_rest_disjoint)
  show "q \<noteq> []" "set q \<inter> set marker = {}" using assms(1) redact_prefixes_marker_free unfolding list_all_iff marker_free_def by blast+
  show "\<not> sublist q a" using assms by (simp add: text_clean_def)
  show "marker \<noteq> []" by simp
qed

text \<open>A pass keeps the bytes at which a secret ends.\<close>

lemma conts_redact:
  assumes "q \<in> set redact_prefixes"
  shows "takeWhile is_cont (redact_rest q s) = takeWhile is_cont s"
proof (induction s)
  case (Cons c s)
  show ?case
  proof (cases "prefix q (c # s)")
    case True
    then obtain r where r: "c # s = q @ r" by (auto simp: prefix_def)
    then have "\<not> is_cont c" using prefix_text(1,2) [OF assms] by (cases q) auto
    moreover have "\<not> is_cont (CHR ''['')" by code_simp
    ultimately show ?thesis using redact_rest_hit [OF prefix_text(1) [OF assms], of r] unfolding r [symmetric] by simp
  qed (simp add: redact_rest_Cons [OF prefix_text(1) [OF assms]] Cons)
qed simp

lemma secret_ends_redact:
  assumes "q \<in> set redact_prefixes"
  shows "secret_ends (c # redact_rest q s) \<longleftrightarrow> secret_ends (c # s)"
  using secret_ends_conts [of c "redact_rest q s"] secret_ends_conts [of c s] conts_redact [OF assms, of s] by simp

lemma at_end_redact:
  assumes "q \<in> set redact_prefixes" and "at_end s"
  shows "at_end (redact_rest q s)"
proof (cases s)
  case (Cons c t)
  have "\<not> prefix q (c # t)" using assms Cons prefix_text(3) [OF assms(1)] by (auto simp: at_end_def prefix_def)
  with assms Cons show ?thesis
    by (simp add: redact_rest_Cons [OF prefix_text(1) [OF assms(1)]] at_end_def secret_ends_redact)
qed (simp add: at_end_def)

text \<open>What a pass leaves after the first secret: the text after it, or after another one that began in it.\<close>

inductive trims :: "bytes \<Rightarrow> bytes \<Rightarrow> bool" where
  trims_refl: "trims s s"
| trims_space: "trims (past_secret r) t \<Longrightarrow> trims (CHR '' '' # r) t"

lemma trims_suffix: "trims s t \<Longrightarrow> suffix t s"
proof (induction rule: trims.induct)
  case (trims_space r t)
  then have "suffix t r" using past_secret_suffix suffix_order.trans by blast
  then show ?case by (rule suffix_ConsI)
qed simp

lemma trims_trans: "trims s t \<Longrightarrow> trims t u \<Longrightarrow> trims s u"
  by (induction rule: trims.induct) (auto intro: trims_space)

lemma past_secret_redact:
  assumes "q \<in> set redact_prefixes"
  shows "\<exists>t. trims (past_secret s) t \<and> past_secret (redact_rest q s) = redact_rest q t"
proof (induction s)
  case (Cons c s)
  note pre = prefix_text [OF assms]
  show ?case
  proof (cases "prefix q (c # s)")
    case True
    then obtain r where r: "c # s = q @ r" by (auto simp: prefix_def)
    have "past_secret (redact_rest q (c # s)) = redact_rest q (past_secret r)"
      unfolding r redact_rest_hit [OF pre(1)] past_secret_marker
      by (rule past_secret_fixed [OF at_end_redact [OF assms past_secret_at_end]])
    moreover have "trims (past_secret (c # s)) (past_secret r)"
      unfolding r using pre(4) [of r] trims_space [OF trims_refl, of r] trims_refl by metis
    ultimately show ?thesis by blast
  next
    case False
    then show ?thesis using Cons.IH
      by (auto simp: redact_rest_Cons [OF pre(1)] secret_ends_redact [OF assms] intro: trims_refl)
  qed
qed (auto intro: trims_refl)

lemma trims_redact:
  assumes "trims u t" and "u = redact_rest q s" and "q \<in> set redact_prefixes"
  shows "\<exists>t'. trims s t' \<and> t = redact_rest q t'"
  using assms
proof (induction arbitrary: s rule: trims.induct)
  case (trims_space r t)
  note pre = prefix_text [OF trims_space.prems(2)]
  have "s \<noteq> [] \<and> \<not> prefix q s"
    using trims_space.prems(1) redact_rest_hit [OF pre(1)] by (auto simp: prefix_def)
  then obtain y where y: "s = CHR '' '' # y" "r = redact_rest q y"
    using trims_space.prems(1) by (cases s) (auto simp: redact_rest_Cons [OF pre(1)])
  obtain z where z: "trims (past_secret y) z" "past_secret r = redact_rest q z"
    using past_secret_redact [OF trims_space.prems(2), of y] y(2) by blast
  from trims_space.IH [OF z(2) trims_space.prems(2)] obtain t' where "trims z t'" "t = redact_rest q t'" by blast
  then show ?case using y(1) trims_trans [OF z(1)] by (blast intro: trims.trims_space)
qed (auto intro: trims.trims_refl)

lemma redact_before:
  assumes "p \<in> set redact_prefixes" and "text_clean a" and "set qs \<subseteq> set redact_prefixes - {p}"
  shows "\<exists>r' t. fold redact_rest qs (a @ p @ r) = a @ p @ r' \<and> trims (past_secret r) t \<and> past_secret r' = fold redact_rest qs t"
  using assms(3)
proof (induction qs arbitrary: r)
  case (Cons q qs)
  then have q: "q \<in> set redact_prefixes" "q \<noteq> p" by auto
  obtain u where u: "trims (past_secret r) u" "past_secret (redact_rest q r) = redact_rest q u"
    using past_secret_redact [OF q(1)] by blast
  obtain r' t where t: "fold redact_rest qs (a @ p @ redact_rest q r) = a @ p @ r'" "trims (redact_rest q u) t"
      "past_secret r' = fold redact_rest qs t"
    using Cons.IH [of "redact_rest q r"] Cons.prems u(2) by auto
  obtain t' where "trims u t'" "t = redact_rest q t'" using trims_redact [OF t(2) refl q(1)] by blast
  with t(1,3) trims_trans [OF u(1)] show ?case
    by (auto simp: redact_rest_other [OF assms(1) q(1) assms(2) q(2)])
qed (auto intro: trims_refl)

lemma redact_after: "set qs \<subseteq> set redact_prefixes \<Longrightarrow> text_clean a \<Longrightarrow> fold redact_rest qs (a @ marker @ r) = a @ marker @ fold redact_rest qs r"
proof (induction qs arbitrary: r)
  case (Cons q qs)
  then show ?case using redact_rest_after [of q a] by simp
qed simp

lemma redact_inline_rest: "redact_inline s = fold redact_rest redact_prefixes s"
proof -
  have "(\<lambda>p out. redact_loop p out 0) = redact_rest" using redact_loop_rest [of _ "[]"] by (intro ext) simp
  then show ?thesis by (simp add: redact_inline_def)
qed

lemma redact_inline_secret:
  assumes "p \<in> set redact_prefixes" and "text_clean a" and "\<forall>i<length x. \<not> secret_ends (drop i (x @ b))" and "at_end b"
  shows "\<exists>t. suffix t b \<and> redact_inline (a @ p @ x @ b) = a @ marker @ redact_inline t"
proof -
  have "distinct redact_prefixes" by code_simp
  then obtain before later where split: "redact_prefixes = before @ p # later" "p \<notin> set before"
    by (metis assms(1) split_list_first)
  then have sets: "set before \<subseteq> set redact_prefixes - {p}" "set later \<subseteq> set redact_prefixes"
    by (simp_all add: split(1)) auto
  obtain r t where t: "fold redact_rest before (a @ p @ x @ b) = a @ p @ r" "trims (past_secret (x @ b)) t"
      "past_secret r = fold redact_rest before t"
    using redact_before [OF assms(1,2) sets(1)] by blast
  have "suffix t b" using trims_suffix [OF t(2)] past_secret_run [OF assms(3)] past_secret_fixed [OF assms(4)] by simp
  moreover have "redact_inline (a @ p @ x @ b) = a @ marker @ redact_inline t"
    unfolding redact_inline_rest split(1) using t(1,3) redact_rest_first [OF assms(1,2)] redact_after [OF sets(2) assms(2)] by simp
  ultimately show ?thesis by blast
qed



section \<open>Previews are bounded text\<close>

lemma utf8_char_conts: "utf8_char b bs = Ok n \<Longrightarrow> list_all is_cont (take n bs)"
  by (auto simp: utf8_char_def is_cont_def second_of_three_def second_of_four_def split: if_splits list.splits)

lemma utf8_valid_boundary:
  assumes "utf8_valid s" and "is_char_boundary s i"
  shows "utf8_valid (take i s) \<and> utf8_valid (drop i s)"
  using assms
proof (induction "length s" arbitrary: s i rule: less_induct)
  case less
  show ?case
  proof (cases "i = 0 \<or> i \<ge> length s")
    case False
    then obtain b bs where s: "s = b # bs" by (cases s) auto
    then obtain n where n: "utf8_char b bs = Ok n" "utf8_valid (drop n bs)"
      using less.prems(1) by (auto simp: utf8_valid_Cons split: sum.splits)
    have le: "n \<le> length bs" using utf8_char_OkD [OF n(1)] by simp
    have "n \<le> i - 1"
    proof (rule ccontr)
      assume *: "\<not> n \<le> i - 1"
      then have "is_cont (bs ! (i - 1))"
        using utf8_char_conts [OF n(1)] le by (auto simp: list_all_length)
      with less.prems(2) False s show False by (auto simp: is_char_boundary_def nth_Cons')
    qed
    then obtain j where j: "i = Suc (n + j)" using False by (metis Suc_diff_1 le_iff_add not_gr_zero)
    have "is_char_boundary (drop n bs) j"
      using less.prems(2) False s j le by (auto simp: is_char_boundary_def)
    moreover have "length (drop n bs) < length s" using s by simp
    ultimately have IH: "utf8_valid (take j (drop n bs)) \<and> utf8_valid (drop j (drop n bs))"
      using less.hyps n(2) by blast
    have t: "take (n + j) bs = take n bs @ take j (drop n bs)" by (simp add: take_add)
    have "utf8_char b (take (n + j) bs) = Ok n" using utf8_char_OkD [OF n(1)] t by auto
    moreover have "drop n (take (n + j) bs) = take j (drop n bs)" by (simp add: drop_take)
    ultimately show ?thesis using IH s j by (simp add: utf8_valid_Cons add.commute)
  qed (use less.prems in auto)
qed

lemma floor_boundary: "is_char_boundary s (floor_boundary s n) \<and> floor_boundary s n \<le> n"
  by (induction s n rule: floor_boundary.induct) (auto simp: is_char_boundary_def)

lemma from_utf8_lossy_valid: "utf8_valid (from_utf8_lossy bs)"
proof (induction bs rule: from_utf8_lossy.induct)
  case (1 bs)
  show ?case
  proof (cases "utf8_check 0 bs")
    case None
    then show ?thesis by (subst from_utf8_lossy.simps) (simp add: utf8_valid_def)
  next
    case (Some e)
    have "utf8_valid (take (valid_up_to e) bs)" using utf8_check_position [OF Some] by simp
    moreover have "utf8_valid replacement" by code_simp
    moreover have "utf8_valid (case error_len e of None \<Rightarrow> [] | Some n \<Rightarrow> from_utf8_lossy (drop (valid_up_to e + n) bs))"
      using "1.IH" [OF Some] by (auto split: option.split)
    ultimately show ?thesis using Some
      by (subst from_utf8_lossy.simps) (simp add: utf8_valid_append)
  qed
qed

text \<open>A secret ends where a character starts, so cutting it out keeps the text UTF-8.\<close>

lemma secret_ends_boundary: "secret_ends (c # cs) \<Longrightarrow> \<not> is_cont c"
  by (auto simp: secret_ends_def unicode_spaces_def is_cont_def code_def list_ex_iff upt_conv_Cons)

lemma secret_length_nth: "secret_length s < length s \<Longrightarrow> \<not> is_cont (s ! secret_length s)"
  by (induction s) (auto dest: secret_ends_boundary)

lemma secret_length_boundary: "is_char_boundary s (secret_length s) \<and> secret_length s \<le> length s"
proof -
  have "secret_length s \<le> length s" by (induction s) auto
  with secret_length_nth [of s] show ?thesis by (auto simp: is_char_boundary_def)
qed

lemma utf8_valid_ascii_append: "list_all is_ascii p \<Longrightarrow> utf8_valid (p @ r) \<longleftrightarrow> utf8_valid r"
  by (induction p) auto

lemma redact_rest_utf8:
  "list_all is_ascii p \<Longrightarrow> utf8_valid rest \<Longrightarrow> utf8_valid (redact_rest p rest)"
proof (induction p rest rule: redact_rest.induct)
  case (1 p rest)
  show ?case
  proof (cases "p = [] \<or> find_sub p rest = None")
    case False
    then obtain n where n: "find_sub p rest = Some n" by auto
    then obtain r where r: "rest = take n rest @ p @ r" and le: "n \<le> length rest" using find_sub_Some by blast
    from False obtain c p' where p: "p = c # p'" by (cases p) auto
    with "1.prems"(1) have c: "is_ascii c" by simp
    have "utf8_valid (take n rest)" "utf8_valid (p' @ r)"
      using utf8_valid_cut [OF _ c, of "take n rest" "p' @ r"] "1.prems"(2) r p by simp_all
    then have v: "utf8_valid (take n rest)" "utf8_valid r"
      using "1.prems"(1) p by (simp_all add: utf8_valid_ascii_append)
    have d: "drop (n + length p) rest = r"
      using r le by (metis append_eq_conv_conj drop_drop length_take min.absorb2 add.commute)
    then have "drop (n + length p + secret_length r) rest = drop (secret_length r) r"
      by (metis add.commute drop_drop)
    moreover have "utf8_valid (drop (secret_length r) r)"
      using utf8_valid_boundary [OF v(2)] secret_length_boundary by blast
    ultimately have "utf8_valid (redact_rest p (drop (n + length p + secret_length (drop (n + length p) rest)) rest))"
      using "1.IH" [OF _ n "1.prems"(1)] False d by simp
    moreover have "utf8_valid marker" by code_simp
    ultimately have "utf8_valid (take n rest @ marker
        @ redact_rest p (drop (n + length p + secret_length (drop (n + length p) rest)) rest))"
      using v(1) by (intro utf8_valid_append)
    with n False show ?thesis by (subst redact_rest.simps) simp
  qed (use 1 in \<open>auto simp: redact_rest.simps\<close>)
qed

lemma redact_inline_utf8: "utf8_valid s \<Longrightarrow> utf8_valid (redact_inline s)"
proof -
  have "utf8_valid s \<Longrightarrow> list_all (list_all is_ascii) ps \<Longrightarrow>
      utf8_valid (fold (\<lambda>p output. redact_loop p output 0) ps s)" for ps
    using redact_loop_rest [of _ "[]"] redact_rest_utf8
    by (induction ps arbitrary: s) auto
  moreover have "list_all (list_all is_ascii) redact_prefixes" by code_simp
  moreover assume "utf8_valid s"
  ultimately show ?thesis by (simp add: redact_inline_def)
qed

text \<open>
  a preview is bounded text.  For a printer that produces UTF-8, whatever the body, the kept text is
  at most 8 KiB of valid UTF-8, cut at a character boundary; and when anything was cut, the preview says
  so.
\<close>

theorem preview_bounded:
  assumes "\<And>v s. to_string v = Some s \<Longrightarrow> utf8_valid s"
  shows "length (preview_text (preview_from_bytes parse to_string bs truncated)) \<le> MAX_BODY_PREVIEW_BYTES
    \<and> utf8_valid (preview_text (preview_from_bytes parse to_string bs truncated))
    \<and> (truncated \<or> MAX_BODY_PREVIEW_BYTES < length bs \<longrightarrow>
         preview_truncated (preview_from_bytes parse to_string bs truncated))"
proof -
  define t where "t = (case parse (take (min (length bs) MAX_BODY_PREVIEW_BYTES) bs) of
      Some v \<Rightarrow> (case to_string (redact_json None v) of Some s \<Rightarrow> s | None \<Rightarrow> ''<unavailable JSON body>'')
    | None \<Rightarrow> redact_inline (from_utf8_lossy (take (min (length bs) MAX_BODY_PREVIEW_BYTES) bs)))"
  have "utf8_valid ''<unavailable JSON body>''" by code_simp
  then have t: "utf8_valid t"
    using assms redact_inline_utf8 [OF from_utf8_lossy_valid] by (auto simp: t_def split: option.split)
  note cut = utf8_valid_boundary [OF t] floor_boundary [of t MAX_BODY_PREVIEW_BYTES]
  have "preview_from_bytes parse to_string bs truncated =
      (if length t > MAX_BODY_PREVIEW_BYTES
       then \<lparr>preview_text = take (floor_boundary t MAX_BODY_PREVIEW_BYTES) t, preview_truncated = True\<rparr>
       else \<lparr>preview_text = t, preview_truncated = (truncated \<or> MAX_BODY_PREVIEW_BYTES < length bs)\<rparr>)"
    unfolding preview_from_bytes_def Let_def t_def [symmetric] by auto
  with t cut show ?thesis by auto
qed

theorem preview_bounded_witness:
  "preview_text (preview_from_bytes (\<lambda>_. None) (\<lambda>_. None) (''key sk-abc, '' @ [CHR 0xFF]) False)
     = ''key [REDACTED], '' @ replacement
   \<and> utf8_valid (''key [REDACTED], '' @ replacement)"
proof -
  let ?p = "preview_from_bytes (\<lambda>_. None) (\<lambda>_. None) (''key sk-abc, '' @ [CHR 0xFF]) False"
  have "preview_text ?p = ''key [REDACTED], '' @ replacement" by code_simp
  with preview_bounded [of "\<lambda>_. None" "\<lambda>_. None" "''key sk-abc, '' @ [CHR 0xFF]" False] show ?thesis by simp
qed

end
