(* ===== verification/Btree_Map.thy ===== *)
theory Btree_Map
  imports Prelude "HOL-Library.RBT" "HOL-Library.Product_Lexorder"
begin

text \<open>
  The ordered maps of the accumulators (\<^verbatim>\<open>std::collections::BTreeMap\<close>): the laws a client relies on,
  as an interface, and red-black trees as the executable provider.
\<close>

lemma sorted_assoc_unique:
  fixes xs ys :: "('k::linorder \<times> 'v) list"
  assumes "map_of xs = map_of ys"
    and "sorted (map fst xs)" "distinct (map fst xs)" "sorted (map fst ys)" "distinct (map fst ys)"
  shows "xs = ys"
proof -
  have "set (map fst xs) = set (map fst ys)" using assms(1) by (metis dom_map_of_conv_image_fst set_map)
  then have k: "map fst xs = map fst ys" using assms by (intro sorted_distinct_set_unique) auto
  have v: "map snd zs = map (\<lambda>k. the (map_of zs k)) (map fst zs)" if "distinct (map fst zs)" for zs :: "('k \<times> 'v) list"
    using that by (auto simp: map_of_is_SomeI)
  have "map snd xs = map snd ys" using v [OF assms(3)] v [OF assms(5)] k assms(1) by simp
  with k show ?thesis by (rule pair_list_eqI)
qed

locale ordered_map =
  fixes lookup :: "'m \<Rightarrow> 'k::linorder \<Rightarrow> 'v option"
    and insert :: "'k \<Rightarrow> 'v \<Rightarrow> 'm \<Rightarrow> 'm"
    and entries :: "'m \<Rightarrow> ('k \<times> 'v) list"
  assumes lookup_insert: "lookup (insert k v m) = (lookup m)(k \<mapsto> v)"
    and lookup_entries: "map_of (entries m) = lookup m"
    and sorted_entries: "sorted (map fst (entries m))"
    and distinct_entries: "distinct (map fst (entries m))"
begin

lemma entries_iff: "(k, v) \<in> set (entries m) \<longleftrightarrow> lookup m k = Some v"
  using distinct_entries [of m] by (metis lookup_entries map_of_eq_Some_iff)

lemma entries_unique:
  assumes "map_of es = lookup m" and "sorted (map fst es)" and "distinct (map fst es)"
  shows "entries m = es"
  using assms by (intro sorted_assoc_unique) (simp_all add: lookup_entries sorted_entries distinct_entries)

text \<open>The values of an ordered map, seen through a projection, are determined by its lookups.\<close>

lemma values_determined:
  assumes "\<And>k. map_option g (lookup m k) = map_option g (lookup m' k)"
  shows "map (g \<circ> snd) (entries m) = map (g \<circ> snd) (entries m')"
proof -
  let ?e = "\<lambda>m. map (\<lambda>(k, v). (k, g v)) (entries m)"
  have "?e m = ?e m'"
  proof (rule sorted_assoc_unique)
    show "map_of (?e m) = map_of (?e m')"
      using assms by (simp add: map_of_map lookup_entries fun_eq_iff)
  qed (use sorted_entries distinct_entries in \<open>simp_all add: split_def comp_def\<close>)
  then have "map snd (?e m) = map snd (?e m')" by simp
  then show ?thesis by (simp add: split_def comp_def)
qed

text \<open>\<^verbatim>\<open>values().find(..)\<close> finds a value with the property whenever the map has one.\<close>

lemma find_values: "find P (map snd (entries m)) = None \<longleftrightarrow> (\<forall>k v. lookup m k = Some v \<longrightarrow> \<not> P v)"
  by (auto simp: find_None_iff entries_iff [symmetric] Ball_def)

end

interpretation btree: ordered_map RBT.lookup RBT.insert RBT.entries
  by unfold_locales
    (simp_all add: RBT.map_of_entries RBT.distinct_entries RBT.sorted_entries)

end
