(* ===== verification/Reducer.thy ===== *)
theory Reducer
  imports Prelude
begin

text \<open>
  Stream accumulators as interfaces: a state that consumes events one by one, may refuse an event,
  and closes.  \<open>push_all\<close> is the loop with which every stream of the client drains into its
  accumulator, \<^verbatim>\<open>while let Some(event) = stream.next().await { accumulator.push(event?)?; }\<close>.
\<close>

definition and_then ::
    "('e, unit) result \<times> 's \<Rightarrow> ('s \<Rightarrow> ('e, unit) result \<times> 's) \<Rightarrow> ('e, unit) result \<times> 's" where
  "and_then r f = (case r of (Err e, s) \<Rightarrow> (Err e, s) | (Ok _, s) \<Rightarrow> f s)"

lemma and_then_simps [simp]:
  "and_then (Ok u, s) f = f s" "and_then (Err e, s) f = (Err e, s)"
  by (simp_all add: and_then_def)

lemma and_then_Ok_iff:
  "and_then r f = (Ok u, s') \<longleftrightarrow> (\<exists>s. r = (Ok (), s) \<and> f s = (Ok u, s'))"
  by (cases r; cases "fst r") auto

lemma and_then_assoc: "and_then (and_then r f) g = and_then r (\<lambda>s. and_then (f s) g)"
  by (cases r; cases "fst r") auto

lemma snd_and_then:
  "snd (and_then r f) = (if is_ok (fst r) then snd (f (snd r)) else snd r)"
  by (cases r; cases "fst r") auto

lemma fst_and_then:
  "fst (and_then r f) = (if is_ok (fst r) then fst (f (snd r)) else fst r)"
  by (cases r; cases "fst r") auto

fun push_all ::
    "('ev \<Rightarrow> 's \<Rightarrow> ('e, unit) result \<times> 's) \<Rightarrow> 'ev list \<Rightarrow> 's \<Rightarrow> ('e, unit) result \<times> 's" where
  "push_all push [] s = (Ok (), s)"
| "push_all push (e # es) s = and_then (push e s) (push_all push es)"

lemma push_all_append: "push_all push (xs @ ys) s = and_then (push_all push xs s) (push_all push ys)"
proof (induction xs arbitrary: s)
  case (Cons x xs)
  have "push_all push (xs @ ys) = (\<lambda>s. and_then (push_all push xs s) (push_all push ys))"
    by (rule ext) (rule Cons.IH)
  then show ?case by (simp add: and_then_assoc)
qed simp

locale reducer =
  fixes push :: "'ev \<Rightarrow> 's \<Rightarrow> ('e, unit) result \<times> 's"
    and init :: 's
    and inv :: "'s \<Rightarrow> bool"
    and closed :: "'s \<Rightarrow> bool"
  assumes inv_init: "inv init"
    and inv_push: "inv s \<Longrightarrow> inv (snd (push e s))"
    and closed_refuses: "closed s \<Longrightarrow> \<not> is_ok (fst (push e s))"
    and closed_kept: "closed s \<Longrightarrow> snd (push e s) = s"
begin

lemma inv_push_all: "inv s \<Longrightarrow> inv (snd (push_all push es s))"
  by (induction es arbitrary: s) (auto simp: snd_and_then intro: inv_push)

lemma closed_push_all: "closed s \<Longrightarrow> push_all push es s = (Ok (), s') \<Longrightarrow> es = [] \<and> s' = s"
  by (cases es) (auto simp: and_then_Ok_iff dest!: closed_refuses [where e = "hd es"])

text \<open>An accepted run closes with its last event or stays open.\<close>

lemma closes_last:
  assumes "push_all push es init = (Ok (), s)" and "closed s" and "\<not> closed init"
  shows "\<exists>es' e s'. es = es' @ [e] \<and> push_all push es' init = (Ok (), s') \<and> \<not> closed s' \<and> push e s' = (Ok (), s)"
proof (cases es rule: rev_cases)
  case (snoc es' e)
  with assms(1) obtain s' where s': "push_all push es' init = (Ok (), s')" "push e s' = (Ok (), s)"
    by (auto simp: push_all_append and_then_Ok_iff)
  then have "\<not> closed s'" using closed_refuses [of s' e] by auto
  with s' snoc show ?thesis by blast
qed (use assms in auto)

end

end
