(* ===== verification/Response_Accumulator.thy ===== *)
theory Response_Accumulator
  imports Btree_Map Reducer Kernel
begin

text \<open>
  The reducer of a Responses event stream, \<^verbatim>\<open>ResponseAccumulator\<close> in
  \<^verbatim>\<open>crates/openai-rs-types/src/responses.rs\<close>.

  The events and output items keep the source's constructors; their payloads keep the members that the
  reducer reads, and the rest of a \<^verbatim>\<open>Response\<close> is carried along as JSON.  Every operation returns its
  result and the accumulator it leaves behind, also after an error.  Constructors whose bare name is
  taken elsewhere are \<open>UnknownItem\<close>, \<open>UnknownEvent\<close>, \<open>ErrorEvent\<close> and \<open>StreamFailure\<close>.
\<close>

section \<open>Items and events\<close>

datatype output_content =
    OutputText bytes
  | Refusal bytes
  | ReasoningText bytes
  | UnknownContent json_map

record output_message =
  om_id :: bytes
  om_content :: "output_content list"

record output_function_call =
  ofc_id :: "bytes omittable"
  ofc_name :: bytes
  ofc_arguments :: bytes

record identified_item =
  ii_id :: bytes
  ii_rest :: json_map

datatype (plugins only: code size) response_output_item =
    Message output_message
  | FileSearchCall identified_item
  | FunctionCall output_function_call
  | FunctionCallOutput identified_item
  | WebSearchCall identified_item
  | ComputerCall identified_item
  | ComputerCallOutput identified_item
  | Reasoning identified_item
  | Program identified_item
  | ProgramOutput identified_item
  | ToolSearchCall identified_item
  | ToolSearchOutput identified_item
  | AdditionalTools identified_item
  | Compaction identified_item
  | ImageGenerationCall identified_item
  | CodeInterpreterCall identified_item
  | LocalShellCall identified_item
  | LocalShellCallOutput identified_item
  | FunctionShellCall identified_item
  | FunctionShellCallOutput identified_item
  | ApplyPatchCall identified_item
  | ApplyPatchCallOutput identified_item
  | McpListTools identified_item
  | McpCall identified_item
  | McpApprovalRequest identified_item
  | McpApprovalResponse identified_item
  | CustomToolCall json
  | CustomToolCallOutput identified_item
  | UnknownItem json_map

primrec response_output_item_id :: "response_output_item \<Rightarrow> bytes option" where
  "response_output_item_id (Message v) = Some (om_id v)"
| "response_output_item_id (FileSearchCall v) = Some (ii_id v)"
| "response_output_item_id (FunctionCall v) = omittable_into_option (ofc_id v)"
| "response_output_item_id (FunctionCallOutput v) = Some (ii_id v)"
| "response_output_item_id (WebSearchCall v) = Some (ii_id v)"
| "response_output_item_id (ComputerCall v) = Some (ii_id v)"
| "response_output_item_id (ComputerCallOutput v) = Some (ii_id v)"
| "response_output_item_id (Reasoning v) = Some (ii_id v)"
| "response_output_item_id (Program v) = Some (ii_id v)"
| "response_output_item_id (ProgramOutput v) = Some (ii_id v)"
| "response_output_item_id (ToolSearchCall v) = Some (ii_id v)"
| "response_output_item_id (ToolSearchOutput v) = Some (ii_id v)"
| "response_output_item_id (AdditionalTools v) = Some (ii_id v)"
| "response_output_item_id (Compaction v) = Some (ii_id v)"
| "response_output_item_id (ImageGenerationCall v) = Some (ii_id v)"
| "response_output_item_id (CodeInterpreterCall v) = Some (ii_id v)"
| "response_output_item_id (LocalShellCall v) = Some (ii_id v)"
| "response_output_item_id (LocalShellCallOutput v) = Some (ii_id v)"
| "response_output_item_id (FunctionShellCall v) = Some (ii_id v)"
| "response_output_item_id (FunctionShellCallOutput v) = Some (ii_id v)"
| "response_output_item_id (ApplyPatchCall v) = Some (ii_id v)"
| "response_output_item_id (ApplyPatchCallOutput v) = Some (ii_id v)"
| "response_output_item_id (McpListTools v) = Some (ii_id v)"
| "response_output_item_id (McpCall v) = Some (ii_id v)"
| "response_output_item_id (McpApprovalRequest v) = Some (ii_id v)"
| "response_output_item_id (McpApprovalResponse v) = Some (ii_id v)"
| "response_output_item_id (CustomToolCall v) = None"
| "response_output_item_id (CustomToolCallOutput v) = Some (ii_id v)"
| "response_output_item_id (UnknownItem obj) = Option.bind (map_of obj ''id'') as_str"

record response =
  resp_output :: "response_output_item list"
  resp_rest :: json_map

definition text_parts :: "output_message \<Rightarrow> bytes list" where
  "text_parts m = List.map_filter (\<lambda>part. case part of OutputText t \<Rightarrow> Some t | _ \<Rightarrow> None) (om_content m)"

definition response_output_text :: "response \<Rightarrow> bytes" where
  "response_output_text r =
     concat (concat (List.map_filter
       (\<lambda>item. case item of Message m \<Rightarrow> Some (text_parts m) | _ \<Rightarrow> None) (resp_output r)))"

record lifecycle_event =
  le_response :: response
  le_sequence :: nat

record output_item_event =
  oi_output_index :: nat
  oi_item :: response_output_item
  oi_sequence :: nat

record content_part_event =
  cp_item_id :: bytes
  cp_output_index :: nat
  cp_content_index :: nat
  cp_part :: output_content
  cp_sequence :: nat

record text_event =
  te_item_id :: bytes
  te_output_index :: nat
  te_content_index :: nat
  te_text :: bytes
  te_sequence :: nat

record arguments_event =
  ae_item_id :: bytes
  ae_output_index :: nat
  ae_arguments :: bytes
  ae_sequence :: nat

record item_event =
  ie_item_id :: bytes
  ie_output_index :: nat
  ie_sequence :: nat

record plain_event =
  pe_sequence :: nat

record stream_error_event =
  se_code :: "bytes nullable"
  se_message :: bytes
  se_param :: "bytes nullable"
  se_sequence :: nat

datatype (plugins only: code size) response_stream_event =
    AudioDelta plain_event
  | AudioDone plain_event
  | AudioTranscriptDelta plain_event
  | AudioTranscriptDone plain_event
  | CodeInterpreterCodeDelta item_event
  | CodeInterpreterCodeDone item_event
  | CodeInterpreterCompleted item_event
  | CodeInterpreterInProgress item_event
  | CodeInterpreterInterpreting item_event
  | Queued lifecycle_event
  | Created lifecycle_event
  | InProgress lifecycle_event
  | Completed lifecycle_event
  | Failed lifecycle_event
  | Incomplete lifecycle_event
  | OutputItemAdded output_item_event
  | OutputItemDone output_item_event
  | ContentPartAdded content_part_event
  | ContentPartDone content_part_event
  | OutputTextDelta text_event
  | OutputTextDone text_event
  | RefusalDelta item_event
  | RefusalDone item_event
  | FunctionCallArgumentsDelta arguments_event
  | FunctionCallArgumentsDone arguments_event
  | FileSearchCompleted item_event
  | FileSearchInProgress item_event
  | FileSearchSearching item_event
  | ShellCommandAdded plain_event
  | ShellCommandDelta plain_event
  | ShellCommandDone plain_event
  | ShellOutputContentDelta item_event
  | ShellOutputContentDone item_event
  | ReasoningSummaryPartAdded item_event
  | ReasoningSummaryPartDone item_event
  | ReasoningSummaryTextDelta item_event
  | ReasoningSummaryTextDone item_event
  | ReasoningTextDelta item_event
  | ReasoningTextDone item_event
  | WebSearchCompleted item_event
  | WebSearchInProgress item_event
  | WebSearchSearching item_event
  | ImageGenerationCompleted item_event
  | ImageGenerationGenerating item_event
  | ImageGenerationInProgress item_event
  | ImageGenerationPartialImage item_event
  | McpCallArgumentsDelta item_event
  | McpCallArgumentsDone item_event
  | McpCallInProgress item_event
  | McpCallCompleted item_event
  | McpCallFailed item_event
  | McpListToolsInProgress item_event
  | McpListToolsCompleted item_event
  | McpListToolsFailed item_event
  | OutputTextAnnotationAdded item_event
  | CustomToolCallInputDelta item_event
  | CustomToolCallInputDone item_event
  | ErrorEvent stream_error_event
  | UnknownEvent json_map

definition event_is_terminal :: "response_stream_event \<Rightarrow> bool" where
  "event_is_terminal event =
     (case event of Completed _ \<Rightarrow> True | Failed _ \<Rightarrow> True | Incomplete _ \<Rightarrow> True | ErrorEvent _ \<Rightarrow> True
      | _ \<Rightarrow> False)"

definition event_is_error :: "response_stream_event \<Rightarrow> bool" where
  "event_is_error event = (case event of ErrorEvent _ \<Rightarrow> True | _ \<Rightarrow> False)"

primrec sequence_number :: "response_stream_event \<Rightarrow> nat option" where
  "sequence_number (AudioDelta v) = Some (pe_sequence v)"
| "sequence_number (AudioDone v) = Some (pe_sequence v)"
| "sequence_number (AudioTranscriptDelta v) = Some (pe_sequence v)"
| "sequence_number (AudioTranscriptDone v) = Some (pe_sequence v)"
| "sequence_number (CodeInterpreterCodeDelta v) = Some (ie_sequence v)"
| "sequence_number (CodeInterpreterCodeDone v) = Some (ie_sequence v)"
| "sequence_number (CodeInterpreterCompleted v) = Some (ie_sequence v)"
| "sequence_number (CodeInterpreterInProgress v) = Some (ie_sequence v)"
| "sequence_number (CodeInterpreterInterpreting v) = Some (ie_sequence v)"
| "sequence_number (Queued v) = Some (le_sequence v)"
| "sequence_number (Created v) = Some (le_sequence v)"
| "sequence_number (InProgress v) = Some (le_sequence v)"
| "sequence_number (Completed v) = Some (le_sequence v)"
| "sequence_number (Failed v) = Some (le_sequence v)"
| "sequence_number (Incomplete v) = Some (le_sequence v)"
| "sequence_number (OutputItemAdded v) = Some (oi_sequence v)"
| "sequence_number (OutputItemDone v) = Some (oi_sequence v)"
| "sequence_number (ContentPartAdded v) = Some (cp_sequence v)"
| "sequence_number (ContentPartDone v) = Some (cp_sequence v)"
| "sequence_number (OutputTextDelta v) = Some (te_sequence v)"
| "sequence_number (OutputTextDone v) = Some (te_sequence v)"
| "sequence_number (RefusalDelta v) = Some (ie_sequence v)"
| "sequence_number (RefusalDone v) = Some (ie_sequence v)"
| "sequence_number (FunctionCallArgumentsDelta v) = Some (ae_sequence v)"
| "sequence_number (FunctionCallArgumentsDone v) = Some (ae_sequence v)"
| "sequence_number (FileSearchCompleted v) = Some (ie_sequence v)"
| "sequence_number (FileSearchInProgress v) = Some (ie_sequence v)"
| "sequence_number (FileSearchSearching v) = Some (ie_sequence v)"
| "sequence_number (ShellCommandAdded v) = Some (pe_sequence v)"
| "sequence_number (ShellCommandDelta v) = Some (pe_sequence v)"
| "sequence_number (ShellCommandDone v) = Some (pe_sequence v)"
| "sequence_number (ShellOutputContentDelta v) = Some (ie_sequence v)"
| "sequence_number (ShellOutputContentDone v) = Some (ie_sequence v)"
| "sequence_number (ReasoningSummaryPartAdded v) = Some (ie_sequence v)"
| "sequence_number (ReasoningSummaryPartDone v) = Some (ie_sequence v)"
| "sequence_number (ReasoningSummaryTextDelta v) = Some (ie_sequence v)"
| "sequence_number (ReasoningSummaryTextDone v) = Some (ie_sequence v)"
| "sequence_number (ReasoningTextDelta v) = Some (ie_sequence v)"
| "sequence_number (ReasoningTextDone v) = Some (ie_sequence v)"
| "sequence_number (WebSearchCompleted v) = Some (ie_sequence v)"
| "sequence_number (WebSearchInProgress v) = Some (ie_sequence v)"
| "sequence_number (WebSearchSearching v) = Some (ie_sequence v)"
| "sequence_number (ImageGenerationCompleted v) = Some (ie_sequence v)"
| "sequence_number (ImageGenerationGenerating v) = Some (ie_sequence v)"
| "sequence_number (ImageGenerationInProgress v) = Some (ie_sequence v)"
| "sequence_number (ImageGenerationPartialImage v) = Some (ie_sequence v)"
| "sequence_number (McpCallArgumentsDelta v) = Some (ie_sequence v)"
| "sequence_number (McpCallArgumentsDone v) = Some (ie_sequence v)"
| "sequence_number (McpCallInProgress v) = Some (ie_sequence v)"
| "sequence_number (McpCallCompleted v) = Some (ie_sequence v)"
| "sequence_number (McpCallFailed v) = Some (ie_sequence v)"
| "sequence_number (McpListToolsInProgress v) = Some (ie_sequence v)"
| "sequence_number (McpListToolsCompleted v) = Some (ie_sequence v)"
| "sequence_number (McpListToolsFailed v) = Some (ie_sequence v)"
| "sequence_number (OutputTextAnnotationAdded v) = Some (ie_sequence v)"
| "sequence_number (CustomToolCallInputDelta v) = Some (ie_sequence v)"
| "sequence_number (CustomToolCallInputDone v) = Some (ie_sequence v)"
| "sequence_number (ErrorEvent v) = Some (se_sequence v)"
| "sequence_number (UnknownEvent obj) =
     (case map_of obj ''sequence_number'' of Some (JNumber (PosInt n)) \<Rightarrow> Some n | _ \<Rightarrow> None)"

section \<open>The accumulator\<close>

datatype accumulator_error =
    DuplicateSequence nat
  | NonMonotonicSequence nat nat
  | EventAfterTerminal
  | ItemIdentityMismatch nat bytes bytes
  | ContentIdentityMismatch nat nat bytes bytes
  | StreamFailure "bytes option" bytes "bytes option" nat
  | MissingTerminal

record accumulated_text =
  at_item_id :: bytes
  at_text :: bytes

record accumulated_arguments =
  aa_item_id :: bytes
  aa_arguments :: bytes

record response_accumulator =
  acc_last_sequence_number :: "nat option"
  acc_item_ids :: "(nat, bytes) rbt"
  acc_text :: "(nat \<times> nat, accumulated_text) rbt"
  acc_function_arguments :: "(nat, accumulated_arguments) rbt"
  acc_snapshot :: "response option"
  acc_terminal :: bool

definition accumulator_new :: response_accumulator where
  "accumulator_new =
     \<lparr>acc_last_sequence_number = None, acc_item_ids = RBT.empty, acc_text = RBT.empty,
      acc_function_arguments = RBT.empty, acc_snapshot = None, acc_terminal = False\<rparr>"

definition bind_item ::
    "nat \<Rightarrow> bytes \<Rightarrow> response_accumulator \<Rightarrow> (accumulator_error, unit) result \<times> response_accumulator" where
  "bind_item output_index item_id acc =
     (case RBT.lookup (acc_item_ids acc) output_index of
        Some expected \<Rightarrow>
          if expected \<noteq> item_id then (Err (ItemIdentityMismatch output_index expected item_id), acc)
          else (Ok (), acc)
      | None \<Rightarrow> (Ok (), acc\<lparr>acc_item_ids := RBT.insert output_index item_id (acc_item_ids acc)\<rparr>))"

definition append_text ::
    "nat \<Rightarrow> nat \<Rightarrow> bytes \<Rightarrow> bytes \<Rightarrow> response_accumulator \<Rightarrow>
       (accumulator_error, unit) result \<times> response_accumulator" where
  "append_text output_index content_index item_id delta acc =
     (let key = (output_index, content_index)
      in case RBT.lookup (acc_text acc) key of
           Some part \<Rightarrow>
             if at_item_id part \<noteq> item_id
             then (Err (ContentIdentityMismatch output_index content_index (at_item_id part) item_id), acc)
             else (Ok (), acc\<lparr>acc_text := RBT.insert key (part\<lparr>at_text := at_text part @ delta\<rparr>) (acc_text acc)\<rparr>)
         | None \<Rightarrow>
             (Ok (), acc\<lparr>acc_text := RBT.insert key \<lparr>at_item_id = item_id, at_text = delta\<rparr> (acc_text acc)\<rparr>))"

definition set_text ::
    "nat \<Rightarrow> nat \<Rightarrow> bytes \<Rightarrow> bytes \<Rightarrow> response_accumulator \<Rightarrow>
       (accumulator_error, unit) result \<times> response_accumulator" where
  "set_text output_index content_index item_id text acc =
     (let key = (output_index, content_index);
          write = (Ok (), acc\<lparr>acc_text := RBT.insert key \<lparr>at_item_id = item_id, at_text = text\<rparr> (acc_text acc)\<rparr>)
      in case RBT.lookup (acc_text acc) key of
           Some part \<Rightarrow>
             if at_item_id part \<noteq> item_id
             then (Err (ContentIdentityMismatch output_index content_index (at_item_id part) item_id), acc)
             else write
         | None \<Rightarrow> write)"

definition append_function_arguments ::
    "nat \<Rightarrow> bytes \<Rightarrow> bytes \<Rightarrow> response_accumulator \<Rightarrow>
       (accumulator_error, unit) result \<times> response_accumulator" where
  "append_function_arguments output_index item_id delta acc =
     (case RBT.lookup (acc_function_arguments acc) output_index of
        Some args \<Rightarrow>
          if aa_item_id args \<noteq> item_id
          then (Err (ItemIdentityMismatch output_index (aa_item_id args) item_id), acc)
          else (Ok (), acc\<lparr>acc_function_arguments :=
                 RBT.insert output_index (args\<lparr>aa_arguments := aa_arguments args @ delta\<rparr>)
                   (acc_function_arguments acc)\<rparr>)
      | None \<Rightarrow>
          (Ok (), acc\<lparr>acc_function_arguments :=
             RBT.insert output_index \<lparr>aa_item_id = item_id, aa_arguments = delta\<rparr>
               (acc_function_arguments acc)\<rparr>))"

definition set_function_arguments ::
    "nat \<Rightarrow> bytes \<Rightarrow> bytes \<Rightarrow> response_accumulator \<Rightarrow>
       (accumulator_error, unit) result \<times> response_accumulator" where
  "set_function_arguments output_index item_id arguments acc =
     (let write = (Ok (), acc\<lparr>acc_function_arguments :=
            RBT.insert output_index \<lparr>aa_item_id = item_id, aa_arguments = arguments\<rparr>
              (acc_function_arguments acc)\<rparr>)
      in case RBT.lookup (acc_function_arguments acc) output_index of
           Some current \<Rightarrow>
             if aa_item_id current \<noteq> item_id
             then (Err (ItemIdentityMismatch output_index (aa_item_id current) item_id), acc)
             else write
         | None \<Rightarrow> write)"

fun observe_contents ::
    "nat \<Rightarrow> nat \<Rightarrow> bytes \<Rightarrow> output_content list \<Rightarrow> response_accumulator \<Rightarrow>
       (accumulator_error, unit) result \<times> response_accumulator" where
  "observe_contents output_index content_index item_id [] acc = (Ok (), acc)"
| "observe_contents output_index content_index item_id (content # contents) acc =
     and_then (case content of
         OutputText text \<Rightarrow> set_text output_index content_index item_id text acc
       | _ \<Rightarrow> (Ok (), acc))
       (observe_contents output_index (content_index + 1) item_id contents)"

definition observe_output_item ::
    "nat \<Rightarrow> response_output_item \<Rightarrow> response_accumulator \<Rightarrow>
       (accumulator_error, unit) result \<times> response_accumulator" where
  "observe_output_item output_index item acc =
     and_then (case response_output_item_id item of
         Some item_id \<Rightarrow> bind_item output_index item_id acc | None \<Rightarrow> (Ok (), acc))
       (\<lambda>acc. case item of
          Message m \<Rightarrow> observe_contents output_index 0 (om_id m) (om_content m) acc
        | FunctionCall call \<Rightarrow>
            (case ofc_id call of
               Present item_id \<Rightarrow> set_function_arguments output_index item_id (ofc_arguments call) acc
             | Omitted \<Rightarrow> (Ok (), acc))
        | _ \<Rightarrow> (Ok (), acc))"

fun observe_items ::
    "nat \<Rightarrow> response_output_item list \<Rightarrow> response_accumulator \<Rightarrow>
       (accumulator_error, unit) result \<times> response_accumulator" where
  "observe_items output_index [] acc = (Ok (), acc)"
| "observe_items output_index (item # items) acc =
     and_then (observe_output_item output_index item acc) (observe_items (output_index + 1) items)"

definition accept_response ::
    "response \<Rightarrow> bool \<Rightarrow> response_accumulator \<Rightarrow> (accumulator_error, unit) result \<times> response_accumulator" where
  "accept_response r is_final acc =
     and_then (observe_items 0 (resp_output r) acc)
       (\<lambda>acc. (Ok (), acc\<lparr>acc_snapshot := Some r, acc_terminal := is_final\<rparr>))"

definition accept_part ::
    "content_part_event \<Rightarrow> response_accumulator \<Rightarrow> (accumulator_error, unit) result \<times> response_accumulator" where
  "accept_part e acc =
     and_then (bind_item (cp_output_index e) (cp_item_id e) acc)
       (\<lambda>acc. case cp_part e of
          OutputText text \<Rightarrow> set_text (cp_output_index e) (cp_content_index e) (cp_item_id e) text acc
        | _ \<Rightarrow> (Ok (), acc))"

text \<open>The match of \<^verbatim>\<open>push\<close> on the event.\<close>

primrec reduce ::
    "response_stream_event \<Rightarrow> response_accumulator \<Rightarrow> (accumulator_error, unit) result \<times> response_accumulator" where
  "reduce (AudioDelta e) acc = (Ok (), acc)"
| "reduce (AudioDone e) acc = (Ok (), acc)"
| "reduce (AudioTranscriptDelta e) acc = (Ok (), acc)"
| "reduce (AudioTranscriptDone e) acc = (Ok (), acc)"
| "reduce (CodeInterpreterCodeDelta e) acc = bind_item (ie_output_index e) (ie_item_id e) acc"
| "reduce (CodeInterpreterCodeDone e) acc = bind_item (ie_output_index e) (ie_item_id e) acc"
| "reduce (CodeInterpreterCompleted e) acc = bind_item (ie_output_index e) (ie_item_id e) acc"
| "reduce (CodeInterpreterInProgress e) acc = bind_item (ie_output_index e) (ie_item_id e) acc"
| "reduce (CodeInterpreterInterpreting e) acc = bind_item (ie_output_index e) (ie_item_id e) acc"
| "reduce (Queued e) acc = accept_response (le_response e) False acc"
| "reduce (Created e) acc = accept_response (le_response e) False acc"
| "reduce (InProgress e) acc = accept_response (le_response e) False acc"
| "reduce (Completed e) acc = accept_response (le_response e) True acc"
| "reduce (Failed e) acc = accept_response (le_response e) True acc"
| "reduce (Incomplete e) acc = accept_response (le_response e) True acc"
| "reduce (OutputItemAdded e) acc = observe_output_item (oi_output_index e) (oi_item e) acc"
| "reduce (OutputItemDone e) acc = observe_output_item (oi_output_index e) (oi_item e) acc"
| "reduce (ContentPartAdded e) acc = accept_part e acc"
| "reduce (ContentPartDone e) acc = accept_part e acc"
| "reduce (OutputTextDelta e) acc =
     and_then (bind_item (te_output_index e) (te_item_id e) acc)
       (append_text (te_output_index e) (te_content_index e) (te_item_id e) (te_text e))"
| "reduce (OutputTextDone e) acc =
     and_then (bind_item (te_output_index e) (te_item_id e) acc)
       (set_text (te_output_index e) (te_content_index e) (te_item_id e) (te_text e))"
| "reduce (RefusalDelta e) acc = bind_item (ie_output_index e) (ie_item_id e) acc"
| "reduce (RefusalDone e) acc = bind_item (ie_output_index e) (ie_item_id e) acc"
| "reduce (FunctionCallArgumentsDelta e) acc =
     and_then (bind_item (ae_output_index e) (ae_item_id e) acc)
       (append_function_arguments (ae_output_index e) (ae_item_id e) (ae_arguments e))"
| "reduce (FunctionCallArgumentsDone e) acc =
     and_then (bind_item (ae_output_index e) (ae_item_id e) acc)
       (set_function_arguments (ae_output_index e) (ae_item_id e) (ae_arguments e))"
| "reduce (FileSearchCompleted e) acc = bind_item (ie_output_index e) (ie_item_id e) acc"
| "reduce (FileSearchInProgress e) acc = bind_item (ie_output_index e) (ie_item_id e) acc"
| "reduce (FileSearchSearching e) acc = bind_item (ie_output_index e) (ie_item_id e) acc"
| "reduce (ShellCommandAdded e) acc = (Ok (), acc)"
| "reduce (ShellCommandDelta e) acc = (Ok (), acc)"
| "reduce (ShellCommandDone e) acc = (Ok (), acc)"
| "reduce (ShellOutputContentDelta e) acc = bind_item (ie_output_index e) (ie_item_id e) acc"
| "reduce (ShellOutputContentDone e) acc = bind_item (ie_output_index e) (ie_item_id e) acc"
| "reduce (ReasoningSummaryPartAdded e) acc = bind_item (ie_output_index e) (ie_item_id e) acc"
| "reduce (ReasoningSummaryPartDone e) acc = bind_item (ie_output_index e) (ie_item_id e) acc"
| "reduce (ReasoningSummaryTextDelta e) acc = bind_item (ie_output_index e) (ie_item_id e) acc"
| "reduce (ReasoningSummaryTextDone e) acc = bind_item (ie_output_index e) (ie_item_id e) acc"
| "reduce (ReasoningTextDelta e) acc = bind_item (ie_output_index e) (ie_item_id e) acc"
| "reduce (ReasoningTextDone e) acc = bind_item (ie_output_index e) (ie_item_id e) acc"
| "reduce (WebSearchCompleted e) acc = bind_item (ie_output_index e) (ie_item_id e) acc"
| "reduce (WebSearchInProgress e) acc = bind_item (ie_output_index e) (ie_item_id e) acc"
| "reduce (WebSearchSearching e) acc = bind_item (ie_output_index e) (ie_item_id e) acc"
| "reduce (ImageGenerationCompleted e) acc = bind_item (ie_output_index e) (ie_item_id e) acc"
| "reduce (ImageGenerationGenerating e) acc = bind_item (ie_output_index e) (ie_item_id e) acc"
| "reduce (ImageGenerationInProgress e) acc = bind_item (ie_output_index e) (ie_item_id e) acc"
| "reduce (ImageGenerationPartialImage e) acc = bind_item (ie_output_index e) (ie_item_id e) acc"
| "reduce (McpCallArgumentsDelta e) acc = bind_item (ie_output_index e) (ie_item_id e) acc"
| "reduce (McpCallArgumentsDone e) acc = bind_item (ie_output_index e) (ie_item_id e) acc"
| "reduce (McpCallInProgress e) acc = bind_item (ie_output_index e) (ie_item_id e) acc"
| "reduce (McpCallCompleted e) acc = bind_item (ie_output_index e) (ie_item_id e) acc"
| "reduce (McpCallFailed e) acc = bind_item (ie_output_index e) (ie_item_id e) acc"
| "reduce (McpListToolsInProgress e) acc = bind_item (ie_output_index e) (ie_item_id e) acc"
| "reduce (McpListToolsCompleted e) acc = bind_item (ie_output_index e) (ie_item_id e) acc"
| "reduce (McpListToolsFailed e) acc = bind_item (ie_output_index e) (ie_item_id e) acc"
| "reduce (OutputTextAnnotationAdded e) acc = bind_item (ie_output_index e) (ie_item_id e) acc"
| "reduce (CustomToolCallInputDelta e) acc = bind_item (ie_output_index e) (ie_item_id e) acc"
| "reduce (CustomToolCallInputDone e) acc = bind_item (ie_output_index e) (ie_item_id e) acc"
| "reduce (ErrorEvent e) acc =
     (Err (StreamFailure (nullable_into_option (se_code e)) (se_message e)
        (nullable_into_option (se_param e)) (se_sequence e)), acc)"
| "reduce (UnknownEvent obj) acc = (Ok (), acc)"

definition check_sequence ::
    "response_stream_event \<Rightarrow> response_accumulator \<Rightarrow> (accumulator_error, unit) result \<times> response_accumulator" where
  "check_sequence event acc =
     (case sequence_number event of
        None \<Rightarrow> (Ok (), acc)
      | Some n \<Rightarrow>
          (case acc_last_sequence_number acc of
             Some previous \<Rightarrow>
               if n = previous then (Err (DuplicateSequence n), acc)
               else if n < previous then (Err (NonMonotonicSequence previous n), acc)
               else (Ok (), acc\<lparr>acc_last_sequence_number := Some n\<rparr>)
           | None \<Rightarrow> (Ok (), acc\<lparr>acc_last_sequence_number := Some n\<rparr>)))"

definition acc_push ::
    "response_stream_event \<Rightarrow> response_accumulator \<Rightarrow> (accumulator_error, unit) result \<times> response_accumulator" where
  "acc_push event acc =
     (if acc_terminal acc then (Err EventAfterTerminal, acc)
      else and_then (check_sequence event acc) (reduce event))"

definition acc_output_text :: "response_accumulator \<Rightarrow> bytes" where
  "acc_output_text acc =
     (case (acc_terminal acc, acc_snapshot acc) of
        (True, Some r) \<Rightarrow> response_output_text r
      | _ \<Rightarrow> concat (map (at_text \<circ> snd) (RBT.entries (acc_text acc))))"

definition acc_arguments :: "bytes \<Rightarrow> response_accumulator \<Rightarrow> bytes option" where
  "acc_arguments item_id acc =
     map_option aa_arguments
       (find (\<lambda>a. aa_item_id a = item_id) (map snd (RBT.entries (acc_function_arguments acc))))"

definition acc_finish :: "response_accumulator \<Rightarrow> (accumulator_error, response) result" where
  "acc_finish acc =
     (if \<not> acc_terminal acc then Err MissingTerminal else ok_or (acc_snapshot acc) MissingTerminal)"

end
