(* ===== verification/Client_Error.thy ===== *)
theory Client_Error
  imports Redaction Operation Pagination Sse_Decoder Response_Accumulator
begin

text \<open>
  The client's errors, \<^verbatim>\<open>crates/openai-rs-client/src/error.rs\<close>: the typed API error and the in-band stream
  error, built leniently from a body, and the client-wide error type.  The decoding of the two envelope
  shapes, the text form of a JSON value and of a status code come from libraries and are parameters, as is
  an HTTP library error.
\<close>

section \<open>API errors\<close>

record error_body =
  eb_message :: "json option"
  eb_kind :: "json option"
  eb_param :: "json option"
  eb_code :: "json option"

record error_codec =
  flat_body :: "bytes \<Rightarrow> error_body option"
  nested_body :: "bytes \<Rightarrow> error_body option"
  value_to_string :: "json \<Rightarrow> bytes"
  status_to_string :: "nat \<Rightarrow> bytes"
  parse_json :: "bytes \<Rightarrow> json option"
  print_json :: "json \<Rightarrow> bytes option"

definition value_string :: "error_codec \<Rightarrow> json option \<Rightarrow> bytes option" where
  "value_string c value =
     Option.bind value (\<lambda>v. case v of
        JNull \<Rightarrow> None
      | JString s \<Rightarrow> Some (redact_inline s)
      | v \<Rightarrow> Some (redact_inline (value_to_string c v)))"

text \<open>One field: the flat form wins, the nested envelope fills what the flat form lacks.\<close>

definition envelope_field :: "error_codec \<Rightarrow> bytes \<Rightarrow> (error_body \<Rightarrow> json option) \<Rightarrow> bytes option" where
  "envelope_field c bs field =
     or_else (Option.bind (flat_body c bs) (\<lambda>e. value_string c (field e)))
       (Option.bind (nested_body c bs) (\<lambda>e. value_string c (field e)))"

definition body_preview_of :: "error_codec \<Rightarrow> bytes \<Rightarrow> bool \<Rightarrow> body_preview" where
  "body_preview_of c = preview_from_bytes (parse_json c) (print_json c)"

record api_error =
  api_meta :: response_meta
  api_message :: bytes
  api_kind :: "bytes option"
  api_param :: "bytes option"
  api_code :: "bytes option"
  api_body :: body_preview

definition api_error_from_body :: "error_codec \<Rightarrow> response_meta \<Rightarrow> bytes \<Rightarrow> bool \<Rightarrow> api_error" where
  "api_error_from_body c mt bs truncated =
     \<lparr>api_meta = mt,
      api_message = (case envelope_field c bs eb_message of
          Some m \<Rightarrow> m
        | None \<Rightarrow> ''OpenAI API returned HTTP '' @ status_to_string c (meta_status mt)),
      api_kind = envelope_field c bs eb_kind,
      api_param = envelope_field c bs eb_param,
      api_code = envelope_field c bs eb_code,
      api_body = body_preview_of c bs truncated\<rparr>"

definition is_rate_limited :: "api_error \<Rightarrow> bool" where
  "is_rate_limited e \<longleftrightarrow> meta_status (api_meta e) = 429"

definition is_server_error :: "api_error \<Rightarrow> bool" where
  "is_server_error e \<longleftrightarrow> 500 \<le> meta_status (api_meta e)"

section \<open>Stream errors\<close>

record stream_error =
  str_request_id :: "bytes option"
  str_message :: bytes
  str_kind :: "bytes option"
  str_code :: "bytes option"
  str_param :: "bytes option"
  str_body :: body_preview

definition stream_error_from_body :: "error_codec \<Rightarrow> bytes option \<Rightarrow> bytes \<Rightarrow> stream_error" where
  "stream_error_from_body c request_id bs =
     \<lparr>str_request_id = request_id,
      str_message = (case envelope_field c bs eb_message of
          Some m \<Rightarrow> m | None \<Rightarrow> ''OpenAI returned an in-band stream error''),
      str_kind = envelope_field c bs eb_kind,
      str_code = envelope_field c bs eb_code,
      str_param = envelope_field c bs eb_param,
      str_body = body_preview_of c bs False\<rparr>"

section \<open>The client error\<close>

text \<open>An HTTP library error: whether it is a timeout, and the URL it may carry.\<close>

record http_error =
  he_timeout :: bool
  he_url :: "bytes option"
  he_text :: bytes

definition without_url :: "http_error \<Rightarrow> http_error" where
  "without_url e = e\<lparr>he_url := None\<rparr>"

datatype workload_identity_error =
    RefreshDeadlineExceeded
  | SubjectTokenFailed
  | ExchangeTransport
  | OAuthRejected nat body_preview
  | ExchangeRejected nat body_preview
  | InvalidResponse bytes body_preview

fun workload_status :: "workload_identity_error \<Rightarrow> nat option" where
  "workload_status (OAuthRejected st _) = Some st"
| "workload_status (ExchangeRejected st _) = Some st"
| "workload_status RefreshDeadlineExceeded = None"
| "workload_status SubjectTokenFailed = None"
| "workload_status ExchangeTransport = None"
| "workload_status (InvalidResponse _ _) = None"

text \<open>The arguments of a constructor are the variant's fields in their order.\<close>

datatype client_error =
    Api api_error
  | Transport http_error
  | Timeout http_error
  | DeadlineExceeded
  | ResponseBody http_error nat "bytes option"
  | Encode bytes
  | EncodeQuery bytes
  | SseFailure sse_decode_error "bytes option"
  | StreamErr stream_error
  | StreamProtocol bytes "bytes option" body_preview
  | UnexpectedContentType bytes "bytes option" nat "bytes option"
  | Decode bytes "bytes option" nat "bytes option" body_preview
  | BodyTooLarge nat nat "bytes option"
  | InvalidUtf8 nat "bytes option" body_preview
  | InvalidConfiguration bytes
  | PaginationError bytes pagination_fault
  | RequestPayloadTooLarge nat
  | InvalidPathParameter bytes bytes
  | Accumulator accumulator_error
  | WebSocketHandshake nat "bytes option" body_preview
  | WebSocketTransport bytes
  | WebSocketProtocol bytes
  | WorkloadIdentity workload_identity_error

definition from_reqwest :: "http_error \<Rightarrow> client_error" where
  "from_reqwest e = (if he_timeout e then Timeout (without_url e) else Transport (without_url e))"

definition from_response_body :: "http_error \<Rightarrow> response_meta \<Rightarrow> client_error" where
  "from_response_body e mt = ResponseBody (without_url e) (meta_status mt) (meta_request_id mt)"

definition error_status :: "client_error \<Rightarrow> nat option" where
  "error_status error =
     (case error of
        Api e \<Rightarrow> Some (meta_status (api_meta e))
      | Decode _ _ st _ _ \<Rightarrow> Some st
      | BodyTooLarge _ st _ \<Rightarrow> Some st
      | InvalidUtf8 st _ _ \<Rightarrow> Some st
      | ResponseBody _ st _ \<Rightarrow> Some st
      | UnexpectedContentType _ _ st _ \<Rightarrow> Some st
      | WebSocketHandshake st _ _ \<Rightarrow> Some st
      | WorkloadIdentity e \<Rightarrow> workload_status e
      | _ \<Rightarrow> None)"

definition error_request_id :: "client_error \<Rightarrow> bytes option" where
  "error_request_id error =
     (case error of
        Api e \<Rightarrow> meta_request_id (api_meta e)
      | Decode _ _ _ request_id _ \<Rightarrow> request_id
      | BodyTooLarge _ _ request_id \<Rightarrow> request_id
      | InvalidUtf8 _ request_id _ \<Rightarrow> request_id
      | ResponseBody _ _ request_id \<Rightarrow> request_id
      | UnexpectedContentType _ _ _ request_id \<Rightarrow> request_id
      | SseFailure _ request_id \<Rightarrow> request_id
      | StreamErr e \<Rightarrow> str_request_id e
      | StreamProtocol _ request_id _ \<Rightarrow> request_id
      | WebSocketHandshake _ request_id _ \<Rightarrow> request_id
      | _ \<Rightarrow> None)"

definition decode_path :: "client_error \<Rightarrow> bytes option" where
  "decode_path error = (case error of Decode _ path _ _ _ \<Rightarrow> path | _ \<Rightarrow> None)"

definition handshake_body :: "client_error \<Rightarrow> body_preview option" where
  "handshake_body error = (case error of WebSocketHandshake _ _ bs \<Rightarrow> Some bs | _ \<Rightarrow> None)"

section \<open>Properties\<close>

lemma value_string_clean: "value_string c v = Some s \<Longrightarrow> text_clean s"
  by (cases v) (auto simp: value_string_def redact_inline_text_clean split: json.splits)

lemma envelope_field_clean: "envelope_field c bs field = Some s \<Longrightarrow> text_clean s"
  by (auto simp: envelope_field_def or_else_def bind_eq_Some_conv dest: value_string_clean split: option.splits)

text \<open>
  every text that an error keeps from a body is redacted, and each field is taken on its own: from the
  flat object when it carries a usable value, else from the nested envelope, else the default, so a
  field of the wrong type never hides its siblings.  Here for the API error and the in-band stream error
  alike, which agree on all four fields of the same body.
\<close>

theorem error_fields_redacted:
  assumes "text_clean (''OpenAI API returned HTTP '' @ status_to_string c (meta_status mt))"
    and "e = api_error_from_body c mt bs truncated" and "s = stream_error_from_body c rid bs"
  shows "list_all text_clean ([api_message e, str_message s] @ List.map_filter id [api_kind e, api_param e, api_code e])
    \<and> (str_kind s, str_param s, str_code s) = (api_kind e, api_param e, api_code e)
    \<and> (envelope_field c bs eb_message \<noteq> None \<longrightarrow> api_message e = str_message s)"
proof -
  have "text_clean ''OpenAI returned an in-band stream error''" by code_simp
  with assms show ?thesis
    by (auto simp: api_error_from_body_def stream_error_from_body_def envelope_field_clean
        split: option.splits)
qed

definition demo_codec :: error_codec where
  "demo_codec =
     \<lparr>flat_body = (\<lambda>_. Some \<lparr>eb_message = None, eb_kind = Some (JString ''invalid''), eb_param = None, eb_code = None\<rparr>),
      nested_body = (\<lambda>_. Some \<lparr>eb_message = Some (JString ''bad key sk-123 used''), eb_kind = None,
        eb_param = None, eb_code = Some JNull\<rparr>),
      value_to_string = (\<lambda>_. []), status_to_string = nat_to_string,
      parse_json = (\<lambda>_. None), print_json = (\<lambda>_. None)\<rparr>"

definition demo_meta :: response_meta where
  "demo_meta = from_headers 401 (\<lambda>_. None)"

theorem error_fields_redacted_witness:
  "api_message (api_error_from_body demo_codec demo_meta ''{}'' False) = ''bad key [REDACTED] used''
   \<and> str_message (stream_error_from_body demo_codec None ''{}'') = ''bad key [REDACTED] used''
   \<and> text_clean ''bad key [REDACTED] used''"
proof -
  have "text_clean (''OpenAI API returned HTTP '' @ status_to_string demo_codec (meta_status demo_meta))" by code_simp
  moreover have "api_message (api_error_from_body demo_codec demo_meta ''{}'' False) = ''bad key [REDACTED] used''"
    "envelope_field demo_codec ''{}'' eb_message \<noteq> None"
    by code_simp+
  ultimately show ?thesis
    using error_fields_redacted [of demo_codec demo_meta _ "''{}''" False _ None, OF _ refl refl] by simp
qed

end
