(* ===== verification/Event_Stream.thy ===== *)
theory Event_Stream
  imports Sse_Dispatch Client_Error
begin

text \<open>
  The drain loop shared by the typed SSE streams (\<^verbatim>\<open>response_stream.rs\<close>, \<^verbatim>\<open>chat_stream.rs\<close>): body chunks
  go through the endpoint decoder, every dispatch is handled and yields at most one item, an error item or
  a terminal item ends the stream, and what was decoded before a failure is delivered before it.

  A handler returns the items it yields and whether the stream returns.  The two streams differ in their
  handlers and in the policy; the contract under which the whole stream depends on the body only, and not
  on how it is cut into chunks, is the locale \<open>stream_client\<close>.
\<close>

section \<open>Shared pieces\<close>

text \<open>\<^verbatim>\<open>Value::get\<close> with a string index: nothing on a value that is not an object.\<close>

definition value_get :: "json \<Rightarrow> bytes \<Rightarrow> json option" where
  "value_get v k = Option.bind (as_object v) (\<lambda>m. map_of m k)"

definition sse_error :: "response_meta \<Rightarrow> sse_decode_error \<Rightarrow> client_error" where
  "sse_error mt source = SseFailure source (meta_request_id mt)"

text \<open>\<^verbatim>\<open>str::trim\<close> on a header value, which has no other white space than blanks and tabs.\<close>

definition trim :: "bytes \<Rightarrow> bytes" where
  "trim s = rev (dropWhile is_ascii_whitespace (rev (dropWhile is_ascii_whitespace s)))"

definition is_event_stream :: "bytes option \<Rightarrow> bool" where
  "is_event_stream content_type =
     (case content_type of
        None \<Rightarrow> False
      | Some v \<Rightarrow>
          (case split_on (CHR '';'') v of
             [] \<Rightarrow> False
           | mime # _ \<Rightarrow> to_ascii_lowercase (trim mime) = to_ascii_lowercase ''text/event-stream''))"

section \<open>The drain loop\<close>

type_synonym 'i handler = "sse_dispatch \<Rightarrow> 'i list \<times> bool"

fun run_dispatches :: "'i handler \<Rightarrow> sse_dispatch list \<Rightarrow> 'i list \<times> bool" where
  "run_dispatches f [] = ([], False)"
| "run_dispatches f (d # ds) =
     (let (items, stop) = f d
      in if stop then (items, True)
         else let (items', stop') = run_dispatches f ds in (items @ items', stop'))"

fun event_stream ::
    "'i handler \<Rightarrow> 'i handler \<Rightarrow> (sse_decode_error \<Rightarrow> 'i) \<Rightarrow> (http_error \<Rightarrow> 'i) \<Rightarrow>
       (http_error, bytes) result list \<Rightarrow> sse_stream_decoder \<Rightarrow> 'i list" where
  "event_stream on_push on_eof on_sse on_body [] s =
     (let (ds, eof_error) = (case fst (finish_with_flushed s) of
            Ok ds \<Rightarrow> (ds, None) | Err (source, flushed) \<Rightarrow> (flushed, Some source));
          (items, stop) = run_dispatches on_eof ds
      in if stop then items
         else items @ (case eof_error of Some source \<Rightarrow> [on_sse source] | None \<Rightarrow> []))"
| "event_stream on_push on_eof on_sse on_body (Err error # cs) s = [on_body error]"
| "event_stream on_push on_eof on_sse on_body (Ok chunk # cs) s =
     (let (r, s') = push_with_flushed chunk s;
          (ds, chunk_error) = (case r of
            Ok ds \<Rightarrow> (ds, None) | Err (source, flushed) \<Rightarrow> (flushed, Some source));
          (items, stop) = run_dispatches on_push ds
      in if stop then items
         else case chunk_error of
           Some source \<Rightarrow> items @ [on_sse source]
         | None \<Rightarrow>
             if stream_state s' \<noteq> StreamActive then items
             else items @ event_stream on_push on_eof on_sse on_body cs s')"

text \<open>The specification: handle the dispatches of the whole body, then its error.\<close>

definition deliver_items ::
    "'i handler \<Rightarrow> (sse_decode_error \<Rightarrow> 'i) \<Rightarrow>
       sse_dispatch list \<times> sse_decode_error option \<times> sse_stream_state \<Rightarrow> 'i list" where
  "deliver_items f on_sse out =
     (case out of (ds, e, st) \<Rightarrow>
        let (items, stop) = run_dispatches f ds
        in if stop then items else items @ (case e of Some x \<Rightarrow> [on_sse x] | None \<Rightarrow> []))"

lemma run_dispatches_append:
  "run_dispatches f (ds @ ds') =
     (let (items, stop) = run_dispatches f ds
      in if stop then (items, True)
         else let (items', stop') = run_dispatches f ds' in (items @ items', stop'))"
  by (induction ds) (auto simp: split_def Let_def)

lemma run_dispatches_Cons:
  "run_dispatches f (d # ds) =
     (if snd (f d) then f d else (fst (f d) @ fst (run_dispatches f ds), snd (run_dispatches f ds)))"
  by (simp add: split_def Let_def prod_eq_iff)

text \<open>The items of a body, frame by frame.\<close>

lemma deliver_items_Cons:
  "deliver_items h on_sse (deliver p err (f # fs)) =
     (case classify p f of
        FrameEvent \<Rightarrow>
          if snd (h (Event f)) then fst (h (Event f))
          else fst (h (Event f)) @ deliver_items h on_sse (deliver p err fs)
      | EmittedTerminal \<Rightarrow> fst (h (Terminal f))
      | ConsumedTerminal \<Rightarrow> []
      | FrameRemoteError \<Rightarrow> fst (h (RemoteError f)))"
  unfolding deliver_def deliver_items_def
  by (auto simp: Let_def split_def run_dispatches_Cons split: frame_classification.split option.split sse_eof_behavior.split)

text \<open>The frames of a body and the error that ends them.\<close>

definition body_frames :: "sse_limits \<Rightarrow> bytes \<Rightarrow> sse_decode_error option \<times> sse_frame list" where
  "body_frames l bs =
     (case run_lines (eof_lines (strip_bom bs)) (sse_decoder_new l) [] of
        (Err e, _, fs) \<Rightarrow> (Some e, fs)
      | (Ok _, d, fs) \<Rightarrow> (None, fs @ event_of d))"

lemma stream_decode_frames: "stream_decode p l bs = (case body_frames l bs of (e, fs) \<Rightarrow> deliver p e fs)"
  by (simp add: stream_decode_def body_frames_def split: prod.split sum.split)

locale stream_client =
  fixes policy :: sse_endpoint_policy
    and on_push :: "'i handler"
    and on_eof :: "'i handler"
    and on_sse :: "sse_decode_error \<Rightarrow> 'i"
    and on_body :: "http_error \<Rightarrow> 'i"
  assumes events_agree: "classify policy f = FrameEvent \<Longrightarrow> on_push (Event f) = on_eof (Event f)"
    and terminals_agree: "classify policy f = EmittedTerminal \<Longrightarrow> fst (on_push (Terminal f)) = fst (on_eof (Terminal f))"
    and errors_agree: "fst (on_push (RemoteError f)) = fst (on_eof (RemoteError f))"
begin

lemma handlers_agree:
  "dispatch_frames policy fs = (ds, st) \<Longrightarrow>
     fst (run_dispatches on_push ds) = fst (run_dispatches on_eof ds)
     \<and> (st = StreamActive \<longrightarrow> run_dispatches on_push ds = run_dispatches on_eof ds)"
proof (induction fs arbitrary: ds)
  case (Cons f fs)
  show ?case
  proof (cases "classify policy f")
    case FrameEvent
    with Cons.prems obtain ds' where "dispatch_frames policy fs = (ds', st)" "ds = Event f # ds'"
      by (auto split: prod.splits)
    with Cons.IH [of ds'] events_agree [OF FrameEvent] show ?thesis by (auto simp: Let_def split: prod.splits)
  next
    case EmittedTerminal
    with Cons.prems terminals_agree [OF EmittedTerminal] show ?thesis by (auto simp: Let_def split: prod.splits)
  next
    case ConsumedTerminal
    with Cons.prems show ?thesis by auto
  next
    case FrameRemoteError
    with Cons.prems errors_agree [of f] show ?thesis by (auto simp: Let_def split: prod.splits)
  qed
qed auto

lemma stream_items:
  "stream_inv s \<Longrightarrow> stream_policy s = policy \<Longrightarrow>
     event_stream on_push on_eof on_sse on_body (map Ok cs) s = deliver_items on_eof on_sse (run_stream cs s)"
proof (induction cs arbitrary: s)
  case Nil
  then show ?case
    by (auto simp: deliver_items_def Let_def split: prod.splits sum.splits)
next
  case (Cons c cs)
  obtain err fs d' where fk: "feed_keep c (stream_decoder s) = (err, fs, d')"
    by (cases "feed_keep c (stream_decoder s)")
  obtain ds st where df: "dispatch_frames policy fs = (ds, st)" by fastforce
  obtain items stop where run: "run_dispatches on_eof ds = (items, stop)" by fastforce
  note agree = handlers_agree [OF df]
  have active: "stream_state s = StreamActive" using Cons.prems(1) by (simp add: stream_inv_def)
  have push: "push_with_flushed c s = chunk_spec c s" by (rule push_with_flushed_spec [OF Cons.prems(1)])
  consider (stopped) "st \<noteq> StreamActive" | (failed) e where "st = StreamActive" "err = Some e"
    | (more) "st = StreamActive" "err = None" by (cases err) auto
  then show ?case
  proof cases
    case stopped
    with fk df run agree Cons.prems(2) push show ?thesis
      by (cases "run_dispatches on_push ds") (auto simp: chunk_spec_def deliver_items_def Let_def)
  next
    case failed
    with fk df run agree Cons.prems(2) push show ?thesis
      by (auto simp: chunk_spec_def deliver_items_def Let_def)
  next
    case more
    let ?s = "s\<lparr>stream_decoder := d'\<rparr>"
    have inv: "stream_inv ?s"
      using Cons.prems(1) fk more feed_keep_inv [of "stream_decoder s" c fs d'] by (simp add: stream_inv_def)
    have p: "push_with_flushed c s = (Ok ds, ?s)"
      using fk df more Cons.prems(2) push by (simp add: chunk_spec_def)
    from Cons.IH [OF inv] Cons.prems(2) p run agree more active show ?thesis
      by (auto simp: deliver_items_def Let_def run_dispatches_append split: prod.splits)
  qed
qed

lemma stream_items_new:
  assumes "0 < max_line_bytes l"
  shows "event_stream on_push on_eof on_sse on_body (map Ok cs) (sse_stream_decoder_new l policy) =
    deliver_items on_eof on_sse (stream_decode policy l (concat cs))"
proof -
  have inv: "stream_inv (sse_stream_decoder_new l policy)" by (rule stream_inv_new [OF assms])
  have "run_stream cs (sse_stream_decoder_new l policy) = stream_decode policy l (concat cs)"
    by (rule run_stream_decode [OF assms])
  with stream_items [OF inv, of cs] show ?thesis by (simp add: sse_stream_decoder_new_def)
qed

end

end
