(* ===== verification/Response_Reduction.thy ===== *)
theory Response_Reduction
  imports Response_Accumulator
begin

text \<open>
  What the Responses reducer guarantees: every output index keeps the item it was first bound to, the
  accepted events are strictly ordered and end with the terminal one, and streamed text is the
  concatenation of its deltas however the parts are interleaved.
\<close>

section \<open>Ownership\<close>

text \<open>Text and arguments belong to the item their output index is bound to.\<close>

definition acc_inv :: "response_accumulator \<Rightarrow> bool" where
  "acc_inv acc \<longleftrightarrow>
     (\<forall>k part. RBT.lookup (acc_text acc) k = Some part \<longrightarrow>
        RBT.lookup (acc_item_ids acc) (fst k) = Some (at_item_id part))
     \<and> (\<forall>k args. RBT.lookup (acc_function_arguments acc) k = Some args \<longrightarrow>
        RBT.lookup (acc_item_ids acc) k = Some (aa_item_id args))
     \<and> (acc_terminal acc \<longrightarrow> acc_snapshot acc \<noteq> None)"

text \<open>An operation is tame when it keeps ownership, the final flag and every binding, and never
  reports a content mismatch.\<close>

definition content_mismatch :: "(accumulator_error, unit) result \<Rightarrow> bool" where
  "content_mismatch r \<longleftrightarrow> (\<exists>oi ci a b. r = Err (ContentIdentityMismatch oi ci a b))"

definition tame ::
    "response_accumulator \<Rightarrow> (accumulator_error, unit) result \<times> response_accumulator \<Rightarrow> bool" where
  "tame acc r \<longleftrightarrow>
     acc_inv (snd r) \<and> \<not> content_mismatch (fst r) \<and> acc_terminal (snd r) = acc_terminal acc
     \<and> acc_last_sequence_number (snd r) = acc_last_sequence_number acc
     \<and> acc_snapshot (snd r) = acc_snapshot acc
     \<and> RBT.lookup (acc_item_ids acc) \<subseteq>\<^sub>m RBT.lookup (acc_item_ids (snd r))"

lemma tame_id [simp]: "acc_inv acc \<Longrightarrow> tame acc (Ok (), acc)"
  by (simp add: tame_def content_mismatch_def)

lemma tame_and_then:
  assumes "tame acc r" and "\<And>s. r = (Ok (), s) \<Longrightarrow> tame s (f s)"
  shows "tame acc (and_then r f)"
proof (cases r)
  case (Pair res s)
  with assms show ?thesis
    by (cases res) (auto simp: tame_def intro: map_le_trans)
qed

lemma tame_bind_item: "acc_inv acc \<Longrightarrow> tame acc (bind_item oi i acc)"
  by (auto simp: bind_item_def tame_def acc_inv_def content_mismatch_def map_le_def split: option.split)

lemma bind_item_binds: "bind_item oi i acc = (Ok (), s) \<Longrightarrow> RBT.lookup (acc_item_ids s) oi = Some i"
  by (auto simp: bind_item_def split: option.splits if_splits)

lemma tame_text:
  assumes "acc_inv acc" and "RBT.lookup (acc_item_ids acc) oi = Some i"
  shows "tame acc (append_text oi ci i t acc)" and "tame acc (set_text oi ci i t acc)"
  using assms
  by (auto simp: append_text_def set_text_def Let_def tame_def acc_inv_def content_mismatch_def
      split: option.split)

lemma tame_arguments:
  assumes "acc_inv acc" and "RBT.lookup (acc_item_ids acc) oi = Some i"
  shows "tame acc (append_function_arguments oi i t acc)" and "tame acc (set_function_arguments oi i t acc)"
  using assms
  by (auto simp: append_function_arguments_def set_function_arguments_def Let_def tame_def acc_inv_def
      content_mismatch_def split: option.split)

lemma tameD:
  assumes "tame acc (Ok (), s)"
  shows "acc_inv s" and "RBT.lookup (acc_item_ids acc) k = Some i \<Longrightarrow> RBT.lookup (acc_item_ids s) k = Some i"
  using assms by (auto simp: tame_def map_le_def dom_def)

lemma tame_observe_contents:
  "acc_inv acc \<Longrightarrow> RBT.lookup (acc_item_ids acc) oi = Some i \<Longrightarrow> tame acc (observe_contents oi ci i cs acc)"
proof (induction cs arbitrary: ci acc)
  case (Cons c cs)
  let ?r = "case c of OutputText t \<Rightarrow> set_text oi ci i t acc | _ \<Rightarrow> (Ok (), acc)"
  have t: "tame acc ?r" using tame_text(2) [OF Cons.prems] Cons.prems(1) by (simp split: output_content.split)
  have "tame acc (and_then ?r (observe_contents oi (ci + 1) i cs))"
    by (rule tame_and_then [OF t]) (use t tameD Cons in metis)
  then show ?case by simp
qed simp

lemma tame_observe_output_item:
  assumes "acc_inv acc"
  shows "tame acc (observe_output_item oi item acc)"
proof -
  let ?r = "case response_output_item_id item of Some i \<Rightarrow> bind_item oi i acc | None \<Rightarrow> (Ok (), acc)"
  have t: "tame acc ?r" using assms by (simp add: tame_bind_item split: option.split)
  have b: "RBT.lookup (acc_item_ids s) oi = Some i"
    if "?r = (Ok (), s)" "response_output_item_id item = Some i" for s i
    using that bind_item_binds by simp
  show ?thesis
    unfolding observe_output_item_def
  proof (rule tame_and_then [OF t])
    fix s assume s: "?r = (Ok (), s)"
    with t have inv: "acc_inv s" using tameD(1) by metis
    show "tame s (case item of
          Message m \<Rightarrow> observe_contents oi 0 (om_id m) (om_content m) s
        | FunctionCall call \<Rightarrow>
            (case ofc_id call of
               Present item_id \<Rightarrow> set_function_arguments oi item_id (ofc_arguments call) s
             | Omitted \<Rightarrow> (Ok (), s))
        | _ \<Rightarrow> (Ok (), s))"
    proof (cases item)
      case (Message m)
      with b [OF s] inv tame_observe_contents show ?thesis by simp
    next
      case (FunctionCall call)
      with b [OF s] inv tame_arguments(2) show ?thesis by (simp split: omittable.split)
    qed (use inv in simp_all)
  qed
qed

lemma tame_observe_items: "acc_inv acc \<Longrightarrow> tame acc (observe_items oi items acc)"
proof (induction items arbitrary: oi acc)
  case (Cons item items)
  note t = tame_observe_output_item [OF Cons.prems, of oi item]
  have "tame acc (and_then (observe_output_item oi item acc) (observe_items (oi + 1) items))"
    by (rule tame_and_then [OF t]) (use t tameD(1) Cons.IH in metis)
  then show ?case by simp
qed simp

text \<open>The response an event carries, and whether it is final.\<close>

definition lifecycle :: "response_stream_event \<Rightarrow> (response \<times> bool) option" where
  "lifecycle event =
     (case event of
        Queued e \<Rightarrow> Some (le_response e, False) | Created e \<Rightarrow> Some (le_response e, False)
      | InProgress e \<Rightarrow> Some (le_response e, False) | Completed e \<Rightarrow> Some (le_response e, True)
      | Failed e \<Rightarrow> Some (le_response e, True) | Incomplete e \<Rightarrow> Some (le_response e, True)
      | _ \<Rightarrow> None)"

lemma tame_after_bind:
  assumes "acc_inv acc" and "\<And>s. acc_inv s \<Longrightarrow> RBT.lookup (acc_item_ids s) oi = Some i \<Longrightarrow> tame s (f s)"
  shows "tame acc (and_then (bind_item oi i acc) f)"
proof (rule tame_and_then [OF tame_bind_item [OF assms(1)]])
  fix s assume "bind_item oi i acc = (Ok (), s)"
  with assms(2) show "tame s (f s)" using bind_item_binds tame_bind_item [OF assms(1), of oi i] tameD(1) by metis
qed

lemma tame_accept_part: "acc_inv acc \<Longrightarrow> tame acc (accept_part e acc)"
  unfolding accept_part_def
  by (rule tame_after_bind) (auto split: output_content.split intro: tame_text)

lemma tame_reduce: "acc_inv acc \<Longrightarrow> lifecycle event = None \<Longrightarrow> tame acc (reduce event acc)"
  by (cases event)
    (simp_all add: lifecycle_def tame_bind_item tame_accept_part tame_observe_output_item
      tame_after_bind tame_text tame_arguments, simp add: tame_def content_mismatch_def)

lemma reduce_lifecycle: "lifecycle event = Some (r, t) \<Longrightarrow> reduce event acc = accept_response r t acc"
  by (cases event) (auto simp: lifecycle_def)

lemma accept_response_result:
  assumes "acc_inv acc"
  shows "acc_inv (snd (accept_response r t acc))" and "\<not> content_mismatch (fst (accept_response r t acc))"
    and "accept_response r t acc = (Ok (), s) \<Longrightarrow> acc_terminal s = t \<and> acc_snapshot s = Some r
      \<and> acc_last_sequence_number s = acc_last_sequence_number acc"
    and "fst (accept_response r t acc) = Err e \<Longrightarrow> acc_terminal (snd (accept_response r t acc)) = acc_terminal acc
      \<and> acc_snapshot (snd (accept_response r t acc)) = acc_snapshot acc"
proof -
  obtain res s' where o: "observe_items 0 (resp_output r) acc = (res, s')" by fastforce
  with tame_observe_items [OF assms, of 0 "resp_output r"] have t: "tame acc (res, s')" by simp
  show "acc_inv (snd (accept_response r t acc))" "\<not> content_mismatch (fst (accept_response r t acc))"
    using t o by (cases res; auto simp: accept_response_def tame_def acc_inv_def content_mismatch_def)+
  show "acc_terminal s = t \<and> acc_snapshot s = Some r \<and> acc_last_sequence_number s = acc_last_sequence_number acc"
    if "accept_response r t acc = (Ok (), s)"
    using that t o by (cases res) (auto simp: accept_response_def tame_def)
  show "acc_terminal (snd (accept_response r t acc)) = acc_terminal acc
      \<and> acc_snapshot (snd (accept_response r t acc)) = acc_snapshot acc"
    if "fst (accept_response r t acc) = Err e"
    using that t o by (cases res) (auto simp: accept_response_def tame_def)
qed

lemma check_sequence_inv:
  "acc_inv acc \<Longrightarrow> acc_inv (snd (check_sequence e acc)) \<and> \<not> content_mismatch (fst (check_sequence e acc))"
  by (auto simp: check_sequence_def acc_inv_def content_mismatch_def split: option.split)

lemma reduce_inv:
  assumes "acc_inv acc"
  shows "acc_inv (snd (reduce event acc)) \<and> \<not> content_mismatch (fst (reduce event acc))"
proof (cases "lifecycle event")
  case None
  with tame_reduce [OF assms] show ?thesis by (simp add: tame_def)
next
  case (Some x)
  with accept_response_result(1,2) [OF assms] show ?thesis by (cases x) (simp add: reduce_lifecycle)
qed

lemma acc_push_inv:
  "acc_inv acc \<Longrightarrow> acc_inv (snd (acc_push event acc)) \<and> \<not> content_mismatch (fst (acc_push event acc))"
  using check_sequence_inv [of acc event] reduce_inv [of "snd (check_sequence event acc)" event]
  by (auto simp: acc_push_def snd_and_then fst_and_then content_mismatch_def)

lemma acc_inv_new: "acc_inv accumulator_new"
  by (simp add: acc_inv_def accumulator_new_def)

lemma acc_push_closed: "acc_terminal acc \<Longrightarrow> acc_push event acc = (Err EventAfterTerminal, acc)"
  by (simp add: acc_push_def)

interpretation responses: reducer acc_push accumulator_new acc_inv acc_terminal
  by unfold_locales (simp_all add: acc_inv_new acc_push_inv acc_push_closed)

text \<open>Every accumulator a program can hold: pushes in any order, errors included.\<close>

inductive acc_reachable :: "response_accumulator \<Rightarrow> bool" where
  fresh_accumulator: "acc_reachable accumulator_new"
| pushed: "acc_reachable acc \<Longrightarrow> acc_reachable (snd (acc_push event acc))"

lemma acc_reachable_inv: "acc_reachable acc \<Longrightarrow> acc_inv acc"
  by (induction rule: acc_reachable.induct) (auto simp: responses.inv_init responses.inv_push)

text \<open>Whatever is pushed next, accepted or refused, no output index is bound anew.\<close>

lemma reduce_keeps_bindings:
  assumes "acc_inv acc"
  shows "RBT.lookup (acc_item_ids acc) \<subseteq>\<^sub>m RBT.lookup (acc_item_ids (snd (reduce event acc)))"
proof (cases "lifecycle event")
  case None
  with tame_reduce [OF assms] show ?thesis by (simp add: tame_def)
next
  case (Some x)
  obtain res s' where o: "observe_items 0 (resp_output (fst x)) acc = (res, s')" by fastforce
  with tame_observe_items [OF assms, of 0 "resp_output (fst x)"]
  have "RBT.lookup (acc_item_ids acc) \<subseteq>\<^sub>m RBT.lookup (acc_item_ids s')" by (simp add: tame_def)
  with o Some show ?thesis by (cases x; cases res) (auto simp: reduce_lifecycle accept_response_def)
qed

lemma acc_push_keeps_bindings:
  assumes "acc_inv acc"
  shows "RBT.lookup (acc_item_ids acc) \<subseteq>\<^sub>m RBT.lookup (acc_item_ids (snd (acc_push event acc)))"
proof -
  have "acc_item_ids (snd (check_sequence event acc)) = acc_item_ids acc"
    by (auto simp: check_sequence_def split: option.split)
  with reduce_keeps_bindings [of "snd (check_sequence event acc)" event] check_sequence_inv [OF assms, of event]
  show ?thesis by (simp add: acc_push_def snd_and_then)
qed

definition pushed_all :: "response_stream_event list \<Rightarrow> response_accumulator \<Rightarrow> response_accumulator" where
  "pushed_all events acc = foldl (\<lambda>s event. snd (acc_push event s)) acc events"

lemma pushed_all_keeps:
  "acc_inv acc \<Longrightarrow> acc_inv (pushed_all events acc)
     \<and> RBT.lookup (acc_item_ids acc) \<subseteq>\<^sub>m RBT.lookup (acc_item_ids (pushed_all events acc))"
proof (induction events arbitrary: acc)
  case (Cons e events)
  have "pushed_all (e # events) acc = pushed_all events (snd (acc_push e acc))" by (simp add: pushed_all_def)
  with Cons.IH [of "snd (acc_push e acc)"] acc_push_inv [OF Cons.prems, of e] acc_push_keeps_bindings [OF Cons.prems, of e]
  show ?case using map_le_trans by auto
qed (simp add: pushed_all_def)

text \<open>
  C8: ownership in every reachable accumulator, also after errors.  Once an output index is bound to an item it stays bound
  to that item whatever is pushed afterwards, and all text and all function arguments ever stored under the index are
  that item's; nothing is stored under an unbound index.  So a push never reports a content mismatch: an item mismatch is
  always found first.
\<close>

theorem accumulator_ownership:
  assumes "acc_reachable acc"
  shows "(\<forall>oi i. RBT.lookup (acc_item_ids acc) oi = Some i \<longrightarrow>
        RBT.lookup (acc_item_ids (pushed_all events acc)) oi = Some i
        \<and> (\<forall>ci part. RBT.lookup (acc_text (pushed_all events acc)) (oi, ci) = Some part \<longrightarrow> at_item_id part = i)
        \<and> (\<forall>args. RBT.lookup (acc_function_arguments (pushed_all events acc)) oi = Some args \<longrightarrow> aa_item_id args = i))
    \<and> (\<forall>oi ci part. RBT.lookup (acc_text acc) (oi, ci) = Some part \<longrightarrow>
        RBT.lookup (acc_item_ids acc) oi = Some (at_item_id part))
    \<and> (\<forall>oi args. RBT.lookup (acc_function_arguments acc) oi = Some args \<longrightarrow>
        RBT.lookup (acc_item_ids acc) oi = Some (aa_item_id args))
    \<and> (\<forall>event oi ci a b. fst (acc_push event acc) \<noteq> Err (ContentIdentityMismatch oi ci a b))"
proof -
  have inv: "acc_inv acc" using assms by (rule acc_reachable_inv)
  have owner: "RBT.lookup (acc_item_ids a) oi = Some (at_item_id part)"
    if "acc_inv a" "RBT.lookup (acc_text a) (oi, ci) = Some part" for a oi ci part
    using that unfolding acc_inv_def by (metis fst_conv)
  have args: "RBT.lookup (acc_item_ids a) oi = Some (aa_item_id args)"
    if "acc_inv a" "RBT.lookup (acc_function_arguments a) oi = Some args" for a oi args
    using that unfolding acc_inv_def by blast
  have later: "RBT.lookup (acc_item_ids (pushed_all events acc)) oi = Some i" if "RBT.lookup (acc_item_ids acc) oi = Some i" for oi i
    using that pushed_all_keeps [OF inv, of events] by (force simp: map_le_def dom_def)
  note inv' = conjunct1 [OF pushed_all_keeps [OF inv, of events]]
  have "at_item_id part = i" if "RBT.lookup (acc_item_ids acc) oi = Some i"
      "RBT.lookup (acc_text (pushed_all events acc)) (oi, ci) = Some part" for oi ci i part
    using owner [OF inv' that(2)] later [OF that(1)] by simp
  moreover have "aa_item_id xs = i" if "RBT.lookup (acc_item_ids acc) oi = Some i"
      "RBT.lookup (acc_function_arguments (pushed_all events acc)) oi = Some xs" for oi i xs
    using args [OF inv' that(2)] later [OF that(1)] by simp
  ultimately show ?thesis
    using owner [OF inv] args [OF inv] later acc_push_inv [OF inv] unfolding content_mismatch_def by blast
qed

definition demo_delta :: "nat \<Rightarrow> nat \<Rightarrow> bytes \<Rightarrow> nat \<Rightarrow> response_stream_event" where
  "demo_delta oi ci t n =
     OutputTextDelta \<lparr>te_item_id = ''msg'' @ nat_to_string oi, te_output_index = oi, te_content_index = ci,
       te_text = t, te_sequence = n\<rparr>"

definition demo_final :: "nat \<Rightarrow> response_stream_event" where
  "demo_final n =
     Completed \<lparr>le_response = \<lparr>resp_output = [Message \<lparr>om_id = ''msg0'', om_content = [OutputText ''abc'']\<rparr>],
       resp_rest = []\<rparr>, le_sequence = n\<rparr>"

theorem accumulator_ownership_witness:
  "let acc = snd (acc_push (demo_delta 0 0 ''ab'' 1) accumulator_new)
   in RBT.lookup (acc_text acc) (0, 0) = Some \<lparr>at_item_id = ''msg0'', at_text = ''ab''\<rparr>
      \<and> RBT.lookup (acc_item_ids (pushed_all [demo_delta 0 1 ''c'' 2, demo_final 3] acc)) 0 = Some ''msg0''"
proof -
  let ?acc = "snd (acc_push (demo_delta 0 0 ''ab'' 1) accumulator_new)"
  have "acc_reachable ?acc" by (intro acc_reachable.intros)
  moreover have "RBT.lookup (acc_text ?acc) (0, 0) = Some \<lparr>at_item_id = ''msg0'', at_text = ''ab''\<rparr>" by code_simp
  ultimately show ?thesis using accumulator_ownership [of ?acc] by (simp add: Let_def)
qed

section \<open>Order and termination\<close>

lemma check_sequence_Ok:
  "check_sequence event acc = (Ok (), s) \<longleftrightarrow>
     (case sequence_number event of
        None \<Rightarrow> s = acc
      | Some n \<Rightarrow> s = acc\<lparr>acc_last_sequence_number := Some n\<rparr>
          \<and> (\<forall>p. acc_last_sequence_number acc = Some p \<longrightarrow> p < n))"
  by (auto simp: check_sequence_def split: option.splits)

lemma reduce_Ok:
  assumes "acc_inv acc" and "reduce event acc = (Ok (), s)"
  shows "acc_last_sequence_number s = acc_last_sequence_number acc"
    and "lifecycle event = Some (r, t) \<Longrightarrow> acc_terminal s = t \<and> acc_snapshot s = Some r"
    and "lifecycle event = None \<Longrightarrow> acc_terminal s = acc_terminal acc \<and> acc_snapshot s = acc_snapshot acc"
  using tame_reduce [OF assms(1), of event] accept_response_result(3) [OF assms(1)] assms(2)
  by (cases "lifecycle event"; auto simp: tame_def reduce_lifecycle)+

lemma map_filter_append: "List.map_filter f (xs @ ys) = List.map_filter f xs @ List.map_filter f ys"
  by (induction xs) (auto split: option.split)

lemma sorted_wrt_last: "sorted_wrt (<) (xs :: nat list) \<Longrightarrow> x \<in> set xs \<Longrightarrow> x \<le> last xs"
  by (induction xs) (auto intro: less_imp_le)

text \<open>The last sequence number is that of the last numbered event, and the numbers increase.\<close>

lemma accepted_sequence:
  assumes "push_all acc_push es accumulator_new = (Ok (), acc)"
  shows "sorted_wrt (<) (List.map_filter sequence_number es)
    \<and> acc_last_sequence_number acc =
        (if List.map_filter sequence_number es = [] then None else Some (last (List.map_filter sequence_number es)))"
  using assms
proof (induction es arbitrary: acc rule: rev_induct)
  case Nil
  then show ?case by (auto simp: accumulator_new_def)
next
  case (snoc e es)
  then obtain s where s: "push_all acc_push es accumulator_new = (Ok (), s)" "acc_push e s = (Ok (), acc)"
    by (auto simp: push_all_append and_then_Ok_iff)
  have inv: "acc_inv s" using responses.inv_push_all [OF acc_inv_new, of es] s(1) by simp
  from s(2) obtain s' where s': "check_sequence e s = (Ok (), s')" "reduce e s' = (Ok (), acc)"
    by (auto simp: acc_push_def and_then_Ok_iff split: if_splits)
  have "acc_inv s'" using check_sequence_inv [OF inv, of e] s'(1) by simp
  then have l: "acc_last_sequence_number acc = acc_last_sequence_number s'" using reduce_Ok(1) s'(2) by blast
  note IH = snoc.IH [OF s(1)]
  show ?case
  proof (cases "sequence_number e")
    case None
    with IH l s'(1) show ?thesis by (simp add: check_sequence_Ok map_filter_append)
  next
    case (Some n)
    let ?ns = "List.map_filter sequence_number es"
    have "\<forall>m \<in> set ?ns. m < n"
    proof (cases "?ns = []")
      case False
      with IH have "acc_last_sequence_number s = Some (last ?ns)" by simp
      with s'(1) Some have "last ?ns < n" by (simp add: check_sequence_Ok)
      moreover have "\<forall>m \<in> set ?ns. m \<le> last ?ns" using IH False
        by (simp add: sorted_wrt_last)
      ultimately show ?thesis by fastforce
    qed simp
    with IH l s'(1) Some show ?thesis by (simp add: check_sequence_Ok map_filter_append sorted_wrt_append)
  qed
qed

lemma last_event_decides:
  assumes "push_all acc_push es accumulator_new = (Ok (), acc)"
  shows "(acc_terminal acc \<longleftrightarrow> es \<noteq> [] \<and> (\<exists>r. lifecycle (last es) = Some (r, True)))
    \<and> (es \<noteq> [] \<longrightarrow> lifecycle (last es) = Some (r, t) \<longrightarrow> acc_snapshot acc = Some r)"
proof (cases es rule: rev_cases)
  case Nil
  with assms show ?thesis by (auto simp: accumulator_new_def)
next
  case (snoc ys y)
  with assms obtain s1 where s1: "push_all acc_push ys accumulator_new = (Ok (), s1)" "acc_push y s1 = (Ok (), acc)"
    by (auto simp: push_all_append and_then_Ok_iff)
  have inv: "acc_inv s1" using responses.inv_push_all [OF acc_inv_new, of ys] s1(1) by simp
  from s1(2) obtain s2 where s2: "\<not> acc_terminal s1" "check_sequence y s1 = (Ok (), s2)" "reduce y s2 = (Ok (), acc)"
    by (auto simp: acc_push_def and_then_Ok_iff split: if_splits)
  have "acc_inv s2" using check_sequence_inv [OF inv, of y] s2(2) by simp
  moreover have "\<not> acc_terminal s2" using s2(1,2) by (auto simp: check_sequence_Ok split: option.splits)
  ultimately show ?thesis
    using reduce_Ok(2,3) [OF _ s2(3)] snoc by (cases "lifecycle y") auto
qed

lemma no_early_final:
  assumes "push_all acc_push es accumulator_new = (Ok (), acc)" and "e \<in> set (butlast es)"
  shows "lifecycle e \<noteq> Some (r, True)"
proof
  assume e: "lifecycle e = Some (r, True)"
  have ne: "es \<noteq> []" using assms(2) by auto
  from assms(2) obtain xs ys where "butlast es = xs @ e # ys" by (meson split_list)
  then have "es = (xs @ [e]) @ (ys @ [last es])" using append_butlast_last_id [OF ne] by simp
  with assms(1) obtain s where s: "push_all acc_push (xs @ [e]) accumulator_new = (Ok (), s)"
    "push_all acc_push (ys @ [last es]) s = (Ok (), acc)"
    by (metis and_then_Ok_iff push_all_append)
  with last_event_decides [OF s(1)] e responses.closed_push_all [OF _ s(2)] show False by auto
qed

lemma accepted_finish:
  assumes "push_all acc_push es accumulator_new = (Ok (), acc)"
  shows "acc_finish acc = Ok r \<longleftrightarrow> es \<noteq> [] \<and> lifecycle (last es) = Some (r, True)"
proof -
  have "acc_inv acc" using responses.inv_push_all [OF acc_inv_new, of es] assms by simp
  then show ?thesis
    using last_event_decides [OF assms]
    by (auto simp: acc_finish_def ok_or_def acc_inv_def split: option.splits)
qed

text \<open>
  C7: an accepted stream is strictly ordered and complete.  If every event of a stream is accepted,
  the sequence numbers strictly increase, no event but the last carries a final response, and
  \<^verbatim>\<open>finish\<close> returns \<open>r\<close> exactly when the last event is the completed, failed or incomplete event that
  carries \<open>r\<close>; otherwise it reports the missing terminal response.
\<close>

theorem accumulator_ordered_and_complete:
  assumes "push_all acc_push es accumulator_new = (Ok (), acc)"
  shows "sorted_wrt (<) (List.map_filter sequence_number es)
    \<and> (\<forall>e \<in> set (butlast es). \<forall>r. lifecycle e \<noteq> Some (r, True))
    \<and> (acc_finish acc = Ok r \<longleftrightarrow> es \<noteq> [] \<and> lifecycle (last es) = Some (r, True))
    \<and> (\<not> is_ok (acc_finish acc) \<longrightarrow> acc_finish acc = Err MissingTerminal)"
proof -
  have "\<not> is_ok (acc_finish acc) \<longrightarrow> acc_finish acc = Err MissingTerminal"
    by (auto simp: acc_finish_def ok_or_def split: option.split)
  with accepted_sequence [OF assms] no_early_final [OF assms] accepted_finish [OF assms] show ?thesis by blast
qed

definition demo_events :: "response_stream_event list" where
  "demo_events = [demo_delta 0 0 ''ab'' 1, demo_delta 0 0 ''c'' 4, demo_final 9]"

theorem accumulator_ordered_and_complete_witness:
  "\<exists>acc r. push_all acc_push demo_events accumulator_new = (Ok (), acc) \<and> acc_finish acc = Ok r
     \<and> lifecycle (last demo_events) = Some (r, True)"
proof -
  have "fst (push_all acc_push demo_events accumulator_new) = Ok ()" by code_simp
  then obtain acc where acc: "push_all acc_push demo_events accumulator_new = (Ok (), acc)"
    by (metis prod.collapse)
  obtain r where r: "lifecycle (last demo_events) = Some (r, True)"
    by (simp add: demo_events_def demo_final_def lifecycle_def)
  then have "acc_finish acc = Ok r"
    using accumulator_ordered_and_complete [OF acc, of r] by (simp add: demo_events_def)
  with acc r show ?thesis by blast
qed

section \<open>Streamed text\<close>

text \<open>Abstractly an event appends to or replaces the text of some content parts.\<close>

datatype text_op = Append bytes | Replace bytes

type_synonym text_effect = "(nat \<times> nat) \<times> text_op"

definition content_effects :: "nat \<Rightarrow> nat \<Rightarrow> output_content list \<Rightarrow> text_effect list" where
  "content_effects oi ci cs =
     List.map_filter (\<lambda>(i, c). case c of OutputText t \<Rightarrow> Some ((oi, i), Replace t) | _ \<Rightarrow> None) (enumerate ci cs)"

definition item_effects :: "nat \<Rightarrow> response_output_item \<Rightarrow> text_effect list" where
  "item_effects oi item = (case item of Message m \<Rightarrow> content_effects oi 0 (om_content m) | _ \<Rightarrow> [])"

definition items_effects :: "nat \<Rightarrow> response_output_item list \<Rightarrow> text_effect list" where
  "items_effects oi items = concat (map (\<lambda>(i, item). item_effects i item) (enumerate oi items))"

definition text_effects :: "response_stream_event \<Rightarrow> text_effect list" where
  "text_effects event =
     (case lifecycle event of
        Some (r, _) \<Rightarrow> items_effects 0 (resp_output r)
      | None \<Rightarrow>
          (case event of
             OutputItemAdded e \<Rightarrow> item_effects (oi_output_index e) (oi_item e)
           | OutputItemDone e \<Rightarrow> item_effects (oi_output_index e) (oi_item e)
           | ContentPartAdded e \<Rightarrow> content_effects (cp_output_index e) (cp_content_index e) [cp_part e]
           | ContentPartDone e \<Rightarrow> content_effects (cp_output_index e) (cp_content_index e) [cp_part e]
           | OutputTextDelta e \<Rightarrow> [((te_output_index e, te_content_index e), Append (te_text e))]
           | OutputTextDone e \<Rightarrow> [((te_output_index e, te_content_index e), Replace (te_text e))]
           | _ \<Rightarrow> []))"

fun apply_op :: "text_op \<Rightarrow> bytes option \<Rightarrow> bytes" where
  "apply_op (Append d) None = d"
| "apply_op (Append d) (Some t) = t @ d"
| "apply_op (Replace t) _ = t"

definition apply_effect :: "text_effect \<Rightarrow> (nat \<times> nat \<rightharpoonup> bytes) \<Rightarrow> (nat \<times> nat \<rightharpoonup> bytes)" where
  "apply_effect e m = (case e of (k, op) \<Rightarrow> m(k \<mapsto> apply_op op (m k)))"

definition text_view :: "response_accumulator \<Rightarrow> (nat \<times> nat \<rightharpoonup> bytes)" where
  "text_view acc k = map_option at_text (RBT.lookup (acc_text acc) k)"

lemma bind_item_view: "bind_item oi i acc = (res, s) \<Longrightarrow> text_view s = text_view acc"
  by (auto simp: bind_item_def text_view_def split: option.splits if_splits)

lemma text_view_ops:
  "append_text oi ci i t acc = (Ok (), s) \<Longrightarrow> text_view s = apply_effect ((oi, ci), Append t) (text_view acc)"
  "set_text oi ci i t acc = (Ok (), s) \<Longrightarrow> text_view s = apply_effect ((oi, ci), Replace t) (text_view acc)"
  "append_function_arguments oi i t acc = (Ok (), s) \<Longrightarrow> text_view s = text_view acc"
  "set_function_arguments oi i t acc = (Ok (), s) \<Longrightarrow> text_view s = text_view acc"
  by (auto simp: append_text_def set_text_def append_function_arguments_def set_function_arguments_def
      text_view_def apply_effect_def Let_def fun_eq_iff split: option.splits if_splits)

lemma observe_contents_view:
  "observe_contents oi ci i cs acc = (Ok (), s) \<Longrightarrow>
     text_view s = fold apply_effect (content_effects oi ci cs) (text_view acc)"
proof (induction cs arbitrary: ci acc)
  case (Cons c cs)
  then obtain s1 where "(case c of OutputText t \<Rightarrow> set_text oi ci i t acc | _ \<Rightarrow> (Ok (), acc)) = (Ok (), s1)"
    "observe_contents oi (ci + 1) i cs s1 = (Ok (), s)"
    by (auto simp: and_then_Ok_iff)
  with Cons.IH [OF this(2)] text_view_ops(2) show ?case
    by (cases c) (auto simp: content_effects_def)
qed (simp add: content_effects_def)

lemma observe_output_item_view:
  assumes "observe_output_item oi item acc = (Ok (), s)"
  shows "text_view s = fold apply_effect (item_effects oi item) (text_view acc)"
proof -
  from assms obtain s1 where s1:
    "(case response_output_item_id item of Some i \<Rightarrow> bind_item oi i acc | None \<Rightarrow> (Ok (), acc)) = (Ok (), s1)"
    "(case item of Message m \<Rightarrow> observe_contents oi 0 (om_id m) (om_content m) s1
      | FunctionCall call \<Rightarrow> (case ofc_id call of
           Present i \<Rightarrow> set_function_arguments oi i (ofc_arguments call) s1 | Omitted \<Rightarrow> (Ok (), s1))
      | _ \<Rightarrow> (Ok (), s1)) = (Ok (), s)"
    by (auto simp: observe_output_item_def and_then_Ok_iff)
  have "text_view s1 = text_view acc" using s1(1) bind_item_view by (auto split: option.splits)
  with s1(2) observe_contents_view text_view_ops(4) show ?thesis
    by (cases item) (auto simp: item_effects_def split: omittable.splits)
qed

lemma observe_items_view:
  "observe_items oi items acc = (Ok (), s) \<Longrightarrow>
     text_view s = fold apply_effect (items_effects oi items) (text_view acc)"
  by (induction items arbitrary: oi acc)
    (auto simp: items_effects_def and_then_Ok_iff dest!: observe_output_item_view)

lemma text_view_updates [simp]:
  "text_view (acc\<lparr>acc_snapshot := r, acc_terminal := t\<rparr>) = text_view acc"
  "text_view (acc\<lparr>acc_last_sequence_number := n\<rparr>) = text_view acc"
  by (simp_all add: text_view_def fun_eq_iff)

lemma accept_response_view:
  "accept_response r t acc = (Ok (), s) \<Longrightarrow>
     text_view s = fold apply_effect (items_effects 0 (resp_output r)) (text_view acc)"
  by (auto simp: accept_response_def and_then_Ok_iff dest!: observe_items_view)

lemma accept_part_view:
  "accept_part e acc = (Ok (), s) \<Longrightarrow>
     text_view s = fold apply_effect (content_effects (cp_output_index e) (cp_content_index e) [cp_part e]) (text_view acc)"
  by (auto simp: accept_part_def and_then_Ok_iff content_effects_def split: output_content.splits
      dest!: bind_item_view text_view_ops)

lemma reduce_view:
  assumes "reduce event acc = (Ok (), s)"
  shows "text_view s = fold apply_effect (text_effects event) (text_view acc)"
proof (cases "lifecycle event")
  case (Some x)
  with assms show ?thesis by (cases x) (auto simp: reduce_lifecycle text_effects_def dest: accept_response_view)
next
  case None
  then show ?thesis using assms
    by (cases event)
      (auto simp: lifecycle_def text_effects_def and_then_Ok_iff
        dest!: bind_item_view text_view_ops accept_part_view observe_output_item_view)
qed

lemma check_sequence_view: "check_sequence e acc = (Ok (), s) \<Longrightarrow> text_view s = text_view acc"
  by (auto simp: check_sequence_Ok text_view_def fun_eq_iff split: option.splits)

lemma accepted_view:
  "push_all acc_push es acc = (Ok (), s) \<Longrightarrow>
     text_view s = fold apply_effect (concat (map text_effects es)) (text_view acc)"
  by (induction es arbitrary: acc)
    (auto simp: and_then_Ok_iff acc_push_def split: if_splits dest!: check_sequence_view reduce_view)

lemma text_view_new [simp]: "text_view accumulator_new = Map.empty"
  by (simp add: text_view_def accumulator_new_def fun_eq_iff)

text \<open>
  the streamed text.  For every accepted stream the text stored for each content part is the
  result of applying, in order, the appends and replacements that the events prescribe for that part:
  deltas append, a finished part, item or response snapshot replaces.
\<close>

theorem accumulator_text_refines:
  assumes "push_all acc_push es accumulator_new = (Ok (), acc)"
  shows "text_view acc = fold apply_effect (concat (map text_effects es)) Map.empty"
  using accepted_view [OF assms] by simp

theorem accumulator_text_refines_witness:
  "\<exists>acc. push_all acc_push [demo_delta 0 0 ''ab'' 1, demo_delta 0 0 ''c'' 4] accumulator_new = (Ok (), acc)
     \<and> text_view acc = [(0, 0) \<mapsto> ''abc'']"
proof -
  have "fst (push_all acc_push [demo_delta 0 0 ''ab'' 1, demo_delta 0 0 ''c'' 4] accumulator_new) = Ok ()"
    by code_simp
  then obtain acc where acc: "push_all acc_push [demo_delta 0 0 ''ab'' 1, demo_delta 0 0 ''c'' 4] accumulator_new
      = (Ok (), acc)" by (metis prod.collapse)
  from accumulator_text_refines [OF this] acc show ?thesis
    by (auto simp: demo_delta_def text_effects_def lifecycle_def apply_effect_def)
qed

text \<open>Effects on different parts do not interfere.\<close>

lemma apply_effects_at:
  "fold apply_effect es m k =
     fold (\<lambda>op t. Some (apply_op op t)) (map snd (filter (\<lambda>e. fst e = k) es)) (m k)"
  by (induction es arbitrary: m) (auto simp: apply_effect_def split: prod.splits)

lemma text_of_view:
  assumes "text_view acc = text_view acc'"
  shows "map (at_text \<circ> snd) (RBT.entries (acc_text acc)) = map (at_text \<circ> snd) (RBT.entries (acc_text acc'))"
  using assms unfolding text_view_def by (intro btree.values_determined) meson

text \<open>
  interleaving does not matter.  Two accepted streams that are not finished and prescribe, for
  every content part on its own, the same appends and replacements in the same order give the same
  output text, however the events of different parts are interleaved.
\<close>

theorem accumulator_interleaving:
  assumes "push_all acc_push es accumulator_new = (Ok (), acc)"
    and "push_all acc_push es' accumulator_new = (Ok (), acc')"
    and "\<not> acc_terminal acc" and "\<not> acc_terminal acc'"
    and "\<And>k. filter (\<lambda>e. fst e = k) (concat (map text_effects es)) =
      filter (\<lambda>e. fst e = k) (concat (map text_effects es'))"
  shows "acc_output_text acc = acc_output_text acc'"
proof -
  have "text_view acc = text_view acc'"
    using accepted_view [OF assms(1)] accepted_view [OF assms(2)] assms(5)
    by (simp add: fun_eq_iff apply_effects_at)
  from text_of_view [OF this] show ?thesis using assms(3,4) by (simp add: acc_output_text_def)
qed

theorem accumulator_interleaving_witness:
  "\<exists>acc acc'. push_all acc_push [demo_delta 0 0 ''a'' 1, demo_delta 1 0 ''x'' 2, demo_delta 0 0 ''b'' 3] accumulator_new = (Ok (), acc)
     \<and> push_all acc_push [demo_delta 1 0 ''x'' 1, demo_delta 0 0 ''a'' 2, demo_delta 0 0 ''b'' 3] accumulator_new = (Ok (), acc')
     \<and> acc_output_text acc = ''abx'' \<and> acc_output_text acc' = ''abx''"
proof -
  let ?es = "[demo_delta 0 0 ''a'' 1, demo_delta 1 0 ''x'' 2, demo_delta 0 0 ''b'' 3]"
  let ?es' = "[demo_delta 1 0 ''x'' 1, demo_delta 0 0 ''a'' 2, demo_delta 0 0 ''b'' 3]"
  let ?acc = "snd (push_all acc_push ?es accumulator_new)" and ?acc' = "snd (push_all acc_push ?es' accumulator_new)"
  have ok: "fst (push_all acc_push ?es accumulator_new) = Ok ()" "fst (push_all acc_push ?es' accumulator_new) = Ok ()"
    "\<not> acc_terminal ?acc" "\<not> acc_terminal ?acc'" "acc_output_text ?acc = ''abx''"
    by code_simp+
  have "acc_output_text ?acc = acc_output_text ?acc'"
    by (rule accumulator_interleaving [where es = ?es and es' = ?es'])
      (use ok in \<open>auto simp: prod_eq_iff demo_delta_def text_effects_def lifecycle_def\<close>)
  with ok show ?thesis by (metis prod.collapse)
qed

end
