(* ===== verification/Response_Stream.thy ===== *)
theory Response_Stream
  imports Event_Stream Response_Reduction
begin

text \<open>
  The typed Responses stream, \<^verbatim>\<open>crates/openai-rs-client/src/response_stream.rs\<close>, with the wire table of
  \<^verbatim>\<open>ResponseStreamEvent\<close> from \<^verbatim>\<open>responses.rs\<close>: from the chunks of an HTTP body to the reduced response.

  The deserializers of the event payloads are derived code and parameters (\<open>payload_decoders\<close>, each given
  the variant's wire name); so is the parser of JSON text, which reports an error and its path.
\<close>

section \<open>Decoding one event\<close>

record payload_decoders =
  d_lifecycle :: "bytes \<Rightarrow> lifecycle_event deserializer"
  d_output_item :: "bytes \<Rightarrow> output_item_event deserializer"
  d_content_part :: "bytes \<Rightarrow> content_part_event deserializer"
  d_text :: "bytes \<Rightarrow> text_event deserializer"
  d_arguments :: "bytes \<Rightarrow> arguments_event deserializer"
  d_item :: "bytes \<Rightarrow> item_event deserializer"
  d_plain :: "bytes \<Rightarrow> plain_event deserializer"
  d_error :: "bytes \<Rightarrow> stream_error_event deserializer"

definition variant :: "('p \<Rightarrow> response_stream_event) \<Rightarrow> 'p deserializer \<Rightarrow> response_stream_event deserializer" where
  "variant c de v = res_bind (de v) (\<lambda>p. Ok (c p))"

definition event_table :: "payload_decoders \<Rightarrow> (bytes \<times> response_stream_event deserializer) list" where
  "event_table d =
     [(''response.audio.delta'', variant AudioDelta (d_plain d ''response.audio.delta'')),
      (''response.audio.done'', variant AudioDone (d_plain d ''response.audio.done'')),
      (''response.audio.transcript.delta'', variant AudioTranscriptDelta (d_plain d ''response.audio.transcript.delta'')),
      (''response.audio.transcript.done'', variant AudioTranscriptDone (d_plain d ''response.audio.transcript.done'')),
      (''response.code_interpreter_call_code.delta'', variant CodeInterpreterCodeDelta (d_item d ''response.code_interpreter_call_code.delta'')),
      (''response.code_interpreter_call_code.done'', variant CodeInterpreterCodeDone (d_item d ''response.code_interpreter_call_code.done'')),
      (''response.code_interpreter_call.completed'', variant CodeInterpreterCompleted (d_item d ''response.code_interpreter_call.completed'')),
      (''response.code_interpreter_call.in_progress'', variant CodeInterpreterInProgress (d_item d ''response.code_interpreter_call.in_progress'')),
      (''response.code_interpreter_call.interpreting'', variant CodeInterpreterInterpreting (d_item d ''response.code_interpreter_call.interpreting'')),
      (''response.queued'', variant Queued (d_lifecycle d ''response.queued'')),
      (''response.created'', variant Created (d_lifecycle d ''response.created'')),
      (''response.in_progress'', variant InProgress (d_lifecycle d ''response.in_progress'')),
      (''response.completed'', variant Completed (d_lifecycle d ''response.completed'')),
      (''response.failed'', variant Failed (d_lifecycle d ''response.failed'')),
      (''response.incomplete'', variant Incomplete (d_lifecycle d ''response.incomplete'')),
      (''response.output_item.added'', variant OutputItemAdded (d_output_item d ''response.output_item.added'')),
      (''response.output_item.done'', variant OutputItemDone (d_output_item d ''response.output_item.done'')),
      (''response.content_part.added'', variant ContentPartAdded (d_content_part d ''response.content_part.added'')),
      (''response.content_part.done'', variant ContentPartDone (d_content_part d ''response.content_part.done'')),
      (''response.output_text.delta'', variant OutputTextDelta (d_text d ''response.output_text.delta'')),
      (''response.output_text.done'', variant OutputTextDone (d_text d ''response.output_text.done'')),
      (''response.refusal.delta'', variant RefusalDelta (d_item d ''response.refusal.delta'')),
      (''response.refusal.done'', variant RefusalDone (d_item d ''response.refusal.done'')),
      (''response.function_call_arguments.delta'', variant FunctionCallArgumentsDelta (d_arguments d ''response.function_call_arguments.delta'')),
      (''response.function_call_arguments.done'', variant FunctionCallArgumentsDone (d_arguments d ''response.function_call_arguments.done'')),
      (''response.file_search_call.completed'', variant FileSearchCompleted (d_item d ''response.file_search_call.completed'')),
      (''response.file_search_call.in_progress'', variant FileSearchInProgress (d_item d ''response.file_search_call.in_progress'')),
      (''response.file_search_call.searching'', variant FileSearchSearching (d_item d ''response.file_search_call.searching'')),
      (''response.shell_call_command.added'', variant ShellCommandAdded (d_plain d ''response.shell_call_command.added'')),
      (''response.shell_call_command.delta'', variant ShellCommandDelta (d_plain d ''response.shell_call_command.delta'')),
      (''response.shell_call_command.done'', variant ShellCommandDone (d_plain d ''response.shell_call_command.done'')),
      (''response.shell_call_output_content.delta'', variant ShellOutputContentDelta (d_item d ''response.shell_call_output_content.delta'')),
      (''response.shell_call_output_content.done'', variant ShellOutputContentDone (d_item d ''response.shell_call_output_content.done'')),
      (''response.reasoning_summary_part.added'', variant ReasoningSummaryPartAdded (d_item d ''response.reasoning_summary_part.added'')),
      (''response.reasoning_summary_part.done'', variant ReasoningSummaryPartDone (d_item d ''response.reasoning_summary_part.done'')),
      (''response.reasoning_summary_text.delta'', variant ReasoningSummaryTextDelta (d_item d ''response.reasoning_summary_text.delta'')),
      (''response.reasoning_summary_text.done'', variant ReasoningSummaryTextDone (d_item d ''response.reasoning_summary_text.done'')),
      (''response.reasoning_text.delta'', variant ReasoningTextDelta (d_item d ''response.reasoning_text.delta'')),
      (''response.reasoning_text.done'', variant ReasoningTextDone (d_item d ''response.reasoning_text.done'')),
      (''response.web_search_call.completed'', variant WebSearchCompleted (d_item d ''response.web_search_call.completed'')),
      (''response.web_search_call.in_progress'', variant WebSearchInProgress (d_item d ''response.web_search_call.in_progress'')),
      (''response.web_search_call.searching'', variant WebSearchSearching (d_item d ''response.web_search_call.searching'')),
      (''response.image_generation_call.completed'', variant ImageGenerationCompleted (d_item d ''response.image_generation_call.completed'')),
      (''response.image_generation_call.generating'', variant ImageGenerationGenerating (d_item d ''response.image_generation_call.generating'')),
      (''response.image_generation_call.in_progress'', variant ImageGenerationInProgress (d_item d ''response.image_generation_call.in_progress'')),
      (''response.image_generation_call.partial_image'', variant ImageGenerationPartialImage (d_item d ''response.image_generation_call.partial_image'')),
      (''response.mcp_call_arguments.delta'', variant McpCallArgumentsDelta (d_item d ''response.mcp_call_arguments.delta'')),
      (''response.mcp_call_arguments.done'', variant McpCallArgumentsDone (d_item d ''response.mcp_call_arguments.done'')),
      (''response.mcp_call.in_progress'', variant McpCallInProgress (d_item d ''response.mcp_call.in_progress'')),
      (''response.mcp_call.completed'', variant McpCallCompleted (d_item d ''response.mcp_call.completed'')),
      (''response.mcp_call.failed'', variant McpCallFailed (d_item d ''response.mcp_call.failed'')),
      (''response.mcp_list_tools.in_progress'', variant McpListToolsInProgress (d_item d ''response.mcp_list_tools.in_progress'')),
      (''response.mcp_list_tools.completed'', variant McpListToolsCompleted (d_item d ''response.mcp_list_tools.completed'')),
      (''response.mcp_list_tools.failed'', variant McpListToolsFailed (d_item d ''response.mcp_list_tools.failed'')),
      (''response.output_text.annotation.added'', variant OutputTextAnnotationAdded (d_item d ''response.output_text.annotation.added'')),
      (''response.custom_tool_call_input.delta'', variant CustomToolCallInputDelta (d_item d ''response.custom_tool_call_input.delta'')),
      (''response.custom_tool_call_input.done'', variant CustomToolCallInputDone (d_item d ''response.custom_tool_call_input.done'')),
      (''error'', variant ErrorEvent (d_error d ''error''))]"

definition event_deserialize :: "payload_decoders \<Rightarrow> response_stream_event deserializer" where
  "event_deserialize d v =
     res_bind (tagged_deserialize (event_table d) v) (\<lambda>t.
       Ok (case t of Known e \<Rightarrow> e | Unknown u \<Rightarrow> UnknownEvent (raw u)))"

text \<open>What the stream needs of the libraries: errors, the JSON text parser and the path that a failed
  typed decode reports.\<close>

record response_codec =
  rc_errors :: error_codec
  rc_value :: "bytes \<Rightarrow> (bytes \<times> bytes option, json) result"
  rc_path :: "bytes \<Rightarrow> bytes option"
  rc_payloads :: payload_decoders

definition deserialize_event :: "response_codec \<Rightarrow> bytes \<Rightarrow> (bytes \<times> bytes option, response_stream_event) result" where
  "deserialize_event c bs =
     res_bind (rc_value c bs) (\<lambda>v. map_err (\<lambda>e. (e, rc_path c bs)) (event_deserialize (rc_payloads c) v))"

definition decode_event :: "response_codec \<Rightarrow> response_meta \<Rightarrow> sse_frame \<Rightarrow> (client_error, response_stream_event) result" where
  "decode_event c mt frame =
     (let preview = body_preview_of (rc_errors c) (frame_data frame) False;
          decode_error = (\<lambda>(source, path). Decode source path 200 (meta_request_id mt) preview)
      in if frame_event frame = None
         then Err (StreamProtocol ''a Responses event is missing its SSE event field'' (meta_request_id mt) preview)
         else res_bind (map_err decode_error (rc_value c (frame_data frame))) (\<lambda>v.
           if Option.bind (value_get v ''type'') as_str \<noteq> frame_event frame
           then Err (StreamProtocol ''the SSE event field and JSON type discriminator differ'' (meta_request_id mt) preview)
           else map_err decode_error (deserialize_event c (frame_data frame))))"

definition remote_stream_error :: "response_codec \<Rightarrow> response_meta \<Rightarrow> sse_frame \<Rightarrow> client_error" where
  "remote_stream_error c mt frame =
     StreamErr (stream_error_from_body (rc_errors c) (meta_request_id mt) (frame_data frame))"

section \<open>The stream\<close>

type_synonym response_item = "(client_error, response_stream_event) result"

fun response_on_push :: "response_codec \<Rightarrow> response_meta \<Rightarrow> response_item handler" where
  "response_on_push c mt (Event frame) =
     (case decode_event c mt frame of
        Ok event \<Rightarrow>
          if event_is_error event then ([Err (remote_stream_error c mt frame)], True)
          else if event_is_terminal event then ([Ok event], True)
          else ([Ok event], False)
      | Err e \<Rightarrow> ([Err e], True))"
| "response_on_push c mt (Terminal frame) = ([decode_event c mt frame], True)"
| "response_on_push c mt (RemoteError frame) = ([Err (remote_stream_error c mt frame)], True)"

fun response_on_eof :: "response_codec \<Rightarrow> response_meta \<Rightarrow> response_item handler" where
  "response_on_eof c mt (RemoteError frame) = ([Err (remote_stream_error c mt frame)], True)"
| "response_on_eof c mt d =
     (case decode_event c mt (dispatch_frame d) of
        Ok event \<Rightarrow>
          if event_is_error event then ([Err (remote_stream_error c mt (dispatch_frame d))], True)
          else ([Ok event], False)
      | Err e \<Rightarrow> ([Err e], True))"

definition response_events ::
    "response_codec \<Rightarrow> response_meta \<Rightarrow> sse_limits \<Rightarrow> (http_error, bytes) result list \<Rightarrow> response_item list" where
  "response_events c mt l cs =
     event_stream (response_on_push c mt) (response_on_eof c mt) (\<lambda>e. Err (sse_error mt e))
       (\<lambda>e. Err (from_response_body e mt)) cs (sse_stream_decoder_new l responses_policy)"

definition response_stream_from ::
    "response_codec \<Rightarrow> sse_limits \<Rightarrow> nat \<Rightarrow> (bytes \<Rightarrow> bytes option) \<Rightarrow> (http_error, bytes) result list \<Rightarrow>
       (client_error, response_meta \<times> response_item list) result" where
  "response_stream_from c l st headers cs =
     (let mt = from_headers st headers;
          content_type = headers ''content-type''
      in if \<not> is_event_stream content_type
         then Err (UnexpectedContentType ''text/event-stream'' content_type (meta_status mt) (meta_request_id mt))
         else Ok (mt, response_events c mt l cs))"

fun collect_with :: "response_item list \<Rightarrow> response_accumulator \<Rightarrow> (client_error, response) result" where
  "collect_with [] acc = map_err Accumulator (acc_finish acc)"
| "collect_with (Err e # items) acc = Err e"
| "collect_with (Ok event # items) acc =
     (case acc_push event acc of
        (Err e, _) \<Rightarrow> Err (Accumulator e)
      | (Ok _, acc') \<Rightarrow> collect_with items acc')"

definition collect_final :: "response_item list \<Rightarrow> (client_error, response) result" where
  "collect_final items = collect_with items accumulator_new"

section \<open>Terminal events have terminal wire names\<close>

definition terminal_names :: "bytes list" where
  "terminal_names = [''response.completed'', ''response.failed'', ''response.incomplete'', ''error'']"

lemma variant_Ok: "variant c de v = Ok e \<longleftrightarrow> (\<exists>p. de v = Ok p \<and> e = c p)"
  by (auto simp: variant_def res_bind_Ok_iff)

lemma event_table_terminal:
  "(t, de) \<in> set (event_table d) \<Longrightarrow> de v = Ok e \<Longrightarrow> event_is_terminal e \<Longrightarrow> t \<in> set terminal_names"
  unfolding event_table_def terminal_names_def
  by (simp add: variant_Ok event_is_terminal_def, elim disjE) (auto simp: variant_Ok)

lemma event_table_error:
  "(t, de) \<in> set (event_table d) \<Longrightarrow> de v = Ok e \<Longrightarrow> event_is_error e \<Longrightarrow> t = ''error''"
  unfolding event_table_def
  by (simp add: variant_Ok event_is_error_def, elim disjE) (auto simp: variant_Ok)

text \<open>A decoded event was decoded by the variant that its frame names, or is a future event.\<close>

lemma decode_event_variant:
  assumes "decode_event c mt f = Ok e"
  obtains t de v where "frame_event f = Some t" and "(t, de) \<in> set (event_table (rc_payloads c))" and "de v = Ok e"
  | obj where "e = UnknownEvent obj"
proof -
  from assms obtain t0 v where f: "frame_event f = Some t0" "rc_value c (frame_data f) = Ok v"
    "Option.bind (value_get v ''type'') as_str = Some t0" "event_deserialize (rc_payloads c) v = Ok e"
    by (auto simp: decode_event_def Let_def res_bind_Ok_iff deserialize_event_def split: if_splits)
  then have d: "object_discriminator v = Ok t0"
    by (auto simp: value_get_def object_discriminator_def ok_or_def bind_eq_Some_conv)
  from f(4) obtain t where t: "tagged_deserialize (event_table (rc_payloads c)) v = Ok t"
    "e = (case t of Known e \<Rightarrow> e | Unknown u \<Rightarrow> UnknownEvent (raw u))"
    by (auto simp: event_deserialize_def res_bind_Ok_iff)
  show ?thesis
  proof (cases t)
    case (Known k)
    with t d obtain de where "map_of (event_table (rc_payloads c)) t0 = Some de" "de v = Ok e"
      by (auto simp: tagged_deserialize_def res_bind_Ok_iff split: option.splits)
    with f(1) map_of_SomeD that(1) show ?thesis by metis
  next
    case (Unknown u)
    with t(2) that(2) show ?thesis by simp
  qed
qed

lemma decode_event_terminal:
  assumes "decode_event c mt f = Ok e" and "event_is_terminal e"
  shows "frame_event f \<in> Some ` set terminal_names"
  using assms(1)
proof (cases rule: decode_event_variant)
  case (1 t de v)
  with event_table_terminal assms(2) show ?thesis by blast
qed (use assms(2) in \<open>simp add: event_is_terminal_def\<close>)

lemma responses_policy_lists:
  "terminal_events responses_policy = [''response.completed'', ''response.failed'', ''response.incomplete'']"
  "remote_error_events responses_policy = [''error'']"
  by (simp_all add: responses_policy_def policy_new_def with_terminal_event_def
      with_consumed_data_sentinel_def with_remote_error_event_def)

lemma classify_event_name:
  "classify responses_policy f = FrameEvent \<Longrightarrow> frame_event f \<notin> Some ` set terminal_names"
  "classify responses_policy f = EmittedTerminal \<Longrightarrow> frame_event f \<noteq> Some ''error''"
  by (auto simp: classify_def is_some_and_def contains_def responses_policy_lists terminal_names_def
      split: option.splits if_splits)

lemma error_is_terminal: "event_is_error e \<Longrightarrow> event_is_terminal e"
  by (auto simp: event_is_error_def event_is_terminal_def split: response_stream_event.splits)

lemma error_event_name:
  assumes "decode_event c mt f = Ok e" and "event_is_error e"
  shows "frame_event f = Some ''error''"
  using assms(1)
proof (cases rule: decode_event_variant)
  case (1 t de v)
  with event_table_error assms(2) show ?thesis by blast
qed (use assms(2) in \<open>simp add: event_is_error_def\<close>)

interpretation response_client: stream_client responses_policy "response_on_push c mt" "response_on_eof c mt"
  "\<lambda>e. Err (sse_error mt e)" "\<lambda>e. Err (from_response_body e mt)" for c mt
proof unfold_locales
  fix f assume f: "classify responses_policy f = FrameEvent"
  then have "\<not> event_is_terminal e" if "decode_event c mt f = Ok e" for e
    using decode_event_terminal [OF that] classify_event_name(1) by blast
  then show "response_on_push c mt (Event f) = response_on_eof c mt (Event f)"
    using error_is_terminal by (auto split: sum.split)
next
  fix f assume "classify responses_policy f = EmittedTerminal"
  then have "\<not> event_is_error e" if "decode_event c mt f = Ok e" for e
    using error_event_name [OF that] classify_event_name(2) by blast
  then show "fst (response_on_push c mt (Terminal f)) = fst (response_on_eof c mt (Terminal f))"
    by (auto split: sum.split)
qed simp

section \<open>The stream depends on the body only\<close>

text \<open>What the stream yields for a whole body.\<close>

definition body_events :: "response_codec \<Rightarrow> response_meta \<Rightarrow> sse_limits \<Rightarrow> bytes \<Rightarrow> response_item list" where
  "body_events c mt l bs =
     deliver_items (response_on_eof c mt) (\<lambda>e. Err (sse_error mt e)) (stream_decode responses_policy l bs)"

lemma response_events_body:
  "0 < max_line_bytes l \<Longrightarrow> response_events c mt l (map Ok cs) = body_events c mt l (concat cs)"
  unfolding response_events_def body_events_def by (rule response_client.stream_items_new)

text \<open>
  the items of a Responses stream are determined by the body.  However the transport cuts the body
  into chunks, the stream yields exactly the items of the one-shot specification: the frames of the
  whole body decoded in order, up to the first terminal, error or undecodable frame, and then the
  decoding error of the stream if it ends without one.  The special treatment of terminal and error
  events in the chunk loop and in the end-of-body flush never shows.
\<close>

theorem response_stream_chunking:
  assumes "0 < max_line_bytes l"
  shows "response_events c mt l (map Ok cs) = body_events c mt l (concat cs)"
  by (rule response_events_body [OF assms])

definition demo_decoders :: payload_decoders where
  "demo_decoders =
     \<lparr>d_lifecycle = (\<lambda>_ _. Ok \<lparr>le_response = \<lparr>resp_output = [], resp_rest = []\<rparr>, le_sequence = 2\<rparr>),
      d_output_item = (\<lambda>_ _. Err []), d_content_part = (\<lambda>_ _. Err []), d_text = (\<lambda>_ _. Err []),
      d_arguments = (\<lambda>_ _. Err []), d_item = (\<lambda>_ _. Err []),
      d_plain = (\<lambda>_ _. Ok \<lparr>pe_sequence = 1\<rparr>), d_error = (\<lambda>_ _. Err [])\<rparr>"

text \<open>A parser for the demonstration: the body is the discriminator itself.\<close>

definition demo_response_codec :: response_codec where
  "demo_response_codec =
     \<lparr>rc_errors = demo_codec, rc_value = (\<lambda>bs. Ok (JObject [(''type'', JString bs)])), rc_path = (\<lambda>_. None),
      rc_payloads = demo_decoders\<rparr>"

definition demo_sse :: "bytes \<Rightarrow> bytes" where
  "demo_sse t = ''event: '' @ t @ [LF] @ ''data: '' @ t @ [LF, LF]"

definition demo_response_body :: bytes where
  "demo_response_body = demo_sse ''response.audio.done'' @ demo_sse ''response.completed'' @ ''junk''"

theorem response_stream_chunking_witness:
  "response_events demo_response_codec demo_meta sse_limits_default
     (map Ok [take 11 demo_response_body, drop 11 demo_response_body]) =
     [Ok (AudioDone \<lparr>pe_sequence = 1\<rparr>),
      Ok (Completed \<lparr>le_response = \<lparr>resp_output = [], resp_rest = []\<rparr>, le_sequence = 2\<rparr>)]"
proof -
  have "body_events demo_response_codec demo_meta sse_limits_default demo_response_body =
     [Ok (AudioDone \<lparr>pe_sequence = 1\<rparr>),
      Ok (Completed \<lparr>le_response = \<lparr>resp_output = [], resp_rest = []\<rparr>, le_sequence = 2\<rparr>)]" by code_simp
  then show ?thesis
    using response_stream_chunking [of sse_limits_default demo_response_codec demo_meta
        "[take 11 demo_response_body, drop 11 demo_response_body]"]
    by (simp add: sse_limits_default_def DEFAULT_MAX_SSE_LINE_BYTES_def)
qed

section \<open>Collecting\<close>

lemma collect_with_Ok_iff:
  "collect_with items acc = Ok r \<longleftrightarrow>
     (\<exists>evs acc'. items = map Ok evs \<and> push_all acc_push evs acc = (Ok (), acc') \<and> acc_finish acc' = Ok r)"
proof (induction items acc rule: collect_with.induct)
  case (3 event items acc)
  show ?case
  proof (cases "acc_push event acc")
    case (Pair res acc1)
    show ?thesis
    proof (cases res)
      case (Inr u)
      with Pair 3 show ?thesis by (auto simp: Cons_eq_map_conv)
    qed (use Pair in \<open>auto simp: Cons_eq_map_conv\<close>)
  qed
qed auto

lemma collect_final_Ok_iff:
  "collect_final items = Ok r \<longleftrightarrow>
     (\<exists>evs acc. items = map Ok evs \<and> push_all acc_push evs accumulator_new = (Ok (), acc)
        \<and> evs \<noteq> [] \<and> lifecycle (last evs) = Some (r, True))"
  unfolding collect_final_def collect_with_Ok_iff using accepted_finish by blast

end
