(* ===== verification/Scalar.thy ===== *)
theory Scalar
  imports Kernel
begin

text \<open>
  The scalar wire types of \<^verbatim>\<open>crates/openai-rs-types/src/scalar.rs\<close>.  \<^verbatim>\<open>open_string_enum!\<close> generates
  one enum per instance; the instance is here its table of variants and wire strings, and the generated
  operations are written once over the table.  The instances the accumulators read are those of
  \<^verbatim>\<open>chat.rs\<close>.

  \<^verbatim>\<open>ModelId\<close>, the opaque identifiers and \<^verbatim>\<open>JsonText\<close> are transparent wrappers of a string and
  stand for it.
\<close>

type_synonym model_id = bytes
type_synonym json_text = bytes

datatype 'v open_enum = Variant 'v | UnknownValue bytes

type_synonym 'v enum_table = "('v \<times> bytes) list"

section \<open>The generated operations\<close>

definition enum_from_raw :: "'v enum_table \<Rightarrow> bytes \<Rightarrow> 'v open_enum" where
  "enum_from_raw table s =
     (case find (\<lambda>p. snd p = s) table of Some (v, _) \<Rightarrow> Variant v | None \<Rightarrow> UnknownValue s)"

definition enum_as_str :: "'v enum_table \<Rightarrow> 'v open_enum \<Rightarrow> bytes" where
  "enum_as_str table e =
     (case e of Variant v \<Rightarrow> (case map_of table v of Some wire \<Rightarrow> wire | None \<Rightarrow> []) | UnknownValue s \<Rightarrow> s)"

fun enum_is_known :: "'v open_enum \<Rightarrow> bool" where
  "enum_is_known (Variant v) = True" | "enum_is_known (UnknownValue s) = False"

fun enum_unknown_value :: "'v open_enum \<Rightarrow> bytes option" where
  "enum_unknown_value (Variant v) = None" | "enum_unknown_value (UnknownValue s) = Some s"

definition enum_serialize :: "'v enum_table \<Rightarrow> 'v open_enum serializer" where
  "enum_serialize table e = Ok (JString (enum_as_str table e))"

definition enum_deserialize :: "'v enum_table \<Rightarrow> 'v open_enum deserializer" where
  "enum_deserialize table j = res_bind (string_deserialize j) (\<lambda>s. Ok (enum_from_raw table s))"

section \<open>The contract of an instance\<close>

text \<open>Every variant has one wire string, and no two variants share one.\<close>

locale open_string_enum =
  fixes table :: "'v enum_table"
  assumes total: "fst ` set table = UNIV"
    and variants_distinct: "distinct (map fst table)"
    and wires_distinct: "distinct (map snd table)"
begin

lemma find_wire: "find (\<lambda>p. snd p = s) table = Some p \<Longrightarrow> snd p = s \<and> p \<in> set table"
  by (auto simp: find_Some_iff)

lemma from_raw_Variant: "enum_from_raw table s = Variant v \<longleftrightarrow> (v, s) \<in> set table"
proof
  assume "enum_from_raw table s = Variant v"
  then show "(v, s) \<in> set table"
    by (auto simp: enum_from_raw_def dest: find_wire split: option.splits prod.splits)
next
  assume m: "(v, s) \<in> set table"
  then obtain p where f: "find (\<lambda>p. snd p = s) table = Some p" by (cases "find (\<lambda>p. snd p = s) table") (auto simp: find_None_iff)
  have "inj_on snd (set table)" using wires_distinct by (simp add: distinct_map)
  with find_wire [OF f] m have "p = (v, s)" by (auto intro: inj_onD)
  with f show "enum_from_raw table s = Variant v" by (simp add: enum_from_raw_def)
qed

lemma from_raw_Unknown: "enum_from_raw table s = UnknownValue u \<longleftrightarrow> u = s \<and> s \<notin> snd ` set table"
proof (cases "find (\<lambda>p. snd p = s) table")
  case None
  then have "s \<notin> snd ` set table" by (auto simp: find_None_iff)
  with None show ?thesis by (auto simp: enum_from_raw_def)
next
  case (Some p)
  with find_wire [OF Some] show ?thesis by (cases p) (force simp: enum_from_raw_def)
qed

lemma as_str_Variant: "enum_as_str table (Variant v) = s \<longleftrightarrow> (v, s) \<in> set table"
proof -
  have "map_of table v \<noteq> None" using total by (metis UNIV_I map_of_eq_None_iff)
  then show ?thesis using variants_distinct map_of_eq_Some_iff by (fastforce simp: enum_as_str_def)
qed

lemma as_str_from_raw [simp]: "enum_as_str table (enum_from_raw table s) = s"
proof (cases "enum_from_raw table s")
  case (Variant v)
  then have "(v, s) \<in> set table" by (simp add: from_raw_Variant)
  with Variant as_str_Variant show ?thesis by metis
next
  case (UnknownValue u)
  moreover from this have "u = s" by (simp add: from_raw_Unknown)
  ultimately show ?thesis by (simp add: enum_as_str_def)
qed

lemma from_raw_as_str: "enum_from_raw table (enum_as_str table (Variant v)) = Variant v"
  unfolding from_raw_Variant by (rule as_str_Variant [THEN iffD1]) (rule refl)

lemma from_raw_inject: "enum_from_raw table s = enum_from_raw table t \<longleftrightarrow> s = t"
  by (metis as_str_from_raw)

end

section \<open>Instances\<close>

datatype chat_role = Developer | System | User | Assistant | Tool | Function
datatype chat_finish_reason = Stop | Length | ToolCalls | ContentFilter | FunctionCall
datatype chat_tool_kind = FunctionKind | CustomKind
datatype chat_completion_object = Completion | ChunkObject

definition chat_role_table :: "chat_role enum_table" where
  "chat_role_table =
     [(Developer, ''developer''), (System, ''system''), (User, ''user''), (Assistant, ''assistant''),
      (Tool, ''tool''), (Function, ''function'')]"

definition chat_finish_reason_table :: "chat_finish_reason enum_table" where
  "chat_finish_reason_table =
     [(Stop, ''stop''), (Length, ''length''), (ToolCalls, ''tool_calls''), (ContentFilter, ''content_filter''),
      (FunctionCall, ''function_call'')]"

definition chat_tool_kind_table :: "chat_tool_kind enum_table" where
  "chat_tool_kind_table = [(FunctionKind, ''function''), (CustomKind, ''custom'')]"

definition chat_completion_object_table :: "chat_completion_object enum_table" where
  "chat_completion_object_table = [(Completion, ''chat.completion''), (ChunkObject, ''chat.completion.chunk'')]"

interpretation role: open_string_enum chat_role_table
  by unfold_locales (auto simp: chat_role_table_def UNIV_eq_I intro: chat_role.exhaust)

interpretation finish_reason: open_string_enum chat_finish_reason_table
  by unfold_locales (auto simp: chat_finish_reason_table_def UNIV_eq_I intro: chat_finish_reason.exhaust)

interpretation tool_kind: open_string_enum chat_tool_kind_table
  by unfold_locales (auto simp: chat_tool_kind_table_def UNIV_eq_I intro: chat_tool_kind.exhaust)

interpretation completion_object: open_string_enum chat_completion_object_table
  by unfold_locales (auto simp: chat_completion_object_table_def UNIV_eq_I intro: chat_completion_object.exhaust)

section \<open>Property\<close>

text \<open>
  An open string enum is lossless and forward compatible: every JSON string decodes, the decoded value
  serializes to the very same string, a value is unknown exactly when no variant has its wire string, and a
  JSON value that is not a string is refused.
\<close>

theorem open_enum_lossless:
  assumes "open_string_enum table"
  shows "enum_deserialize table j = Ok e \<longleftrightarrow>
    (\<exists>s. j = JString s \<and> enum_serialize table e = Ok j
       \<and> (if s \<in> snd ` set table then \<exists>v. e = Variant v else e = UnknownValue s))"
proof -
  note laws = open_string_enum.as_str_from_raw [OF assms] open_string_enum.from_raw_Variant [OF assms]
    open_string_enum.from_raw_Unknown [OF assms] open_string_enum.from_raw_as_str [OF assms]
  have str: "string_deserialize j = Ok s \<longleftrightarrow> j = JString s" for s
    by (cases j) (auto simp: string_deserialize_def)
  have "enum_from_raw table s = e \<longleftrightarrow>
      enum_as_str table e = s \<and> (if s \<in> snd ` set table then \<exists>v. e = Variant v else e = UnknownValue s)" for s
  proof (cases "s \<in> snd ` set table")
    case True
    then have "\<exists>v. enum_from_raw table s = Variant v" by (auto simp: laws)
    with True laws show ?thesis by metis
  next
    case False
    then have "enum_from_raw table s = UnknownValue s" by (auto simp: laws)
    with False show ?thesis by (auto simp: enum_as_str_def)
  qed
  then show ?thesis unfolding enum_deserialize_def enum_serialize_def res_bind_Ok_iff str by blast
qed

theorem open_enum_lossless_witness:
  "enum_deserialize chat_role_table (JString ''critic'') = Ok (UnknownValue ''critic'')
   \<and> enum_deserialize chat_role_table (JString ''tool'') = Ok (Variant Tool)"
  unfolding open_enum_lossless [OF role.open_string_enum_axioms]
  by (simp add: chat_role_table_def enum_serialize_def enum_as_str_def)

end
