(* ===== verification/Float64.thy ===== *)
theory Float64
  imports Prelude
begin

text \<open>
  IEEE-754 binary64 arithmetic as the sources use it: the conversions and the few operations on
  non-negative values of the retry delays, decimal parsing, and the sums of the delta merge.

  Every finite binary64 value is an integer multiple of \<open>2\<^sup>-\<^sup>1\<^sup>0\<^sup>7\<^sup>4\<close>.  A magnitude is the
  encoding without the sign bit, its units are the number of such multiples, and an exact result given as a
  ratio of units is rounded to nearest, ties to even, by one division.  Infinity has its IEEE encoding.
\<close>

definition F64_INF :: nat where "F64_INF = 2047 * 2 ^ 52"

text \<open>The units of a magnitude: a biased exponent of zero is a subnormal number.\<close>

definition f64_units :: "nat \<Rightarrow> nat" where
  "f64_units m =
     (let e = m div 2 ^ 52; f = m mod 2 ^ 52
      in if e = 0 then f else (2 ^ 52 + f) * 2 ^ (e - 1))"

abbreviation F64_ONE_UNITS :: nat where "F64_ONE_UNITS \<equiv> 2 ^ 1074"

fun bit_length :: "nat \<Rightarrow> nat" where
  "bit_length n = (if n = 0 then 0 else Suc (bit_length (n div 2)))"

declare bit_length.simps [simp del]

text \<open>The integer nearest to a quotient, ties to even.\<close>

definition round_div :: "nat \<Rightarrow> nat \<Rightarrow> nat" where
  "round_div n d =
     (let q = n div d; r = n mod d in if d < 2 * r \<or> d = 2 * r \<and> odd q then q + 1 else q)"

text \<open>The magnitude nearest to a ratio of units.\<close>

definition f64_nearest :: "nat \<Rightarrow> nat \<Rightarrow> nat" where
  "f64_nearest n d =
     (let s = bit_length (n div d) - 53 in min (round_div n (d * 2 ^ s) + s * 2 ^ 52) F64_INF)"

section \<open>Rounding\<close>

lemma bit_length_0 [simp]: "bit_length n = 0 \<longleftrightarrow> n = 0"
  by (simp add: bit_length.simps [of n])

lemma bit_length_pos [simp]: "0 < bit_length n \<longleftrightarrow> 0 < n"
  using bit_length_0 [of n] by linarith

lemma bit_length_bounds: "n < 2 ^ bit_length n \<and> (n \<noteq> 0 \<longrightarrow> 2 ^ (bit_length n - 1) \<le> n)"
proof (induction n rule: bit_length.induct)
  case (1 n)
  show ?case
  proof (cases "n = 0")
    case False
    with 1 have IH: "n div 2 < 2 ^ bit_length (n div 2)"
      "n div 2 \<noteq> 0 \<Longrightarrow> 2 ^ (bit_length (n div 2) - 1) \<le> n div 2" by auto
    have b: "bit_length n = Suc (bit_length (n div 2))" using False by (simp add: bit_length.simps)
    have "2 ^ bit_length (n div 2) \<le> n"
    proof (cases "n div 2 = 0")
      case True
      with False show ?thesis by (simp add: bit_length.simps)
    next
      case nz: False
      then have "bit_length (n div 2) \<noteq> 0" by simp
      then obtain k where k: "bit_length (n div 2) = Suc k" using not0_implies_Suc by blast
      with IH(2) [OF nz] show ?thesis by simp
    qed
    with IH(1) b show ?thesis by simp
  qed (simp add: bit_length.simps)
qed

lemma bit_length_unique:
  assumes "2 ^ k \<le> n" and "n < 2 ^ Suc k"
  shows "bit_length n = Suc k"
proof -
  have n: "n \<noteq> 0" using assms(1) by (metis less_le_not_le zero_less_numeral zero_less_power)
  with bit_length_bounds [of n] have b: "n < 2 ^ bit_length n" "2 ^ (bit_length n - 1) \<le> n" by simp_all
  from assms(1) b(1) have "(2::nat) ^ k < 2 ^ bit_length n" by linarith
  then have "k < bit_length n" by simp
  moreover from assms(2) b(2) have "(2::nat) ^ (bit_length n - 1) < 2 ^ Suc k" by linarith
  then have "bit_length n - 1 < Suc k" by (simp only: power_strict_increasing_iff)
  ultimately show ?thesis by simp
qed

lemma bit_length_small:
  assumes "n < 2 ^ k"
  shows "bit_length n \<le> k"
proof (cases "n = 0")
  case False
  with bit_length_bounds [of n] have "2 ^ (bit_length n - 1) \<le> n" by simp
  with assms have "(2::nat) ^ (bit_length n - 1) < 2 ^ k" by linarith
  then have "bit_length n - 1 < k" by simp
  then show ?thesis by simp
qed (simp add: bit_length.simps)

lemma bit_length_mono: "m \<le> n \<Longrightarrow> bit_length m \<le> bit_length n"
  using bit_length_bounds [of n] by (intro bit_length_small) simp

lemma bit_length_shift: "x \<noteq> 0 \<Longrightarrow> bit_length (x * 2 ^ k) = bit_length x + k"
proof (induction k)
  case (Suc k)
  then have "bit_length (x * 2 ^ Suc k) = Suc (bit_length (x * 2 ^ Suc k div 2))"
    by (subst bit_length.simps) simp
  moreover have "x * 2 ^ Suc k div 2 = x * 2 ^ k" by simp
  ultimately show ?case using Suc.IH [OF Suc.prems] by (simp only: add_Suc_right)
qed simp

lemma div_ratio_mono:
  fixes n d n' d' :: nat
  assumes "n * d' \<le> n' * d" and "0 < d" and "0 < d'"
  shows "n div d \<le> n' div d'"
proof -
  have "n div d = (n * d') div (d * d')" using assms(3) div_mult_mult2 [of d' n d] by linarith
  also have "\<dots> \<le> (n' * d) div (d * d')" by (rule div_le_mono [OF assms(1)])
  also have "\<dots> = n' div d'" using assms(2) by (simp add: mult.commute [of n'])
  finally show ?thesis .
qed

lemma round_div_bounds: "n div d \<le> round_div n d" "round_div n d \<le> n div d + 1"
  by (simp_all add: round_div_def Let_def)

lemma round_div_exact: "0 < d \<Longrightarrow> round_div (k * d) d = k"
  by (simp add: round_div_def)

lemma round_div_mono:
  assumes "n * d' \<le> n' * d" and "0 < d" and "0 < d'"
  shows "round_div n d \<le> round_div n' d'"
proof -
  define q r q' r' where "q = n div d" and "r = n mod d" and "q' = n' div d'" and "r' = n' mod d'"
  note defs = q_def r_def q'_def r'_def
  have "q \<le> q'" unfolding defs by (rule div_ratio_mono [OF assms])
  show ?thesis
  proof (cases "q = q'")
    case False
    with \<open>q \<le> q'\<close> have "q + 1 \<le> q'" by simp
    with round_div_bounds(2) [of n d] round_div_bounds(1) [of n' d'] show ?thesis unfolding defs by linarith
  next
    case True
    have n: "n = q * d + r" "n' = q' * d' + r'" by (simp_all add: defs)
    have "q * d * d' + r * d' \<le> q' * d' * d + r' * d" using assms(1) unfolding n by (simp add: algebra_simps)
    then have rr: "r * d' \<le> r' * d" using True by (simp add: algebra_simps)
    have up: "d' < 2 * r'" if "d < 2 * r"
    proof -
      have "d * d' < 2 * r * d'" using that assms(3) by simp
      also have "\<dots> \<le> 2 * r' * d" using rr by simp
      finally show ?thesis using assms(2) by (simp add: mult.commute [of d])
    qed
    have tie: "d' \<le> 2 * r'" if "d = 2 * r"
    proof -
      have "d * d' \<le> 2 * r' * d" unfolding that using mult_left_mono [OF rr, of 2] that by (simp add: algebra_simps)
      then have "d' * d \<le> 2 * r' * d" by (simp only: mult.commute [of d])
      then show ?thesis using assms(2) by (simp only: mult_le_cancel2)
    qed
    show ?thesis
    proof (cases "d' < 2 * r' \<or> d' = 2 * r' \<and> odd q'")
      case rounds_up: True
      then have "round_div n' d' = q' + 1" by (simp add: round_div_def Let_def defs)
      with round_div_bounds(2) [of n d] True show ?thesis unfolding defs by simp
    next
      case False
      with up tie True have "\<not> (d < 2 * r \<or> d = 2 * r \<and> odd q)" by force
      then have "round_div n d = q" by (simp add: round_div_def Let_def defs)
      with round_div_bounds(1) [of n' d'] True show ?thesis unfolding defs by simp
    qed
  qed
qed

lemma round_div_le: "n \<le> k * d \<Longrightarrow> 0 < d \<Longrightarrow> round_div n d \<le> k"
  using round_div_mono [of n d "k * d" d] round_div_exact [of d k] by simp

lemma round_div_ge: "k * d \<le> n \<Longrightarrow> 0 < d \<Longrightarrow> k \<le> round_div n d"
  using round_div_mono [of "k * d" d n d] round_div_exact [of d k] by simp

text \<open>A magnitude, read and rounded, is itself.\<close>

lemma f64_nearest_units:
  assumes "m < F64_INF" and "0 < d"
  shows "f64_nearest (f64_units m * d) d = m"
proof -
  define e where "e = m div 2 ^ 52"
  define f where "f = m mod 2 ^ 52"
  have m: "m = e * 2 ^ 52 + f" and f: "f < 2 ^ 52" by (simp_all add: e_def f_def)
  have near: "f64_nearest (f64_units m * d) d = min (round_div (f64_units m * d) (d * 2 ^ s) + s * 2 ^ 52) F64_INF"
    if "bit_length (f64_units m) - 53 = s" for s using that assms(2) by (simp add: f64_nearest_def Let_def)
  show ?thesis
  proof (cases "e = 0")
    case True
    then have "f64_units m = f" by (simp add: f64_units_def Let_def e_def f_def)
    with m True have u: "f64_units m = m" by simp
    have "bit_length m \<le> 53" by (rule bit_length_small) (use m True f in simp)
    with near [of 0] u assms show ?thesis by (simp add: round_div_exact)
  next
    case False
    let ?x = "2 ^ 52 + f"
    have u: "f64_units m = ?x * 2 ^ (e - 1)" using False by (simp add: f64_units_def Let_def e_def f_def)
    have "bit_length ?x = Suc 52" by (rule bit_length_unique) (use f in simp_all)
    then have "bit_length (f64_units m) - 53 = e - 1" unfolding u by (subst bit_length_shift) simp_all
    note n = near [OF this]
    have "f64_units m * d = ?x * (d * 2 ^ (e - 1))" unfolding u by (simp only: mult.assoc mult.commute [of "2 ^ (e - 1)" d])
    then have "round_div (f64_units m * d) (d * 2 ^ (e - 1)) = ?x"
      by (simp only:) (rule round_div_exact, use assms(2) in simp)
    moreover have "?x + (e - 1) * 2 ^ 52 = m" using False m by (cases e) simp_all
    ultimately show ?thesis using n assms(1) by simp
  qed
qed

lemma f64_nearest_bounds:
  assumes "0 < d" and "s = bit_length (n div d) - 53"
  shows "round_div n (d * 2 ^ s) \<le> 2 ^ 53" and "0 < s \<Longrightarrow> 2 ^ 52 \<le> round_div n (d * 2 ^ s)"
proof -
  have q: "n div (d * 2 ^ s) = (n div d) div 2 ^ s" by (simp add: div_mult2_eq)
  have "n div d < 2 ^ bit_length (n div d)" using bit_length_bounds by blast
  also have "(2::nat) ^ bit_length (n div d) \<le> 2 ^ (53 + s)" by (rule power_increasing) (use assms(2) in simp_all)
  finally have "(n div d) div 2 ^ s < 2 ^ 53" by (simp add: less_mult_imp_div_less power_add)
  with round_div_bounds(2) [of n "d * 2 ^ s"] q show "round_div n (d * 2 ^ s) \<le> 2 ^ 53" by linarith
  assume "0 < s"
  with assms(2) have b: "bit_length (n div d) = 53 + s" by simp
  then have "n div d \<noteq> 0" by (metis add_is_0 bit_length_0 zero_neq_numeral)
  with bit_length_bounds [of "n div d"] b have "2 ^ (52 + s) \<le> n div d" by simp
  then have "2 ^ 52 \<le> (n div d) div 2 ^ s" by (simp add: div_le_mono power_add flip: less_eq_div_iff_mult_less_eq)
  with round_div_bounds(1) [of n "d * 2 ^ s"] q show "2 ^ 52 \<le> round_div n (d * 2 ^ s)" by linarith
qed

text \<open>Rounding is monotone.\<close>

lemma f64_nearest_mono:
  assumes "n * d' \<le> n' * d" and "0 < d" and "0 < d'"
  shows "f64_nearest n d \<le> f64_nearest n' d'"
proof -
  define s s' where "s = bit_length (n div d) - 53" and "s' = bit_length (n' div d') - 53"
  have "s \<le> s'" unfolding s_def s'_def
    using bit_length_mono [OF div_ratio_mono [OF assms]] by (rule diff_le_mono)
  have "round_div n (d * 2 ^ s) + s * 2 ^ 52 \<le> round_div n' (d' * 2 ^ s') + s' * 2 ^ 52"
  proof (cases "s = s'")
    case True
    have "n * (d' * 2 ^ s) \<le> n' * (d * 2 ^ s)" using mult_right_mono [OF assms(1), of "2 ^ s"] by (simp add: mult.assoc)
    then have "round_div n (d * 2 ^ s) \<le> round_div n' (d' * 2 ^ s)" by (rule round_div_mono) (use assms in simp_all)
    with True show ?thesis by simp
  next
    case False
    with \<open>s \<le> s'\<close> have "s + 1 \<le> s'" by simp
    then have "(s + 1) * 2 ^ 52 \<le> s' * 2 ^ 52" by (rule mult_right_mono) simp
    moreover have "round_div n (d * 2 ^ s) \<le> 2 ^ 53" by (rule f64_nearest_bounds(1) [OF assms(2) s_def])
    moreover have "2 ^ 52 \<le> round_div n' (d' * 2 ^ s')"
      by (rule f64_nearest_bounds(2) [OF assms(3) s'_def]) (use \<open>s + 1 \<le> s'\<close> in simp)
    ultimately show ?thesis by simp
  qed
  then show ?thesis by (simp add: f64_nearest_def Let_def s_def s'_def min.coboundedI1 min_le_iff_disj)
qed

lemma f64_nearest_le: "n \<le> f64_units m * d \<Longrightarrow> m < F64_INF \<Longrightarrow> 0 < d \<Longrightarrow> f64_nearest n d \<le> m"
  using f64_nearest_mono [of n d "f64_units m * d" d] f64_nearest_units [of m d] by simp

lemma f64_nearest_ge: "f64_units m * d \<le> n \<Longrightarrow> m < F64_INF \<Longrightarrow> 0 < d \<Longrightarrow> m \<le> f64_nearest n d"
  using f64_nearest_mono [of "f64_units m * d" d n d] f64_nearest_units [of m d] by simp

lemma f64_units_mono: "m \<le> m' \<Longrightarrow> m' < F64_INF \<Longrightarrow> f64_units m \<le> f64_units m'"
proof (rule ccontr)
  assume m: "m \<le> m'" "m' < F64_INF" and "\<not> f64_units m \<le> f64_units m'"
  then have "f64_units m' * 1 \<le> f64_units m * 1" by simp
  then have "f64_nearest (f64_units m') 1 \<le> f64_nearest (f64_units m) 1" by (rule f64_nearest_mono) simp_all
  then have "m' \<le> m" using f64_nearest_units [of m 1] f64_nearest_units [of m' 1] m by simp
  with m \<open>\<not> f64_units m \<le> f64_units m'\<close> show False by simp
qed

section \<open>Values\<close>

text \<open>A float is a sign and a magnitude, or not a number.\<close>

datatype f64 = F64 bool nat | F64NaN

fun f64_is_finite :: "f64 \<Rightarrow> bool" where
  "f64_is_finite (F64 neg m) = (m < F64_INF)" | "f64_is_finite F64NaN = False"

fun f64_negative_or_zero :: "f64 \<Rightarrow> bool" where
  "f64_negative_or_zero (F64 neg m) = (neg \<or> m = 0)" | "f64_negative_or_zero F64NaN = False"

text \<open>\<^verbatim>\<open>x >= 0.0\<close>; negative zero compares equal to zero.\<close>

fun f64_non_negative :: "f64 \<Rightarrow> bool" where
  "f64_non_negative (F64 neg m) = (\<not> neg \<or> m = 0)" | "f64_non_negative F64NaN = False"

text \<open>Division by a positive integer constant that binary64 represents.\<close>

fun f64_div_nat :: "f64 \<Rightarrow> nat \<Rightarrow> f64" where
  "f64_div_nat (F64 neg m) k =
     (if m < F64_INF then F64 neg (f64_nearest (f64_units m) k) else F64 neg m)"
| "f64_div_nat F64NaN k = F64NaN"

section \<open>Parsing\<close>

definition lower :: "byte \<Rightarrow> byte" where
  "lower b = (if 65 \<le> code b \<and> code b \<le> 90 then char_of (code b + 32) else b)"

definition ratio_f64 :: "bool \<Rightarrow> nat \<Rightarrow> int \<Rightarrow> f64" where
  "ratio_f64 neg mantissa e =
     F64 neg (if 0 \<le> e then f64_nearest (mantissa * 10 ^ nat e * F64_ONE_UNITS) 1
              else f64_nearest (mantissa * F64_ONE_UNITS) (10 ^ nat (- e)))"

definition parse_exponent :: "bytes \<Rightarrow> int option" where
  "parse_exponent s =
     (let (neg, ds) = (case s of
          [] \<Rightarrow> (False, [])
        | c # cs \<Rightarrow> if c = CHR ''-'' then (True, cs) else if c = CHR ''+'' then (False, cs) else (False, s))
      in if ds = [] \<or> \<not> list_all is_ascii_digit ds then None
         else Some (if neg then - int (digits_value 0 ds) else int (digits_value 0 ds)))"

definition parse_decimal :: "bool \<Rightarrow> bytes \<Rightarrow> f64 option" where
  "parse_decimal neg s =
     (let whole = takeWhile is_ascii_digit s;
          rest = dropWhile is_ascii_digit s;
          (fraction, tail) = (case rest of
             c # cs \<Rightarrow> if c = CHR ''.'' then (takeWhile is_ascii_digit cs, dropWhile is_ascii_digit cs) else ([], rest)
           | [] \<Rightarrow> ([], []));
          expo = (case tail of
             [] \<Rightarrow> Some 0
           | c # cs \<Rightarrow> if c = CHR ''e'' \<or> c = CHR ''E'' then parse_exponent cs else None)
      in if whole = [] \<and> fraction = [] then None
         else map_option (\<lambda>e. ratio_f64 neg (digits_value 0 (whole @ fraction)) (e - int (length fraction))) expo)"

text \<open>\<^verbatim>\<open>str::parse::<f64>\<close>: correctly rounded decimals, infinities and not-a-number in any case.\<close>

definition parse_f64 :: "bytes \<Rightarrow> f64 option" where
  "parse_f64 s =
     (let (neg, ds) = (case s of
          [] \<Rightarrow> (False, [])
        | c # cs \<Rightarrow> if c = CHR ''-'' then (True, cs) else if c = CHR ''+'' then (False, cs) else (False, s));
          word = map lower ds
      in if word = ''inf'' \<or> word = ''infinity'' then Some (F64 neg F64_INF)
         else if word = ''nan'' then Some F64NaN
         else parse_decimal neg ds)"

section \<open>Durations\<close>

definition DURATION_SECS_END :: nat where "DURATION_SECS_END = 2 ^ 64"

text \<open>\<^verbatim>\<open>Duration::as_secs_f64\<close>: the seconds, plus the nanoseconds divided by a billion.\<close>

definition as_secs_f64 :: "duration \<Rightarrow> nat" where
  "as_secs_f64 d =
     (let secs = f64_nearest ((d div 10 ^ 9) * F64_ONE_UNITS) 1;
          nanos = f64_nearest ((d mod 10 ^ 9) * F64_ONE_UNITS) (10 ^ 9)
      in f64_nearest (f64_units secs + f64_units nanos) 1)"

text \<open>\<^verbatim>\<open>Duration::try_from_secs_f64\<close>: to the nearest nanosecond, ties to even.\<close>

fun try_from_secs_f64 :: "f64 \<Rightarrow> duration option" where
  "try_from_secs_f64 (F64 neg m) =
     (if neg \<and> m \<noteq> 0 \<or> F64_INF \<le> m then None
      else let ns = round_div (f64_units m * 10 ^ 9) F64_ONE_UNITS
           in if ns < DURATION_SECS_END * 10 ^ 9 then Some ns else None)"
| "try_from_secs_f64 F64NaN = None"

end
