(* ===== verification/Json_Number.thy ===== *)
theory Json_Number
  imports Json_Value Float64
begin

text \<open>
  The arithmetic of \<^verbatim>\<open>serde_json::Number\<close> that the delta merge uses: the integer views, and the
  floating-point fallback on the 64-bit patterns that a number stores.
\<close>

definition I64_MAX :: int where "I64_MAX = 2 ^ 63 - 1"
definition I64_MIN :: int where "I64_MIN = - (2 ^ 63)"

section \<open>Floats as 64-bit patterns\<close>

definition f64_negative :: "64 word \<Rightarrow> bool" where
  "f64_negative b \<longleftrightarrow> 2 ^ 63 \<le> unat b"

definition f64_magnitude :: "64 word \<Rightarrow> nat" where
  "f64_magnitude b = unat b mod 2 ^ 63"

definition f64_make :: "bool \<Rightarrow> nat \<Rightarrow> 64 word" where
  "f64_make neg m = of_nat (if neg then 2 ^ 63 + m else m)"

text \<open>A finite value in units, and the finite float nearest to a number of units, if there is one.\<close>

definition f64_value :: "64 word \<Rightarrow> int" where
  "f64_value b = (if f64_negative b then - int (f64_units (f64_magnitude b)) else int (f64_units (f64_magnitude b)))"

definition f64_round :: "nat \<Rightarrow> nat option" where
  "f64_round n = (let m = f64_nearest n 1 in if m < F64_INF then Some m else None)"

definition f64_of_int :: "int \<Rightarrow> 64 word option" where
  "f64_of_int i = map_option (f64_make (i < 0)) (f64_round (nat \<bar>i\<bar> * F64_ONE_UNITS))"

definition f64_add :: "64 word \<Rightarrow> 64 word \<Rightarrow> 64 word option" where
  "f64_add a b =
     (let v = f64_value a + f64_value b
      in map_option (f64_make (v < 0 \<or> v = 0 \<and> f64_negative a \<and> f64_negative b)) (f64_round (nat \<bar>v\<bar>)))"

section \<open>Numbers\<close>

fun as_u64 :: "json_number \<Rightarrow> nat option" where
  "as_u64 (PosInt n) = Some n" | "as_u64 _ = None"

fun as_i64 :: "json_number \<Rightarrow> int option" where
  "as_i64 (PosInt n) = (if int n \<le> I64_MAX then Some (int n) else None)"
| "as_i64 (NegInt i) = Some i"
| "as_i64 (FloatBits b) = None"

fun as_f64 :: "json_number \<Rightarrow> 64 word option" where
  "as_f64 (PosInt n) = f64_of_int (int n)"
| "as_f64 (NegInt i) = f64_of_int i"
| "as_f64 (FloatBits b) = Some b"

definition number_from_i64 :: "int \<Rightarrow> json_number" where
  "number_from_i64 i = (if i < 0 then NegInt i else PosInt (nat i))"

text \<open>The invariant of a number: integers in their ranges, floats finite.\<close>

definition number_wf :: "json_number \<Rightarrow> bool" where
  "number_wf n =
     (case n of PosInt k \<Rightarrow> k \<le> U64_MAX | NegInt i \<Rightarrow> I64_MIN \<le> i \<and> i < 0
      | FloatBits b \<Rightarrow> f64_magnitude b < F64_INF)"

definition float_sum :: "json_number \<Rightarrow> json_number \<Rightarrow> json_number option" where
  "float_sum a b =
     Option.bind (as_f64 a) (\<lambda>x. Option.bind (as_f64 b) (\<lambda>y. map_option FloatBits (f64_add x y)))"

definition sum_numbers :: "json_number \<Rightarrow> json_number \<Rightarrow> json_number option" where
  "sum_numbers acc addend =
     (case (as_u64 acc, as_u64 addend) of
        (Some a, Some b) \<Rightarrow> if a + b \<le> U64_MAX then Some (PosInt (a + b)) else float_sum acc addend
      | _ \<Rightarrow>
        (case (as_i64 acc, as_i64 addend) of
           (Some a, Some b) \<Rightarrow>
             if I64_MIN \<le> b + a \<and> b + a \<le> I64_MAX then Some (number_from_i64 (b + a))
             else float_sum acc addend
         | _ \<Rightarrow> float_sum acc addend))"

section \<open>Sums stay well-formed\<close>

lemma f64_make_parts:
  assumes "m < 2 ^ 63"
  shows "f64_magnitude (f64_make neg m) = m" and "f64_negative (f64_make neg m) = neg"
proof -
  have "unat (f64_make neg m) = (if neg then 2 ^ 63 + m else m)"
    using assms by (simp add: f64_make_def unat_of_nat take_bit_eq_mod)
  with assms show "f64_magnitude (f64_make neg m) = m" and "f64_negative (f64_make neg m) = neg"
    by (simp_all add: f64_magnitude_def f64_negative_def)
qed

lemma f64_round_bound: "f64_round n = Some m \<Longrightarrow> m < F64_INF"
  by (auto simp: f64_round_def Let_def split: if_splits)

lemma f64_add_finite: "f64_add a b = Some c \<Longrightarrow> f64_magnitude c < F64_INF"
  using f64_make_parts(1) by (auto simp: f64_add_def Let_def F64_INF_def dest!: f64_round_bound)

text \<open>Sums stay well-formed: a sum out of the integer ranges is a finite float or no sum at all.\<close>

lemma sum_numbers_wf:
  assumes "sum_numbers a b = Some c"
  shows "number_wf c"
proof -
  have fl: "number_wf c" if "float_sum a b = Some c" for c
    using that by (auto simp: float_sum_def bind_eq_Some_conv number_wf_def dest: f64_add_finite)
  have "I64_MAX \<le> int U64_MAX" by (simp add: I64_MAX_def U64_MAX_def)
  then have i: "number_wf (number_from_i64 k)" if "I64_MIN \<le> k" "k \<le> I64_MAX" for k
    using that by (auto simp: number_from_i64_def number_wf_def)
  from assms fl i show ?thesis
    unfolding sum_numbers_def by (auto simp: number_wf_def split: option.splits if_splits)
qed

section \<open>Well-formed values\<close>

text \<open>Objects have distinct keys and numbers are in range, at every level.\<close>

fun value_wf :: "json \<Rightarrow> bool" where
  "value_wf (JNumber n) = number_wf n"
| "value_wf (JArray xs) = list_all value_wf xs"
| "value_wf (JObject m) = (obj_wf m \<and> list_all (\<lambda>p. value_wf (snd p)) m)"
| "value_wf JNull = True"
| "value_wf (JBool b) = True"
| "value_wf (JString s) = True"

abbreviation map_wf :: "json_map \<Rightarrow> bool" where "map_wf m \<equiv> value_wf (JObject m)"

lemma map_wf_Nil [intro!]: "map_wf []"
  by (simp add: obj_wf_def)

lemma map_wf_insert [intro]: "map_wf m \<Longrightarrow> value_wf v \<Longrightarrow> map_wf (obj_insert k v m)"
proof -
  assume "map_wf m" "value_wf v"
  moreover from this have "list_all (\<lambda>p. value_wf (snd p)) (obj_insert k v m)"
    by (induction k v m rule: obj_insert.induct) (auto simp: obj_wf_def)
  ultimately show ?thesis by (simp add: obj_insert_wf)
qed

lemma map_wf_lookup: "map_wf m \<Longrightarrow> map_of m k = Some v \<Longrightarrow> value_wf v"
  by (auto simp: list_all_iff dest!: map_of_SomeD)

lemma map_wf_Cons: "map_wf ((k, v) # m) \<Longrightarrow> value_wf v \<and> map_wf m"
  by (simp add: obj_wf_def)

end
