(* ===== verification/Chat_Accumulator.thy ===== *)
theory Chat_Accumulator
  imports Scalar Json_Number Btree_Map Client_Error
begin

text \<open>
  The fold of Chat Completions chunks into one completion, \<^verbatim>\<open>crates/openai-rs-client/src/chat_accumulator.rs\<close>,
  over the chunk types of \<^verbatim>\<open>crates/openai-rs-types/src/chat.rs\<close>.

  A typed payload that the fold only stores (service tier, usage, moderation, a token log-probability) is
  the JSON its serializer writes.  The ordered maps of the source are red-black trees.  The deserializer of
  \<^verbatim>\<open>ChatCompletion\<close> is derived code and a parameter of the snapshot.
\<close>

section \<open>Chunks\<close>

record chat_function_delta =
  fd_name :: "bytes omittable"
  fd_arguments :: "json_text omittable"
  fd_extra :: extra_fields

record chat_tool_call_chunk =
  tcc_index :: nat
  tcc_id :: "bytes omittable"
  tcc_kind :: "chat_tool_kind open_enum omittable"
  tcc_function :: "chat_function_delta omittable"
  tcc_extra :: extra_fields

record chat_completion_delta =
  delta_content :: "bytes nullable omittable"
  delta_function_call :: "chat_function_delta omittable"
  delta_tool_calls :: "chat_tool_call_chunk list omittable"
  delta_role :: "chat_role open_enum omittable"
  delta_refusal :: "bytes nullable omittable"
  delta_extra :: extra_fields

record chat_choice_logprobs =
  lp_content :: "json list nullable"
  lp_refusal :: "json list nullable"

record chat_chunk_choice =
  cc_delta :: chat_completion_delta
  cc_finish_reason :: "chat_finish_reason open_enum nullable"
  cc_index :: nat
  cc_logprobs :: "chat_choice_logprobs nullable omittable"
  cc_extra :: extra_fields

record chat_completion_chunk =
  chunk_id :: bytes
  chunk_choices :: "chat_chunk_choice list"
  chunk_created :: nat
  chunk_model :: model_id
  chunk_object :: "chat_completion_object open_enum"
  chunk_obfuscation :: "bytes omittable"
  chunk_service_tier :: "json nullable omittable"
  chunk_system_fingerprint :: "bytes omittable"
  chunk_usage :: "json nullable omittable"
  chunk_moderation :: "json nullable omittable"
  chunk_extra :: extra_fields

section \<open>Merging unknown fields\<close>

definition or_insert :: "bytes \<Rightarrow> json \<Rightarrow> json_map \<Rightarrow> json_map" where
  "or_insert k v m = (if contains_key m k then m else obj_insert k v m)"

definition insert_first_seen :: "json_map \<Rightarrow> json_map \<Rightarrow> json_map" where
  "insert_first_seen target extra = foldl (\<lambda>t (k, v). or_insert k v t) target extra"

fun is_scalar :: "json \<Rightarrow> bool" where
  "is_scalar (JString s) = True"
| "is_scalar (JNumber n) = True"
| "is_scalar (JBool b) = True"
| "is_scalar _ = False"

definition entry_index :: "json \<Rightarrow> nat option" where
  "entry_index entry =
     Option.bind (as_object entry) (\<lambda>m. Option.bind (map_of m ''index'') (\<lambda>v.
       case v of JNumber n \<Rightarrow> as_u64 n | _ \<Rightarrow> None))"

fun merge_delta_object :: "json_map \<Rightarrow> json_map \<Rightarrow> json_map"
  and merge_delta_value :: "json \<Rightarrow> json \<Rightarrow> json"
  and merge_entries :: "json list \<Rightarrow> json list \<Rightarrow> json list"
where
  "merge_delta_object acc [] = acc"
| "merge_delta_object acc ((key, delta_value) # delta) =
     (let replace = (key = ''index'' \<or> key = ''type'' \<or> \<not> contains_key acc key \<or> map_of acc key = Some JNull)
      in merge_delta_object
        (if replace then obj_insert key delta_value acc
         else case map_of acc key of
           Some slot \<Rightarrow> obj_insert key (merge_delta_value slot delta_value) acc
         | None \<Rightarrow> acc) delta)"
| "merge_delta_value JNull delta = delta"
| "merge_delta_value (JObject acc_map) (JObject delta_map) = JObject (merge_delta_object acc_map delta_map)"
| "merge_delta_value (JString accumulated) (JString text) = JString (accumulated @ text)"
| "merge_delta_value (JNumber accumulated) (JNumber addend) =
     JNumber (case sum_numbers accumulated addend of Some n \<Rightarrow> n | None \<Rightarrow> accumulated)"
| "merge_delta_value (JArray accumulated) (JArray entries) =
     JArray (if list_all is_scalar accumulated then accumulated @ entries
             else merge_entries accumulated entries)"
| "merge_delta_value acc delta = acc"
| "merge_entries acc [] = acc"
| "merge_entries acc (entry # delta) =
     (case entry_index entry of
        None \<Rightarrow> merge_entries acc delta
      | Some index \<Rightarrow>
          if index < length acc
          then merge_entries (acc[index := merge_delta_value (acc ! index) entry]) delta
          else merge_entries (acc @ [entry]) delta)"

definition merge_extra :: "json_map \<Rightarrow> extra_fields \<Rightarrow> json_map" where
  "merge_extra target extra =
     merge_delta_object target (foldl (\<lambda>d (k, v). obj_insert k v d) [] (extra_map extra))"

section \<open>State\<close>

record top_level_state =
  top_id :: "bytes option"
  top_created :: "nat option"
  top_model :: "model_id option"
  top_service_tier :: "json option"
  top_system_fingerprint :: "bytes option"
  top_usage :: "json option"
  top_moderation :: "json option"
  top_extra :: json_map

record legacy_function_call_state =
  lf_name :: "bytes option"
  lf_arguments :: bytes

record logprobs_state =
  ls_content :: "json list option"
  ls_refusal :: "json list option"

record tool_call_state =
  tc_id :: "bytes option"
  tc_kind :: "chat_tool_kind open_enum option"
  tc_function_seen :: bool
  tc_name :: "bytes option"
  tc_arguments :: bytes
  tc_extra :: json_map

record choice_state =
  cs_role :: "chat_role open_enum option"
  cs_content :: "bytes option"
  cs_refusal :: "bytes nullable option"
  cs_finish_reason :: "chat_finish_reason open_enum option"
  cs_tool_calls_seen :: bool
  cs_tool_calls :: "(nat, tool_call_state) RBT.rbt"
  cs_legacy_function_call :: "legacy_function_call_state option"
  cs_logprobs :: "logprobs_state option"
  cs_extra :: json_map
  cs_message_extra :: json_map

record chat_accumulator =
  ca_top :: top_level_state
  ca_choices :: "(nat, choice_state) RBT.rbt"
  ca_started :: bool
  ca_done :: bool

definition top_default :: top_level_state where
  "top_default =
     \<lparr>top_id = None, top_created = None, top_model = None, top_service_tier = None, top_system_fingerprint = None,
      top_usage = None, top_moderation = None, top_extra = []\<rparr>"

definition tool_call_default :: tool_call_state where
  "tool_call_default =
     \<lparr>tc_id = None, tc_kind = None, tc_function_seen = False, tc_name = None, tc_arguments = [], tc_extra = []\<rparr>"

definition choice_default :: choice_state where
  "choice_default =
     \<lparr>cs_role = None, cs_content = None, cs_refusal = None, cs_finish_reason = None, cs_tool_calls_seen = False,
      cs_tool_calls = RBT.empty, cs_legacy_function_call = None, cs_logprobs = None, cs_extra = [], cs_message_extra = []\<rparr>"

definition chat_accumulator_new :: chat_accumulator where
  "chat_accumulator_new = \<lparr>ca_top = top_default, ca_choices = RBT.empty, ca_started = False, ca_done = False\<rparr>"

section \<open>Observing a chunk\<close>

text \<open>\<^verbatim>\<open>if slot.is_none() { if let Omittable::Value(x) = .. { slot = Some(x) } }\<close>\<close>

definition first_value :: "'a option \<Rightarrow> 'a omittable \<Rightarrow> 'a option" where
  "first_value slot x = (case slot of None \<Rightarrow> omittable_into_option x | Some _ \<Rightarrow> slot)"

text \<open>\<^verbatim>\<open>if let Omittable::Value(x) = .. { slot = Some(x) }\<close>\<close>

definition last_value :: "'a option \<Rightarrow> 'a omittable \<Rightarrow> 'a option" where
  "last_value slot x = (case x of Omitted \<Rightarrow> slot | Present v \<Rightarrow> Some v)"

fun nullable_value :: "json nullable \<Rightarrow> json" where
  "nullable_value Null = JNull" | "nullable_value (NonNull v) = v"

definition top_observe :: "chat_completion_chunk \<Rightarrow> top_level_state \<Rightarrow> top_level_state" where
  "top_observe chunk t =
     \<lparr>top_id = first_value (top_id t) (Present (chunk_id chunk)),
      top_created = first_value (top_created t) (Present (chunk_created chunk)),
      top_model = first_value (top_model t) (Present (chunk_model chunk)),
      top_service_tier = first_value (top_service_tier t) (omittable_map nullable_value (chunk_service_tier chunk)),
      top_system_fingerprint = last_value (top_system_fingerprint t) (chunk_system_fingerprint chunk),
      top_usage = (case chunk_usage chunk of Present (NonNull usage) \<Rightarrow> Some usage | _ \<Rightarrow> top_usage t),
      top_moderation = first_value (top_moderation t) (omittable_map nullable_value (chunk_moderation chunk)),
      top_extra = insert_first_seen (top_extra t) (extra_map (chunk_extra chunk))\<rparr>"

definition extend_list :: "json list option \<Rightarrow> json list nullable \<Rightarrow> json list option" where
  "extend_list slot tokens =
     (case tokens of Null \<Rightarrow> slot | NonNull ts \<Rightarrow> Some ((case slot of None \<Rightarrow> [] | Some xs \<Rightarrow> xs) @ ts))"

definition observe_logprobs ::
    "chat_choice_logprobs nullable omittable \<Rightarrow> logprobs_state option \<Rightarrow> logprobs_state option" where
  "observe_logprobs logprobs slot =
     (case logprobs of
        Present (NonNull lp) \<Rightarrow>
          (let state = (case slot of None \<Rightarrow> \<lparr>ls_content = None, ls_refusal = None\<rparr> | Some s \<Rightarrow> s)
           in Some \<lparr>ls_content = extend_list (ls_content state) (lp_content lp),
                    ls_refusal = extend_list (ls_refusal state) (lp_refusal lp)\<rparr>)
      | _ \<Rightarrow> slot)"

definition observe_content :: "bytes nullable omittable \<Rightarrow> bytes option \<Rightarrow> bytes option" where
  "observe_content content slot =
     (case content of
        Present (NonNull text) \<Rightarrow> (case slot of Some accumulated \<Rightarrow> Some (accumulated @ text) | None \<Rightarrow> Some text)
      | _ \<Rightarrow> slot)"

definition observe_refusal :: "bytes nullable omittable \<Rightarrow> bytes nullable option \<Rightarrow> bytes nullable option" where
  "observe_refusal refusal slot =
     (case refusal of
        Omitted \<Rightarrow> slot
      | Present Null \<Rightarrow> (case slot of None \<Rightarrow> Some Null | Some _ \<Rightarrow> slot)
      | Present (NonNull text) \<Rightarrow>
          (case slot of Some (NonNull accumulated) \<Rightarrow> Some (NonNull (accumulated @ text)) | _ \<Rightarrow> Some (NonNull text)))"

definition observe_legacy ::
    "chat_function_delta omittable \<Rightarrow> legacy_function_call_state option \<Rightarrow> legacy_function_call_state option" where
  "observe_legacy function_call slot =
     (case function_call of
        Omitted \<Rightarrow> slot
      | Present f \<Rightarrow>
          (let state = (case slot of None \<Rightarrow> \<lparr>lf_name = None, lf_arguments = []\<rparr> | Some s \<Rightarrow> s)
           in Some \<lparr>lf_name = first_value (lf_name state) (fd_name f),
                    lf_arguments = lf_arguments state @ (case fd_arguments f of Omitted \<Rightarrow> [] | Present a \<Rightarrow> a)\<rparr>))"

definition tool_call_observe :: "chat_tool_call_chunk \<Rightarrow> tool_call_state \<Rightarrow> tool_call_state" where
  "tool_call_observe call s =
     (let s' = s\<lparr>tc_id := first_value (tc_id s) (tcc_id call), tc_kind := first_value (tc_kind s) (tcc_kind call)\<rparr>;
          s'' = (case tcc_function call of
             Omitted \<Rightarrow> s'
           | Present f \<Rightarrow>
               s'\<lparr>tc_function_seen := True,
                  tc_name := first_value (tc_name s') (fd_name f),
                  tc_arguments := tc_arguments s' @ (case fd_arguments f of Omitted \<Rightarrow> [] | Present a \<Rightarrow> a)\<rparr>)
      in s''\<lparr>tc_extra := merge_extra (tc_extra s'') (tcc_extra call)\<rparr>)"

text \<open>\<^verbatim>\<open>map.entry(k).or_default().observe(x)\<close>\<close>

definition update_entry :: "'s \<Rightarrow> ('x \<Rightarrow> 's \<Rightarrow> 's) \<Rightarrow> nat \<Rightarrow> 'x \<Rightarrow> (nat, 's) RBT.rbt \<Rightarrow> (nat, 's) RBT.rbt" where
  "update_entry dflt observe k x m =
     RBT.insert k (observe x (case RBT.lookup m k of Some s \<Rightarrow> s | None \<Rightarrow> dflt)) m"

definition choice_observe :: "chat_chunk_choice \<Rightarrow> choice_state \<Rightarrow> choice_state" where
  "choice_observe choice s =
     (let delta = cc_delta choice
      in \<lparr>cs_role = last_value (cs_role s) (delta_role delta),
          cs_content = observe_content (delta_content delta) (cs_content s),
          cs_refusal = observe_refusal (delta_refusal delta) (cs_refusal s),
          cs_finish_reason = (case cc_finish_reason choice of NonNull reason \<Rightarrow> Some reason | Null \<Rightarrow> cs_finish_reason s),
          cs_tool_calls_seen = (cs_tool_calls_seen s \<or> \<not> is_omitted (delta_tool_calls delta)),
          cs_tool_calls =
            (case delta_tool_calls delta of
               Omitted \<Rightarrow> cs_tool_calls s
             | Present calls \<Rightarrow>
                 foldl (\<lambda>m call. update_entry tool_call_default tool_call_observe (tcc_index call) call m)
                   (cs_tool_calls s) calls),
          cs_legacy_function_call = observe_legacy (delta_function_call delta) (cs_legacy_function_call s),
          cs_logprobs = observe_logprobs (cc_logprobs choice) (cs_logprobs s),
          cs_extra = insert_first_seen (cs_extra s) (extra_map (cc_extra choice)),
          cs_message_extra = merge_extra (cs_message_extra s) (delta_extra delta)\<rparr>)"

definition chat_push :: "chat_completion_chunk \<Rightarrow> chat_accumulator \<Rightarrow> chat_accumulator" where
  "chat_push chunk acc =
     (if chunk_object chunk \<noteq> Variant ChunkObject then acc
      else acc\<lparr>ca_started := True,
               ca_top := top_observe chunk (ca_top acc),
               ca_choices := foldl (\<lambda>m choice. update_entry choice_default choice_observe (cc_index choice) choice m)
                 (ca_choices acc) (chunk_choices chunk)\<rparr>)"

section \<open>Snapshots\<close>

definition unwrap_or_default :: "bytes option \<Rightarrow> bytes" where
  "unwrap_or_default x = (case x of Some s \<Rightarrow> s | None \<Rightarrow> [])"

definition logprobs_list :: "json list option \<Rightarrow> json" where
  "logprobs_list xs = (case xs of Some items \<Rightarrow> JArray items | None \<Rightarrow> JNull)"

definition logprobs_value :: "choice_state \<Rightarrow> json" where
  "logprobs_value s =
     (case cs_logprobs s of
        None \<Rightarrow> JNull
      | Some state \<Rightarrow> JObject [(''content'', logprobs_list (ls_content state)), (''refusal'', logprobs_list (ls_refusal state))])"

definition identity :: "tool_call_state \<Rightarrow> json" where
  "identity s = JString (unwrap_or_default (tc_id s))"

definition custom_invocation :: "tool_call_state \<Rightarrow> bytes \<times> bytes" where
  "custom_invocation s =
     (case Option.bind (map_of (tc_extra s) ''custom'') as_object of
        None \<Rightarrow> ([], [])
      | Some custom \<Rightarrow>
          (unwrap_or_default (Option.bind (map_of custom ''name'') as_str),
           unwrap_or_default (Option.bind (map_of custom ''input'') as_str)))"

definition insert_function :: "tool_call_state \<Rightarrow> json_map" where
  "insert_function s =
     [(''type'', JString ''function''), (''id'', identity s),
      (''function'', JObject [(''name'', JString (unwrap_or_default (tc_name s))), (''arguments'', JString (tc_arguments s))])]"

definition tool_call_snapshot :: "bool \<Rightarrow> tool_call_state \<Rightarrow> json option" where
  "tool_call_snapshot passthrough s =
     (let call = (case tc_kind s of
          Some (Variant CustomKind) \<Rightarrow>
            (case custom_invocation s of (name, input) \<Rightarrow>
               Some [(''type'', JString ''custom''), (''id'', identity s),
                     (''custom'', JObject [(''name'', JString name), (''input'', JString input)])])
        | Some (Variant FunctionKind) \<Rightarrow> Some (insert_function s)
        | Some kind \<Rightarrow> Some [(''type'', JString (enum_as_str chat_tool_kind_table kind)), (''id'', identity s)]
        | None \<Rightarrow> if tc_function_seen s then Some (insert_function s) else None)
      in map_option (\<lambda>m. JObject (if passthrough then insert_first_seen m (tc_extra s) else m)) call)"

definition refusal_value :: "bytes nullable \<Rightarrow> json" where
  "refusal_value r = (case r of Null \<Rightarrow> JNull | NonNull s \<Rightarrow> JString s)"

definition insert_some :: "bytes \<Rightarrow> json option \<Rightarrow> json_map \<Rightarrow> json_map" where
  "insert_some k v m = (case v of Some x \<Rightarrow> obj_insert k x m | None \<Rightarrow> m)"

definition choice_message :: "bool \<Rightarrow> choice_state \<Rightarrow> json_map" where
  "choice_message passthrough s =
     (let m0 = [(''role'', JString (case cs_role s of
                   None \<Rightarrow> enum_as_str chat_role_table (Variant Assistant) | Some role \<Rightarrow> enum_as_str chat_role_table role)),
                (''content'', case cs_content s of Some content \<Rightarrow> JString content | None \<Rightarrow> JNull)];
          m1 = insert_some ''refusal'' (map_option refusal_value (cs_refusal s)) m0;
          m2 = (if cs_tool_calls_seen s
                then obj_insert ''tool_calls''
                  (JArray (List.map_filter (\<lambda>(_, call). tool_call_snapshot passthrough call) (RBT.entries (cs_tool_calls s)))) m1
                else m1);
          m3 = insert_some ''function_call''
             (map_option (\<lambda>f. JObject [(''name'', JString (unwrap_or_default (lf_name f))), (''arguments'', JString (lf_arguments f))])
                (cs_legacy_function_call s)) m2
      in if passthrough then insert_first_seen m3 (cs_message_extra s) else m3)"

definition choice_snapshot :: "bool \<Rightarrow> nat \<Rightarrow> choice_state \<Rightarrow> json" where
  "choice_snapshot passthrough index s =
     (let choice =
        [(''finish_reason'', JString (case cs_finish_reason s of
            None \<Rightarrow> enum_as_str chat_finish_reason_table (Variant Stop)
          | Some reason \<Rightarrow> enum_as_str chat_finish_reason_table reason)),
         (''index'', JNumber (PosInt index)),
         (''message'', JObject (choice_message passthrough s)),
         (''logprobs'', logprobs_value s)]
      in JObject (if passthrough then insert_first_seen choice (cs_extra s) else choice))"

definition snapshot_object :: "bool \<Rightarrow> chat_accumulator \<Rightarrow> json_map" where
  "snapshot_object passthrough acc =
     (let top = ca_top acc;
          m0 = [(''id'', JString (unwrap_or_default (top_id top))),
                (''created'', JNumber (PosInt (case top_created top of Some n \<Rightarrow> n | None \<Rightarrow> 0))),
                (''model'', JString (unwrap_or_default (top_model top))),
                (''object'', JString ''chat.completion''),
                (''choices'', JArray (map (\<lambda>(index, choice). choice_snapshot passthrough index choice) (RBT.entries (ca_choices acc))))];
          m1 = (if passthrough then insert_first_seen m0 (top_extra top) else m0);
          m2 = insert_some ''service_tier'' (top_service_tier top) m1;
          m3 = insert_some ''system_fingerprint'' (map_option JString (top_system_fingerprint top)) m2;
          m4 = insert_some ''usage'' (top_usage top) m3
      in insert_some ''moderation'' (top_moderation top) m4)"

definition chat_snapshot :: "'c deserializer \<Rightarrow> chat_accumulator \<Rightarrow> 'c option" where
  "chat_snapshot de acc =
     (if \<not> ca_started acc then None
      else case de (JObject (snapshot_object True acc)) of
        Ok completion \<Rightarrow> Some completion
      | Err _ \<Rightarrow>
          (case de (JObject (snapshot_object False acc)) of Ok completion \<Rightarrow> Some completion | Err _ \<Rightarrow> None))"

definition finish_reason_of :: "nat \<Rightarrow> chat_accumulator \<Rightarrow> chat_finish_reason open_enum option" where
  "finish_reason_of choice_index acc = Option.bind (RBT.lookup (ca_choices acc) choice_index) cs_finish_reason"

definition chat_is_done :: "chat_accumulator \<Rightarrow> bool" where
  "chat_is_done acc \<longleftrightarrow>
     ca_done acc \<or> list_ex (\<lambda>(_, c). cs_finish_reason c \<noteq> None) (RBT.entries (ca_choices acc))"

definition mark_done :: "chat_accumulator \<Rightarrow> chat_accumulator" where
  "mark_done acc = acc\<lparr>ca_done := True\<rparr>"

definition chat_finish ::
    "error_codec \<Rightarrow> 'c deserializer \<Rightarrow> chat_accumulator \<Rightarrow> (client_error, 'c) result" where
  "chat_finish c de acc =
     (if \<not> chat_is_done acc
      then Err (StreamProtocol
        ''the chat completion stream ended before any finish reason or [DONE] sentinel was observed''
        None (body_preview_of c [] False))
      else ok_or (chat_snapshot de acc)
        (StreamProtocol ''no chat completion chunk was observed before the stream ended''
           None (body_preview_of c [] False)))"

end
