(* ===== verification/Chat_Reduction.thy ===== *)
theory Chat_Reduction
  imports Chat_Accumulator
begin

text \<open>
  What the Chat accumulator computes: the state of a choice, and of a tool call within it, is a function of
  the updates that carry its index, in their order; the fields of that state in closed form; and the
  snapshot is a well-formed JSON object.
\<close>

section \<open>Folds over indexed updates\<close>

definition chat_fold :: "chat_completion_chunk list \<Rightarrow> chat_accumulator" where
  "chat_fold ks = foldl (\<lambda>acc chunk. chat_push chunk acc) chat_accumulator_new ks"

definition observed_choices :: "chat_completion_chunk list \<Rightarrow> chat_chunk_choice list" where
  "observed_choices ks = concat (map chunk_choices (filter (\<lambda>c. chunk_object c = Variant ChunkObject) ks))"

definition choice_updates :: "nat \<Rightarrow> chat_completion_chunk list \<Rightarrow> chat_chunk_choice list" where
  "choice_updates i ks = filter (\<lambda>c. cc_index c = i) (observed_choices ks)"

definition present :: "'a omittable list \<Rightarrow> 'a list" where
  "present xs = List.map_filter omittable_into_option xs"

definition present_values :: "'a nullable list \<Rightarrow> 'a list" where
  "present_values xs = List.map_filter nullable_into_option xs"

definition tool_updates :: "nat \<Rightarrow> chat_chunk_choice list \<Rightarrow> chat_tool_call_chunk list" where
  "tool_updates j cs = filter (\<lambda>c. tcc_index c = j) (concat (present (map (delta_tool_calls \<circ> cc_delta) cs)))"

definition first_of :: "'a list \<Rightarrow> 'a option" where "first_of xs = (case xs of [] \<Rightarrow> None | x # _ \<Rightarrow> Some x)"
definition last_of :: "'a list \<Rightarrow> 'a option" where "last_of xs = (if xs = [] then None else Some (last xs))"
definition joined :: "bytes list \<Rightarrow> bytes option" where "joined xs = (if xs = [] then None else Some (concat xs))"

lemmas fold_specs = first_of_def last_of_def joined_def present_def present_values_def map_filter_simps

lemma lookup_update_entry:
  "RBT.lookup (update_entry d observe k x m) k' =
     (if k' = k then Some (observe x (case RBT.lookup m k of Some s \<Rightarrow> s | None \<Rightarrow> d)) else RBT.lookup m k')"
  by (simp add: update_entry_def btree.lookup_insert)

text \<open>The entry of an index sees exactly the updates with that index.\<close>

lemma lookup_update_entries:
  "RBT.lookup (foldl (\<lambda>m x. update_entry d observe (idx x) x m) m xs) k =
     (let ys = filter (\<lambda>x. idx x = k) xs
      in if ys = [] then RBT.lookup m k
         else Some (foldl (\<lambda>s x. observe x s) (case RBT.lookup m k of Some s \<Rightarrow> s | None \<Rightarrow> d) ys))"
  by (induction xs arbitrary: m) (auto simp: lookup_update_entry Let_def)

lemma lookup_update_new:
  "RBT.lookup (foldl (\<lambda>m x. update_entry d observe (idx x) x m) RBT.empty xs) k =
     (let ys = filter (\<lambda>x. idx x = k) xs in if ys = [] then None else Some (foldl (\<lambda>s x. observe x s) d ys))"
  unfolding lookup_update_entries by (simp add: Let_def)

lemma ca_choices_fold:
  "ca_choices (foldl (\<lambda>acc chunk. chat_push chunk acc) acc ks) =
     foldl (\<lambda>m choice. update_entry choice_default choice_observe (cc_index choice) choice m)
       (ca_choices acc) (observed_choices ks)"
  by (induction ks arbitrary: acc) (auto simp: chat_push_def observed_choices_def)

lemma chat_fold_lookup:
  "RBT.lookup (ca_choices (chat_fold ks)) i =
     (let ys = choice_updates i ks in if ys = [] then None else Some (foldl (\<lambda>s x. choice_observe x s) choice_default ys))"
  by (simp add: chat_fold_def ca_choices_fold lookup_update_new choice_updates_def chat_accumulator_new_def)

text \<open>A field that is folded on its own can be read off the fold.\<close>

lemma foldl_field:
  assumes "\<And>x s. f (observe x s) = g (f s) x"
  shows "f (foldl (\<lambda>s x. observe x s) s xs) = foldl g (f s) xs"
  by (induction xs arbitrary: s) (simp_all add: assms)

lemma foldl_first_value:
  "foldl (\<lambda>s x. first_value s (h x)) s xs = (case s of Some _ \<Rightarrow> s | None \<Rightarrow> first_of (present (map h xs)))"
proof (induction xs arbitrary: s)
  case (Cons x xs)
  then show ?case by (cases s; cases "h x") (simp_all add: first_value_def fold_specs)
qed (simp add: fold_specs split: option.split)

lemma foldl_last_value:
  "foldl (\<lambda>s x. last_value s (h x)) s xs = (if present (map h xs) = [] then s else last_of (present (map h xs)))"
  by (induction xs arbitrary: s) (auto simp: last_value_def fold_specs split: omittable.split)

section \<open>The fields of a choice\<close>

definition texts :: "chat_chunk_choice list \<Rightarrow> bytes list" where
  "texts cs = present_values (present (map (delta_content \<circ> cc_delta) cs))"

definition reasons :: "chat_chunk_choice list \<Rightarrow> chat_finish_reason open_enum list" where
  "reasons cs = present_values (map cc_finish_reason cs)"

definition roles :: "chat_chunk_choice list \<Rightarrow> chat_role open_enum list" where
  "roles cs = present (map (delta_role \<circ> cc_delta) cs)"

lemma foldl_content:
  "foldl (\<lambda>s x. observe_content (delta_content (cc_delta x)) s) s xs =
     (if texts xs = [] then s else Some ((case s of None \<Rightarrow> [] | Some t \<Rightarrow> t) @ concat (texts xs)))"
  by (induction xs arbitrary: s)
    (auto simp: texts_def observe_content_def fold_specs split: omittable.split nullable.split option.split)

lemma choice_content:
  "cs_content (foldl (\<lambda>s x. choice_observe x s) choice_default xs) = joined (texts xs)"
  by (subst foldl_field [where g = "\<lambda>s x. observe_content (delta_content (cc_delta x)) s"])
    (simp_all add: foldl_content joined_def, simp_all add: choice_observe_def choice_default_def Let_def)

lemma foldl_reason:
  "foldl (\<lambda>s x. case cc_finish_reason x of NonNull r \<Rightarrow> Some r | Null \<Rightarrow> s) s xs =
     (if reasons xs = [] then s else last_of (reasons xs))"
  by (induction xs arbitrary: s) (auto simp: reasons_def fold_specs split: nullable.split)

lemma choice_reason:
  "cs_finish_reason (foldl (\<lambda>s x. choice_observe x s) choice_default xs) = last_of (reasons xs)"
  by (subst foldl_field [where g = "\<lambda>s x. case cc_finish_reason x of NonNull r \<Rightarrow> Some r | Null \<Rightarrow> s"])
    (simp_all add: foldl_reason last_of_def, simp_all add: choice_observe_def choice_default_def Let_def)

lemma choice_role:
  "cs_role (foldl (\<lambda>s x. choice_observe x s) choice_default xs) = last_of (roles xs)"
  by (subst foldl_field [where g = "\<lambda>s x. last_value s ((delta_role \<circ> cc_delta) x)"])
    (simp_all add: foldl_last_value roles_def last_of_def comp_def, simp_all add: choice_observe_def choice_default_def Let_def)

section \<open>The fields of a tool call\<close>

definition function_parts :: "chat_tool_call_chunk list \<Rightarrow> chat_function_delta list" where
  "function_parts calls = present (map tcc_function calls)"

definition call_arguments :: "chat_tool_call_chunk list \<Rightarrow> bytes" where
  "call_arguments calls = concat (present (map fd_arguments (function_parts calls)))"

lemma foldl_calls:
  "foldl (\<lambda>m x. case delta_tool_calls (cc_delta x) of Omitted \<Rightarrow> m
      | Present calls \<Rightarrow> foldl (\<lambda>m call. update_entry tool_call_default tool_call_observe (tcc_index call) call m) m calls) m xs =
   foldl (\<lambda>m call. update_entry tool_call_default tool_call_observe (tcc_index call) call m) m
     (concat (present (map (delta_tool_calls \<circ> cc_delta) xs)))"
  by (induction xs arbitrary: m) (auto simp: fold_specs split: omittable.split)

lemma choice_tool_calls:
  "RBT.lookup (cs_tool_calls (foldl (\<lambda>s x. choice_observe x s) choice_default xs)) j =
     (let ys = tool_updates j xs in if ys = [] then None else Some (foldl (\<lambda>s x. tool_call_observe x s) tool_call_default ys))"
  by (subst foldl_field [where g = "\<lambda>m x. case delta_tool_calls (cc_delta x) of Omitted \<Rightarrow> m
      | Present calls \<Rightarrow> foldl (\<lambda>m call. update_entry tool_call_default tool_call_observe (tcc_index call) call m) m calls"])
    (simp add: choice_observe_def Let_def, simp add: foldl_calls choice_default_def lookup_update_new tool_updates_def)

lemma tool_call_id:
  "tc_id (foldl (\<lambda>s x. tool_call_observe x s) tool_call_default xs) = first_of (present (map tcc_id xs))"
  by (subst foldl_field [where g = "\<lambda>s x. first_value s (tcc_id x)"])
    (auto simp: tool_call_observe_def tool_call_default_def Let_def foldl_first_value split: omittable.split)

lemma foldl_arguments:
  "foldl (\<lambda>s x. s @ (case tcc_function x of Omitted \<Rightarrow> [] | Present f \<Rightarrow>
      case fd_arguments f of Omitted \<Rightarrow> [] | Present a \<Rightarrow> a)) s xs = s @ call_arguments xs"
  by (induction xs arbitrary: s) (auto simp: call_arguments_def function_parts_def fold_specs split: omittable.split)

lemma tool_call_arguments:
  "tc_arguments (foldl (\<lambda>s x. tool_call_observe x s) tool_call_default xs) = call_arguments xs"
  by (subst foldl_field [where g = "\<lambda>s x. s @ (case tcc_function x of Omitted \<Rightarrow> [] | Present f \<Rightarrow>
      case fd_arguments f of Omitted \<Rightarrow> [] | Present a \<Rightarrow> a)"])
    (auto simp: tool_call_observe_def tool_call_default_def Let_def foldl_arguments split: omittable.split)

lemma foldl_name:
  "foldl (\<lambda>s x. case tcc_function x of Omitted \<Rightarrow> s | Present f \<Rightarrow> first_value s (fd_name f)) s xs =
     (case s of Some _ \<Rightarrow> s | None \<Rightarrow> first_of (present (map fd_name (function_parts xs))))"
proof (induction xs arbitrary: s)
  case (Cons x xs)
  then show ?case
    by (cases s; cases "tcc_function x") (auto simp: function_parts_def first_value_def fold_specs split: omittable.split option.split)
qed (simp add: function_parts_def fold_specs split: option.split)

lemma tool_call_name:
  "tc_name (foldl (\<lambda>s x. tool_call_observe x s) tool_call_default xs) =
     first_of (present (map fd_name (function_parts xs)))"
  by (subst foldl_field [where g = "\<lambda>s x. case tcc_function x of Omitted \<Rightarrow> s | Present f \<Rightarrow> first_value s (fd_name f)"])
    (auto simp: tool_call_observe_def tool_call_default_def Let_def foldl_name split: omittable.split)


section \<open>Well-formedness\<close>

lemma insert_first_seen_wf:
  "map_wf m \<Longrightarrow> map_wf extra \<Longrightarrow> map_wf (insert_first_seen m extra)"
  unfolding insert_first_seen_def
proof (induction extra arbitrary: m)
  case (Cons p extra)
  then show ?case by (cases p) (auto simp: or_insert_def obj_wf_def simp del: value_wf.simps dest!: map_wf_Cons)
qed simp

lemma list_all_update': "list_all P xs \<Longrightarrow> P v \<Longrightarrow> list_all P (xs[i := v])"
  using set_update_subset_insert [of xs i v] by (auto simp: list_all_iff)

lemma list_all_nth: "list_all P xs \<Longrightarrow> i < length xs \<Longrightarrow> P (xs ! i)"
  by (simp add: list_all_length)

lemma merge_wf:
  "map_wf acc \<Longrightarrow> list_all (\<lambda>p. value_wf (snd p)) delta \<Longrightarrow> map_wf (merge_delta_object acc delta)"
  "value_wf a \<Longrightarrow> value_wf d \<Longrightarrow> value_wf (merge_delta_value a d)"
  "list_all value_wf xs \<Longrightarrow> list_all value_wf ys \<Longrightarrow> list_all value_wf (merge_entries xs ys)"
proof (induction acc delta and a d and xs ys rule: merge_delta_object_merge_delta_value_merge_entries.induct)
  case (2 acc key v delta)
  define replace where "replace \<longleftrightarrow> key = ''index'' \<or> key = ''type'' \<or> \<not> contains_key acc key \<or> map_of acc key = Some JNull"
  define acc' where "acc' = (if replace then obj_insert key v acc
     else case map_of acc key of Some slot \<Rightarrow> obj_insert key (merge_delta_value slot v) acc | None \<Rightarrow> acc)"
  have v: "value_wf v" and d: "list_all (\<lambda>p. value_wf (snd p)) delta" using 2(4) by simp_all
  have "map_wf acc'"
  proof (cases "replace \<or> map_of acc key = None")
    case True
    then show ?thesis
      using map_wf_insert [OF 2(3) v] 2(3) unfolding acc'_def by (cases replace) (auto split: option.split)
  next
    case False
    then obtain slot where slot: "map_of acc key = Some slot" "\<not> replace" by auto
    have "value_wf (merge_delta_value slot v)"
      by (rule 2(1) [OF replace_def slot(2,1) map_wf_lookup [OF 2(3) slot(1)] v])
    from map_wf_insert [OF 2(3) this] slot show ?thesis unfolding acc'_def by simp
  qed
  from 2(2) [OF replace_def, folded acc'_def, OF this d] show ?case
    by (simp add: Let_def acc'_def replace_def)
qed (auto split: option.split dest: sum_numbers_wf intro!: list_all_update' simp: list_all_nth)

lemma merge_extra_wf: "map_wf m \<Longrightarrow> map_wf (extra_map e) \<Longrightarrow> map_wf (merge_extra m e)"
proof -
  assume m: "map_wf m" and e: "map_wf (extra_map e)"
  have "map_wf (foldl (\<lambda>d (k, v). obj_insert k v d) d xs)" if "map_wf d" "map_wf xs" for d xs
    using that
  proof (induction xs arbitrary: d)
    case (Cons p xs)
    then show ?case by (cases p) (auto simp del: value_wf.simps dest!: map_wf_Cons)
  qed simp
  from this [OF map_wf_Nil e] merge_wf(1) [OF m] show ?thesis unfolding merge_extra_def by simp
qed

text \<open>What the Rust types and the JSON parser guarantee of a decoded chunk.\<close>

definition U32_MAX :: nat where "U32_MAX = 2 ^ 32 - 1"

definition nullable_all :: "('a \<Rightarrow> bool) \<Rightarrow> 'a nullable \<Rightarrow> bool" where
  "nullable_all P x = (case x of Null \<Rightarrow> True | NonNull v \<Rightarrow> P v)"

definition omittable_all :: "('a \<Rightarrow> bool) \<Rightarrow> 'a omittable \<Rightarrow> bool" where
  "omittable_all P x = (case x of Omitted \<Rightarrow> True | Present v \<Rightarrow> P v)"

definition option_all :: "('a \<Rightarrow> bool) \<Rightarrow> 'a option \<Rightarrow> bool" where
  "option_all P x = (case x of None \<Rightarrow> True | Some v \<Rightarrow> P v)"

definition tool_chunk_wf :: "chat_tool_call_chunk \<Rightarrow> bool" where
  "tool_chunk_wf c \<longleftrightarrow> map_wf (extra_map (tcc_extra c))"

definition choice_chunk_wf :: "chat_chunk_choice \<Rightarrow> bool" where
  "choice_chunk_wf c \<longleftrightarrow>
     cc_index c \<le> U32_MAX \<and> map_wf (extra_map (cc_extra c)) \<and> map_wf (extra_map (delta_extra (cc_delta c)))
     \<and> omittable_all (list_all tool_chunk_wf) (delta_tool_calls (cc_delta c))
     \<and> omittable_all (nullable_all (\<lambda>lp. nullable_all (list_all value_wf) (lp_content lp)
          \<and> nullable_all (list_all value_wf) (lp_refusal lp))) (cc_logprobs c)"

definition chunk_wf :: "chat_completion_chunk \<Rightarrow> bool" where
  "chunk_wf c \<longleftrightarrow>
     chunk_created c \<le> U64_MAX \<and> list_all choice_chunk_wf (chunk_choices c) \<and> map_wf (extra_map (chunk_extra c))
     \<and> omittable_all (nullable_all value_wf) (chunk_service_tier c) \<and> omittable_all (nullable_all value_wf) (chunk_usage c)
     \<and> omittable_all (nullable_all value_wf) (chunk_moderation c)"

definition rbt_all :: "('k::linorder \<Rightarrow> 'v \<Rightarrow> bool) \<Rightarrow> ('k, 'v) RBT.rbt \<Rightarrow> bool" where
  "rbt_all P m = list_all (\<lambda>(k, v). P k v) (RBT.entries m)"

definition tool_state_wf :: "tool_call_state \<Rightarrow> bool" where
  "tool_state_wf t \<longleftrightarrow> map_wf (tc_extra t)"

definition choice_state_wf :: "choice_state \<Rightarrow> bool" where
  "choice_state_wf s \<longleftrightarrow>
     map_wf (cs_extra s) \<and> map_wf (cs_message_extra s) \<and> rbt_all (\<lambda>_. tool_state_wf) (cs_tool_calls s)
     \<and> option_all (\<lambda>l. option_all (list_all value_wf) (ls_content l) \<and> option_all (list_all value_wf) (ls_refusal l)) (cs_logprobs s)"

definition top_state_wf :: "top_level_state \<Rightarrow> bool" where
  "top_state_wf t \<longleftrightarrow>
     option_all (\<lambda>n. n \<le> U64_MAX) (top_created t) \<and> option_all value_wf (top_service_tier t) \<and> option_all value_wf (top_usage t)
     \<and> option_all value_wf (top_moderation t) \<and> map_wf (top_extra t)"

definition chat_wf :: "chat_accumulator \<Rightarrow> bool" where
  "chat_wf acc \<longleftrightarrow>
     top_state_wf (ca_top acc) \<and> rbt_all (\<lambda>i s. i \<le> U32_MAX \<and> choice_state_wf s) (ca_choices acc)"

lemmas all_simps = nullable_all_def omittable_all_def option_all_def

lemma rbt_all_iff: "rbt_all P m \<longleftrightarrow> (\<forall>k v. RBT.lookup m k = Some v \<longrightarrow> P k v)"
  by (auto simp: rbt_all_def list_all_iff btree.entries_iff [symmetric])

lemma rbt_all_empty [simp]: "rbt_all P RBT.empty"
  by (simp add: rbt_all_iff)

lemma rbt_all_update_entries:
  assumes "rbt_all P m" and "list_all Q xs"
    and "\<And>x. Q x \<Longrightarrow> P (idx x) (observe x d)"
    and "\<And>x s. Q x \<Longrightarrow> P (idx x) s \<Longrightarrow> P (idx x) (observe x s)"
  shows "rbt_all P (foldl (\<lambda>m x. update_entry d observe (idx x) x m) m xs)"
  using assms(1,2)
proof (induction xs arbitrary: m)
  case (Cons x xs)
  have "rbt_all P (update_entry d observe (idx x) x m)"
    using Cons.prems assms(3,4) by (auto simp: rbt_all_iff lookup_update_entry split: option.split)
  with Cons show ?case by simp
qed simp

lemma tool_call_observe_wf: "tool_chunk_wf c \<Longrightarrow> tool_state_wf s \<Longrightarrow> tool_state_wf (tool_call_observe c s)"
  by (simp add: tool_state_wf_def tool_chunk_wf_def tool_call_observe_def Let_def merge_extra_wf
      del: value_wf.simps split: omittable.split)

lemma default_wf: "tool_state_wf tool_call_default" "choice_state_wf choice_default" "top_state_wf top_default"
  by (simp_all add: tool_state_wf_def tool_call_default_def choice_state_wf_def choice_default_def top_state_wf_def
      top_default_def obj_wf_def all_simps)

lemma observe_logprobs_wf:
  assumes "omittable_all (nullable_all (\<lambda>lp. nullable_all (list_all value_wf) (lp_content lp)
      \<and> nullable_all (list_all value_wf) (lp_refusal lp))) lp"
    and "option_all (\<lambda>l. option_all (list_all value_wf) (ls_content l) \<and> option_all (list_all value_wf) (ls_refusal l)) s"
  shows "option_all (\<lambda>l. option_all (list_all value_wf) (ls_content l) \<and> option_all (list_all value_wf) (ls_refusal l))
    (observe_logprobs lp s)"
  using assms
  by (auto simp: all_simps observe_logprobs_def extend_list_def Let_def
      split: omittable.splits nullable.splits option.splits)

lemma choice_observe_wf:
  assumes "choice_chunk_wf c" and "choice_state_wf s"
  shows "choice_state_wf (choice_observe c s)"
proof -
  note c = assms(1) [unfolded choice_chunk_wf_def] and s = assms(2) [unfolded choice_state_wf_def]
  have "rbt_all (\<lambda>_. tool_state_wf) (cs_tool_calls (choice_observe c s))"
    using c s rbt_all_update_entries [where P = "\<lambda>_. tool_state_wf" and Q = tool_chunk_wf]
    by (auto simp: choice_observe_def Let_def all_simps tool_call_observe_wf default_wf split: omittable.splits)
  with c s show ?thesis
    unfolding choice_state_wf_def
    by (simp add: choice_observe_def Let_def insert_first_seen_wf merge_extra_wf observe_logprobs_wf del: value_wf.simps)
qed

lemma first_value_all: "option_all P s \<Longrightarrow> omittable_all P x \<Longrightarrow> option_all P (first_value s x)"
  by (cases x) (auto simp: first_value_def all_simps split: option.splits)

lemma nullable_value_wf:
  "omittable_all (nullable_all value_wf) x \<Longrightarrow> omittable_all value_wf (omittable_map nullable_value x)"
  by (cases x; cases "the (omittable_into_option x)") (auto simp: all_simps)

lemma top_observe_wf:
  assumes "chunk_wf c" and "top_state_wf t"
  shows "top_state_wf (top_observe c t)"
proof -
  note c = assms(1) [unfolded chunk_wf_def] and t = assms(2) [unfolded top_state_wf_def]
  have "option_all value_wf (top_usage (top_observe c t))"
    using c t by (auto simp: top_observe_def all_simps split: omittable.splits nullable.splits)
  moreover have "omittable_all (\<lambda>n. n \<le> U64_MAX) (Present (chunk_created c))" using c by (simp add: all_simps)
  ultimately show ?thesis
    using c t unfolding top_state_wf_def
    by (simp add: top_observe_def first_value_all nullable_value_wf insert_first_seen_wf del: value_wf.simps)
qed

lemma chat_push_wf:
  assumes "chunk_wf c" and "chat_wf acc"
  shows "chat_wf (chat_push c acc)"
proof -
  have "rbt_all (\<lambda>i s. i \<le> U32_MAX \<and> choice_state_wf s)
      (foldl (\<lambda>m choice. update_entry choice_default choice_observe (cc_index choice) choice m) (ca_choices acc) (chunk_choices c))"
    by (rule rbt_all_update_entries [where Q = choice_chunk_wf])
      (use assms in \<open>auto simp: chat_wf_def chunk_wf_def choice_chunk_wf_def choice_observe_wf default_wf\<close>)
  with assms show ?thesis by (simp add: chat_push_def chat_wf_def top_observe_wf)
qed

lemma chat_fold_wf: "list_all chunk_wf ks \<Longrightarrow> chat_wf (chat_fold ks)"
proof -
  have "list_all chunk_wf ks \<Longrightarrow> chat_wf acc \<Longrightarrow> chat_wf (foldl (\<lambda>acc k. chat_push k acc) acc ks)" for acc
    by (induction ks arbitrary: acc) (auto simp: chat_push_wf)
  moreover have "chat_wf chat_accumulator_new" by (simp add: chat_wf_def chat_accumulator_new_def default_wf)
  ultimately show "list_all chunk_wf ks \<Longrightarrow> chat_wf (chat_fold ks)" unfolding chat_fold_def by blast
qed

section \<open>Well-formed snapshots\<close>

lemma insert_some_wf: "map_wf m \<Longrightarrow> option_all value_wf v \<Longrightarrow> map_wf (insert_some k v m)"
  by (cases v) (auto simp: insert_some_def all_simps simp del: value_wf.simps)

lemma function_wf: "map_wf (insert_function s)"
  by (simp add: insert_function_def identity_def obj_wf_def)

lemma tool_call_snapshot_wf:
  assumes "tool_state_wf t"
  shows "option_all value_wf (tool_call_snapshot b t)"
proof -
  have "map_wf m \<Longrightarrow> value_wf (JObject (if b then insert_first_seen m (tc_extra t) else m))" for m
    using assms by (simp add: tool_state_wf_def insert_first_seen_wf del: value_wf.simps)
  moreover have "map_wf [(''type'', JString x), (''id'', identity t)]"
    "map_wf [(''type'', JString x), (''id'', identity t), (''custom'', JObject [(''name'', JString y), (''input'', JString z)])]"
    for x y z by (simp_all add: obj_wf_def identity_def)
  ultimately show ?thesis
    using function_wf [of t] unfolding tool_call_snapshot_def Let_def option_all_def
    by (auto simp del: value_wf.simps split: option.split open_enum.split chat_tool_kind.split prod.split)
qed

lemma choice_message_wf:
  assumes "choice_state_wf s"
  shows "map_wf (choice_message b s)"
proof -
  have calls: "value_wf (JArray (List.map_filter (\<lambda>(_, call). tool_call_snapshot b call) (RBT.entries (cs_tool_calls s))))" for b
    using assms tool_call_snapshot_wf
    by (fastforce simp: choice_state_wf_def rbt_all_def list_all_iff map_filter_def all_simps split: option.splits)
  have base: "map_wf [(''role'', JString r), (''content'', case cs_content s of Some c \<Rightarrow> JString c | None \<Rightarrow> JNull)]" for r
    by (simp add: obj_wf_def split: option.split)
  have r: "option_all value_wf (map_option refusal_value (cs_refusal s))"
    by (auto simp: all_simps refusal_value_def split: option.split nullable.split)
  have f: "option_all value_wf (map_option (\<lambda>f. JObject [(''name'', JString (unwrap_or_default (lf_name f))),
      (''arguments'', JString (lf_arguments f))]) (cs_legacy_function_call s))"
    by (auto simp: all_simps obj_wf_def split: option.split)
  have e: "map_wf (cs_message_extra s)" using assms by (simp add: choice_state_wf_def)
  show ?thesis
    unfolding choice_message_def Let_def
    by (auto intro!: insert_first_seen_wf insert_some_wf map_wf_insert base r f calls e simp del: value_wf.simps)
qed

lemma logprobs_value_wf: "choice_state_wf s \<Longrightarrow> value_wf (logprobs_value s)"
  by (auto simp: choice_state_wf_def logprobs_value_def logprobs_list_def all_simps obj_wf_def split: option.splits)

lemma choice_snapshot_wf:
  assumes "choice_state_wf s" and "i \<le> U32_MAX"
  shows "value_wf (choice_snapshot b i s)"
proof -
  have "number_wf (PosInt i)" using assms(2) by (simp add: number_wf_def U32_MAX_def U64_MAX_def)
  then have "map_wf [(''finish_reason'', JString r), (''index'', JNumber (PosInt i)),
      (''message'', JObject (choice_message b s)), (''logprobs'', logprobs_value s)]" for r
    using choice_message_wf [OF assms(1)] logprobs_value_wf [OF assms(1)] by (simp add: obj_wf_def)
  moreover have "map_wf (cs_extra s)" using assms(1) by (simp add: choice_state_wf_def)
  ultimately show ?thesis
    unfolding choice_snapshot_def Let_def by (auto intro!: insert_first_seen_wf simp del: value_wf.simps)
qed

lemma snapshot_object_wf:
  assumes "chat_wf acc"
  shows "map_wf (snapshot_object b acc)"
proof -
  let ?choices = "\<lambda>b. JArray (map (\<lambda>(index, choice). choice_snapshot b index choice) (RBT.entries (ca_choices acc)))"
  have "value_wf (?choices b)" for b
    using assms by (auto simp: chat_wf_def rbt_all_def list_all_iff intro!: choice_snapshot_wf)
  moreover have "number_wf (PosInt (case top_created (ca_top acc) of Some n \<Rightarrow> n | None \<Rightarrow> 0))"
    using assms by (auto simp: chat_wf_def top_state_wf_def number_wf_def all_simps split: option.split)
  ultimately have base: "map_wf [(''id'', JString x), (''created'', JNumber (PosInt (case top_created (ca_top acc) of Some n \<Rightarrow> n | None \<Rightarrow> 0))),
      (''model'', JString y), (''object'', JString z), (''choices'', ?choices b)]" for x y z b by (simp add: obj_wf_def)
  have t: "option_all value_wf (top_service_tier (ca_top acc))" "option_all value_wf (top_usage (ca_top acc))"
    "option_all value_wf (top_moderation (ca_top acc))" "map_wf (top_extra (ca_top acc))"
    using assms by (simp_all add: chat_wf_def top_state_wf_def)
  have fp: "option_all value_wf (map_option JString x)" for x by (auto simp: all_simps split: option.split)
  show ?thesis
    unfolding snapshot_object_def Let_def
    by (auto intro!: insert_first_seen_wf insert_some_wf base t fp simp del: value_wf.simps)
qed

text \<open>
  Whatever chunks the stream delivers, the snapshot that the accumulator hands to the decoder is a
  well-formed JSON object: no object in it, at any depth, has a key twice, every integer is in the range of
  its JSON representation and every float is finite, although unknown fields are merged recursively, their
  numbers added and pass-through fields mixed with computed ones.
\<close>

theorem chat_snapshot_well_formed:
  assumes "list_all chunk_wf ks"
  shows "value_wf (JObject (snapshot_object passthrough (chat_fold ks)))"
  by (rule snapshot_object_wf [OF chat_fold_wf [OF assms]])

definition demo_choice :: "nat \<Rightarrow> bytes \<Rightarrow> chat_chunk_choice" where
  "demo_choice i text =
     \<lparr>cc_delta = \<lparr>delta_content = Present (NonNull text), delta_function_call = Omitted, delta_tool_calls = Omitted,
        delta_role = Present (Variant Assistant), delta_refusal = Omitted,
        delta_extra = \<lparr>extra_map = [(''reasoning'', JString text)]\<rparr>\<rparr>,
      cc_finish_reason = Null, cc_index = i, cc_logprobs = Omitted, cc_extra = extra_fields_new\<rparr>"

definition demo_chunk :: "chat_chunk_choice list \<Rightarrow> chat_completion_chunk" where
  "demo_chunk cs =
     \<lparr>chunk_id = ''c'', chunk_choices = cs, chunk_created = 1, chunk_model = ''m'', chunk_object = Variant ChunkObject,
      chunk_obfuscation = Omitted, chunk_service_tier = Omitted, chunk_system_fingerprint = Omitted,
      chunk_usage = Present Null, chunk_moderation = Omitted, chunk_extra = extra_fields_new\<rparr>"

theorem chat_snapshot_well_formed_witness:
  "value_wf (JObject (snapshot_object True (chat_fold [demo_chunk [demo_choice 1 ''b'', demo_choice 0 ''a''], demo_chunk [demo_choice 1 ''c'']])))"
proof -
  have "list_all chunk_wf [demo_chunk [demo_choice 1 ''b'', demo_choice 0 ''a''], demo_chunk [demo_choice 1 ''c'']]"
    by code_simp
  then show ?thesis by (rule chat_snapshot_well_formed)
qed

end
