(* ===== verification/Chat_Stream.thy ===== *)
theory Chat_Stream
  imports Event_Stream Chat_Reduction
begin

text \<open>
  The typed Chat Completions stream, \<^verbatim>\<open>crates/openai-rs-client/src/chat_stream.rs\<close>: from the chunks of
  an HTTP body to the folded completion.  The JSON text parser and the derived deserializers of
  \<^verbatim>\<open>ChatCompletionChunk\<close> and \<^verbatim>\<open>ChatCompletion\<close> are parameters.
\<close>

record 'c chat_codec =
  ch_errors :: error_codec
  ch_value :: "bytes \<Rightarrow> (bytes \<times> bytes option, json) result"
  ch_chunk :: "chat_completion_chunk deserializer"
  ch_completion :: "'c deserializer"

section \<open>Decoding one chunk\<close>

fun error_is_truthy :: "json \<Rightarrow> bool" where
  "error_is_truthy JNull = False"
| "error_is_truthy (JBool flag) = flag"
| "error_is_truthy (JNumber number) =
     (case as_f64 number of None \<Rightarrow> False | Some n \<Rightarrow> f64_magnitude n \<noteq> 0)"
| "error_is_truthy (JString text) = (text \<noteq> [])"
| "error_is_truthy (JArray items) = (items \<noteq> [])"
| "error_is_truthy (JObject obj) = (obj \<noteq> [])"

definition decode_chunk ::
    "'c chat_codec \<Rightarrow> response_meta \<Rightarrow> bytes \<Rightarrow> (client_error, chat_completion_chunk) result" where
  "decode_chunk c mt data =
     (let preview = body_preview_of (ch_errors c) data False
      in res_bind (map_err (\<lambda>(source, path). Decode source path (meta_status mt) (meta_request_id mt) preview) (ch_value c data)) (\<lambda>v.
         if (case value_get v ''error'' of None \<Rightarrow> False | Some e \<Rightarrow> error_is_truthy e)
         then Err (StreamErr (stream_error_from_body (ch_errors c) (meta_request_id mt) data))
         else map_err (\<lambda>source. Decode source None (meta_status mt) (meta_request_id mt) preview) (ch_chunk c v)))"

section \<open>The stream\<close>

type_synonym chat_item = "(client_error, chat_completion_chunk) result"

fun chat_on_dispatch :: "'c chat_codec \<Rightarrow> response_meta \<Rightarrow> chat_item handler" where
  "chat_on_dispatch c mt (RemoteError frame) =
     ([Err (StreamErr (stream_error_from_body (ch_errors c) (meta_request_id mt) (frame_data frame)))], True)"
| "chat_on_dispatch c mt d =
     (case decode_chunk c mt (frame_data (dispatch_frame d)) of
        Ok chunk \<Rightarrow> ([Ok chunk], False)
      | Err e \<Rightarrow> ([Err e], True))"

definition chat_events ::
    "'c chat_codec \<Rightarrow> response_meta \<Rightarrow> sse_limits \<Rightarrow> (http_error, bytes) result list \<Rightarrow> chat_item list" where
  "chat_events c mt l cs =
     event_stream (chat_on_dispatch c mt) (chat_on_dispatch c mt) (\<lambda>e. Err (sse_error mt e))
       (\<lambda>e. Err (from_response_body e mt)) cs (sse_stream_decoder_new l legacy_done)"

definition chat_stream_from ::
    "'c chat_codec \<Rightarrow> sse_limits \<Rightarrow> nat \<Rightarrow> (bytes \<Rightarrow> bytes option) \<Rightarrow> (http_error, bytes) result list \<Rightarrow>
       (client_error, response_meta \<times> chat_item list) result" where
  "chat_stream_from c l st headers cs =
     (let mt = from_headers st headers;
          content_type = headers ''content-type''
      in if \<not> is_event_stream content_type
         then Err (UnexpectedContentType ''text/event-stream'' content_type (meta_status mt) (meta_request_id mt))
         else Ok (mt, chat_events c mt l cs))"

fun chat_collect_with :: "'c chat_codec \<Rightarrow> chat_item list \<Rightarrow> chat_accumulator \<Rightarrow> (client_error, 'c) result" where
  "chat_collect_with c [] acc = chat_finish (ch_errors c) (ch_completion c) (mark_done acc)"
| "chat_collect_with c (Err e # items) acc = Err e"
| "chat_collect_with c (Ok chunk # items) acc = chat_collect_with c items (chat_push chunk acc)"

definition chat_collect_final :: "'c chat_codec \<Rightarrow> chat_item list \<Rightarrow> (client_error, 'c) result" where
  "chat_collect_final c items = chat_collect_with c items chat_accumulator_new"

section \<open>The stream depends on the body only\<close>

interpretation chat_client: stream_client legacy_done "chat_on_dispatch c mt" "chat_on_dispatch c mt"
  "\<lambda>e. Err (sse_error mt e)" "\<lambda>e. Err (from_response_body e mt)" for c mt
  by unfold_locales (rule refl)+

lemma legacy_done_classify:
  "classify legacy_done f =
     (if frame_data f = ''[DONE]'' then ConsumedTerminal
      else if frame_event f = Some ''error'' then FrameRemoteError else FrameEvent)"
  by (auto simp: classify_def legacy_done_def policy_new_def with_consumed_data_sentinel_def with_remote_error_event_def
      contains_def is_some_and_def split: option.split)

text \<open>The chunks of a complete stream: the frames before the sentinel, each decoded.\<close>

definition chunk_of :: "'c chat_codec \<Rightarrow> response_meta \<Rightarrow> sse_frame \<Rightarrow> chat_completion_chunk \<Rightarrow> bool" where
  "chunk_of c mt f k \<longleftrightarrow>
     frame_data f \<noteq> ''[DONE]'' \<and> frame_event f \<noteq> Some ''error'' \<and> decode_chunk c mt (frame_data f) = Ok k"

lemma legacy_done_eof: "policy_eof legacy_done = RequireTerminal"
  by (simp add: legacy_done_def policy_new_def with_consumed_data_sentinel_def with_remote_error_event_def)

definition until_done ::
    "'c chat_codec \<Rightarrow> response_meta \<Rightarrow> sse_frame list \<Rightarrow> chat_completion_chunk list \<Rightarrow> bool" where
  "until_done c mt fs ks \<longleftrightarrow>
     (\<exists>fs1 f fs2. fs = fs1 @ f # fs2 \<and> frame_data f = ''[DONE]'' \<and> list_all2 (chunk_of c mt) fs1 ks)"

lemma until_done_Cons:
  "until_done c mt (g # fs) ks \<longleftrightarrow>
     frame_data g = ''[DONE]'' \<and> ks = [] \<or> (\<exists>k ks'. ks = k # ks' \<and> chunk_of c mt g k \<and> until_done c mt fs ks')"
  (is "?l \<longleftrightarrow> ?r")
proof
  assume ?l
  then obtain fs1 f fs2 where fs: "g # fs = fs1 @ f # fs2" "frame_data f = ''[DONE]''" "list_all2 (chunk_of c mt) fs1 ks"
    unfolding until_done_def by blast
  show ?r
  proof (cases fs1)
    case (Cons g' fs1')
    with fs obtain k ks' where "ks = k # ks'" "chunk_of c mt g k" "list_all2 (chunk_of c mt) fs1' ks'"
      by (auto simp: list_all2_Cons1)
    with fs Cons show ?thesis unfolding until_done_def by auto
  qed (use fs in simp)
next
  assume ?r
  then show ?l unfolding until_done_def
  proof (elim disjE exE conjE)
    assume "frame_data g = ''[DONE]''" "ks = []"
    then have "g # fs = [] @ g # fs \<and> frame_data g = ''[DONE]'' \<and> list_all2 (chunk_of c mt) [] ks" by simp
    then show "\<exists>fs1 f fs2. g # fs = fs1 @ f # fs2 \<and> frame_data f = ''[DONE]'' \<and> list_all2 (chunk_of c mt) fs1 ks" by blast
  next
    fix k ks' fs1 f fs2
    assume "ks = k # ks'" "chunk_of c mt g k" "fs = fs1 @ f # fs2" "frame_data f = ''[DONE]''" "list_all2 (chunk_of c mt) fs1 ks'"
    then have "g # fs = (g # fs1) @ f # fs2 \<and> frame_data f = ''[DONE]'' \<and> list_all2 (chunk_of c mt) (g # fs1) ks" by simp
    then show "\<exists>fs1 f fs2. g # fs = fs1 @ f # fs2 \<and> frame_data f = ''[DONE]'' \<and> list_all2 (chunk_of c mt) fs1 ks" by blast
  qed
qed

lemma complete_stream:
  "deliver_items (chat_on_dispatch c mt) (\<lambda>e. Err (sse_error mt e)) (deliver legacy_done err fs) = map Ok ks \<longleftrightarrow>
     until_done c mt fs ks"
proof (induction fs arbitrary: ks)
  case Nil
  then show ?case by (auto simp: deliver_items_def deliver_def legacy_done_eof until_done_def split: option.split)
next
  case (Cons g fs)
  show ?case
    unfolding until_done_Cons deliver_items_Cons legacy_done_classify Cons.IH [symmetric] chunk_of_def
    by (cases "decode_chunk c mt (frame_data g)") (auto simp: map_eq_Cons_conv Cons_eq_map_conv)
qed

lemma chat_collect_with_Ok_iff:
  "chat_collect_with c items acc = Ok r \<longleftrightarrow>
     (\<exists>ks. items = map Ok ks \<and>
        chat_finish (ch_errors c) (ch_completion c) (mark_done (foldl (\<lambda>acc k. chat_push k acc) acc ks)) = Ok r)"
  by (induction c items acc rule: chat_collect_with.induct) (auto simp: Cons_eq_map_conv)

lemma chat_finish_marked:
  "chat_finish e de (mark_done acc) = Ok r \<longleftrightarrow> chat_snapshot de acc = Some r"
proof -
  have snap: "snapshot_object b (mark_done acc) = snapshot_object b acc" for b
    by (simp add: snapshot_object_def mark_done_def)
  have started: "ca_started (mark_done acc) = ca_started acc" "ca_done (mark_done acc)" by (simp_all add: mark_done_def)
  show ?thesis unfolding chat_finish_def chat_is_done_def chat_snapshot_def snap started(1) by (simp add: started(2))
qed

text \<open>
  C4: The Chat pipeline end to end.  \<^verbatim>\<open>collect_final\<close> succeeds with a completion exactly when the frames of
  the body, taken as a whole, contain the \<^verbatim>\<open>[DONE]\<close> sentinel, every frame before it is an ordinary
  event that decodes to a chunk, and the completion is the snapshot of exactly these chunks.  So a body
  that is cut off before the sentinel never gives a completion, even if a finish reason was seen; what
  follows the sentinel is ignored; and the chunk boundaries of the transport do not matter.
\<close>

theorem chat_collect_end_to_end:
  assumes "0 < max_line_bytes l"
  shows "chat_collect_final c (chat_events c mt l (map Ok cs)) = Ok r \<longleftrightarrow>
    (\<exists>fs1 f fs2 ks. snd (body_frames l (concat cs)) = fs1 @ f # fs2 \<and> frame_data f = ''[DONE]''
       \<and> list_all2 (chunk_of c mt) fs1 ks \<and> chat_snapshot (ch_completion c) (chat_fold ks) = Some r)"
proof -
  obtain err fs where fs: "body_frames l (concat cs) = (err, fs)" by fastforce
  have "chat_events c mt l (map Ok cs) =
      deliver_items (chat_on_dispatch c mt) (\<lambda>e. Err (sse_error mt e)) (deliver legacy_done err fs)"
    unfolding chat_events_def chat_client.stream_items_new [OF assms] stream_decode_frames fs by simp
  then show ?thesis
    by (simp add: fs chat_collect_final_def chat_collect_with_Ok_iff complete_stream until_done_def chat_finish_marked
        chat_fold_def [symmetric]) blast
qed

definition demo_chat_codec :: "json chat_codec" where
  "demo_chat_codec =
     \<lparr>ch_errors = demo_codec, ch_value = (\<lambda>bs. Ok (JString bs)),
      ch_chunk = (\<lambda>j. case j of JString s \<Rightarrow> Ok (demo_chunk [demo_choice 0 s]) | _ \<Rightarrow> Err []), ch_completion = Ok\<rparr>"

definition demo_chat_body :: bytes where
  "demo_chat_body = ''data: Hel'' @ [LF, LF] @ ''data: lo'' @ [LF, LF] @ ''data: [DONE]'' @ [LF, LF] @ ''data: tail'' @ [LF, LF]"

theorem chat_collect_end_to_end_witness:
  "is_ok (chat_collect_final demo_chat_codec
     (chat_events demo_chat_codec demo_meta sse_limits_default (map Ok [take 7 demo_chat_body, drop 7 demo_chat_body])))"
proof -
  let ?f = "\<lambda>d. \<lparr>frame_event = None, frame_data = d, frame_id = None, frame_retry = None\<rparr> :: sse_frame"
  have "snd (body_frames sse_limits_default (concat [take 7 demo_chat_body, drop 7 demo_chat_body])) =
      [?f ''Hel'', ?f ''lo''] @ ?f ''[DONE]'' # [?f ''tail'']" by code_simp
  moreover have "list_all2 (chunk_of demo_chat_codec demo_meta) [?f ''Hel'', ?f ''lo'']
      [demo_chunk [demo_choice 0 ''Hel''], demo_chunk [demo_choice 0 ''lo'']]" by code_simp
  moreover have "ca_started (chat_fold [demo_chunk [demo_choice 0 ''Hel''], demo_chunk [demo_choice 0 ''lo'']])" by code_simp
  then have "chat_snapshot (ch_completion demo_chat_codec) (chat_fold [demo_chunk [demo_choice 0 ''Hel''], demo_chunk [demo_choice 0 ''lo'']])
      = Some (JObject (snapshot_object True (chat_fold [demo_chunk [demo_choice 0 ''Hel''], demo_chunk [demo_choice 0 ''lo'']])))"
    by (simp add: chat_snapshot_def demo_chat_codec_def)
  moreover have l: "0 < max_line_bytes sse_limits_default"
    by (simp add: sse_limits_default_def DEFAULT_MAX_SSE_LINE_BYTES_def)
  moreover have "frame_data (?f ''[DONE]'') = ''[DONE]''" by simp
  ultimately show ?thesis unfolding is_ok_iff chat_collect_end_to_end [OF l] by blast
qed

end
