(* ===== verification/Retry.thy ===== *)
theory Retry
  imports Float64 Operation
begin

text \<open>
  Retry decisions of the HTTP transport: the policy of \<^verbatim>\<open>crates/openai-rs-client/src/retry.rs\<close> and the
  classification and delay functions of \<^verbatim>\<open>transport.rs\<close>.  Header lookup is a function from the name to
  the value when it is visible ASCII (\<^verbatim>\<open>to_str().ok()\<close>); the HTTP-date parser is a library and a
  parameter, composed with the clock: the time from now until the date, zero when it is past.
\<close>

record retry_policy =
  max_retries :: nat
  retry_replayable_mutations :: bool
  max_server_delay :: duration

definition openai_compatible :: retry_policy where
  "openai_compatible =
     \<lparr>max_retries = 2, retry_replayable_mutations = True, max_server_delay = from_secs 120\<rparr>"

definition conservative :: retry_policy where
  "conservative = \<lparr>max_retries = 2, retry_replayable_mutations = False, max_server_delay = from_secs 60\<rparr>"

definition retry_disabled :: retry_policy where
  "retry_disabled = \<lparr>max_retries = 0, retry_replayable_mutations = False, max_server_delay = 0\<rparr>"

definition with_max_retries :: "nat \<Rightarrow> retry_policy \<Rightarrow> retry_policy" where
  "with_max_retries n p = p\<lparr>max_retries := n\<rparr>"

definition with_max_server_delay :: "duration \<Rightarrow> retry_policy \<Rightarrow> retry_policy" where
  "with_max_server_delay d p = p\<lparr>max_server_delay := d\<rparr>"

definition retryable_operation :: "retry_class \<Rightarrow> retry_policy \<Rightarrow> bool" where
  "retryable_operation c p =
     (case c of Safe \<Rightarrow> True | Replayable \<Rightarrow> retry_replayable_mutations p | Never \<Rightarrow> False)"

definition should_retry_response :: "nat \<Rightarrow> (bytes \<Rightarrow> bytes option) \<Rightarrow> bool" where
  "should_retry_response st headers =
     (if headers ''x-should-retry'' = Some ''true'' then True
      else if headers ''x-should-retry'' = Some ''false'' then False
      else st = 408 \<or> st = 409 \<or> st = 429 \<or> 500 \<le> st)"

section \<open>Delays\<close>

datatype server_delay = Absent | Valid duration | TooLong

definition bounded_delay :: "f64 \<Rightarrow> duration \<Rightarrow> server_delay" where
  "bounded_delay seconds maximum =
     (if \<not> f64_is_finite seconds \<or> f64_negative_or_zero seconds then Absent
      else case seconds of
        F64NaN \<Rightarrow> Absent
      | F64 neg m \<Rightarrow>
          if as_secs_f64 maximum < m then TooLong
          else (case try_from_secs_f64 seconds of Some delay \<Rightarrow> Valid delay | None \<Rightarrow> TooLong))"

definition server_retry_delay ::
    "(bytes \<Rightarrow> duration option) \<Rightarrow> (bytes \<Rightarrow> bytes option) \<Rightarrow> duration \<Rightarrow> server_delay" where
  "server_retry_delay http_date headers maximum =
     (case Option.bind (headers ''retry-after-ms'') parse_f64 of
        Some milliseconds \<Rightarrow> bounded_delay (f64_div_nat milliseconds 1000) maximum
      | None \<Rightarrow>
          (case headers ''retry-after'' of
             None \<Rightarrow> Absent
           | Some v \<Rightarrow>
               let date = (case http_date v of
                    Some delay \<Rightarrow> if delay = 0 then Absent else if delay \<le> maximum then Valid delay else TooLong
                  | None \<Rightarrow> Absent)
               in case parse_f64 v of
                    Some seconds \<Rightarrow>
                      if f64_is_finite seconds \<and> f64_non_negative seconds then bounded_delay seconds maximum else date
                  | None \<Rightarrow> date))"

text \<open>
  Exponential backoff with jitter, in the float operations of the source.  The argument \<open>nanos\<close> is the
  sub-second part of the wall clock, absent when the clock is before the epoch.
\<close>

definition F64_HALF :: nat where "F64_HALF = 1022 * 2 ^ 52"
definition F64_THREE_QUARTERS :: nat where "F64_THREE_QUARTERS = 1022 * 2 ^ 52 + 2 ^ 51"
definition F64_QUARTER :: nat where "F64_QUARTER = 1021 * 2 ^ 52"

text \<open>\<^verbatim>\<open>(0.5 * 2.powi(min(retries, 4))).min(8.0)\<close>: a power of two, from 0.5 to 8.\<close>

definition base_seconds :: "nat \<Rightarrow> nat" where
  "base_seconds retries = F64_HALF + min retries 4 * 2 ^ 52"

definition f64_mul_mag :: "nat \<Rightarrow> nat \<Rightarrow> nat" where
  "f64_mul_mag a b = f64_nearest (f64_units a * f64_units b) F64_ONE_UNITS"

definition f64_add_mag :: "nat \<Rightarrow> nat \<Rightarrow> nat" where
  "f64_add_mag a b = f64_nearest (f64_units a + f64_units b) 1"

definition jitter :: "nat option \<Rightarrow> nat" where
  "jitter nanos = (case nanos of Some n \<Rightarrow> f64_nearest (n * F64_ONE_UNITS) (10 ^ 9) | None \<Rightarrow> F64_HALF)"

definition local_retry_delay :: "nat \<Rightarrow> nat option \<Rightarrow> duration" where
  "local_retry_delay retries nanos =
     round_div (f64_units (f64_mul_mag (base_seconds retries)
         (f64_add_mag F64_THREE_QUARTERS (f64_mul_mag (jitter nanos) F64_QUARTER))) * 10 ^ 9) F64_ONE_UNITS"

definition can_wait :: "duration \<Rightarrow> duration \<Rightarrow> duration \<Rightarrow> bool" where
  "can_wait elapsed delay overall_timeout \<longleftrightarrow> elapsed + delay < overall_timeout"

section \<open>Backoff\<close>

text \<open>The backoff without jitter, in nanoseconds.\<close>

definition backoff_base :: "nat \<Rightarrow> duration" where
  "backoff_base retries = 5 * 10 ^ 8 * 2 ^ min retries 4"

lemma f64_units_normal: "f < 2 ^ 52 \<Longrightarrow> 0 < e \<Longrightarrow> f64_units (e * 2 ^ 52 + f) = (2 ^ 52 + f) * 2 ^ (e - 1)"
  by (simp add: f64_units_def Let_def)

lemma base_units: "f64_units (base_seconds r) = 2 ^ (1073 + min r 4)"
proof -
  have "base_seconds r = (1022 + min r 4) * 2 ^ 52 + 0" by (simp add: base_seconds_def F64_HALF_def algebra_simps)
  also have "f64_units \<dots> = (2 ^ 52 + 0) * 2 ^ (1022 + min r 4 - 1)" by (rule f64_units_normal) simp_all
  also have "\<dots> = 2 ^ (52 + (1022 + min r 4 - 1))" by (simp only: power_add add_0_right)
  finally show ?thesis by simp
qed

lemma constant_units:
  "f64_units F64_HALF = 2 ^ 1073" "f64_units F64_QUARTER = 2 ^ 1072" "f64_units F64_THREE_QUARTERS = 3 * 2 ^ 1072"
  by (simp_all add: f64_units_def Let_def F64_HALF_def F64_QUARTER_def F64_THREE_QUARTERS_def)

lemma one_units: "f64_units (1023 * 2 ^ 52) = F64_ONE_UNITS"
  by (simp add: f64_units_def Let_def)

lemma finite_constants:
  "F64_HALF < F64_INF" "F64_QUARTER < F64_INF" "F64_THREE_QUARTERS < F64_INF" "1023 * 2 ^ 52 < F64_INF"
  by (simp_all add: F64_HALF_def F64_QUARTER_def F64_THREE_QUARTERS_def F64_INF_def)

lemma jitter_le_one:
  assumes "case nanos of Some n \<Rightarrow> n < 10 ^ 9 | None \<Rightarrow> True"
  shows "jitter nanos \<le> 1023 * 2 ^ 52"
proof (cases nanos)
  case (Some n)
  with assms have "n \<le> 10 ^ 9" by simp
  then have "n * F64_ONE_UNITS \<le> f64_units (1023 * 2 ^ 52) * 10 ^ 9"
    unfolding one_units by (subst mult.commute) (rule mult_left_mono, simp_all)
  from f64_nearest_le [OF this finite_constants(4)] Some show ?thesis by (simp add: jitter_def)
qed (simp add: jitter_def F64_HALF_def)

text \<open>The factor of the jitter is between three quarters and one.\<close>

lemma factor_bounds:
  assumes "case nanos of Some n \<Rightarrow> n < 10 ^ 9 | None \<Rightarrow> True"
  defines "h \<equiv> f64_add_mag F64_THREE_QUARTERS (f64_mul_mag (jitter nanos) F64_QUARTER)"
  shows "F64_THREE_QUARTERS \<le> h" and "h \<le> 1023 * 2 ^ 52"
proof -
  define g where "g = f64_mul_mag (jitter nanos) F64_QUARTER"
  have "f64_units (jitter nanos) \<le> F64_ONE_UNITS"
    using f64_units_mono [OF jitter_le_one [OF assms(1)] finite_constants(4)] by (simp only: one_units)
  then have "f64_units (jitter nanos) * f64_units F64_QUARTER \<le> f64_units F64_QUARTER * F64_ONE_UNITS"
    by (subst mult.commute) (rule mult_left_mono, simp_all)
  then have "g \<le> F64_QUARTER" unfolding g_def f64_mul_mag_def
    by (rule f64_nearest_le) (use finite_constants in simp_all)
  then have g: "f64_units g \<le> 2 ^ 1072"
    using f64_units_mono [OF _ finite_constants(2)] by (simp only: constant_units)
  have "f64_units F64_THREE_QUARTERS * 1 \<le> f64_units F64_THREE_QUARTERS + f64_units g" by simp
  then show "F64_THREE_QUARTERS \<le> h" unfolding h_def f64_add_mag_def g_def
    by (rule f64_nearest_ge) (use finite_constants in simp_all)
  have "f64_units F64_THREE_QUARTERS + f64_units g \<le> 3 * 2 ^ 1072 + 2 ^ 1072"
    unfolding constant_units using g by simp
  also have "\<dots> = f64_units (1023 * 2 ^ 52) * 1" unfolding one_units by simp
  finally show "h \<le> 1023 * 2 ^ 52" unfolding h_def f64_add_mag_def g_def
    by (rule f64_nearest_le) (use finite_constants in simp_all)
qed

text \<open>So is the float product with the power of two, seen in units.\<close>

lemma product_bounds:
  assumes "F64_THREE_QUARTERS \<le> h" and "h \<le> 1023 * 2 ^ 52" and "k = min r 4"
  defines "p \<equiv> f64_mul_mag (base_seconds r) h"
  shows "3 * 2 ^ (1071 + k) \<le> f64_units p" and "f64_units p \<le> 2 ^ (1073 + k)"
proof -
  let ?lo = "(1021 + k) * 2 ^ 52 + 2 ^ 51"
  have U: "3 * 2 ^ 1072 \<le> f64_units h" "f64_units h \<le> F64_ONE_UNITS"
    using f64_units_mono [OF assms(1)] f64_units_mono [OF assms(2) finite_constants(4)] assms(2) finite_constants(4)
    by (simp_all only: constant_units one_units)
  have base: "f64_units (base_seconds r) = 2 ^ (1073 + k)" unfolding assms(3) by (rule base_units)
  have fin: "base_seconds r < F64_INF" "?lo < F64_INF"
    by (simp_all add: base_seconds_def F64_HALF_def F64_INF_def assms(3))
  have "f64_units ?lo = (2 ^ 52 + 2 ^ 51) * 2 ^ (1021 + k - 1)" by (rule f64_units_normal) simp_all
  also have "\<dots> = 3 * 2 ^ 51 * 2 ^ (1020 + k)" by simp
  also have "\<dots> = 3 * 2 ^ (51 + (1020 + k))" by (simp only: power_add mult.assoc)
  finally have lo: "f64_units ?lo = 3 * 2 ^ (1071 + k)" by simp
  have "f64_units ?lo * F64_ONE_UNITS = 2 ^ (1073 + k) * (3 * 2 ^ 1072)" unfolding lo power_add by simp
  also have "\<dots> \<le> 2 ^ (1073 + k) * f64_units h" by (rule mult_left_mono [OF U(1)]) simp
  finally have "?lo \<le> p" unfolding p_def f64_mul_mag_def base by (rule f64_nearest_ge) (use fin in simp_all)
  moreover have "f64_units (base_seconds r) * f64_units h \<le> f64_units (base_seconds r) * F64_ONE_UNITS"
    by (rule mult_left_mono [OF U(2)]) simp
  then have hi: "p \<le> base_seconds r" unfolding p_def f64_mul_mag_def by (rule f64_nearest_le) (use fin in simp_all)
  ultimately show "3 * 2 ^ (1071 + k) \<le> f64_units p" and "f64_units p \<le> 2 ^ (1073 + k)"
    using f64_units_mono [OF \<open>?lo \<le> p\<close>] f64_units_mono [OF hi fin(1)] fin lo base by simp_all
qed

lemma backoff_bounds:
  assumes "case nanos of Some n \<Rightarrow> n < 10 ^ 9 | None \<Rightarrow> True"
  shows "3 * backoff_base r \<le> 4 * local_retry_delay r nanos \<and> local_retry_delay r nanos \<le> backoff_base r"
proof -
  define h where "h = f64_add_mag F64_THREE_QUARTERS (f64_mul_mag (jitter nanos) F64_QUARTER)"
  define k where "k = min r 4"
  define p where "p = f64_mul_mag (base_seconds r) h"
  note P = product_bounds [OF factor_bounds [OF assms, folded h_def] k_def, folded p_def]
  have d: "local_retry_delay r nanos = round_div (f64_units p * 10 ^ 9) F64_ONE_UNITS"
    by (simp only: local_retry_delay_def p_def h_def)
  have "375 * 10 ^ 6 * 2 ^ k * F64_ONE_UNITS = 3 * 2 ^ (1071 + k) * 10 ^ 9" unfolding power_add by simp
  also have "\<dots> \<le> f64_units p * 10 ^ 9" by (rule mult_right_mono [OF P(1)]) simp
  finally have low: "375 * 10 ^ 6 * 2 ^ k \<le> local_retry_delay r nanos"
    unfolding d by (rule round_div_ge) simp
  have "f64_units p * 10 ^ 9 \<le> 2 ^ (1073 + k) * 10 ^ 9" by (rule mult_right_mono [OF P(2)]) simp
  also have "\<dots> = backoff_base r * F64_ONE_UNITS" unfolding power_add backoff_base_def k_def by simp
  finally have "local_retry_delay r nanos \<le> backoff_base r" unfolding d by (rule round_div_le) simp
  with low show ?thesis by (simp add: backoff_base_def k_def)
qed

section \<open>Server delays\<close>

text \<open>Whole seconds below \<open>2\<^sup>5\<^sup>3\<close> are floats.\<close>

lemma whole_seconds_units:
  assumes "M < 2 ^ 53"
  obtains m where "m < F64_INF" and "f64_units m = M * F64_ONE_UNITS"
proof (cases "M = 0")
  case True
  show thesis by (rule that [of 0]) (simp_all add: True F64_INF_def f64_units_def)
next
  case False
  define b where "b = bit_length M"
  have b: "0 < b" "b \<le> 53" using False bit_length_small [OF assms] by (simp_all add: b_def)
  have M: "2 ^ (b - 1) \<le> M" "M < 2 ^ b" using bit_length_bounds [of M] False by (simp_all add: b_def)
  define x where "x = M * 2 ^ (53 - b)"
  have "(2::nat) ^ 52 = 2 ^ (b - 1) * 2 ^ (53 - b)" using b by (simp flip: power_add)
  also have "\<dots> \<le> x" unfolding x_def by (rule mult_right_mono [OF M(1)]) simp
  finally have x: "2 ^ 52 \<le> x" .
  have "x < 2 ^ b * 2 ^ (53 - b)" unfolding x_def using M(2) by simp
  also have "\<dots> = 2 ^ 53" using b by (simp flip: power_add)
  finally have f: "x - 2 ^ 52 < 2 ^ 52" using x by simp
  have "f64_units ((1022 + b) * 2 ^ 52 + (x - 2 ^ 52)) = x * 2 ^ (1021 + b)"
    using f64_units_normal [OF f, of "1022 + b"] x by simp
  also have "\<dots> = M * 2 ^ (53 - b + (1021 + b))" by (simp only: x_def power_add mult.assoc)
  also have "53 - b + (1021 + b) = 1074" using b by simp
  finally show thesis by (rule that [rotated]) (use b f in \<open>simp add: F64_INF_def\<close>)
qed

lemma as_secs_f64_whole:
  assumes "M < 2 ^ 53"
  shows "as_secs_f64 (from_secs M) < F64_INF" and "f64_units (as_secs_f64 (from_secs M)) = M * F64_ONE_UNITS"
proof -
  obtain m where m: "m < F64_INF" "f64_units m = M * F64_ONE_UNITS" by (rule whole_seconds_units [OF assms])
  then have n: "f64_nearest (M * F64_ONE_UNITS) 1 = m" using f64_nearest_units [of m 1] by simp
  have z: "f64_nearest 0 (10 ^ 9) = 0" "f64_units 0 = 0"
    by (simp_all add: f64_nearest_def f64_units_def Let_def round_div_def bit_length.simps)
  have parts: "from_secs M div 10 ^ 9 = M" "from_secs M mod 10 ^ 9 = 0" by (simp_all add: from_secs_def)
  have "as_secs_f64 (from_secs M) = f64_nearest (f64_units m + 0) 1"
    unfolding as_secs_f64_def Let_def parts by (simp only: mult_zero_left n z)
  also have "\<dots> = m" using m(2) n by simp
  finally show "as_secs_f64 (from_secs M) < F64_INF" and "f64_units (as_secs_f64 (from_secs M)) = M * F64_ONE_UNITS"
    using m by simp_all
qed

lemma bounded_delay_le:
  assumes "bounded_delay seconds (from_secs M) = Valid d" and "M < 2 ^ 53"
  shows "d \<le> from_secs M"
proof -
  from assms(1) obtain neg m where m: "seconds = F64 neg m" "m \<le> as_secs_f64 (from_secs M)"
    and d: "d = round_div (f64_units m * 10 ^ 9) F64_ONE_UNITS"
    by (auto simp: bounded_delay_def Let_def split: if_splits f64.splits option.splits)
  from f64_units_mono [OF m(2) as_secs_f64_whole(1) [OF assms(2)]]
  have "f64_units m * 10 ^ 9 \<le> M * F64_ONE_UNITS * 10 ^ 9"
    unfolding as_secs_f64_whole(2) [OF assms(2)] by (rule mult_right_mono) simp
  also have "\<dots> = from_secs M * F64_ONE_UNITS" unfolding from_secs_def by (simp only: mult.assoc mult.commute [of F64_ONE_UNITS])
  finally show ?thesis unfolding d by (rule round_div_le) simp
qed

lemma server_delay_le:
  assumes "server_retry_delay date headers (from_secs M) = Valid d" and "M < 2 ^ 53"
  shows "d \<le> from_secs M"
  using assms(1) bounded_delay_le [OF _ assms(2)]
  by (auto simp: server_retry_delay_def Let_def split: option.splits if_splits)

text \<open>
  A positive server delay below half a nanosecond is honoured as a delay of zero, an immediate retry,
  although zero and negative values fall back to the local backoff: here the smallest positive float.
\<close>

lemma tiny_server_delay:
  assumes "0 < M" and "M < 2 ^ 53"
  shows "bounded_delay (F64 False 1) (from_secs M) = Valid 0" and "bounded_delay (F64 False 0) (from_secs M) = Absent"
proof -
  have "as_secs_f64 (from_secs M) \<noteq> 0"
    using as_secs_f64_whole(2) [OF assms(2)] assms(1) by (intro notI) (simp add: f64_units_def)
  moreover have "f64_units 1 = 1" by (simp add: f64_units_def)
  moreover have "round_div (10 ^ 9) F64_ONE_UNITS = 0" by (simp add: round_div_def)
  ultimately show "bounded_delay (F64 False 1) (from_secs M) = Valid 0"
    by (simp add: bounded_delay_def F64_INF_def DURATION_SECS_END_def)
qed (simp add: bounded_delay_def)

end
