(* ===== verification/Transport.thy ===== *)
theory Transport
  imports Retry Client_Error
begin

text \<open>
  The authenticated JSON transport, \<^verbatim>\<open>crates/openai-rs-client/src/transport.rs\<close>, with the
  authorization budget of \<^verbatim>\<open>auth.rs\<close>: request construction, the attempt loop with retries and the
  one-time credential refresh, bounded body reads and decoding.

  The HTTP library, the clock and the credential provider are an environment: for each attempt it gives how
  long the call takes and what it returns.  Time is the time since the request started and passes only
  in awaited calls and sleeps.  URLs are a library type; a URL is its origin, its path segments and its query
  pairs, and pushing a segment follows the documented behaviour of the library (dot segments are skipped).
\<close>

section \<open>Routes and URLs\<close>

record url =
  url_scheme :: bytes
  url_host :: "bytes option"
  url_port :: "nat option"
  url_segments :: "bytes list option"
  url_query :: "(bytes \<times> bytes) list"

datatype path_segment = Literal bytes | Parameter bytes bytes

text \<open>\<^verbatim>\<open>chars().any(char::is_control)\<close> on UTF-8 text: the ASCII controls and U+0080 to U+009F.\<close>

fun has_control :: "bytes \<Rightarrow> bool" where
  "has_control [] = False"
| "has_control (b # bs) =
     (code b < 32 \<or> code b = 127
      \<or> code b = 0xC2 \<and> (case bs of [] \<Rightarrow> False | c # _ \<Rightarrow> 128 \<le> code c \<and> code c < 160)
      \<or> has_control bs)"

definition path_parameter :: "bytes \<Rightarrow> bytes \<Rightarrow> (client_error, path_segment) result" where
  "path_parameter name v =
     (if v = [] then Err (InvalidPathParameter name ''must not be empty'')
      else if v = ''.'' \<or> v = ''..'' then Err (InvalidPathParameter name ''must not be a dot segment'')
      else if has_control v then Err (InvalidPathParameter name ''must not contain control characters'')
      else Ok (Parameter name v))"

fun segment_value :: "path_segment \<Rightarrow> bytes" where
  "segment_value (Literal v) = v" | "segment_value (Parameter name v) = v"

definition same_origin :: "url \<Rightarrow> url \<Rightarrow> bool" where
  "same_origin l r \<longleftrightarrow> url_scheme l = url_scheme r \<and> url_host l = url_host r \<and> url_port l = url_port r"

definition push_segment :: "bytes list \<Rightarrow> bytes \<Rightarrow> bytes list" where
  "push_segment segs s = (if s = ''.'' \<or> s = ''..'' then segs else segs @ [s])"

definition pop_if_empty :: "bytes list \<Rightarrow> bytes list" where
  "pop_if_empty segs = (if segs \<noteq> [] \<and> last segs = [] then butlast segs else segs)"

definition operation_url :: "url \<Rightarrow> path_segment list \<Rightarrow> (client_error, url) result" where
  "operation_url base path =
     (case url_segments base of
        None \<Rightarrow> Err (InvalidConfiguration ''base URL cannot contain path segments'')
      | Some segs \<Rightarrow>
          let u = base\<lparr>url_segments := Some (foldl (\<lambda>acc s. push_segment acc (segment_value s)) (pop_if_empty segs) path)\<rparr>
          in if \<not> same_origin u base
             then Err (InvalidConfiguration ''operation path escaped the configured authentication origin'')
             else Ok u)"

definition segment_matches :: "bytes \<Rightarrow> path_segment \<Rightarrow> bool" where
  "segment_matches template s =
     (case s of
        Literal v \<Rightarrow> template = v
      | Parameter name v \<Rightarrow> Option.bind (strip_prefix ''{'' template) (strip_suffix ''}'') = Some name)"

definition validate_operation_route :: "bytes \<Rightarrow> path_segment list \<Rightarrow> (client_error, unit) result" where
  "validate_operation_route route path =
     (case strip_prefix ''/'' route of
        None \<Rightarrow> Err (InvalidConfiguration ''operation route must start with a slash'')
      | Some rest \<Rightarrow>
          let route_segments = split_on (CHR ''/'') rest
          in if length route_segments \<noteq> length path
             then Err (InvalidConfiguration ''operation route metadata does not match its encoded path'')
             else if list_all (\<lambda>(t, s). segment_matches t s) (zip route_segments path) then Ok ()
             else Err (InvalidConfiguration ''operation route metadata does not match its encoded path''))"

section \<open>Query strings\<close>

definition query_scalar ::
    "(json_number \<Rightarrow> bytes) \<Rightarrow> bytes \<Rightarrow> json \<Rightarrow> (client_error, bytes option) result" where
  "query_scalar number_text name v =
     (case v of
        JNull \<Rightarrow> Ok None
      | JBool b \<Rightarrow> Ok (Some (if b then ''true'' else ''false''))
      | JNumber n \<Rightarrow> Ok (Some (number_text n))
      | JString s \<Rightarrow> Ok (if s = [] then None else Some s)
      | _ \<Rightarrow> Err (EncodeQuery (''query array field `'' @ name @ ''` contains a non-scalar value'')))"

fun query_items ::
    "(json_number \<Rightarrow> bytes) \<Rightarrow> bytes \<Rightarrow> json list \<Rightarrow> (client_error, (bytes \<times> bytes) list) result" where
  "query_items number_text name [] = Ok []"
| "query_items number_text name (v # vs) =
     res_bind (query_scalar number_text name v) (\<lambda>item.
     res_bind (query_items number_text name vs) (\<lambda>rest.
       Ok ((case item of None \<Rightarrow> [] | Some s \<Rightarrow> [(name @ ''[]'', s)]) @ rest)))"

fun query_fields ::
    "(json_number \<Rightarrow> bytes) \<Rightarrow> json_map \<Rightarrow> (client_error, (bytes \<times> bytes) list) result" where
  "query_fields number_text [] = Ok []"
| "query_fields number_text ((name, v) # rest) =
     res_bind (case v of
         JNull \<Rightarrow> Ok []
       | JBool b \<Rightarrow> Ok [(name, if b then ''true'' else ''false'')]
       | JNumber n \<Rightarrow> Ok [(name, number_text n)]
       | JString s \<Rightarrow> Ok (if s = [] then [] else [(name, s)])
       | JArray vs \<Rightarrow> query_items number_text name vs
       | JObject _ \<Rightarrow> Err (EncodeQuery (''query field `'' @ name @ ''` requires an unsupported object encoding''))) (\<lambda>pairs.
     res_bind (query_fields number_text rest) (\<lambda>more_pairs. Ok (pairs @ more_pairs)))"

text \<open>The argument is the query value that the caller's serializer produced.\<close>

definition append_query :: "(json_number \<Rightarrow> bytes) \<Rightarrow> (bytes, json) result \<Rightarrow> url \<Rightarrow> (client_error, url) result" where
  "append_query number_text q u =
     res_bind (map_err EncodeQuery q) (\<lambda>v.
       case v of
         JObject flds \<Rightarrow>
           if flds = [] then Ok u
           else res_bind (query_fields number_text flds) (\<lambda>pairs.
             Ok (if pairs = [] then u\<lparr>url_query := []\<rparr> else u\<lparr>url_query := url_query u @ pairs\<rparr>))
       | _ \<Rightarrow> Err (EncodeQuery ''operation query must serialize as an object''))"

section \<open>Responses\<close>

record http_response =
  rs_status :: nat
  rs_headers :: "bytes \<Rightarrow> bytes option"
  rs_content_length :: "nat option"
  rs_body :: "(http_error, bytes) result list"

definition rs_meta :: "http_response \<Rightarrow> response_meta" where
  "rs_meta r = from_headers (rs_status r) (rs_headers r)"

fun read_chunks :: "nat \<Rightarrow> (http_error, bytes) result list \<Rightarrow> bytes \<Rightarrow> (http_error, bytes \<times> bool) result" where
  "read_chunks limit [] acc = Ok (acc, False)"
| "read_chunks limit (Err e # cs) acc = Err e"
| "read_chunks limit (Ok chunk # cs) acc =
     (let remaining = saturating_sub limit (length acc)
      in if remaining < length chunk then Ok (acc @ take remaining chunk, True)
         else read_chunks limit cs (acc @ chunk))"

definition read_up_to :: "http_response \<Rightarrow> nat \<Rightarrow> (http_error, bytes \<times> bool) result" where
  "read_up_to r limit = read_chunks limit (rs_body r) []"

definition read_success :: "http_response \<Rightarrow> nat \<Rightarrow> response_meta \<Rightarrow> (client_error, bytes) result" where
  "read_success r limit mt =
     (if (case rs_content_length r of Some n \<Rightarrow> limit < n | None \<Rightarrow> False)
      then Err (BodyTooLarge limit (meta_status mt) (meta_request_id mt))
      else res_bind (map_err (\<lambda>e. from_response_body e mt) (read_up_to r limit)) (\<lambda>(bs, truncated).
        if truncated then Err (BodyTooLarge limit (meta_status mt) (meta_request_id mt)) else Ok bs))"

definition DECODE_PREVIEW_BYTES :: nat where "DECODE_PREVIEW_BYTES = 8 * 1024"

text \<open>The typed JSON decoder is a parameter; it reports its error and the path in the document.\<close>

type_synonym 'a body_decoder = "bytes \<Rightarrow> (bytes \<times> bytes option, 'a) result"

definition decode_failure :: "error_codec \<Rightarrow> response_meta \<Rightarrow> bytes \<Rightarrow> bytes \<times> bytes option \<Rightarrow> client_error" where
  "decode_failure c mt bs e =
     Decode (fst e) (snd e) (meta_status mt) (meta_request_id mt)
       (body_preview_of c (take (min (length bs) DECODE_PREVIEW_BYTES) bs) (DECODE_PREVIEW_BYTES < length bs))"

definition decode_json ::
    "error_codec \<Rightarrow> 'a body_decoder \<Rightarrow> nat \<Rightarrow> http_response \<Rightarrow> (client_error, 'a api_response) result" where
  "decode_json c de limit r =
     (let mt = rs_meta r
      in res_bind (read_success r limit mt) (\<lambda>bs.
         res_bind (map_err (decode_failure c mt bs) (de bs)) (\<lambda>v. Ok \<lparr>body = v, meta = mt\<rparr>)))"

definition decode_optional_json ::
    "error_codec \<Rightarrow> 'a body_decoder \<Rightarrow> nat \<Rightarrow> http_response \<Rightarrow> (client_error, 'a option api_response) result" where
  "decode_optional_json c de limit r =
     (let mt = rs_meta r
      in res_bind (read_success r limit mt) (\<lambda>bs.
         if list_all is_ascii_whitespace bs then Ok \<lparr>body = None, meta = mt\<rparr>
         else res_bind (map_err (decode_failure c mt bs) (de bs)) (\<lambda>v. Ok \<lparr>body = Some v, meta = mt\<rparr>)))"

section \<open>The transport and its environment\<close>

record transport =
  t_base_url :: url
  t_organization :: "bytes option"
  t_project :: "bytes option"
  t_client_request_id :: "bytes option"
  t_max_json_body_bytes :: nat
  t_max_error_body_bytes :: nat
  t_retry_policy :: retry_policy
  t_overall_timeout :: duration

record auth_lease =
  lease_header :: bytes
  lease_generation :: "nat option"

record http_request =
  rq_method :: bytes
  rq_url :: url
  rq_timeout :: duration
  rq_headers :: "(bytes \<times> bytes) list"
  rq_body :: "bytes option"

record transport_failure =
  tf_error :: http_error
  tf_connect :: bool

text \<open>
  The environment of one request.  The first argument of each field is the number of the attempt.
  \<open>env_auth\<close> is the credential provider, \<open>env_build\<close> the request builder of the HTTP library, \<open>env_http\<close>
  the exchange, \<open>env_nanos\<close> the sub-second part of the wall clock, \<open>env_date\<close> the HTTP-date parser
  against the clock; \<open>env_trace\<close> says whether discarded bodies are read for the log, and \<open>env_drain\<close>
  how long that takes.
\<close>

record send_env =
  env_auth :: "nat \<Rightarrow> duration \<times> (client_error, auth_lease) result"
  env_build :: "nat \<Rightarrow> http_request \<Rightarrow> http_error option"
  env_http :: "nat \<Rightarrow> http_request \<Rightarrow> duration \<times> (transport_failure, http_response) result"
  env_nanos :: "nat \<Rightarrow> nat option"
  env_date :: "nat \<Rightarrow> bytes \<Rightarrow> duration option"
  env_trace :: bool
  env_drain :: "nat \<Rightarrow> duration"

definition error_from_response :: "error_codec \<Rightarrow> transport \<Rightarrow> http_response \<Rightarrow> client_error" where
  "error_from_response c t r =
     (case read_up_to r (t_max_error_body_bytes t) of
        Ok (bs, truncated) \<Rightarrow> Api (api_error_from_body c (rs_meta r) bs truncated)
      | Err e \<Rightarrow> from_response_body e (rs_meta r))"

text \<open>\<^verbatim>\<open>authorization_with_budget\<close>: the lease and what remains of the budget, with the new time.\<close>

definition authorization_with_budget ::
    "send_env \<Rightarrow> nat \<Rightarrow> duration \<Rightarrow> duration \<Rightarrow> duration \<times> (client_error, auth_lease \<times> duration) result" where
  "authorization_with_budget env n elapsed timeout =
     (if timeout \<le> elapsed then (elapsed, Err DeadlineExceeded)
      else let (took, r) = env_auth env n
           in if timeout - elapsed \<le> took then (timeout, Err DeadlineExceeded)
              else (elapsed + took,
                    case r of Err e \<Rightarrow> Err e | Ok lease \<Rightarrow> Ok (lease, timeout - (elapsed + took))))"

text \<open>What an attempt sends; fixed by the operation, except for the credential and the remaining time.\<close>

record prepared =
  pr_meta :: operation_meta
  pr_url :: url
  pr_accept :: bytes
  pr_static_header :: "(bytes \<times> bytes) option"
  pr_body :: "bytes option"

definition optional_header :: "bytes \<Rightarrow> bytes option \<Rightarrow> (bytes \<times> bytes) list" where
  "optional_header name v = (case v of None \<Rightarrow> [] | Some x \<Rightarrow> [(name, x)])"

definition build_request :: "transport \<Rightarrow> prepared \<Rightarrow> auth_lease \<Rightarrow> duration \<Rightarrow> http_request" where
  "build_request t p lease remaining =
     \<lparr>rq_method = op_method (pr_meta p), rq_url = pr_url p, rq_timeout = remaining,
      rq_headers =
        [(''authorization'', lease_header lease), (''accept'', pr_accept p)]
        @ optional_header ''openai-organization'' (t_organization t)
        @ optional_header ''openai-project'' (t_project t)
        @ optional_header ''x-client-request-id'' (t_client_request_id t)
        @ (case pr_static_header p of None \<Rightarrow> [] | Some h \<Rightarrow> [h])
        @ (if pr_body p = None then [] else [(''content-type'', ''application/json'')]),
      rq_body = pr_body p\<rparr>"

section \<open>The attempt loop\<close>

text \<open>What the loop does, for the record: requests sent, with their time and outcome, sleeps with the time
  they start at, and the generation of a credential that was invalidated.\<close>

datatype send_event =
    Sent duration http_request "(transport_failure, http_response) result"
  | Slept duration duration
  | Invalidated nat

definition retry_delay :: "transport \<Rightarrow> send_env \<Rightarrow> nat \<Rightarrow> nat \<Rightarrow> http_response \<Rightarrow> duration option" where
  "retry_delay t env n retries r =
     (case server_retry_delay (env_date env n) (rs_headers r) (max_server_delay (t_retry_policy t)) of
        Valid delay \<Rightarrow> Some delay
      | Absent \<Rightarrow> Some (local_retry_delay retries (env_nanos env n))
      | TooLong \<Rightarrow> None)"

text \<open>One attempt: what it logs, and how the loop goes on.\<close>

datatype next_step =
    Return "(client_error, http_response) result"
  | RetryAfter duration duration
  | RefreshAt duration nat

definition after_failure :: "transport \<Rightarrow> prepared \<Rightarrow> send_env \<Rightarrow> nat \<Rightarrow> nat \<Rightarrow> duration \<Rightarrow> transport_failure \<Rightarrow> next_step" where
  "after_failure t p env n retries now e =
     (let policy = t_retry_policy t;
          delay = local_retry_delay retries (env_nanos env n)
      in if retryable_operation (op_retry (pr_meta p)) policy \<and> retries < max_retries policy
            \<and> (tf_connect e \<or> he_timeout (tf_error e)) \<and> can_wait now delay (t_overall_timeout t)
         then RetryAfter now delay
         else Return (Err (from_reqwest (tf_error e))))"

definition after_response ::
    "error_codec \<Rightarrow> transport \<Rightarrow> prepared \<Rightarrow> send_env \<Rightarrow> nat \<Rightarrow> nat \<Rightarrow> bool \<Rightarrow> auth_lease \<Rightarrow> duration \<Rightarrow>
       http_response \<Rightarrow> next_step" where
  "after_response c t p env n retries auth_refreshed lease now r =
     (let policy = t_retry_policy t;
          drained = (if env_trace env then now + env_drain env n else now)
      in case (if rs_status r = 401 \<and> \<not> auth_refreshed then lease_generation lease else None) of
        Some generation \<Rightarrow> RefreshAt drained generation
      | None \<Rightarrow>
          if rs_status r \<in> set (success_statuses (pr_meta p)) then Return (Ok r)
          else if retryable_operation (op_retry (pr_meta p)) policy \<and> retries < max_retries policy
                  \<and> should_retry_response (rs_status r) (rs_headers r)
          then (case retry_delay t env n retries r of
                  None \<Rightarrow> Return (Err (error_from_response c t r))
                | Some delay \<Rightarrow>
                    if \<not> can_wait now delay (t_overall_timeout t) then Return (Err (error_from_response c t r))
                    else if \<not> can_wait drained delay (t_overall_timeout t) \<and> env_trace env
                    then Return (Err (error_from_response c t r))
                    else RetryAfter drained delay)
          else Return (Err (error_from_response c t r)))"

definition attempt ::
    "error_codec \<Rightarrow> transport \<Rightarrow> prepared \<Rightarrow> send_env \<Rightarrow> nat \<Rightarrow> nat \<Rightarrow> bool \<Rightarrow> duration \<Rightarrow> send_event list \<times> next_step" where
  "attempt c t p env n retries auth_refreshed elapsed =
     (case authorization_with_budget env n elapsed (t_overall_timeout t) of
        (now, Err e) \<Rightarrow> ([], Return (Err e))
      | (now, Ok (lease, remaining)) \<Rightarrow>
          let request = build_request t p lease remaining
          in case env_build env n request of
               Some e \<Rightarrow> ([], Return (Err (from_reqwest e)))
             | None \<Rightarrow>
                 if \<not> same_origin (rq_url request) (t_base_url t)
                 then ([], Return (Err (InvalidConfiguration ''operation URL escaped the configured authentication origin'')))
                 else (case env_http env n request of
                     (took, Err e) \<Rightarrow> ([Sent now request (Err e)], after_failure t p env n retries (now + took) e)
                   | (took, Ok r) \<Rightarrow>
                       ([Sent now request (Ok r)],
                        after_response c t p env n retries auth_refreshed lease (now + took) r)))"

text \<open>The loop goes round again only within the retry budget, or once to refresh the credential.\<close>

lemma after_failure_retry: "after_failure t p env n retries now e = RetryAfter s d \<Longrightarrow> retries < max_retries (t_retry_policy t)"
  by (auto simp: after_failure_def Let_def split: if_splits)

lemma after_failure_refresh: "after_failure t p env n retries now e \<noteq> RefreshAt s g"
  by (auto simp: after_failure_def Let_def)

lemma after_response_retry:
  "after_response c t p env n retries auth_refreshed lease now r = RetryAfter s d \<Longrightarrow>
     retries < max_retries (t_retry_policy t)"
  by (auto simp: after_response_def Let_def split: if_splits option.splits)

lemma after_response_refresh:
  "after_response c t p env n retries auth_refreshed lease now r = RefreshAt s g \<Longrightarrow> \<not> auth_refreshed"
  by (auto simp: after_response_def Let_def split: if_splits option.splits)

lemma attempt_retry:
  "attempt c t p env n retries auth_refreshed elapsed = (evs, RetryAfter s d) \<Longrightarrow> retries < max_retries (t_retry_policy t)"
  by (auto simp: attempt_def Let_def split: prod.splits sum.splits option.splits if_splits
      dest: after_failure_retry after_response_retry)

lemma attempt_refresh:
  "attempt c t p env n retries auth_refreshed elapsed = (evs, RefreshAt s g) \<Longrightarrow> \<not> auth_refreshed"
  by (auto simp: attempt_def Let_def after_failure_refresh split: prod.splits sum.splits option.splits if_splits
      dest: after_response_refresh)

function send_loop ::
    "error_codec \<Rightarrow> transport \<Rightarrow> prepared \<Rightarrow> send_env \<Rightarrow> nat \<Rightarrow> nat \<Rightarrow> bool \<Rightarrow> duration \<Rightarrow>
       send_event list \<times> (client_error, http_response) result" where
  "send_loop c t p env n retries auth_refreshed elapsed =
     (case attempt c t p env n retries auth_refreshed elapsed of
        (evs, Return r) \<Rightarrow> (evs, r)
      | (evs, RetryAfter now delay) \<Rightarrow>
          (let (evs', r) = send_loop c t p env (n + 1) (retries + 1) auth_refreshed (now + delay)
           in (evs @ Slept now delay # evs', r))
      | (evs, RefreshAt now generation) \<Rightarrow>
          (let (evs', r) = send_loop c t p env (n + 1) retries True now
           in (evs @ Invalidated generation # evs', r)))"
  by pat_completeness auto

termination
  by (relation "measure (\<lambda>(c, t, p, env, n, retries, auth_refreshed, elapsed).
      (max_retries (t_retry_policy t) - retries) + (if auth_refreshed then 0 else 1))")
    (auto dest!: attempt_retry [OF sym] attempt_refresh [OF sym])

section \<open>Operations\<close>

definition accept_mime :: "response_mode \<Rightarrow> bytes" where
  "accept_mime m = (case m of ModeSse \<Rightarrow> ''text/event-stream'' | _ \<Rightarrow> ''application/json'')"

definition protected_headers :: "bytes list" where
  "protected_headers =
     [''authorization'', ''accept'', ''content-type'', ''host'', ''openai-organization'', ''openai-project'', ''x-client-request-id'']"

text \<open>The parsers of header names, which lower them, and of header values are a library.\<close>

definition validate_static_operation_header ::
    "(bytes \<Rightarrow> bytes option) \<Rightarrow> (bytes \<Rightarrow> bytes option) \<Rightarrow> bytes \<times> bytes \<Rightarrow> (client_error, bytes \<times> bytes) result" where
  "validate_static_operation_header header_name header_value h =
     res_bind (ok_or (header_name (fst h)) (InvalidConfiguration ''operation static header has an invalid name'')) (\<lambda>name.
       if name \<in> set protected_headers
       then Err (InvalidConfiguration ''operation static header cannot override a protected header'')
       else res_bind (ok_or (header_value (snd h)) (InvalidConfiguration ''operation static header has an invalid value'')) (\<lambda>v.
         Ok (name, v)))"

record send_libs =
  lib_errors :: error_codec
  lib_header_name :: "bytes \<Rightarrow> bytes option"
  lib_header_value :: "bytes \<Rightarrow> bytes option"
  lib_number_text :: "json_number \<Rightarrow> bytes"

text \<open>The query and the body are what the caller's serializers produce for them.\<close>

definition prepare ::
    "send_libs \<Rightarrow> transport \<Rightarrow> operation_meta \<Rightarrow> path_segment list \<Rightarrow> (bytes, json) result option \<Rightarrow>
       (bytes, bytes) result option \<Rightarrow> (bytes \<times> bytes) option \<Rightarrow> (client_error, prepared) result" where
  "prepare lib t mt path q bd static_header =
     (if op_id mt = [] \<or> strip_prefix ''/'' (op_route mt) = None
      then Err (InvalidConfiguration ''operation metadata has an invalid identifier or route template'')
      else res_bind (validate_operation_route (op_route mt) path) (\<lambda>_.
        if op_request_encoding mt = EncodingJson \<and> bd = None
        then Err (InvalidConfiguration ''JSON operation is missing its request body'')
        else if op_request_encoding mt = EncodingNone \<and> bd \<noteq> None
        then Err (InvalidConfiguration ''bodyless operation unexpectedly received a request body'')
        else res_bind (operation_url (t_base_url t) path) (\<lambda>u.
          res_bind (case q of None \<Rightarrow> Ok u | Some j \<Rightarrow> append_query (lib_number_text lib) j u) (\<lambda>u'.
          res_bind (case bd of None \<Rightarrow> Ok None | Some r \<Rightarrow> map_err Encode (res_bind r (\<lambda>bs. Ok (Some bs)))) (\<lambda>encoded.
          res_bind (case static_header of None \<Rightarrow> Ok None
              | Some h \<Rightarrow> res_bind (validate_static_operation_header (lib_header_name lib) (lib_header_value lib) h) (\<lambda>x. Ok (Some x))) (\<lambda>header.
            Ok \<lparr>pr_meta = mt, pr_url = u', pr_accept = accept_mime (op_response_mode mt), pr_static_header = header,
                pr_body = encoded\<rparr>))))))"

definition send_with_static_header ::
    "send_libs \<Rightarrow> transport \<Rightarrow> send_env \<Rightarrow> operation_meta \<Rightarrow> path_segment list \<Rightarrow> (bytes, json) result option \<Rightarrow>
       (bytes, bytes) result option \<Rightarrow> (bytes \<times> bytes) option \<Rightarrow>
       send_event list \<times> (client_error, http_response) result" where
  "send_with_static_header lib t env mt path q bd static_header =
     (case prepare lib t mt path q bd static_header of
        Err e \<Rightarrow> ([], Err e)
      | Ok p \<Rightarrow> send_loop (lib_errors lib) t p env 0 0 False 0)"

definition execute_json ::
    "send_libs \<Rightarrow> transport \<Rightarrow> send_env \<Rightarrow> 'a body_decoder \<Rightarrow> operation_meta \<Rightarrow> path_segment list \<Rightarrow>
       (bytes, json) result option \<Rightarrow> (bytes, bytes) result option \<Rightarrow> (client_error, 'a api_response) result" where
  "execute_json lib t env de mt path q bd =
     (if op_response_mode mt \<noteq> ModeJson
      then Err (InvalidConfiguration ''JSON decoder used for a non-JSON operation'')
      else res_bind (snd (send_with_static_header lib t env mt path q bd None))
        (decode_json (lib_errors lib) de (t_max_json_body_bytes t)))"

definition execute_optional_json ::
    "send_libs \<Rightarrow> transport \<Rightarrow> send_env \<Rightarrow> 'a body_decoder \<Rightarrow> operation_meta \<Rightarrow> path_segment list \<Rightarrow>
       (bytes, json) result option \<Rightarrow> (bytes, bytes) result option \<Rightarrow> (client_error, 'a option api_response) result" where
  "execute_optional_json lib t env de mt path q bd =
     (if op_response_mode mt \<noteq> ModeEmptyOrJson
      then Err (InvalidConfiguration ''empty-or-JSON decoder used for an incompatible operation'')
      else res_bind (snd (send_with_static_header lib t env mt path q bd None))
        (decode_optional_json (lib_errors lib) de (t_max_json_body_bytes t)))"

end
