(* ===== verification/Transport_Correctness.thy ===== *)
theory Transport_Correctness
  imports Transport
begin

text \<open>
  What the attempt loop of the transport guarantees: how often it sends, when, what, and how it ends; and
  that a body is read up to its limit whatever its chunks are.
\<close>

section \<open>One attempt\<close>

declare send_loop.simps [simp del]

lemma authorization_with_budget_Ok:
  "authorization_with_budget env n elapsed T = (now, Ok (lease, remaining)) \<Longrightarrow> now < T \<and> remaining = T - now"
  by (auto simp: authorization_with_budget_def Let_def split: if_splits prod.splits sum.splits)

lemma attempt_cases:
  assumes "attempt c t p env n retries auth_refreshed elapsed = (evs, step)"
  obtains (refused) e where "evs = []" and "step = Return (Err e)"
  | (failed) now lease e took where "now < t_overall_timeout t" and "same_origin (pr_url p) (t_base_url t)"
      and "evs = [Sent now (build_request t p lease (t_overall_timeout t - now)) (Err e)]"
      and "step = after_failure t p env n retries (now + took) e"
  | (answered) now lease r took where "now < t_overall_timeout t" and "same_origin (pr_url p) (t_base_url t)"
      and "evs = [Sent now (build_request t p lease (t_overall_timeout t - now)) (Ok r)]"
      and "step = after_response c t p env n retries auth_refreshed lease (now + took) r"
proof -
  obtain now res where a: "authorization_with_budget env n elapsed (t_overall_timeout t) = (now, res)" by fastforce
  have url: "rq_url (build_request t p lease d) = pr_url p" for lease d by (simp add: build_request_def)
  show thesis
  proof (cases res)
    case (Inl e)
    with a assms refused show thesis by (auto simp: attempt_def)
  next
    case (Inr lr)
    obtain lease remaining where lr: "lr = (lease, remaining)" by fastforce
    with a Inr have now: "now < t_overall_timeout t" "remaining = t_overall_timeout t - now"
      using authorization_with_budget_Ok by blast+
    from assms a Inr lr now url refused failed answered show thesis
      by (fastforce simp: attempt_def Let_def split: option.splits if_splits prod.splits sum.splits)
  qed
qed

lemma after_failure_cases:
  assumes "after_failure t p env n retries now e = step"
  obtains x where "step = Return (Err x)"
  | d where "step = RetryAfter now d" and "now + d < t_overall_timeout t"
      and "retryable_operation (op_retry (pr_meta p)) (t_retry_policy t)" and "retries < max_retries (t_retry_policy t)"
  using assms by (auto simp: after_failure_def can_wait_def Let_def split: if_splits)

lemma after_response_cases:
  assumes "after_response c t p env n retries auth_refreshed lease now r = step"
  obtains (success) "step = Return (Ok r)" and "rs_status r \<in> set (success_statuses (pr_meta p))"
  | (failure) "step = Return (Err (error_from_response c t r))" and "rs_status r \<notin> set (success_statuses (pr_meta p))"
  | (refresh) s g where "step = RefreshAt s g" and "\<not> auth_refreshed" and "rs_status r = 401" and "lease_generation lease = Some g"
  | (retry) s d where "step = RetryAfter s d" and "s + d < t_overall_timeout t"
      and "retryable_operation (op_retry (pr_meta p)) (t_retry_policy t)" and "retries < max_retries (t_retry_policy t)"
      and "rs_status r \<notin> set (success_statuses (pr_meta p))" and "should_retry_response (rs_status r) (rs_headers r)"
      and "retry_delay t env n retries r = Some d"
proof (cases "if rs_status r = 401 \<and> \<not> auth_refreshed then lease_generation lease else None")
  case (Some g)
  with assms refresh [of _ g] show thesis by (auto simp: after_response_def Let_def split: if_splits)
next
  case none: None
  show thesis
  proof (cases "rs_status r \<in> set (success_statuses (pr_meta p))")
    case True
    with none assms success show thesis by (simp add: after_response_def Let_def)
  next
    case False
    show thesis
    proof (cases "\<exists>s d. step = RetryAfter s d")
      case True
      then obtain s d where "step = RetryAfter s d" by blast
      with none assms False retry [of s d] show thesis
        by (simp add: after_response_def can_wait_def Let_def split: if_split_asm option.split_asm)
    next
      case noretry: False
      with none assms False failure show thesis
        by (auto simp: after_response_def Let_def split: if_split_asm option.split_asm)
    qed
  qed
qed

lemma attempt_retry_again:
  assumes "attempt c t p env n retries auth_refreshed elapsed = (evs, RetryAfter s d)"
  shows "retryable_operation (op_retry (pr_meta p)) (t_retry_policy t) \<and> retries < max_retries (t_retry_policy t)
    \<and> s + d < t_overall_timeout t"
  using assms
proof (cases rule: attempt_cases)
  case (failed now lease e took)
  from failed(4) [symmetric] show ?thesis by (cases rule: after_failure_cases) auto
next
  case (answered now lease r took)
  from answered(4) [symmetric] show ?thesis by (cases rule: after_response_cases) auto
qed simp

lemma attempt_events: "attempt c t p env n retries auth_refreshed elapsed = (evs, step) \<Longrightarrow> evs = [] \<or> (\<exists>now q r. evs = [Sent now q r])"
  by (erule attempt_cases) auto

text \<open>The loop, one attempt at a time.\<close>

lemma send_loop_step:
  assumes "attempt c t p env n retries auth_refreshed elapsed = (evs, step)"
  shows "send_loop c t p env n retries auth_refreshed elapsed =
    (case step of
       Return r \<Rightarrow> (evs, r)
     | RetryAfter now delay \<Rightarrow>
         (let (evs', r) = send_loop c t p env (n + 1) (retries + 1) auth_refreshed (now + delay)
          in (evs @ Slept now delay # evs', r))
     | RefreshAt now generation \<Rightarrow>
         (let (evs', r) = send_loop c t p env (n + 1) retries True now in (evs @ Invalidated generation # evs', r)))"
  by (subst send_loop.simps) (simp add: assms split: next_step.split)

section \<open>Counting\<close>

fun is_sent :: "send_event \<Rightarrow> bool" where
  "is_sent (Sent _ _ _) = True" | "is_sent _ = False"

fun is_slept :: "send_event \<Rightarrow> bool" where
  "is_slept (Slept _ _) = True" | "is_slept _ = False"

fun is_invalidated :: "send_event \<Rightarrow> bool" where
  "is_invalidated (Invalidated _) = True" | "is_invalidated _ = False"

abbreviation count_of :: "(send_event \<Rightarrow> bool) \<Rightarrow> send_event list \<Rightarrow> nat" where
  "count_of P evs \<equiv> length (filter P evs)"

definition retry_budget :: "transport \<Rightarrow> operation_meta \<Rightarrow> nat" where
  "retry_budget t mt =
     (if retryable_operation (op_retry mt) (t_retry_policy t) then max_retries (t_retry_policy t) else 0)"

lemma send_loop_counts:
  "case send_loop c t p env n retries auth_refreshed elapsed of (evs, _) \<Rightarrow>
     count_of is_sent evs \<le> count_of is_slept evs + count_of is_invalidated evs + 1
     \<and> count_of is_slept evs \<le> retry_budget t (pr_meta p) - retries
     \<and> count_of is_invalidated evs \<le> (if auth_refreshed then 0 else 1)"
proof (induction c t p env n retries auth_refreshed elapsed rule: send_loop.induct)
  case (1 c t p env n retries auth_refreshed elapsed)
  obtain evs step where a: "attempt c t p env n retries auth_refreshed elapsed = (evs, step)" by fastforce
  have one: "count_of is_sent evs \<le> 1" "count_of is_slept evs = 0" "count_of is_invalidated evs = 0"
    using attempt_events [OF a] by auto
  show ?case
  proof (cases step)
    case (Return r)
    with one show ?thesis by (simp add: send_loop_step [OF a])
  next
    case (RetryAfter s d)
    obtain evs' r where rec: "send_loop c t p env (n + 1) (retries + 1) auth_refreshed (s + d) = (evs', r)" by fastforce
    from 1(1) [OF a [symmetric] RetryAfter] rec attempt_retry_again [OF a [unfolded RetryAfter]] one RetryAfter show ?thesis
      by (simp add: send_loop_step [OF a] retry_budget_def) linarith
  next
    case (RefreshAt s g)
    obtain evs' r where rec: "send_loop c t p env (n + 1) retries True s = (evs', r)" by fastforce
    from 1(2) [OF a [symmetric] RefreshAt] rec attempt_refresh [OF a [unfolded RefreshAt]] one RefreshAt show ?thesis
      unfolding send_loop_step [OF a] by auto
  qed
qed

section \<open>What holds of every event\<close>

text \<open>A property of the events of single attempts, of sleeps and of invalidations holds of the whole log.\<close>

lemma send_loop_all:
  assumes sent: "\<And>n retries auth_refreshed elapsed evs step.
      attempt c t p env n retries auth_refreshed elapsed = (evs, step) \<Longrightarrow> list_all P evs"
    and slept: "\<And>s d. s + d < t_overall_timeout t \<Longrightarrow> P (Slept s d)"
    and invalidated: "\<And>g. P (Invalidated g)"
  shows "list_all P (fst (send_loop c t p env n retries auth_refreshed elapsed))"
  using assms
proof (induction c t p env n retries auth_refreshed elapsed rule: send_loop.induct)
  case (1 c t p env n retries auth_refreshed elapsed)
  obtain evs step where a: "attempt c t p env n retries auth_refreshed elapsed = (evs, step)" by fastforce
  have evs: "list_all P evs" by (rule 1(3) [OF a])
  show ?case
  proof (cases step)
    case (Return r)
    with evs show ?thesis by (simp add: send_loop_step [OF a])
  next
    case (RetryAfter s d)
    have "P (Slept s d)" using attempt_retry_again [OF a [unfolded RetryAfter]] by (simp add: 1(4))
    with 1(1) [OF a [symmetric] RetryAfter 1(3,4,5)] evs RetryAfter show ?thesis
      unfolding send_loop_step [OF a] by (simp add: split_def Let_def)
  next
    case (RefreshAt s g)
    with 1(2) [OF a [symmetric] RefreshAt 1(3,4,5)] evs 1(5) show ?thesis
      unfolding send_loop_step [OF a] by (simp add: split_def Let_def)
  qed
qed

definition on_time :: "transport \<Rightarrow> send_event \<Rightarrow> bool" where
  "on_time t ev =
     (case ev of
        Sent now q _ \<Rightarrow> now < t_overall_timeout t \<and> rq_timeout q = t_overall_timeout t - now
      | Slept now d \<Rightarrow> now + d < t_overall_timeout t
      | Invalidated _ \<Rightarrow> True)"

lemma send_loop_on_time: "list_all (on_time t) (fst (send_loop c t p env n retries auth_refreshed elapsed))"
proof (rule send_loop_all)
  fix n retries auth_refreshed elapsed evs step
  assume "attempt c t p env n retries auth_refreshed elapsed = (evs, step)"
  then show "list_all (on_time t) evs" by (cases rule: attempt_cases) (simp_all add: on_time_def build_request_def)
qed (simp_all add: on_time_def)

text \<open>Every request of a run is the same request, to the configured origin, up to the credential and the
  remaining time.\<close>

definition same_request :: "transport \<Rightarrow> prepared \<Rightarrow> send_event \<Rightarrow> bool" where
  "same_request t p ev =
     (case ev of
        Sent now q _ \<Rightarrow>
          same_origin (rq_url q) (t_base_url t)
          \<and> (\<exists>lease remaining. q = build_request t p lease remaining)
      | _ \<Rightarrow> True)"

lemma send_loop_same_request:
  "list_all (same_request t p) (fst (send_loop c t p env n retries auth_refreshed elapsed))"
proof (rule send_loop_all)
  fix n retries auth_refreshed elapsed evs step
  assume "attempt c t p env n retries auth_refreshed elapsed = (evs, step)"
  then show "list_all (same_request t p) evs"
    by (cases rule: attempt_cases) (auto simp: same_request_def build_request_def)
qed (simp_all add: same_request_def)

section \<open>Pacing\<close>

text \<open>
  A sleep after a response: the response asks for a retry, and a valid delay that the server names is waited
  exactly, a delay over the policy's maximum is never waited at all.
\<close>

fun paced :: "transport \<Rightarrow> send_env \<Rightarrow> nat \<Rightarrow> send_event list \<Rightarrow> bool" where
  "paced t env n (Sent now q (Ok r) # Slept s d # evs) =
     (should_retry_response (rs_status r) (rs_headers r)
      \<and> (case server_retry_delay (env_date env n) (rs_headers r) (max_server_delay (t_retry_policy t)) of
           Valid m \<Rightarrow> d = m
         | Absent \<Rightarrow> True
         | TooLong \<Rightarrow> False)
      \<and> paced t env (n + 1) evs)"
| "paced t env n (Sent now q out # evs) = paced t env (n + 1) evs"
| "paced t env n (Slept s d # evs) = paced t env n evs"
| "paced t env n (Invalidated g # evs) = paced t env n evs"
| "paced t env n [] = True"

lemma send_loop_paced: "paced t env n (fst (send_loop c t p env n retries auth_refreshed elapsed))"
proof (induction c t p env n retries auth_refreshed elapsed rule: send_loop.induct)
  case (1 c t p env n retries auth_refreshed elapsed)
  obtain evs step where a: "attempt c t p env n retries auth_refreshed elapsed = (evs, step)" by fastforce
  show ?case
  proof (cases step)
    case (Return r)
    with attempt_events [OF a] show ?thesis
      by (auto simp: send_loop_step [OF a])
  next
    case (RetryAfter s d)
    note IH = 1(1) [OF a [symmetric] RetryAfter]
    from a show ?thesis
    proof (cases rule: attempt_cases)
      case (refused e)
      with RetryAfter show ?thesis by simp
    next
      case (failed now lease e took)
      with IH RetryAfter show ?thesis unfolding send_loop_step [OF a] by (simp add: split_def Let_def)
    next
      case (answered now lease r took)
      from answered(4) [symmetric] RetryAfter have "should_retry_response (rs_status r) (rs_headers r)" "retry_delay t env n retries r = Some d"
        by (auto elim: after_response_cases)
      with IH RetryAfter answered show ?thesis unfolding send_loop_step [OF a]
        by (simp add: split_def Let_def retry_delay_def split: server_delay.splits)
    qed
  next
    case (RefreshAt s g)
    note IH = 1(2) [OF a [symmetric] RefreshAt]
    from attempt_events [OF a] show ?thesis
    proof (elim disjE exE)
      assume "evs = []"
      with a RefreshAt show ?thesis by (auto elim: attempt_cases)
    next
      fix now q r
      assume "evs = [Sent now q r]"
      with IH RefreshAt show ?thesis unfolding send_loop_step [OF a]
        by (cases r) (simp_all add: split_def Let_def)
    qed
  qed
qed

section \<open>Outcome\<close>

text \<open>
  Why a request of attempt \<open>n\<close> was not sent: the deadline, which the credential used up, a failure of the credential provider, or
  a request the library refuses to build.  \<open>start\<close> is when the attempt began, where the log says so.
\<close>

definition unsent_error :: "transport \<Rightarrow> prepared \<Rightarrow> send_env \<Rightarrow> nat \<Rightarrow> duration option \<Rightarrow> client_error \<Rightarrow> bool" where
  "unsent_error t p env n start e \<longleftrightarrow>
     e = DeadlineExceeded \<and> (case start of Some s \<Rightarrow> t_overall_timeout t \<le> s + fst (env_auth env n) | None \<Rightarrow> True)
     \<or> snd (env_auth env n) = Err e
     \<or> (\<exists>lease d f. snd (env_auth env n) = Ok lease \<and> env_build env n (build_request t p lease d) = Some f \<and> e = from_reqwest f)
     \<or> \<not> same_origin (pr_url p) (t_base_url t)
        \<and> e = InvalidConfiguration ''operation URL escaped the configured authentication origin''"

text \<open>How a run that began at \<open>elapsed\<close> with attempt \<open>n\<close> may end.\<close>

definition outcome_ok ::
    "error_codec \<Rightarrow> transport \<Rightarrow> prepared \<Rightarrow> send_env \<Rightarrow> nat \<Rightarrow> duration \<Rightarrow> send_event list \<Rightarrow> (client_error, http_response) result \<Rightarrow> bool" where
  "outcome_ok c t p env n elapsed evs res =
     (case res of
        Ok r \<Rightarrow> rs_status r \<in> set (success_statuses (pr_meta p)) \<and> (\<exists>evs' now q. evs = evs' @ [Sent now q (Ok r)])
      | Err e \<Rightarrow>
          (case rev evs of
             Sent now q (Ok r) # _ \<Rightarrow> e = error_from_response c t r \<and> rs_status r \<notin> set (success_statuses (pr_meta p))
           | Sent now q (Err f) # _ \<Rightarrow> e = from_reqwest (tf_error f)
           | Slept now d # _ \<Rightarrow> unsent_error t p env (n + count_of is_sent evs) (Some (now + d)) e
           | Invalidated _ # _ \<Rightarrow> unsent_error t p env (n + count_of is_sent evs) None e
           | [] \<Rightarrow> unsent_error t p env n (Some elapsed) e))"

lemma attempt_refused:
  assumes "attempt c t p env n retries auth_refreshed elapsed = ([], Return r)"
  shows "\<exists>e. r = Err e \<and> unsent_error t p env n (Some elapsed) e"
proof -
  have url: "rq_url (build_request t p lease d) = pr_url p" for lease d by (simp add: build_request_def)
  obtain took a where auth: "env_auth env n = (took, a)" by fastforce
  show ?thesis
    using assms auth
    by (cases a) (auto simp: attempt_def authorization_with_budget_def unsent_error_def url Let_def
        split: if_splits option.splits prod.splits sum.splits)
qed

lemma unsent_error_unknown_start: "unsent_error t p env n (Some s) e \<Longrightarrow> unsent_error t p env n None e"
  unfolding unsent_error_def by auto

lemma outcome_ok_extend:
  assumes "outcome_ok c t p env (Suc n) elapsed' evs' r" and "x = Slept now d \<and> elapsed' = now + d \<or> x = Invalidated g"
    and "count_of is_sent evs = 1"
  shows "outcome_ok c t p env n elapsed (evs @ x # evs') r"
proof (cases "rev evs'")
  case Nil
  with assms show ?thesis by (auto simp: outcome_ok_def split: sum.splits intro: unsent_error_unknown_start)
next
  case (Cons y ys)
  then have "evs' = rev ys @ [y]" by simp
  with assms show ?thesis by (cases y) (auto simp: outcome_ok_def split: sum.splits)
qed

lemma attempt_continues:
  assumes "attempt c t p env n retries auth_refreshed elapsed = (evs, step)" and "\<forall>r. step \<noteq> Return r"
  shows "count_of is_sent evs = 1"
  using assms by (cases rule: attempt_cases) auto

lemma send_loop_outcome:
  "case send_loop c t p env n retries auth_refreshed elapsed of (evs, r) \<Rightarrow> outcome_ok c t p env n elapsed evs r"
proof (induction c t p env n retries auth_refreshed elapsed rule: send_loop.induct)
  case (1 c t p env n retries auth_refreshed elapsed)
  obtain evs step where a: "attempt c t p env n retries auth_refreshed elapsed = (evs, step)" by fastforce
  show ?case
  proof (cases step)
    case (Return r)
    from a have "outcome_ok c t p env n elapsed evs r"
    proof (cases rule: attempt_cases)
      case (refused e)
      with attempt_refused [OF a [unfolded refused(1) Return]] show ?thesis by (auto simp: outcome_ok_def)
    next
      case (failed now lease e took)
      with Return show ?thesis by (auto simp: outcome_ok_def after_failure_def Let_def split: if_splits)
    next
      case (answered now lease r' took)
      from answered(4) [symmetric] answered(3) Return show ?thesis
        by (cases rule: after_response_cases) (auto simp: outcome_ok_def)
    qed
    with Return show ?thesis by (simp add: send_loop_step [OF a])
  next
    case (RetryAfter s d)
    from 1(1) [OF a [symmetric] RetryAfter] attempt_continues [OF a] RetryAfter show ?thesis
      unfolding send_loop_step [OF a] by (auto simp: Let_def split: prod.splits intro!: outcome_ok_extend)
  next
    case (RefreshAt s g)
    from 1(2) [OF a [symmetric] RefreshAt] attempt_continues [OF a] RefreshAt show ?thesis
      unfolding send_loop_step [OF a] by (auto simp: Let_def split: prod.splits intro!: outcome_ok_extend)
  qed
qed

section \<open>Bounded reads\<close>

lemma read_chunks_spec:
  "length acc \<le> limit \<Longrightarrow>
     read_chunks limit (map Ok cs) acc = Ok (take limit (acc @ concat cs), limit < length (acc @ concat cs))"
proof (induction cs arbitrary: acc)
  case (Cons c cs)
  then show ?case
    by (cases "limit - length acc < length c") (simp_all add: saturating_sub_def Let_def add.assoc)
qed simp

section \<open>Properties\<close>

text \<open>
  C11: A request ends, and is not repeated more than it may be.  The transport sends at most one request more than
  it sleeps and refreshes; it sleeps at most as often as the policy allows retries, and never for an operation
  that the policy does not retry (a mutation under the conservative policy); it refreshes the
  credential at most once.
\<close>

theorem send_attempts_bounded:
  "case send_with_static_header lib t env mt path q bd h of (evs, _) \<Rightarrow>
     count_of is_sent evs \<le> count_of is_slept evs + count_of is_invalidated evs + 1
     \<and> count_of is_slept evs \<le> (if retryable_operation (op_retry mt) (t_retry_policy t) then max_retries (t_retry_policy t) else 0)
     \<and> count_of is_invalidated evs \<le> 1"
proof (cases "prepare lib t mt path q bd h")
  case (Inr p)
  then have "pr_meta p = mt" by (auto simp: prepare_def res_bind_Ok_iff split: if_splits)
  with Inr send_loop_counts [where c = "lib_errors lib" and t = t and p = p and env = env and n = 0 and retries = 0
      and auth_refreshed = False and elapsed = 0] show ?thesis
    by (simp add: send_with_static_header_def retry_budget_def split_def)
qed (simp add: send_with_static_header_def)


text \<open>
  C12: How a request ends.  It succeeds only with the response to the last request it sent, and that has one of
  the operation's success statuses.  If the last thing it did was an exchange, a failure is the error of that exchange:
  the typed error of a response whose status is not a success, or the transport failure.  If it failed before it
  sent anything, or after a wait or a refreshed credential, the error is what kept the next request from being sent: the credential
  provider's error for that attempt, a request that cannot be built, or the deadline, and then the wait and the credential
  had used it up.
\<close>

theorem send_outcome:
  "case prepare lib t mt path q bd h of
     Err e \<Rightarrow> send_with_static_header lib t env mt path q bd h = ([], Err e)
   | Ok p \<Rightarrow> (case send_with_static_header lib t env mt path q bd h of (evs, r) \<Rightarrow> outcome_ok (lib_errors lib) t p env 0 0 evs r)"
  using send_loop_outcome by (auto simp: send_with_static_header_def split: sum.split)


text \<open>
  Every request that is sent goes to the configured origin and is the same request, up to the credential
  and the timeout: a retry replays the method, the URL, the body and the other headers unchanged.
\<close>

theorem send_replays_request:
  "case prepare lib t mt path q bd h of
     Err e \<Rightarrow> fst (send_with_static_header lib t env mt path q bd h) = []
   | Ok p \<Rightarrow> list_all (same_request t p) (fst (send_with_static_header lib t env mt path q bd h))"
  by (simp add: send_with_static_header_def send_loop_same_request split: sum.split)

text \<open>
  Backoff without a server delay: between three quarters of the base and the base, which is half a second
  doubled with every retry up to eight seconds.  Computed through the binary64 operations of the code.
\<close>

theorem local_backoff_bounds:
  assumes "n < 10 ^ 9"
  shows "3 * (5 * 10 ^ 8 * 2 ^ min retries 4) \<le> 4 * local_retry_delay retries (Some n)
    \<and> local_retry_delay retries (Some n) \<le> 5 * 10 ^ 8 * 2 ^ min retries 4"
  using backoff_bounds [of "Some n" retries] assms by (simp add: backoff_base_def)

theorem local_backoff_bounds_witness:
  "3 * (5 * 10 ^ 8 * 2 ^ 3) \<le> 4 * local_retry_delay 3 (Some 999999999)
   \<and> local_retry_delay 3 (Some 999999999) \<le> 5 * 10 ^ 8 * 2 ^ (3::nat)"
  using local_backoff_bounds [of 999999999 3] by simp

text \<open>
  A delay that the server names is honoured only up to the policy's maximum, through decimal parsing, float
  division and rounding to nanoseconds, for every maximum of whole seconds below \<open>2\<^sup>5\<^sup>3\<close>.
\<close>

theorem server_delay_bounded:
  assumes "server_retry_delay date headers (from_secs M) = Valid d" and "M < 2 ^ 53"
  shows "d \<le> from_secs M"
  by (rule server_delay_le [OF assms])

theorem server_delay_bounded_witness: "(5 :: nat) \<le> from_secs 120"
proof -
  have "server_retry_delay (\<lambda>_. Some 5) (\<lambda>h. if h = ''retry-after'' then Some ''x'' else None) (from_secs 120) = Valid 5"
    by (simp add: server_retry_delay_def parse_f64_def parse_decimal_def is_ascii_digit_def code_def lower_def from_secs_def)
  then show ?thesis by (rule server_delay_bounded) simp
qed

text \<open>
  A body is read up to its limit: the bytes kept are the first ones up to the limit and the flag says
  exactly whether there were more, however the body is cut into chunks.
\<close>

theorem read_up_to_prefix:
  "read_up_to (r\<lparr>rs_body := map Ok cs\<rparr>) limit = Ok (take limit (concat cs), limit < length (concat cs))"
  by (simp add: read_up_to_def read_chunks_spec)

end
