(* ===== verification/Workload_Identity.thy ===== *)
theory Workload_Identity
  imports State_Machine Transport
begin

text \<open>
  Workload-identity authentication, \<^verbatim>\<open>crates/openai-rs-client/src/workload_identity.rs\<close>: the token
  exchange, the cached token with its refresh buffer, and the single-flight refresh that any number of
  concurrent callers share.

  Each critical section under the state lock is a function on \<open>wi_state\<close>.  The concurrent system of callers,
  detached refresh tasks and invalidations is the step relation \<open>wi_step\<close>: every step is one critical section,
  in any interleaving; \<^verbatim>\<open>Notify::notify_waiters\<close> marks every registered waiter, and a waiter
  registers before it releases the lock.  Counters wrap at 64 bits as in the source.
\<close>

section \<open>The exchange\<close>

definition MAX_EXCHANGE_BODY_BYTES :: nat where "MAX_EXCHANGE_BODY_BYTES = 64 * 1024"
definition DEFAULT_REFRESH_BUFFER :: duration where "DEFAULT_REFRESH_BUFFER = from_secs 1200"
definition DEFAULT_TOKEN_LIFETIME :: duration where "DEFAULT_TOKEN_LIFETIME = from_secs 3600"

text \<open>On ASCII text the surrounding white space that \<^verbatim>\<open>trim\<close> removes is white space inside, too.\<close>

definition is_rust_whitespace :: "byte \<Rightarrow> bool" where
  "is_rust_whitespace b \<longleftrightarrow> code b \<in> {9, 10, 11, 12, 13, 32}"

definition validate_bearer_material :: "bytes \<Rightarrow> bytes option" where
  "validate_bearer_material token =
     (if token = [] \<or> \<not> list_all is_ascii token \<or> list_ex is_rust_whitespace token
         \<or> list_ex (\<lambda>b. code b < 32 \<or> code b = 127) token
      then None else Some token)"

record cached_token =
  ct_token :: bytes
  ct_expires_at :: nat
  ct_refresh_at :: nat
  ct_generation :: "64 word"

text \<open>
  What one exchange gets from outside: the subject-token provider and the HTTP exchange, either of which
  may fail, the decoder of the response body, the clock after the exchange and the range of the clock.
\<close>

record exchange_env =
  ex_subject :: "bytes option"
  ex_response :: "http_response option"
  ex_decode :: "bytes \<Rightarrow> (bytes \<times> f64 option) option"
  ex_now :: nat
  ex_clock_end :: nat

definition exchange ::
    "error_codec \<Rightarrow> duration \<Rightarrow> exchange_env \<Rightarrow> 64 word \<Rightarrow> (workload_identity_error, cached_token) result" where
  "exchange c refresh_buffer env token_generation =
     res_bind (ok_or (ex_subject env) SubjectTokenFailed) (\<lambda>subject.
     res_bind (ok_or (ex_response env) ExchangeTransport) (\<lambda>response.
     res_bind (map_err (\<lambda>_. ExchangeTransport) (read_up_to response MAX_EXCHANGE_BODY_BYTES)) (\<lambda>(bs, truncated).
       let st = rs_status response;
           preview = body_preview_of c bs
       in if \<not> (200 \<le> st \<and> st < 300)
          then Err (if st = 400 \<or> st = 401 \<or> st = 403 then OAuthRejected st (preview truncated)
                    else ExchangeRejected st (preview truncated))
          else if truncated then Err (InvalidResponse ''response body exceeded the configured limit'' (preview True))
          else res_bind (ok_or (ex_decode env bs) (InvalidResponse ''response contains invalid JSON'' (preview False))) (\<lambda>(access_token, expires_in).
            res_bind (ok_or (validate_bearer_material access_token)
                (InvalidResponse ''response contains an invalid access_token'' (preview False))) (\<lambda>token.
              let lifetime_seconds = (case expires_in of Some s \<Rightarrow> s | None \<Rightarrow> F64 False (as_secs_f64 DEFAULT_TOKEN_LIFETIME));
                  bad = InvalidResponse ''response contains an invalid expires_in'' (preview False)
              in res_bind (ok_or (try_from_secs_f64 lifetime_seconds) bad) (\<lambda>lifetime.
                   if lifetime = 0 then Err bad
                   else let now = ex_now env; expires_at = now + lifetime
                        in if ex_clock_end env < expires_at
                           then Err (InvalidResponse ''response expiration overflows the monotonic clock'' (preview False))
                           else let effective_buffer = min refresh_buffer (lifetime div 2)
                                in Ok \<lparr>ct_token = token, ct_expires_at = expires_at,
                                       ct_refresh_at = (if effective_buffer \<le> expires_at then expires_at - effective_buffer else now),
                                       ct_generation = token_generation\<rparr>))))))"

section \<open>State under the lock\<close>

record refresh_in_flight =
  rf_id :: "64 word"
  rf_generation :: "64 word"
  rf_token_generation :: "64 word"

record wi_state =
  wi_cached :: "cached_token option"
  wi_generation :: "64 word"
  wi_next_refresh_id :: "64 word"
  wi_next_token_generation :: "64 word"
  wi_refreshing :: "refresh_in_flight option"
  wi_completed_failure :: "(64 word \<times> workload_identity_error) option"

definition wi_state_default :: wi_state where
  "wi_state_default =
     \<lparr>wi_cached = None, wi_generation = 0, wi_next_refresh_id = 0, wi_next_token_generation = 0,
      wi_refreshing = None, wi_completed_failure = None\<rparr>"

definition begin_refresh :: "wi_state \<Rightarrow> refresh_in_flight \<times> wi_state" where
  "begin_refresh s =
     (let refresh = \<lparr>rf_id = wi_next_refresh_id s + 1, rf_generation = wi_generation s,
                     rf_token_generation = wi_next_token_generation s + 1\<rparr>
      in (refresh,
          s\<lparr>wi_next_refresh_id := wi_next_refresh_id s + 1,
            wi_next_token_generation := wi_next_token_generation s + 1,
            wi_refreshing := Some refresh, wi_completed_failure := None\<rparr>))"

datatype token_outcome = Lease auth_lease | Wait "64 word"

definition token_lease :: "cached_token \<Rightarrow> auth_lease" where
  "token_lease t = \<lparr>lease_header = ''Bearer '' @ ct_token t, lease_generation = Some (unat (ct_generation t))\<rparr>"

text \<open>The first critical section of \<^verbatim>\<open>token\<close>: the outcome, the refresh it spawns, the new state.\<close>

definition token_enter :: "nat \<Rightarrow> wi_state \<Rightarrow> token_outcome \<times> refresh_in_flight option \<times> wi_state" where
  "token_enter now s =
     (case wi_cached s of
        Some cached \<Rightarrow>
          if now < ct_expires_at cached then
            (if ct_refresh_at cached \<le> now \<and> wi_refreshing s = None
             then (let (refresh, s') = begin_refresh s in (Lease (token_lease cached), Some refresh, s'))
             else (Lease (token_lease cached), None, s))
          else (case wi_refreshing s of
              Some refreshing \<Rightarrow> (Wait (rf_id refreshing), None, s)
            | None \<Rightarrow> (let (refresh, s') = begin_refresh s in (Wait (rf_id refresh), Some refresh, s')))
      | None \<Rightarrow>
          (case wi_refreshing s of
             Some refreshing \<Rightarrow> (Wait (rf_id refreshing), None, s)
           | None \<Rightarrow> (let (refresh, s') = begin_refresh s in (Wait (rf_id refresh), Some refresh, s'))))"

text \<open>The second one, after the notification: the failure of the awaited refresh, or another round.\<close>

definition token_resume :: "64 word \<Rightarrow> wi_state \<Rightarrow> client_error option" where
  "token_resume refresh_id s =
     (case wi_completed_failure s of
        Some (completed_id, error) \<Rightarrow>
          if completed_id = refresh_id
          then Some (if error = RefreshDeadlineExceeded then DeadlineExceeded else WorkloadIdentity error)
          else None
      | None \<Rightarrow> None)"

definition invalidate_if_generation :: "64 word \<Rightarrow> wi_state \<Rightarrow> bool \<times> wi_state" where
  "invalidate_if_generation generation s =
     (if map_option ct_generation (wi_cached s) \<noteq> Some generation then (False, s)
      else (True,
        s\<lparr>wi_generation := wi_generation s + 1, wi_cached := None,
          wi_refreshing := (case wi_refreshing s of
             Some refresh \<Rightarrow> if rf_generation refresh = wi_generation s then None else Some refresh
           | None \<Rightarrow> None),
          wi_completed_failure := None\<rparr>))"

definition finish_refresh ::
    "refresh_in_flight \<Rightarrow> (workload_identity_error, cached_token) result \<Rightarrow> wi_state \<Rightarrow> wi_state" where
  "finish_refresh refresh result s =
     (let s1 = (case result of
           Ok token \<Rightarrow> if wi_generation s = rf_generation refresh then s\<lparr>wi_cached := Some token\<rparr> else s
         | Err _ \<Rightarrow> s)
      in case wi_refreshing s1 of
           Some current \<Rightarrow>
             if rf_id current = rf_id refresh
             then s1\<lparr>wi_refreshing := None,
                     wi_completed_failure := (case result of Err e \<Rightarrow> Some (rf_id refresh, e) | Ok _ \<Rightarrow> None)\<rparr>
             else s1
         | None \<Rightarrow> s1)"

section \<open>The concurrent system\<close>

datatype caller =
    Outside
  | WaitingFor "64 word" bool
  | Returned "(client_error, auth_lease) result"

text \<open>
  The tasks are the refreshes that were spawned and have not finished.  Ghost state: how many refreshes
  began, how many invalidations took effect, the generations that were invalidated, and those of the refreshes
  that were in flight at an invalidation.
\<close>

record wi_system =
  sy_state :: wi_state
  sy_tasks :: "refresh_in_flight list"
  sy_callers :: "nat \<Rightarrow> caller"
  sy_now :: nat
  sy_begun :: nat
  sy_epochs :: nat
  sy_revoked :: "64 word set"
  sy_stale :: "64 word set"

definition wi_init :: wi_system where
  "wi_init =
     \<lparr>sy_state = wi_state_default, sy_tasks = [], sy_callers = (\<lambda>_. Outside), sy_now = 0, sy_begun = 0, sy_epochs = 0,
      sy_revoked = {}, sy_stale = {}\<rparr>"

fun notify :: "caller \<Rightarrow> caller" where
  "notify (WaitingFor i woken) = WaitingFor i True" | "notify c = c"

definition notify_waiters :: "wi_system \<Rightarrow> wi_system" where
  "notify_waiters y = y\<lparr>sy_callers := notify \<circ> sy_callers y\<rparr>"

definition do_enter :: "nat \<Rightarrow> wi_system \<Rightarrow> wi_system" where
  "do_enter i y =
     (case token_enter (sy_now y) (sy_state y) of (outcome, spawned, s') \<Rightarrow>
        y\<lparr>sy_state := s',
          sy_tasks := (case spawned of None \<Rightarrow> sy_tasks y | Some r \<Rightarrow> r # sy_tasks y),
          sy_begun := (case spawned of None \<Rightarrow> sy_begun y | Some r \<Rightarrow> sy_begun y + 1),
          sy_callers := (sy_callers y)(i := (case outcome of Lease l \<Rightarrow> Returned (Ok l) | Wait r \<Rightarrow> WaitingFor r False))\<rparr>)"

definition do_finish ::
    "refresh_in_flight \<Rightarrow> (workload_identity_error, cached_token) result \<Rightarrow> wi_system \<Rightarrow> wi_system" where
  "do_finish r result y =
     notify_waiters (y\<lparr>sy_state := finish_refresh r result (sy_state y), sy_tasks := remove1 r (sy_tasks y)\<rparr>)"

definition do_invalidate :: "64 word \<Rightarrow> wi_system \<Rightarrow> wi_system" where
  "do_invalidate g y =
     (case invalidate_if_generation g (sy_state y) of
        (False, s') \<Rightarrow> y\<lparr>sy_state := s'\<rparr>
      | (True, s') \<Rightarrow>
          notify_waiters (y\<lparr>sy_state := s', sy_epochs := sy_epochs y + 1, sy_revoked := insert g (sy_revoked y),
            sy_stale := sy_stale y \<union> rf_token_generation ` set (sy_tasks y)\<rparr>))"

definition do_resume :: "nat \<Rightarrow> 64 word \<Rightarrow> wi_system \<Rightarrow> wi_system" where
  "do_resume i r y =
     y\<lparr>sy_callers := (sy_callers y)(i :=
        (case token_resume r (sy_state y) of Some e \<Rightarrow> Returned (Err e) | None \<Rightarrow> Outside))\<rparr>"

inductive wi_step :: "wi_system \<Rightarrow> wi_system \<Rightarrow> bool" where
  wi_enter: "sy_callers y i = Outside \<Longrightarrow> wi_step y (do_enter i y)"
| wi_resume: "sy_callers y i = WaitingFor r True \<Longrightarrow> wi_step y (do_resume i r y)"
| wi_cancel: "wi_step y (y\<lparr>sy_callers := (sy_callers y)(i := Outside)\<rparr>)"
| wi_finish: "r \<in> set (sy_tasks y) \<Longrightarrow>
    (\<And>token. result = Ok token \<Longrightarrow> ct_generation token = rf_token_generation r) \<Longrightarrow> wi_step y (do_finish r result y)"
| wi_invalidate: "wi_step y (do_invalidate g y)"
| wi_tick: "sy_now y \<le> now' \<Longrightarrow> wi_step y (y\<lparr>sy_now := now'\<rparr>)"

inductive_cases wi_stepE: "wi_step y y'"

end
