(* ===== verification/Workload_Safety.thy ===== *)
theory Workload_Safety
  imports Workload_Identity
begin

text \<open>
  The single-flight refresh under every interleaving: no waiter is stranded, one refresh per epoch, and a
  credential that was invalidated is never leased again.
\<close>

section \<open>Invariants\<close>

text \<open>Refreshes and invalidations that fit their 64-bit counters.\<close>

definition within_counters :: "wi_system \<Rightarrow> bool" where
  "within_counters y \<longleftrightarrow> sy_begun y < 2 ^ 64 \<and> sy_epochs y < 2 ^ 64"

definition slot_inv :: "wi_system \<Rightarrow> bool" where
  "slot_inv y \<longleftrightarrow>
     (\<forall>r. wi_refreshing (sy_state y) = Some r \<longrightarrow> r \<in> set (sy_tasks y))
     \<and> (\<forall>i n. sy_callers y i = WaitingFor n False \<longrightarrow> n \<in> rf_id ` set (sy_tasks y))"

definition task_inv :: "wi_system \<Rightarrow> refresh_in_flight \<Rightarrow> bool" where
  "task_inv y r \<longleftrightarrow>
     rf_token_generation r = rf_id r \<and> 0 < unat (rf_id r) \<and> unat (rf_id r) \<le> sy_begun y
     \<and> unat (rf_generation r) \<le> sy_epochs y
     \<and> (rf_generation r = wi_generation (sy_state y) \<longrightarrow>
          wi_refreshing (sy_state y) = Some r \<and> rf_id r \<notin> sy_stale y)"

definition counter_inv :: "wi_system \<Rightarrow> bool" where
  "counter_inv y \<longleftrightarrow>
     (let s = sy_state y
      in unat (wi_next_refresh_id s) = sy_begun y \<and> wi_next_token_generation s = wi_next_refresh_id s
         \<and> unat (wi_generation s) = sy_epochs y
         \<and> list_all (task_inv y) (sy_tasks y) \<and> distinct (map rf_id (sy_tasks y))
         \<and> (\<forall>r. wi_refreshing s = Some r \<longrightarrow> rf_generation r = wi_generation s)
         \<and> (\<forall>g \<in> sy_revoked y. unat g \<le> sy_begun y \<and> g \<notin> rf_id ` set (sy_tasks y))
         \<and> (\<forall>g \<in> sy_stale y. unat g \<le> sy_begun y)
         \<and> (\<forall>t. wi_cached s = Some t \<longrightarrow> unat (ct_generation t) \<le> sy_begun y \<and> ct_generation t \<notin> sy_stale y
              \<and> ct_generation t \<notin> sy_revoked y \<and> ct_generation t \<notin> rf_id ` set (sy_tasks y)))"

definition wi_inv :: "wi_system \<Rightarrow> bool" where
  "wi_inv y \<longleftrightarrow> slot_inv y \<and> (within_counters y \<longrightarrow> counter_inv y)"

section \<open>Preservation\<close>

lemma notify_waiting_False [simp]: "notify c \<noteq> WaitingFor n False"
  by (cases c) auto

lemma notify_waiters_simps [simp]:
  "sy_state (notify_waiters y) = sy_state y" "sy_tasks (notify_waiters y) = sy_tasks y"
  "sy_begun (notify_waiters y) = sy_begun y" "sy_epochs (notify_waiters y) = sy_epochs y"
  "sy_revoked (notify_waiters y) = sy_revoked y" "sy_stale (notify_waiters y) = sy_stale y"
  "sy_callers (notify_waiters y) i = notify (sy_callers y i)"
  by (simp_all add: notify_waiters_def)

lemma other_task_kept: "rf_id a \<noteq> rf_id b \<Longrightarrow> a \<in> set (remove1 b rs) \<longleftrightarrow> a \<in> set rs"
  by (rule in_set_remove1) auto

lemma slot_inv_step: "slot_inv y \<Longrightarrow> wi_step y y' \<Longrightarrow> slot_inv y'"
proof (erule wi_stepE)
  fix r result
  assume inv: "slot_inv y" and y': "y' = do_finish r result y"
  show "slot_inv y'"
    using inv unfolding y' slot_inv_def do_finish_def finish_refresh_def
    by (auto simp: Let_def other_task_kept split: sum.splits option.splits if_splits)
next
  fix i
  assume inv: "slot_inv y" and y': "y' = do_enter i y"
  show "slot_inv y'"
    using inv unfolding y' slot_inv_def do_enter_def token_enter_def begin_refresh_def
    by (auto simp: Let_def split: option.splits if_splits)
next
  fix g
  assume inv: "slot_inv y" and y': "y' = do_invalidate g y"
  show "slot_inv y'"
    using inv unfolding y' slot_inv_def do_invalidate_def invalidate_if_generation_def
    by (auto split: option.splits if_splits)
qed (auto simp: slot_inv_def do_resume_def split: option.splits if_splits)

lemma within_counters_step: "wi_step y y' \<Longrightarrow> within_counters y' \<Longrightarrow> within_counters y"
  by (erule wi_stepE)
    (auto simp: within_counters_def do_enter_def do_finish_def do_invalidate_def do_resume_def
      split: prod.splits option.splits bool.splits)

lemma unat_plus_one: "unat w = n \<Longrightarrow> n + 1 < 2 ^ 64 \<Longrightarrow> unat (w + 1 :: 64 word) = n + 1"
  by (simp add: unat_word_ariths)

text \<open>A new refresh has a fresh identifier and fills the slot.\<close>

lemma counter_inv_begin:
  assumes inv: "counter_inv y" and free: "wi_refreshing (sy_state y) = None" and "sy_begun y + 1 < 2 ^ 64"
    and b: "begin_refresh (sy_state y) = (r, s')"
  shows "counter_inv (y\<lparr>sy_state := s', sy_tasks := r # sy_tasks y, sy_begun := sy_begun y + 1, sy_callers := cs\<rparr>)"
proof -
  let ?s = "sy_state y"
  note i = inv [unfolded counter_inv_def Let_def]
  have id: "unat (wi_next_refresh_id ?s + 1) = sy_begun y + 1" using i assms(3) by (intro unat_plus_one) simp_all
  have r: "rf_id r = wi_next_refresh_id ?s + 1" "rf_token_generation r = rf_id r" "rf_generation r = wi_generation ?s"
    and s': "wi_next_refresh_id s' = rf_id r" "wi_next_token_generation s' = rf_id r" "wi_generation s' = wi_generation ?s"
      "wi_refreshing s' = Some r" "wi_cached s' = wi_cached ?s"
    using b i by (auto simp: begin_refresh_def Let_def)
  have old: "rf_id x \<noteq> rf_id r" "rf_generation x \<noteq> wi_generation ?s" if "x \<in> set (sy_tasks y)" for x
    using that i free id r(1) by (auto simp: list_all_iff task_inv_def)
  have "rf_id r \<notin> sy_revoked y" "rf_id r \<notin> sy_stale y" and "wi_cached ?s = Some t \<Longrightarrow> ct_generation t \<noteq> rf_id r" for t
    using i id r(1) by force+
  with i id r s' old show ?thesis
    by (auto simp: counter_inv_def Let_def task_inv_def list_all_iff)
qed

lemma counter_inv_frame:
  "counter_inv y \<Longrightarrow> sy_state y' = sy_state y \<Longrightarrow> sy_tasks y' = sy_tasks y \<Longrightarrow> sy_begun y' = sy_begun y \<Longrightarrow>
     sy_epochs y' = sy_epochs y \<Longrightarrow> sy_revoked y' = sy_revoked y \<Longrightarrow> sy_stale y' = sy_stale y \<Longrightarrow> counter_inv y'"
  by (simp add: counter_inv_def task_inv_def [abs_def])

lemma counter_inv_enter:
  assumes "counter_inv y" and "within_counters (do_enter i y)"
  shows "counter_inv (do_enter i y)"
proof -
  obtain outcome spawned s' where e: "token_enter (sy_now y) (sy_state y) = (outcome, spawned, s')" by (metis prod_cases3)
  show ?thesis
  proof (cases spawned)
    case None
    with e have "s' = sy_state y"
      by (auto simp: token_enter_def Let_def begin_refresh_def split: option.splits if_splits)
    with e None show ?thesis by (intro counter_inv_frame [OF assms(1)]) (simp_all add: do_enter_def)
  next
    case (Some r)
    with e have b: "wi_refreshing (sy_state y) = None" "begin_refresh (sy_state y) = (r, s')"
      by (auto simp: token_enter_def Let_def split: option.splits if_splits prod.splits)
    have "sy_begun y + 1 < 2 ^ 64" using assms(2) e Some by (simp add: within_counters_def do_enter_def)
    from counter_inv_begin [OF assms(1) b(1) this b(2)] e Some show ?thesis by (simp add: do_enter_def)
  qed
qed

lemma remove1_task:
  assumes "distinct (map rf_id rs)" and "r \<in> set rs"
  shows "set (remove1 r rs) = set rs - {r}" and "rf_id r \<notin> rf_id ` set (remove1 r rs)"
    and "distinct (map rf_id (remove1 r rs))"
proof -
  have d: "distinct rs" "inj_on rf_id (set rs)" using assms(1) by (simp_all add: distinct_map)
  then show eq: "set (remove1 r rs) = set rs - {r}" by (simp add: set_remove1_eq)
  with d assms(2) show "rf_id r \<notin> rf_id ` set (remove1 r rs)" by (auto dest: inj_onD)
  show "distinct (map rf_id (remove1 r rs))"
    using d eq by (simp add: distinct_map distinct_remove1 inj_on_subset)
qed

lemma counter_inv_finish:
  assumes inv: "counter_inv y" and r: "r \<in> set (sy_tasks y)"
    and tok: "\<And>token. result = Ok token \<Longrightarrow> ct_generation token = rf_token_generation r"
  shows "counter_inv (do_finish r result y)"
proof -
  let ?s = "sy_state y" and ?s' = "finish_refresh r result (sy_state y)" and ?rs = "remove1 r (sy_tasks y)"
  note i = inv [unfolded counter_inv_def Let_def]
  have d: "distinct (map rf_id (sy_tasks y))" using i by simp
  note rem = remove1_task [OF d r]
  have task: "task_inv y x" if "x \<in> set (sy_tasks y)" for x using i that by (simp add: list_all_iff)
  have s': "wi_generation ?s' = wi_generation ?s" "wi_next_refresh_id ?s' = wi_next_refresh_id ?s"
    "wi_next_token_generation ?s' = wi_next_token_generation ?s"
    by (auto simp: finish_refresh_def Let_def split: sum.split option.split)
  have same: "rf_id x = rf_id r \<Longrightarrow> x \<in> set (sy_tasks y) \<Longrightarrow> x = r" for x
    using d r by (auto simp: distinct_map dest: inj_onD)
  have slot: "wi_refreshing ?s' = Some x \<longleftrightarrow> wi_refreshing ?s = Some x \<and> rf_id x \<noteq> rf_id r" for x
    by (auto simp: finish_refresh_def Let_def split: sum.split option.split)
  have tasks: "task_inv (do_finish r result y) x" if "x \<in> set ?rs" for x
    using task [of x] that rem same [of x] slot s' by (auto simp: task_inv_def do_finish_def)
  have cached: "wi_cached ?s' = Some t \<Longrightarrow> wi_cached ?s = Some t \<or> ct_generation t = rf_id r \<and> rf_id r \<notin> sy_stale y" for t
    using tok task [OF r] by (auto simp: finish_refresh_def task_inv_def Let_def split: sum.splits option.splits if_splits)
  have "rf_id r \<notin> sy_revoked y" "unat (rf_id r) \<le> sy_begun y" using i r task [OF r] by (auto simp: task_inv_def)
  with i rem s' slot tasks cached show ?thesis
    unfolding counter_inv_def Let_def by (auto simp: do_finish_def list_all_iff dest: same)
qed

lemma counter_inv_invalidate:
  assumes inv: "counter_inv y" and b: "within_counters (do_invalidate g y)"
  shows "counter_inv (do_invalidate g y)"
proof (cases "map_option ct_generation (wi_cached (sy_state y)) = Some g")
  case True
  let ?s = "sy_state y"
  obtain t where t: "wi_cached ?s = Some t" "ct_generation t = g" using True by auto
  have i: "unat (wi_generation ?s) = sy_epochs y" "\<And>x. x \<in> set (sy_tasks y) \<Longrightarrow> task_inv y x"
    "\<And>r. wi_refreshing ?s = Some r \<Longrightarrow> rf_generation r = wi_generation ?s"
    "unat g \<le> sy_begun y" "g \<notin> rf_id ` set (sy_tasks y)" "\<And>g. g \<in> sy_stale y \<Longrightarrow> unat g \<le> sy_begun y"
    using inv t unfolding counter_inv_def Let_def by (simp_all add: list_all_iff)
  define y' where "y' = do_invalidate g y"
  have y': "wi_generation (sy_state y') = wi_generation ?s + 1" "wi_next_refresh_id (sy_state y') = wi_next_refresh_id ?s"
    "wi_next_token_generation (sy_state y') = wi_next_token_generation ?s" "wi_cached (sy_state y') = None"
    "sy_tasks y' = sy_tasks y" "sy_begun y' = sy_begun y" "sy_epochs y' = sy_epochs y + 1" "sy_revoked y' = insert g (sy_revoked y)"
    "sy_stale y' = sy_stale y \<union> rf_token_generation ` set (sy_tasks y)"
    by (simp_all add: y'_def do_invalidate_def invalidate_if_generation_def t)
  have slot: "wi_refreshing (sy_state y') = None"
    using i(3) by (simp add: y'_def do_invalidate_def invalidate_if_generation_def t split: option.split)
  have "sy_epochs y + 1 < 2 ^ 64" using b y'(7) by (simp add: within_counters_def y'_def)
  then have e: "unat (wi_generation ?s + 1) = sy_epochs y + 1" by (rule unat_plus_one [OF i(1)])
  have "task_inv y' x" if "x \<in> set (sy_tasks y)" for x
    using i(2) [OF that] e unfolding task_inv_def y' by auto
  then have "list_all (task_inv y') (sy_tasks y)" by (simp add: list_all_iff)
  moreover have "\<forall>g \<in> sy_stale y'. unat g \<le> sy_begun y'"
    using i(2,6) unfolding y' task_inv_def by auto
  ultimately have "counter_inv y'" using inv i(4,5) e slot unfolding counter_inv_def Let_def y' by simp
  then show ?thesis by (simp add: y'_def)
next
  case False
  then show ?thesis
    by (intro counter_inv_frame [OF inv]) (simp_all add: do_invalidate_def invalidate_if_generation_def)
qed

lemma counter_inv_step: "counter_inv y \<Longrightarrow> wi_step y y' \<Longrightarrow> within_counters y' \<Longrightarrow> counter_inv y'"
proof (erule wi_stepE)
  fix i r
  assume "counter_inv y" "y' = do_resume i r y"
  then show "counter_inv y'" by (auto intro: counter_inv_frame simp: do_resume_def)
qed (auto intro: counter_inv_enter counter_inv_finish counter_inv_invalidate counter_inv_frame)

lemma wi_inv_init: "wi_inv wi_init"
  by (simp add: wi_inv_def slot_inv_def counter_inv_def wi_init_def wi_state_default_def)

interpretation workload: machine_invariant wi_init wi_step wi_inv
proof unfold_locales
  show "wi_inv wi_init" by (rule wi_inv_init)
  fix y y' assume "wi_inv y" "wi_step y y'"
  then show "wi_inv y'"
    using slot_inv_step counter_inv_step within_counters_step unfolding wi_inv_def by blast
qed

section \<open>Properties\<close>

lemma distinct_singleton: "distinct xs \<Longrightarrow> set xs = {x} \<Longrightarrow> xs = [x]"
proof (cases xs)
  case (Cons a as)
  assume "distinct xs" "set xs = {x}"
  with Cons show ?thesis by (cases as) auto
qed auto

text \<open>
  C35: No caller is stranded.  In every interleaving of callers, cancellations, refreshes and invalidations, a
  caller that waits and is not yet notified waits for a refresh task that is still running, and whatever
  that task's result is, its end notifies the caller; and the single-flight slot always names a running task,
  so a caller that is cancelled never leaves the slot occupied for good.
\<close>

theorem workload_waiters_woken:
  assumes "reach wi_init wi_step y" and "sy_callers y i = WaitingFor n False"
  shows "\<exists>r \<in> set (sy_tasks y). rf_id r = n
    \<and> sy_callers (do_finish r result y) i = WaitingFor n True"
proof -
  have "slot_inv y" using workload.reach_inv [OF assms(1)] by (simp add: wi_inv_def)
  with assms(2) have "n \<in> rf_id ` set (sy_tasks y)" by (auto simp: slot_inv_def)
  then obtain r where "r \<in> set (sy_tasks y)" "rf_id r = n" by blast
  with assms(2) show ?thesis by (auto simp: do_finish_def)
qed

definition demo_waiting :: wi_system where
  "demo_waiting = do_enter 0 wi_init"

lemma demo_waiting_reach: "reach wi_init wi_step demo_waiting"
  unfolding demo_waiting_def by (rule reach_step, rule reach_init, rule wi_enter) (simp add: wi_init_def)

lemmas demo_simps = demo_waiting_def do_enter_def wi_init_def token_enter_def wi_state_default_def begin_refresh_def Let_def

theorem workload_waiters_woken_witness:
  "\<exists>r \<in> set (sy_tasks demo_waiting). rf_id r = 1
    \<and> sy_callers (do_finish r (Err ExchangeTransport) demo_waiting) 0 = WaitingFor 1 True"
  by (rule workload_waiters_woken [OF demo_waiting_reach])
    (simp add: demo_simps)

text \<open>
  Single flight: as long as the counters have not wrapped, the running refreshes of the current epoch are
  exactly the one in the slot, or none; refreshes of invalidated epochs may still run, but they are
  not of the current epoch and their tokens are dropped.
\<close>

theorem workload_single_flight:
  assumes "reach wi_init wi_step y" and "sy_begun y < 2 ^ 64" and "sy_epochs y < 2 ^ 64"
  shows "filter (\<lambda>r. rf_generation r = wi_generation (sy_state y)) (sy_tasks y) =
    (case wi_refreshing (sy_state y) of None \<Rightarrow> [] | Some r \<Rightarrow> [r])"
proof -
  let ?s = "sy_state y" and ?F = "filter (\<lambda>r. rf_generation r = wi_generation (sy_state y)) (sy_tasks y)"
  have inv: "slot_inv y" "counter_inv y"
    using workload.reach_inv [OF assms(1)] assms(2,3) by (simp_all add: wi_inv_def within_counters_def)
  have task: "task_inv y r" if "r \<in> set (sy_tasks y)" for r
    using inv(2) that unfolding counter_inv_def Let_def list_all_iff by blast
  have slot: "rf_generation r = wi_generation ?s" if "wi_refreshing ?s = Some r" for r
    using inv(2) that unfolding counter_inv_def Let_def by blast
  have mem: "r \<in> set ?F \<longleftrightarrow> wi_refreshing ?s = Some r" for r
    using task [of r] slot [of r] inv(1) unfolding slot_inv_def task_inv_def by auto
  have "distinct (map rf_id (sy_tasks y))" using inv(2) unfolding counter_inv_def Let_def by blast
  then have d: "distinct ?F" by (simp add: distinct_map)
  show ?thesis
  proof (cases "wi_refreshing ?s")
    case None
    then have "set ?F = {}" unfolding set_eq_iff mem by simp
    then have "?F = []" by (simp only: set_empty)
    with None show ?thesis by simp
  next
    case (Some r)
    then have "set ?F = {r}" unfolding set_eq_iff mem by auto
    from distinct_singleton [OF d this] have "?F = [r]" .
    with Some show ?thesis by simp
  qed
qed

theorem workload_single_flight_witness:
  "length (filter (\<lambda>r. rf_generation r = wi_generation (sy_state demo_waiting)) (sy_tasks demo_waiting)) = 1"
  by (subst workload_single_flight [OF demo_waiting_reach])
    (simp_all add: demo_simps)

text \<open>
  C6: A rejected credential is never leased again.  A lease that a caller gets is for a cached token that has
  not expired, whose generation was never invalidated, and whose refresh was not in flight when an
  invalidation took effect, as long as the counters have not wrapped: a refresh that began before an
  invalidation and ends after it installs nothing.
\<close>

theorem workload_no_revoked_lease:
  assumes "reach wi_init wi_step y" and "sy_begun y < 2 ^ 64" and "sy_epochs y < 2 ^ 64"
    and "token_enter (sy_now y) (sy_state y) = (Lease l, spawned, s')"
  shows "\<exists>t. wi_cached (sy_state y) = Some t \<and> sy_now y < ct_expires_at t \<and> ct_generation t \<notin> sy_revoked y \<union> sy_stale y
    \<and> lease_header l = ''Bearer '' @ ct_token t \<and> lease_generation l = Some (unat (ct_generation t))"
proof -
  have inv: "counter_inv y"
    using workload.reach_inv [OF assms(1)] assms(2,3) by (simp add: wi_inv_def within_counters_def)
  from assms(4) obtain t where "wi_cached (sy_state y) = Some t" "sy_now y < ct_expires_at t" "l = token_lease t"
    by (auto simp: token_enter_def Let_def split: option.splits if_splits prod.splits)
  moreover from this inv have "ct_generation t \<notin> sy_revoked y \<union> sy_stale y" by (simp add: counter_inv_def Let_def)
  ultimately show ?thesis by (simp add: token_lease_def)
qed

definition demo_token :: cached_token where
  "demo_token = \<lparr>ct_token = ''tok'', ct_expires_at = 100, ct_refresh_at = 50, ct_generation = 1\<rparr>"

definition demo_cached :: wi_system where
  "demo_cached = do_finish \<lparr>rf_id = 1, rf_generation = 0, rf_token_generation = 1\<rparr> (Ok demo_token) demo_waiting"

theorem workload_no_revoked_lease_witness:
  "\<exists>t. wi_cached (sy_state demo_cached) = Some t \<and> sy_now demo_cached < ct_expires_at t \<and> ct_generation t \<notin> sy_revoked demo_cached \<union> sy_stale demo_cached
    \<and> ''Bearer tok'' = ''Bearer '' @ ct_token t \<and> Some 1 = Some (unat (ct_generation t))"
proof -
  have r: "reach wi_init wi_step demo_cached" unfolding demo_cached_def
    by (rule reach_step [OF demo_waiting_reach wi_finish])
      (simp_all add: demo_simps demo_token_def)
  have e: "token_enter (sy_now demo_cached) (sy_state demo_cached) =
      (Lease \<lparr>lease_header = ''Bearer tok'', lease_generation = Some 1\<rparr>, None, sy_state demo_cached)"
    "sy_begun demo_cached = 1" "sy_epochs demo_cached = 0"
    by (simp_all add: demo_cached_def do_finish_def finish_refresh_def demo_simps demo_token_def token_lease_def notify_waiters_def)
  from workload_no_revoked_lease [OF r _ _ e(1)] e(2,3) show ?thesis by simp
qed

text \<open>
  An exchanged token: it is usable bearer material, its refresh time lies between the exchange and its
  expiry, and the refresh buffer never takes more than half of its lifetime.
\<close>

theorem exchange_token_times:
  assumes "exchange c buffer env g = Ok t"
  shows "ex_now env < ct_expires_at t \<and> ct_refresh_at t \<le> ct_expires_at t \<and> ct_expires_at t \<le> ct_refresh_at t + buffer
    \<and> ct_expires_at t - ex_now env \<le> 2 * (ct_refresh_at t - ex_now env)
    \<and> validate_bearer_material (ct_token t) = Some (ct_token t) \<and> ct_generation t = g"
  using assms
  by (auto simp: exchange_def res_bind_Ok_iff Let_def validate_bearer_material_def split: if_splits prod.splits)

definition demo_lifetime :: f64 where "demo_lifetime = F64 False (1023 * 2 ^ 52)"

definition demo_exchange :: exchange_env where
  "demo_exchange =
     \<lparr>ex_subject = Some ''jwt'',
      ex_response = Some \<lparr>rs_status = 200, rs_headers = (\<lambda>_. None), rs_content_length = None, rs_body = [Ok ''b'']\<rparr>,
      ex_decode = (\<lambda>_. Some (''tok'', Some demo_lifetime)), ex_now = 7, ex_clock_end = 2 ^ 70\<rparr>"

lemma one_second: "try_from_secs_f64 demo_lifetime = Some (from_secs 1)"
proof -
  have "round_div (F64_ONE_UNITS * 10 ^ 9) F64_ONE_UNITS = 10 ^ 9"
    using round_div_exact [of F64_ONE_UNITS "10 ^ 9"] by (simp only: mult.commute) simp
  then show ?thesis
    unfolding demo_lifetime_def try_from_secs_f64.simps one_units by (simp add: F64_INF_def DURATION_SECS_END_def from_secs_def Let_def)
qed

theorem exchange_token_times_witness:
  "\<exists>t. exchange demo_codec DEFAULT_REFRESH_BUFFER demo_exchange 3 = Ok t \<and> ct_generation t = 3 \<and> 7 < ct_expires_at t"
proof -
  have "is_ok (exchange demo_codec DEFAULT_REFRESH_BUFFER demo_exchange 3)"
    by (simp add: exchange_def demo_exchange_def read_up_to_def saturating_sub_def MAX_EXCHANGE_BODY_BYTES_def
        validate_bearer_material_def is_ascii_def is_rust_whitespace_def code_def one_second from_secs_def Let_def)
  then obtain t where t: "exchange demo_codec DEFAULT_REFRESH_BUFFER demo_exchange 3 = Ok t" unfolding is_ok_iff by blast
  with exchange_token_times [OF t] show ?thesis by (simp add: demo_exchange_def)
qed

end
