(* ===== verification/Auth.thy ===== *)
theory Auth
  imports Redaction Workload_Identity
begin

text \<open>
  Platform credentials, \<^verbatim>\<open>crates/openai-rs-client/src/auth.rs\<close>: API keys and the provider that the
  transport asks for an authorization header.  The header-value parser is a library; for the values formed
  here it is the documented one, visible ASCII with spaces and tabs.
\<close>

datatype api_key_error =
    ApiKeyEmpty
  | SurroundingWhitespace
  | ApiKeyWhitespace
  | ControlCharacter
  | NonAscii
  | InvalidHeaderValue

type_synonym api_key = bytes

definition surrounded :: "bytes \<Rightarrow> bool" where
  "surrounded s \<longleftrightarrow> list_ex (\<lambda>w. prefix w s \<or> suffix w s) unicode_spaces"

definition api_key_new :: "bytes \<Rightarrow> (api_key_error, api_key) result" where
  "api_key_new key =
     (if key = [] then Err ApiKeyEmpty
      else if surrounded key then Err SurroundingWhitespace
      else if list_ex (\<lambda>w. find_sub w key \<noteq> None) unicode_spaces then Err ApiKeyWhitespace
      else if has_control key then Err ControlCharacter
      else if \<not> list_all is_ascii key then Err NonAscii
      else Ok key)"

definition header_value_from_str :: "bytes \<Rightarrow> bytes option" where
  "header_value_from_str s = (if list_all (\<lambda>b. code b = 9 \<or> 32 \<le> code b \<and> code b < 127) s then Some s else None)"

definition authorization_header :: "api_key \<Rightarrow> (api_key_error, bytes) result" where
  "authorization_header key = ok_or (header_value_from_str (''Bearer '' @ key)) InvalidHeaderValue"

text \<open>The provider; a workload identity is asked for its token, which takes as long as it takes.\<close>

datatype auth_provider = ApiKeyProvider api_key | WorkloadProvider "duration \<times> (client_error, auth_lease) result"

definition authorization ::
    "(api_key_error \<Rightarrow> bytes) \<Rightarrow> auth_provider \<Rightarrow> duration \<times> (client_error, auth_lease) result" where
  "authorization display p =
     (case p of
        ApiKeyProvider key \<Rightarrow>
          (0, map_err (\<lambda>e. InvalidConfiguration (display e))
             (res_bind (authorization_header key) (\<lambda>h. Ok \<lparr>lease_header = h, lease_generation = None\<rparr>)))
      | WorkloadProvider token \<Rightarrow> token)"

lemma has_control_ascii: "list_all is_ascii s \<Longrightarrow> has_control s \<longleftrightarrow> list_ex (\<lambda>b. code b < 32 \<or> code b = 127) s"
  by (induction s rule: has_control.induct) (auto simp: is_ascii_def)

lemma spaces_invisible: "list_all (\<lambda>w. w \<noteq> [] \<and> (code (hd w) \<le> 32 \<or> 127 \<le> code (hd w))) unicode_spaces"
  by code_simp

lemma visible_no_space:
  assumes "list_all (\<lambda>b. 33 \<le> code b \<and> code b \<le> 126) key" and "w \<in> set unicode_spaces"
  shows "w \<noteq> []" and "\<not> sublist w key"
proof -
  have w: "w \<noteq> []" "code (hd w) \<le> 32 \<or> 127 \<le> code (hd w)"
    using spaces_invisible assms(2) by (auto simp: list_all_iff)
  then show "w \<noteq> []" by simp
  have "hd w \<in> set key" if "sublist w key" using that w(1) by (auto simp: sublist_def)
  with w assms(1) show "\<not> sublist w key" by (fastforce simp: list_all_iff)
qed

lemma space_in_spaces: "[char_of (32 :: nat)] \<in> set unicode_spaces"
  by code_simp

text \<open>
  An API key is accepted exactly when it is not empty and every byte of it is visible ASCII; then its
  authorization header exists, so a key that was accepted never fails later.
\<close>

theorem api_key_accepted:
  "api_key_new key = Ok k \<longleftrightarrow>
     k = key \<and> key \<noteq> [] \<and> list_all (\<lambda>b. 33 \<le> code b \<and> code b \<le> 126) key \<and> authorization_header k = Ok (''Bearer '' @ k)"
proof
  assume "api_key_new key = Ok k"
  then have k: "k = key" "key \<noteq> []" "list_all is_ascii key" "\<not> has_control key"
    and sp: "\<And>w. w \<in> set unicode_spaces \<Longrightarrow> find_sub w key = None"
    by (auto simp: api_key_new_def list_ex_iff split: if_splits)
  have "33 \<le> code b \<and> code b \<le> 126" if "b \<in> set key" for b
  proof -
    have "\<not> sublist [char_of (32 :: nat)] key" using sp [OF space_in_spaces] by (simp add: find_sub_None)
    then have "b \<noteq> char_of (32 :: nat)" using that by (auto simp: sublist_def dest!: split_list)
    moreover have "char_of (code b) = b" by (simp add: code_def)
    ultimately have "code b \<noteq> 32" by metis
    moreover have "code b < 128" "\<not> (code b < 32 \<or> code b = 127)"
      using k(3,4) that by (auto simp: has_control_ascii list_all_iff list_ex_iff is_ascii_def)
    ultimately show ?thesis by simp
  qed
  then have "list_all (\<lambda>b. 33 \<le> code b \<and> code b \<le> 126) key" by (simp add: list_all_iff)
  moreover from this have "authorization_header key = Ok (''Bearer '' @ key)"
    by (auto simp: authorization_header_def header_value_from_str_def list_all_iff code_def)
  ultimately show "k = key \<and> key \<noteq> [] \<and> list_all (\<lambda>b. 33 \<le> code b \<and> code b \<le> 126) key \<and> authorization_header k = Ok (''Bearer '' @ k)"
    using k by simp
next
  assume *: "k = key \<and> key \<noteq> [] \<and> list_all (\<lambda>b. 33 \<le> code b \<and> code b \<le> 126) key \<and> authorization_header k = Ok (''Bearer '' @ k)"
  then have "\<not> surrounded key" "\<not> list_ex (\<lambda>w. find_sub w key \<noteq> None) unicode_spaces"
    using visible_no_space by (auto simp: surrounded_def list_ex_iff find_sub_None dest: prefix_imp_sublist suffix_imp_sublist)
  moreover from * have a: "list_all is_ascii key" by (auto simp: list_all_iff is_ascii_def)
  moreover from * have "\<not> has_control key" unfolding has_control_ascii [OF a] by (auto simp: list_all_iff list_ex_iff)
  ultimately show "api_key_new key = Ok k" using * by (simp add: api_key_new_def)
qed

end
