(* ===== verification/Mcp_Control.thy ===== *)
theory Mcp_Control
  imports Prelude State_Machine
begin

text \<open>
  The cancellation token of an MCP execution, \<^verbatim>\<open>crates/openai-rs-rmcp/src/control.rs\<close>, under concurrency: any
  number of threads call \<^verbatim>\<open>cancel\<close> or \<^verbatim>\<open>cancel_with_reason\<close>, any number of tasks wait in \<^verbatim>\<open>cancelled\<close>.
  Storing the reason (under its lock), the swap of the flag and the notification are separate steps, and so are
  the creation of the \<^verbatim>\<open>Notified\<close> future, the check of the flag and the wait.  \<^verbatim>\<open>Notify::notify_waiters\<close> wakes
  every future created before it: a future keeps the number of notifications at its creation and is ready
  once that number has changed.
\<close>

datatype cancel_phase = NotCancelling | StoringReason "bytes option" | Swapping "bytes option" | Notifying

datatype wait_phase = CreatingNotified | CheckingFlag nat | AwaitingNotified nat | WaitOver

text \<open>Ghost state: the argument of the call whose swap set the flag.\<close>

record cancellation_state =
  cs_cancelled :: bool
  cs_reason :: "bytes option"
  cs_notifications :: nat
  cs_cancellers :: "nat \<Rightarrow> cancel_phase"
  cs_waiters :: "nat \<Rightarrow> wait_phase"
  cs_winner :: "bytes option option"

definition cancellation_new :: cancellation_state where
  "cancellation_new =
     \<lparr>cs_cancelled = False, cs_reason = None, cs_notifications = 0, cs_cancellers = (\<lambda>_. NotCancelling),
      cs_waiters = (\<lambda>_. CreatingNotified), cs_winner = None\<rparr>"

definition set_canceller :: "nat \<Rightarrow> cancel_phase \<Rightarrow> cancellation_state \<Rightarrow> cancellation_state" where
  "set_canceller i p s = s\<lparr>cs_cancellers := (cs_cancellers s)(i := p)\<rparr>"

text \<open>The next step of a \<^verbatim>\<open>cancel_inner\<close> in progress.\<close>

definition cancel_inner_step :: "nat \<Rightarrow> cancellation_state \<Rightarrow> cancellation_state" where
  "cancel_inner_step i s =
     (case cs_cancellers s i of
        NotCancelling \<Rightarrow> s
      | StoringReason r \<Rightarrow>
          set_canceller i (Swapping r)
            (case r of
               Some reason \<Rightarrow> if cs_reason s = None then s\<lparr>cs_reason := Some reason\<rparr> else s
             | None \<Rightarrow> s)
      | Swapping r \<Rightarrow>
          if \<not> cs_cancelled s then set_canceller i Notifying (s\<lparr>cs_cancelled := True, cs_winner := Some r\<rparr>)
          else set_canceller i NotCancelling s
      | Notifying \<Rightarrow> set_canceller i NotCancelling (s\<lparr>cs_notifications := cs_notifications s + 1\<rparr>))"

text \<open>The next step of the loop of \<^verbatim>\<open>cancelled\<close>.\<close>

definition wait_step :: "nat \<Rightarrow> cancellation_state \<Rightarrow> cancellation_state" where
  "wait_step w s =
     s\<lparr>cs_waiters := (cs_waiters s)(w :=
        (case cs_waiters s w of
           CreatingNotified \<Rightarrow> CheckingFlag (cs_notifications s)
         | CheckingFlag k \<Rightarrow> if cs_cancelled s then WaitOver else AwaitingNotified k
         | AwaitingNotified k \<Rightarrow> if cs_notifications s \<noteq> k then CreatingNotified else AwaitingNotified k
         | WaitOver \<Rightarrow> WaitOver))\<rparr>"

inductive cancellation_step :: "cancellation_state \<Rightarrow> cancellation_state \<Rightarrow> bool" where
  begin_cancel: "cs_cancellers s i = NotCancelling \<Longrightarrow> cancellation_step s (set_canceller i (StoringReason r) s)"
| go_cancel: "cancellation_step s (cancel_inner_step i s)"
| go_wait: "cancellation_step s (wait_step w s)"

inductive_cases cancellation_stepE: "cancellation_step s s'"

section \<open>Invariant\<close>

text \<open>
  The flag is set by one call, which notifies once; whoever is past storing a reason has left one in the
  slot; a waiting future was created before the notification.
\<close>

definition notifying_set :: "cancellation_state \<Rightarrow> nat set" where
  "notifying_set s = {i. cs_cancellers s i = Notifying}"

definition flag_inv :: "cancellation_state \<Rightarrow> bool" where
  "flag_inv s \<longleftrightarrow>
     (if cs_cancelled s
      then (\<exists>i. notifying_set s = {i}) \<and> cs_notifications s = 0 \<or> notifying_set s = {} \<and> cs_notifications s = 1
      else notifying_set s = {} \<and> cs_notifications s = 0 \<and> cs_winner s = None)"

definition reason_inv :: "cancellation_state \<Rightarrow> bool" where
  "reason_inv s \<longleftrightarrow>
     cs_reason s = None \<longrightarrow> (\<forall>i r. cs_cancellers s i \<noteq> Swapping (Some r)) \<and> (\<forall>r. cs_winner s \<noteq> Some (Some r))"

definition wait_inv :: "cancellation_state \<Rightarrow> bool" where
  "wait_inv s \<longleftrightarrow>
     (\<forall>w. case cs_waiters s w of
        AwaitingNotified k \<Rightarrow> k = 0
      | CheckingFlag k \<Rightarrow> cs_cancelled s \<or> k = 0
      | WaitOver \<Rightarrow> cs_cancelled s
      | CreatingNotified \<Rightarrow> True)"

definition cancellation_inv :: "cancellation_state \<Rightarrow> bool" where
  "cancellation_inv s \<longleftrightarrow> flag_inv s \<and> reason_inv s \<and> wait_inv s"

lemma set_canceller_simps [simp]:
  "cs_cancelled (set_canceller i p s) = cs_cancelled s" "cs_reason (set_canceller i p s) = cs_reason s"
  "cs_notifications (set_canceller i p s) = cs_notifications s" "cs_winner (set_canceller i p s) = cs_winner s"
  "cs_waiters (set_canceller i p s) = cs_waiters s" "cs_cancellers (set_canceller i p s) = (cs_cancellers s)(i := p)"
  "notifying_set (set_canceller i p s) = (if p = Notifying then insert i (notifying_set s) else notifying_set s - {i})"
  by (auto simp: set_canceller_def notifying_set_def)

lemma notifying_set_update [simp]:
  "notifying_set (s\<lparr>cs_reason := a\<rparr>) = notifying_set s" "notifying_set (s\<lparr>cs_notifications := n\<rparr>) = notifying_set s"
  "notifying_set (s\<lparr>cs_cancelled := b, cs_winner := c\<rparr>) = notifying_set s"
  by (simp_all add: notifying_set_def)

lemma cancellation_inv_wait: "cancellation_inv s \<Longrightarrow> cancellation_inv (wait_step w s)"
  by (auto simp: cancellation_inv_def flag_inv_def reason_inv_def wait_inv_def wait_step_def notifying_set_def
      split: wait_phase.splits if_splits)

lemma cancellation_inv_begin:
  "cancellation_inv s \<Longrightarrow> cs_cancellers s i = NotCancelling \<Longrightarrow> cancellation_inv (set_canceller i (StoringReason r) s)"
proof -
  assume inv: "cancellation_inv s" and i: "cs_cancellers s i = NotCancelling"
  have "i \<notin> notifying_set s" using i by (simp add: notifying_set_def)
  with inv show ?thesis unfolding cancellation_inv_def flag_inv_def reason_inv_def wait_inv_def set_canceller_simps
    by (simp split: if_splits)
qed

lemma flag_inv_cancel: "flag_inv s \<Longrightarrow> flag_inv (cancel_inner_step i s)"
proof (cases "cs_cancellers s i")
  case Notifying
  then have "i \<in> notifying_set s" by (simp add: notifying_set_def)
  moreover assume "flag_inv s"
  ultimately show ?thesis using Notifying by (auto simp: flag_inv_def cancel_inner_step_def split: if_splits)
next
  case (StoringReason r)
  then have "i \<notin> notifying_set s" by (simp add: notifying_set_def)
  moreover assume "flag_inv s"
  ultimately show ?thesis using StoringReason by (cases r) (auto simp: flag_inv_def cancel_inner_step_def)
next
  case (Swapping r)
  then have "i \<notin> notifying_set s" by (simp add: notifying_set_def)
  moreover assume "flag_inv s"
  ultimately show ?thesis using Swapping by (auto simp: flag_inv_def cancel_inner_step_def)
qed (simp add: cancel_inner_step_def)

lemma reason_inv_cancel: "reason_inv s \<Longrightarrow> reason_inv (cancel_inner_step i s)"
  unfolding reason_inv_def cancel_inner_step_def
  by (auto split: cancel_phase.splits option.splits) (metis option.exhaust)

lemma wait_inv_cancel: "wait_inv s \<Longrightarrow> wait_inv (cancel_inner_step i s)"
  by (auto simp: wait_inv_def cancel_inner_step_def split: cancel_phase.splits wait_phase.splits option.splits)

interpretation cancellation: machine_invariant cancellation_new cancellation_step cancellation_inv
proof
  show "cancellation_inv cancellation_new"
    by (simp add: cancellation_inv_def flag_inv_def reason_inv_def wait_inv_def notifying_set_def cancellation_new_def)
  fix s s' assume "cancellation_inv s" "cancellation_step s s'"
  then show "cancellation_inv s'"
    by (auto elim!: cancellation_stepE intro: cancellation_inv_wait cancellation_inv_begin)
      (simp add: cancellation_inv_def flag_inv_cancel reason_inv_cancel wait_inv_cancel)
qed

lemma reason_kept: "cancellation_step s s' \<Longrightarrow> cs_reason s = Some r \<Longrightarrow> cs_reason s' = Some r"
  by (erule cancellation_stepE)
    (auto simp: cancel_inner_step_def wait_step_def split: cancel_phase.splits option.splits)

section \<open>Property\<close>

text \<open>
  Cancellation is observed, and with its reason.  In every interleaving: once the flag is set and the call that
  set it has notified, every waiting task returns after at most three of its own steps; it returns only when
  the token is cancelled; and if the call that cancelled the token gave a reason, a reason is stored, and the
  one that is stored never changes.
\<close>

theorem cancellation_observed:
  assumes "reach cancellation_new cancellation_step s"
  shows "(cs_cancelled s \<and> (\<forall>i. cs_cancellers s i \<noteq> Notifying) \<longrightarrow> cs_waiters ((wait_step w ^^ 3) s) w = WaitOver)
    \<and> (cs_waiters s w = WaitOver \<longrightarrow> cs_cancelled s)
    \<and> (cs_winner s = Some (Some r) \<longrightarrow> cs_reason s \<noteq> None)
    \<and> (cs_reason s = Some x \<longrightarrow> cancellation_step s s' \<longrightarrow> cs_reason s' = Some x)"
proof -
  have inv: "cancellation_inv s" by (rule cancellation.reach_inv [OF assms])
  have "cs_waiters ((wait_step w ^^ 3) s) w = WaitOver" if "cs_cancelled s" "\<forall>i. cs_cancellers s i \<noteq> Notifying"
  proof -
    have "cs_notifications s = 1" using inv that by (auto simp: cancellation_inv_def flag_inv_def notifying_set_def)
    moreover have "case cs_waiters s w of AwaitingNotified k \<Rightarrow> k = 0 | _ \<Rightarrow> True"
      using inv by (auto simp: cancellation_inv_def wait_inv_def split: wait_phase.splits)
    ultimately show ?thesis using that(1) by (auto simp: wait_step_def numeral_3_eq_3 split: wait_phase.splits)
  qed
  moreover have "cs_waiters s w = WaitOver \<Longrightarrow> cs_cancelled s"
    using inv by (auto simp: cancellation_inv_def wait_inv_def split: wait_phase.splits)
  ultimately show ?thesis using inv reason_kept [of s s' x] by (auto simp: cancellation_inv_def reason_inv_def)
qed

definition cancelled_with_reason :: cancellation_state where
  "cancelled_with_reason =
     (cancel_inner_step 0 ^^ 3) (set_canceller 0 (StoringReason (Some ''stop'')) ((wait_step 7 ^^ 2) cancellation_new))"

theorem cancellation_observed_witness:
  "cs_waiters cancelled_with_reason 7 = AwaitingNotified 0
   \<and> cs_waiters ((wait_step 7 ^^ 3) cancelled_with_reason) 7 = WaitOver \<and> cs_reason cancelled_with_reason \<noteq> None"
proof -
  have "reach cancellation_new cancellation_step cancelled_with_reason"
    unfolding cancelled_with_reason_def numeral_3_eq_3 numeral_2_eq_2
    by (simp, intro reach_step [where step = cancellation_step, OF _ go_cancel]
      reach_step [where step = cancellation_step, OF _ begin_cancel]
      reach_step [where step = cancellation_step, OF _ go_wait] reach_init)
      (simp add: wait_step_def cancellation_new_def)
  from cancellation_observed [OF this, of 7 "''stop''"] show ?thesis
    by (simp add: cancelled_with_reason_def cancel_inner_step_def set_canceller_def wait_step_def cancellation_new_def
        numeral_3_eq_3 numeral_2_eq_2)
qed

end
