(* ===== verification/Mcp_Catalog.thy ===== *)
theory Mcp_Catalog
  imports Tool_Registry "HOL-Library.List_Lexorder"
begin

text \<open>
  The frozen catalog of locally executed MCP tools, \<^verbatim>\<open>crates/openai-rs-rmcp/src/catalog.rs\<close>: tool names of the
  server are mapped to function names that the Responses service accepts, and back.

  An MCP tool declaration (\<^verbatim>\<open>rmcp::model::Tool\<close>) is its name, description, title and input schema; what else it
  carries is not read.  SHA-256 is a parameter.  A \<^verbatim>\<open>HashSet\<close> is a set, a \<^verbatim>\<open>HashMap\<close> a map.
\<close>

definition MAX_FUNCTION_NAME_BYTES :: nat where "MAX_FUNCTION_NAME_BYTES = MAX_FUNCTION_TOOL_NAME_CHARS"
definition HASH_BYTES :: nat where "HASH_BYTES = 8"
definition HASH_HEX_BYTES :: nat where "HASH_HEX_BYTES = HASH_BYTES * 2"
definition HASH_SEPARATOR_BYTES :: nat where "HASH_SEPARATOR_BYTES = 2"
definition MAX_MAPPED_PREFIX_BYTES :: nat where
  "MAX_MAPPED_PREFIX_BYTES = MAX_FUNCTION_NAME_BYTES - HASH_SEPARATOR_BYTES - HASH_HEX_BYTES"

lemmas name_bounds = MAX_FUNCTION_NAME_BYTES_def HASH_BYTES_def HASH_HEX_BYTES_def HASH_SEPARATOR_BYTES_def
  MAX_MAPPED_PREFIX_BYTES_def MAX_FUNCTION_TOOL_NAME_CHARS_def

datatype tool_name_policy = MapInvalid | RejectInvalid

datatype schema_policy = RequireObject | NormalizeObject | Preserve

record catalog_policy =
  cp_names :: tool_name_policy
  cp_schemas :: schema_policy

definition catalog_policy_default :: catalog_policy where
  "catalog_policy_default = \<lparr>cp_names = MapInvalid, cp_schemas = NormalizeObject\<rparr>"

record mcp_tool =
  mt_name :: bytes
  mt_description :: "bytes option"
  mt_title :: "bytes option"
  mt_input_schema :: json_map

record catalog_entry =
  openai_name :: bytes
  ce_tool :: mcp_tool
  ce_parameters :: json_map

definition mcp_name :: "catalog_entry \<Rightarrow> bytes" where "mcp_name e = mt_name (ce_tool e)"

record tool_catalog =
  cat_entries :: "catalog_entry list"
  by_openai_name :: "bytes \<Rightarrow> nat option"

text \<open>The errors of \<^verbatim>\<open>crates/openai-rs-rmcp/src/error.rs\<close>; some variants carry longer names.\<close>

datatype service_error =
    ServiceTimeout duration
  | ServiceCancelled "bytes option"
  | TransportSend bytes
  | TransportClosed
  | UnexpectedResponse
  | OtherServiceError bytes

datatype bridge_error =
    InvalidToolName bytes
  | DuplicateToolName bytes
  | InvalidSchema bytes bytes
  | UnknownFunction bytes
  | InvalidJsonArguments bytes
  | ArgumentsMustBeObject
  | SerializeOutput bytes
  | TransportFailure service_error
  | ProtocolFailure service_error
  | ExecutionTimeout duration
  | ExecutionCancelled "bytes option"
  | ExecutorFailure bytes
  | UnsupportedResult bytes

section \<open>Names\<close>

definition is_name_byte :: "byte \<Rightarrow> bool" where
  "is_name_byte b \<longleftrightarrow> is_ascii_alphanumeric b \<or> b = CHR ''_'' \<or> b = CHR ''-''"

definition is_valid_function_name :: "bytes \<Rightarrow> bool" where
  "is_valid_function_name name \<longleftrightarrow>
     name \<noteq> [] \<and> length name \<le> MAX_FUNCTION_NAME_BYTES \<and> list_all is_name_byte name"

text \<open>The loop of \<^verbatim>\<open>mapped_name\<close> over the bytes of the original name.\<close>

fun mapped_prefix :: "bytes \<Rightarrow> bytes \<Rightarrow> bool \<Rightarrow> bytes" where
  "mapped_prefix [] pre previous_was_separator = pre"
| "mapped_prefix (b # bs) pre previous_was_separator =
     (let mapped = (if is_name_byte b then b else CHR ''_'')
      in if mapped = CHR ''_'' \<and> previous_was_separator then mapped_prefix bs pre previous_was_separator
         else if length pre = MAX_MAPPED_PREFIX_BYTES then pre
         else mapped_prefix bs (pre @ [mapped]) (mapped = CHR ''_''))"

definition trim_matches :: "('a \<Rightarrow> bool) \<Rightarrow> 'a list \<Rightarrow> 'a list" where
  "trim_matches P xs = rev (dropWhile P (rev (dropWhile P xs)))"

definition hex_digit :: "nat \<Rightarrow> byte" where
  "hex_digit n = (if n < 10 then char_of (48 + n) else char_of (87 + n))"

text \<open>The format \<^verbatim>\<open>{byte:02x}\<close>, and \<^verbatim>\<open>u64::to_be_bytes\<close>.\<close>

definition hex_byte :: "byte \<Rightarrow> bytes" where
  "hex_byte b = [hex_digit (code b div 16), hex_digit (code b mod 16)]"

definition to_be_bytes :: "nat \<Rightarrow> bytes" where
  "to_be_bytes n = map (\<lambda>i. char_of (n div 256 ^ i mod 256)) [7, 6, 5, 4, 3, 2, 1, 0]"

definition hash_suffix :: "(bytes \<Rightarrow> bytes) \<Rightarrow> bytes \<Rightarrow> nat \<Rightarrow> bytes" where
  "hash_suffix sha256 original nonce = concat (map hex_byte (take HASH_BYTES (sha256 (original @ to_be_bytes nonce))))"

definition mapped_name :: "(bytes \<Rightarrow> bytes) \<Rightarrow> bytes \<Rightarrow> nat \<Rightarrow> bytes" where
  "mapped_name sha256 original nonce =
     (let trimmed = trim_matches (\<lambda>b. b = CHR ''_'' \<or> b = CHR ''-'') (mapped_prefix original [] False);
          pre = (if trimmed = [] then ''mcp_tool'' else trimmed)
      in pre @ ''__'' @ hash_suffix sha256 original nonce)"

text \<open>The loop over the 64-bit nonces; \<open>None\<close> is the panic when all of them are taken.\<close>

function unique_from :: "(bytes \<Rightarrow> bytes) \<Rightarrow> bytes \<Rightarrow> bytes set \<Rightarrow> nat \<Rightarrow> (bytes \<times> bytes set) option" where
  "unique_from sha256 original used nonce =
     (if 2 ^ 64 \<le> nonce then None
      else let candidate = mapped_name sha256 original nonce
           in if candidate \<notin> used then Some (candidate, insert candidate used)
              else unique_from sha256 original used (nonce + 1))"
  by pat_completeness auto
termination
  by (relation "measure (\<lambda>(_, _, _, nonce). 2 ^ 64 - nonce)") auto

declare unique_from.simps [simp del]

definition unique_mapped_name :: "(bytes \<Rightarrow> bytes) \<Rightarrow> bytes \<Rightarrow> bytes set \<Rightarrow> (bytes \<times> bytes set) option" where
  "unique_mapped_name sha256 original used = unique_from sha256 original used 0"

section \<open>The catalog\<close>

definition adapt_schema :: "mcp_tool \<Rightarrow> schema_policy \<Rightarrow> (bridge_error, json_map) result" where
  "adapt_schema tool policy =
     (let schema = mt_input_schema tool; root_type = map_of schema ''type''
      in case policy of
           Preserve \<Rightarrow> Ok schema
         | RequireObject \<Rightarrow>
             if root_type = Some (JString ''object'') then Ok schema
             else Err (InvalidSchema (mt_name tool) ''root schema must declare type `object`'')
         | NormalizeObject \<Rightarrow>
             if root_type = None then Ok (obj_insert ''type'' (JString ''object'') schema)
             else if root_type = Some (JString ''object'') then Ok schema
             else Err (InvalidSchema (mt_name tool) ''root schema explicitly declares a non-object type''))"

text \<open>The check for duplicates: the first name that is there already.\<close>

fun first_duplicate :: "bytes list \<Rightarrow> bytes set \<Rightarrow> bytes option" where
  "first_duplicate [] seen = None"
| "first_duplicate (n # ns) seen = (if n \<in> seen then Some n else first_duplicate ns (insert n seen))"

definition openai_name_for ::
    "(bytes \<Rightarrow> bytes) \<Rightarrow> tool_name_policy \<Rightarrow> bytes \<Rightarrow> bytes set \<Rightarrow> (bridge_error, bytes \<times> bytes set) result option" where
  "openai_name_for sha256 policy name used =
     (if is_valid_function_name name then Some (Ok (name, used))
      else case policy of
        RejectInvalid \<Rightarrow> Some (Err (InvalidToolName name))
      | MapInvalid \<Rightarrow> map_option Ok (unique_mapped_name sha256 name used))"

text \<open>The second loop of \<^verbatim>\<open>ToolCatalog::build\<close>, from the tools that are left and the entries made so far.\<close>

fun add_entries ::
    "(bytes \<Rightarrow> bytes) \<Rightarrow> catalog_policy \<Rightarrow> mcp_tool list \<Rightarrow> bytes set \<Rightarrow> tool_catalog \<Rightarrow>
       (bridge_error, tool_catalog) result option" where
  "add_entries sha256 policy [] used cat = Some (Ok cat)"
| "add_entries sha256 policy (tool # ts) used cat =
     (case openai_name_for sha256 (cp_names policy) (mt_name tool) used of
        None \<Rightarrow> None
      | Some (Err e) \<Rightarrow> Some (Err e)
      | Some (Ok (name, used')) \<Rightarrow>
          (case adapt_schema tool (cp_schemas policy) of
             Err e \<Rightarrow> Some (Err e)
           | Ok ps \<Rightarrow>
               add_entries sha256 policy ts used'
                 \<lparr>cat_entries = cat_entries cat @ [\<lparr>openai_name = name, ce_tool = tool, ce_parameters = ps\<rparr>],
                  by_openai_name = (by_openai_name cat)(name \<mapsto> length (cat_entries cat))\<rparr>))"

definition catalog_default :: tool_catalog where
  "catalog_default = \<lparr>cat_entries = [], by_openai_name = (\<lambda>_. None)\<rparr>"

definition build ::
    "(bytes \<Rightarrow> bytes) \<Rightarrow> mcp_tool list \<Rightarrow> catalog_policy \<Rightarrow> (bridge_error, tool_catalog) result option" where
  "build sha256 unsorted policy =
     (let ts = sort_key mt_name unsorted
      in case first_duplicate (map mt_name ts) {} of
           Some name \<Rightarrow> Some (Err (DuplicateToolName name))
         | None \<Rightarrow>
             add_entries sha256 policy ts (set (filter is_valid_function_name (map mt_name ts))) catalog_default)"

definition resolve_name :: "tool_catalog \<Rightarrow> bytes \<Rightarrow> catalog_entry option" where
  "resolve_name cat name =
     Option.bind (by_openai_name cat name)
       (\<lambda>i. if i < length (cat_entries cat) then Some (cat_entries cat ! i) else None)"

definition entry_function_tool :: "catalog_entry \<Rightarrow> function_tool" where
  "entry_function_tool e =
     (let function = (function_tool_new (openai_name e))\<lparr>ft_parameters := Present (NonNull (JObject (ce_parameters e)))\<rparr>
      in case (case mt_description (ce_tool e) of Some d \<Rightarrow> Some d | None \<Rightarrow> mt_title (ce_tool e)) of
           Some d \<Rightarrow> function\<lparr>ft_description := Present (NonNull d)\<rparr>
         | None \<Rightarrow> function)"

definition catalog_function_tools :: "tool_catalog \<Rightarrow> function_tool list" where
  "catalog_function_tools cat = map entry_function_tool (cat_entries cat)"

end
