(* ===== verification/Mcp_Bridge.thy ===== *)
theory Mcp_Bridge
  imports Mcp_Catalog Json_Number
begin

text \<open>
  The bridge from Responses function calls to MCP tools, \<^verbatim>\<open>crates/openai-rs-rmcp/src\<close>: the argument parser
  (\<^verbatim>\<open>arguments.rs\<close>), the result encoding (\<^verbatim>\<open>result.rs\<close>), the executor over an RMCP peer with its deadline and
  cancellation (\<^verbatim>\<open>executor.rs\<close>, \<^verbatim>\<open>control.rs\<close>), and the dispatch of a call (\<^verbatim>\<open>bridge.rs\<close>).

  An execution is a function of what its environment does and when: at which instant the token is cancelled,
  when the peer's queue accepts the request, when it answers.  \<open>None\<close> stands for an execution that never returns.
\<close>

section \<open>Arguments\<close>

text \<open>\<^verbatim>\<open>str::trim\<close> leaves nothing: the text is a sequence of Unicode white-space characters.\<close>

fun is_blank :: "bytes \<Rightarrow> bool" where
  "is_blank [] = True"
| "is_blank (a # bs) =
     (if code a \<in> {9, 10, 11, 12, 13, 32} then is_blank bs
      else case bs of
        b # cs \<Rightarrow>
          if code a = 194 \<and> code b \<in> {133, 160} then is_blank cs
          else (case cs of
            c # ds \<Rightarrow>
              if code a = 225 \<and> code b = 154 \<and> code c = 128
                 \<or> code a = 226 \<and> code b = 128 \<and> (code c \<in> {128..138} \<or> code c \<in> {168, 169, 175})
                 \<or> code a = 226 \<and> code b = 129 \<and> code c = 159
                 \<or> code a = 227 \<and> code b = 128 \<and> code c = 128
              then is_blank ds else False
          | [] \<Rightarrow> False)
      | [] \<Rightarrow> False)"

definition parse_function_arguments ::
    "(bytes \<Rightarrow> (bytes, json) result) \<Rightarrow> bytes \<Rightarrow> (bridge_error, json_map) result" where
  "parse_function_arguments from_str arguments =
     (if is_blank arguments then Ok []
      else res_bind (map_err InvalidJsonArguments (from_str arguments)) (\<lambda>v.
        case v of JObject m \<Rightarrow> Ok m | _ \<Rightarrow> Err ArgumentsMustBeObject))"

section \<open>Results\<close>

text \<open>
  A call result of the peer.  Content blocks are values of the \<^verbatim>\<open>rmcp\<close> crate: the codec gives the text of a text
  block and the two directions of their serialization, and the JSON printer and reader.
\<close>

record 'b call_tool_result =
  cr_content :: "'b list"
  cr_structured :: "json option"
  cr_is_error :: "bool option"
  cr_result_type :: "bytes option"
  cr_meta :: "json_map option"

record 'b result_codec =
  block_text :: "'b \<Rightarrow> bytes option"
  block_serialize :: "'b \<Rightarrow> json"
  block_deserialize :: "json \<Rightarrow> (bytes, 'b) result"
  rc_to_string :: "json \<Rightarrow> (bytes, bytes) result"
  rc_from_str :: "bytes \<Rightarrow> (bytes, json) result"

datatype result_encoding = LosslessEnvelope | CompactWhenPossible

record 'b tool_result_envelope =
  env_content :: "'b list"
  env_structured :: "json option"
  env_is_error :: bool
  env_result_type :: "bytes option"
  env_meta :: "json_map option"

definition from_rmcp :: "'b call_tool_result \<Rightarrow> 'b tool_result_envelope" where
  "from_rmcp r =
     \<lparr>env_content = cr_content r, env_structured = cr_structured r,
      env_is_error = (case cr_is_error r of Some b \<Rightarrow> b | None \<Rightarrow> False),
      env_result_type = cr_result_type r, env_meta = cr_meta r\<rparr>"

text \<open>The derived serialization (camel case, absent options skipped) and its inverse.\<close>

definition optional_member :: "bytes \<Rightarrow> json option \<Rightarrow> json_map" where
  "optional_member k v = (case v of Some x \<Rightarrow> [(k, x)] | None \<Rightarrow> [])"

definition envelope_serialize :: "'b result_codec \<Rightarrow> 'b tool_result_envelope \<Rightarrow> json" where
  "envelope_serialize c e =
     JObject
       ([(''content'', JArray (map (block_serialize c) (env_content e)))]
        @ optional_member ''structuredContent'' (env_structured e)
        @ [(''isError'', JBool (env_is_error e))]
        @ optional_member ''resultType'' (map_option JString (env_result_type e))
        @ optional_member ''_meta'' (map_option JObject (env_meta e)))"

fun all_results :: "('a \<Rightarrow> ('e, 'b) result) \<Rightarrow> 'a list \<Rightarrow> ('e, 'b list) result" where
  "all_results f [] = Ok []"
| "all_results f (x # xs) = res_bind (f x) (\<lambda>y. res_bind (all_results f xs) (\<lambda>ys. Ok (y # ys)))"

definition optional_field :: "(json \<Rightarrow> 'a option) \<Rightarrow> json_map \<Rightarrow> bytes \<Rightarrow> (bytes, 'a option) result" where
  "optional_field view m k =
     (case map_of m k of
        None \<Rightarrow> Ok None
      | Some JNull \<Rightarrow> Ok None
      | Some v \<Rightarrow> (case view v of Some x \<Rightarrow> Ok (Some x) | None \<Rightarrow> Err (''invalid type: '' @ k)))"

definition envelope_deserialize :: "'b result_codec \<Rightarrow> json \<Rightarrow> (bytes, 'b tool_result_envelope) result" where
  "envelope_deserialize c v =
     (case v of
        JObject m \<Rightarrow>
          res_bind (ok_or (Option.bind (map_of m ''content'') as_array) ''content'') (\<lambda>xs.
          res_bind (all_results (block_deserialize c) xs) (\<lambda>blocks.
          res_bind (optional_field Some m ''structuredContent'') (\<lambda>structured.
          res_bind (ok_or (Option.bind (map_of m ''isError'') as_bool) ''isError'') (\<lambda>is_err.
          res_bind (optional_field as_str m ''resultType'') (\<lambda>rt.
          res_bind (optional_field as_object m ''_meta'') (\<lambda>mo.
            Ok \<lparr>env_content = blocks, env_structured = structured, env_is_error = is_err,
                env_result_type = rt, env_meta = mo\<rparr>))))))
      | _ \<Rightarrow> Err ''expected an object'')"

definition flattenable_structured_content :: "'b result_codec \<Rightarrow> 'b tool_result_envelope \<Rightarrow> json option" where
  "flattenable_structured_content c e =
     (case env_structured e of
        None \<Rightarrow> None
      | Some structured \<Rightarrow>
          if list_all (\<lambda>b. block_text c b \<noteq> None) (env_content e) then Some structured else None)"

record encoded_tool_result =
  enc_output :: bytes
  enc_is_error :: bool

definition encode_tool_result ::
    "'b result_codec \<Rightarrow> 'b call_tool_result \<Rightarrow> result_encoding \<Rightarrow> (bridge_error, encoded_tool_result) result" where
  "encode_tool_result c r policy =
     (let envelope = from_rmcp r;
          is_err = env_is_error envelope;
          lossless = map_err SerializeOutput (rc_to_string c (envelope_serialize c envelope))
      in res_bind
           (if policy = CompactWhenPossible \<and> \<not> is_err then
              (case flattenable_structured_content c envelope of
                 Some structured \<Rightarrow> map_err SerializeOutput (rc_to_string c structured)
               | None \<Rightarrow>
                   (case map (block_text c) (env_content envelope) of
                      [Some text] \<Rightarrow> Ok text
                    | _ \<Rightarrow> lossless))
            else lossless)
           (\<lambda>s. Ok \<lparr>enc_output = s, enc_is_error = is_err\<rparr>))"

section \<open>Deadlines and cancellation\<close>

text \<open>
  A token as the execution sees it, with instants counted from the start of the call: when it is cancelled, if
  ever, and the reason that is stored at an instant.
\<close>

record token_view =
  tk_cancelled_at :: "nat option"
  tk_reason :: "nat \<Rightarrow> bytes option"

record execution_control =
  ec_timeout :: "duration option"
  ec_cancellation :: "token_view option"

definition unbounded :: execution_control where
  "unbounded = \<lparr>ec_timeout = None, ec_cancellation = None\<rparr>"

definition is_cancelled_at :: "token_view \<Rightarrow> nat \<Rightarrow> bool" where
  "is_cancelled_at tk now = (case tk_cancelled_at tk of Some c \<Rightarrow> c \<le> now | None \<Rightarrow> False)"

definition wait_for_cancellation :: "execution_control \<Rightarrow> nat option" where
  "wait_for_cancellation control = Option.bind (ec_cancellation control) tk_cancelled_at"

definition wait_for_timeout :: "execution_control \<Rightarrow> nat option" where
  "wait_for_timeout control = ec_timeout control"

definition stored_reason :: "execution_control \<Rightarrow> nat \<Rightarrow> bytes option" where
  "stored_reason control now = Option.bind (ec_cancellation control) (\<lambda>tk. tk_reason tk now)"

definition timeout_or_default :: "execution_control \<Rightarrow> duration" where
  "timeout_or_default control = (case ec_timeout control of Some d \<Rightarrow> d | None \<Rightarrow> 0)"

definition preflight_control :: "execution_control \<Rightarrow> (bridge_error, unit) result" where
  "preflight_control control =
     (if (case ec_cancellation control of Some tk \<Rightarrow> is_cancelled_at tk 0 | None \<Rightarrow> False)
      then Err (ExecutionCancelled (stored_reason control 0))
      else if ec_timeout control = Some 0 then Err (ExecutionTimeout 0)
      else Ok ())"

text \<open>
  \<^verbatim>\<open>tokio::select!\<close> with \<^verbatim>\<open>biased\<close>: the branch that is ready first, and among those ready at the same
  instant the one that is written first; \<open>None\<close> if no branch is ever ready.
\<close>

fun select_biased :: "nat \<Rightarrow> (nat option \<times> 'a) list \<Rightarrow> (nat \<times> 'a) option" where
  "select_biased start [] = None"
| "select_biased start ((ready, x) # branches) =
     (case (ready, select_biased start branches) of
        (None, rest) \<Rightarrow> rest
      | (Some t, None) \<Rightarrow> Some (max start t, x)
      | (Some t, Some (u, y)) \<Rightarrow> if max start t \<le> u then Some (max start t, x) else Some (u, y))"

section \<open>The RMCP executor\<close>

definition from_service :: "service_error \<Rightarrow> bridge_error" where
  "from_service source =
     (case source of
        ServiceTimeout d \<Rightarrow> ExecutionTimeout d
      | ServiceCancelled reason \<Rightarrow> ExecutionCancelled reason
      | TransportSend _ \<Rightarrow> TransportFailure source
      | TransportClosed \<Rightarrow> TransportFailure source
      | _ \<Rightarrow> ProtocolFailure source)"

definition CANCEL_DELIVERY_TIMEOUT :: duration where "CANCEL_DELIVERY_TIMEOUT = from_secs 1"

datatype 'b server_result =
    CallToolResult "'b call_tool_result"
  | InputRequiredResult
  | CreateTaskResult
  | OtherServerResult

text \<open>
  What the peer does with one request: when its queue accepts it (or fails), when the response channel
  delivers (its sender may be dropped), and how long the delivery of a cancellation takes.
\<close>

record 'b peer_env =
  pe_enqueue :: "(nat \<times> (service_error, unit) result) option"
  pe_response :: "(nat \<times> (unit, (service_error, 'b server_result) result) result) option"
  pe_cancel_delivery :: "nat option"

datatype peer_io =
    RequestQueued nat bytes json_map
  | CancelNotified nat "bytes option"

datatype race = RaceCancelled | RaceTimeout | RaceCompleted

definition tool_response ::
    "(unit, (service_error, 'b server_result) result) result \<Rightarrow> (bridge_error, 'b call_tool_result) result" where
  "tool_response response =
     res_bind (map_err (\<lambda>_. from_service TransportClosed) response) (\<lambda>inner.
     res_bind (map_err from_service inner) (\<lambda>result.
       case result of
         CallToolResult r \<Rightarrow> Ok r
       | InputRequiredResult \<Rightarrow> Err (UnsupportedResult ''input_required'')
       | CreateTaskResult \<Rightarrow> Err (UnsupportedResult ''task'')
       | OtherServerResult \<Rightarrow> Err (from_service UnexpectedResponse)))"

text \<open>\<^verbatim>\<open>tokio::time::timeout\<close> around the delivery: the instant at which waiting for it ends.\<close>

definition delivery_done :: "'b peer_env \<Rightarrow> nat \<Rightarrow> nat" where
  "delivery_done env now =
     now + (case pe_cancel_delivery env of Some d \<Rightarrow> min d CANCEL_DELIVERY_TIMEOUT | None \<Rightarrow> CANCEL_DELIVERY_TIMEOUT)"

definition await_response ::
    "'b peer_env \<Rightarrow> execution_control \<Rightarrow> nat \<Rightarrow>
       (nat \<times> peer_io list \<times> (bridge_error, 'b call_tool_result) result) option" where
  "await_response env control queued =
     (case select_biased queued
         [(map_option fst (pe_response env), RaceCompleted), (wait_for_cancellation control, RaceCancelled),
          (wait_for_timeout control, RaceTimeout)] of
        None \<Rightarrow> None
      | Some (now, RaceCompleted) \<Rightarrow>
          Some (now, [], tool_response (case pe_response env of Some (_, r) \<Rightarrow> r | None \<Rightarrow> Err ()))
      | Some (now, RaceCancelled) \<Rightarrow>
          (let reason = stored_reason control now
           in Some (delivery_done env now, [CancelNotified now reason], Err (ExecutionCancelled reason)))
      | Some (now, RaceTimeout) \<Rightarrow>
          Some (delivery_done env now, [CancelNotified now (Some ''openai-rs RMCP execution timeout'')],
                Err (ExecutionTimeout (timeout_or_default control))))"

definition call_cancellable ::
    "'b peer_env \<Rightarrow> bytes \<Rightarrow> json_map \<Rightarrow> execution_control \<Rightarrow>
       (nat \<times> peer_io list \<times> (bridge_error, 'b call_tool_result) result) option" where
  "call_cancellable env name arguments control =
     (case preflight_control control of
        Err e \<Rightarrow> Some (0, [], Err e)
      | Ok _ \<Rightarrow>
          (case select_biased 0
              [(wait_for_cancellation control, RaceCancelled), (wait_for_timeout control, RaceTimeout),
               (map_option fst (pe_enqueue env), RaceCompleted)] of
             None \<Rightarrow> None
           | Some (now, RaceCancelled) \<Rightarrow> Some (now, [], Err (ExecutionCancelled (stored_reason control now)))
           | Some (now, RaceTimeout) \<Rightarrow> Some (now, [], Err (ExecutionTimeout (timeout_or_default control)))
           | Some (now, RaceCompleted) \<Rightarrow>
               (case pe_enqueue env of
                  Some (_, Err e) \<Rightarrow> Some (now, [], Err (from_service e))
                | _ \<Rightarrow>
                    map_option (\<lambda>(t, io, r). (t, RequestQueued now name arguments # io, r))
                      (await_response env control now))))"

definition rmcp_list_tools ::
    "(nat \<times> (service_error, mcp_tool list) result) option \<Rightarrow> execution_control \<Rightarrow>
       (nat \<times> (bridge_error, mcp_tool list) result) option" where
  "rmcp_list_tools all control =
     (case preflight_control control of
        Err e \<Rightarrow> Some (0, Err e)
      | Ok _ \<Rightarrow>
          (case select_biased 0
              [(map_option fst all, RaceCompleted), (wait_for_cancellation control, RaceCancelled),
               (wait_for_timeout control, RaceTimeout)] of
             None \<Rightarrow> None
           | Some (now, RaceCompleted) \<Rightarrow>
               Some (now, map_err from_service (case all of Some (_, r) \<Rightarrow> r | None \<Rightarrow> Err TransportClosed))
           | Some (now, RaceCancelled) \<Rightarrow> Some (now, Err (ExecutionCancelled (stored_reason control now)))
           | Some (now, RaceTimeout) \<Rightarrow> Some (now, Err (ExecutionTimeout (timeout_or_default control)))))"

section \<open>Dispatch\<close>

text \<open>
  An executor answers a call with what it did to its peer and a result.  The trait is implemented by
  applications too, so dispatch takes it as an argument.
\<close>

type_synonym ('io, 'b) executor =
  "bytes \<Rightarrow> json_map \<Rightarrow> execution_control \<Rightarrow> ('io list \<times> (bridge_error, 'b call_tool_result) result) option"

definition rmcp_executor :: "'b peer_env \<Rightarrow> (peer_io, 'b) executor" where
  "rmcp_executor env name arguments control = map_option snd (call_cancellable env name arguments control)"

datatype dispatch_outcome = DispatchSuccess function_call_output | DispatchToolError function_call_output

definition dispatch_answer ::
    "'b result_codec \<Rightarrow> result_encoding \<Rightarrow> bytes \<Rightarrow> 'b call_tool_result \<Rightarrow> (bridge_error, dispatch_outcome) result" where
  "dispatch_answer c encoding call_id result =
     res_bind (encode_tool_result c result encoding) (\<lambda>encoded.
       let out = function_call_output_new call_id (enc_output encoded)
       in Ok (if enc_is_error encoded then DispatchToolError out else DispatchSuccess out))"

record bridge =
  br_catalog :: tool_catalog
  br_encoding :: result_encoding

definition dispatch_parts ::
    "'b result_codec \<Rightarrow> ('io, 'b) executor \<Rightarrow> bridge \<Rightarrow> bytes \<Rightarrow> bytes \<Rightarrow> bytes \<Rightarrow> execution_control \<Rightarrow>
       ('io list \<times> (bridge_error, dispatch_outcome) result) option" where
  "dispatch_parts c call_tool b call_id name arguments control =
     (case parse_function_arguments (rc_from_str c) arguments of
        Err e \<Rightarrow> Some ([], Err e)
      | Ok args \<Rightarrow>
          (case resolve_name (br_catalog b) name of
             None \<Rightarrow> Some ([], Err (UnknownFunction name))
           | Some binding \<Rightarrow>
               map_option (\<lambda>(io, r). (io, res_bind r (dispatch_answer c (br_encoding b) call_id)))
                 (call_tool (mcp_name binding) args control)))"

definition dispatch ::
    "'b result_codec \<Rightarrow> ('io, 'b) executor \<Rightarrow> bridge \<Rightarrow> function_call \<Rightarrow> execution_control \<Rightarrow>
       ('io list \<times> (bridge_error, dispatch_outcome) result) option" where
  "dispatch c call_tool b call control = dispatch_parts c call_tool b (fc_call_id call) (fc_name call) (fc_arguments call) control"

text \<open>\<^verbatim>\<open>discover\<close>: list the tools, freeze the catalog.  The outer option is that of listing, the inner one of building.\<close>

definition discover ::
    "(bytes \<Rightarrow> bytes) \<Rightarrow> (bridge_error, mcp_tool list) result \<Rightarrow> catalog_policy \<Rightarrow> (bridge_error, bridge) result option" where
  "discover sha256 listed policy =
     (case listed of
        Err e \<Rightarrow> Some (Err e)
      | Ok ts \<Rightarrow> map_option (map_sum id (\<lambda>cat. \<lparr>br_catalog = cat, br_encoding = LosslessEnvelope\<rparr>)) (build sha256 ts policy))"

end
