(* ===== verification/Mcp_Catalog_Correctness.thy ===== *)
theory Mcp_Catalog_Correctness
  imports Mcp_Catalog "HOL-Library.Multiset"
begin

text \<open>
  What the catalog guarantees: the exposed names are valid and distinct, every exposed name leads back to
  exactly the tool it stands for, the result does not depend on the order in which the server lists its
  tools, and building it ends.
\<close>

section \<open>Mapped names are valid names\<close>

lemma mapped_prefix_bounds:
  assumes "list_all is_name_byte pre" and "length pre \<le> MAX_MAPPED_PREFIX_BYTES"
  shows "list_all is_name_byte (mapped_prefix bs pre p) \<and> length (mapped_prefix bs pre p) \<le> MAX_MAPPED_PREFIX_BYTES"
  using assms
proof (induction bs pre p rule: mapped_prefix.induct)
  case (2 b bs pre p)
  let ?m = "if is_name_byte b then b else CHR ''_''"
  have m: "is_name_byte ?m" by (simp add: is_name_byte_def)
  show ?case
    using "2.prems" "2.IH"(1) [OF refl] "2.IH"(2) [OF refl] m
    by (simp add: Let_def split: if_split)
qed simp

lemma set_trim_matches: "set (trim_matches P xs) \<subseteq> set xs"
  by (auto simp: trim_matches_def dest!: set_dropWhileD)

lemma length_trim_matches: "length (trim_matches P xs) \<le> length xs"
proof -
  have "length (trim_matches P xs) \<le> length (dropWhile P xs)"
    unfolding trim_matches_def using length_dropWhile_le [of P "rev (dropWhile P xs)"] by simp
  also have "\<dots> \<le> length xs" by (rule length_dropWhile_le)
  finally show ?thesis .
qed

lemma hex_digit_name: "n < 16 \<Longrightarrow> is_name_byte (hex_digit n)"
  by (auto simp: hex_digit_def is_name_byte_def is_ascii_alphanumeric_def is_ascii_alphabetic_def is_ascii_digit_def
      code_def)

lemma hex_byte_name: "list_all is_name_byte (hex_byte b)" "length (hex_byte b) = 2"
  using code_less [of b] by (simp_all add: hex_byte_def hex_digit_name less_mult_imp_div_less)

lemma hash_suffix_name:
  "list_all is_name_byte (hash_suffix sha256 original nonce)" "length (hash_suffix sha256 original nonce) \<le> HASH_HEX_BYTES"
proof -
  have "length (concat (map hex_byte bs)) = 2 * length bs" for bs by (induction bs) (simp_all add: hex_byte_name(2))
  then show "length (hash_suffix sha256 original nonce) \<le> HASH_HEX_BYTES"
    by (simp add: hash_suffix_def HASH_HEX_BYTES_def)
  have "list_all is_name_byte (concat (map hex_byte bs))" for bs by (induction bs) (simp_all add: hex_byte_name(1))
  then show "list_all is_name_byte (hash_suffix sha256 original nonce)" by (simp add: hash_suffix_def)
qed

lemma mapped_name_valid: "is_valid_function_name (mapped_name sha256 original nonce)"
proof -
  let ?t = "trim_matches (\<lambda>b. b = CHR ''_'' \<or> b = CHR ''-'') (mapped_prefix original [] False)"
  have t: "list_all is_name_byte ?t" "length ?t \<le> MAX_MAPPED_PREFIX_BYTES"
    using mapped_prefix_bounds [of "[]" original False]
    by (auto simp: list_all_iff dest: set_mp [OF set_trim_matches] intro: order_trans [OF length_trim_matches])
  have "list_all is_name_byte ''mcp_tool__''" by code_simp
  then show ?thesis
    using t hash_suffix_name [of sha256 original nonce]
    by (auto simp: mapped_name_def is_valid_function_name_def Let_def name_bounds)
qed

lemma unique_from_Some:
  "unique_from sha256 original used nonce = Some (c, used') \<Longrightarrow>
     c \<notin> used \<and> used' = insert c used \<and> is_valid_function_name c"
proof (induction sha256 original used nonce rule: unique_from.induct)
  case (1 sha256 original used nonce)
  from "1.prems" "1.IH" show ?case
    by (subst (asm) unique_from.simps) (auto simp: Let_def mapped_name_valid split: if_splits)
qed

section \<open>The loop invariant\<close>

definition catalog_ok :: "tool_catalog \<Rightarrow> bool" where
  "catalog_ok cat \<longleftrightarrow>
     distinct (map openai_name (cat_entries cat))
     \<and> (\<forall>name i. by_openai_name cat name = Some i \<longleftrightarrow> i < length (cat_entries cat) \<and> openai_name (cat_entries cat ! i) = name)"

definition entry_ok :: "catalog_policy \<Rightarrow> catalog_entry \<Rightarrow> bool" where
  "entry_ok policy e \<longleftrightarrow>
     is_valid_function_name (openai_name e)
     \<and> (is_valid_function_name (mcp_name e) \<longrightarrow> openai_name e = mcp_name e)
     \<and> adapt_schema (ce_tool e) (cp_schemas policy) = Ok (ce_parameters e)"

text \<open>Reserved names: the names given out are used, and the valid names still to come are used but not given out.\<close>

definition reserved :: "mcp_tool list \<Rightarrow> bytes set \<Rightarrow> tool_catalog \<Rightarrow> bool" where
  "reserved ts used cat \<longleftrightarrow>
     distinct (map mt_name ts) \<and> openai_name ` set (cat_entries cat) \<subseteq> used
     \<and> (\<forall>t \<in> set ts. is_valid_function_name (mt_name t) \<longrightarrow>
          mt_name t \<in> used \<and> mt_name t \<notin> openai_name ` set (cat_entries cat))"

definition extend :: "tool_catalog \<Rightarrow> catalog_entry \<Rightarrow> tool_catalog" where
  "extend cat e =
     \<lparr>cat_entries = cat_entries cat @ [e], by_openai_name = (by_openai_name cat)(openai_name e \<mapsto> length (cat_entries cat))\<rparr>"

lemma catalog_ok_extend:
  assumes "catalog_ok cat" and "openai_name e \<notin> openai_name ` set (cat_entries cat)"
  shows "catalog_ok (extend cat e)"
proof -
  have "openai_name (cat_entries cat ! i) \<noteq> openai_name e" if "i < length (cat_entries cat)" for i
    using assms(2) that by (metis imageI nth_mem)
  with assms show ?thesis unfolding catalog_ok_def extend_def by (auto simp: nth_append less_Suc_eq)
qed

lemma openai_name_for_fresh:
  assumes "openai_name_for sha256 p (mt_name t) used = Some (Ok (name, used'))" and "reserved (t # ts) used cat"
  shows "name \<notin> openai_name ` set (cat_entries cat)" "is_valid_function_name name"
    "is_valid_function_name (mt_name t) \<Longrightarrow> name = mt_name t"
    "ce_tool e = t \<Longrightarrow> openai_name e = name \<Longrightarrow> reserved ts used' (extend cat e)"
proof -
  consider (valid) "is_valid_function_name (mt_name t)" "name = mt_name t" "used' = used"
    | (mapped) "\<not> is_valid_function_name (mt_name t)" "name \<notin> used" "used' = insert name used" "is_valid_function_name name"
    using assms(1) by (auto simp: openai_name_for_def unique_mapped_name_def split: if_splits tool_name_policy.splits dest!: unique_from_Some)
  note cases = this
  have r: "distinct (map mt_name ts)" "mt_name t \<notin> mt_name ` set ts" "openai_name ` set (cat_entries cat) \<subseteq> used"
    "\<And>x. x \<in> set (t # ts) \<Longrightarrow> is_valid_function_name (mt_name x) \<Longrightarrow>
      mt_name x \<in> used \<and> mt_name x \<notin> openai_name ` set (cat_entries cat)"
    using assms(2) by (auto simp: reserved_def)
  show "name \<notin> openai_name ` set (cat_entries cat)" "is_valid_function_name name"
    using cases r(3,4) by (cases; auto)+
  show "is_valid_function_name (mt_name t) \<Longrightarrow> name = mt_name t" using cases by cases simp_all
  have other: "mt_name x \<noteq> name" if "x \<in> set ts" "is_valid_function_name (mt_name x)" for x
    using cases r(2,4) that by cases (metis imageI list.set_intros(2))+
  have "used \<subseteq> used'" "name \<in> used'" using cases r(4) by (cases; auto)+
  then show "reserved ts used' (extend cat e)" if "ce_tool e = t" "openai_name e = name"
    unfolding reserved_def extend_def using r other that(2) by fastforce
qed

lemma add_entries_ok:
  assumes "add_entries sha256 policy ts used cat = Some (Ok cat')"
    and "reserved ts used cat" and "catalog_ok cat" and "list_all (entry_ok policy) (cat_entries cat)"
  shows "catalog_ok cat' \<and> list_all (entry_ok policy) (cat_entries cat')
    \<and> map ce_tool (cat_entries cat') = map ce_tool (cat_entries cat) @ ts"
  using assms
proof (induction ts arbitrary: used cat)
  case (Cons t ts)
  from Cons.prems(1) obtain name used' ps where
    n: "openai_name_for sha256 (cp_names policy) (mt_name t) used = Some (Ok (name, used'))"
    and ps: "adapt_schema t (cp_schemas policy) = Ok ps"
    and step: "add_entries sha256 policy ts used' (extend cat \<lparr>openai_name = name, ce_tool = t, ce_parameters = ps\<rparr>) = Some (Ok cat')"
    unfolding extend_def by (auto split: option.splits sum.splits)
  note fresh = openai_name_for_fresh [OF n Cons.prems(2)]
  have "entry_ok policy \<lparr>openai_name = name, ce_tool = t, ce_parameters = ps\<rparr>"
    using fresh(2,3) ps by (auto simp: entry_ok_def mcp_name_def)
  then have "list_all (entry_ok policy) (cat_entries (extend cat \<lparr>openai_name = name, ce_tool = t, ce_parameters = ps\<rparr>))"
    using Cons.prems(4) by (simp add: extend_def)
  from Cons.IH [OF step fresh(4) catalog_ok_extend [OF Cons.prems(3)] this] fresh(1)
  show ?case by (simp add: extend_def)
qed auto

section \<open>The sorted list of names\<close>

lemma first_duplicate_None: "first_duplicate ns seen = None \<longleftrightarrow> distinct ns \<and> set ns \<inter> seen = {}"
  by (induction ns arbitrary: seen) auto

lemma map_sort_key: "map f (sort_key f xs) = sort (map f xs)"
  by (rule properties_for_sort [symmetric]) simp_all

lemma sort_key_distinct_unique:
  assumes "mset xs = mset ys" and "distinct (map f xs)"
  shows "sort_key f xs = sort_key f ys"
  using assms by (intro sort_key_inj_key_eq) (simp_all add: distinct_map)

lemma build_initial:
  assumes "distinct (map mt_name ts)"
  shows "reserved ts (set (filter is_valid_function_name (map mt_name ts))) catalog_default"
    "catalog_ok catalog_default" "list_all (entry_ok policy) (cat_entries catalog_default)"
  using assms by (auto simp: reserved_def catalog_ok_def catalog_default_def)

section \<open>An example\<close>

definition demo_sha256 :: "bytes \<Rightarrow> bytes" where
  "demo_sha256 bs = rev bs @ replicate 32 (CHR 0x00)"

definition demo_tools :: "mcp_tool list" where
  "demo_tools =
     [\<lparr>mt_name = ''read file'', mt_description = None, mt_title = None, mt_input_schema = []\<rparr>,
      \<lparr>mt_name = ''add'', mt_description = None, mt_title = None, mt_input_schema = []\<rparr>]"

lemma demo_builds: "\<exists>cat. build demo_sha256 demo_tools catalog_policy_default = Some (Ok cat)
   \<and> map (\<lambda>e. (openai_name e, mcp_name e)) (cat_entries cat)
     = [(''add'', ''add''), (mapped_name demo_sha256 ''read file'' 0, ''read file'')]"
proof -
  have "(case build demo_sha256 demo_tools catalog_policy_default of
      Some (Inr cat) \<Rightarrow> map (\<lambda>e. (openai_name e, mcp_name e)) (cat_entries cat)
        = [(''add'', ''add''), (mapped_name demo_sha256 ''read file'' 0, ''read file'')] | _ \<Rightarrow> False)"
    by code_simp
  then show ?thesis by (auto split: option.splits sum.splits)
qed

section \<open>Properties\<close>

lemma catalog_facts:
  assumes "build sha256 ts policy = Some (Ok cat)"
  shows "map ce_tool (cat_entries cat) = sort_key mt_name ts"
    and "distinct (map openai_name (cat_entries cat))"
    and "resolve_name cat name = Some e \<longleftrightarrow> e \<in> set (cat_entries cat) \<and> openai_name e = name"
    and "distinct (map mt_name ts)" and "list_all (entry_ok policy) (cat_entries cat)"
proof -
  let ?ts = "sort_key mt_name ts"
  from assms have d: "distinct (map mt_name ?ts)"
    and a: "add_entries sha256 policy ?ts (set (filter is_valid_function_name (map mt_name ?ts))) catalog_default = Some (Ok cat)"
    by (auto simp: build_def Let_def first_duplicate_None split: option.splits)
  from add_entries_ok [OF a build_initial [OF d]]
  have ok: "catalog_ok cat" "list_all (entry_ok policy) (cat_entries cat)" "map ce_tool (cat_entries cat) = ?ts"
    by (simp_all add: catalog_default_def)
  show "resolve_name cat name = Some e \<longleftrightarrow> e \<in> set (cat_entries cat) \<and> openai_name e = name"
    using ok(1) by (auto simp: resolve_name_def catalog_ok_def bind_eq_Some_conv in_set_conv_nth)
  show "map ce_tool (cat_entries cat) = sort_key mt_name ts" "distinct (map openai_name (cat_entries cat))"
    "distinct (map mt_name ts)" "list_all (entry_ok policy) (cat_entries cat)"
    using ok d by (simp_all add: catalog_ok_def map_sort_key)
qed

text \<open>
  C29: The catalog is reversible.  A catalog that was built has one entry per tool, in the order of the tool
  names; its exposed names are distinct and valid function names, a tool whose own name is valid keeps it,
  every schema is the adaptation that the policy asks for; and resolving a name gives an entry exactly when
  the entry exposes that name.
\<close>

theorem catalog_reversible:
  assumes "build sha256 ts policy = Some (Ok cat)"
  shows "map ce_tool (cat_entries cat) = sort_key mt_name ts
    \<and> distinct (map mt_name ts) \<and> distinct (map openai_name (cat_entries cat))
    \<and> list_all (entry_ok policy) (cat_entries cat)
    \<and> (\<forall>name e. resolve_name cat name = Some e \<longleftrightarrow> e \<in> set (cat_entries cat) \<and> openai_name e = name)"
  using catalog_facts [OF assms] by simp

theorem catalog_reversible_witness:
  "\<exists>cat. build demo_sha256 demo_tools catalog_policy_default = Some (Ok cat)
     \<and> map_option mcp_name (resolve_name cat (mapped_name demo_sha256 ''read file'' 0)) = Some ''read file''
     \<and> map_option mcp_name (resolve_name cat ''add'') = Some ''add''"
proof -
  from demo_builds obtain cat where b: "build demo_sha256 demo_tools catalog_policy_default = Some (Ok cat)"
    and es: "map (\<lambda>e. (openai_name e, mcp_name e)) (cat_entries cat)
      = [(''add'', ''add''), (mapped_name demo_sha256 ''read file'' 0, ''read file'')]"
    by (elim exE conjE)
  have resolve: "resolve_name cat name = Some e" if "e \<in> set (cat_entries cat)" "openai_name e = name" for name e
    using catalog_reversible [OF b] that by blast
  define m where "m = mapped_name demo_sha256 ''read file'' 0"
  obtain e1 e2 where e: "cat_entries cat = [e1, e2]" "openai_name e1 = ''add''" "mcp_name e1 = ''add''"
    "openai_name e2 = m" "mcp_name e2 = ''read file''"
    using es unfolding m_def [symmetric] by (elim map_eq_Cons_D [THEN exE] exE conjE) simp
  with b resolve [of e1] resolve [of e2] show ?thesis unfolding m_def [symmetric] by simp
qed

text \<open>
  The catalog does not depend on the order in which the server lists its tools, errors included.
\<close>

theorem build_order_independent:
  assumes "mset ts = mset ts'"
  shows "build sha256 ts policy = build sha256 ts' policy"
proof -
  have names: "map mt_name (sort_key mt_name ts) = map mt_name (sort_key mt_name ts')"
    unfolding map_sort_key using assms by (intro properties_for_sort) (simp_all add: mset_map)
  show ?thesis
  proof (cases "distinct (map mt_name ts)")
    case True
    with sort_key_distinct_unique [OF assms, of mt_name] show ?thesis by (simp add: build_def)
  next
    case False
    then have "first_duplicate (map mt_name (sort_key mt_name ts)) {} \<noteq> None"
      by (simp add: first_duplicate_None map_sort_key)
    with names show ?thesis by (auto simp: build_def Let_def)
  qed
qed

theorem build_order_independent_witness:
  "build demo_sha256 demo_tools catalog_policy_default = build demo_sha256 (rev demo_tools) catalog_policy_default
   \<and> rev demo_tools \<noteq> demo_tools"
  using build_order_independent [of demo_tools "rev demo_tools"] by (simp add: demo_tools_def)

text \<open>
  When building succeeds: exactly for distinct tool names, all of them valid under the rejecting policy, and
  schemas that the policy can adapt.
\<close>

lemma add_entries_Ok_iff:
  assumes "add_entries sha256 policy ts used cat = Some r"
  shows "is_ok r \<longleftrightarrow> list_all (\<lambda>t. is_ok (adapt_schema t (cp_schemas policy))
    \<and> (cp_names policy = RejectInvalid \<longrightarrow> is_valid_function_name (mt_name t))) ts"
  using assms
proof (induction ts arbitrary: used cat)
  case (Cons t ts)
  then show ?case
    by (auto simp: openai_name_for_def split: option.splits sum.splits if_splits tool_name_policy.splits)
qed auto

theorem build_succeeds_iff:
  assumes "build sha256 ts policy = Some r"
  shows "is_ok r \<longleftrightarrow> distinct (map mt_name ts)
    \<and> list_all (\<lambda>t. is_ok (adapt_schema t (cp_schemas policy))
        \<and> (cp_names policy = RejectInvalid \<longrightarrow> is_valid_function_name (mt_name t))) ts"
proof (cases "first_duplicate (map mt_name (sort_key mt_name ts)) {}")
  case None
  with assms have "add_entries sha256 policy (sort_key mt_name ts)
      (set (filter is_valid_function_name (map mt_name (sort_key mt_name ts)))) catalog_default = Some r"
    by (simp add: build_def Let_def)
  from add_entries_Ok_iff [OF this] None show ?thesis by (simp add: first_duplicate_None map_sort_key list_all_iff)
next
  case (Some n)
  then have "\<not> distinct (map mt_name ts)"
    using first_duplicate_None [of "map mt_name (sort_key mt_name ts)" "{}"] by (simp add: map_sort_key)
  with assms Some show ?thesis by (auto simp: build_def Let_def)
qed

text \<open>
  Building ends.  If, for every tool, the hashes of as many nonces as there are tools, plus one, are distinct,
  then a free mapped name is found for each of them.
\<close>

lemma mapped_name_inj: "mapped_name sha256 original m = mapped_name sha256 original n \<Longrightarrow>
    hash_suffix sha256 original m = hash_suffix sha256 original n"
  by (simp add: mapped_name_def Let_def split: if_splits)

lemma unique_from_None:
  "unique_from sha256 original used nonce = None \<Longrightarrow> nonce \<le> k \<Longrightarrow> k < 2 ^ 64 \<Longrightarrow> mapped_name sha256 original k \<in> used"
proof (induction sha256 original used nonce rule: unique_from.induct)
  case (1 sha256 original used nonce)
  then have "nonce = k \<or> nonce + 1 \<le> k" by linarith
  with "1.prems" "1.IH" [OF _ refl] show ?case
    by (subst (asm) unique_from.simps) (auto simp: Let_def split: if_splits)
qed

lemma unique_mapped_name_ends:
  assumes "inj_on (hash_suffix sha256 original) {..n}" and "finite used" and "card used \<le> n" and "n < 2 ^ 64"
  shows "unique_mapped_name sha256 original used \<noteq> None"
proof
  assume "unique_mapped_name sha256 original used = None"
  then have "mapped_name sha256 original ` {..n} \<subseteq> used"
    using unique_from_None assms(4) by (auto simp: unique_mapped_name_def)
  moreover have "inj_on (mapped_name sha256 original) {..n}"
    using assms(1) by (auto simp: inj_on_def dest: mapped_name_inj)
  ultimately have "card {..n} \<le> card used" using assms(2) by (metis card_image card_mono)
  with assms(3) show False by simp
qed

lemma add_entries_ends:
  assumes "\<And>t. t \<in> set ts \<Longrightarrow> inj_on (hash_suffix sha256 (mt_name t)) {..n}" and "n < 2 ^ 64"
    and "finite used" and "card used + length (filter (\<lambda>t. \<not> is_valid_function_name (mt_name t)) ts) \<le> n"
  shows "add_entries sha256 policy ts used cat \<noteq> None"
  using assms(1,3,4)
proof (induction ts arbitrary: used cat)
  case (Cons t ts)
  have "openai_name_for sha256 (cp_names policy) (mt_name t) used \<noteq> None"
    using unique_mapped_name_ends [OF Cons.prems(1) [of t] Cons.prems(2) _ assms(2)] Cons.prems(3)
    by (auto simp: openai_name_for_def split: tool_name_policy.split)
  moreover have "finite used' \<and> card used' + length (filter (\<lambda>t. \<not> is_valid_function_name (mt_name t)) ts) \<le> n"
    if "openai_name_for sha256 (cp_names policy) (mt_name t) used = Some (Ok (name, used'))" for name used'
    using that Cons.prems(2,3)
    by (auto simp: openai_name_for_def unique_mapped_name_def split: if_splits tool_name_policy.splits dest!: unique_from_Some)
  ultimately show ?case
    using Cons.IH Cons.prems(1) by (auto split: option.splits sum.splits)
qed simp

theorem build_ends:
  assumes "\<And>t. t \<in> set ts \<Longrightarrow> inj_on (hash_suffix sha256 (mt_name t)) {..length ts}" and "length ts < 2 ^ 64"
  shows "build sha256 ts policy \<noteq> None"
proof -
  let ?ts = "sort_key mt_name ts"
  have "card (set (filter is_valid_function_name (map mt_name ?ts)))
      \<le> length (filter (\<lambda>t. is_valid_function_name (mt_name t)) ?ts)"
    using card_length [of "filter is_valid_function_name (map mt_name ?ts)"] by (simp add: filter_map comp_def)
  then have "card (set (filter is_valid_function_name (map mt_name ?ts)))
      + length (filter (\<lambda>t. \<not> is_valid_function_name (mt_name t)) ?ts) \<le> length ts"
    using sum_length_filter_compl [of "\<lambda>t. is_valid_function_name (mt_name t)" ?ts] by simp
  from add_entries_ends [OF _ assms(2) _ this] assms(1) show ?thesis
    by (simp add: build_def Let_def split: option.split)
qed

end
