(* ===== verification/Mcp_Bridge_Correctness.thy ===== *)
theory Mcp_Bridge_Correctness
  imports Mcp_Bridge Mcp_Catalog_Correctness
begin

text \<open>
  What the bridge guarantees: an execution ends with its deadline or its cancellation, sends at most one
  request, and sends nothing when it is over before it starts; results survive their encoding; and a function
  call reaches exactly the tool that its name was given to.
\<close>

section \<open>Races\<close>

lemma select_biased_ends:
  "(Some a, x) \<in> set bs \<Longrightarrow> \<exists>t y. select_biased s bs = Some (t, y) \<and> t \<le> max s a"
proof (induction bs)
  case (Cons b bs)
  obtain ready y where b: "b = (ready, y)" by fastforce
  show ?case
  proof (cases "b = (Some a, x)")
    case True
    then show ?thesis by (cases "select_biased s bs") auto
  next
    case False
    with Cons obtain t z where "select_biased s bs = Some (t, z)" "t \<le> max s a" by auto
    with b show ?thesis by (cases ready) auto
  qed
qed simp

lemma select_biased_wins:
  "select_biased s bs = Some (t, x) \<Longrightarrow>
     (\<exists>a. (Some a, x) \<in> set bs \<and> t = max s a) \<and> (\<forall>a y. (Some a, y) \<in> set bs \<longrightarrow> t \<le> max s a)"
proof (induction bs arbitrary: t x)
  case (Cons b bs)
  obtain ready y where b: "b = (ready, y)" by fastforce
  show ?case
  proof (cases "select_biased s bs")
    case None
    then have "(Some a, z) \<notin> set bs" for a z using select_biased_ends [of a z bs s] by auto
    with Cons.prems b None show ?thesis by (cases ready) auto
  next
    case (Some p)
    obtain u z where p: "p = (u, z)" by fastforce
    from Cons.prems b Some p Cons.IH [of u z] show ?thesis
      by (cases ready) (auto split: if_splits intro: order_trans)
  qed
qed simp

section \<open>Executions end\<close>

text \<open>The instants that bound an execution: its deadline and its cancellation.\<close>

definition bounded_by :: "execution_control \<Rightarrow> nat \<Rightarrow> bool" where
  "bounded_by control limit \<longleftrightarrow> ec_timeout control = Some limit \<or> wait_for_cancellation control = Some limit"

lemma delivery_done_le: "delivery_done env now \<le> now + CANCEL_DELIVERY_TIMEOUT"
  by (simp add: delivery_done_def split: option.split)

lemma await_response_ends:
  assumes "bounded_by control limit" and "queued \<le> limit"
  shows "\<exists>t io r. await_response env control queued = Some (t, io, r) \<and> t \<le> limit + CANCEL_DELIVERY_TIMEOUT
    \<and> (io = [] \<or> (\<exists>now reason. io = [CancelNotified now reason]))"
proof -
  let ?bs = "[(map_option fst (pe_response env), RaceCompleted), (wait_for_cancellation control, RaceCancelled),
    (wait_for_timeout control, RaceTimeout)]"
  obtain now w where s: "select_biased queued ?bs = Some (now, w)" "now \<le> limit"
    using select_biased_ends [of limit RaceCancelled ?bs queued] select_biased_ends [of limit RaceTimeout ?bs queued] assms
    by (auto simp: bounded_by_def wait_for_timeout_def max_def)
  have "delivery_done env now \<le> limit + CANCEL_DELIVERY_TIMEOUT" using delivery_done_le [of env now] s(2) by simp
  with s show ?thesis by (cases w) (auto simp: await_response_def Let_def)
qed

text \<open>The requests and notifications that an execution sends.\<close>

definition io_shape :: "bytes \<Rightarrow> json_map \<Rightarrow> peer_io list \<Rightarrow> bool" where
  "io_shape name arguments io \<longleftrightarrow>
     io = [] \<or> (\<exists>t. io = [RequestQueued t name arguments])
     \<or> (\<exists>t u reason. io = [RequestQueued t name arguments, CancelNotified u reason])"

lemma call_cancellable_ends:
  assumes "bounded_by control limit"
  shows "\<exists>t io r. call_cancellable env name arguments control = Some (t, io, r)
    \<and> t \<le> limit + CANCEL_DELIVERY_TIMEOUT \<and> io_shape name arguments io"
proof (cases "preflight_control control")
  case (Inr u)
  let ?bs = "[(wait_for_cancellation control, RaceCancelled), (wait_for_timeout control, RaceTimeout),
    (map_option fst (pe_enqueue env), RaceCompleted)]"
  obtain now w where s: "select_biased 0 ?bs = Some (now, w)" "now \<le> limit"
    using select_biased_ends [of limit RaceCancelled ?bs 0] select_biased_ends [of limit RaceTimeout ?bs 0] assms
    by (auto simp: bounded_by_def wait_for_timeout_def)
  from await_response_ends [OF assms s(2), of env] Inr s show ?thesis
    by (cases w) (auto simp: call_cancellable_def io_shape_def split: option.splits sum.splits)
qed (auto simp: call_cancellable_def io_shape_def)

lemma preflight_stops:
  assumes "preflight_control control = Err e"
  shows "call_cancellable env name arguments control = Some (0, [], Err e)"
  using assms by (simp add: call_cancellable_def)

section \<open>The contract of an executor\<close>

text \<open>What \<^verbatim>\<open>ResponsesToolExecutor::call_tool\<close> asks of an implementation.\<close>

locale tool_executor =
  fixes call_tool :: "('io, 'b) executor"
  assumes no_io_when_over: "preflight_control control = Err e \<Longrightarrow> call_tool name args control = Some ([], Err e)"
    and ends_when_bounded: "bounded_by control limit \<Longrightarrow> call_tool name args control \<noteq> None"
begin

lemma dispatch_no_io_when_over:
  "preflight_control control = Err e \<Longrightarrow>
     \<exists>e'. dispatch_parts c call_tool b call_id name arguments control = Some ([], Err e')"
  by (auto simp: dispatch_parts_def no_io_when_over split: sum.split option.split)

lemma dispatch_ends: "bounded_by control limit \<Longrightarrow> dispatch_parts c call_tool b call_id name arguments control \<noteq> None"
  using ends_when_bounded by (fastforce simp: dispatch_parts_def split: sum.split option.split)

end

interpretation rmcp: tool_executor "rmcp_executor env" for env
proof
  show "rmcp_executor env name args control = Some ([], Err e)" if "preflight_control control = Err e" for control e name args
    by (simp add: rmcp_executor_def preflight_stops [OF that])
  show "rmcp_executor env name args control \<noteq> None" if "bounded_by control limit" for control limit name args
    using call_cancellable_ends [OF that] by (fastforce simp: rmcp_executor_def)
qed

section \<open>Properties of the executor\<close>

text \<open>
  C30: A bounded execution ends: with a deadline or a cancellation at \<open>limit\<close>, a tool call returns by then,
  apart from at most one second for telling the peer, whatever the peer does or does not do; it queues at most
  one request, and a cancellation notice only after it.
\<close>

theorem call_tool_bounded:
  assumes "bounded_by control limit"
  shows "\<exists>t io r. call_cancellable env name arguments control = Some (t, io, r)
    \<and> t \<le> limit + from_secs 1 \<and> io_shape name arguments io"
  using call_cancellable_ends [OF assms] by (simp add: CANCEL_DELIVERY_TIMEOUT_def)

definition silent_peer :: "unit peer_env" where
  "silent_peer = \<lparr>pe_enqueue = Some (1, Ok ()), pe_response = None, pe_cancel_delivery = None\<rparr>"

theorem call_tool_bounded_witness:
  "\<exists>t io r. call_cancellable silent_peer ''f'' [] (unbounded\<lparr>ec_timeout := Some 5\<rparr>) = Some (t, io, r)
    \<and> t \<le> 5 + from_secs 1 \<and> io_shape ''f'' [] io"
  by (rule call_tool_bounded) (simp add: bounded_by_def)

text \<open>
  When a call succeeds: exactly if it may start, the queue takes the request strictly before the deadline and
  the cancellation, and the answer is there no later than both, and is a tool result.
\<close>

definition in_time :: "execution_control \<Rightarrow> (nat \<Rightarrow> bool) \<Rightarrow> bool" where
  "in_time control P \<longleftrightarrow>
     (\<forall>c. wait_for_cancellation control = Some c \<longrightarrow> P c) \<and> (\<forall>d. ec_timeout control = Some d \<longrightarrow> P d)"

lemma select_three:
  "select_biased s [(ra, x), (rb, y), (rc, z)] = Some (t, w) \<longleftrightarrow>
     (\<exists>a. ra = Some a \<and> w = x \<and> t = max s a \<and> (\<forall>b. rb = Some b \<longrightarrow> t \<le> max s b) \<and> (\<forall>c. rc = Some c \<longrightarrow> t \<le> max s c))
     \<or> (\<exists>b. rb = Some b \<and> w = y \<and> t = max s b \<and> (\<forall>a. ra = Some a \<longrightarrow> t < max s a) \<and> (\<forall>c. rc = Some c \<longrightarrow> t \<le> max s c))
     \<or> (\<exists>c. rc = Some c \<and> w = z \<and> t = max s c \<and> (\<forall>a. ra = Some a \<longrightarrow> t < max s a) \<and> (\<forall>b. rb = Some b \<longrightarrow> t < max s b))"
  by (cases ra; cases rb; cases rc) (auto simp: not_le)

lemma tool_response_Ok_iff: "tool_response x = Ok r \<longleftrightarrow> x = Ok (Ok (CallToolResult r))"
proof (cases x)
  case (Inr inner)
  then show ?thesis by (cases inner) (auto simp: tool_response_def split: server_result.splits)
qed (simp add: tool_response_def)

lemma await_response_Ok_iff:
  "(\<exists>t io. await_response env control q = Some (t, io, Ok r)) \<longleftrightarrow>
     (\<exists>a. pe_response env = Some (a, Ok (Ok (CallToolResult r))) \<and> in_time control (\<lambda>x. max q a \<le> max q x))"
proof -
  let ?sel = "select_biased q [(map_option fst (pe_response env), RaceCompleted), (wait_for_cancellation control, RaceCancelled),
      (wait_for_timeout control, RaceTimeout)]"
  have "(\<exists>t io. await_response env control q = Some (t, io, Ok r)) \<longleftrightarrow>
      (\<exists>t a x. ?sel = Some (t, RaceCompleted) \<and> pe_response env = Some (a, x) \<and> tool_response x = Ok r)"
    unfolding await_response_def
    by (cases ?sel) (auto simp: Let_def tool_response_Ok_iff simp del: select_biased.simps split: option.splits race.splits)
  also have "\<dots> \<longleftrightarrow> (\<exists>a. pe_response env = Some (a, Ok (Ok (CallToolResult r))) \<and> in_time control (\<lambda>x. max q a \<le> max q x))"
    unfolding select_three by (auto simp: tool_response_Ok_iff in_time_def wait_for_timeout_def)
  finally show ?thesis .
qed

theorem call_tool_succeeds_iff:
  "(\<exists>t io. call_cancellable env name arguments control = Some (t, io, Ok r)) \<longleftrightarrow>
     preflight_control control = Ok ()
     \<and> (\<exists>q a. pe_enqueue env = Some (q, Ok ()) \<and> in_time control (\<lambda>x. q < x)
          \<and> pe_response env = Some (a, Ok (Ok (CallToolResult r))) \<and> in_time control (\<lambda>x. max q a \<le> x))"
proof (cases "preflight_control control")
  case (Inr u)
  let ?sel = "select_biased 0 [(wait_for_cancellation control, RaceCancelled), (wait_for_timeout control, RaceTimeout),
      (map_option fst (pe_enqueue env), RaceCompleted)]"
  let ?ans = "\<lambda>q. \<exists>t io. await_response env control q = Some (t, io, Ok r)"
  have later: "in_time control (\<lambda>x. max q a \<le> max q x) \<longleftrightarrow> in_time control (\<lambda>x. max q a \<le> x)"
    if "in_time control (\<lambda>x. q < x)" for q a
    using that by (auto simp: in_time_def)
  have queued: "pe_enqueue env \<noteq> None" if "?sel = Some (t, RaceCompleted)" for t
    using that unfolding select_three by auto
  have "(\<exists>t io. call_cancellable env name arguments control = Some (t, io, Ok r)) \<longleftrightarrow>
      (\<exists>t q. ?sel = Some (t, RaceCompleted) \<and> pe_enqueue env = Some (q, Ok ()) \<and> ?ans t)"
    using Inr queued unfolding call_cancellable_def
    by (cases ?sel) (auto simp del: select_biased.simps split: option.splits race.splits sum.splits)
  also have "\<dots> \<longleftrightarrow> (\<exists>q. pe_enqueue env = Some (q, Ok ()) \<and> in_time control (\<lambda>x. q < x) \<and> ?ans q)"
    unfolding select_three by (auto simp: in_time_def wait_for_timeout_def)
  also have "\<dots> \<longleftrightarrow> (\<exists>q a. pe_enqueue env = Some (q, Ok ()) \<and> in_time control (\<lambda>x. q < x)
      \<and> pe_response env = Some (a, Ok (Ok (CallToolResult r))) \<and> in_time control (\<lambda>x. max q a \<le> x))"
    unfolding await_response_Ok_iff using later by blast
  finally show ?thesis using Inr by simp
qed (auto simp: call_cancellable_def)

section \<open>Results survive their encoding\<close>

text \<open>What the bridge relies on of the JSON printer and reader and of the serialization of content blocks.\<close>

definition faithful_codec :: "'b result_codec \<Rightarrow> bool" where
  "faithful_codec c \<longleftrightarrow>
     (\<forall>b. block_deserialize c (block_serialize c b) = Ok b)
     \<and> (\<forall>v s. value_wf v \<longrightarrow> rc_to_string c v = Ok s \<longrightarrow> rc_from_str c s = Ok v)"

definition result_wf :: "'b result_codec \<Rightarrow> 'b call_tool_result \<Rightarrow> bool" where
  "result_wf c r \<longleftrightarrow>
     list_all (\<lambda>b. value_wf (block_serialize c b)) (cr_content r)
     \<and> (case cr_structured r of Some v \<Rightarrow> value_wf v \<and> v \<noteq> JNull | None \<Rightarrow> True)
     \<and> (case cr_meta r of Some m \<Rightarrow> map_wf m | None \<Rightarrow> True)"

lemma all_results_inverse: "(\<And>x. g (f x) = Ok x) \<Longrightarrow> all_results g (map f xs) = Ok xs"
  by (induction xs) simp_all

lemma envelope_round_trip:
  assumes "\<And>b. block_deserialize c (block_serialize c b) = Ok b" and "env_structured e \<noteq> Some JNull"
  shows "envelope_deserialize c (envelope_serialize c e) = Ok e"
proof -
  define m where "m = [(''content'', JArray (map (block_serialize c) (env_content e)))]
        @ optional_member ''structuredContent'' (env_structured e) @ [(''isError'', JBool (env_is_error e))]
        @ optional_member ''resultType'' (map_option JString (env_result_type e))
        @ optional_member ''_meta'' (map_option JObject (env_meta e))"
  have m: "map_of m ''content'' = Some (JArray (map (block_serialize c) (env_content e)))"
    "map_of m ''structuredContent'' = env_structured e" "map_of m ''isError'' = Some (JBool (env_is_error e))"
    "map_of m ''resultType'' = map_option JString (env_result_type e)" "map_of m ''_meta'' = map_option JObject (env_meta e)"
    by (simp_all add: m_def optional_member_def split: option.split)
  have f: "optional_field Some m ''structuredContent'' = Ok (env_structured e)"
    "optional_field as_str m ''resultType'' = Ok (env_result_type e)" "optional_field as_object m ''_meta'' = Ok (env_meta e)"
    using assms(2) m by (auto simp: optional_field_def split: option.split json.split)
  have "envelope_serialize c e = JObject m" by (simp add: envelope_serialize_def m_def)
  then show ?thesis
    using all_results_inverse [of "block_deserialize c" "block_serialize c", OF assms(1)]
    by (simp add: envelope_deserialize_def m f)
qed

lemma envelope_wf: "result_wf c r \<Longrightarrow> value_wf (envelope_serialize c (from_rmcp r))"
  by (auto simp: result_wf_def envelope_serialize_def from_rmcp_def optional_member_def obj_wf_def list_all_iff split: option.splits)

text \<open>
  The lossless encoding is lossless: reading the function output back gives the envelope of the result, with
  every content block, the structured content, the error flag, the result type and the metadata.
\<close>

theorem lossless_round_trip:
  assumes "faithful_codec c" and "result_wf c r" and "encode_tool_result c r LosslessEnvelope = Ok enc"
  shows "res_bind (rc_from_str c (enc_output enc)) (envelope_deserialize c) = Ok (from_rmcp r)
    \<and> enc_is_error enc = (cr_is_error r = Some True)"
proof -
  have "rc_to_string c (envelope_serialize c (from_rmcp r)) = Ok (enc_output enc)"
    and "enc_is_error enc = (cr_is_error r = Some True)"
    using assms(3) by (auto simp: encode_tool_result_def Let_def res_bind_Ok_iff from_rmcp_def split: option.splits)
  moreover have "env_structured (from_rmcp r) \<noteq> Some JNull" using assms(2) by (auto simp: result_wf_def from_rmcp_def)
  ultimately show ?thesis
    using assms(1) envelope_wf [OF assms(2)] envelope_round_trip [of c "from_rmcp r"] by (simp add: faithful_codec_def)
qed

definition demo_result :: "bytes call_tool_result" where
  "demo_result =
     \<lparr>cr_content = [''sunny''], cr_structured = Some (JBool True), cr_is_error = Some True, cr_result_type = None,
      cr_meta = Some [(''k'', JNull)]\<rparr>"

definition demo_envelope :: json where
  "demo_envelope =
     JObject [(''content'', JArray [JString ''sunny'']), (''structuredContent'', JBool True), (''isError'', JBool True),
       (''_meta'', JObject [(''k'', JNull)])]"

text \<open>A codec that prints and reads one value; the printer may fail on the others.\<close>

definition demo_codec :: "bytes result_codec" where
  "demo_codec =
     \<lparr>block_text = Some, block_serialize = JString, block_deserialize = (\<lambda>v. ok_or (as_str v) []),
      rc_to_string = (\<lambda>v. if v = demo_envelope then Ok ''E'' else Err []),
      rc_from_str = (\<lambda>s. if s = ''E'' then Ok demo_envelope else Err [])\<rparr>"

lemma demo_encodes:
  "encode_tool_result demo_codec demo_result LosslessEnvelope = Ok \<lparr>enc_output = ''E'', enc_is_error = True\<rparr>"
  by (simp add: encode_tool_result_def demo_result_def demo_codec_def from_rmcp_def envelope_serialize_def
      optional_member_def demo_envelope_def Let_def)

theorem lossless_round_trip_witness:
  "res_bind (rc_from_str demo_codec ''E'') (envelope_deserialize demo_codec) = Ok (from_rmcp demo_result)"
proof -
  have "faithful_codec demo_codec" by (simp add: faithful_codec_def demo_codec_def)
  moreover have "result_wf demo_codec demo_result" by (simp add: result_wf_def demo_codec_def demo_result_def obj_wf_def)
  ultimately show ?thesis using lossless_round_trip [OF _ _ demo_encodes] by simp
qed

section \<open>Routing\<close>

lemma map_sum_Ok_iff: "map_sum f g r = Ok y \<longleftrightarrow> (\<exists>x. r = Ok x \<and> y = g x)"
  by (cases r) auto

text \<open>
  C28: A call reaches its tool.  For a bridge made by discovery, every advertised function stands for exactly one
  tool of the server, with its adapted schema; a call of that name with readable arguments is answered by
  executing exactly this tool, under its own name and with these arguments; a call of a name that is not
  advertised, or with unreadable arguments, executes nothing.
\<close>

theorem dispatch_routes:
  assumes "discover sha256 (Ok ts) policy = Some (Ok b)"
  shows "map ft_name (catalog_function_tools (br_catalog b)) = map openai_name (cat_entries (br_catalog b))
    \<and> distinct (map ft_name (catalog_function_tools (br_catalog b)))
    \<and> map ce_tool (cat_entries (br_catalog b)) = sort_key mt_name ts
    \<and> (\<forall>e \<in> set (cat_entries (br_catalog b)). \<forall>args. parse_function_arguments (rc_from_str c) arguments = Ok args \<longrightarrow>
         dispatch_parts c call_tool b call_id (openai_name e) arguments control =
           map_option (\<lambda>(io, r). (io, res_bind r (dispatch_answer c (br_encoding b) call_id)))
             (call_tool (mt_name (ce_tool e)) args control))
    \<and> (\<forall>name args. parse_function_arguments (rc_from_str c) arguments = Ok args \<longrightarrow>
         name \<notin> set (map ft_name (catalog_function_tools (br_catalog b))) \<longrightarrow>
         dispatch_parts c call_tool b call_id name arguments control = Some ([], Err (UnknownFunction name)))
    \<and> (\<forall>name e. parse_function_arguments (rc_from_str c) arguments = Err e \<longrightarrow>
         dispatch_parts c call_tool b call_id name arguments control = Some ([], Err e))"
proof -
  from assms have built: "build sha256 ts policy = Some (Ok (br_catalog b))"
    by (auto simp: discover_def map_sum_Ok_iff)
  note cat = catalog_facts [OF built]
  have names: "map ft_name (catalog_function_tools (br_catalog b)) = map openai_name (cat_entries (br_catalog b))"
    by (auto simp: catalog_function_tools_def entry_function_tool_def function_tool_new_def Let_def split: option.split)
  have unknown: "resolve_name (br_catalog b) name = None" if "name \<notin> openai_name ` set (cat_entries (br_catalog b))" for name
    using cat(3) [of name] that by (metis imageI option.exhaust)
  have known: "resolve_name (br_catalog b) (openai_name e) = Some e" if "e \<in> set (cat_entries (br_catalog b))" for e
    using cat(3) that by blast
  show ?thesis
    unfolding names using cat(1,2) known unknown by (simp add: dispatch_parts_def mcp_name_def)
qed

definition demo_bridge :: bridge where
  "demo_bridge =
     (case discover demo_sha256 (Ok demo_tools) catalog_policy_default of
        Some (Inr b) \<Rightarrow> b | _ \<Rightarrow> \<lparr>br_catalog = catalog_default, br_encoding = LosslessEnvelope\<rparr>)"

theorem dispatch_routes_witness:
  "dispatch_parts demo_codec (\<lambda>n a _. Some ([(n, a)], Ok demo_result)) demo_bridge ''call'' ''add'' '' '' unbounded
     = Some ([(''add'', [])], Ok (DispatchToolError (function_call_output_new ''call'' ''E'')))
   \<and> dispatch_parts demo_codec (\<lambda>n a _. Some ([(n, a)], Ok demo_result)) demo_bridge ''call'' ''none'' '' '' unbounded
     = Some ([], Err (UnknownFunction ''none''))"
proof -
  have d: "discover demo_sha256 (Ok demo_tools) catalog_policy_default = Some (Ok demo_bridge)"
    using demo_builds by (auto simp: discover_def demo_bridge_def)
  have es: "map (\<lambda>e. (openai_name e, mcp_name e)) (cat_entries (br_catalog demo_bridge))
      = [(''add'', ''add''), (mapped_name demo_sha256 ''read file'' 0, ''read file'')]"
    using demo_builds by (auto simp: discover_def demo_bridge_def)
  have args: "parse_function_arguments (rc_from_str demo_codec) '' '' = Ok []" by (simp add: parse_function_arguments_def code_def)
  have enc: "br_encoding demo_bridge = LosslessEnvelope" using demo_builds by (auto simp: discover_def demo_bridge_def)
  from es obtain z za where e: "cat_entries (br_catalog demo_bridge) = [z, za]" "openai_name z = ''add''" "mt_name (ce_tool z) = ''add''"
    "openai_name za = mapped_name demo_sha256 ''read file'' 0"
    by (auto simp: map_eq_Cons_conv mcp_name_def)
  have "mapped_name demo_sha256 ''read file'' 0 \<noteq> ''none''" by code_simp
  then have "''none'' \<notin> set (map openai_name (cat_entries (br_catalog demo_bridge)))" using e(1,2,4) by auto
  then have "''none'' \<notin> set (map ft_name (catalog_function_tools (br_catalog demo_bridge)))"
    unfolding dispatch_routes [OF d, THEN conjunct1] .
  moreover have "z \<in> set (cat_entries (br_catalog demo_bridge))" using e(1) by simp
  ultimately show ?thesis
    using dispatch_routes [OF d, of demo_codec "'' ''" "\<lambda>n a _. Some ([(n, a)], Ok demo_result)" "''call''" unbounded] args e(2,3)
    by (auto simp: dispatch_answer_def demo_encodes enc simp del: set_map)
qed

end
