(* ===== verification/App_Server.thy ===== *)
theory App_Server
  imports Jsonl_Codec Kernel State_Machine
begin

text \<open>
  The JSON-RPC connection to a Codex app-server child, \<^verbatim>\<open>crates/openai-rs-codex/src/app_server/client.rs\<close>: the
  classification of inbound frames, and the concurrent system of requests, other messages, the stdout reader and
  the teardown that share one connection.  A step is what one task does up to its next
  access to shared state that another task can change; the drop of a write's cancellation guard, which runs under the
  writer lock, is one step.  A \<^verbatim>\<open>terminate\<close> that wins the shutdown flag continues as the teardown; the end of the call that
  ran it is not ordered after it.

  Requests are numbered; \<open>app_env\<close> gives the limits and, for each request, its method and the length of its frame.
  What \<^verbatim>\<open>serde\<close> derives for the typed notifications is a parameter, as is the JSON reader.
\<close>

section \<open>Values\<close>

datatype rpc_id = RpcNumber nat | RpcString bytes

record rpc_error =
  re_code :: int
  re_message :: bytes
  re_data :: "json nullable omittable"
  re_extra :: json_map

fun rpc_id_of_json :: "json \<Rightarrow> rpc_id option" where
  "rpc_id_of_json (JNumber (PosInt n)) = (if n \<le> U64_MAX then Some (RpcNumber n) else None)"
| "rpc_id_of_json (JString s) = Some (RpcString s)"
| "rpc_id_of_json _ = None"

fun i64_of_json :: "json \<Rightarrow> int option" where
  "i64_of_json (JNumber (PosInt n)) = (if int n < 2 ^ 63 then Some (int n) else None)"
| "i64_of_json (JNumber (NegInt i)) = (if - (2 ^ 63) \<le> i \<and> i < 0 then Some i else None)"
| "i64_of_json _ = None"

definition rpc_error_of_json :: "json \<Rightarrow> rpc_error option" where
  "rpc_error_of_json v =
     (case v of
        JObject m \<Rightarrow>
          (case (Option.bind (map_of m ''code'') i64_of_json, Option.bind (map_of m ''message'') as_str) of
             (Some c, Some msg) \<Rightarrow>
               Some \<lparr>re_code = c, re_message = msg,
                 re_data = (case map_of m ''data'' of
                    None \<Rightarrow> Omitted | Some JNull \<Rightarrow> Present Null | Some d \<Rightarrow> Present (NonNull d)),
                 re_extra = filter (\<lambda>(k, _). k \<notin> {''code'', ''message'', ''data''}) m\<rparr>
           | _ \<Rightarrow> None)
      | _ \<Rightarrow> None)"

text \<open>Notifications: a known method whose parameters decode, or the raw frame.\<close>

datatype 'p notification = Typed bytes 'p | UnknownNotification bytes "json option" json

record 'p rpc_codec =
  rc_from_slice :: "bytes \<Rightarrow> (bytes, json) result"
  rc_typed :: "bytes \<Rightarrow> json \<Rightarrow> 'p option"
  rc_describe :: "json \<Rightarrow> bytes"

definition known_notifications :: "bytes list" where
  "known_notifications =
     [''account/login/completed'', ''account/updated'', ''account/rateLimits/updated'', ''error'', ''thread/started'',
      ''turn/started'', ''turn/completed'', ''item/started'', ''item/completed'', ''item/agentMessage/delta'']"

definition decode_notification :: "'p rpc_codec \<Rightarrow> bytes \<Rightarrow> json option \<Rightarrow> json \<Rightarrow> 'p notification" where
  "decode_notification c mth ps r =
     (case (if mth \<in> set known_notifications then rc_typed c mth (case ps of Some p \<Rightarrow> p | None \<Rightarrow> JNull) else None) of
        Some p \<Rightarrow> Typed mth p
      | None \<Rightarrow> UnknownNotification mth ps r)"

datatype 'p app_server_event =
    Notification "'p notification"
  | ServerRequest rpc_id bytes "json option" json
  | OrphanResponse rpc_id json

datatype pending_result = PendingValue json | PendingRpcError rpc_error | PendingConnection connection_failure

text \<open>The errors of the crate; an I/O or JSON error is its message.\<close>

datatype app_error =
    InvalidConfiguration bytes
  | RequestPayloadTooLarge nat
  | CodexHome bytes
  | SpawnFailed bytes
  | RuntimeArtifact bytes
  | RuntimeHashTask bytes
  | RuntimeArtifactMismatch bytes
  | UnsupportedRuntimeTarget bytes
  | IoFailure bytes
  | JsonFailure bytes
  | ResponseDecode bytes bytes
  | RpcFailure rpc_error
  | ConnectionError connection_failure
  | RequestTimeout bytes nat duration
  | PendingCapacityTimeout duration
  | ResponseChannelClosed nat
  | ExtraFieldConflict bytes bytes
  | UnexpectedResponse bytes

section \<open>Inbound frames\<close>

text \<open>
  The part of \<^verbatim>\<open>handle_inbound\<close> before the pending table is consulted: an event to publish, or a response with its
  numeric identifier and members.
\<close>

datatype 'p inbound = Publish "'p app_server_event" | Response nat json_map json

definition classify_inbound :: "'p rpc_codec \<Rightarrow> bytes \<Rightarrow> (connection_failure, 'p inbound) result" where
  "classify_inbound c line =
     res_bind (map_err (\<lambda>e. ConnectionFailure InvalidJson (''invalid JSON from app-server: '' @ e)) (rc_from_slice c line)) (\<lambda>r.
     res_bind (ok_or (as_object r) (ConnectionFailure InvalidMessage ''app-server JSONL frame was not an object'')) (\<lambda>obj.
     (case (Option.bind (map_of obj ''method'') as_str, map_of obj ''id'') of
        (Some mth, None) \<Rightarrow> Ok (Publish (Notification (decode_notification c mth (map_of obj ''params'') r)))
      | (Some mth, Some i) \<Rightarrow>
          res_bind (ok_or (rpc_id_of_json i)
              (ConnectionFailure InvalidMessage (''invalid server request id: '' @ rc_describe c i))) (\<lambda>rid.
            Ok (Publish (ServerRequest rid mth (map_of obj ''params'') r)))
      | (None, Some i) \<Rightarrow>
          res_bind (ok_or (rpc_id_of_json i)
              (ConnectionFailure InvalidMessage (''invalid response id: '' @ rc_describe c i))) (\<lambda>rid.
            (case rid of
               RpcNumber n \<Rightarrow> Ok (Response n obj r)
             | RpcString _ \<Rightarrow> Ok (Publish (OrphanResponse rid r))))
      | (None, None) \<Rightarrow>
          Err (ConnectionFailure InvalidMessage ''app-server message contained neither method nor id''))))"

text \<open>The result of a response that is awaited: exactly one of \<^verbatim>\<open>result\<close> and \<^verbatim>\<open>error\<close>; a null result is an empty object.\<close>

definition response_result :: "'p rpc_codec \<Rightarrow> json_map \<Rightarrow> (connection_failure, pending_result) result" where
  "response_result c obj =
     (case (contains_key obj ''result'', contains_key obj ''error'') of
        (True, False) \<Rightarrow>
          (let v = (case map_of obj ''result'' of Some v \<Rightarrow> v | None \<Rightarrow> JNull)
           in Ok (PendingValue (if v = JNull then JObject [] else v)))
      | (False, True) \<Rightarrow>
          (let e = (case map_of obj ''error'' of Some v \<Rightarrow> v | None \<Rightarrow> JNull)
           in res_bind (ok_or (rpc_error_of_json e)
                (ConnectionFailure InvalidMessage (''invalid JSON-RPC error object: '' @ rc_describe c e))) (\<lambda>x.
              Ok (PendingRpcError x)))
      | _ \<Rightarrow> Err (ConnectionFailure InvalidMessage ''JSON-RPC response must contain exactly one of result or error''))"

section \<open>The connection\<close>

record app_env =
  max_frame_bytes :: nat
  max_pending_requests :: nat
  event_queue_capacity :: nat
  request_timeout :: duration
  request_method :: "nat \<Rightarrow> bytes"
  request_frame_len :: "nat \<Rightarrow> nat"

text \<open>
  The phases of a request: the two checks, the semaphore, the identifier, the entry in the pending table, the
  write under the writer lock, the wait for the answer.  \<open>WriteFailed\<close> is a request whose write failed, \<open>Reporting\<close> one
  inside the \<^verbatim>\<open>terminate\<close> of that failure; \<open>CutOff\<close>, \<open>CutRemoved\<close> and \<open>CutStored\<close> are the points of a request whose timer
  fired before its write was complete.
\<close>

datatype request_phase =
    NotStarted
  | NotFailed
  | WaitingSlot
  | HasSlot
  | HasId nat
  | Registered nat
  | WaitingWriter nat
  | Writing nat
  | WriteFailed nat connection_failure
  | Reporting nat connection_failure
  | Awaiting nat
  | CutOff nat
  | CutRemoved nat
  | CutStored nat
  | Finished "nat option" "(app_error, json) result"
  | Dropped

text \<open>The other writers (\<^verbatim>\<open>notify\<close>, \<^verbatim>\<open>respond_result\<close>, \<^verbatim>\<open>respond_error\<close>) only write.\<close>

datatype message_phase = MessageIdle | MessageWaiting | MessageWriting | MessageFailed connection_failure | MessageDone

datatype writer_owner = ByRequest nat | ByMessage nat

datatype teardown =
    NotTerminating
  | ShutdownStarted connection_failure
  | FlagClosed connection_failure
  | FailureStored connection_failure
  | EventsClosed connection_failure
  | Draining connection_failure "(nat \<times> nat) list"
  | KillingChild
  | ClearingWriter
  | KillFailed
  | TornDown
  | Abandoned

datatype reader_phase =
    Reading
  | Matched nat pending_result json
  | Removed nat nat pending_result
  | ReapingChild
  | ReaderStopped

text \<open>
  A teardown runs in the future of the task that starts it: a task of the client itself, or a call of the application,
  which the application may drop while the teardown waits for the lock of the child.
\<close>

datatype runner = ClientTask | ApplicationCall

text \<open>What reached the child's stdin, for each write that began: all of a frame, or possibly only part of it.\<close>

datatype wire_event = FrameWritten writer_owner | FrameCut writer_owner | FrameFailed writer_owner

text \<open>
  \<open>cn_pending\<close> maps an identifier to its request, which owns a permit of the semaphore; \<open>cn_channel\<close> is what was sent on
  the one-shot channel of an identifier.  Ghost state: \<open>cn_wire\<close>, and the responses that were matched (\<open>cn_answered\<close>).
\<close>

record 'p connection =
  cn_requests :: "nat \<Rightarrow> request_phase"
  cn_messages :: "nat \<Rightarrow> message_phase"
  cn_pending :: "nat \<Rightarrow> nat option"
  cn_permits :: "nat set"
  cn_slots_closed :: bool
  cn_next_id :: nat
  cn_channel :: "nat \<Rightarrow> pending_result option"
  cn_events :: "'p app_server_event list"
  cn_events_open :: bool
  cn_terminal :: "connection_failure option"
  cn_closed :: bool
  cn_teardown :: teardown
  cn_runner :: runner
  cn_child_locked :: bool
  cn_spawned :: nat
  cn_writer_open :: bool
  cn_writer_lock :: "writer_owner option"
  cn_reader :: reader_phase
  cn_wire :: "wire_event list"
  cn_answered :: "(nat \<times> pending_result) set"

definition connection_new :: "'p connection" where
  "connection_new =
     \<lparr>cn_requests = (\<lambda>_. NotStarted), cn_messages = (\<lambda>_. MessageIdle), cn_pending = (\<lambda>_. None), cn_permits = {},
      cn_slots_closed = False, cn_next_id = 1, cn_channel = (\<lambda>_. None), cn_events = [], cn_events_open = True,
      cn_terminal = None, cn_closed = False, cn_teardown = NotTerminating, cn_runner = ClientTask,
      cn_child_locked = False, cn_spawned = 0, cn_writer_open = True,
      cn_writer_lock = None, cn_reader = Reading, cn_wire = [], cn_answered = {}\<rparr>"

section \<open>Operations on the shared state\<close>

definition set_phase :: "nat \<Rightarrow> request_phase \<Rightarrow> 'p connection \<Rightarrow> 'p connection" where
  "set_phase r p s = s\<lparr>cn_requests := (cn_requests s)(r := p)\<rparr>"

definition set_message :: "nat \<Rightarrow> message_phase \<Rightarrow> 'p connection \<Rightarrow> 'p connection" where
  "set_message k p s = s\<lparr>cn_messages := (cn_messages s)(k := p)\<rparr>"

text \<open>Removing an entry drops its permit.\<close>

definition remove_pending :: "nat \<Rightarrow> 'p connection \<Rightarrow> 'p connection" where
  "remove_pending i s =
     (case cn_pending s i of
        None \<Rightarrow> s
      | Some r \<Rightarrow> s\<lparr>cn_pending := (cn_pending s)(i := None), cn_permits := cn_permits s - {r}\<rparr>)"

definition finish_request :: "nat \<Rightarrow> nat \<Rightarrow> (app_error, json) result \<Rightarrow> 'p connection \<Rightarrow> 'p connection" where
  "finish_request r i res s = set_phase r (Finished (Some i) res) (remove_pending i s)"

definition terminate :: "runner \<Rightarrow> connection_failure \<Rightarrow> 'p connection \<Rightarrow> 'p connection" where
  "terminate who f s =
     (if cn_teardown s = NotTerminating then s\<lparr>cn_teardown := ShutdownStarted f, cn_runner := who\<rparr> else s)"

definition write_cancelled_failure :: connection_failure where
  "write_cancelled_failure =
     ConnectionFailure Io ''app-server write was cancelled; JSONL framing is no longer guaranteed''"

text \<open>\<^verbatim>\<open>WriteCancellationGuard::drop\<close> while armed, and the release of the writer lock that follows it.\<close>

definition write_cancelled :: "writer_owner \<Rightarrow> 'p connection \<Rightarrow> 'p connection" where
  "write_cancelled w s =
     s\<lparr>cn_closed := True,
       cn_terminal := (case cn_terminal s of None \<Rightarrow> Some write_cancelled_failure | Some f \<Rightarrow> Some f),
       cn_spawned := cn_spawned s + 1, cn_writer_lock := None, cn_wire := cn_wire s @ [FrameCut w]\<rparr>"

definition send_app_event ::
    "app_env \<Rightarrow> 'p app_server_event \<Rightarrow> 'p connection \<Rightarrow> (connection_failure, unit) result \<times> 'p connection" where
  "send_app_event env ev s =
     (if \<not> cn_events_open s then (Err (ConnectionFailure Closed ''app-server event channel is closed''), s)
      else if event_queue_capacity env \<le> length (cn_events s)
      then (Err (ConnectionFailure EventQueueFull ''app-server event queue rejected an event: no available capacity''), s)
      else (Ok (), s\<lparr>cn_events := cn_events s @ [ev]\<rparr>))"

definition closed_error :: "bytes \<Rightarrow> app_error" where
  "closed_error msg = ConnectionError (ConnectionFailure Closed msg)"

section \<open>Steps of a request\<close>

definition request_check_failure :: "nat \<Rightarrow> 'p connection \<Rightarrow> 'p connection" where
  "request_check_failure r s =
     (case cn_terminal s of
        Some f \<Rightarrow> set_phase r (Finished None (Err (ConnectionError f))) s
      | None \<Rightarrow> set_phase r NotFailed s)"

definition request_check_closed :: "nat \<Rightarrow> 'p connection \<Rightarrow> 'p connection" where
  "request_check_closed r s =
     (if cn_closed s then set_phase r (Finished None (Err (closed_error ''app-server connection is closed''))) s
      else set_phase r WaitingSlot s)"

text \<open>The semaphore: a closed one fails, a full one blocks until the slot timeout.\<close>

definition acquire_slot :: "nat \<Rightarrow> 'p connection \<Rightarrow> 'p connection" where
  "acquire_slot r s =
     (if cn_slots_closed s
      then set_phase r (Finished None (Err (closed_error ''app-server pending request queue is closed''))) s
      else set_phase r HasSlot (s\<lparr>cn_permits := insert r (cn_permits s)\<rparr>))"

definition take_id :: "nat \<Rightarrow> 'p connection \<Rightarrow> 'p connection" where
  "take_id r s =
     (if cn_next_id s = U64_MAX
      then set_phase r (Finished None (Err (InvalidConfiguration ''app-server request id space exhausted'')))
             (s\<lparr>cn_permits := cn_permits s - {r}\<rparr>)
      else set_phase r (HasId (cn_next_id s)) (s\<lparr>cn_next_id := cn_next_id s + 1\<rparr>))"

definition register_pending :: "nat \<Rightarrow> nat \<Rightarrow> 'p connection \<Rightarrow> 'p connection" where
  "register_pending r i s = set_phase r (Registered i) (s\<lparr>cn_pending := (cn_pending s)(i := Some r)\<rparr>)"

definition write_check :: "app_env \<Rightarrow> nat \<Rightarrow> nat \<Rightarrow> 'p connection \<Rightarrow> 'p connection" where
  "write_check env r i s =
     (if cn_closed s then finish_request r i (Err (closed_error ''app-server connection is closed'')) s
      else if request_frame_len env r > max_frame_bytes env
      then finish_request r i (Err (RequestPayloadTooLarge (max_frame_bytes env))) s
      else set_phase r (WaitingWriter i) s)"

definition lock_writer :: "nat \<Rightarrow> nat \<Rightarrow> 'p connection \<Rightarrow> 'p connection" where
  "lock_writer r i s =
     (if cn_closed s
      then finish_request r i (Err (closed_error ''app-server connection closed while waiting to write'')) s
      else if \<not> cn_writer_open s then finish_request r i (Err (closed_error ''app-server stdin is closed'')) s
      else set_phase r (Writing i) (s\<lparr>cn_writer_lock := Some (ByRequest r)\<rparr>))"

definition write_done :: "nat \<Rightarrow> nat \<Rightarrow> 'p connection \<Rightarrow> 'p connection" where
  "write_done r i s =
     set_phase r (Awaiting i) (s\<lparr>cn_writer_lock := None, cn_wire := cn_wire s @ [FrameWritten (ByRequest r)]\<rparr>)"

definition write_failed :: "nat \<Rightarrow> nat \<Rightarrow> connection_failure \<Rightarrow> 'p connection \<Rightarrow> 'p connection" where
  "write_failed r i f s =
     set_phase r (WriteFailed i f) (s\<lparr>cn_writer_lock := None, cn_wire := cn_wire s @ [FrameFailed (ByRequest r)]\<rparr>)"

definition write_failed_teardown :: "nat \<Rightarrow> nat \<Rightarrow> connection_failure \<Rightarrow> 'p connection \<Rightarrow> 'p connection" where
  "write_failed_teardown r i f s = set_phase r (Reporting i f) (terminate ApplicationCall f s)"

definition receive_result :: "nat \<Rightarrow> nat \<Rightarrow> pending_result \<Rightarrow> 'p connection \<Rightarrow> 'p connection" where
  "receive_result r i p s =
     finish_request r i
       (case p of
          PendingValue v \<Rightarrow> Ok v
        | PendingRpcError e \<Rightarrow> Err (RpcFailure e)
        | PendingConnection f \<Rightarrow> Err (ConnectionError f)) s"

text \<open>The request timer: in the response phase it only ends the request; before, the write may be half done.\<close>

definition timeout_error :: "app_env \<Rightarrow> nat \<Rightarrow> nat \<Rightarrow> app_error" where
  "timeout_error env r i = RequestTimeout (request_method env r) i (request_timeout env)"

definition write_timeout_failure :: "app_env \<Rightarrow> nat \<Rightarrow> nat \<Rightarrow> connection_failure" where
  "write_timeout_failure env r i =
     ConnectionFailure WriteTimeout
       (''request '' @ request_method env r @ '' (id '' @ nat_to_string i @
        '') timed out mid-write; the possibly half-written frame desynchronizes the JSONL stream'')"

definition cut_off_remove :: "nat \<Rightarrow> nat \<Rightarrow> 'p connection \<Rightarrow> 'p connection" where
  "cut_off_remove r i s = set_phase r (CutRemoved i) (remove_pending i s)"

definition cut_off_store :: "app_env \<Rightarrow> nat \<Rightarrow> nat \<Rightarrow> 'p connection \<Rightarrow> 'p connection" where
  "cut_off_store env r i s = set_phase r (CutStored i) (s\<lparr>cn_terminal := Some (write_timeout_failure env r i)\<rparr>)"

definition cut_off_teardown :: "app_env \<Rightarrow> nat \<Rightarrow> nat \<Rightarrow> 'p connection \<Rightarrow> 'p connection" where
  "cut_off_teardown env r i s =
     set_phase r (Finished (Some i) (Err (timeout_error env r i)))
       (terminate ApplicationCall (write_timeout_failure env r i) s)"

text \<open>The application drops the future of a request.\<close>

definition drop_request :: "nat \<Rightarrow> 'p connection \<Rightarrow> 'p connection" where
  "drop_request r s =
     set_phase r Dropped
       (case cn_requests s r of
          HasSlot \<Rightarrow> s\<lparr>cn_permits := cn_permits s - {r}\<rparr>
        | HasId _ \<Rightarrow> s\<lparr>cn_permits := cn_permits s - {r}\<rparr>
        | Registered i \<Rightarrow> remove_pending i s
        | WaitingWriter i \<Rightarrow> remove_pending i s
        | Writing i \<Rightarrow> remove_pending i (write_cancelled (ByRequest r) s)
        | Reporting i f \<Rightarrow> remove_pending i s
        | Awaiting i \<Rightarrow> remove_pending i s
        | _ \<Rightarrow> s)"

section \<open>Steps of the other parties\<close>

definition message_lock :: "nat \<Rightarrow> 'p connection \<Rightarrow> 'p connection" where
  "message_lock k s =
     (if cn_closed s \<or> \<not> cn_writer_open s then set_message k MessageDone s
      else set_message k MessageWriting (s\<lparr>cn_writer_lock := Some (ByMessage k)\<rparr>))"

definition message_written :: "nat \<Rightarrow> 'p connection \<Rightarrow> 'p connection" where
  "message_written k s =
     set_message k MessageDone (s\<lparr>cn_writer_lock := None, cn_wire := cn_wire s @ [FrameWritten (ByMessage k)]\<rparr>)"

definition message_failed :: "nat \<Rightarrow> connection_failure \<Rightarrow> 'p connection \<Rightarrow> 'p connection" where
  "message_failed k f s =
     set_message k (MessageFailed f) (s\<lparr>cn_writer_lock := None, cn_wire := cn_wire s @ [FrameFailed (ByMessage k)]\<rparr>)"

definition message_cancelled :: "nat \<Rightarrow> 'p connection \<Rightarrow> 'p connection" where
  "message_cancelled k s = set_message k MessageDone (write_cancelled (ByMessage k) s)"

text \<open>The reader: one frame up to the look at the pending table, then the removal, then the delivery.\<close>

definition publish :: "app_env \<Rightarrow> 'p app_server_event \<Rightarrow> 'p connection \<Rightarrow> 'p connection" where
  "publish env ev s =
     (case send_app_event env ev s of
        (Ok _, s') \<Rightarrow> s'\<lparr>cn_reader := Reading\<rparr>
      | (Err f, s') \<Rightarrow> (terminate ClientTask f s')\<lparr>cn_reader := ReaderStopped\<rparr>)"

definition handle_inbound :: "'p rpc_codec \<Rightarrow> app_env \<Rightarrow> bytes \<Rightarrow> 'p connection \<Rightarrow> 'p connection" where
  "handle_inbound c env line s =
     (case classify_inbound c line of
        Err f \<Rightarrow> (terminate ClientTask f s)\<lparr>cn_reader := ReaderStopped\<rparr>
      | Ok (Publish ev) \<Rightarrow> publish env ev s
      | Ok (Response i obj r) \<Rightarrow>
          if cn_pending s i = None then publish env (OrphanResponse (RpcNumber i) r) s
          else (case response_result c obj of
                  Err f \<Rightarrow> (terminate ClientTask f s)\<lparr>cn_reader := ReaderStopped\<rparr>
                | Ok res \<Rightarrow> s\<lparr>cn_reader := Matched i res r, cn_answered := insert (i, res) (cn_answered s)\<rparr>))"

definition reader_remove :: "app_env \<Rightarrow> nat \<Rightarrow> pending_result \<Rightarrow> json \<Rightarrow> 'p connection \<Rightarrow> 'p connection" where
  "reader_remove env i res r s =
     (case cn_pending s i of
        None \<Rightarrow> publish env (OrphanResponse (RpcNumber i) r) s
      | Some req \<Rightarrow> s\<lparr>cn_pending := (cn_pending s)(i := None), cn_reader := Removed i req res\<rparr>)"

definition reader_deliver :: "nat \<Rightarrow> nat \<Rightarrow> pending_result \<Rightarrow> 'p connection \<Rightarrow> 'p connection" where
  "reader_deliver i req res s =
     s\<lparr>cn_channel := (cn_channel s)(i := Some res), cn_permits := cn_permits s - {req}, cn_reader := Reading\<rparr>"

text \<open>
  The teardown, run by whoever swaps the shutdown flag first.  The status of a child that has already exited is
  folded into the message; the failure that is stored first is the one that is broadcast.
\<close>

definition fold_exit_status :: "bytes option \<Rightarrow> connection_failure \<Rightarrow> connection_failure" where
  "fold_exit_status status f =
     (case f of ConnectionFailure kind msg \<Rightarrow>
        (case status of
           Some st \<Rightarrow>
             if kind \<noteq> Closed \<and> kind \<noteq> ChildExit
             then ConnectionFailure kind (msg @ ''; app-server child exited with status '' @ st) else f
         | None \<Rightarrow> f))"

definition store_failure :: "connection_failure \<Rightarrow> 'p connection \<Rightarrow> 'p connection" where
  "store_failure f s =
     (let stored = (case cn_terminal s of Some g \<Rightarrow> g | None \<Rightarrow> f)
      in s\<lparr>cn_terminal := Some stored, cn_teardown := FailureStored stored\<rparr>)"

definition drain_pending :: "connection_failure \<Rightarrow> (nat \<times> nat) list \<Rightarrow> 'p connection \<Rightarrow> 'p connection" where
  "drain_pending f entries s = s\<lparr>cn_pending := (\<lambda>_. None), cn_teardown := Draining f entries\<rparr>"

definition broadcast :: "connection_failure \<Rightarrow> nat \<Rightarrow> nat \<Rightarrow> (nat \<times> nat) list \<Rightarrow> 'p connection \<Rightarrow> 'p connection" where
  "broadcast f i r entries s =
     s\<lparr>cn_channel := (cn_channel s)(i := Some (PendingConnection f)), cn_permits := cn_permits s - {r},
       cn_teardown := Draining f entries\<rparr>"

section \<open>The system\<close>

inductive app_step :: "'p rpc_codec \<Rightarrow> app_env \<Rightarrow> 'p connection \<Rightarrow> 'p connection \<Rightarrow> bool"
  for c :: "'p rpc_codec" and env :: app_env where
  check_failure: "cn_requests s r = NotStarted \<Longrightarrow> app_step c env s (request_check_failure r s)"
| check_closed: "cn_requests s r = NotFailed \<Longrightarrow> app_step c env s (request_check_closed r s)"
| get_slot: "cn_requests s r = WaitingSlot \<Longrightarrow> cn_slots_closed s \<or> card (cn_permits s) < max_pending_requests env \<Longrightarrow>
    app_step c env s (acquire_slot r s)"
| slot_timeout: "cn_requests s r = WaitingSlot \<Longrightarrow>
    app_step c env s (set_phase r (Finished None (Err (PendingCapacityTimeout (request_timeout env)))) s)"
| get_id: "cn_requests s r = HasSlot \<Longrightarrow> app_step c env s (take_id r s)"
| register: "cn_requests s r = HasId i \<Longrightarrow> app_step c env s (register_pending r i s)"
| check_write: "cn_requests s r = Registered i \<Longrightarrow> app_step c env s (write_check env r i s)"
| get_writer: "cn_requests s r = WaitingWriter i \<Longrightarrow> cn_writer_lock s = None \<Longrightarrow> app_step c env s (lock_writer r i s)"
| end_write: "cn_requests s r = Writing i \<Longrightarrow> app_step c env s (write_done r i s)"
| fail_write: "cn_requests s r = Writing i \<Longrightarrow> app_step c env s (write_failed r i f s)"
| report_write: "cn_requests s r = WriteFailed i f \<Longrightarrow> app_step c env s (write_failed_teardown r i f s)"
| write_reported: "cn_requests s r = Reporting i f \<Longrightarrow> app_step c env s (finish_request r i (Err (ConnectionError f)) s)"
| receive: "cn_requests s r = Awaiting i \<Longrightarrow> cn_channel s i = Some p \<Longrightarrow> app_step c env s (receive_result r i p s)"
| channel_closed: "cn_requests s r = Awaiting i \<Longrightarrow> cn_channel s i = None \<Longrightarrow> cn_pending s i = None \<Longrightarrow>
    (\<And>req res. cn_reader s \<noteq> Removed i req res) \<Longrightarrow>
    (\<And>f entries. cn_teardown s = Draining f entries \<Longrightarrow> i \<notin> fst ` set entries) \<Longrightarrow>
    app_step c env s (finish_request r i (Err (ResponseChannelClosed i)) s)"
| late_response: "cn_requests s r = Awaiting i \<Longrightarrow> app_step c env s (finish_request r i (Err (timeout_error env r i)) s)"
| cut_early: "cn_requests s r \<in> {Registered i, WaitingWriter i, Reporting i f} \<Longrightarrow> app_step c env s (set_phase r (CutOff i) s)"
| cut_write: "cn_requests s r = Writing i \<Longrightarrow> app_step c env s (set_phase r (CutOff i) (write_cancelled (ByRequest r) s))"
| cut_remove: "cn_requests s r = CutOff i \<Longrightarrow> app_step c env s (cut_off_remove r i s)"
| cut_store: "cn_requests s r = CutRemoved i \<Longrightarrow> app_step c env s (cut_off_store env r i s)"
| cut_teardown: "cn_requests s r = CutStored i \<Longrightarrow> app_step c env s (cut_off_teardown env r i s)"
| drop_future: "\<forall>i f. cn_requests s r \<notin> {CutOff i, CutRemoved i, CutStored i, WriteFailed i f} \<Longrightarrow> \<forall>x y. cn_requests s r \<noteq> Finished x y \<Longrightarrow>
    app_step c env s (drop_request r s)"
| begin_message: "cn_messages s k = MessageIdle \<Longrightarrow> \<not> cn_closed s \<Longrightarrow> app_step c env s (set_message k MessageWaiting s)"
| lock_message: "cn_messages s k = MessageWaiting \<Longrightarrow> cn_writer_lock s = None \<Longrightarrow> app_step c env s (message_lock k s)"
| end_message: "cn_messages s k = MessageWriting \<Longrightarrow> app_step c env s (message_written k s)"
| fail_message: "cn_messages s k = MessageWriting \<Longrightarrow> app_step c env s (message_failed k f s)"
| report_message: "cn_messages s k = MessageFailed f \<Longrightarrow> app_step c env s (set_message k MessageDone (terminate ApplicationCall f s))"
| cancel_message: "cn_messages s k = MessageWriting \<Longrightarrow> app_step c env s (message_cancelled k s)"
| read_frame: "cn_reader s = Reading \<Longrightarrow> app_step c env s (handle_inbound c env line s)"
| remove_match: "cn_reader s = Matched i res r \<Longrightarrow> app_step c env s (reader_remove env i res r s)"
| deliver_match: "cn_reader s = Removed i req res \<Longrightarrow> app_step c env s (reader_deliver i req res s)"
| reader_failed: "cn_reader s = Reading \<Longrightarrow> app_step c env s ((terminate ClientTask f s)\<lparr>cn_reader := ReaderStopped\<rparr>)"
| reader_eof: "cn_reader s = Reading \<Longrightarrow> \<not> cn_child_locked s \<Longrightarrow>
    app_step c env s (s\<lparr>cn_reader := ReapingChild, cn_child_locked := True\<rparr>)"
| reaped: "cn_reader s = ReapingChild \<Longrightarrow>
    app_step c env s ((terminate ClientTask f s)\<lparr>cn_reader := ReaderStopped, cn_child_locked := False\<rparr>)"
| next_event: "cn_events s = ev # evs \<Longrightarrow> app_step c env s (s\<lparr>cn_events := evs\<rparr>)"
| close_connection: "app_step c env s (terminate ApplicationCall (ConnectionFailure Closed ''app-server client closed'') s)"
| spawned_teardown: "0 < cn_spawned s \<Longrightarrow>
    app_step c env s (terminate ClientTask write_cancelled_failure (s\<lparr>cn_spawned := cn_spawned s - 1\<rparr>))"
| set_closed: "cn_teardown s = ShutdownStarted f \<Longrightarrow> app_step c env s (s\<lparr>cn_closed := True, cn_teardown := FlagClosed f\<rparr>)"
| abandon: "cn_teardown s = FlagClosed f \<Longrightarrow> cn_child_locked s \<Longrightarrow> cn_runner s = ApplicationCall \<Longrightarrow>
    app_step c env s (s\<lparr>cn_teardown := Abandoned\<rparr>)"
| store: "cn_teardown s = FlagClosed f \<Longrightarrow> \<not> cn_child_locked s \<Longrightarrow> app_step c env s (store_failure (fold_exit_status status f) s)"
| close_events: "cn_teardown s = FailureStored f \<Longrightarrow> app_step c env s (s\<lparr>cn_events_open := False, cn_teardown := EventsClosed f\<rparr>)"
| drain: "cn_teardown s = EventsClosed f \<Longrightarrow> distinct (map fst entries) \<Longrightarrow> map_of entries = cn_pending s \<Longrightarrow>
    app_step c env s (drain_pending f entries s)"
| tell: "cn_teardown s = Draining f ((i, r) # entries) \<Longrightarrow> app_step c env s (broadcast f i r entries s)"
| close_slots: "cn_teardown s = Draining f [] \<Longrightarrow> app_step c env s (s\<lparr>cn_slots_closed := True, cn_teardown := KillingChild\<rparr>)"
| child_gone: "cn_teardown s = KillingChild \<Longrightarrow> app_step c env s (s\<lparr>cn_teardown := ClearingWriter\<rparr>)"
| clear_writer: "cn_teardown s = ClearingWriter \<Longrightarrow> cn_writer_lock s = None \<Longrightarrow>
    app_step c env s (s\<lparr>cn_writer_open := False, cn_teardown := TornDown\<rparr>)"
| kill_failed: "cn_teardown s = KillingChild \<Longrightarrow> app_step c env s (s\<lparr>cn_teardown := KillFailed\<rparr>)"

inductive_cases app_stepE: "app_step c env s s'"

end
