(* ===== verification/App_Server_Ledger.thy ===== *)
theory App_Server_Ledger
  imports State_Machine
begin

text \<open>
  The bookkeeping of in-flight requests, as an abstract machine: requests take a permit and an identifier, open an
  entry under it, and settle; someone may take entries over, and then sends their answers.  The app-server
  connection refines it (\<^verbatim>\<open>App_Server_Safety\<close>).
\<close>

datatype stage = Outside | Slot | Numbered nat | Open nat | Over "nat option"

fun stage_id :: "stage \<Rightarrow> nat option" where
  "stage_id (Numbered i) = Some i"
| "stage_id (Open i) = Some i"
| "stage_id (Over x) = x"
| "stage_id _ = None"

text \<open>\<open>lg_held\<close> are the entries that were taken out of the table and not yet answered, \<open>lg_sent\<close> the answered identifiers.\<close>

record ledger =
  lg_stage :: "nat \<Rightarrow> stage"
  lg_next :: nat
  lg_pending :: "nat \<Rightarrow> nat option"
  lg_permits :: "nat set"
  lg_held :: "(nat \<times> nat) set"
  lg_sent :: "nat set"

definition ledger_new :: ledger where
  "ledger_new =
     \<lparr>lg_stage = (\<lambda>_. Outside), lg_next = 1, lg_pending = (\<lambda>_. None), lg_permits = {}, lg_held = {}, lg_sent = {}\<rparr>"

inductive ledger_step :: "nat \<Rightarrow> ledger \<Rightarrow> ledger \<Rightarrow> bool" for limit :: nat where
  enter: "lg_stage l r = Outside \<Longrightarrow> card (lg_permits l) < limit \<Longrightarrow>
    ledger_step limit l (l\<lparr>lg_stage := (lg_stage l)(r := Slot), lg_permits := insert r (lg_permits l)\<rparr>)"
| refuse: "lg_stage l r = Outside \<Longrightarrow> ledger_step limit l (l\<lparr>lg_stage := (lg_stage l)(r := Over None)\<rparr>)"
| give_back: "lg_stage l r = Slot \<or> lg_stage l r = Numbered i \<Longrightarrow>
    ledger_step limit l (l\<lparr>lg_stage := (lg_stage l)(r := Over None), lg_permits := lg_permits l - {r}\<rparr>)"
| give_number: "lg_stage l r = Slot \<Longrightarrow>
    ledger_step limit l (l\<lparr>lg_stage := (lg_stage l)(r := Numbered (lg_next l)), lg_next := lg_next l + 1\<rparr>)"
| open_entry: "lg_stage l r = Numbered i \<Longrightarrow>
    ledger_step limit l (l\<lparr>lg_stage := (lg_stage l)(r := Open i), lg_pending := (lg_pending l)(i := Some r)\<rparr>)"
| settle: "lg_stage l r = Open i \<Longrightarrow> x = None \<or> x = Some i \<Longrightarrow>
    ledger_step limit l (l\<lparr>lg_stage := (lg_stage l)(r := Over x), lg_pending := (lg_pending l)(i := None),
      lg_permits := (case lg_pending l i of None \<Rightarrow> lg_permits l | Some q \<Rightarrow> lg_permits l - {q})\<rparr>)"
| take_entry: "lg_pending l i = Some r \<Longrightarrow>
    ledger_step limit l (l\<lparr>lg_pending := (lg_pending l)(i := None), lg_held := insert (i, r) (lg_held l)\<rparr>)"
| take_all: "ledger_step limit l (l\<lparr>lg_pending := (\<lambda>_. None), lg_held := lg_held l \<union> {(i, r). lg_pending l i = Some r}\<rparr>)"
| send: "(i, r) \<in> lg_held l \<Longrightarrow> lg_held l - {(i, r)} \<subseteq> held \<Longrightarrow> held \<subseteq> lg_held l \<Longrightarrow>
    ledger_step limit l (l\<lparr>lg_held := held, lg_sent := insert i (lg_sent l), lg_permits := lg_permits l - {r}\<rparr>)"

inductive_cases ledger_stepE: "ledger_step limit l l'"

section \<open>Invariants\<close>

definition unique_ids :: "ledger \<Rightarrow> bool" where
  "unique_ids l \<longleftrightarrow>
     (\<forall>r i. stage_id (lg_stage l r) = Some i \<longrightarrow> i < lg_next l)
     \<and> (\<forall>r r' i. stage_id (lg_stage l r) = Some i \<longrightarrow> stage_id (lg_stage l r') = Some i \<longrightarrow> r = r')"

definition entries_ok :: "ledger \<Rightarrow> bool" where
  "entries_ok l \<longleftrightarrow>
     (\<forall>i r. lg_pending l i = Some r \<longrightarrow> lg_stage l r = Open i)
     \<and> (\<forall>i r. (i, r) \<in> lg_held l \<longrightarrow> lg_pending l i \<noteq> Some r \<and> (lg_stage l r = Open i \<or> (\<exists>x. lg_stage l r = Over x)))
     \<and> (\<forall>i r. lg_stage l r = Open i \<longrightarrow> lg_pending l i = Some r \<or> (i, r) \<in> lg_held l \<or> i \<in> lg_sent l)"

definition permits_ok :: "nat \<Rightarrow> ledger \<Rightarrow> bool" where
  "permits_ok limit l \<longleftrightarrow>
     finite (lg_permits l) \<and> card (lg_permits l) \<le> limit
     \<and> (\<forall>i r. lg_pending l i = Some r \<longrightarrow> r \<in> lg_permits l)
     \<and> (\<forall>r. lg_stage l r = Slot \<or> (\<exists>i. lg_stage l r = Numbered i) \<longrightarrow> r \<in> lg_permits l)"

definition ledger_inv :: "nat \<Rightarrow> ledger \<Rightarrow> bool" where
  "ledger_inv limit l \<longleftrightarrow> unique_ids l \<and> entries_ok l \<and> permits_ok limit l"

lemma unique_ids_move:
  assumes "unique_ids l" and "lg_stage l' = (lg_stage l)(r := p)" and "lg_next l' = lg_next l"
    and "stage_id p = None \<or> stage_id p = stage_id (lg_stage l r)"
  shows "unique_ids l'"
  using assms(1,4) unfolding unique_ids_def assms(2,3) by (auto split: if_splits) metis+

lemma unique_ids_step:
  assumes "unique_ids l" and "ledger_step limit l l'"
  shows "unique_ids l'"
  using assms(2)
proof (cases rule: ledger_step.cases)
  case (give_number r)
  with assms(1) show ?thesis unfolding unique_ids_def by (auto split: if_splits simp: less_Suc_eq)
next
  case (settle r i x)
  then show ?thesis by (intro unique_ids_move [OF assms(1), of _ r "Over x"]) auto
next
  case (open_entry r i)
  then show ?thesis by (intro unique_ids_move [OF assms(1), of _ r "Open i"]) auto
qed (use assms(1) in \<open>auto simp: unique_ids_def split: if_splits\<close>)

lemma unique_idsD: "unique_ids l \<Longrightarrow> lg_stage l r = Open i \<Longrightarrow> lg_stage l r' = Open i \<Longrightarrow> r = r'"
  unfolding unique_ids_def by (metis stage_id.simps(2))

lemma entries_okD:
  assumes "entries_ok l"
  shows "lg_pending l i = Some r \<Longrightarrow> lg_stage l r = Open i"
    and "(i, r) \<in> lg_held l \<Longrightarrow> lg_pending l i \<noteq> Some r \<and> (lg_stage l r = Open i \<or> (\<exists>x. lg_stage l r = Over x))"
    and "lg_stage l r = Open i \<Longrightarrow> lg_pending l i = Some r \<or> (i, r) \<in> lg_held l \<or> i \<in> lg_sent l"
  using assms unfolding entries_ok_def by blast+

lemma entries_okI:
  assumes "\<And>i r. lg_pending l i = Some r \<Longrightarrow> lg_stage l r = Open i"
    and "\<And>i r. (i, r) \<in> lg_held l \<Longrightarrow> lg_pending l i \<noteq> Some r \<and> (lg_stage l r = Open i \<or> (\<exists>x. lg_stage l r = Over x))"
    and "\<And>i r. lg_stage l r = Open i \<Longrightarrow> lg_pending l i = Some r \<or> (i, r) \<in> lg_held l \<or> i \<in> lg_sent l"
  shows "entries_ok l"
  using assms unfolding entries_ok_def by blast

lemma held_not_pending:
  assumes "entries_ok l" and "(i, r) \<in> lg_held l"
  shows "lg_pending l j \<noteq> Some r"
  using entries_okD(2) [OF assms] entries_okD(1) [OF assms(1), of j r] by auto

lemma entries_ok_step:
  assumes "unique_ids l" and "entries_ok l" and "ledger_step limit l l'"
  shows "entries_ok l'"
proof -
  note e = entries_okD [OF assms(2)]
  from assms(3) show ?thesis
  proof (cases rule: ledger_step.cases)
    case (settle r i x)
    have u: "lg_stage l r' \<noteq> Open i" if "r' \<noteq> r" for r' using unique_idsD [OF assms(1)] settle(2) that by blast
    show ?thesis
      by (rule entries_okI) (use settle(1,2) u in \<open>auto split: if_splits dest: e(1) e(2) e(3)\<close>)
  next
    case (open_entry r i)
    have "stage_id (lg_stage l r) = Some i" using open_entry(2) by simp
    then have u: "lg_stage l r' \<noteq> Open i" for r'
      using assms(1) open_entry(2) unfolding unique_ids_def by (cases "r' = r") (simp, metis stage_id.simps(2))
    show ?thesis
      by (rule entries_okI) (use open_entry(1,2) u in \<open>auto split: if_splits dest: e(1) e(2) e(3)\<close>)
  next
    case (send i r held)
    have h: "(j, q) \<in> held \<Longrightarrow> (j, q) \<in> lg_held l" "(j, q) \<in> lg_held l \<Longrightarrow> (j, q) \<in> held \<or> j = i" for j q
      using send(3,4) by auto
    show ?thesis
      by (rule entries_okI) (use send(1) in \<open>auto dest: e(1) e(2) e(3) dest!: h(1) dest: h(2)\<close>)
  next
    case take_all
    show ?thesis by (rule entries_okI) (use take_all in \<open>auto dest: e(1) e(2) e(3)\<close>)
  next
    case (take_entry i r)
    show ?thesis by (rule entries_okI) (use take_entry in \<open>auto split: if_splits dest: e(1) e(2) e(3)\<close>)
  next
    case (enter r)
    show ?thesis by (rule entries_okI) (use enter(1,2) in \<open>auto split: if_splits dest: e(1) e(2) e(3)\<close>)
  next
    case (refuse r)
    show ?thesis by (rule entries_okI) (use refuse(1,2) in \<open>auto split: if_splits dest: e(1) e(2) e(3)\<close>)
  next
    case (give_back r i)
    show ?thesis by (rule entries_okI) (use give_back(1,2) in \<open>auto split: if_splits dest: e(1) e(2) e(3)\<close>)
  next
    case (give_number r)
    show ?thesis by (rule entries_okI) (use give_number(1,2) in \<open>auto split: if_splits dest: e(1) e(2) e(3)\<close>)
  qed
qed

lemma permits_ok_shrink:
  assumes "permits_ok limit l" and "lg_permits l' = lg_permits l - {q}"
    and "\<And>i r. lg_pending l' i = Some r \<Longrightarrow> lg_pending l i = Some r \<and> r \<noteq> q"
    and "\<And>r. lg_stage l' r = Slot \<or> (\<exists>i. lg_stage l' r = Numbered i) \<Longrightarrow> lg_stage l' r = lg_stage l r \<and> r \<noteq> q"
  shows "permits_ok limit l'"
proof -
  have "r \<in> lg_permits l - {q}" if "lg_stage l' r = Slot \<or> (\<exists>i. lg_stage l' r = Numbered i)" for r
    using assms(1) assms(4) [OF that] that unfolding permits_ok_def by auto
  with assms(1) show ?thesis
    unfolding permits_ok_def assms(2) by (auto dest: assms(3) intro: order_trans [OF card_Diff1_le])
qed

lemma permits_ok_step:
  assumes "unique_ids l" and "entries_ok l" and "permits_ok limit l" and "ledger_step limit l l'"
  shows "permits_ok limit l'"
  using assms(4)
proof (cases rule: ledger_step.cases)
  case (enter r)
  with assms(3) show ?thesis unfolding permits_ok_def by (auto simp: card_insert_if)
next
  case (settle r i x)
  have q: "q = r" if "lg_pending l i = Some q" for q
    using unique_idsD [OF assms(1)] entries_okD(1) [OF assms(2)] settle(2) that by blast
  have other: "lg_pending l j \<noteq> Some r" if "j \<noteq> i" for j using entries_okD(1) [OF assms(2), of j r] settle(2) that by auto
  show ?thesis
  proof (cases "lg_pending l i")
    case None
    with assms(3) settle show ?thesis unfolding permits_ok_def by (auto split: if_splits)
  next
    case (Some p)
    with q [of p] other settle(1,2) show ?thesis by (intro permits_ok_shrink [OF assms(3), of _ r]) (auto split: if_splits)
  qed
next
  case (send i r held)
  have "lg_stage l r \<noteq> Slot" "lg_stage l r \<noteq> Numbered j" for j
    using entries_okD(2) [OF assms(2) send(2)] by auto
  with send held_not_pending [OF assms(2) send(2)] show ?thesis
    by (intro permits_ok_shrink [OF assms(3), of _ r]) auto
next
  case (give_back r i)
  have "lg_pending l j \<noteq> Some r" for j using entries_okD(1) [OF assms(2), of j r] give_back(2) by auto
  with give_back show ?thesis
    by (intro permits_ok_shrink [OF assms(3), of _ r]) (auto split: if_splits)
next
  case (open_entry r i)
  with assms(3) show ?thesis unfolding permits_ok_def by (auto split: if_splits)
next
  case (give_number r)
  with assms(3) show ?thesis unfolding permits_ok_def by (auto split: if_splits)
next
  case (refuse r)
  with assms(3) show ?thesis unfolding permits_ok_def by (auto split: if_splits)
next
  case (take_entry i r)
  with assms(3) show ?thesis unfolding permits_ok_def by (auto split: if_splits)
next
  case take_all
  with assms(3) show ?thesis unfolding permits_ok_def by simp
qed

lemma ledger_inv_step: "ledger_inv limit l \<Longrightarrow> ledger_step limit l l' \<Longrightarrow> ledger_inv limit l'"
  unfolding ledger_inv_def by (blast intro: unique_ids_step entries_ok_step permits_ok_step)

interpretation ledger: machine_invariant ledger_new "ledger_step limit" "ledger_inv limit" for limit
proof
  show "ledger_inv limit ledger_new"
    by (simp add: ledger_inv_def unique_ids_def entries_ok_def permits_ok_def ledger_new_def)
qed (rule ledger_inv_step)

text \<open>The table never has more entries than there are permits.\<close>

lemma pending_bounded:
  assumes "ledger_inv limit l"
  shows "finite (dom (lg_pending l)) \<and> card (dom (lg_pending l)) \<le> limit"
proof -
  let ?f = "\<lambda>i. the (lg_pending l i)"
  have "inj_on ?f (dom (lg_pending l))"
    using assms by (auto simp: ledger_inv_def inj_on_def) (metis entries_okD(1) stage.inject(2))
  moreover have "?f ` dom (lg_pending l) \<subseteq> lg_permits l" "finite (lg_permits l)" "card (lg_permits l) \<le> limit"
    using assms unfolding ledger_inv_def permits_ok_def by auto
  ultimately show ?thesis by (meson card_inj_on_le finite_imageD finite_subset order_trans)
qed

end
