(* ===== verification/App_Server_Refinement.thy ===== *)
theory App_Server_Refinement
  imports App_Server App_Server_Ledger
begin

text \<open>
  The app-server connection refines the ledger of in-flight requests: what each step does to the parts of the state,
  the abstraction, and the simulation, in every interleaving of requests, other writers, the reader and the teardown.
\<close>

section \<open>Effects of the operations\<close>

lemma set_phase_simps [simp]:
  "cn_requests (set_phase r p s) = (cn_requests s)(r := p)" "cn_messages (set_phase r p s) = cn_messages s"
  "cn_pending (set_phase r p s) = cn_pending s" "cn_permits (set_phase r p s) = cn_permits s"
  "cn_next_id (set_phase r p s) = cn_next_id s" "cn_channel (set_phase r p s) = cn_channel s"
  "cn_events (set_phase r p s) = cn_events s" "cn_closed (set_phase r p s) = cn_closed s"
  "cn_teardown (set_phase r p s) = cn_teardown s" "cn_writer_lock (set_phase r p s) = cn_writer_lock s"
  "cn_reader (set_phase r p s) = cn_reader s" "cn_wire (set_phase r p s) = cn_wire s"
  "cn_answered (set_phase r p s) = cn_answered s" "cn_terminal (set_phase r p s) = cn_terminal s"
  by (simp_all add: set_phase_def)

lemma set_message_simps [simp]:
  "cn_requests (set_message k p s) = cn_requests s" "cn_messages (set_message k p s) = (cn_messages s)(k := p)"
  "cn_pending (set_message k p s) = cn_pending s" "cn_permits (set_message k p s) = cn_permits s"
  "cn_next_id (set_message k p s) = cn_next_id s" "cn_channel (set_message k p s) = cn_channel s"
  "cn_events (set_message k p s) = cn_events s" "cn_closed (set_message k p s) = cn_closed s"
  "cn_teardown (set_message k p s) = cn_teardown s" "cn_writer_lock (set_message k p s) = cn_writer_lock s"
  "cn_reader (set_message k p s) = cn_reader s" "cn_wire (set_message k p s) = cn_wire s"
  "cn_answered (set_message k p s) = cn_answered s" "cn_terminal (set_message k p s) = cn_terminal s"
  by (simp_all add: set_message_def)

lemma remove_pending_simps [simp]:
  "cn_requests (remove_pending i s) = cn_requests s" "cn_messages (remove_pending i s) = cn_messages s"
  "cn_pending (remove_pending i s) = (cn_pending s)(i := None)"
  "cn_permits (remove_pending i s) = (case cn_pending s i of None \<Rightarrow> cn_permits s | Some r \<Rightarrow> cn_permits s - {r})"
  "cn_next_id (remove_pending i s) = cn_next_id s" "cn_channel (remove_pending i s) = cn_channel s"
  "cn_events (remove_pending i s) = cn_events s" "cn_closed (remove_pending i s) = cn_closed s"
  "cn_teardown (remove_pending i s) = cn_teardown s" "cn_writer_lock (remove_pending i s) = cn_writer_lock s"
  "cn_reader (remove_pending i s) = cn_reader s" "cn_wire (remove_pending i s) = cn_wire s"
  "cn_answered (remove_pending i s) = cn_answered s" "cn_terminal (remove_pending i s) = cn_terminal s"
  by (auto simp: remove_pending_def split: option.split)

lemma terminate_simps [simp]:
  "cn_requests (terminate w f s) = cn_requests s" "cn_messages (terminate w f s) = cn_messages s"
  "cn_pending (terminate w f s) = cn_pending s" "cn_permits (terminate w f s) = cn_permits s"
  "cn_next_id (terminate w f s) = cn_next_id s" "cn_channel (terminate w f s) = cn_channel s"
  "cn_events (terminate w f s) = cn_events s" "cn_closed (terminate w f s) = cn_closed s"
  "cn_teardown (terminate w f s) = (if cn_teardown s = NotTerminating then ShutdownStarted f else cn_teardown s)"
  "cn_writer_lock (terminate w f s) = cn_writer_lock s"
  "cn_reader (terminate w f s) = cn_reader s" "cn_wire (terminate w f s) = cn_wire s"
  "cn_answered (terminate w f s) = cn_answered s" "cn_terminal (terminate w f s) = cn_terminal s"
  by (simp_all add: terminate_def)

lemma publish_simps [simp]:
  "cn_requests (publish env ev s) = cn_requests s" "cn_messages (publish env ev s) = cn_messages s"
  "cn_pending (publish env ev s) = cn_pending s" "cn_permits (publish env ev s) = cn_permits s"
  "cn_next_id (publish env ev s) = cn_next_id s" "cn_channel (publish env ev s) = cn_channel s"
  "cn_closed (publish env ev s) = cn_closed s" "cn_writer_lock (publish env ev s) = cn_writer_lock s"
  "cn_wire (publish env ev s) = cn_wire s" "cn_answered (publish env ev s) = cn_answered s"
  by (simp_all add: publish_def send_app_event_def)

lemma publish_reader: "cn_reader (publish env ev s) \<in> {Reading, ReaderStopped}"
  by (simp add: publish_def send_app_event_def)

lemma publish_teardown:
  "cn_teardown (publish env ev s) = cn_teardown s \<or> cn_teardown s = NotTerminating \<and> (\<exists>f. cn_teardown (publish env ev s) = ShutdownStarted f)"
  by (simp add: publish_def send_app_event_def)

lemmas step_defs = request_check_failure_def request_check_closed_def acquire_slot_def take_id_def register_pending_def
  write_check_def lock_writer_def write_done_def write_failed_def write_failed_teardown_def receive_result_def
  cut_off_remove_def cut_off_store_def cut_off_teardown_def message_lock_def message_written_def message_failed_def message_cancelled_def
  reader_remove_def reader_deliver_def store_failure_def drain_pending_def broadcast_def
  finish_request_def write_cancelled_def

lemma drop_request_simps [simp]:
  "cn_requests (drop_request r s) = (cn_requests s)(r := Dropped)" "cn_next_id (drop_request r s) = cn_next_id s"
  "cn_channel (drop_request r s) = cn_channel s" "cn_reader (drop_request r s) = cn_reader s"
  "cn_teardown (drop_request r s) = cn_teardown s" "cn_answered (drop_request r s) = cn_answered s"
  "cn_events (drop_request r s) = cn_events s" "cn_messages (drop_request r s) = cn_messages s"
  by (auto simp: drop_request_def write_cancelled_def split: request_phase.split)

lemma handle_inbound_simps [simp]:
  "cn_requests (handle_inbound c env l s) = cn_requests s" "cn_messages (handle_inbound c env l s) = cn_messages s"
  "cn_pending (handle_inbound c env l s) = cn_pending s" "cn_permits (handle_inbound c env l s) = cn_permits s"
  "cn_next_id (handle_inbound c env l s) = cn_next_id s" "cn_channel (handle_inbound c env l s) = cn_channel s"
  "cn_closed (handle_inbound c env l s) = cn_closed s" "cn_writer_lock (handle_inbound c env l s) = cn_writer_lock s"
  "cn_wire (handle_inbound c env l s) = cn_wire s"
  by (auto simp: handle_inbound_def split: sum.split inbound.split)

section \<open>The connection refines the ledger\<close>

fun stage_of :: "request_phase \<Rightarrow> stage" where
  "stage_of HasSlot = Slot"
| "stage_of (HasId i) = Numbered i"
| "stage_of (Registered i) = Open i"
| "stage_of (WaitingWriter i) = Open i"
| "stage_of (Writing i) = Open i"
| "stage_of (WriteFailed i f) = Open i"
| "stage_of (Reporting i f) = Open i"
| "stage_of (Awaiting i) = Open i"
| "stage_of (CutOff i) = Open i"
| "stage_of (CutRemoved i) = Over (Some i)"
| "stage_of (CutStored i) = Over (Some i)"
| "stage_of (Finished x res) = Over x"
| "stage_of Dropped = Over None"
| "stage_of _ = Outside"

text \<open>Entries in the hands of the reader or of the teardown.\<close>

definition reader_held :: "reader_phase \<Rightarrow> (nat \<times> nat) set" where
  "reader_held p = (case p of Removed i r res \<Rightarrow> {(i, r)} | _ \<Rightarrow> {})"

definition teardown_held :: "teardown \<Rightarrow> (nat \<times> nat) set" where
  "teardown_held t = (case t of Draining f es \<Rightarrow> set es | _ \<Rightarrow> {})"

definition ledger_of :: "'p connection \<Rightarrow> ledger" where
  "ledger_of s =
     \<lparr>lg_stage = stage_of \<circ> cn_requests s, lg_next = cn_next_id s, lg_pending = cn_pending s, lg_permits = cn_permits s,
      lg_held = reader_held (cn_reader s) \<union> teardown_held (cn_teardown s), lg_sent = dom (cn_channel s)\<rparr>"

lemma stage_keep: "stage_of p = stage_of (cn_requests s r) \<Longrightarrow> (stage_of \<circ> cn_requests s)(r := stage_of p) = stage_of \<circ> cn_requests s"
  by auto

lemma publish_held: "reader_held (cn_reader (publish env ev s)) = {}"
  using publish_reader [of env ev s] by (auto simp: reader_held_def)

lemma publish_teardown_held [simp]: "teardown_held (cn_teardown (publish env ev s)) = teardown_held (cn_teardown s)"
  using publish_teardown [of env ev s] by (auto simp: teardown_held_def)

lemma terminate_held [simp]: "teardown_held (if t = NotTerminating then ShutdownStarted f else t) = teardown_held t"
  by (simp add: teardown_held_def)

lemma ledger_settle:
  assumes "stage_of (cn_requests s r) = Open i" and "x = None \<or> x = Some i" and "stage_of p = Over x"
    and "cn_requests s' = (cn_requests s)(r := p)" and "cn_pending s' = (cn_pending s)(i := None)"
    and "cn_permits s' = (case cn_pending s i of None \<Rightarrow> cn_permits s | Some q \<Rightarrow> cn_permits s - {q})"
    and "cn_next_id s' = cn_next_id s" and "cn_reader s' = cn_reader s" and "cn_channel s' = cn_channel s"
    and "teardown_held (cn_teardown s') = teardown_held (cn_teardown s)"
  shows "ledger_step limit (ledger_of s) (ledger_of s')"
proof (cases "cn_pending s i")
  case None
  then show ?thesis using ledger_step.settle [of "ledger_of s" r i x limit] assms by (simp add: ledger_of_def fun_upd_comp)
next
  case (Some q)
  then show ?thesis using ledger_step.settle [of "ledger_of s" r i x limit] assms by (simp add: ledger_of_def fun_upd_comp)
qed

lemma ledger_other:
  assumes "stage_of p = stage_of (cn_requests s r)" and "cn_requests s' = (cn_requests s)(r := p)"
    and "cn_pending s' = cn_pending s" and "cn_permits s' = cn_permits s" and "cn_next_id s' = cn_next_id s"
    and "cn_reader s' = cn_reader s" and "cn_channel s' = cn_channel s"
    and "teardown_held (cn_teardown s') = teardown_held (cn_teardown s)"
  shows "ledger_of s' = ledger_of s"
  using assms by (simp add: ledger_of_def fun_upd_comp stage_keep)

lemma ledger_same:
  assumes "cn_requests s' = cn_requests s"
    and "cn_pending s' = cn_pending s" and "cn_permits s' = cn_permits s" and "cn_next_id s' = cn_next_id s"
    and "reader_held (cn_reader s') = reader_held (cn_reader s)" and "cn_channel s' = cn_channel s"
    and "teardown_held (cn_teardown s') = teardown_held (cn_teardown s)"
  shows "ledger_of s' = ledger_of s"
  using assms by (simp add: ledger_of_def)


definition ledger_moves :: "nat \<Rightarrow> 'p connection \<Rightarrow> 'p connection \<Rightarrow> bool" where
  "ledger_moves limit s s' \<longleftrightarrow> ledger_of s' = ledger_of s \<or> ledger_step limit (ledger_of s) (ledger_of s')"

lemma movesI: "ledger_of s' = ledger_of s \<Longrightarrow> ledger_moves limit s s'" "ledger_step limit (ledger_of s) (ledger_of s') \<Longrightarrow> ledger_moves limit s s'"
  by (simp_all add: ledger_moves_def)

lemma finish_moves:
  assumes "stage_of (cn_requests s r) = Open i"
  shows "ledger_moves limit s (finish_request r i res s)"
  by (rule movesI(2), rule ledger_settle [OF assms, of "Some i" "Finished (Some i) res"]) (simp_all add: finish_request_def)

lemma refuse_moves:
  assumes "stage_of (cn_requests s r) = Outside"
  shows "ledger_moves limit s (set_phase r (Finished None res) s)"
  using ledger_step.refuse [of "ledger_of s" r limit] assms by (intro movesI(2)) (simp add: ledger_of_def fun_upd_comp)

lemma stutter_moves:
  assumes "stage_of p = stage_of (cn_requests s r)"
  shows "ledger_moves limit s (set_phase r p s)"
  by (rule movesI(1), rule ledger_other [OF assms]) simp_all

lemma release_moves:
  assumes "stage_of (cn_requests s r) = Slot \<or> stage_of (cn_requests s r) = Numbered i" and "stage_of p = Over None"
  shows "ledger_moves limit s (set_phase r p (s\<lparr>cn_permits := cn_permits s - {r}\<rparr>))"
  using ledger_step.give_back [of "ledger_of s" r i limit] assms by (intro movesI(2)) (simp add: ledger_of_def fun_upd_comp)

lemma acquire_slot_moves:
  assumes "cn_requests s r = WaitingSlot" and "cn_slots_closed s \<or> card (cn_permits s) < limit"
  shows "ledger_moves limit s (acquire_slot r s)"
proof (cases "cn_slots_closed s")
  case True
  with assms(1) show ?thesis by (simp add: acquire_slot_def refuse_moves)
next
  case False
  with assms show ?thesis using ledger_step.enter [of "ledger_of s" r limit]
    by (intro movesI(2)) (simp add: acquire_slot_def ledger_of_def fun_upd_comp)
qed

lemma take_id_moves:
  assumes "cn_requests s r = HasSlot"
  shows "ledger_moves limit s (take_id r s)"
proof (cases "cn_next_id s = U64_MAX")
  case True
  with assms show ?thesis by (simp add: take_id_def release_moves)
next
  case False
  with assms show ?thesis using ledger_step.give_number [of "ledger_of s" r limit]
    by (intro movesI(2)) (simp add: take_id_def ledger_of_def fun_upd_comp)
qed

lemma register_moves:
  assumes "cn_requests s r = HasId i"
  shows "ledger_moves limit s (register_pending r i s)"
  using ledger_step.open_entry [of "ledger_of s" r i limit] assms
  by (intro movesI(2)) (simp add: register_pending_def ledger_of_def fun_upd_comp)

lemma drop_request_moves:
  assumes "\<forall>i f. cn_requests s r \<notin> {CutOff i, CutRemoved i, CutStored i, WriteFailed i f}" and "\<forall>x y. cn_requests s r \<noteq> Finished x y"
  shows "ledger_moves limit s (drop_request r s)"
proof (cases "stage_of (cn_requests s r)")
  case (Open i)
  then show ?thesis
    by (intro movesI(2) ledger_settle [OF Open, of None Dropped])
      (use assms(1) in \<open>auto simp: drop_request_def write_cancelled_def split: request_phase.split cong: option.case_cong\<close>)
next
  case Outside
  then show ?thesis using ledger_step.refuse [of "ledger_of s" r limit]
    by (cases "cn_requests s r")
      (auto intro!: movesI simp: drop_request_def ledger_of_def fun_upd_comp stage_keep)
next
  case Slot
  then show ?thesis
    by (cases "cn_requests s r") (auto simp: drop_request_def intro!: release_moves)
next
  case (Numbered i)
  then show ?thesis
    by (cases "cn_requests s r") (auto simp: drop_request_def intro!: release_moves)
next
  case (Over x)
  with assms show ?thesis by (cases "cn_requests s r") (auto simp: drop_request_def intro!: stutter_moves)
qed

text \<open>The reader and the teardown.\<close>

lemma quiet_moves:
  assumes "cn_requests s' = cn_requests s" and "cn_pending s' = cn_pending s" and "cn_permits s' = cn_permits s"
    and "cn_next_id s' = cn_next_id s" and "cn_channel s' = cn_channel s"
    and "reader_held (cn_reader s') = reader_held (cn_reader s)"
    and "teardown_held (cn_teardown s') = teardown_held (cn_teardown s)"
  shows "ledger_moves limit s s'"
  using assms by (intro movesI(1)) (rule ledger_same)

lemma handle_inbound_reader: "reader_held (cn_reader (handle_inbound c env line s)) = {}"
  by (auto simp: handle_inbound_def publish_held split: sum.split inbound.split) (simp_all add: reader_held_def)

lemma handle_inbound_teardown: "teardown_held (cn_teardown (handle_inbound c env line s)) = teardown_held (cn_teardown s)"
  by (auto simp: handle_inbound_def split: sum.split inbound.split)

lemma reader_remove_moves:
  assumes "cn_reader s = Matched i res r"
  shows "ledger_moves limit s (reader_remove env i res r s)"
proof (cases "cn_pending s i")
  case None
  with assms show ?thesis by (intro quiet_moves) (simp_all add: reader_remove_def publish_held, simp add: reader_held_def)
next
  case (Some q)
  with assms show ?thesis using ledger_step.take_entry [of "ledger_of s" i q limit]
    by (intro movesI(2)) (simp add: reader_remove_def ledger_of_def reader_held_def)
qed

lemma reader_deliver_moves:
  assumes "cn_reader s = Removed i req res"
  shows "ledger_moves limit s (reader_deliver i req res s)"
  using ledger_step.send [of i req "ledger_of s" "teardown_held (cn_teardown s)" limit] assms
  by (intro movesI(2)) (simp add: reader_deliver_def ledger_of_def reader_held_def subset_insertI)

lemma drain_moves:
  assumes "cn_teardown s = EventsClosed f" and "distinct (map fst entries)" and "map_of entries = cn_pending s"
  shows "ledger_moves limit s (drain_pending f entries s)"
proof -
  have "set entries = {(i, r). cn_pending s i = Some r}"
    using assms(2) by (auto simp: assms(3) [symmetric] map_of_eq_Some_iff [OF assms(2)])
  with assms(1) show ?thesis using ledger_step.take_all [of limit "ledger_of s"]
    by (intro movesI(2)) (simp add: drain_pending_def ledger_of_def teardown_held_def)
qed

lemma broadcast_moves:
  assumes "cn_teardown s = Draining f ((i, r) # entries)"
  shows "ledger_moves limit s (broadcast f i r entries s)"
  using ledger_step.send [of i r "ledger_of s" "reader_held (cn_reader s) \<union> set entries" limit] assms
  by (intro movesI(2)) (simp add: broadcast_def ledger_of_def teardown_held_def subset_insertI2)


lemma write_check_moves: "cn_requests s r = Registered i \<Longrightarrow> ledger_moves limit s (write_check env r i s)"
  by (simp add: write_check_def finish_moves stutter_moves)

lemma lock_writer_moves:
  assumes "cn_requests s r = WaitingWriter i"
  shows "ledger_moves limit s (lock_writer r i s)"
proof -
  have "ledger_moves limit s (set_phase r (Writing i) (s\<lparr>cn_writer_lock := w\<rparr>))" for w
    by (rule movesI(1), rule ledger_other [of "Writing i" s r]) (simp_all add: assms)
  with assms show ?thesis by (simp add: lock_writer_def finish_moves)
qed

text \<open>Every step of the connection is a step of the ledger, or none.\<close>

lemma app_step_moves:
  assumes "app_step c env s s'"
  shows "ledger_moves (max_pending_requests env) s s'"
  using assms
proof (cases rule: app_step.cases)
  case (get_slot r)
  then show ?thesis by (simp add: acquire_slot_moves)
next
  case (get_id r)
  then show ?thesis by (simp add: take_id_moves)
next
  case (register r i)
  then show ?thesis by (simp add: register_moves)
next
  case (drop_future r)
  then show ?thesis by (simp add: drop_request_moves)
next
  case (remove_match i res r)
  then show ?thesis by (simp add: reader_remove_moves)
next
  case (deliver_match i req res)
  then show ?thesis by (simp add: reader_deliver_moves)
next
  case (drain f entries)
  then show ?thesis by (simp add: drain_moves)
next
  case (tell f i r entries)
  then show ?thesis by (simp add: broadcast_moves)
next
  case (read_frame line)
  then show ?thesis by (intro quiet_moves) (simp_all add: handle_inbound_reader handle_inbound_teardown, simp add: reader_held_def)
next
  case (cut_remove r i)
  then show ?thesis by (intro movesI(2) ledger_settle [of s r i "Some i" "CutRemoved i"]) (simp_all add: cut_off_remove_def)
next
  case (check_failure r)
  then show ?thesis by (simp add: request_check_failure_def refuse_moves stutter_moves split: option.split)
next
  case (check_closed r)
  then show ?thesis by (simp add: request_check_closed_def refuse_moves stutter_moves)
next
  case (check_write r i)
  then show ?thesis by (simp add: write_check_moves)
next
  case (get_writer r i)
  then show ?thesis by (simp add: lock_writer_moves)
next
  case (slot_timeout r)
  then show ?thesis by (simp add: refuse_moves)
qed (auto simp: finish_moves receive_result_def;
     simp add: ledger_moves_def ledger_of_def step_defs Let_def fun_upd_comp fun_upd_idem_iff reader_held_def teardown_held_def)+

interpretation app_ledger: machine_simulation "connection_new :: 'p connection" "app_step c env" ledger_new
    "ledger_step (max_pending_requests env)" ledger_of for c :: "'p rpc_codec" and env
proof
  show "ledger_of (connection_new :: 'p connection) = ledger_new"
    by (simp add: ledger_of_def connection_new_def ledger_new_def reader_held_def teardown_held_def fun_eq_iff)
  show "ledger_of s' = ledger_of s \<or> ledger_step (max_pending_requests env) (ledger_of s) (ledger_of s')"
    if "app_step c env s s'" for s s'
    using app_step_moves [OF that] by (simp add: ledger_moves_def)
qed

lemma reach_ledger: "reach connection_new (app_step c env) s \<Longrightarrow> ledger_inv (max_pending_requests env) (ledger_of s)"
  by (rule ledger.reach_inv [OF app_ledger.reach_abs])

end
