(* ===== verification/App_Server_Safety.thy ===== *)
theory App_Server_Safety
  imports App_Server_Refinement
begin

text \<open>
  What the app-server connection guarantees in every interleaving: an awaited answer stays reachable until it is
  delivered, a finished teardown has answered everyone, answers come from frames with the identifier of their request,
  the pending table and the event queue are bounded, and nothing follows a frame that was cut off.
\<close>

section \<open>The closed flag\<close>

definition closed_inv :: "'p connection \<Rightarrow> bool" where
  "closed_inv s \<longleftrightarrow> (case cn_teardown s of NotTerminating \<Rightarrow> True | ShutdownStarted f \<Rightarrow> True | _ \<Rightarrow> cn_closed s)"

lemma publish_cases:
  obtains (sent) "publish env ev s = s\<lparr>cn_events := cn_events s @ [ev], cn_reader := Reading\<rparr>" "cn_events_open s"
      "length (cn_events s) < event_queue_capacity env"
  | (refused) f where "publish env ev s = (terminate ClientTask f s)\<lparr>cn_reader := ReaderStopped\<rparr>"
proof (cases "cn_events_open s \<and> length (cn_events s) < event_queue_capacity env")
  case True
  then show thesis by (intro sent) (simp_all add: publish_def send_app_event_def)
next
  case False
  then have "\<exists>f. publish env ev s = (terminate ClientTask f s)\<lparr>cn_reader := ReaderStopped\<rparr>"
    by (auto simp: publish_def send_app_event_def)
  then show thesis using refused by blast
qed

lemma handle_inbound_cases:
  obtains (event) ev where "handle_inbound c env line s = publish env ev s"
  | (failed) f where "handle_inbound c env line s = (terminate ClientTask f s)\<lparr>cn_reader := ReaderStopped\<rparr>"
  | (matched) i obj r res where "classify_inbound c line = Ok (Response i obj r)" "response_result c obj = Ok res"
      "handle_inbound c env line s = s\<lparr>cn_reader := Matched i res r, cn_answered := insert (i, res) (cn_answered s)\<rparr>"
proof (cases "classify_inbound c line")
  case (Inl f)
  then show thesis by (intro failed) (simp add: handle_inbound_def)
next
  case (Inr m)
  show thesis
  proof (cases m)
    case (Publish ev)
    with Inr show thesis by (intro event) (simp add: handle_inbound_def)
  next
    case (Response i obj r)
    note m = Inr Response
    show thesis
    proof (cases "response_result c obj")
      case (Inl f)
      with m show thesis using event [of "OrphanResponse (RpcNumber i) r"] failed [of f]
        by (cases "cn_pending s i") (simp_all add: handle_inbound_def)
    next
      case (Inr res)
      with m show thesis using event [of "OrphanResponse (RpcNumber i) r"] matched [of i obj r res]
        by (cases "cn_pending s i") (simp_all add: handle_inbound_def)
    qed
  qed
qed

lemma closed_inv_keep:
  assumes "closed_inv s" and "cn_closed s \<longrightarrow> cn_closed s'"
    and "cn_teardown s' = cn_teardown s \<or> (\<exists>f. cn_teardown s' = ShutdownStarted f)"
  shows "closed_inv s'"
  using assms by (auto simp: closed_inv_def split: teardown.splits)

lemma publish_closed_inv: "closed_inv s \<Longrightarrow> closed_inv (publish env ev s)"
  using publish_teardown [of env ev s] by (elim closed_inv_keep) auto

lemma handle_inbound_closed_inv: "closed_inv s \<Longrightarrow> closed_inv (handle_inbound c env line s)"
  by (rule handle_inbound_cases [of c env line s]) (auto simp: publish_closed_inv elim!: closed_inv_keep)

lemma closed_inv_step:
  assumes "closed_inv s" and "app_step c env s s'"
  shows "closed_inv s'"
  using assms(2)
proof (cases rule: app_step.cases)
  case (read_frame line)
  then show ?thesis by (simp add: handle_inbound_closed_inv assms(1))
next
  case (remove_match i res r)
  then show ?thesis using assms(1) by (auto simp: reader_remove_def publish_closed_inv split: option.split elim!: closed_inv_keep)
qed (use assms(1) in \<open>auto simp: step_defs closed_inv_def drop_request_def Let_def
       split: option.splits request_phase.splits teardown.splits if_splits\<close>)

section \<open>Writing\<close>

text \<open>
  The writer lock has one holder, who is writing; a cut frame is the last thing on the wire, and the connection is closed
  before the lock is released.
\<close>

fun writing :: "'p connection \<Rightarrow> writer_owner \<Rightarrow> bool" where
  "writing s (ByRequest r) = (case cn_requests s r of Writing i \<Rightarrow> True | _ \<Rightarrow> False)"
| "writing s (ByMessage k) = (cn_messages s k = MessageWriting)"

definition writer_inv :: "'p connection \<Rightarrow> bool" where
  "writer_inv s \<longleftrightarrow> (\<forall>w. cn_writer_lock s = Some w \<longleftrightarrow> writing s w)"

fun is_cut :: "wire_event \<Rightarrow> bool" where
  "is_cut (FrameCut w) = True"
| "is_cut _ = False"

definition wire_inv :: "'p connection \<Rightarrow> bool" where
  "wire_inv s \<longleftrightarrow>
     \<not> list_ex is_cut (butlast (cn_wire s)) \<and> (list_ex is_cut (cn_wire s) \<longrightarrow> cn_closed s \<and> cn_writer_lock s = None)"

lemma drop_request_writer:
  "cn_writer_lock (drop_request r s) = (if writing s (ByRequest r) then None else cn_writer_lock s)"
  "cn_wire (drop_request r s) = cn_wire s @ (if writing s (ByRequest r) then [FrameCut (ByRequest r)] else [])"
  "cn_closed (drop_request r s) = (cn_closed s \<or> writing s (ByRequest r))"
  by (auto simp: drop_request_def write_cancelled_def split: request_phase.splits)

lemma writing_upd:
  "cn_requests s' = (cn_requests s)(r := p) \<Longrightarrow> cn_messages s' = cn_messages s \<Longrightarrow>
    writing s' = (writing s)(ByRequest r := (case p of Writing i \<Rightarrow> True | _ \<Rightarrow> False))"
  "cn_messages s' = (cn_messages s)(k := q) \<Longrightarrow> cn_requests s' = cn_requests s \<Longrightarrow>
    writing s' = (writing s)(ByMessage k := (q = MessageWriting))"
  "cn_messages s' = cn_messages s \<Longrightarrow> cn_requests s' = cn_requests s \<Longrightarrow> writing s' = writing s"
  by (rule ext, case_tac x; simp)+

lemma writer_inv_release:
  assumes "writer_inv s" and "writing s w" and "cn_writer_lock s' = None" and "writing s' = (writing s)(w := False)"
  shows "writer_inv s'"
  using assms unfolding writer_inv_def by (metis fun_upd_apply option.inject option.distinct(1))

lemma writer_inv_acquire:
  assumes "writer_inv s" and "cn_writer_lock s = None" and "cn_writer_lock s' = Some w" and "writing s' = (writing s)(w := True)"
  shows "writer_inv s'"
  using assms unfolding writer_inv_def by (metis fun_upd_apply option.inject option.distinct(1))

lemma writer_inv_keep:
  assumes "writer_inv s" and "cn_writer_lock s' = cn_writer_lock s" and "writing s' = writing s"
  shows "writer_inv s'"
  using assms unfolding writer_inv_def by metis

lemma writing_simps [simp]:
  "writing (s\<lparr>cn_pending := x0\<rparr>) = writing s" "writing (s\<lparr>cn_permits := x1\<rparr>) = writing s"
  "writing (s\<lparr>cn_next_id := x2\<rparr>) = writing s"
  "writing (s\<lparr>cn_writer_lock := x3\<rparr>) = writing s" "writing (s\<lparr>cn_wire := x4\<rparr>) = writing s"
  "writing (s\<lparr>cn_closed := x5\<rparr>) = writing s" "writing (s\<lparr>cn_terminal := x6\<rparr>) = writing s"
  "writing (s\<lparr>cn_spawned := x7\<rparr>) = writing s" "writing (s\<lparr>cn_teardown := x8\<rparr>) = writing s"
  "writing (s\<lparr>cn_runner := x9\<rparr>) = writing s" "writing (s\<lparr>cn_events := x10\<rparr>) = writing s"
  "writing (s\<lparr>cn_reader := x11\<rparr>) = writing s" "writing (s\<lparr>cn_answered := x12\<rparr>) = writing s"
  "writing (s\<lparr>cn_channel := x13\<rparr>) = writing s"
  "writing (s\<lparr>cn_events_open := x14\<rparr>) = writing s"
  "writing (s\<lparr>cn_slots_closed := x15\<rparr>) = writing s"
  "writing (s\<lparr>cn_writer_open := x16\<rparr>) = writing s"
  "writing (s\<lparr>cn_child_locked := x17\<rparr>) = writing s"
  "writing (set_phase r p s) = (writing s)(ByRequest r := (case p of Writing i \<Rightarrow> True | _ \<Rightarrow> False))"
  "writing (set_message k q s) = (writing s)(ByMessage k := (q = MessageWriting))"
  "writing (remove_pending i s) = writing s" "writing (terminate who f s) = writing s"
  "writing (publish env ev s) = writing s" "writing (handle_inbound c env line s) = writing s"
  "writing (write_cancelled w s) = writing s"
  by (rule writing_upd; simp add: write_cancelled_def)+

lemma writing_drop [simp]: "writing (drop_request r s) = (writing s)(ByRequest r := False)"
  by (rule writing_upd(1) [of _ s r Dropped, simplified]) simp_all

lemma writer_inv_step:
  assumes "writer_inv s" and "app_step c env s s'"
  shows "writer_inv s'"
  using assms(2)
proof (cases rule: app_step.cases)
  case (end_write r i)
  then show ?thesis by (intro writer_inv_release [OF assms(1), of "ByRequest r"]) (simp_all add: write_done_def)
next
  case (fail_write r i f)
  then show ?thesis by (intro writer_inv_release [OF assms(1), of "ByRequest r"]) (simp_all add: write_failed_def)
next
  case (cut_write r i)
  then show ?thesis by (intro writer_inv_release [OF assms(1), of "ByRequest r"]) (simp_all add: write_cancelled_def)
next
  case (end_message k)
  then show ?thesis by (intro writer_inv_release [OF assms(1), of "ByMessage k"]) (simp_all add: message_written_def)
next
  case (fail_message k f)
  then show ?thesis by (intro writer_inv_release [OF assms(1), of "ByMessage k"]) (simp_all add: message_failed_def)
next
  case (cancel_message k)
  then show ?thesis
    by (intro writer_inv_release [OF assms(1), of "ByMessage k"]) (simp_all add: message_cancelled_def, simp add: write_cancelled_def)
next
  case (drop_future r)
  show ?thesis
  proof (cases "writing s (ByRequest r)")
    case True
    with drop_future show ?thesis by (intro writer_inv_release [OF assms(1) True]) (simp_all only: drop_request_writer writing_drop if_True)
  next
    case False
    with drop_future show ?thesis
      by (intro writer_inv_keep [OF assms(1)]) (simp_all only: drop_request_writer writing_drop fun_upd_idem_iff if_False)
  qed
next
  case (get_writer r i)
  then show ?thesis using writer_inv_acquire [OF assms(1), of s' "ByRequest r"] writer_inv_keep [OF assms(1), of s']
    by (auto simp: lock_writer_def finish_request_def fun_upd_idem_iff)
next
  case (lock_message k)
  then show ?thesis using writer_inv_acquire [OF assms(1), of s' "ByMessage k"] writer_inv_keep [OF assms(1), of s']
    by (auto simp: message_lock_def fun_upd_idem_iff)
qed (rule writer_inv_keep [OF assms(1)];
     auto simp: step_defs Let_def fun_upd_idem_iff split: option.split)+

lemma wire_inv_append:
  assumes "writer_inv s" and "wire_inv s" and "writing s w" and "cn_wire s' = cn_wire s @ [e]"
    and "is_cut e \<Longrightarrow> cn_closed s' \<and> cn_writer_lock s' = None"
  shows "wire_inv s'"
proof -
  have "cn_writer_lock s = Some w" using assms(1,3) by (simp add: writer_inv_def)
  then have "\<not> list_ex is_cut (cn_wire s)" using assms(2) by (auto simp: wire_inv_def)
  then show ?thesis using assms(4,5) by (auto simp: wire_inv_def)
qed

lemma wire_inv_keep:
  assumes "wire_inv s" and "cn_wire s' = cn_wire s" and "cn_closed s \<Longrightarrow> cn_closed s'"
    and "cn_writer_lock s' = cn_writer_lock s \<or> cn_writer_lock s' = None \<or> \<not> cn_closed s"
  shows "wire_inv s'"
  using assms unfolding wire_inv_def by auto

lemma wire_inv_step:
  assumes "writer_inv s" and "wire_inv s" and "app_step c env s s'"
  shows "wire_inv s'"
  using assms(3)
proof (cases rule: app_step.cases)
  case (end_write r i)
  then show ?thesis by (intro wire_inv_append [OF assms(1,2), of "ByRequest r" _ "FrameWritten (ByRequest r)"]) (simp_all add: write_done_def)
next
  case (fail_write r i f)
  then show ?thesis by (intro wire_inv_append [OF assms(1,2), of "ByRequest r" _ "FrameFailed (ByRequest r)"]) (simp_all add: write_failed_def)
next
  case (cut_write r i)
  then show ?thesis by (intro wire_inv_append [OF assms(1,2), of "ByRequest r" _ "FrameCut (ByRequest r)"]) (simp_all add: write_cancelled_def)
next
  case (end_message k)
  then show ?thesis by (intro wire_inv_append [OF assms(1,2), of "ByMessage k" _ "FrameWritten (ByMessage k)"]) (simp_all add: message_written_def)
next
  case (fail_message k f)
  then show ?thesis by (intro wire_inv_append [OF assms(1,2), of "ByMessage k" _ "FrameFailed (ByMessage k)"]) (simp_all add: message_failed_def)
next
  case (cancel_message k)
  then show ?thesis
    by (intro wire_inv_append [OF assms(1,2), of "ByMessage k" _ "FrameCut (ByMessage k)"]) (simp_all add: message_cancelled_def write_cancelled_def)
next
  case (drop_future r)
  show ?thesis
  proof (cases "writing s (ByRequest r)")
    case True
    with drop_future show ?thesis
      by (intro wire_inv_append [OF assms(1,2) True, of _ "FrameCut (ByRequest r)"]) (simp_all only: drop_request_writer if_True simp_thms)
  next
    case False
    with drop_future show ?thesis by (intro wire_inv_keep [OF assms(2)]) (simp_all add: drop_request_writer del: writing.simps)
  qed
qed (rule wire_inv_keep [OF assms(2)]; auto simp: step_defs Let_def split: option.split)+

section \<open>Draining\<close>

text \<open>Once the teardown has drained the table, no request that passed the check of the closed flag is in it.\<close>

fun past_check :: "request_phase \<Rightarrow> nat option" where
  "past_check (WaitingWriter i) = Some i"
| "past_check (Writing i) = Some i"
| "past_check (WriteFailed i f) = Some i"
| "past_check (Reporting i f) = Some i"
| "past_check (Awaiting i) = Some i"
| "past_check _ = None"

fun drained :: "teardown \<Rightarrow> bool" where
  "drained (Draining f es) = True"
| "drained KillingChild = True"
| "drained ClearingWriter = True"
| "drained KillFailed = True"
| "drained TornDown = True"
| "drained _ = False"

definition drained_inv :: "'p connection \<Rightarrow> bool" where
  "drained_inv s \<longleftrightarrow> (drained (cn_teardown s) \<longrightarrow> (\<forall>r i. past_check (cn_requests s r) = Some i \<longrightarrow> cn_pending s i = None))"

lemma past_check_stage: "past_check p = Some i \<Longrightarrow> stage_of p = Open i"
  by (cases p) auto

lemma drained_closed: "closed_inv s \<Longrightarrow> drained (cn_teardown s) \<Longrightarrow> cn_closed s"
  by (cases "cn_teardown s") (auto simp: closed_inv_def)

lemma drained_inv_keep:
  assumes "drained_inv s" and "drained (cn_teardown s') \<Longrightarrow> drained (cn_teardown s)"
    and "\<And>i. drained (cn_teardown s) \<Longrightarrow> cn_pending s i = None \<Longrightarrow> cn_pending s' i = None"
    and "\<And>r i. drained (cn_teardown s) \<Longrightarrow> past_check (cn_requests s' r) = Some i \<Longrightarrow> past_check (cn_requests s r) = Some i"
  shows "drained_inv s'"
  using assms unfolding drained_inv_def by blast

lemma drained_inv_register:
  assumes "drained_inv s" and "unique_ids (ledger_of s)" and "cn_requests s r = HasId i"
  shows "drained_inv (register_pending r i s)"
proof -
  have "j \<noteq> i" if "past_check (cn_requests s q) = Some j" for q j
  proof
    assume "j = i"
    with past_check_stage [OF that] assms(2) have "q = r"
      unfolding unique_ids_def ledger_of_def by (auto simp: assms(3) dest: spec [of _ q] spec [of _ r])
    with that assms(3) show False by simp
  qed
  then show ?thesis using assms(1) by (auto simp: drained_inv_def register_pending_def)
qed

lemma drop_request_pending: "cn_pending s i = None \<Longrightarrow> cn_pending (drop_request r s) i = None"
  by (auto simp: drop_request_def write_cancelled_def split: request_phase.splits)

lemma publish_drained: "drained (cn_teardown (publish env ev s)) = drained (cn_teardown s)"
  using publish_teardown [of env ev s] by auto

lemma handle_inbound_drained: "drained (cn_teardown (handle_inbound c env line s)) = drained (cn_teardown s)"
  by (rule handle_inbound_cases [of c env line s]) (auto simp: publish_drained)

lemma drained_inv_step:
  assumes "drained_inv s" and "closed_inv s" and "unique_ids (ledger_of s)" and "app_step c env s s'"
  shows "drained_inv s'"
  using assms(4)
proof (cases rule: app_step.cases)
  case (register r i)
  then show ?thesis using drained_inv_register [OF assms(1,3)] by simp
next
  case (check_write r i)
  then show ?thesis using drained_closed [OF assms(2)]
    by (intro drained_inv_keep [OF assms(1)]) (auto simp: write_check_def finish_request_def split: if_splits)
next
  case (drain f entries)
  then show ?thesis by (simp add: drained_inv_def drain_pending_def)
qed (rule drained_inv_keep [OF assms(1)];
     auto simp: step_defs Let_def drop_request_pending handle_inbound_drained publish_drained split: option.splits if_splits)+

section \<open>Answers\<close>

text \<open>A response frame with an identifier and a result, and what a finished request may report of the answered ones.\<close>

definition answers_from :: "'p rpc_codec \<Rightarrow> nat \<Rightarrow> pending_result \<Rightarrow> bool" where
  "answers_from c i res \<longleftrightarrow> (\<exists>line obj r. classify_inbound c line = Ok (Response i obj r) \<and> response_result c obj = Ok res)"

fun reported_ok :: "(nat \<times> pending_result) set \<Rightarrow> request_phase \<Rightarrow> bool" where
  "reported_ok A (Finished x (Inr v)) = (\<exists>i. x = Some i \<and> (i, PendingValue v) \<in> A)"
| "reported_ok A (Finished x (Inl (RpcFailure e))) = (\<exists>i. x = Some i \<and> (i, PendingRpcError e) \<in> A)"
| "reported_ok A _ = True"

fun reader_ok :: "(nat \<times> pending_result) set \<Rightarrow> reader_phase \<Rightarrow> bool" where
  "reader_ok A (Matched i res r) = ((i, res) \<in> A)"
| "reader_ok A (Removed i q res) = ((i, res) \<in> A)"
| "reader_ok A _ = True"

definition answers_inv :: "'p rpc_codec \<Rightarrow> 'p connection \<Rightarrow> bool" where
  "answers_inv c s \<longleftrightarrow>
     (\<forall>(i, res) \<in> cn_answered s. answers_from c i res)
     \<and> reader_ok (cn_answered s) (cn_reader s)
     \<and> (\<forall>i res. cn_channel s i = Some res \<longrightarrow> (i, res) \<in> cn_answered s \<or> (\<exists>f. res = PendingConnection f))
     \<and> (\<forall>r. reported_ok (cn_answered s) (cn_requests s r))"

lemma reported_ok_mono: "reported_ok A p \<Longrightarrow> A \<subseteq> B \<Longrightarrow> reported_ok B p"
  by (induction A p rule: reported_ok.induct) auto

lemma publish_reader_ok: "reader_ok A (cn_reader (publish env ev s))"
  using publish_reader [of env ev s] by auto

lemma response_result_connection: "response_result c obj \<noteq> Ok (PendingConnection f)"
  by (auto simp: response_result_def Let_def res_bind_Ok_iff split: bool.splits)

lemma answers_inv_keep:
  assumes "answers_inv c s" and "cn_answered s' = cn_answered s" and "reader_ok (cn_answered s) (cn_reader s')"
    and "cn_channel s' = cn_channel s" and "\<And>r. reported_ok (cn_answered s) (cn_requests s' r)"
  shows "answers_inv c s'"
  using assms unfolding answers_inv_def by simp

lemma answers_inv_publish: "answers_inv c s \<Longrightarrow> answers_inv c (publish env ev s)"
  by (rule answers_inv_keep) (auto simp: publish_reader_ok answers_inv_def)

lemma answers_inv_inbound:
  assumes "answers_inv c s"
  shows "answers_inv c (handle_inbound c env line s)"
proof (cases rule: handle_inbound_cases [of c env line s])
  case (event ev)
  then show ?thesis by (simp add: answers_inv_publish assms)
next
  case (failed f)
  then show ?thesis using assms by (simp add: answers_inv_def)
next
  case (matched i obj r res)
  have "answers_from c i res" using matched(1,2) unfolding answers_from_def by blast
  then show ?thesis using assms unfolding matched(3) answers_inv_def by (auto intro: reported_ok_mono)
qed

lemma answers_inv_receive:
  assumes "answers_inv c s" and "cn_channel s i = Some p"
  shows "answers_inv c (receive_result r i p s)"
proof (rule answers_inv_keep [OF assms(1)])
  have "(i, p) \<in> cn_answered s \<or> (\<exists>f. p = PendingConnection f)" using assms unfolding answers_inv_def by blast
  then show "reported_ok (cn_answered s) (cn_requests (receive_result r i p s) q)" for q
    using assms(1) by (auto simp: answers_inv_def receive_result_def finish_request_def split: pending_result.split)
qed (use assms(1) in \<open>auto simp: receive_result_def finish_request_def answers_inv_def\<close>)

lemma answers_inv_step:
  assumes "answers_inv c s" and "app_step c env s s'"
  shows "answers_inv c s'"
  using assms(2)
proof (cases rule: app_step.cases)
  case (read_frame line)
  then show ?thesis by (simp add: answers_inv_inbound assms(1))
next
  case (remove_match i res r)
  then show ?thesis using assms(1) answers_inv_publish [OF assms(1)]
    by (auto simp: reader_remove_def answers_inv_def split: option.split)
next
  case (deliver_match i req res)
  then show ?thesis using assms(1) by (auto simp: reader_deliver_def answers_inv_def)
next
  case (tell f i r entries)
  then show ?thesis using assms(1) by (auto simp: broadcast_def answers_inv_def)
next
  case (receive r i p)
  then show ?thesis by (simp add: answers_inv_receive assms(1))
qed (rule answers_inv_keep [OF assms(1)];
     use assms(1) in \<open>auto simp: step_defs answers_inv_def Let_def closed_error_def timeout_error_def split: option.splits\<close>)+

section \<open>The event queue and the lock of the child\<close>

definition queue_inv :: "app_env \<Rightarrow> 'p connection \<Rightarrow> bool" where
  "queue_inv env s \<longleftrightarrow> length (cn_events s) \<le> event_queue_capacity env \<and> (cn_child_locked s \<longleftrightarrow> cn_reader s = ReapingChild)"

lemma publish_queue_inv: "queue_inv env s \<Longrightarrow> \<not> cn_child_locked s \<Longrightarrow> queue_inv env (publish env ev s)"
  by (rule publish_cases [of env ev s]) (auto simp: queue_inv_def terminate_def)

lemma queue_inv_step:
  assumes "queue_inv env s" and "app_step c env s s'"
  shows "queue_inv env s'"
  using assms(2)
proof (cases rule: app_step.cases)
  case (read_frame line)
  then have "\<not> cn_child_locked s" using assms(1) by (simp add: queue_inv_def)
  then have "queue_inv env (publish env ev s)" for ev using assms(1) by (rule publish_queue_inv [rotated])
  with read_frame assms(1) show ?thesis
    by (cases rule: handle_inbound_cases [of c env line s]) (simp_all, simp_all add: queue_inv_def terminate_def)
next
  case (remove_match i res r)
  then have "\<not> cn_child_locked s" using assms(1) by (simp add: queue_inv_def)
  with remove_match assms(1) show ?thesis
    by (auto simp: reader_remove_def publish_queue_inv split: option.split) (simp add: queue_inv_def)
qed (use assms(1) in \<open>auto simp: step_defs queue_inv_def terminate_def remove_pending_def drop_request_def set_phase_def
       set_message_def Let_def split: option.splits request_phase.splits\<close>)

section \<open>The invariant\<close>

definition no_lost :: "'p connection \<Rightarrow> bool" where
  "no_lost s \<longleftrightarrow> (\<forall>r x i. cn_requests s r \<noteq> Finished x (Err (ResponseChannelClosed i)))"

definition app_inv :: "'p rpc_codec \<Rightarrow> app_env \<Rightarrow> 'p connection \<Rightarrow> bool" where
  "app_inv c env s \<longleftrightarrow>
     closed_inv s \<and> writer_inv s \<and> wire_inv s \<and> drained_inv s \<and> answers_inv c s \<and> queue_inv env s \<and> no_lost s
     \<and> ledger_inv (max_pending_requests env) (ledger_of s)"

lemma awaited_reachable:
  assumes "ledger_inv limit (ledger_of s)" and "stage_of (cn_requests s r) = Open i"
  shows "cn_channel s i \<noteq> None \<or> cn_pending s i = Some r \<or> (\<exists>res. cn_reader s = Removed i r res)
    \<or> (\<exists>f es. cn_teardown s = Draining f es \<and> (i, r) \<in> set es)"
proof -
  have "entries_ok (ledger_of s)" using assms(1) by (simp add: ledger_inv_def)
  from entries_okD(3) [OF this, of r i] assms(2) show ?thesis
    by (auto simp: ledger_of_def reader_held_def teardown_held_def split: reader_phase.splits teardown.splits)
qed

lemma no_lost_step:
  assumes "no_lost s" and "ledger_inv limit (ledger_of s)" and "app_step c env s s'"
  shows "no_lost s'"
  using assms(3)
proof (cases rule: app_step.cases)
  case (channel_closed r i)
  have "\<not> (\<exists>f es. cn_teardown s = Draining f es \<and> (i, r) \<in> set es)" using channel_closed(6) by force
  with channel_closed awaited_reachable [OF assms(2), of r i] show ?thesis by simp
qed (use assms(1) in \<open>auto simp: step_defs no_lost_def Let_def closed_error_def timeout_error_def
       split: option.splits pending_result.splits\<close>)

lemma app_inv_step:
  assumes "app_inv c env s" and "app_step c env s s'"
  shows "app_inv c env s'"
proof -
  have "ledger_inv (max_pending_requests env) (ledger_of s')"
    using app_ledger.abs_step [OF assms(2)] assms(1) ledger_inv_step unfolding app_inv_def by fastforce
  with assms show ?thesis
    unfolding app_inv_def ledger_inv_def
    by (blast intro: closed_inv_step writer_inv_step wire_inv_step drained_inv_step answers_inv_step queue_inv_step
        no_lost_step [unfolded ledger_inv_def])
qed

interpretation app: machine_invariant "connection_new :: 'p connection" "app_step c env" "app_inv c env"
  for c :: "'p rpc_codec" and env
proof
  have "writing (connection_new :: 'p connection) w = False" for w by (cases w) (simp_all add: connection_new_def)
  then show "app_inv c env (connection_new :: 'p connection)"
    using ledger.inv_init app_ledger.abs_init [where 'p = 'p]
    by (simp add: app_inv_def closed_inv_def writer_inv_def wire_inv_def drained_inv_def answers_inv_def queue_inv_def no_lost_def)
      (simp add: connection_new_def)
qed (rule app_inv_step)

end
