(* ===== verification/App_Server_Correctness.thy ===== *)
theory App_Server_Correctness
  imports App_Server_Safety
begin

text \<open>
  The guarantees of the app-server connection, over every interleaving, and the runs on which it gives up two of them.
\<close>

abbreviation app_run :: "'p rpc_codec \<Rightarrow> app_env \<Rightarrow> 'p connection \<Rightarrow> bool" where
  "app_run c env s \<equiv> reach connection_new (app_step c env) s"

section \<open>Sample runs\<close>

text \<open>Request 0 alone: up to the writer lock, and with its frame written.\<close>

definition first_registered :: "nat \<Rightarrow> 'p connection \<Rightarrow> 'p connection" where
  "first_registered r s = register_pending r (cn_next_id s) (take_id r (acquire_slot r (request_check_closed r (request_check_failure r s))))"

definition first_waiting :: "app_env \<Rightarrow> nat \<Rightarrow> 'p connection \<Rightarrow> 'p connection" where
  "first_waiting env r s = write_check env r (cn_next_id s) (first_registered r s)"

definition fresh_for :: "app_env \<Rightarrow> nat \<Rightarrow> 'p connection \<Rightarrow> bool" where
  "fresh_for env r s \<longleftrightarrow>
     cn_requests s r = NotStarted \<and> cn_terminal s = None \<and> \<not> cn_closed s \<and> \<not> cn_slots_closed s
     \<and> card (cn_permits s) < max_pending_requests env \<and> cn_next_id s \<noteq> U64_MAX \<and> request_frame_len env r \<le> max_frame_bytes env"

lemma first_registered_run:
  assumes "app_run c env s" and "fresh_for env r s"
  shows "app_run c env (first_registered r s)"
proof -
  note f = assms(2) [unfolded fresh_for_def]
  let ?s1 = "request_check_failure r s" let ?s2 = "request_check_closed r ?s1"
  let ?s3 = "acquire_slot r ?s2" let ?s4 = "take_id r ?s3"
  have "app_run c env ?s1" using assms(1) by (rule reach_step) (use f in \<open>simp add: app_step.check_failure\<close>)
  then have "app_run c env ?s2"
    by (rule reach_step) (use f in \<open>simp add: app_step.check_closed request_check_failure_def\<close>)
  then have "app_run c env ?s3"
    by (rule reach_step) (use f in \<open>auto intro!: app_step.get_slot simp: request_check_failure_def request_check_closed_def set_phase_def\<close>)
  then have "app_run c env ?s4"
    by (rule reach_step) (use f in \<open>auto intro!: app_step.get_id simp: request_check_failure_def request_check_closed_def
      acquire_slot_def set_phase_def\<close>)
  then show ?thesis unfolding first_registered_def
    by (rule reach_step) (use f in \<open>auto intro!: app_step.register simp: request_check_failure_def request_check_closed_def
      acquire_slot_def take_id_def set_phase_def\<close>)
qed

lemma first_registered_eq:
  assumes "fresh_for env r s"
  shows "first_registered r s = s\<lparr>cn_requests := (cn_requests s)(r := Registered (cn_next_id s)),
    cn_pending := (cn_pending s)(cn_next_id s := Some r), cn_permits := insert r (cn_permits s), cn_next_id := cn_next_id s + 1\<rparr>"
  using assms by (simp add: fresh_for_def first_registered_def request_check_failure_def request_check_closed_def
      acquire_slot_def take_id_def register_pending_def set_phase_def)

lemma first_waiting_run:
  assumes "app_run c env s" and "fresh_for env r s"
  shows "app_run c env (first_waiting env r s)"
  unfolding first_waiting_def using first_registered_run [OF assms]
  by (rule reach_step) (auto intro!: app_step.check_write simp: first_registered_eq [OF assms(2)])

lemma first_waiting_eq:
  assumes "fresh_for env r s"
  shows "first_waiting env r s = s\<lparr>cn_requests := (cn_requests s)(r := WaitingWriter (cn_next_id s)),
    cn_pending := (cn_pending s)(cn_next_id s := Some r), cn_permits := insert r (cn_permits s), cn_next_id := cn_next_id s + 1\<rparr>"
  using assms unfolding first_waiting_def first_registered_eq [OF assms] by (simp add: fresh_for_def write_check_def set_phase_def)

text \<open>A child that answers every line with the result \<^verbatim>\<open>true\<close> for request 1, and the runs the examples below use.\<close>

definition sample_env :: app_env where
  "sample_env = \<lparr>max_frame_bytes = 1000, max_pending_requests = 2, event_queue_capacity = 1, request_timeout = 30,
     request_method = (\<lambda>_. ''account/read''), request_frame_len = (\<lambda>_. 40)\<rparr>"

definition sample_codec :: "unit rpc_codec" where
  "sample_codec = \<lparr>rc_from_slice = (\<lambda>_. Ok (JObject [(''id'', JNumber (PosInt 1)), (''result'', JBool True)])),
     rc_typed = (\<lambda>_ _. None), rc_describe = (\<lambda>_. [])\<rparr>"

abbreviation sample_run :: "unit connection \<Rightarrow> bool" where
  "sample_run s \<equiv> app_run sample_codec sample_env s"

definition sample_sent :: "unit connection" where
  "sample_sent = connection_new\<lparr>cn_requests := (\<lambda>_. NotStarted)(0 := Awaiting 1), cn_pending := (\<lambda>_. None)(1 := Some 0),
     cn_permits := {0}, cn_next_id := 2, cn_wire := [FrameWritten (ByRequest 0)]\<rparr>"

lemma connection_new_simps [simp]:
  "cn_requests connection_new = (\<lambda>_. NotStarted)" "cn_messages connection_new = (\<lambda>_. MessageIdle)"
  "cn_pending connection_new = (\<lambda>_. None)" "cn_permits connection_new = {}" "\<not> cn_slots_closed connection_new"
  "cn_next_id connection_new = 1" "cn_channel connection_new = (\<lambda>_. None)" "cn_events connection_new = []"
  "cn_events_open connection_new" "cn_terminal connection_new = None" "\<not> cn_closed connection_new"
  "cn_teardown connection_new = NotTerminating" "\<not> cn_child_locked connection_new" "cn_spawned connection_new = 0"
  "cn_writer_open connection_new" "cn_writer_lock connection_new = None" "cn_reader connection_new = Reading"
  "cn_wire connection_new = []" "cn_answered connection_new = {}"
  by (simp_all add: connection_new_def)

lemma new_fresh: "fresh_for sample_env r connection_new"
  by (simp add: fresh_for_def sample_env_def U64_MAX_def)

lemma sample_sent_run: "sample_run sample_sent"
proof -
  let ?w = "first_waiting sample_env 0 (connection_new :: unit connection)"
  have eq: "?w = connection_new\<lparr>cn_requests := (\<lambda>_. NotStarted)(0 := WaitingWriter 1), cn_pending := (\<lambda>_. None)(1 := Some 0),
      cn_permits := {0}, cn_next_id := 2\<rparr>"
    by (simp add: first_waiting_eq [OF new_fresh])
  have "sample_run ?w" by (rule first_waiting_run [OF reach_init new_fresh])
  then have "sample_run (lock_writer 0 1 ?w)"
    by (rule reach_step) (rule app_step.get_writer, simp_all add: eq)
  then have "sample_run (write_done 0 1 (lock_writer 0 1 ?w))"
    by (rule reach_step) (rule app_step.end_write, simp add: eq lock_writer_def)
  moreover have "write_done 0 1 (lock_writer 0 1 ?w) = sample_sent"
    by (simp add: eq lock_writer_def write_done_def set_phase_def sample_sent_def)
  ultimately show ?thesis by simp
qed

definition sample_answered :: "unit connection" where
  "sample_answered = sample_sent\<lparr>cn_pending := (\<lambda>_. None), cn_permits := {}, cn_channel := (\<lambda>_. None)(1 := Some (PendingValue (JBool True))),
     cn_answered := {(1, PendingValue (JBool True))}\<rparr>"

lemma sample_answered_run: "sample_run sample_answered"
proof -
  let ?m = "handle_inbound sample_codec sample_env [] sample_sent"
  have m: "?m = sample_sent\<lparr>cn_reader := Matched 1 (PendingValue (JBool True)) (JObject [(''id'', JNumber (PosInt 1)), (''result'', JBool True)]),
      cn_answered := {(1, PendingValue (JBool True))}\<rparr>"
    by (simp add: handle_inbound_def classify_inbound_def response_result_def sample_codec_def res_bind_def map_err_def ok_or_def
        contains_key_def U64_MAX_def sample_sent_def)
  have "sample_run ?m" by (rule reach_step [OF sample_sent_run app_step.read_frame]) (simp add: sample_sent_def)
  then have "sample_run (reader_remove sample_env 1 (PendingValue (JBool True))
      (JObject [(''id'', JNumber (PosInt 1)), (''result'', JBool True)]) ?m)"
    by (rule reach_step) (rule app_step.remove_match, simp add: m)
  then have "sample_run (sample_sent\<lparr>cn_pending := (\<lambda>_. None), cn_reader := Removed 1 0 (PendingValue (JBool True)),
      cn_answered := {(1, PendingValue (JBool True))}\<rparr>)"
    by (simp add: m reader_remove_def) (simp add: sample_sent_def connection_new_def)
  then have "sample_run (reader_deliver 1 0 (PendingValue (JBool True)) (sample_sent\<lparr>cn_pending := (\<lambda>_. None),
      cn_reader := Removed 1 0 (PendingValue (JBool True)), cn_answered := {(1, PendingValue (JBool True))}\<rparr>))"
    by (rule reach_step) (rule app_step.deliver_match, simp)
  then show ?thesis by (simp add: reader_deliver_def sample_answered_def) (simp add: sample_sent_def connection_new_def)
qed

text \<open>The client is closed while request 1 is awaited; its teardown runs up to the kill of the child.\<close>

abbreviation closed_failure :: connection_failure where
  "closed_failure \<equiv> ConnectionFailure Closed ''app-server client closed''"

definition sample_closing :: "unit connection" where
  "sample_closing = sample_sent\<lparr>cn_teardown := ShutdownStarted closed_failure, cn_runner := ApplicationCall\<rparr>"

lemma sample_closing_run: "sample_run sample_closing"
proof -
  have "sample_run (terminate ApplicationCall closed_failure sample_sent)"
    using sample_sent_run by (rule reach_step) (rule app_step.close_connection)
  then show ?thesis by (simp add: terminate_def sample_closing_def sample_sent_def)
qed

definition sample_drained :: "unit connection" where
  "sample_drained = sample_sent\<lparr>cn_runner := ApplicationCall, cn_closed := True, cn_terminal := Some closed_failure,
     cn_events_open := False, cn_pending := (\<lambda>_. None), cn_permits := {}, cn_channel := (\<lambda>_. None)(1 := Some (PendingConnection closed_failure)),
     cn_slots_closed := True, cn_teardown := KillingChild\<rparr>"

lemma sample_drained_run: "sample_run sample_drained"
proof -
  let ?s1 = "sample_closing\<lparr>cn_closed := True, cn_teardown := FlagClosed closed_failure\<rparr>"
  let ?s2 = "store_failure (fold_exit_status None closed_failure) ?s1"
  let ?s3 = "?s2\<lparr>cn_events_open := False, cn_teardown := EventsClosed closed_failure\<rparr>"
  let ?s4 = "drain_pending closed_failure [(1, 0)] ?s3"
  let ?s5 = "broadcast closed_failure 1 0 [] ?s4"
  have "sample_run ?s1" by (rule reach_step [OF sample_closing_run app_step.set_closed]) (simp add: sample_closing_def)
  then have "sample_run ?s2"
    by (rule reach_step) (rule app_step.store, simp_all add: sample_closing_def sample_sent_def)
  then have "sample_run ?s3"
    by (rule reach_step) (rule app_step.close_events,
      simp add: store_failure_def Let_def fold_exit_status_def sample_closing_def sample_sent_def)
  then have "sample_run ?s4"
    by (rule reach_step) (rule app_step.drain, simp_all add: store_failure_def Let_def sample_closing_def sample_sent_def)
  then have "sample_run ?s5" by (rule reach_step) (rule app_step.tell, simp add: drain_pending_def)
  then have "sample_run (?s5\<lparr>cn_slots_closed := True, cn_teardown := KillingChild\<rparr>)"
    by (rule reach_step) (rule app_step.close_slots, simp add: broadcast_def)
  then show ?thesis
    by (simp add: broadcast_def drain_pending_def store_failure_def Let_def fold_exit_status_def sample_closing_def
        sample_drained_def sample_sent_def connection_new_def)
qed

text \<open>The timer of request 1 fires while its frame is being written.\<close>

definition sample_cut :: "unit connection" where
  "sample_cut = set_phase 0 (CutOff 1) (write_cancelled (ByRequest 0) (connection_new\<lparr>cn_requests := (\<lambda>_. NotStarted)(0 := Writing 1),
     cn_pending := (\<lambda>_. None)(1 := Some 0), cn_permits := {0}, cn_next_id := 2, cn_writer_lock := Some (ByRequest 0)\<rparr>))"

lemma sample_cut_run: "sample_run sample_cut"
proof -
  let ?w = "first_waiting sample_env 0 (connection_new :: unit connection)"
  have "sample_run ?w" by (rule first_waiting_run [OF reach_init new_fresh])
  then have "sample_run (lock_writer 0 1 ?w)"
    by (rule reach_step) (rule app_step.get_writer, simp_all add: first_waiting_eq [OF new_fresh])
  moreover have l: "lock_writer 0 1 ?w = connection_new\<lparr>cn_requests := (\<lambda>_. NotStarted)(0 := Writing 1),
      cn_pending := (\<lambda>_. None)(1 := Some 0), cn_permits := {0}, cn_next_id := 2, cn_writer_lock := Some (ByRequest 0)\<rparr>"
    by (simp add: first_waiting_eq [OF new_fresh] lock_writer_def set_phase_def)
  ultimately have "sample_run (set_phase 0 (CutOff 1) (write_cancelled (ByRequest 0) (lock_writer 0 1 ?w)))"
    by (elim reach_step) (rule app_step.cut_write, simp add: l)
  then show ?thesis by (simp only: l sample_cut_def)
qed

section \<open>Properties\<close>

lemma run_inv: "app_run c env s \<Longrightarrow> app_inv c env s"
  by (rule app.reach_inv)

lemma run_unique_id:
  assumes "app_inv c env s" and "stage_id (stage_of (cn_requests s r)) = Some i" and "stage_id (stage_of (cn_requests s q)) = Some i"
  shows "q = r"
proof -
  have "unique_ids (ledger_of s)" using assms(1) by (simp add: app_inv_def ledger_inv_def)
  moreover have "lg_stage (ledger_of s) = stage_of \<circ> cn_requests s" by (simp add: ledger_of_def)
  ultimately show ?thesis using assms(2,3) unfolding unique_ids_def by (metis comp_apply)
qed

lemma awaited_answered:
  assumes "app_inv c env s" and "cn_teardown s \<in> {KillingChild, ClearingWriter, KillFailed, TornDown}" and "\<forall>q res. cn_reader s \<noteq> Removed i q res"
    and "cn_requests s r = Awaiting i"
  shows "cn_channel s i \<noteq> None"
proof -
  have "past_check (cn_requests s r) = Some i" "drained (cn_teardown s)" using assms(2,4) by auto
  then have "cn_pending s i = None" using assms(1) unfolding app_inv_def drained_inv_def by blast
  then show ?thesis using awaited_reachable [of "max_pending_requests env" s r i] assms by (auto simp: app_inv_def)
qed

text \<open>
  C17: A shutdown strands nobody. Once the teardown has drained the pending table, every request that has sent its frame and
  awaits its answer has one on its channel (its own response, or the terminal failure), unless the reader is just about
  to deliver it.
\<close>

theorem teardown_answers_all:
  assumes "app_run c env s" and "cn_teardown s \<in> {KillingChild, ClearingWriter, KillFailed, TornDown}" and "\<forall>q res. cn_reader s \<noteq> Removed i q res"
    and "cn_requests s r = Awaiting i"
  shows "cn_channel s i \<noteq> None"
  using awaited_answered [OF run_inv [OF assms(1)] assms(2-)] .

theorem teardown_answers_all_witness: "cn_channel sample_drained 1 \<noteq> None"
  by (rule teardown_answers_all [OF sample_drained_run, of 1 0]) (simp_all add: sample_drained_def sample_sent_def)

text \<open>No request ever ends with \<^verbatim>\<open>ResponseChannelClosed\<close>: its sender is never dropped without an answer.\<close>

theorem answer_never_dropped:
  assumes "app_run c env s"
  shows "cn_requests s r \<noteq> Finished x (Err (ResponseChannelClosed i))"
  using run_inv [OF assms] by (simp add: app_inv_def no_lost_def)

theorem answer_never_dropped_witness:
  "cn_requests sample_answered 0 \<noteq> Finished (Some 1) (Err (ResponseChannelClosed 1))"
  by (rule answer_never_dropped [OF sample_answered_run])

text \<open>
  C18: Responses are correlated. A request that returns a value has an identifier of its own, which no other request holds,
  and the value is the result of a response frame with that identifier.
\<close>

theorem response_correlation:
  assumes "app_run c env s" and "cn_requests s r = Finished x (Ok v)"
  shows "\<exists>i line obj m. x = Some i \<and> classify_inbound c line = Ok (Response i obj m)
    \<and> response_result c obj = Ok (PendingValue v)
    \<and> (\<forall>q. stage_id (stage_of (cn_requests s q)) = Some i \<longrightarrow> q = r)"
proof -
  note inv = run_inv [OF assms(1)]
  have answers: "answers_inv c s" using inv by (simp add: app_inv_def)
  then have "reported_ok (cn_answered s) (cn_requests s r)" by (simp add: answers_inv_def)
  then obtain i where i: "x = Some i" "(i, PendingValue v) \<in> cn_answered s" by (auto simp: assms(2))
  have "stage_id (stage_of (cn_requests s r)) = Some i" by (simp add: assms(2) i(1))
  note unique = run_unique_id [OF inv this]
  have "answers_from c i (PendingValue v)" using answers i(2) unfolding answers_inv_def by blast
  then show ?thesis using i(1) unique unfolding answers_from_def by blast
qed

definition sample_finished :: "unit connection" where
  "sample_finished = sample_answered\<lparr>cn_requests := (\<lambda>_. NotStarted)(0 := Finished (Some 1) (Ok (JBool True)))\<rparr>"

lemma sample_finished_run: "sample_run sample_finished"
proof -
  have "sample_run (receive_result 0 1 (PendingValue (JBool True)) sample_answered)"
    by (rule reach_step [OF sample_answered_run]) (rule app_step.receive, simp_all add: sample_answered_def sample_sent_def)
  moreover have "receive_result 0 1 (PendingValue (JBool True)) sample_answered = sample_finished"
    by (simp add: receive_result_def finish_request_def remove_pending_def set_phase_def sample_answered_def sample_sent_def
        sample_finished_def)
  ultimately show ?thesis by simp
qed

theorem response_correlation_witness:
  "\<exists>i line obj m. Some 1 = Some i \<and> classify_inbound sample_codec line = Ok (Response i obj m)
    \<and> response_result sample_codec obj = Ok (PendingValue (JBool True))
    \<and> (\<forall>q. stage_id (stage_of (cn_requests sample_finished q)) = Some i \<longrightarrow> q = 0)"
  by (rule response_correlation [OF sample_finished_run]) (simp add: sample_finished_def)

text \<open>The pending table, the permits and the event queue never exceed the configured limits.\<close>

theorem connection_bounded:
  assumes "app_run c env s"
  shows "card (dom (cn_pending s)) \<le> max_pending_requests env \<and> card (cn_permits s) \<le> max_pending_requests env
    \<and> length (cn_events s) \<le> event_queue_capacity env"
proof -
  note inv = run_inv [OF assms]
  then have l: "ledger_inv (max_pending_requests env) (ledger_of s)" by (simp add: app_inv_def)
  have "card (dom (cn_pending s)) \<le> max_pending_requests env" using pending_bounded [OF l] by (simp add: ledger_of_def)
  moreover have "card (cn_permits s) \<le> max_pending_requests env" using l by (simp add: ledger_inv_def permits_ok_def ledger_of_def)
  ultimately show ?thesis using inv by (simp add: app_inv_def queue_inv_def)
qed

theorem connection_bounded_witness:
  "card (dom (cn_pending sample_sent)) \<le> 2 \<and> card (cn_permits sample_sent) \<le> 2 \<and> length (cn_events sample_sent) \<le> 1"
  using connection_bounded [OF sample_sent_run] by (simp add: sample_env_def)

text \<open>
  C19: Frames do not interleave and nothing follows a cut frame: at most one task is writing, a frame whose write was
  cancelled is the last thing on the wire, and the connection is closed and no task writes from then on.
\<close>

theorem cut_frame_is_last:
  assumes "app_run c env s"
  shows "(\<forall>w w'. writing s w \<longrightarrow> writing s w' \<longrightarrow> w = w')
    \<and> (\<forall>ws w rest. cn_wire s = ws @ FrameCut w # rest \<longrightarrow> rest = [] \<and> cn_closed s \<and> (\<forall>w'. \<not> writing s w'))"
proof -
  note inv = run_inv [OF assms]
  have w: "writing s w \<longleftrightarrow> cn_writer_lock s = Some w" for w using inv by (simp add: app_inv_def writer_inv_def)
  have "rest = [] \<and> cn_closed s \<and> cn_writer_lock s = None" if "cn_wire s = ws @ FrameCut v # rest" for ws v rest
    using inv that by (cases rest rule: rev_cases) (auto simp: app_inv_def wire_inv_def butlast_append split: if_splits)
  then show ?thesis unfolding w by (metis option.distinct(1) option.inject)
qed

theorem cut_frame_is_last_witness: "cn_wire sample_cut = [] @ FrameCut (ByRequest 0) # [] \<and> cn_closed sample_cut"
proof -
  have "cn_wire sample_cut = [] @ FrameCut (ByRequest 0) # []"
    by (simp add: sample_cut_def write_cancelled_def)
  then show ?thesis using cut_frame_is_last [OF sample_cut_run] by blast
qed

section \<open>Two runs that give up a guarantee\<close>

text \<open>
  A teardown that an application call runs is lost when the call is dropped while it waits for the lock of the child,
  which the reader holds after the end of stdout: nothing completes the teardown afterwards.
\<close>

lemma abandoned_stays: "(app_step c env)\<^sup>*\<^sup>* s t \<Longrightarrow> cn_teardown s = Abandoned \<Longrightarrow> cn_teardown t = Abandoned"
proof (induction rule: rtranclp_induct)
  case (step t u)
  have publish: "cn_teardown (publish env ev t) = Abandoned" if "cn_teardown t = Abandoned" for ev
    using publish_teardown [of env ev t] that by auto
  have inbound: "cn_teardown (handle_inbound c env line t) = Abandoned" if "cn_teardown t = Abandoned" for line
    by (cases rule: handle_inbound_cases [of c env line t]) (simp_all add: publish that)
  from step(2) show ?case
    by (cases rule: app_step.cases)
      (use step in \<open>auto simp: step_defs Let_def publish inbound split: option.splits\<close>)
qed simp

definition sample_abandoned :: "unit connection" where
  "sample_abandoned = sample_sent\<lparr>cn_reader := ReapingChild, cn_child_locked := True, cn_runner := ApplicationCall,
     cn_closed := True, cn_teardown := Abandoned\<rparr>"

lemma sample_abandoned_run: "sample_run sample_abandoned"
proof -
  let ?s1 = "sample_sent\<lparr>cn_reader := ReapingChild, cn_child_locked := True\<rparr>"
  let ?s2 = "terminate ApplicationCall closed_failure ?s1"
  let ?s3 = "?s2\<lparr>cn_closed := True, cn_teardown := FlagClosed closed_failure\<rparr>"
  have "sample_run ?s1" by (rule reach_step [OF sample_sent_run app_step.reader_eof]) (simp_all add: sample_sent_def)
  then have "sample_run ?s2" by (rule reach_step) (rule app_step.close_connection)
  then have "sample_run ?s3" by (rule reach_step) (rule app_step.set_closed, simp add: sample_sent_def)
  then have "sample_run (?s3\<lparr>cn_teardown := Abandoned\<rparr>)"
    by (rule reach_step) (rule app_step.abandon, simp_all add: terminate_def sample_sent_def)
  then show ?thesis by (simp add: terminate_def sample_sent_def sample_abandoned_def connection_new_def)
qed

theorem abandoned_teardown:
  "\<exists>s. sample_run s \<and> cn_closed s \<and> cn_pending s 1 = Some 0 \<and> cn_requests s 0 = Awaiting 1 \<and> cn_events_open s
     \<and> (\<forall>t. (app_step sample_codec sample_env)\<^sup>*\<^sup>* s t \<longrightarrow> cn_teardown t \<noteq> TornDown)"
proof (intro exI [of _ sample_abandoned] conjI allI impI)
  show "cn_teardown t \<noteq> TornDown" if "(app_step sample_codec sample_env)\<^sup>*\<^sup>* sample_abandoned t" for t
    using abandoned_stays [OF that] by (simp add: sample_abandoned_def)
qed (rule sample_abandoned_run, simp_all add: sample_abandoned_def sample_sent_def)

text \<open>A write that fails releases the writer lock before the connection is marked closed: a waiting request can still write.\<close>

theorem frame_after_failed_write:
  "\<exists>s. sample_run s \<and> cn_wire s = [FrameFailed (ByRequest 0), FrameWritten (ByRequest 1)]"
proof -
  let ?f = "ConnectionFailure Io ''could not write app-server stdin''"
  let ?a = "first_waiting sample_env 0 (connection_new :: unit connection)"
  have a: "?a = connection_new\<lparr>cn_requests := (\<lambda>_. NotStarted)(0 := WaitingWriter 1), cn_pending := (\<lambda>_. None)(1 := Some 0),
      cn_permits := {0}, cn_next_id := 2\<rparr>" by (simp add: first_waiting_eq [OF new_fresh])
  have fresh: "fresh_for sample_env 1 ?a" unfolding a by (simp add: fresh_for_def sample_env_def U64_MAX_def)
  let ?b = "first_waiting sample_env 1 ?a"
  note b = first_waiting_eq [OF fresh, unfolded a, simplified]
  have "sample_run ?b" using first_waiting_run [OF first_waiting_run [OF reach_init new_fresh] fresh] .
  then have "sample_run (lock_writer 0 1 ?b)" by (rule reach_step) (rule app_step.get_writer, simp_all add: a b)
  then have "sample_run (write_failed 0 1 ?f (lock_writer 0 1 ?b))"
    by (rule reach_step) (rule app_step.fail_write, simp add: a b lock_writer_def)
  then have "sample_run (lock_writer 1 2 (write_failed 0 1 ?f (lock_writer 0 1 ?b)))"
    by (rule reach_step) (rule app_step.get_writer, simp_all add: a b lock_writer_def write_failed_def)
  then have "sample_run (write_done 1 2 (lock_writer 1 2 (write_failed 0 1 ?f (lock_writer 0 1 ?b))))"
    by (rule reach_step) (rule app_step.end_write, simp add: a b lock_writer_def write_failed_def set_phase_def)
  then show ?thesis
    by (intro exI conjI) (assumption, simp add: a b lock_writer_def write_failed_def write_done_def set_phase_def)
qed

end
