(* ===== verification/Rust_Text.thy ===== *)
theory Rust_Text
  imports Utf8
begin

text \<open>
  Operations of Rust strings by character, on their UTF-8 bytes: \<^verbatim>\<open>str::trim\<close>, \<^verbatim>\<open>chars().take(n)\<close> and
  \<^verbatim>\<open>str::lines\<close>.
\<close>

section \<open>Trimming\<close>

text \<open>The UTF-8 encodings of the Unicode white-space characters, and \<^verbatim>\<open>str::trim\<close>.\<close>

definition white_space :: "bytes list" where
  "white_space =
     map (\<lambda>c. [c]) [CHR 0x09, CHR 0x0A, CHR 0x0B, CHR 0x0C, CHR 0x0D, CHR 0x20]
     @ [[CHR 0xC2, CHR 0x85], [CHR 0xC2, CHR 0xA0], [CHR 0xE1, CHR 0x9A, CHR 0x80]]
     @ map (\<lambda>c. [CHR 0xE2, CHR 0x80, c])
         [CHR 0x80, CHR 0x81, CHR 0x82, CHR 0x83, CHR 0x84, CHR 0x85, CHR 0x86, CHR 0x87, CHR 0x88, CHR 0x89, CHR 0x8A,
          CHR 0xA8, CHR 0xA9, CHR 0xAF]
     @ [[CHR 0xE2, CHR 0x81, CHR 0x9F], [CHR 0xE3, CHR 0x80, CHR 0x80]]"

lemma find_white_space:
  assumes "find P white_space = Some w"
  shows "P w \<and> 0 < length w"
proof -
  have "w \<noteq> []" if "w \<in> set white_space" for w using that by (auto simp: white_space_def)
  with assms show ?thesis by (auto simp: find_Some_iff)
qed

function trim_start :: "bytes \<Rightarrow> bytes" where
  "trim_start s = (case find (\<lambda>w. prefix w s) white_space of None \<Rightarrow> s | Some w \<Rightarrow> trim_start (drop (length w) s))"
  by pat_completeness auto
termination
  by (relation "measure length") (auto dest!: find_white_space prefix_length_le simp flip: length_greater_0_conv)

declare trim_start.simps [simp del]

function trim_end :: "bytes \<Rightarrow> bytes" where
  "trim_end s =
     (case find (\<lambda>w. suffix w s) white_space of None \<Rightarrow> s | Some w \<Rightarrow> trim_end (take (length s - length w) s))"
  by pat_completeness auto
termination
  by (relation "measure length") (auto dest!: find_white_space suffix_length_le simp flip: length_greater_0_conv)

declare trim_end.simps [simp del]

definition str_trim :: "bytes \<Rightarrow> bytes" where
  "str_trim s = trim_end (trim_start s)"

text \<open>Text without white space is not changed by trimming.\<close>

definition is_graphic :: "byte \<Rightarrow> bool" where
  "is_graphic b \<longleftrightarrow> 33 \<le> code b \<and> code b \<le> 126"

lemma white_space_ends: "w \<in> set white_space \<Longrightarrow> \<not> is_graphic (hd w) \<and> \<not> is_graphic (last w) \<and> w \<noteq> []"
  by (auto simp: white_space_def is_graphic_def code_def)

lemma str_trim_graphic:
  assumes "list_all is_graphic s"
  shows "str_trim s = s"
proof -
  have "\<not> prefix w s" "\<not> suffix w s" if "w \<in> set white_space" for w
    using white_space_ends [OF that] assms
    by (auto simp: prefix_def suffix_def list_all_iff dest!: bspec [of _ _ "hd w"] bspec [of _ _ "last w"])
  then have "find (\<lambda>w. prefix w s) white_space = None" "find (\<lambda>w. suffix w s) white_space = None"
    by (auto simp: find_None_iff)
  then show ?thesis by (simp add: str_trim_def trim_start.simps trim_end.simps)
qed

section \<open>Characters\<close>

text \<open>\<^verbatim>\<open>chars().take(n)\<close> on a string: the bytes of its first \<open>n\<close> characters.\<close>

function take_chars :: "nat \<Rightarrow> bytes \<Rightarrow> bytes" where
  "take_chars n s =
     (case s of
        [] \<Rightarrow> []
      | b # bs \<Rightarrow>
          if n = 0 then []
          else let w = max 1 (utf8_char_width (code b)) in take w s @ take_chars (n - 1) (drop w s))"
  by pat_completeness auto
termination by (relation "measure fst") auto

declare take_chars.simps [simp del]

lemma utf8_char_width_Ok: "utf8_char b bs = Ok n \<Longrightarrow> utf8_char_width (code b) = Suc n \<and> n \<le> 3"
  by (auto simp: utf8_char_def split: if_splits list.splits)

lemma take_chars_valid:
  assumes "utf8_valid s"
  shows "utf8_valid (take_chars n s) \<and> prefix (take_chars n s) s \<and> length (take_chars n s) \<le> 4 * n"
  using assms
proof (induction n arbitrary: s)
  case 0
  then show ?case by (cases s) (simp_all add: take_chars.simps)
next
  case (Suc n)
  show ?case
  proof (cases s)
    case (Cons b bs)
    then obtain k where k: "utf8_char b bs = Ok k" "utf8_valid (drop k bs)" using Suc.prems by (auto simp: utf8_valid_Cons split: sum.splits)
    have w: "take_chars (Suc n) s = b # take k bs @ take_chars n (drop k bs)"
      using utf8_char_width_Ok [OF k(1)] Cons by (subst take_chars.simps) (simp add: Let_def)
    have "utf8_valid (b # take k bs)"
      using utf8_char_OkD [OF k(1), of "[]"] by (simp add: utf8_valid_Cons)
    with Suc.IH [OF k(2)] have "utf8_valid ((b # take k bs) @ take_chars n (drop k bs))" by (intro utf8_valid_append) auto
    moreover have "prefix (b # take k bs @ take_chars n (drop k bs)) s"
      using Suc.IH [OF k(2)] Cons by (metis Cons_prefix_Cons append_take_drop_id same_prefix_prefix)
    moreover have "length (take k bs) \<le> 3" using utf8_char_width_Ok [OF k(1)] by (simp add: min_le_iff_disj)
    ultimately show ?thesis using Suc.IH [OF k(2)] w by simp
  qed (simp add: take_chars.simps)
qed

section \<open>Lines\<close>

text \<open>\<^verbatim>\<open>str::lines\<close>: the fields between line feeds, the last one only if it is not empty, without a final carriage return.\<close>

definition strip_line_cr :: "bytes \<Rightarrow> bytes" where
  "strip_line_cr l = (if l \<noteq> [] \<and> last l = CHR 0x0D then butlast l else l)"

definition str_lines :: "bytes \<Rightarrow> bytes list" where
  "str_lines s =
     (let fs = split_on (CHR 0x0A) s
      in map strip_line_cr (butlast fs) @ (if last fs = [] then [] else [last fs]))"

end
