(* ===== verification/App_Server_Launch.thy ===== *)
theory App_Server_Launch
  imports App_Server Redaction Rust_Text
begin

text \<open>
  What happens before an app-server child runs: the audited runtime identities (\<^verbatim>\<open>crates/openai-rs-codex/src/runtime.rs\<close>),
  the credential modes (\<^verbatim>\<open>credentials.rs\<close>) and the checks, file-system effects and environment of
  \<^verbatim>\<open>AppServerClient::spawn\<close> (\<^verbatim>\<open>app_server/client.rs\<close>), for a Unix build; and the rolling tail of the child's stderr.
  The file system is a parameter whose answers may depend on what was changed in it so far.
\<close>

definition is_ascii_hexdigit :: "byte \<Rightarrow> bool" where
  "is_ascii_hexdigit b \<longleftrightarrow> is_ascii_digit b \<or> 65 \<le> code b \<and> code b \<le> 70 \<or> 97 \<le> code b \<and> code b \<le> 102"

section \<open>Runtime identities\<close>

definition COMPILED_APP_SERVER_SCHEMA_SHA256 :: bytes where
  "COMPILED_APP_SERVER_SCHEMA_SHA256 = ''95f68321313fc4d64c8781737abf60657d6d100e2f516a036253ca936f4d73a2''"

definition BUNDLED_CODEX_VERSION :: bytes where "BUNDLED_CODEX_VERSION = ''0.144.5''"

definition BUNDLED_CODEX_EXECUTABLE_SHA256 :: bytes where
  "BUNDLED_CODEX_EXECUTABLE_SHA256 = ''5e29ab10ca1171be158f7335dd6bd8ce1aaf9af1556939db36a5ee338be6f5f2''"

record runtime_identity =
  released_version :: bytes
  executable_sha256 :: bytes
  schema_sha256 :: bytes

definition normalize_sha256 :: "bytes \<Rightarrow> bytes option" where
  "normalize_sha256 v =
     (let t = str_trim v
      in if length t \<noteq> 64 \<or> \<not> list_all is_ascii_hexdigit t \<or> list_all (\<lambda>b. b = CHR ''0'') t then None
         else Some (to_ascii_lowercase t))"

definition valid_version_part :: "bytes \<Rightarrow> bool" where
  "valid_version_part p \<longleftrightarrow> p \<noteq> [] \<and> list_all is_ascii_digit p \<and> (p = ''0'' \<or> \<not> prefix ''0'' p)"

definition is_released_version :: "bytes \<Rightarrow> bool" where
  "is_released_version v =
     (case split_on (CHR ''.'') v of
        [major, minor, patch] \<Rightarrow> valid_version_part major \<and> valid_version_part minor \<and> valid_version_part patch
      | _ \<Rightarrow> False)"

definition runtime_identity_new :: "bytes \<Rightarrow> bytes \<Rightarrow> bytes \<Rightarrow> (app_error, runtime_identity) result" where
  "runtime_identity_new version exe schema =
     (let v = str_trim version
      in if \<not> is_released_version v \<or> v = ''0.0.0''
         then Err (InvalidConfiguration ''runtime identity requires a released x.y.z, non-0.0.0 version'')
         else
           res_bind (ok_or (normalize_sha256 exe)
               (InvalidConfiguration ''runtime executable SHA-256 must be 64 non-zero hexadecimal characters'')) (\<lambda>e.
           res_bind (ok_or (normalize_sha256 schema)
               (InvalidConfiguration ''app-server schema SHA-256 must be 64 non-zero hexadecimal characters'')) (\<lambda>s.
           if s \<noteq> COMPILED_APP_SERVER_SCHEMA_SHA256
           then Err (InvalidConfiguration (''runtime schema SHA-256 '' @ s @ '' does not match compiled protocol schema ''
                  @ COMPILED_APP_SERVER_SCHEMA_SHA256))
           else Ok \<lparr>released_version = v, executable_sha256 = e, schema_sha256 = s\<rparr>)))"

text \<open>The loop over the identities with the set of digests seen so far.\<close>

fun duplicate_digest :: "bytes set \<Rightarrow> runtime_identity list \<Rightarrow> bool" where
  "duplicate_digest seen [] = False"
| "duplicate_digest seen (i # ids) =
     (if executable_sha256 i \<in> seen then True else duplicate_digest (insert (executable_sha256 i) seen) ids)"

record runtime_compatibility =
  identities :: "runtime_identity list"

definition runtime_compatibility_new :: "runtime_identity list \<Rightarrow> (app_error, runtime_compatibility) result" where
  "runtime_compatibility_new ids =
     (if ids = [] then Err (InvalidConfiguration ''runtime compatibility set must not be empty'')
      else if duplicate_digest {} ids
      then Err (InvalidConfiguration ''runtime compatibility set contains a duplicate executable SHA-256'')
      else Ok \<lparr>identities = ids\<rparr>)"

text \<open>The conditional compilation on the target is a function of its architecture and system.\<close>

definition for_current_target :: "bytes \<Rightarrow> bytes \<Rightarrow> (app_error, runtime_compatibility) result" where
  "for_current_target arch sys =
     (if arch = ''aarch64'' \<and> sys = ''macos''
      then res_bind (runtime_identity_new BUNDLED_CODEX_VERSION BUNDLED_CODEX_EXECUTABLE_SHA256 COMPILED_APP_SERVER_SCHEMA_SHA256)
             (\<lambda>i. runtime_compatibility_new [i])
      else Err (UnsupportedRuntimeTarget (arch @ ''-'' @ sys)))"

definition resolve_identity :: "runtime_compatibility \<Rightarrow> bytes \<Rightarrow> runtime_identity option" where
  "resolve_identity c digest = find (\<lambda>i. executable_sha256 i = digest) (identities c)"

section \<open>The configuration\<close>

datatype codex_credential = ManagedAppServerCredential | CodexAccessTokenCredential bytes

record app_server_limits =
  limit_line_bytes :: nat
  limit_stderr_bytes :: nat
  limit_pending_requests :: nat
  limit_event_queue :: nat
  limit_request_timeout :: duration
  limit_shutdown_timeout :: duration

record app_server_config =
  cfg_executable :: bytes
  cfg_codex_home :: bytes
  cfg_arguments :: "bytes list"
  cfg_limits :: app_server_limits
  cfg_compatibility :: runtime_compatibility
  cfg_credential :: codex_credential

definition app_server_limits_default :: app_server_limits where
  "app_server_limits_default =
     \<lparr>limit_line_bytes = 32 * 1024 * 1024, limit_stderr_bytes = 64 * 1024, limit_pending_requests = 128, limit_event_queue = 512,
      limit_request_timeout = 30 * 1000000000, limit_shutdown_timeout = 5 * 1000000000\<rparr>"

definition app_server_config_new :: "bytes \<Rightarrow> bytes \<Rightarrow> runtime_compatibility \<Rightarrow> app_server_config" where
  "app_server_config_new exe home c =
     \<lparr>cfg_executable = exe, cfg_codex_home = home, cfg_arguments = [''app-server''], cfg_limits = app_server_limits_default,
      cfg_compatibility = c, cfg_credential = ManagedAppServerCredential\<rparr>"

definition with_limits :: "app_server_limits \<Rightarrow> app_server_config \<Rightarrow> app_server_config" where
  "with_limits l cfg = cfg\<lparr>cfg_limits := l\<rparr>"

definition with_access_token :: "bytes \<Rightarrow> app_server_config \<Rightarrow> app_server_config" where
  "with_access_token t cfg = cfg\<lparr>cfg_credential := CodexAccessTokenCredential t\<rparr>"

definition is_absolute :: "bytes \<Rightarrow> bool" where
  "is_absolute p = prefix ''/'' p"

definition validate_config :: "app_server_config \<Rightarrow> (app_error, unit) result" where
  "validate_config cfg =
     (if \<not> is_absolute (cfg_executable cfg)
      then Err (InvalidConfiguration ''app-server executable must be an explicit absolute path'')
      else if \<not> is_absolute (cfg_codex_home cfg)
      then Err (InvalidConfiguration ''CODEX_HOME must be an explicit absolute path'')
      else if limit_line_bytes (cfg_limits cfg) = 0 \<or> limit_pending_requests (cfg_limits cfg) = 0 \<or> limit_event_queue (cfg_limits cfg) = 0
      then Err (InvalidConfiguration ''line, pending-request, and event-queue limits must be non-zero'')
      else if limit_request_timeout (cfg_limits cfg) = 0 \<or> limit_shutdown_timeout (cfg_limits cfg) = 0
      then Err (InvalidConfiguration ''request and shutdown timeouts must be non-zero'')
      else Ok ())"

section \<open>The host\<close>

datatype fs_action = CreateDirAll bytes | SetMode bytes nat

datatype io_error = NotFound | OtherIo bytes

record file_status =
  st_symlink :: bool
  st_file :: bool
  st_dir :: bool
  st_mode :: nat

text \<open>
  What the file system answers after a sequence of changes: canonical paths, the status of a path with and without
  following links, the successive results of reading a file, whether a change succeeds; the ambient environment; SHA-256.
\<close>

record host =
  canonicalize :: "fs_action list \<Rightarrow> bytes \<Rightarrow> (bytes, bytes) result"
  fs_metadata :: "fs_action list \<Rightarrow> bytes \<Rightarrow> (bytes, file_status) result"
  symlink_metadata :: "fs_action list \<Rightarrow> bytes \<Rightarrow> (io_error, file_status) result"
  read_file :: "fs_action list \<Rightarrow> bytes \<Rightarrow> (bytes, bytes list) result"
  apply_fs :: "fs_action list \<Rightarrow> fs_action \<Rightarrow> (bytes, unit) result"
  env_var :: "bytes \<Rightarrow> bytes option"
  sha256 :: "bytes \<Rightarrow> bytes"

definition validate_executable :: "host \<Rightarrow> bytes \<Rightarrow> (app_error, unit) result" where
  "validate_executable h path =
     res_bind (map_err RuntimeArtifact (fs_metadata h [] path)) (\<lambda>st.
       if \<not> st_file st then Err (InvalidConfiguration ''canonical app-server executable is not a regular file'')
       else if and (st_mode st) 73 = 0 then Err (InvalidConfiguration ''canonical app-server artifact is not executable'')
       else Ok ())"

definition hex_nibble :: "nat \<Rightarrow> byte" where
  "hex_nibble n = ''0123456789abcdef'' ! n"

definition hex_encode :: "bytes \<Rightarrow> bytes" where
  "hex_encode digest = concat (map (\<lambda>b. [hex_nibble (code b div 16), hex_nibble (code b mod 16)]) digest)"

text \<open>The chunks of the file up to the first empty read go into the hasher, one after the other.\<close>

definition sha256_file :: "host \<Rightarrow> bytes \<Rightarrow> (bytes, bytes) result" where
  "sha256_file h path =
     res_bind (read_file h [] path) (\<lambda>reads. Ok (hex_encode (sha256 h (concat (takeWhile (\<lambda>r. r \<noteq> []) reads)))))"

definition prepare_codex_home :: "host \<Rightarrow> bytes \<Rightarrow> (app_error, fs_action list) result" where
  "prepare_codex_home h path =
     res_bind
       (case symlink_metadata h [] path of
          Ok st \<Rightarrow>
            if st_symlink st \<or> \<not> st_dir st
            then Err (InvalidConfiguration ''CODEX_HOME must be a real directory, not a symlink or file'')
            else Ok []
        | Err NotFound \<Rightarrow> res_bind (map_err CodexHome (apply_fs h [] (CreateDirAll path))) (\<lambda>_. Ok [CreateDirAll path])
        | Err (OtherIo e) \<Rightarrow> Err (CodexHome e)) (\<lambda>acts.
     res_bind (map_err CodexHome (apply_fs h acts (SetMode path 448))) (\<lambda>_. Ok (acts @ [SetMode path 448])))"

section \<open>The environment of the child\<close>

definition allowlisted_names :: "bytes list" where
  "allowlisted_names =
     [''PATH'', ''TMPDIR'', ''TMP'', ''TEMP'', ''LANG'', ''LC_ALL'', ''LC_CTYPE'', ''TERM'', ''SHELL'', ''USER'', ''LOGNAME'',
      ''SystemRoot'', ''ComSpec'', ''PATHEXT'', ''__CF_USER_TEXT_ENCODING'']"

definition copy_allowlisted_environment :: "host \<Rightarrow> (bytes \<rightharpoonup> bytes) \<Rightarrow> (bytes \<rightharpoonup> bytes)" where
  "copy_allowlisted_environment h e =
     fold (\<lambda>name env. case env_var h name of Some v \<Rightarrow> env(name \<mapsto> v) | None \<Rightarrow> env) allowlisted_names e"

definition apply_credential :: "codex_credential \<Rightarrow> (bytes \<rightharpoonup> bytes) \<Rightarrow> (bytes \<rightharpoonup> bytes)" where
  "apply_credential cr e =
     (case cr of
        ManagedAppServerCredential \<Rightarrow> e(''CODEX_ACCESS_TOKEN'' := None)
      | CodexAccessTokenCredential t \<Rightarrow> e(''CODEX_ACCESS_TOKEN'' \<mapsto> t))"

record launch =
  la_program :: bytes
  la_arguments :: "bytes list"
  la_environment :: "bytes \<rightharpoonup> bytes"
  la_directory :: bytes
  la_identity :: runtime_identity

text \<open>\<^verbatim>\<open>spawn\<close> up to the start of the child: the command it would run, with the changes made to the file system.\<close>

definition prepare_launch ::
    "host \<Rightarrow> app_server_config \<Rightarrow> bytes \<Rightarrow> bytes \<Rightarrow> (app_error, launch \<times> fs_action list) result" where
  "prepare_launch h cfg client_name client_version =
     res_bind (validate_config cfg) (\<lambda>_.
     if str_trim client_name = [] \<or> str_trim client_version = []
     then Err (InvalidConfiguration ''initialize client name and version must be non-empty'')
     else
       res_bind (map_err RuntimeArtifact (canonicalize h [] (cfg_executable cfg))) (\<lambda>exe.
       res_bind (validate_executable h exe) (\<lambda>_.
       res_bind (map_err RuntimeArtifact (sha256_file h exe)) (\<lambda>digest.
       res_bind (ok_or (resolve_identity (cfg_compatibility cfg) digest) (RuntimeArtifactMismatch digest)) (\<lambda>identity.
       res_bind (prepare_codex_home h (cfg_codex_home cfg)) (\<lambda>acts.
       res_bind (map_err CodexHome (canonicalize h acts (cfg_codex_home cfg))) (\<lambda>home.
         Ok (\<lparr>la_program = exe, la_arguments = cfg_arguments cfg,
              la_environment = apply_credential (cfg_credential cfg)
                (copy_allowlisted_environment h ((\<lambda>_. None)(''CODEX_HOME'' \<mapsto> home))),
              la_directory = home, la_identity = identity\<rparr>, acts))))))))"

section \<open>The stderr tail\<close>

record stderr_tail =
  tail_bytes :: bytes
  tail_capacity :: nat

definition stderr_tail_new :: "nat \<Rightarrow> stderr_tail" where
  "stderr_tail_new capacity = \<lparr>tail_bytes = [], tail_capacity = capacity\<rparr>"

definition push_tail_byte :: "nat \<Rightarrow> byte \<Rightarrow> bytes \<Rightarrow> bytes" where
  "push_tail_byte capacity b q = (if length q = capacity then tl q else q) @ [b]"

definition stderr_extend :: "bytes \<Rightarrow> stderr_tail \<Rightarrow> stderr_tail" where
  "stderr_extend bs t =
     (if tail_capacity t = 0 then t else t\<lparr>tail_bytes := fold (push_tail_byte (tail_capacity t)) bs (tail_bytes t)\<rparr>)"

definition lossy_string :: "stderr_tail \<Rightarrow> bytes" where
  "lossy_string t = from_utf8_lossy (tail_bytes t)"

definition CHILD_EXIT_STDERR_SNIPPET :: nat where "CHILD_EXIT_STDERR_SNIPPET = 2048"

definition child_exit_failure :: "bytes \<Rightarrow> stderr_tail \<Rightarrow> connection_failure" where
  "child_exit_failure status t =
     (let stderr = lossy_string t;
          message = ''app-server child exited with status '' @ status;
          snippet = take_chars CHILD_EXIT_STDERR_SNIPPET stderr
      in ConnectionFailure ChildExit
           (if stderr = [] then message
            else message @ ''; stderr tail: '' @ snippet @ (if length snippet < length stderr then ''...[truncated]'' else [])))"

section \<open>Correctness\<close>

lemma duplicate_digest_iff:
  "duplicate_digest seen ids \<longleftrightarrow> \<not> (distinct (map executable_sha256 ids) \<and> seen \<inter> executable_sha256 ` set ids = {})"
  by (induction seen ids rule: duplicate_digest.induct) auto

lemma resolve_identity_Some:
  "resolve_identity c digest = Some i \<Longrightarrow> i \<in> set (identities c) \<and> executable_sha256 i = digest"
  by (auto simp: resolve_identity_def find_Some_iff)

lemma compatibility_unique:
  assumes "runtime_compatibility_new ids = Ok c" and "i \<in> set (identities c)" and "j \<in> set (identities c)"
    and "executable_sha256 i = executable_sha256 j"
  shows "i = j"
proof -
  have "identities c = ids" "distinct (map executable_sha256 ids)"
    using assms(1) by (auto simp: runtime_compatibility_new_def duplicate_digest_iff split: if_splits)
  with assms(2-) show ?thesis by (auto simp: distinct_map dest: inj_onD)
qed

lemma copy_environment_apply:
  "copy_allowlisted_environment h e k = (if k \<in> set allowlisted_names \<and> env_var h k \<noteq> None then env_var h k else e k)"
proof -
  have "fold (\<lambda>name env. case env_var h name of Some v \<Rightarrow> env(name \<mapsto> v) | None \<Rightarrow> env) names e k
    = (if k \<in> set names \<and> env_var h k \<noteq> None then env_var h k else e k)" for names
    by (induction names arbitrary: e) (auto split: option.split)
  then show ?thesis by (simp add: copy_allowlisted_environment_def)
qed

lemma prepare_codex_home_Ok:
  "prepare_codex_home h path = Ok acts \<Longrightarrow>
    last acts = SetMode path 448 \<and> set acts \<subseteq> {CreateDirAll path, SetMode path 448}
    \<and> (\<forall>st. symlink_metadata h [] path = Ok st \<longrightarrow> st_dir st \<and> \<not> st_symlink st)"
  by (auto simp: prepare_codex_home_def res_bind_Ok_iff split: sum.splits io_error.splits if_splits)

lemmas launch_Ok = prepare_launch_def res_bind_Ok_iff map_err_Ok_iff ok_or_Ok_iff

text \<open>
  C20: Only an audited executable is launched, and in isolation. The program is the canonical path of the configured executable, a
  regular file with an execute bit, whose SHA-256 belongs to exactly one audited identity, the one reported; it runs with the
  configured arguments in the canonical path the home has once it is prepared; the child sees \<^verbatim>\<open>CODEX_HOME\<close>, allowlisted ambient variables (never
  \<^verbatim>\<open>HOME\<close>) and the access token exactly if the configuration carries one; its home is a real directory made private last.
\<close>

theorem launch_audited:
  assumes "runtime_compatibility_new ids = Ok (cfg_compatibility cfg)"
    and "prepare_launch h cfg client_name client_version = Ok (la, acts)"
  shows "canonicalize h [] (cfg_executable cfg) = Ok (la_program la) \<and> canonicalize h acts (cfg_codex_home cfg) = Ok (la_directory la)
    \<and> (\<exists>st. fs_metadata h [] (la_program la) = Ok st \<and> st_file st \<and> and (st_mode st) 73 \<noteq> 0)
    \<and> la_arguments la = cfg_arguments cfg
    \<and> (\<exists>digest. sha256_file h (la_program la) = Ok digest
      \<and> {i \<in> set (identities (cfg_compatibility cfg)). executable_sha256 i = digest} = {la_identity la})
    \<and> dom (la_environment la) \<subseteq> {''CODEX_HOME'', ''CODEX_ACCESS_TOKEN''} \<union> set allowlisted_names
    \<and> la_environment la ''HOME'' = None \<and> la_environment la ''CODEX_HOME'' = Some (la_directory la)
    \<and> la_environment la ''CODEX_ACCESS_TOKEN''
        = (case cfg_credential cfg of ManagedAppServerCredential \<Rightarrow> None | CodexAccessTokenCredential t \<Rightarrow> Some t)
    \<and> last acts = SetMode (cfg_codex_home cfg) 448
    \<and> set acts \<subseteq> {CreateDirAll (cfg_codex_home cfg), SetMode (cfg_codex_home cfg) 448}"
proof -
  from assms(2) obtain digest home where d: "sha256_file h (la_program la) = Ok digest"
      "resolve_identity (cfg_compatibility cfg) digest = Some (la_identity la)"
      "prepare_codex_home h (cfg_codex_home cfg) = Ok acts"
    and p: "canonicalize h [] (cfg_executable cfg) = Ok (la_program la)" "canonicalize h acts (cfg_codex_home cfg) = Ok home"
      "validate_executable h (la_program la) = Ok ()" "la_arguments la = cfg_arguments cfg"
    and e: "la_directory la = home" "la_environment la = apply_credential (cfg_credential cfg)
        (copy_allowlisted_environment h ((\<lambda>_. None)(''CODEX_HOME'' \<mapsto> home)))"
    by (auto simp: launch_Ok split: if_splits)
  have "\<exists>st. fs_metadata h [] (la_program la) = Ok st \<and> st_file st \<and> and (st_mode st) 73 \<noteq> 0"
    using p(3) by (auto simp: validate_executable_def res_bind_Ok_iff map_err_Ok_iff split: if_splits)
  moreover have "{i \<in> set (identities (cfg_compatibility cfg)). executable_sha256 i = digest} = {la_identity la}"
    using resolve_identity_Some [OF d(2)] compatibility_unique [OF assms(1)] by auto
  moreover have "dom (la_environment la) \<subseteq> {''CODEX_HOME'', ''CODEX_ACCESS_TOKEN''} \<union> set allowlisted_names"
    unfolding e(2) by (auto simp: apply_credential_def copy_environment_apply split: codex_credential.splits if_splits)
  ultimately show ?thesis using d(1) p(1,2,4) prepare_codex_home_Ok [OF d(3)] unfolding e
    by (auto simp: apply_credential_def copy_environment_apply allowlisted_names_def split: codex_credential.split)
qed

definition sample_identity :: runtime_identity where
  "sample_identity = \<lparr>released_version = ''1.2.3'', executable_sha256 = hex_encode (replicate 32 (CHR ''a'')),
     schema_sha256 = COMPILED_APP_SERVER_SCHEMA_SHA256\<rparr>"

definition sample_host :: host where
  "sample_host =
     \<lparr>canonicalize = (\<lambda>_ p. Ok (''/private'' @ p)), fs_metadata = (\<lambda>_ _. Ok \<lparr>st_symlink = False, st_file = True, st_dir = False, st_mode = 493\<rparr>),
      symlink_metadata = (\<lambda>_ _. Err NotFound), read_file = (\<lambda>_ _. Ok [''code'', []]), apply_fs = (\<lambda>_ _. Ok ()),
      env_var = (\<lambda>n. if n = ''HOME'' \<or> n = ''PATH'' then Some ''/x'' else None), sha256 = (\<lambda>_. replicate 32 (CHR ''a''))\<rparr>"

definition sample_config :: app_server_config where
  "sample_config = app_server_config_new ''/bin/codex'' ''/home/codex'' \<lparr>identities = [sample_identity]\<rparr>"

theorem launch_audited_witness:
  "\<exists>la acts. prepare_launch sample_host sample_config ''client'' ''1.0'' = Ok (la, acts)
    \<and> la_program la = ''/private/bin/codex'' \<and> la_identity la = sample_identity \<and> la_environment la ''HOME'' = None \<and> la_environment la ''PATH'' = Some ''/x''
    \<and> last acts = SetMode ''/home/codex'' 448"
proof -
  have c: "runtime_compatibility_new [sample_identity] = Ok (cfg_compatibility sample_config)"
    by (simp add: runtime_compatibility_new_def sample_config_def app_server_config_new_def)
  have t: "str_trim ''client'' = ''client''" "str_trim ''1.0'' = ''1.0''" by code_simp+
  have x: "and (493 :: nat) 73 = 73" by code_simp
  obtain la acts where p: "prepare_launch sample_host sample_config ''client'' ''1.0'' = Ok (la, acts)"
      "la_environment la ''PATH'' = Some ''/x''"
    by (simp add: prepare_launch_def validate_config_def is_absolute_def validate_executable_def sha256_file_def
        resolve_identity_def prepare_codex_home_def sample_host_def sample_config_def app_server_config_new_def sample_identity_def
        app_server_limits_default_def res_bind_def map_err_def ok_or_def t x apply_credential_def copy_allowlisted_environment_def
        allowlisted_names_def)
  from launch_audited [OF c p(1)] p show ?thesis
    by (intro exI [of _ la] exI [of _ acts]) (auto simp: sample_config_def app_server_config_new_def sample_host_def)
qed

definition lowercase_hex :: "bytes \<Rightarrow> bool" where
  "lowercase_hex s \<longleftrightarrow> list_all (\<lambda>b. is_ascii_digit b \<or> 97 \<le> code b \<and> code b \<le> 102) s"

lemma hexdigit_lowercase:
  assumes "is_ascii_hexdigit b"
  shows "\<exists>c. to_ascii_lowercase [b] = [c] \<and> (is_ascii_digit c \<or> 97 \<le> code c \<and> code c \<le> 102) \<and> (c = CHR ''0'' \<longleftrightarrow> b = CHR ''0'')"
proof (cases "65 \<le> code b \<and> code b \<le> 90")
  case True
  then have "code b \<le> 70" using assms by (auto simp: is_ascii_hexdigit_def is_ascii_digit_def)
  with True have "code (char_of (code b + 32)) = code b + 32" by (simp add: code_def)
  moreover have "code (CHR ''0'') = 48" by (simp add: code_def)
  ultimately show ?thesis using True \<open>code b \<le> 70\<close>
    by (auto simp: to_ascii_lowercase_def is_ascii_digit_def)
next
  case False
  then show ?thesis using assms by (auto simp: to_ascii_lowercase_def is_ascii_hexdigit_def)
qed

lemma to_ascii_lowercase_Cons: "to_ascii_lowercase (b # s) = to_ascii_lowercase [b] @ to_ascii_lowercase s"
  by (simp add: to_ascii_lowercase_def)

lemma lowercase_of_hex:
  assumes "list_all is_ascii_hexdigit s"
  shows "lowercase_hex (to_ascii_lowercase s) \<and> length (to_ascii_lowercase s) = length s
    \<and> (list_all (\<lambda>b. b = CHR ''0'') (to_ascii_lowercase s) \<longleftrightarrow> list_all (\<lambda>b. b = CHR ''0'') s)"
  using assms
proof (induction s)
  case (Cons b s)
  then obtain c where "to_ascii_lowercase [b] = [c]" "is_ascii_digit c \<or> 97 \<le> code c \<and> code c \<le> 102" "c = CHR ''0'' \<longleftrightarrow> b = CHR ''0''"
    using hexdigit_lowercase [of b] by auto
  with Cons show ?case by (simp add: to_ascii_lowercase_Cons [of b s] lowercase_hex_def)
qed (simp add: to_ascii_lowercase_def lowercase_hex_def)

lemma lowercase_hex_fixed:
  assumes "lowercase_hex s"
  shows "list_all is_graphic s" and "list_all is_ascii_hexdigit s" and "to_ascii_lowercase s = s"
  using assms
  by (auto simp: lowercase_hex_def list_all_iff is_graphic_def is_ascii_hexdigit_def is_ascii_digit_def to_ascii_lowercase_def
      intro!: map_idI)

lemma normalize_sha256_Some:
  assumes "normalize_sha256 v = Some d"
  shows "length d = 64 \<and> lowercase_hex d \<and> \<not> list_all (\<lambda>b. b = CHR ''0'') d \<and> normalize_sha256 d = Some d"
proof -
  from assms have "length d = 64" "lowercase_hex d" "\<not> list_all (\<lambda>b. b = CHR ''0'') d"
    using lowercase_of_hex [of "str_trim v"] by (auto simp: normalize_sha256_def Let_def split: if_splits)
  then show ?thesis using lowercase_hex_fixed [of d] by (simp add: normalize_sha256_def str_trim_graphic)
qed

lemma split_on_parts: "list_all (list_all P) (split_on c s) \<Longrightarrow> list_all (\<lambda>b. b = c \<or> P b) s"
  by (induction c s rule: split_on.induct) (auto split: if_splits list.splits)

lemma released_graphic:
  assumes "is_released_version v"
  shows "list_all is_graphic v"
proof -
  from assms obtain x y z where "split_on (CHR ''.'') v = [x, y, z]" "valid_version_part x" "valid_version_part y" "valid_version_part z"
    unfolding is_released_version_def by (auto split: list.splits)
  then have "list_all (list_all is_ascii_digit) (split_on (CHR ''.'') v)" unfolding valid_version_part_def by simp
  from split_on_parts [OF this] show ?thesis
  proof (rule list.pred_mono_strong)
    show "is_graphic b" if "b = CHR ''.'' \<or> is_ascii_digit b" for b
      using that by (auto simp: is_graphic_def is_ascii_digit_def) (simp_all add: code_def)
  qed
qed

lemma runtime_identity_new_Ok:
  "runtime_identity_new version exe schema = Ok i \<longleftrightarrow>
     is_released_version (str_trim version) \<and> str_trim version \<noteq> ''0.0.0''
     \<and> normalize_sha256 schema = Some COMPILED_APP_SERVER_SCHEMA_SHA256
     \<and> (\<exists>e. normalize_sha256 exe = Some e
       \<and> i = \<lparr>released_version = str_trim version, executable_sha256 = e, schema_sha256 = COMPILED_APP_SERVER_SCHEMA_SHA256\<rparr>)"
proof (cases "is_released_version (str_trim version) \<and> str_trim version \<noteq> ''0.0.0''")
  case True
  then show ?thesis by (auto simp: runtime_identity_new_def res_bind_Ok_iff)
next
  case False
  then show ?thesis by (auto simp: runtime_identity_new_def)
qed

text \<open>
  C39: An accepted runtime identity is in normal form: a released version x.y.z other than 0.0.0, a digest of 64 lowercase
  hexadecimal digits that is not the zero placeholder, the schema compiled into the crate; building it again from its
  own parts gives it back.
\<close>

theorem runtime_identity_normal:
  assumes "runtime_identity_new version exe schema = Ok i"
  shows "is_released_version (released_version i) \<and> released_version i \<noteq> ''0.0.0''
    \<and> length (executable_sha256 i) = 64 \<and> lowercase_hex (executable_sha256 i)
    \<and> \<not> list_all (\<lambda>b. b = CHR ''0'') (executable_sha256 i) \<and> schema_sha256 i = COMPILED_APP_SERVER_SCHEMA_SHA256
    \<and> runtime_identity_new (released_version i) (executable_sha256 i) (schema_sha256 i) = Ok i"
proof -
  obtain e where v: "is_released_version (str_trim version)" "str_trim version \<noteq> ''0.0.0''"
      and n: "normalize_sha256 schema = Some COMPILED_APP_SERVER_SCHEMA_SHA256" "normalize_sha256 exe = Some e"
      and i: "i = \<lparr>released_version = str_trim version, executable_sha256 = e, schema_sha256 = COMPILED_APP_SERVER_SCHEMA_SHA256\<rparr>"
    using assms unfolding runtime_identity_new_Ok by blast
  have t: "str_trim (str_trim version) = str_trim version" using str_trim_graphic [OF released_graphic [OF v(1)]] .
  show ?thesis unfolding runtime_identity_new_Ok i
    using v t normalize_sha256_Some [OF n(1)] normalize_sha256_Some [OF n(2)] by simp
qed

theorem runtime_identity_normal_witness:
  "\<exists>i. runtime_identity_new '' 1.2.3 '' BUNDLED_CODEX_EXECUTABLE_SHA256 COMPILED_APP_SERVER_SCHEMA_SHA256 = Ok i
    \<and> runtime_identity_new (released_version i) (executable_sha256 i) (schema_sha256 i) = Ok i"
proof -
  have "\<not> isl (runtime_identity_new '' 1.2.3 '' BUNDLED_CODEX_EXECUTABLE_SHA256 COMPILED_APP_SERVER_SCHEMA_SHA256)"
    by code_simp
  then obtain i where i: "runtime_identity_new '' 1.2.3 '' BUNDLED_CODEX_EXECUTABLE_SHA256 COMPILED_APP_SERVER_SCHEMA_SHA256 = Ok i"
    by (cases "runtime_identity_new '' 1.2.3 '' BUNDLED_CODEX_EXECUTABLE_SHA256 COMPILED_APP_SERVER_SCHEMA_SHA256") auto
  with runtime_identity_normal [OF i] show ?thesis by blast
qed

text \<open>However stderr arrives, the tail holds exactly the last bytes up to its capacity.\<close>

lemma push_tail_fold:
  assumes "0 < n"
  shows "fold (push_tail_byte n) bs (drop (length s - n) s) = drop (length s + length bs - n) (s @ bs)"
proof (induction bs arbitrary: s)
  case (Cons b bs)
  have "push_tail_byte n b (drop (length s - n) s) = drop (length (s @ [b]) - n) (s @ [b])"
    using assms by (auto simp: push_tail_byte_def tl_drop Suc_diff_le not_le drop_Suc [symmetric])
  then show ?case using Cons [of "s @ [b]"] by simp
qed simp

theorem stderr_tail_last:
  "tail_bytes (fold stderr_extend pieces (stderr_tail_new n)) = drop (length (concat pieces) - n) (concat pieces)"
proof -
  have "fold stderr_extend pieces \<lparr>tail_bytes = drop (length s - n) s, tail_capacity = n\<rparr>
      = \<lparr>tail_bytes = drop (length s + length (concat pieces) - n) (s @ concat pieces), tail_capacity = n\<rparr>" for s
  proof (induction pieces arbitrary: s)
    case (Cons p ps)
    then show ?case using Cons.IH [of "s @ p"] push_tail_fold [of n p s]
      by (cases "n = 0") (simp_all add: stderr_extend_def add.assoc)
  qed simp
  from this [of "[]"] show ?thesis by (simp add: stderr_tail_new_def)
qed

text \<open>
  The message of an exited child: its status and a prefix of the tail that is valid UTF-8 again, at most four bytes for
  each of the 2048 characters.
\<close>

theorem child_exit_snippet:
  "\<exists>snippet. child_exit_failure status t = ConnectionFailure ChildExit (''app-server child exited with status '' @ status
      @ (if lossy_string t = [] then []
         else ''; stderr tail: '' @ snippet @ (if snippet = lossy_string t then [] else ''...[truncated]'')))
    \<and> utf8_valid snippet \<and> prefix snippet (lossy_string t) \<and> length snippet \<le> 8192"
proof -
  have "utf8_valid (lossy_string t)" by (simp add: lossy_string_def from_utf8_lossy_valid)
  note v = take_chars_valid [OF this, of CHILD_EXIT_STDERR_SNIPPET]
  have "length p < length s \<longleftrightarrow> p \<noteq> s" if "prefix p s" for p s :: bytes using that by (auto simp: prefix_def)
  note p = this [of "take_chars CHILD_EXIT_STDERR_SNIPPET (lossy_string t)" "lossy_string t"]
  from v p show ?thesis
    by (intro exI [of _ "take_chars CHILD_EXIT_STDERR_SNIPPET (lossy_string t)"])
      (simp add: child_exit_failure_def Let_def CHILD_EXIT_STDERR_SNIPPET_def)
qed

end
