(* ===== verification/Direct_Auth.thy ===== *)
theory Direct_Auth
  imports Oidc_Verifier Json_Value Redaction Rust_Text Webhook_Verifier
begin

text \<open>
  The OAuth logins of the experimental direct Codex backend, \<^verbatim>\<open>crates/openai-rs-codex/src/direct/auth.rs\<close>: the
  loopback callback, the browser flow with state, nonce and PKCE, the device-code flow, and the exchange of a code for
  a verified and stored session.

  HTTP, TCP, the URL parser, JSON decoding and the credential store are parameters: what they answer is part of the
  environment of a run.  Posted forms and saved sessions are the effects of a run, in order.
\<close>

section \<open>Errors and constants\<close>

datatype direct_failure =
    DConfiguration bytes
  | DRandom
  | DHttp bytes
  | DJson bytes
  | DJwt bytes
  | DOAuth bytes
  | DStore bytes
  | DCancelled
  | DTimeout
  | DRedirectRejected
  | DHttpStatus nat bytes
  | DBodyTooLarge
  | DSse bytes
  | DUnsupportedRequestField bytes
  | DReauthenticationRequired

fun of_oidc :: "oidc_error \<Rightarrow> direct_failure" where
  "of_oidc (Configuration m) = DConfiguration m"
| "of_oidc (Jwt m) = DJwt m"

definition CLIENT_ID :: bytes where "CLIENT_ID = ''app_EMoamEEZ73f0CkXaXp7hrann''"
definition CODEX_ORIGINATOR :: bytes where "CODEX_ORIGINATOR = ''codex_cli_rs''"
definition ISSUER :: bytes where "ISSUER = ''https://auth.openai.com''"
definition DEVICE_REDIRECT_URI :: bytes where "DEVICE_REDIRECT_URI = ''https://auth.openai.com/deviceauth/callback''"
definition CALLBACK_PATH :: bytes where "CALLBACK_PATH = ''/auth/callback''"
definition MAX_CALLBACK_BYTES :: nat where "MAX_CALLBACK_BYTES = 8 * 1024"
definition MAX_AUTH_BODY_BYTES :: nat where "MAX_AUTH_BODY_BYTES = 256 * 1024"
definition DEFAULT_EXPIRES_IN :: nat where "DEFAULT_EXPIRES_IN = 3600"

record stored_session =
  access_token :: bytes
  refresh_token :: bytes
  expires_at :: nat
  account_id :: chatgpt_account_id
  generation :: nat

section \<open>Responses\<close>

text \<open>A response: its status, its declared length, and the chunks of its body, any of which may fail.\<close>

record auth_response =
  ar_status :: nat
  ar_content_length :: "nat option"
  ar_chunks :: "(bytes, bytes) result list"

fun read_limited_loop :: "nat \<Rightarrow> bytes \<Rightarrow> (bytes, bytes) result list \<Rightarrow> (direct_failure, bytes) result" where
  "read_limited_loop limit acc [] = Ok acc"
| "read_limited_loop limit acc (Inl e # cs) = Err (DHttp e)"
| "read_limited_loop limit acc (Inr c # cs) =
     (if saturating_add (length acc) (length c) > limit then Err DBodyTooLarge
      else read_limited_loop limit (acc @ c) cs)"

definition read_limited :: "auth_response \<Rightarrow> nat \<Rightarrow> (direct_failure, bytes) result" where
  "read_limited r limit =
     (if (case ar_content_length r of Some l \<Rightarrow> l > limit | None \<Rightarrow> False) then Err DBodyTooLarge
      else read_limited_loop limit [] (ar_chunks r))"

definition is_inert_token :: "bytes \<Rightarrow> bool" where
  "is_inert_token s \<longleftrightarrow>
     s \<noteq> [] \<and> length s \<le> 64 \<and> list_all (\<lambda>b. is_ascii_alphanumeric b \<or> b = CHR ''_'' \<or> b = CHR ''-'') s"

definition sanitized_error_code :: "(bytes \<Rightarrow> (bytes, json) result) \<Rightarrow> bytes \<Rightarrow> bytes option" where
  "sanitized_error_code from_slice b =
     (case from_slice b of
        Err _ \<Rightarrow> None
      | Ok v \<Rightarrow>
          (case Option.bind (Option.bind (as_object v) (\<lambda>m. map_of m ''error'')) as_str of
             None \<Rightarrow> None
           | Some c \<Rightarrow> if is_inert_token c then Some c else None))"

definition http_status_error :: "(bytes \<Rightarrow> (bytes, json) result) \<Rightarrow> auth_response \<Rightarrow> direct_failure" where
  "http_status_error from_slice r =
     DHttpStatus (ar_status r)
       (case read_limited r (8 * 1024) of
          Ok b \<Rightarrow>
            (case sanitized_error_code from_slice b of Some c \<Rightarrow> c | None \<Rightarrow> ''authentication request failed'')
        | Err _ \<Rightarrow> ''authentication request failed'')"

definition decode_auth_response ::
    "(bytes \<Rightarrow> (bytes, json) result) \<Rightarrow> (bytes \<Rightarrow> (bytes, 't) result) \<Rightarrow> auth_response \<Rightarrow> (direct_failure, 't) result" where
  "decode_auth_response from_slice decode r =
     (if 300 \<le> ar_status r \<and> ar_status r < 400 then Err DRedirectRejected
      else if \<not> (200 \<le> ar_status r \<and> ar_status r < 300) then Err (http_status_error from_slice r)
      else res_bind (read_limited r MAX_AUTH_BODY_BYTES) (\<lambda>b. map_err DJson (decode b)))"

section \<open>The environment\<close>

record token_response =
  tr_id_token :: bytes
  tr_access_token :: bytes
  tr_refresh_token :: "bytes option"
  tr_expires_in :: "nat option"

type_synonym form = "(bytes \<times> bytes) list"

datatype login_effect = Posted form | FetchedKeys | Saved stored_session

record login_env =
  le_crypto :: jwt_crypto
  le_json :: "bytes \<Rightarrow> (bytes, json) result"
  le_tokens :: "bytes \<Rightarrow> (bytes, token_response) result"
  le_keys :: "bytes \<Rightarrow> (bytes, json_web_key list) result"
  le_post :: "form \<Rightarrow> (bytes, auth_response) result"
  le_get_keys :: "(bytes, auth_response) result"
  le_now :: "nat \<Rightarrow> (direct_failure, nat) result"
  le_save :: "stored_session \<Rightarrow> (direct_failure, unit) result"
  le_url :: "bytes \<Rightarrow> (bytes \<times> form) option"
  le_sha256_base64url :: "bytes \<Rightarrow> bytes"

definition exchange_form :: "bytes \<Rightarrow> bytes \<Rightarrow> bytes \<Rightarrow> form" where
  "exchange_form cd redirect_uri verifier =
     [(''grant_type'', ''authorization_code''), (''code'', cd), (''redirect_uri'', redirect_uri), (''client_id'', CLIENT_ID),
      (''code_verifier'', verifier)]"

definition exchange_code :: "login_env \<Rightarrow> bytes \<Rightarrow> bytes \<Rightarrow> bytes \<Rightarrow> (direct_failure, token_response) result" where
  "exchange_code env cd redirect_uri verifier =
     res_bind (map_err DHttp (le_post env (exchange_form cd redirect_uri verifier)))
       (decode_auth_response (le_json env) (le_tokens env))"

definition fetch_verifier :: "login_env \<Rightarrow> (direct_failure, oidc_verifier) result" where
  "fetch_verifier env =
     res_bind (map_err DHttp (le_get_keys env)) (\<lambda>r.
     res_bind (decode_auth_response (le_json env) (le_keys env) r) (\<lambda>keys.
     map_err of_oidc (oidc_verifier_new ISSUER CLIENT_ID keys)))"

text \<open>
  The end of both flows: exchange the code, verify the ID token against the keys and the nonce of this login, insist on a
  refresh token, store the session.  The clock is read twice.
\<close>

definition login_session ::
    "login_env \<Rightarrow> bytes \<Rightarrow> token_response \<Rightarrow> oidc_verifier \<Rightarrow> (direct_failure, stored_session) result" where
  "login_session env nonce_value tokens v =
     res_bind (le_now env 0) (\<lambda>now.
     res_bind (map_err of_oidc (oidc_verify (le_crypto env) v (tr_id_token tokens) nonce_value now)) (\<lambda>account.
     res_bind (ok_or (tr_refresh_token tokens) (DOAuth ''initial token response omitted refresh token'')) (\<lambda>refresh.
     res_bind (le_now env 1) (\<lambda>now'.
       Ok \<lparr>access_token = tr_access_token tokens, refresh_token = refresh,
           expires_at = saturating_add now' (case tr_expires_in tokens of Some n \<Rightarrow> n | None \<Rightarrow> DEFAULT_EXPIRES_IN),
           account_id = account, generation = 0\<rparr>))))"

definition finish_login ::
    "login_env \<Rightarrow> bytes \<Rightarrow> bytes \<Rightarrow> bytes \<Rightarrow> bytes \<Rightarrow> (direct_failure, stored_session) result \<times> login_effect list" where
  "finish_login env cd redirect_uri verifier nonce_value =
     (let posted = Posted (exchange_form cd redirect_uri verifier)
      in case exchange_code env cd redirect_uri verifier of
           Err e \<Rightarrow> (Err e, [posted])
         | Ok tokens \<Rightarrow>
             (case fetch_verifier env of
                Err e \<Rightarrow> (Err e, [posted, FetchedKeys])
              | Ok v \<Rightarrow>
                  (case login_session env nonce_value tokens v of
                     Err e \<Rightarrow> (Err e, [posted, FetchedKeys])
                   | Ok session \<Rightarrow>
                       (case le_save env session of
                          Err e \<Rightarrow> (Err e, [posted, FetchedKeys, Saved session])
                        | Ok _ \<Rightarrow> (Ok session, [posted, FetchedKeys, Saved session])))))"

section \<open>The loopback callback\<close>

record callback_params =
  cb_code :: bytes
  cb_state :: bytes
  cb_error :: bool

definition header_end :: bytes where "header_end = [CHR 0x0D, CHR 0x0A, CHR 0x0D, CHR 0x0A]"

definition has_header_end :: "bytes \<Rightarrow> bool" where
  "has_header_end b = list_ex (\<lambda>i. take 4 (drop i b) = header_end) [0..<length b]"

text \<open>The bytes of a request up to the read that completes its header; an empty read ends it early.\<close>

fun read_request :: "bytes \<Rightarrow> (bytes, bytes) result list \<Rightarrow> (direct_failure, bytes option) result" where
  "read_request acc [] = Ok None"
| "read_request acc (Inl e # rs) = Err (DOAuth (''callback read failed: '' @ e))"
| "read_request acc (Inr c # rs) =
     (if c = [] then Ok None
      else if saturating_add (length acc) (length c) > MAX_CALLBACK_BYTES then Err (DOAuth ''callback request too large'')
      else if has_header_end (acc @ c) then Ok (Some (acc @ c)) else read_request (acc @ c) rs)"

text \<open>The header lines after the request line: \<open>Ok None\<close> for a line without a colon, else the host found.\<close>

fun find_host :: "bytes option \<Rightarrow> bytes list \<Rightarrow> (direct_failure, bytes option option) result" where
  "find_host found [] = Ok (Some found)"
| "find_host found (l # ls) =
     (if l = [] \<or> l = [CHR 0x0D] then Ok (Some found)
      else case split_once (CHR '':'') l of
        None \<Rightarrow> Ok None
      | Some (name, v) \<Rightarrow>
          if to_ascii_lowercase name = ''host'' then
            (if found \<noteq> None then Err (DOAuth ''duplicate callback Host header'') else find_host (Some (str_trim v)) ls)
          else find_host found ls)"

fun scan_query :: "bytes option \<times> bytes option \<times> bool \<Rightarrow> form \<Rightarrow> (direct_failure, bytes option \<times> bytes option \<times> bool) result" where
  "scan_query acc [] = Ok acc"
| "scan_query (cd, state, err) ((k, v) # kvs) =
     (if k = ''code'' then
        (if cd = None then scan_query (Some v, state, err) kvs else Err (DOAuth ''duplicate callback code parameter''))
      else if k = ''state'' then
        (if state = None then scan_query (cd, Some v, err) kvs else Err (DOAuth ''duplicate callback state parameter''))
      else if k = ''error'' then scan_query (cd, state, True) kvs
      else scan_query (cd, state, err) kvs)"

definition parse_callback ::
    "(bytes \<Rightarrow> (bytes \<times> form) option) \<Rightarrow> bytes \<Rightarrow> bytes \<Rightarrow> (direct_failure, callback_params option) result" where
  "parse_callback url expected_host request =
     res_bind (map_err (\<lambda>_. DOAuth ''callback was not UTF-8'') (from_utf8 request)) (\<lambda>text.
     (case str_lines text of
        [] \<Rightarrow> Err (DOAuth ''callback request line missing'')
      | request_line # headers \<Rightarrow>
          (case split_ascii_whitespace request_line of
             [mth, target, version] \<Rightarrow>
               if mth \<noteq> ''GET'' \<or> version \<noteq> ''HTTP/1.1'' then Ok None
               else res_bind (find_host None headers) (\<lambda>scanned.
                 (case scanned of
                    None \<Rightarrow> Ok None
                  | Some host \<Rightarrow>
                      if host \<noteq> Some expected_host then Err (DOAuth ''callback Host header mismatch'')
                      else (case url (''http://127.0.0.1'' @ target) of
                        None \<Rightarrow> Err (DOAuth ''invalid callback URL'')
                      | Some (path, query) \<Rightarrow>
                          if path \<noteq> CALLBACK_PATH then Ok None
                          else res_bind (scan_query (None, None, False) query) (\<lambda>(cd, state, err).
                            res_bind (ok_or state (DOAuth ''callback state missing'')) (\<lambda>st.
                              Ok (Some \<lparr>cb_code = (case cd of Some c \<Rightarrow> c | None \<Rightarrow> []), cb_state = st, cb_error = err\<rparr>))))))
           | _ \<Rightarrow> Ok None)))"

definition read_callback ::
    "(bytes \<Rightarrow> (bytes \<times> form) option) \<Rightarrow> bytes \<Rightarrow> (bytes, bytes) result list \<Rightarrow> (direct_failure, callback_params option) result" where
  "read_callback url expected_host reads =
     res_bind (read_request [] reads) (\<lambda>r. case r of None \<Rightarrow> Ok None | Some request \<Rightarrow> parse_callback url expected_host request)"

section \<open>The browser flow\<close>

record browser_login =
  bl_redirect_uri :: bytes
  bl_host :: bytes
  bl_verifier :: bytes
  bl_state :: bytes
  bl_nonce :: bytes

text \<open>A connection to the loopback listener: whether its peer is local, what it sends, whether the answer can be written.\<close>

record incoming =
  in_loopback :: bool
  in_reads :: "(bytes, bytes) result list"
  in_write :: "(bytes, unit) result"

datatype page = NotFoundPage | SuccessPage | ErrorPage

text \<open>
  The accept loop; without a further connection the call does not return (\<open>None\<close>), it is left to its timeout.  The pages
  are those sent to the connections, in order.
\<close>

fun accept_callback ::
    "login_env \<Rightarrow> bytes \<Rightarrow> (bytes, incoming) result list
     \<Rightarrow> ((direct_failure, callback_params \<times> incoming) result \<times> page list) option" where
  "accept_callback env host [] = None"
| "accept_callback env host (Inl e # cs) = Some (Err (DOAuth (''callback accept failed: '' @ e)), [])"
| "accept_callback env host (Inr c # cs) =
     (if \<not> in_loopback c then map_option (\<lambda>(r, ps). (r, NotFoundPage # ps)) (accept_callback env host cs)
      else case read_callback (le_url env) host (in_reads c) of
        Ok (Some cb) \<Rightarrow> Some (Ok (cb, c), [])
      | Ok None \<Rightarrow> map_option (\<lambda>(r, ps). (r, NotFoundPage # ps)) (accept_callback env host cs)
      | Err e \<Rightarrow> Some (Err e, [ErrorPage]))"

definition browser_complete_inner ::
    "login_env \<Rightarrow> browser_login \<Rightarrow> (bytes, incoming) result list
     \<Rightarrow> ((direct_failure, stored_session) result \<times> login_effect list \<times> page list) option" where
  "browser_complete_inner env login conns =
     (case accept_callback env (bl_host login) conns of
        None \<Rightarrow> None
      | Some (Err e, ps) \<Rightarrow> Some (Err e, [], ps)
      | Some (Ok (cb, c), ps) \<Rightarrow>
          if \<not> secure_equal (le_crypto env) (cb_state cb) (bl_state login)
          then Some (Err (DOAuth ''callback state mismatch''), [], ps @ [ErrorPage])
          else if cb_error cb \<or> cb_code cb = []
          then Some (Err (DOAuth ''authorization was not granted''), [], ps @ [ErrorPage])
          else (case finish_login env (cb_code cb) (bl_redirect_uri login) (bl_verifier login) (bl_nonce login) of
            (Ok session, effects) \<Rightarrow>
              (case in_write c of
                 Ok _ \<Rightarrow> Some (Ok session, effects, ps @ [SuccessPage])
               | Err e \<Rightarrow> Some (Err (DOAuth (''callback response failed: '' @ e)), effects, ps @ [SuccessPage]))
          | (Err e, effects) \<Rightarrow> Some (Err e, effects, ps @ [ErrorPage])))"

text \<open>The race of the login with its cancellation and its timeout: whichever is ready first.\<close>

datatype race_winner = CancelledFirst | ElapsedFirst | InnerFirst

definition browser_complete ::
    "login_env \<Rightarrow> race_winner \<Rightarrow> browser_login \<Rightarrow> (bytes, incoming) result list
     \<Rightarrow> (direct_failure, stored_session) result option" where
  "browser_complete env w login conns =
     (case w of
        CancelledFirst \<Rightarrow> Some (Err DCancelled)
      | ElapsedFirst \<Rightarrow> Some (Err DTimeout)
      | InnerFirst \<Rightarrow> map_option fst (browser_complete_inner env login conns))"

end
