(* ===== verification/Direct_Auth_Correctness.thy ===== *)
theory Direct_Auth_Correctness
  imports Direct_Auth
begin

text \<open>
  What a completed login proves about its callback, its token and its session, and what the callback reader accepts.
\<close>

section \<open>The callback\<close>

lemma read_request_bounded:
  assumes "read_request acc reads = Ok (Some request)" and "length acc \<le> MAX_CALLBACK_BYTES"
  shows "length request \<le> MAX_CALLBACK_BYTES"
  using assms
  by (induction acc reads rule: read_request.induct)
    (auto simp: saturating_add_def MAX_CALLBACK_BYTES_def USIZE_MAX_def split: if_splits)

definition host_values :: "bytes list \<Rightarrow> bytes list" where
  "host_values ls =
     List.map_filter (\<lambda>l. case split_once (CHR '':'') l of
        Some (name, v) \<Rightarrow> if to_ascii_lowercase name = ''host'' then Some (str_trim v) else None | None \<Rightarrow> None)
       (takeWhile (\<lambda>l. l \<noteq> [] \<and> l \<noteq> [CHR 0x0D]) ls)"

lemma host_values_simps [simp]:
  "host_values [] = []" "host_values ([] # ls) = []" "host_values ([CHR 0x0D] # ls) = []"
  "l \<noteq> [] \<Longrightarrow> l \<noteq> [CHR 0x0D] \<Longrightarrow> split_once (CHR '':'') l = Some (name, v) \<Longrightarrow>
    host_values (l # ls) = (if to_ascii_lowercase name = ''host'' then [str_trim v] else []) @ host_values ls"
  by (simp_all add: host_values_def map_filter_simps)

lemma find_host_values: "find_host found ls = Ok (Some r) \<Longrightarrow> (case found of None \<Rightarrow> [] | Some h \<Rightarrow> [h]) @ host_values ls = (case r of None \<Rightarrow> [] | Some h \<Rightarrow> [h])"
proof (induction ls arbitrary: found)
  case (Cons l ls)
  show ?case
  proof (cases "l = [] \<or> l = [CHR 0x0D]")
    case True
    then show ?thesis using Cons.prems by auto
  next
    case False
    then obtain name v where s: "split_once (CHR '':'') l = Some (name, v)"
      using Cons.prems by (cases "split_once (CHR '':'') l") auto
    show ?thesis
    proof (cases "to_ascii_lowercase name = ''host''")
      case True
      then have "found = None" "find_host (Some (str_trim v)) ls = Ok (Some r)"
        using Cons.prems False s by (simp_all split: if_splits)
      with Cons.IH [of "Some (str_trim v)"] False s True show ?thesis by simp
    next
      case other: False
      then have "find_host found ls = Ok (Some r)" using Cons.prems False s by simp
      with Cons.IH [of found] False s other show ?thesis by simp
    qed
  qed
qed simp

definition query_values :: "bytes \<Rightarrow> form \<Rightarrow> bytes list" where
  "query_values k query = map snd (filter (\<lambda>kv. fst kv = k) query)"

lemma query_values_Cons: "query_values k ((k', v) # q) = (if k' = k then [v] else []) @ query_values k q"
  by (simp add: query_values_def)

lemma scan_query_found:
  "scan_query (cd, st, err) query = Ok (cd', st', err') \<Longrightarrow>
    (case cd of None \<Rightarrow> [] | Some c \<Rightarrow> [c]) @ query_values ''code'' query = (case cd' of None \<Rightarrow> [] | Some c \<Rightarrow> [c])
    \<and> (case st of None \<Rightarrow> [] | Some c \<Rightarrow> [c]) @ query_values ''state'' query = (case st' of None \<Rightarrow> [] | Some c \<Rightarrow> [c])
    \<and> (err' \<longleftrightarrow> err \<or> query_values ''error'' query \<noteq> [])"
proof (induction query arbitrary: cd st err)
  case Nil
  then show ?case by (auto simp: query_values_def split: option.split)
next
  case (Cons kv query)
  obtain k v where kv: "kv = (k, v)" by (cases kv)
  consider "k = ''code''" | "k = ''state''" | "k = ''error''" | "k \<notin> {''code'', ''state'', ''error''}" by blast
  then show ?case
  proof cases
    case 1
    then have "cd = None" "scan_query (Some v, st, err) query = Ok (cd', st', err')" using Cons.prems kv by (simp_all split: if_splits)
    with Cons.IH [of "Some v" st err] kv 1 show ?thesis by (simp add: query_values_Cons)
  next
    case 2
    then have "st = None" "scan_query (cd, Some v, err) query = Ok (cd', st', err')" using Cons.prems kv by (simp_all split: if_splits)
    with Cons.IH [of cd "Some v" err] kv 2 show ?thesis by (simp add: query_values_Cons)
  next
    case 3
    then have "scan_query (cd, st, True) query = Ok (cd', st', err')" using Cons.prems kv by simp
    with Cons.IH [of cd st True] kv 3 show ?thesis by (simp add: query_values_Cons)
  next
    case 4
    then have "scan_query (cd, st, err) query = Ok (cd', st', err')" using Cons.prems kv by simp
    with Cons.IH [of cd st err] kv 4 show ?thesis by (simp add: query_values_Cons)
  qed
qed

text \<open>A request that the reader accepts as the callback of a login, and what it takes from it.\<close>

definition genuine_callback ::
    "(bytes \<Rightarrow> (bytes \<times> form) option) \<Rightarrow> bytes \<Rightarrow> bytes \<Rightarrow> callback_params \<Rightarrow> bool" where
  "genuine_callback url expected_host request cb \<longleftrightarrow>
     (\<exists>request_line headers target query.
        length request \<le> MAX_CALLBACK_BYTES \<and> utf8_valid request \<and> str_lines request = request_line # headers
        \<and> split_ascii_whitespace request_line = [''GET'', target, ''HTTP/1.1''] \<and> host_values headers = [expected_host]
        \<and> url (''http://127.0.0.1'' @ target) = Some (CALLBACK_PATH, query)
        \<and> query_values ''state'' query = [cb_state cb]
        \<and> (query_values ''code'' query = [cb_code cb] \<or> query_values ''code'' query = [] \<and> cb_code cb = [])
        \<and> (cb_error cb \<longleftrightarrow> query_values ''error'' query \<noteq> []))"

lemma parse_target:
  assumes "parse_callback url expected_host request = Ok (Some cb)"
  shows "\<exists>request_line headers target. utf8_valid request \<and> str_lines request = request_line # headers
    \<and> split_ascii_whitespace request_line = [''GET'', target, ''HTTP/1.1'']"
proof -
  have v: "utf8_valid request" using assms by (auto simp: parse_callback_def res_bind_Ok_iff)
  obtain request_line headers where l: "str_lines request = request_line # headers"
    using assms by (cases "str_lines request") (auto simp: parse_callback_def res_bind_Ok_iff)
  have "split_ascii_whitespace request_line \<in> {[''GET'', target, ''HTTP/1.1''] | target. True}"
    using assms l by (simp add: parse_callback_def res_bind_Ok_iff split: list.splits if_splits)
  with v l show ?thesis by blast
qed

lemma parse_query:
  assumes "parse_callback url expected_host request = Ok (Some cb)" and "str_lines request = request_line # headers"
    and "split_ascii_whitespace request_line = [''GET'', target, ''HTTP/1.1'']"
  shows "\<exists>query cd st err. find_host None headers = Ok (Some (Some expected_host))
    \<and> url (''http://127.0.0.1'' @ target) = Some (CALLBACK_PATH, query)
    \<and> scan_query (None, None, False) query = Ok (cd, Some st, err)
    \<and> cb = \<lparr>cb_code = (case cd of Some c \<Rightarrow> c | None \<Rightarrow> []), cb_state = st, cb_error = err\<rparr>"
proof -
  obtain scanned where s: "find_host None headers = Ok scanned"
    using assms by (auto simp: parse_callback_def res_bind_Ok_iff)
  have h: "scanned = Some (Some expected_host)"
    using assms s by (cases scanned) (auto simp: parse_callback_def res_bind_Ok_iff split: if_splits)
  obtain path query where u: "url (''http://127.0.0.1'' @ target) = Some (path, query)"
    using assms s h by (cases "url (''http://127.0.0.1'' @ target)") (auto simp: parse_callback_def res_bind_Ok_iff)
  then have "path = CALLBACK_PATH" using assms s h by (auto simp: parse_callback_def res_bind_Ok_iff split: if_splits)
  with assms s h u show ?thesis by (auto simp: parse_callback_def res_bind_Ok_iff)
qed

lemma parse_callback_genuine:
  assumes "parse_callback url expected_host request = Ok (Some cb)" and "length request \<le> MAX_CALLBACK_BYTES"
  shows "genuine_callback url expected_host request cb"
proof -
  obtain request_line headers target where p: "utf8_valid request" "str_lines request = request_line # headers"
      "split_ascii_whitespace request_line = [''GET'', target, ''HTTP/1.1'']"
    using parse_target [OF assms(1)] by blast
  obtain query cd st err where q: "find_host None headers = Ok (Some (Some expected_host))"
      "url (''http://127.0.0.1'' @ target) = Some (CALLBACK_PATH, query)"
      "scan_query (None, None, False) query = Ok (cd, Some st, err)"
      "cb = \<lparr>cb_code = (case cd of Some c \<Rightarrow> c | None \<Rightarrow> []), cb_state = st, cb_error = err\<rparr>"
    using parse_query [OF assms(1) p(2,3)] by blast
  have "host_values headers = [expected_host]" using find_host_values [OF q(1)] by simp
  moreover have "query_values ''state'' query = [st]" "query_values ''code'' query = (case cd of None \<Rightarrow> [] | Some c \<Rightarrow> [c])"
      "err \<longleftrightarrow> query_values ''error'' query \<noteq> []"
    using scan_query_found [OF q(3)] by simp_all
  ultimately show ?thesis unfolding genuine_callback_def using p q(2,4) assms(2)
    by (intro exI [of _ request_line] exI [of _ headers] exI [of _ target] exI [of _ query]) (auto split: option.split)
qed

lemma read_callback_genuine:
  assumes "read_callback url expected_host reads = Ok (Some cb)"
  shows "\<exists>request. read_request [] reads = Ok (Some request) \<and> genuine_callback url expected_host request cb"
proof -
  from assms obtain request where "read_request [] reads = Ok (Some request)" "parse_callback url expected_host request = Ok (Some cb)"
    by (auto simp: read_callback_def res_bind_Ok_iff split: option.splits)
  then show ?thesis using parse_callback_genuine read_request_bounded [of "[]" reads request] by auto
qed

section \<open>Logins\<close>

lemma accept_callback_Ok:
  assumes "accept_callback env host conns = Some (Ok (cb, c), ps)"
  shows "Ok c \<in> set conns \<and> in_loopback c \<and> read_callback (le_url env) host (in_reads c) = Ok (Some cb)"
  using assms
  by (induction env host conns arbitrary: ps rule: accept_callback.induct) (auto split: if_splits sum.splits option.splits)

lemma finish_login_Ok:
  assumes "finish_login env cd redirect verifier nonce_value = (Ok session, effects)"
  shows "\<exists>tokens v now. exchange_code env cd redirect verifier = Ok tokens \<and> fetch_verifier env = Ok v
    \<and> login_session env nonce_value tokens v = Ok session \<and> le_now env 0 = Ok now
    \<and> oidc_verify (le_crypto env) v (tr_id_token tokens) nonce_value now = Ok (account_id session)
    \<and> access_token session = tr_access_token tokens \<and> tr_refresh_token tokens = Some (refresh_token session)
    \<and> le_save env session = Ok () \<and> effects = [Posted (exchange_form cd redirect verifier), FetchedKeys, Saved session]"
proof -
  obtain tokens v where tv: "exchange_code env cd redirect verifier = Ok tokens" "fetch_verifier env = Ok v"
      "login_session env nonce_value tokens v = Ok session" "le_save env session = Ok ()"
      "effects = [Posted (exchange_form cd redirect verifier), FetchedKeys, Saved session]"
    using assms by (auto simp: finish_login_def Let_def split: sum.splits)
  moreover from tv(3) obtain now where "le_now env 0 = Ok now"
      "oidc_verify (le_crypto env) v (tr_id_token tokens) nonce_value now = Ok (account_id session)"
      "access_token session = tr_access_token tokens" "tr_refresh_token tokens = Some (refresh_token session)"
    by (auto simp: login_session_def res_bind_Ok_iff)
  ultimately show ?thesis by blast
qed

lemma browser_inner_cases:
  assumes "browser_complete_inner env login conns = Some (r, effects, ps)"
  obtains (rejected) e where "r = Err e" "effects = []"
  | (exchanged) cb c where "Ok c \<in> set conns" "in_loopback c"
      "read_callback (le_url env) (bl_host login) (in_reads c) = Ok (Some cb)"
      "secure_equal (le_crypto env) (cb_state cb) (bl_state login)" "\<not> cb_error cb" "cb_code cb \<noteq> []"
      "snd (finish_login env (cb_code cb) (bl_redirect_uri login) (bl_verifier login) (bl_nonce login)) = effects"
      "\<And>session. r = Ok session \<Longrightarrow>
        finish_login env (cb_code cb) (bl_redirect_uri login) (bl_verifier login) (bl_nonce login) = (Ok session, effects)"
proof (cases "accept_callback env (bl_host login) conns")
  case None
  then show thesis using assms by (simp add: browser_complete_inner_def)
next
  case (Some a)
  obtain r' ps' where a: "a = (r', ps')" by (cases a)
  show thesis
  proof (cases r')
    case (Inl e)
    then show thesis using assms Some a rejected [of e] by (auto simp: browser_complete_inner_def)
  next
    case (Inr x)
    obtain cb c where x: "x = (cb, c)" by (cases x)
    let ?go = "secure_equal (le_crypto env) (cb_state cb) (bl_state login) \<and> \<not> cb_error cb \<and> cb_code cb \<noteq> []"
    show thesis
    proof (cases ?go)
      case True
      then show thesis using assms Some a Inr x exchanged [of c cb] accept_callback_Ok [of env "bl_host login" conns cb c ps']
        by (auto simp: browser_complete_inner_def split: prod.splits sum.splits)
    next
      case False
      then show thesis using assms Some a Inr x rejected by (auto simp: browser_complete_inner_def split: if_splits)
    qed
  qed
qed

text \<open>A login against a service that grants one code.\<close>

definition sample_login :: browser_login where
  "sample_login = \<lparr>bl_redirect_uri = ''http://localhost:1455/auth/callback'', bl_host = ''localhost:1455'', bl_verifier = ''ver'',
     bl_state = ''s1'', bl_nonce = ''n0''\<rparr>"

definition sample_crypto :: jwt_crypto where
  "sample_crypto = dotless_crypto\<lparr>claims_from_slice := (\<lambda>b. if b = ''p'' then
     Some \<lparr>iss = ISSUER, aud = One CLIENT_ID, exp = 2000, nbf = None, iat = None, azp = None, nonce = ''n0'',
       claims_account_id = Some ''acct-1'', namespaced_auth = None\<rparr> else None)\<rparr>"

definition ok_response :: auth_response where
  "ok_response = \<lparr>ar_status = 200, ar_content_length = None, ar_chunks = []\<rparr>"

definition sample_login_env :: login_env where
  "sample_login_env = \<lparr>le_crypto = sample_crypto, le_json = (\<lambda>_. Err []),
     le_tokens = (\<lambda>_. Ok \<lparr>tr_id_token = ''h.p.NEhp'', tr_access_token = ''at'', tr_refresh_token = Some ''rt'', tr_expires_in = None\<rparr>),
     le_keys = (\<lambda>_. Ok (jwks toy_oidc)), le_post = (\<lambda>_. Ok ok_response), le_get_keys = Ok ok_response,
     le_now = (\<lambda>_. Ok 1000), le_save = (\<lambda>_. Ok ()),
     le_url = (\<lambda>_. Some (CALLBACK_PATH, [(''code'', ''c1''), (''state'', ''s1'')])), le_sha256_base64url = (\<lambda>v. v)\<rparr>"

definition sample_incoming :: "bytes \<Rightarrow> incoming" where
  "sample_incoming host = \<lparr>in_loopback = True, in_reads = [Ok (''GET /auth/callback?code=c1&state=s1 HTTP/1.1'' @ [CHR 0x0D, CHR 0x0A]
     @ ''Host: '' @ host @ header_end)], in_write = Ok ()\<rparr>"

lemma sample_contract: "hmac_contract (le_crypto sample_login_env)"
  by (auto simp: hmac_contract_def sample_login_env_def sample_crypto_def dotless_crypto_def toy_jwt_crypto_def)

text \<open>
  A browser login that succeeds is authentic. A local peer sent the callback (one GET of the callback path with exactly the
  expected host and exactly one state, the one of this login), it was not an error, its code was exchanged once with
  the PKCE verifier of this login, the ID token verified with the keys of the issuer and the nonce of this login, and the
  session with that account was stored before it was returned.
\<close>

theorem browser_login_authentic:
  assumes "hmac_contract (le_crypto env)" and "browser_complete_inner env login conns = Some (Ok session, effects, pages)"
  shows "\<exists>c request cb tokens v now. Ok c \<in> set conns \<and> in_loopback c \<and> read_request [] (in_reads c) = Ok (Some request)
    \<and> genuine_callback (le_url env) (bl_host login) request cb
    \<and> nonce_tag (le_crypto env) (cb_state cb) = nonce_tag (le_crypto env) (bl_state login) \<and> \<not> cb_error cb \<and> cb_code cb \<noteq> []
    \<and> effects = [Posted (exchange_form (cb_code cb) (bl_redirect_uri login) (bl_verifier login)), FetchedKeys, Saved session]
    \<and> exchange_code env (cb_code cb) (bl_redirect_uri login) (bl_verifier login) = Ok tokens
    \<and> fetch_verifier env = Ok v \<and> le_now env 0 = Ok now
    \<and> oidc_verify (le_crypto env) v (tr_id_token tokens) (bl_nonce login) now = Ok (account_id session)
    \<and> access_token session = tr_access_token tokens \<and> le_save env session = Ok ()"
  using assms(2)
proof (cases rule: browser_inner_cases)
  case (rejected e)
  then show ?thesis by simp
next
  case (exchanged cb c)
  have "nonce_tag (le_crypto env) (cb_state cb) = nonce_tag (le_crypto env) (bl_state login)"
    using exchanged(4) secure_equal_iff [OF assms(1)] by blast
  then show ?thesis using exchanged(1,2,5,6) read_callback_genuine [OF exchanged(3)] finish_login_Ok [OF exchanged(8) [OF refl]]
    by blast
qed

theorem browser_login_authentic_witness:
  "\<exists>session effects pages. browser_complete_inner sample_login_env sample_login [Ok (sample_incoming ''localhost:1455'')]
      = Some (Ok session, effects, pages) \<and> account_id session = ChatGptAccountId ''acct-1''
    \<and> (\<exists>c :: incoming. in_loopback c \<and> (\<exists>request cb. genuine_callback (le_url sample_login_env) ''localhost:1455'' request cb \<and> cb_code cb \<noteq> []))"
proof -
  let ?s = "\<lparr>access_token = ''at'', refresh_token = ''rt'', expires_at = 4600, account_id = ChatGptAccountId ''acct-1'', generation = 0\<rparr>"
  have run: "browser_complete_inner sample_login_env sample_login [Ok (sample_incoming ''localhost:1455'')]
      = Some (Ok ?s, [Posted (exchange_form ''c1'' (bl_redirect_uri sample_login) ''ver''), FetchedKeys, Saved ?s], [SuccessPage])"
    by code_simp
  have host: "bl_host sample_login = ''localhost:1455''" and acct: "account_id ?s = ChatGptAccountId ''acct-1''"
    by (simp_all add: sample_login_def)
  from browser_login_authentic [OF sample_contract run] have
    "\<exists>c :: incoming. in_loopback c \<and> (\<exists>request cb. genuine_callback (le_url sample_login_env) ''localhost:1455'' request cb \<and> cb_code cb \<noteq> [])"
    unfolding host by blast
  then show ?thesis using run acct by (intro exI [of _ ?s] exI) (rule conjI, assumption, simp)
qed

text \<open>
  Nothing happens for a forged callback. Whatever the connections send, a login posts a code and stores a session only after a
  local callback with the state of this login that is not an error: otherwise it has no effect at all.
\<close>

theorem forged_callback_inert:
  assumes "browser_complete_inner env login conns = Some (r, effects, pages)"
    and "\<forall>c cb. Ok c \<in> set conns \<longrightarrow> in_loopback c \<longrightarrow> read_callback (le_url env) (bl_host login) (in_reads c) = Ok (Some cb) \<longrightarrow>
      cb_error cb \<or> cb_code cb = [] \<or> \<not> secure_equal (le_crypto env) (cb_state cb) (bl_state login)"
  shows "effects = [] \<and> (\<exists>e. r = Err e)"
  using assms(1)
proof (cases rule: browser_inner_cases)
  case (exchanged cb c)
  then show ?thesis using assms(2) by blast
qed simp

theorem forged_callback_inert_witness:
  "\<exists>e pages. browser_complete_inner sample_login_env (sample_login\<lparr>bl_state := ''other''\<rparr>) [Ok (sample_incoming ''localhost:1455'')]
      = Some (Err e, [], pages)"
proof -
  let ?l = "sample_login\<lparr>bl_state := ''other''\<rparr>"
  have r: "read_callback (le_url sample_login_env) (bl_host ?l) (in_reads (sample_incoming ''localhost:1455''))
      = Ok (Some \<lparr>cb_code = ''c1'', cb_state = ''s1'', cb_error = False\<rparr>)" by code_simp
  have n: "\<not> secure_equal (le_crypto sample_login_env) ''s1'' (bl_state ?l)" by code_simp
  obtain r effects pages where b: "browser_complete_inner sample_login_env ?l [Ok (sample_incoming ''localhost:1455'')] = Some (r, effects, pages)"
    using r n by (auto simp: browser_complete_inner_def) (auto simp: sample_incoming_def split: sum.splits)
  have "effects = [] \<and> (\<exists>e. r = Err e)"
    by (rule forged_callback_inert [OF b]) (use r n in auto)
  with b show ?thesis by blast
qed

end
