(* ===== verification/Direct_Browser.thy ===== *)
theory Direct_Browser
  imports Direct_Auth_Correctness
begin

text \<open>
  The start of the browser login, \<^verbatim>\<open>begin_browser_login\<close> in \<^verbatim>\<open>crates/openai-rs-codex/src/direct/auth.rs\<close>, and the whole
  login: what the authorization request commits to is what the completed login was checked against.

  The listener, the random source and the URL parser are fields of the environment.
\<close>

definition AUTHORIZE_ENDPOINT :: bytes where "AUTHORIZE_ENDPOINT = ''https://auth.openai.com/oauth/authorize''"
definition AUTHORIZE_SCOPE :: bytes where
  "AUTHORIZE_SCOPE = ''openid profile email offline_access api.connectors.read api.connectors.invoke''"
definition DEFAULT_CALLBACK_PORT :: nat where "DEFAULT_CALLBACK_PORT = 1455"
definition FALLBACK_CALLBACK_PORT :: nat where "FALLBACK_CALLBACK_PORT = 1457"

section \<open>Binding the listener\<close>

record bind_error =
  bind_in_use :: bool
  bind_text :: bytes

record parsed_url =
  pu_str :: bytes
  pu_host :: "bytes option"
  pu_port :: "nat option"

record begin_env =
  be_bind :: "nat \<Rightarrow> (bind_error, unit) result"
  be_local_port :: "nat \<Rightarrow> (bytes, nat) result"
  be_parse :: "bytes \<Rightarrow> (bytes, parsed_url) result"
  be_random :: "nat \<Rightarrow> nat \<Rightarrow> bytes option"
  be_base64url :: "bytes \<Rightarrow> bytes"

text \<open>The port the listener is bound on.\<close>

definition bind_callback_listener :: "begin_env \<Rightarrow> (direct_failure, nat) result" where
  "bind_callback_listener b =
     (case be_bind b DEFAULT_CALLBACK_PORT of
        Ok _ \<Rightarrow> Ok DEFAULT_CALLBACK_PORT
      | Err primary \<Rightarrow>
          if bind_in_use primary then
            (case be_bind b FALLBACK_CALLBACK_PORT of
               Ok _ \<Rightarrow> Ok FALLBACK_CALLBACK_PORT
             | Err fallback \<Rightarrow>
                 Err (DOAuth (''registered loopback ports 1455 and 1457 are unavailable: '' @ bind_text primary @ ''; '' @ bind_text fallback)))
          else Err (DOAuth (''loopback bind on registered port 1455 failed: '' @ bind_text primary)))"

section \<open>The authorization request\<close>

text \<open>The \<open>n\<close>-th draw of the random source.\<close>

definition random_base64url :: "begin_env \<Rightarrow> nat \<Rightarrow> nat \<Rightarrow> (direct_failure, bytes) result" where
  "random_base64url b n len = ok_or (map_option (be_base64url b) (be_random b n len)) DRandom"

definition authorize_query :: "bytes \<Rightarrow> bytes \<Rightarrow> bytes \<Rightarrow> bytes \<Rightarrow> form" where
  "authorize_query redirect_uri challenge state nonce_value =
     [(''response_type'', ''code''), (''client_id'', CLIENT_ID), (''redirect_uri'', redirect_uri), (''scope'', AUTHORIZE_SCOPE),
      (''code_challenge'', challenge), (''code_challenge_method'', ''S256''), (''state'', state), (''nonce'', nonce_value),
      (''id_token_add_organizations'', ''true''), (''codex_cli_simplified_flow'', ''true''), (''originator'', CODEX_ORIGINATOR)]"

text \<open>The login as it is begun: the pairs of the authorization URL, the redirect URI, and the three secrets.\<close>

record begun_login =
  bg_authorize :: "bytes \<times> form"
  bg_redirect :: parsed_url
  bg_verifier :: bytes
  bg_state :: bytes
  bg_nonce :: bytes

definition begin_browser_login :: "login_env \<Rightarrow> begin_env \<Rightarrow> (direct_failure, begun_login) result" where
  "begin_browser_login env b =
     res_bind (bind_callback_listener b) (\<lambda>bound.
     res_bind (map_err (\<lambda>e. DOAuth (''loopback address failed: '' @ e)) (be_local_port b bound)) (\<lambda>port.
     res_bind (map_err DConfiguration (be_parse b (''http://localhost:'' @ nat_to_string port @ CALLBACK_PATH))) (\<lambda>redirect.
     res_bind (random_base64url b 0 32) (\<lambda>verifier.
     res_bind (random_base64url b 1 32) (\<lambda>state.
     res_bind (random_base64url b 2 32) (\<lambda>nonce_value.
       Ok \<lparr>bg_authorize = (AUTHORIZE_ENDPOINT, authorize_query (pu_str redirect) (le_sha256_base64url env verifier) state nonce_value),
           bg_redirect = redirect, bg_verifier = verifier, bg_state = state, bg_nonce = nonce_value\<rparr>))))))"

definition expected_host :: "parsed_url \<Rightarrow> (direct_failure, bytes) result" where
  "expected_host u =
     (case (pu_host u, pu_port u) of
        (Some h, Some p) \<Rightarrow> Ok (h @ '':'' @ nat_to_string p)
      | _ \<Rightarrow> Err (DConfiguration ''invalid loopback redirect URI''))"

text \<open>\<^verbatim>\<open>complete_inner\<close> on a begun login.\<close>

definition complete_begun ::
    "login_env \<Rightarrow> begun_login \<Rightarrow> (bytes, incoming) result list
     \<Rightarrow> ((direct_failure, stored_session) result \<times> login_effect list \<times> page list) option" where
  "complete_begun env g conns =
     (case expected_host (bg_redirect g) of
        Err e \<Rightarrow> Some (Err e, [], [])
      | Ok host \<Rightarrow>
          browser_complete_inner env
            \<lparr>bl_redirect_uri = pu_str (bg_redirect g), bl_host = host, bl_verifier = bg_verifier g, bl_state = bg_state g,
             bl_nonce = bg_nonce g\<rparr> conns)"

section \<open>The whole login\<close>

text \<open>What an authorization request asks for under a key.\<close>

abbreviation asked :: "begun_login \<Rightarrow> bytes \<Rightarrow> bytes option" where
  "asked g k \<equiv> map_of (snd (bg_authorize g)) k"

lemma begun_asks:
  assumes "begin_browser_login env b = Ok g"
  shows "fst (bg_authorize g) = AUTHORIZE_ENDPOINT \<and> asked g ''code_challenge'' = Some (le_sha256_base64url env (bg_verifier g))
    \<and> asked g ''code_challenge_method'' = Some ''S256'' \<and> asked g ''state'' = Some (bg_state g) \<and> asked g ''nonce'' = Some (bg_nonce g)
    \<and> asked g ''redirect_uri'' = Some (pu_str (bg_redirect g))"
  using assms by (auto simp: begin_browser_login_def res_bind_Ok_iff authorize_query_def)

text \<open>
  C21: A browser login checks what it asked for. The session of a completed login comes from a code that was exchanged with the
  verifier whose challenge the authorization request carried and with the same redirect URI. The code is the one of a callback that
  a loopback connection delivered for the host of that redirect URI, that reported no error and carried the requested state. The
  account is that of an ID token verified, at the time of the login, with the requested nonce; the session is stored before it
  is returned.
\<close>

theorem browser_login_bound:
  assumes "hmac_contract (le_crypto env)" and "begin_browser_login env b = Ok g"
    and "complete_begun env g conns = Some (Ok session, effects, pages)"
  shows "\<exists>c host cb tokens v now st nc uri verifier. asked g ''state'' = Some st \<and> asked g ''nonce'' = Some nc
    \<and> asked g ''redirect_uri'' = Some uri \<and> asked g ''code_challenge'' = Some (le_sha256_base64url env verifier)
    \<and> expected_host (bg_redirect g) = Ok host \<and> Ok c \<in> set conns \<and> in_loopback c
    \<and> read_callback (le_url env) host (in_reads c) = Ok (Some cb) \<and> \<not> cb_error cb \<and> cb_code cb \<noteq> []
    \<and> nonce_tag (le_crypto env) (cb_state cb) = nonce_tag (le_crypto env) st
    \<and> effects = [Posted (exchange_form (cb_code cb) uri verifier), FetchedKeys, Saved session]
    \<and> exchange_code env (cb_code cb) uri verifier = Ok tokens \<and> fetch_verifier env = Ok v \<and> le_now env 0 = Ok now
    \<and> oidc_verify (le_crypto env) v (tr_id_token tokens) nc now = Ok (account_id session)
    \<and> access_token session = tr_access_token tokens \<and> le_save env session = Ok ()"
proof -
  from assms(3) obtain host where h: "expected_host (bg_redirect g) = Ok host" and "browser_complete_inner env
      \<lparr>bl_redirect_uri = pu_str (bg_redirect g), bl_host = host, bl_verifier = bg_verifier g, bl_state = bg_state g,
       bl_nonce = bg_nonce g\<rparr> conns = Some (Ok session, effects, pages)"
    by (auto simp: complete_begun_def split: sum.splits)
  from this(2) show ?thesis
  proof (cases rule: browser_inner_cases)
    case (exchanged cb c)
    have "nonce_tag (le_crypto env) (cb_state cb) = nonce_tag (le_crypto env) (bg_state g)"
      using exchanged(4) secure_equal_iff [OF assms(1)] by simp
    then show ?thesis using begun_asks [OF assms(2)] finish_login_Ok [OF exchanged(8) [OF refl]] h
        exchanged(1,2,3,5,6) by (simp, blast)
  qed simp
qed

definition sample_begin_env :: begin_env where
  "sample_begin_env =
     \<lparr>be_bind = (\<lambda>p. if p = DEFAULT_CALLBACK_PORT then Err \<lparr>bind_in_use = True, bind_text = ''in use''\<rparr> else Ok ()),
      be_local_port = (\<lambda>p. Ok p), be_parse = (\<lambda>s. Ok \<lparr>pu_str = s, pu_host = Some ''localhost'', pu_port = Some 1457\<rparr>),
      be_random = (\<lambda>n len. map_of [(0, ''ver''), (1, ''s1''), (2, ''n0'')] n), be_base64url = (\<lambda>s. s)\<rparr>"

theorem browser_login_bound_witness:
  "\<exists>g session effects pages. begin_browser_login sample_login_env sample_begin_env = Ok g
    \<and> complete_begun sample_login_env g [Ok (sample_incoming ''localhost:1457'')] = Some (Ok session, effects, pages)
    \<and> asked g ''redirect_uri'' = Some ''http://localhost:1457/auth/callback''
    \<and> (\<exists>tokens v nc now. asked g ''nonce'' = Some nc \<and> le_now sample_login_env 0 = Ok now \<and> oidc_verify sample_crypto v (tr_id_token (tokens :: token_response)) nc now = Ok (account_id session))"
proof -
  let ?g = "\<lparr>bg_authorize = (AUTHORIZE_ENDPOINT, authorize_query ''http://localhost:1457/auth/callback'' ''ver'' ''s1'' ''n0''),
      bg_redirect = \<lparr>pu_str = ''http://localhost:1457/auth/callback'', pu_host = Some ''localhost'', pu_port = Some 1457\<rparr>,
      bg_verifier = ''ver'', bg_state = ''s1'', bg_nonce = ''n0''\<rparr>"
  let ?s = "\<lparr>access_token = ''at'', refresh_token = ''rt'', expires_at = 4600, account_id = ChatGptAccountId ''acct-1'', generation = 0\<rparr>"
  have start: "begin_browser_login sample_login_env sample_begin_env = Ok ?g" by code_simp
  have run: "complete_begun sample_login_env ?g [Ok (sample_incoming ''localhost:1457'')]
      = Some (Ok ?s, [Posted (exchange_form ''c1'' ''http://localhost:1457/auth/callback'' ''ver''), FetchedKeys, Saved ?s], [SuccessPage])"
    by code_simp
  have "asked ?g ''redirect_uri'' = Some ''http://localhost:1457/auth/callback''" by (simp add: authorize_query_def)
  moreover have "le_crypto sample_login_env = sample_crypto" by (simp add: sample_login_env_def)
  ultimately show ?thesis using start run browser_login_bound [OF sample_contract start run] by metis
qed

end
