(* ===== verification/Direct_Device.thy ===== *)
theory Direct_Device
  imports Direct_Auth_Correctness
begin

text \<open>
  The device-code login, \<^verbatim>\<open>DeviceCodeLogin\<close> in \<^verbatim>\<open>crates/openai-rs-codex/src/direct/auth.rs\<close>: the polling loop with its
  deadline, its waits and its cancellation, and the PKCE check of the code it is handed.  A run is a function of what the
  service answers and when; the clock starts at 0.
\<close>

section \<open>Starting\<close>

datatype string_or_number = SString bytes | SNumber nat

fun sn_seconds :: "string_or_number \<Rightarrow> nat" where
  "sn_seconds (SString v) = (case parse_u64 v of Some n \<Rightarrow> n | None \<Rightarrow> 5)"
| "sn_seconds (SNumber n) = n"

definition clamp :: "nat \<Rightarrow> nat \<Rightarrow> nat \<Rightarrow> nat" where
  "clamp lo hi n = (if n < lo then lo else if n > hi then hi else n)"

definition second :: duration where "second = 1000000000"

record device_code_response =
  dc_device_auth_id :: bytes
  dc_user_code :: bytes
  dc_interval :: string_or_number

record device_code_login =
  dl_user_code :: bytes
  dl_device_auth_id :: bytes
  dl_nonce :: bytes
  dl_interval :: duration

definition begin_device_login ::
    "(bytes \<Rightarrow> (bytes, json) result) \<Rightarrow> (bytes \<Rightarrow> (bytes, device_code_response) result) \<Rightarrow> bytes
     \<Rightarrow> (bytes, auth_response) result \<Rightarrow> (direct_failure, device_code_login) result" where
  "begin_device_login from_slice decode nonce_value answer =
     res_bind (map_err DHttp answer) (\<lambda>r.
     res_bind (decode_auth_response from_slice decode r) (\<lambda>d.
       Ok \<lparr>dl_user_code = dc_user_code d, dl_device_auth_id = dc_device_auth_id d, dl_nonce = nonce_value,
           dl_interval = clamp 1 30 (sn_seconds (dc_interval d)) * second\<rparr>))"

section \<open>Polling\<close>

record device_code_success =
  ds_authorization_code :: bytes
  ds_code_challenge :: bytes
  ds_code_verifier :: bytes

record device_poll =
  dp_response :: auth_response
  dp_retry_after :: "bytes option"

text \<open>The \<open>n\<close>-th poll is answered after a latency; a sleep may wake late; the token is observed cancelled at some instant, or never.\<close>

record device_env =
  de_login :: login_env
  de_success :: "bytes \<Rightarrow> (bytes, device_code_success) result"
  de_poll :: "nat \<Rightarrow> (bytes, device_poll) result"
  de_latency :: "nat \<Rightarrow> duration"
  de_oversleep :: "nat \<Rightarrow> duration"
  de_cancel :: "duration option"
  de_deadline :: duration

definition device_retry_after :: "device_poll \<Rightarrow> duration option" where
  "device_retry_after p =
     map_option (\<lambda>n. clamp 1 60 n * second) (Option.bind (dp_retry_after p) parse_u64)"

definition cancelled_by :: "device_env \<Rightarrow> duration \<Rightarrow> bool" where
  "cancelled_by env t = (case de_cancel env of Some c \<Rightarrow> c \<le> t | None \<Rightarrow> False)"

definition device_finish :: "device_env \<Rightarrow> device_code_login \<Rightarrow> auth_response \<Rightarrow> (direct_failure, stored_session) result" where
  "device_finish env login r =
     res_bind (decode_auth_response (le_json (de_login env)) (de_success env) r) (\<lambda>s.
     if \<not> secure_equal (le_crypto (de_login env)) (le_sha256_base64url (de_login env) (ds_code_verifier s)) (ds_code_challenge s)
     then Err (DOAuth ''device PKCE challenge mismatch'')
     else fst (finish_login (de_login env) (ds_authorization_code s) DEVICE_REDIRECT_URI (ds_code_verifier s) (dl_nonce login)))"

text \<open>What to do after an answer that is not a success: how long to wait, or the error that ends the login.\<close>

definition device_wait :: "device_env \<Rightarrow> device_code_login \<Rightarrow> device_poll \<Rightarrow> (direct_failure, duration) result" where
  "device_wait env login p =
     (if ar_status (dp_response p) = 429
      then Ok (case device_retry_after p of Some d \<Rightarrow> d | None \<Rightarrow> dl_interval login)
      else if ar_status (dp_response p) = 403 \<or> ar_status (dp_response p) = 404 then Ok (dl_interval login + 3 * second)
      else Err (http_status_error (le_json (de_login env)) (dp_response p)))"

text \<open>The loop, with fuel; the result carries the instants at which the polls were sent.\<close>

fun device_loop ::
    "nat \<Rightarrow> device_env \<Rightarrow> device_code_login \<Rightarrow> nat \<Rightarrow> duration
     \<Rightarrow> ((direct_failure, stored_session) result \<times> duration list) option" where
  "device_loop 0 env login n now = None"
| "device_loop (Suc fuel) env login n now =
     (if now \<ge> de_deadline env then Some (Err DTimeout, [])
      else if cancelled_by env (now + de_latency env n) then Some (Err DCancelled, [now])
      else case de_poll env n of
        Err e \<Rightarrow> Some (Err (DHttp e), [now])
      | Ok p \<Rightarrow>
          if 200 \<le> ar_status (dp_response p) \<and> ar_status (dp_response p) < 300
          then Some (device_finish env login (dp_response p), [now])
          else (case device_wait env login p of
            Err e \<Rightarrow> Some (Err e, [now])
          | Ok wait \<Rightarrow>
              let answered = now + de_latency env n;
                  pause = min wait (de_deadline env - answered)
              in if cancelled_by env (answered + pause) then Some (Err DCancelled, [now])
                 else map_option (\<lambda>(r, sent). (r, now # sent))
                        (device_loop fuel env login (Suc n) (answered + pause + de_oversleep env n))))"

definition device_complete ::
    "nat \<Rightarrow> device_env \<Rightarrow> device_code_login \<Rightarrow> ((direct_failure, stored_session) result \<times> duration list) option" where
  "device_complete fuel env login = device_loop fuel env login 0 0"

section \<open>Correctness\<close>

lemma clamp_bounds: "lo \<le> hi \<Longrightarrow> lo \<le> clamp lo hi n \<and> clamp lo hi n \<le> hi"
  by (simp add: clamp_def)

lemma begin_interval:
  assumes "begin_device_login from_slice decode nonce_value answer = Ok login"
  shows "second \<le> dl_interval login"
  using assms clamp_bounds [of 1 30] by (auto simp: begin_device_login_def res_bind_Ok_iff second_def)

lemma device_wait_ge:
  assumes "device_wait env login p = Ok wait" and "second \<le> dl_interval login"
  shows "second \<le> wait"
  using assms
  by (auto simp: device_wait_def device_retry_after_def clamp_def second_def split: if_splits option.splits)

text \<open>A turn of the loop that ends in a wait.\<close>

definition device_waits :: "device_env \<Rightarrow> device_code_login \<Rightarrow> nat \<Rightarrow> duration \<Rightarrow> duration \<Rightarrow> bool" where
  "device_waits env login n now wait \<longleftrightarrow>
     now < de_deadline env \<and> \<not> cancelled_by env (now + de_latency env n)
     \<and> (\<exists>p. de_poll env n = Ok p \<and> \<not> (200 \<le> ar_status (dp_response p) \<and> ar_status (dp_response p) < 300)
          \<and> device_wait env login p = Ok wait)
     \<and> \<not> cancelled_by env (now + de_latency env n + min wait (de_deadline env - (now + de_latency env n)))"

definition device_next :: "device_env \<Rightarrow> nat \<Rightarrow> duration \<Rightarrow> duration \<Rightarrow> duration" where
  "device_next env n now wait =
     now + de_latency env n + min wait (de_deadline env - (now + de_latency env n)) + de_oversleep env n"

lemma device_loop_wait:
  "device_waits env login n now wait \<Longrightarrow>
    device_loop (Suc fuel) env login n now
      = map_option (\<lambda>(r, sent). (r, now # sent)) (device_loop fuel env login (Suc n) (device_next env n now wait))"
  by (auto simp: device_waits_def device_next_def Let_def)

lemma device_loop_stop:
  assumes "\<nexists>wait. device_waits env login n now wait"
  shows "\<exists>r sent. device_loop (Suc fuel) env login n now = Some (r, sent) \<and> sent \<in> {[], [now]}
    \<and> (sent = [] \<longleftrightarrow> de_deadline env \<le> now) \<and> (sent = [] \<longrightarrow> r = Err DTimeout)
    \<and> (\<forall>session. r = Ok session \<longrightarrow> (\<exists>p. de_poll env n = Ok p \<and> sent = [now] \<and> device_finish env login (dp_response p) = Ok session))"
  using assms by (auto simp: device_waits_def Let_def split: sum.split)

text \<open>Polls sent before the deadline, none before an instant, and each a second or more after the one before it.\<close>

definition polls_paced :: "device_env \<Rightarrow> duration \<Rightarrow> duration list \<Rightarrow> bool" where
  "polls_paced env now sent \<longleftrightarrow>
     (\<forall>t\<in>set sent. now \<le> t \<and> t < de_deadline env) \<and> sorted_wrt (\<lambda>t u. t + second \<le> u) sent"

lemma polls_paced_Cons:
  assumes "polls_paced env next sent" and "now < de_deadline env" and "now + second \<le> next \<or> de_deadline env \<le> next"
  shows "polls_paced env now (now # sent)"
  using assms by (fastforce simp: polls_paced_def)

lemma device_loop_ends:
  assumes "second \<le> dl_interval login" and "de_deadline env \<le> now + k * second"
  shows "\<exists>r sent. device_loop (Suc k) env login n now = Some (r, sent) \<and> length sent \<le> k \<and> polls_paced env now sent"
  using assms(2)
proof (induction k arbitrary: n now)
  case 0
  then show ?case by (simp add: polls_paced_def)
next
  case (Suc k)
  show ?case
  proof (cases "\<exists>wait. device_waits env login n now wait")
    case True
    then obtain wait where w: "device_waits env login n now wait" by blast
    then have "second \<le> wait" using device_wait_ge [OF _ assms(1)] by (auto simp: device_waits_def)
    then have next_poll: "now + second \<le> device_next env n now wait \<or> de_deadline env \<le> device_next env n now wait"
      by (auto simp: device_next_def min_def)
    then have "de_deadline env \<le> device_next env n now wait + k * second" using Suc.prems by auto
    from Suc.IH [OF this, of "Suc n"] obtain r sent where "device_loop (Suc k) env login (Suc n) (device_next env n now wait) = Some (r, sent)"
        "length sent \<le> k" "polls_paced env (device_next env n now wait) sent" by blast
    moreover from this(3) have "polls_paced env now (now # sent)" using polls_paced_Cons [OF _ _ next_poll] w by (simp add: device_waits_def)
    ultimately show ?thesis unfolding device_loop_wait [OF w] by simp
  next
    case False
    then show ?thesis using device_loop_stop [OF False, of "Suc k"] by (force simp: polls_paced_def)
  qed
qed

text \<open>
  C40: A device login stops polling by itself. Whatever the service answers and however slowly, the loop ends with a result; every poll
  is sent before the deadline and a second or more after the poll before it, so there is at most one poll for each second of the
  deadline. Nothing is said of when a poll already sent, or the exchange of a granted code, is answered.
\<close>

theorem device_login_ends:
  assumes "begin_device_login from_slice decode nonce_value answer = Ok login" and "de_deadline env \<le> k * second"
  shows "\<exists>r sent. device_complete (Suc k) env login = Some (r, sent) \<and> length sent \<le> k
    \<and> (\<forall>t\<in>set sent. t < de_deadline env) \<and> sorted_wrt (\<lambda>t u. t + second \<le> u) sent"
  using device_loop_ends [OF begin_interval [OF assms(1)], of env 0 k 0] assms(2)
  by (auto simp: device_complete_def polls_paced_def)

text \<open>A service that answers one poll with 403 and then grants the code.\<close>

definition sample_device_env :: device_env where
  "sample_device_env = \<lparr>de_login = sample_login_env,
     de_success = (\<lambda>_. Ok \<lparr>ds_authorization_code = ''c1'', ds_code_challenge = ''ver'', ds_code_verifier = ''ver''\<rparr>),
     de_poll = (\<lambda>n. Ok \<lparr>dp_response = (if n = 0 then ok_response\<lparr>ar_status := 403\<rparr> else ok_response), dp_retry_after = None\<rparr>),
     de_latency = (\<lambda>_. 5), de_oversleep = (\<lambda>_. 0), de_cancel = None, de_deadline = 900 * second\<rparr>"

definition sample_device_login :: device_code_login where
  "sample_device_login = \<lparr>dl_user_code = ''AB-CD'', dl_device_auth_id = ''id'', dl_nonce = ''n0'', dl_interval = 5 * second\<rparr>"

lemma sample_device_begin:
  "begin_device_login (\<lambda>_. Err []) (\<lambda>_. Ok \<lparr>dc_device_auth_id = ''id'', dc_user_code = ''AB-CD'', dc_interval = SString ''x''\<rparr>) ''n0'' (Ok ok_response)
     = Ok sample_device_login"
  by code_simp

theorem device_login_ends_witness:
  "\<exists>r sent. device_complete 901 sample_device_env sample_device_login = Some (r, sent) \<and> length sent \<le> 900
    \<and> sorted_wrt (\<lambda>t u. t + second \<le> u) sent"
  using device_login_ends [OF sample_device_begin, of sample_device_env 900] by (auto simp: sample_device_env_def)

lemma device_loop_Ok:
  assumes "device_loop fuel env login n now = Some (Ok session, sent)"
  shows "\<exists>i p. de_poll env i = Ok p \<and> n \<le> i \<and> i < n + length sent \<and> device_finish env login (dp_response p) = Ok session"
  using assms
proof (induction fuel arbitrary: n now sent)
  case (Suc fuel)
  show ?case
  proof (cases "\<exists>wait. device_waits env login n now wait")
    case True
    then obtain wait where w: "device_waits env login n now wait" by blast
    obtain rest where "sent = now # rest" "device_loop fuel env login (Suc n) (device_next env n now wait) = Some (Ok session, rest)"
      using Suc.prems [unfolded device_loop_wait [OF w]] by auto
    with Suc.IH [OF this(2)] show ?thesis by (metis Suc_leD add_Suc_shift length_Cons)
  next
    case False
    obtain p where "de_poll env n = Ok p" "sent = [now]" "device_finish env login (dp_response p) = Ok session"
      using device_loop_stop [OF False, of fuel] Suc.prems by (metis Pair_inject option.inject)
    then show ?thesis by auto
  qed
qed simp

text \<open>
  A device login that succeeds was granted: one of its polls was answered with a code whose challenge is that of its verifier, the
  code was exchanged with that verifier, and the ID token verified with the nonce this login was started with.
\<close>

theorem device_login_authentic:
  assumes "hmac_contract (le_crypto (de_login env))" and "device_complete fuel env login = Some (Ok session, sent)"
  shows "\<exists>i p s tokens v now. i < length sent \<and> de_poll env i = Ok p
    \<and> decode_auth_response (le_json (de_login env)) (de_success env) (dp_response p) = Ok s
    \<and> nonce_tag (le_crypto (de_login env)) (le_sha256_base64url (de_login env) (ds_code_verifier s))
        = nonce_tag (le_crypto (de_login env)) (ds_code_challenge s)
    \<and> exchange_code (de_login env) (ds_authorization_code s) DEVICE_REDIRECT_URI (ds_code_verifier s) = Ok tokens
    \<and> fetch_verifier (de_login env) = Ok v
    \<and> oidc_verify (le_crypto (de_login env)) v (tr_id_token tokens) (dl_nonce login) now = Ok (account_id session)
    \<and> le_save (de_login env) session = Ok ()"
proof -
  obtain i p where p: "de_poll env i = Ok p" "i < length sent" "device_finish env login (dp_response p) = Ok session"
    using device_loop_Ok [OF assms(2) [unfolded device_complete_def]] by auto
  from p(3) obtain s where s: "decode_auth_response (le_json (de_login env)) (de_success env) (dp_response p) = Ok s"
      "secure_equal (le_crypto (de_login env)) (le_sha256_base64url (de_login env) (ds_code_verifier s)) (ds_code_challenge s)"
      "fst (finish_login (de_login env) (ds_authorization_code s) DEVICE_REDIRECT_URI (ds_code_verifier s) (dl_nonce login)) = Ok session"
    by (auto simp: device_finish_def res_bind_Ok_iff split: if_splits)
  obtain effects where f: "finish_login (de_login env) (ds_authorization_code s) DEVICE_REDIRECT_URI (ds_code_verifier s) (dl_nonce login)
      = (Ok session, effects)" using s(3) by (metis prod.collapse)
  show ?thesis using p(1,2) s(1) s(2) [unfolded secure_equal_iff [OF assms(1)]] finish_login_Ok [OF f] by blast
qed

theorem device_login_authentic_witness:
  "\<exists>session. device_complete 3 sample_device_env sample_device_login = Some (Ok session, [0, 8 * second + 5])
    \<and> (\<exists>i p. i < length [0, 8 * second + 5] \<and> de_poll sample_device_env i = Ok p) \<and> le_save sample_login_env session = Ok ()"
proof -
  let ?s = "\<lparr>access_token = ''at'', refresh_token = ''rt'', expires_at = 4600, account_id = ChatGptAccountId ''acct-1'', generation = 0\<rparr>"
  have run: "device_complete 3 sample_device_env sample_device_login = Some (Ok ?s, [0, 8 * second + 5])" by code_simp
  have login: "de_login sample_device_env = sample_login_env" by (simp add: sample_device_env_def)
  have "hmac_contract (le_crypto (de_login sample_device_env))" unfolding login by (rule sample_contract)
  from device_login_authentic [OF this run] run show ?thesis unfolding login by blast
qed

end
