(* ===== verification/Direct_Cancellation.thy ===== *)
theory Direct_Cancellation
  imports State_Machine
begin

text \<open>
  \<^verbatim>\<open>CancellationToken\<close> of the direct Codex backend, \<^verbatim>\<open>crates/openai-rs-codex/src/direct.rs\<close>, under concurrency: any number
  of threads call \<^verbatim>\<open>cancel\<close>, one task runs \<^verbatim>\<open>cancelled().await\<close>.  The swap of the flag and the notification are two steps of
  \<^verbatim>\<open>cancel\<close>; the check of the flag, the creation of the \<^verbatim>\<open>Notified\<close> future and the wait are three steps of \<^verbatim>\<open>cancelled\<close>.
  \<^verbatim>\<open>Notify::notify_waiters\<close> wakes the futures created before it, and no others.
\<close>

datatype login_waiter = CheckFlag | CreateFuture | WaitFrom nat | Returned

record cancellation_token =
  ct_cancelled :: bool
  ct_notified :: nat
  ct_notifying :: nat
  ct_waiter :: login_waiter

definition cancellation_token_new :: cancellation_token where
  "cancellation_token_new = \<lparr>ct_cancelled = False, ct_notified = 0, ct_notifying = 0, ct_waiter = CheckFlag\<rparr>"

definition cancel_set :: "cancellation_token \<Rightarrow> cancellation_token" where
  "cancel_set t = (if \<not> ct_cancelled t then t\<lparr>ct_cancelled := True, ct_notifying := ct_notifying t + 1\<rparr> else t)"

definition cancel_wake :: "cancellation_token \<Rightarrow> cancellation_token" where
  "cancel_wake t = t\<lparr>ct_notified := ct_notified t + 1, ct_notifying := ct_notifying t - 1\<rparr>"

definition cancelled_poll :: "cancellation_token \<Rightarrow> cancellation_token" where
  "cancelled_poll t =
     (case ct_waiter t of
        CheckFlag \<Rightarrow> t\<lparr>ct_waiter := (if ct_cancelled t then Returned else CreateFuture)\<rparr>
      | CreateFuture \<Rightarrow> t\<lparr>ct_waiter := WaitFrom (ct_notified t)\<rparr>
      | WaitFrom k \<Rightarrow> t\<lparr>ct_waiter := (if ct_notified t \<noteq> k then Returned else WaitFrom k)\<rparr>
      | Returned \<Rightarrow> t)"

inductive cancellation_step :: "cancellation_token \<Rightarrow> cancellation_token \<Rightarrow> bool" where
  set_flag: "cancellation_step t (cancel_set t)"
| wake: "0 < ct_notifying t \<Longrightarrow> cancellation_step t (cancel_wake t)"
| poll: "cancellation_step t (cancelled_poll t)"

inductive_cases cancellation_stepE: "cancellation_step t t'"

lemmas token_runs =
  reach_step [where step = cancellation_step, OF _ cancellation_step.wake]
  reach_step [where step = cancellation_step, OF _ cancellation_step.set_flag]
  reach_step [where step = cancellation_step, OF _ cancellation_step.poll]

lemmas token_ops = cancel_set_def cancel_wake_def cancelled_poll_def

section \<open>What the token promises\<close>

definition cancellation_inv :: "cancellation_token \<Rightarrow> bool" where
  "cancellation_inv t \<longleftrightarrow>
     ct_notified t + ct_notifying t = (if ct_cancelled t then 1 else 0)
     \<and> (case ct_waiter t of WaitFrom k \<Rightarrow> k \<le> ct_notified t | Returned \<Rightarrow> ct_cancelled t | _ \<Rightarrow> True)"

interpretation login_token: machine_invariant cancellation_token_new cancellation_step cancellation_inv
proof
  show "cancellation_inv cancellation_token_new" by (simp add: cancellation_inv_def cancellation_token_new_def)
  show "cancellation_inv t'" if "cancellation_inv t" "cancellation_step t t'" for t t'
    using that(2,1) by (cases rule: cancellation_step.cases)
      (auto simp: cancellation_inv_def token_ops split: login_waiter.splits if_splits)
qed

text \<open>
  \<^verbatim>\<open>cancelled()\<close> of the direct backend returns on a cancelled token only, and does return once the notification is sent if its
  future was created before it.
\<close>

theorem cancellation_sound:
  assumes "reach cancellation_token_new cancellation_step t"
  shows "(ct_waiter t = Returned \<longrightarrow> ct_cancelled t)
    \<and> (ct_cancelled t \<and> ct_notifying t = 0 \<and> ct_waiter t \<in> {CheckFlag, WaitFrom 0} \<longrightarrow> ct_waiter (cancelled_poll t) = Returned)"
  using login_token.reach_inv [OF assms] by (auto simp: cancellation_inv_def cancelled_poll_def)

definition woken_token :: cancellation_token where
  "woken_token = cancel_wake (cancel_set (cancelled_poll (cancelled_poll cancellation_token_new)))"

theorem cancellation_sound_witness: "ct_waiter woken_token = WaitFrom 0 \<and> ct_waiter (cancelled_poll woken_token) = Returned"
proof -
  have "reach cancellation_token_new cancellation_step woken_token"
    unfolding woken_token_def
    by (intro token_runs reach_init) (simp add: token_ops cancellation_token_new_def)
  from cancellation_sound [OF this] show ?thesis by (simp add: woken_token_def token_ops cancellation_token_new_def)
qed

section \<open>A lost wake-up\<close>

text \<open>The token is cancelled between the check of the flag and the creation of the future.\<close>

definition missed_token :: cancellation_token where
  "missed_token = cancelled_poll (cancel_wake (cancel_set (cancelled_poll cancellation_token_new)))"

lemma missed_token_eq:
  "missed_token = \<lparr>ct_cancelled = True, ct_notified = 1, ct_notifying = 0, ct_waiter = WaitFrom 1\<rparr>"
  by (simp add: missed_token_def token_ops cancellation_token_new_def)

interpretation missed: machine_invariant missed_token cancellation_step "\<lambda>t. t = missed_token"
proof
  show "t' = missed_token" if "t = missed_token" "cancellation_step t t'" for t t'
    using that(2) unfolding that(1) by (cases rule: cancellation_step.cases) (simp_all add: missed_token_eq token_ops)
qed simp

text \<open>
  The flag is checked before the \<^verbatim>\<open>Notified\<close> future exists and not again after: a cancellation that falls between the two is
  never seen, the token is cancelled and the task waits for ever.
\<close>

theorem cancellation_can_be_missed:
  "\<exists>t. reach cancellation_token_new cancellation_step t \<and> ct_cancelled t \<and> ct_notifying t = 0
     \<and> (\<forall>t'. reach t cancellation_step t' \<longrightarrow> ct_waiter t' \<noteq> Returned)"
proof (intro exI conjI allI impI)
  show "reach cancellation_token_new cancellation_step missed_token"
    unfolding missed_token_def
    by (intro token_runs reach_init) (simp add: token_ops cancellation_token_new_def)
  show "ct_waiter t' \<noteq> Returned" if "reach missed_token cancellation_step t'" for t'
    using missed.reach_inv [OF that] by (simp add: missed_token_eq)
qed (simp_all add: missed_token_eq)

end
