(* ===== verification/Token_Manager.thy ===== *)
theory Token_Manager
  imports Direct_Auth State_Machine
begin

text \<open>
  The token manager of the direct Codex backend, \<^verbatim>\<open>TokenManager\<close> in \<^verbatim>\<open>crates/openai-rs-codex/src/direct/auth.rs\<close>, as a
  concurrent system: any number of calls of \<^verbatim>\<open>session\<close> and \<^verbatim>\<open>refresh_after_unauthorized\<close> share the cached session, the gate
  and the credential store.  Between two points where a call can be suspended it does one step; a call can be dropped at
  any such point.  The answers of the token endpoint and of the store, and the clock, are chosen at each step.

  The store belongs to this manager: no login writes to it while the manager is in use.
\<close>

definition REFRESH_SKEW :: nat where "REFRESH_SKEW = 60"

definition usable :: "nat \<Rightarrow> stored_session \<Rightarrow> bool" where
  "usable now s \<longleftrightarrow> expires_at s > saturating_add now REFRESH_SKEW"

section \<open>Refreshing\<close>

record refresh_response =
  rr_access_token :: bytes
  rr_refresh_token :: "bytes option"
  rr_expires_in :: "nat option"

definition refresh_form :: "stored_session \<Rightarrow> form" where
  "refresh_form s = [(''grant_type'', ''refresh_token''), (''refresh_token'', refresh_token s), (''client_id'', CLIENT_ID)]"

definition refreshed_session :: "nat \<Rightarrow> refresh_response \<Rightarrow> stored_session \<Rightarrow> stored_session" where
  "refreshed_session now r s =
     \<lparr>access_token = rr_access_token r,
      refresh_token = (case rr_refresh_token r of Some t \<Rightarrow> t | None \<Rightarrow> refresh_token s),
      expires_at = saturating_add now (case rr_expires_in r of Some n \<Rightarrow> n | None \<Rightarrow> DEFAULT_EXPIRES_IN),
      account_id = account_id s, generation = saturating_add (generation s) 1\<rparr>"

section \<open>The system\<close>

datatype call_kind = ForSession | AfterUnauthorized nat

text \<open>
  The points of a call: before the gate, with the gate and its first look at the cache, about to load from the store, with
  the current session in hand, waiting for the token endpoint, for the store, for the cache.
\<close>

datatype call_phase =
    NotCalled
  | AtGate call_kind
  | Inside call_kind
  | Loading call_kind
  | Current call_kind stored_session
  | Refreshing call_kind stored_session
  | Storing call_kind stored_session stored_session
  | Caching call_kind stored_session
  | Answered call_kind "(direct_failure, stored_session) result"
  | DroppedCall

text \<open>
  Ghost state: the sessions for which a refresh response was received, in order, and whether a refreshed session was lost
  between the endpoint and the cache (the clock or the store failed, or the call was dropped).
\<close>

record token_manager =
  tm_cached :: "stored_session option"
  tm_store :: "stored_session option"
  tm_gate :: "nat option"
  tm_calls :: "nat \<Rightarrow> call_phase"
  tm_refreshed :: "stored_session list"
  tm_lost :: bool

definition token_manager_new :: "stored_session option \<Rightarrow> token_manager" where
  "token_manager_new s =
     \<lparr>tm_cached = None, tm_store = s, tm_gate = None, tm_calls = (\<lambda>_. NotCalled), tm_refreshed = [], tm_lost = False\<rparr>"

definition set_call :: "nat \<Rightarrow> call_phase \<Rightarrow> token_manager \<Rightarrow> token_manager" where
  "set_call i p m = m\<lparr>tm_calls := (tm_calls m)(i := p)\<rparr>"

definition answer :: "nat \<Rightarrow> call_kind \<Rightarrow> (direct_failure, stored_session) result \<Rightarrow> token_manager \<Rightarrow> token_manager" where
  "answer i k r m = set_call i (Answered k r) (m\<lparr>tm_gate := None\<rparr>)"

definition begin_session :: "nat \<Rightarrow> nat \<Rightarrow> token_manager \<Rightarrow> token_manager" where
  "begin_session i now m =
     (case tm_cached m of
        Some s \<Rightarrow> if usable now s then set_call i (Answered ForSession (Ok s)) m else set_call i (AtGate ForSession) m
      | None \<Rightarrow> set_call i (AtGate ForSession) m)"

text \<open>With the gate: the session call goes on with the cached session; the other answers with it if it is a different one.\<close>

definition look_inside :: "nat \<Rightarrow> call_kind \<Rightarrow> token_manager \<Rightarrow> token_manager" where
  "look_inside i k m =
     (case (k, tm_cached m) of
        (ForSession, Some s) \<Rightarrow> set_call i (Current k s) m
      | (AfterUnauthorized g, Some s) \<Rightarrow> if generation s \<noteq> g then answer i k (Ok s) m else set_call i (Loading k) m
      | (_, None) \<Rightarrow> set_call i (Loading k) m)"

definition load_stored :: "nat \<Rightarrow> call_kind \<Rightarrow> (direct_failure, unit) result \<Rightarrow> token_manager \<Rightarrow> token_manager" where
  "load_stored i k outcome m =
     (case outcome of
        Err e \<Rightarrow> answer i k (Err e) m
      | Ok _ \<Rightarrow>
          (case tm_store m of
             None \<Rightarrow> answer i k (Err DReauthenticationRequired) m
           | Some s \<Rightarrow> set_call i (Current k s) m))"

definition decide :: "nat \<Rightarrow> call_kind \<Rightarrow> stored_session \<Rightarrow> nat \<Rightarrow> token_manager \<Rightarrow> token_manager" where
  "decide i k s now m =
     (if (case k of ForSession \<Rightarrow> usable now s | AfterUnauthorized g \<Rightarrow> generation s \<noteq> g)
      then set_call i (Caching k s) m else set_call i (Refreshing k s) m)"

definition endpoint_answers ::
    "nat \<Rightarrow> call_kind \<Rightarrow> stored_session \<Rightarrow> nat \<Rightarrow> (direct_failure, refresh_response) result \<Rightarrow> token_manager \<Rightarrow> token_manager" where
  "endpoint_answers i k s now outcome m =
     (case outcome of
        Err e \<Rightarrow> answer i k (Err e) m
      | Ok r \<Rightarrow> set_call i (Storing k s (refreshed_session now r s)) (m\<lparr>tm_refreshed := tm_refreshed m @ [s]\<rparr>))"

definition store_answers ::
    "nat \<Rightarrow> call_kind \<Rightarrow> stored_session \<Rightarrow> (direct_failure, unit) result \<Rightarrow> token_manager \<Rightarrow> token_manager" where
  "store_answers i k s' outcome m =
     (case outcome of
        Err e \<Rightarrow> answer i k (Err e) (m\<lparr>tm_lost := True\<rparr>)
      | Ok _ \<Rightarrow> set_call i (Caching k s') (m\<lparr>tm_store := Some s'\<rparr>))"

definition write_cache :: "nat \<Rightarrow> call_kind \<Rightarrow> stored_session \<Rightarrow> token_manager \<Rightarrow> token_manager" where
  "write_cache i k s m = answer i k (Ok s) (m\<lparr>tm_cached := Some s\<rparr>)"

fun holds_gate :: "call_phase \<Rightarrow> bool" where
  "holds_gate (Inside k) = True"
| "holds_gate (Loading k) = True"
| "holds_gate (Current k s) = True"
| "holds_gate (Refreshing k s) = True"
| "holds_gate (Storing k s s') = True"
| "holds_gate (Caching k s) = True"
| "holds_gate _ = False"

text \<open>Dropping a call releases the gate it holds; what it had refreshed and not cached is lost to the manager.\<close>

definition drop_call :: "nat \<Rightarrow> token_manager \<Rightarrow> token_manager" where
  "drop_call i m =
     set_call i DroppedCall
       (m\<lparr>tm_gate := (if holds_gate (tm_calls m i) then None else tm_gate m),
          tm_lost := (tm_lost m \<or> (case tm_calls m i of Refreshing k s \<Rightarrow> True | Storing k s s' \<Rightarrow> True | Caching k s \<Rightarrow> True | _ \<Rightarrow> False))\<rparr>)"

text \<open>The clock is read when a session call starts, when it has the gate, and after a refresh response; a clock before 1970 fails.\<close>

definition clock_error :: direct_failure where
  "clock_error = DConfiguration ''system clock is before Unix epoch''"

inductive manager_step :: "token_manager \<Rightarrow> token_manager \<Rightarrow> bool" where
  call_session: "tm_calls m i = NotCalled \<Longrightarrow> manager_step m (begin_session i now m)"
| call_unauthorized: "tm_calls m i = NotCalled \<Longrightarrow> manager_step m (set_call i (AtGate (AfterUnauthorized g)) m)"
| take_gate: "tm_calls m i = AtGate k \<Longrightarrow> tm_gate m = None \<Longrightarrow> manager_step m (set_call i (Inside k) (m\<lparr>tm_gate := Some i\<rparr>))"
| look: "tm_calls m i = Inside k \<Longrightarrow> manager_step m (look_inside i k m)"
| load: "tm_calls m i = Loading k \<Longrightarrow> manager_step m (load_stored i k outcome m)"
| choose: "tm_calls m i = Current k s \<Longrightarrow> manager_step m (decide i k s now m)"
| endpoint: "tm_calls m i = Refreshing k s \<Longrightarrow> manager_step m (endpoint_answers i k s now outcome m)"
| save: "tm_calls m i = Storing k s s' \<Longrightarrow> manager_step m (store_answers i k s' outcome m)"
| cache: "tm_calls m i = Caching k s \<Longrightarrow> manager_step m (write_cache i k s m)"
| clock_failed: "tm_calls m i = NotCalled \<Longrightarrow> manager_step m (set_call i (Answered ForSession (Err clock_error)) m)"
| clock_failed_inside: "tm_calls m i = Inside ForSession \<Longrightarrow> manager_step m (answer i ForSession (Err clock_error) m)"
| clock_failed_refresh: "tm_calls m i = Refreshing k s \<Longrightarrow>
    manager_step m (answer i k (Err clock_error) (m\<lparr>tm_refreshed := tm_refreshed m @ [s], tm_lost := True\<rparr>))"
| drop: "(\<And>k r. tm_calls m i \<noteq> Answered k r) \<Longrightarrow> tm_calls m i \<noteq> DroppedCall \<Longrightarrow> manager_step m (drop_call i m)"

inductive_cases manager_stepE: "manager_step m m'"

end
