(* ===== verification/Credential_Store.thy ===== *)
theory Credential_Store
  imports Token_Manager Direct_Auth_Correctness
begin

text \<open>
  The credential stores of the direct Codex backend: \<^verbatim>\<open>EphemeralStore\<close> in \<^verbatim>\<open>crates/openai-rs-codex/src/direct/auth.rs\<close> and
  \<^verbatim>\<open>KeyringStore\<close> in \<^verbatim>\<open>direct/keyring_store.rs\<close>, with the contract of \<^verbatim>\<open>CredentialStore\<close> that both keep.

  The system keyring and the JSON text of a persisted session are other crates' code: an outcome is chosen for each
  operation, and the codec is a parameter whose round trip is a hypothesis.
\<close>

section \<open>The contract\<close>

text \<open>The sessions a store is given are valid; an operation that succeeds has the effect its name says.\<close>

locale credential_store =
  fixes load :: "'s \<Rightarrow> (direct_failure, stored_session option) result"
    and save :: "stored_session \<Rightarrow> 's \<Rightarrow> (direct_failure, unit) result \<times> 's"
    and delete :: "'s \<Rightarrow> (direct_failure, unit) result \<times> 's"
    and valid :: "stored_session \<Rightarrow> bool"
  assumes load_saved: "valid x \<Longrightarrow> save x s = (Ok (), s') \<Longrightarrow> load s' = Ok (Some x)"
    and load_deleted: "delete s = (Ok (), s') \<Longrightarrow> load s' = Ok None"
    and failed_save: "save x s = (Err e, s') \<Longrightarrow> s' = s"
    and failed_delete: "delete s = (Err e, s') \<Longrightarrow> s' = s"
begin

text \<open>Whatever operations came before, the last one that succeeded decides what is loaded.\<close>

fun apply_ops :: "stored_session option list \<Rightarrow> 's \<Rightarrow> (direct_failure, unit) result list \<times> 's" where
  "apply_ops [] s = ([], s)"
| "apply_ops (op # ops) s =
     (let (r, s') = (case op of Some x \<Rightarrow> save x s | None \<Rightarrow> delete s); (rs, s'') = apply_ops ops s' in (r # rs, s''))"

fun last_effect :: "stored_session option list \<Rightarrow> (direct_failure, unit) result list \<Rightarrow> stored_session option \<Rightarrow> stored_session option" where
  "last_effect (op # ops) (r # rs) x = last_effect ops rs (if r = Ok () then op else x)"
| "last_effect ops rs x = x"

lemma load_after_ops:
  assumes "apply_ops ops s = (rs, s')" and "load s = Ok x" and "\<And>y. Some y \<in> set ops \<Longrightarrow> valid y"
  shows "load s' = Ok (last_effect ops rs x)"
  using assms
proof (induction ops arbitrary: s rs x)
  case (Cons op ops)
  obtain r s1 where step: "(case op of Some y \<Rightarrow> save y s | None \<Rightarrow> delete s) = (r, s1)" by fastforce
  obtain rs' where rest: "apply_ops ops s1 = (rs', s')" "rs = r # rs'" using Cons.prems(1) step by (auto split: prod.splits)
  have "load s1 = Ok (if r = Ok () then op else x)"
    using step Cons.prems(2,3) by (cases op; cases r) (auto dest: load_saved load_deleted failed_save failed_delete)
  from Cons.IH [OF rest(1) this] Cons.prems(3) rest(2) show ?case by simp
qed simp

end

section \<open>The store in memory\<close>

type_synonym ephemeral_store = "stored_session option"

definition ephemeral_load :: "ephemeral_store \<Rightarrow> (direct_failure, stored_session option) result" where
  "ephemeral_load s = Ok s"

definition ephemeral_save :: "stored_session \<Rightarrow> ephemeral_store \<Rightarrow> (direct_failure, unit) result \<times> ephemeral_store" where
  "ephemeral_save x s = (Ok (), Some x)"

definition ephemeral_delete :: "ephemeral_store \<Rightarrow> (direct_failure, unit) result \<times> ephemeral_store" where
  "ephemeral_delete s = (Ok (), None)"

interpretation ephemeral: credential_store ephemeral_load ephemeral_save ephemeral_delete "\<lambda>_. True"
  by unfold_locales (auto simp: ephemeral_load_def ephemeral_save_def ephemeral_delete_def)

section \<open>The system keyring\<close>

definition FORMAT_VERSION :: nat where "FORMAT_VERSION = 1"

definition keyring_store_new :: "bytes \<Rightarrow> (direct_failure, bytes) result" where
  "keyring_store_new entry_name =
     (if str_trim entry_name = [] \<or> length entry_name > 128
      then Err (DConfiguration ''keyring entry name must be 1..=128 characters'') else Ok entry_name)"

record persisted_session =
  ps_format_version :: nat
  ps_access_token :: bytes
  ps_refresh_token :: bytes
  ps_expires_at :: nat
  ps_account_id :: bytes
  ps_generation :: nat

record session_codec =
  sc_to_string :: "persisted_session \<Rightarrow> (bytes, bytes) result"
  sc_from_str :: "bytes \<Rightarrow> (bytes, persisted_session) result"

fun account_id_str :: "chatgpt_account_id \<Rightarrow> bytes" where
  "account_id_str (ChatGptAccountId s) = s"

definition encode_session :: "session_codec \<Rightarrow> stored_session \<Rightarrow> (direct_failure, bytes) result" where
  "encode_session c s =
     map_err DJson (sc_to_string c
       \<lparr>ps_format_version = FORMAT_VERSION, ps_access_token = access_token s, ps_refresh_token = refresh_token s,
        ps_expires_at = expires_at s, ps_account_id = account_id_str (account_id s), ps_generation = generation s\<rparr>)"

definition decode_session :: "session_codec \<Rightarrow> bytes \<Rightarrow> (direct_failure, stored_session) result" where
  "decode_session c encoded =
     res_bind (map_err DJson (sc_from_str c encoded)) (\<lambda>p.
       if ps_format_version p \<noteq> FORMAT_VERSION then Err (DStore ''unsupported keyring session format'')
       else res_bind (map_err of_oidc (account_id_parse (ps_account_id p))) (\<lambda>account.
         Ok \<lparr>access_token = ps_access_token p, refresh_token = ps_refresh_token p, expires_at = ps_expires_at p,
             account_id = account, generation = ps_generation p\<rparr>))"

text \<open>
  The entries of the service in the system keyring.  An operation reaches its entry, or its task, the opening of the entry or
  the operation itself fails.
\<close>

type_synonym keyring = "bytes \<Rightarrow> bytes option"

datatype keyring_outcome = Reached | TaskFailed bytes | OpenFailed bytes | OperationFailed bytes

definition store_error :: "bytes \<Rightarrow> bytes \<Rightarrow> direct_failure" where
  "store_error operation e = DStore (''keyring '' @ operation @ '' failed: '' @ e)"

fun keyring_result :: "bytes \<Rightarrow> keyring_outcome \<Rightarrow> (direct_failure, unit) result" where
  "keyring_result operation Reached = Ok ()"
| "keyring_result operation (TaskFailed e) = Err (DStore (''keyring '' @ operation @ '' task failed: '' @ e))"
| "keyring_result operation (OpenFailed e) = Err (store_error ''open'' e)"
| "keyring_result operation (OperationFailed e) = Err (store_error operation e)"

definition keyring_load ::
    "session_codec \<Rightarrow> bytes \<Rightarrow> keyring_outcome \<Rightarrow> keyring \<Rightarrow> (direct_failure, stored_session option) result" where
  "keyring_load c entry_name outcome k =
     res_bind (keyring_result ''load'' outcome) (\<lambda>_.
       case k entry_name of None \<Rightarrow> Ok None | Some password \<Rightarrow> res_bind (decode_session c password) (\<lambda>s. Ok (Some s)))"

definition keyring_save ::
    "session_codec \<Rightarrow> bytes \<Rightarrow> keyring_outcome \<Rightarrow> stored_session \<Rightarrow> keyring \<Rightarrow> (direct_failure, unit) result \<times> keyring" where
  "keyring_save c entry_name outcome s k =
     (case encode_session c s of
        Err e \<Rightarrow> (Err e, k)
      | Ok encoded \<Rightarrow>
          (case keyring_result ''save'' outcome of Err e \<Rightarrow> (Err e, k) | Ok _ \<Rightarrow> (Ok (), k(entry_name \<mapsto> encoded))))"

definition keyring_delete :: "bytes \<Rightarrow> keyring_outcome \<Rightarrow> keyring \<Rightarrow> (direct_failure, unit) result \<times> keyring" where
  "keyring_delete entry_name outcome k =
     (case keyring_result ''delete'' outcome of Err e \<Rightarrow> (Err e, k) | Ok _ \<Rightarrow> (Ok (), k(entry_name := None)))"

definition session_valid :: "stored_session \<Rightarrow> bool" where
  "session_valid s \<longleftrightarrow> account_id_parse (account_id_str (account_id s)) = Ok (account_id s)"

definition codec_contract :: "session_codec \<Rightarrow> bool" where
  "codec_contract c \<longleftrightarrow> (\<forall>p t. sc_to_string c p = Ok t \<longrightarrow> sc_from_str c t = Ok p)"

lemma decode_encoded:
  assumes "codec_contract c" and "session_valid s" and "encode_session c s = Ok t"
  shows "decode_session c t = Ok s"
  using assms by (auto simp: codec_contract_def session_valid_def encode_session_def decode_session_def)

text \<open>
  The keyring keeps the contract for every entry, when loading reaches the entry; saving and deleting may fail at any time.
  The operations of other entries do not change what is loaded.
\<close>

lemma keyring_contract:
  assumes "codec_contract c"
  shows "credential_store (keyring_load c name Reached) (keyring_save c name w) (keyring_delete name w') session_valid"
  using decode_encoded [OF assms]
  by unfold_locales (auto simp: keyring_load_def keyring_save_def keyring_delete_def split: sum.splits)

section \<open>Sessions survive\<close>

lemma login_session_valid:
  assumes "login_session env nonce_value tokens v = Ok s"
  shows "session_valid s"
proof -
  from assms obtain now a where "oidc_verify (le_crypto env) v (tr_id_token tokens) nonce_value now = Ok a" "account_id s = a"
    by (auto simp: login_session_def res_bind_Ok_iff)
  moreover from this(1) obtain first where "account_id_parse first = Ok a"
    by (auto simp: oidc_verify_def check_claims_def res_bind_Ok_iff Let_def split: if_split_asm option.splits)
  ultimately show ?thesis by (auto simp: session_valid_def account_id_parse_Ok)
qed

lemma refreshed_session_valid: "session_valid s \<Longrightarrow> session_valid (refreshed_session now r s)"
  by (simp add: session_valid_def refreshed_session_def)

text \<open>
  C33: A session kept in the keyring is loaded as it was. After a login, however often the session was refreshed and whatever saves and
  deletes were attempted before, the session that was saved last is the one loaded; operations on other entries do not matter.
\<close>

theorem keyring_round_trip:
  assumes "codec_contract c" and "login_session env nonce_value tokens v = Ok s"
    and "s' = fold (\<lambda>(now, r). refreshed_session now r) rs s"
    and "keyring_save c name w s' k = (Ok (), k')" and "other \<noteq> name"
  shows "keyring_load c name Reached k' = Ok (Some s')
    \<and> keyring_load c name Reached (snd (keyring_save c other w' x k')) = Ok (Some s')
    \<and> keyring_load c name Reached (snd (keyring_delete other w'' k')) = Ok (Some s')"
proof -
  have "session_valid (fold (\<lambda>(now, r). refreshed_session now r) rs x)" if "session_valid x" for x
    using that by (induction rs arbitrary: x) (auto simp: refreshed_session_valid)
  from this [OF login_session_valid [OF assms(2)]] have "session_valid s'" unfolding assms(3) .
  from credential_store.load_saved [OF keyring_contract [OF assms(1)] this assms(4)]
  have "keyring_load c name Reached k' = Ok (Some s')" .
  moreover have "keyring_load c name Reached k2 = keyring_load c name Reached k'" if "k2 name = k' name" for k2
    using that by (simp add: keyring_load_def)
  moreover have "snd (keyring_save c other w' x k') name = k' name" "snd (keyring_delete other w'' k') name = k' name"
    using assms(5) by (auto simp: keyring_save_def keyring_delete_def split: sum.split)
  ultimately show ?thesis by metis
qed

definition toy_codec :: session_codec where
  "toy_codec =
     (let p = \<lparr>ps_format_version = 1, ps_access_token = ''at'', ps_refresh_token = ''rt'', ps_expires_at = 4600,
               ps_account_id = ''acct-1'', ps_generation = 0\<rparr>
      in \<lparr>sc_to_string = (\<lambda>q. if q = p then Ok ''P'' else Err ''unsupported''), sc_from_str = (\<lambda>t. if t = ''P'' then Ok p else Err ''syntax'')\<rparr>)"

theorem keyring_round_trip_witness:
  "\<exists>s. access_token s = ''at'' \<and> keyring_load toy_codec ''me'' Reached (snd (keyring_save toy_codec ''me'' Reached s Map.empty)) = Ok (Some s)"
proof -
  let ?s = "\<lparr>access_token = ''at'', refresh_token = ''rt'', expires_at = 4600, account_id = ChatGptAccountId ''acct-1'', generation = 0\<rparr>"
  let ?tokens = "\<lparr>tr_id_token = ''h.p.NEhp'', tr_access_token = ''at'', tr_refresh_token = Some ''rt'', tr_expires_in = None\<rparr>"
  have "codec_contract toy_codec" by (simp add: codec_contract_def toy_codec_def Let_def split: if_splits)
  moreover have "login_session sample_login_env ''n0'' ?tokens (toy_oidc\<lparr>issuer := ISSUER, oidc_audience := CLIENT_ID\<rparr>) = Ok ?s" by code_simp
  moreover have "keyring_save toy_codec ''me'' Reached ?s Map.empty = (Ok (), snd (keyring_save toy_codec ''me'' Reached ?s Map.empty))"
    by (simp add: keyring_save_def encode_session_def toy_codec_def FORMAT_VERSION_def Let_def)
  ultimately have "keyring_load toy_codec ''me'' Reached (snd (keyring_save toy_codec ''me'' Reached ?s Map.empty)) = Ok (Some ?s)"
    using keyring_round_trip [of toy_codec sample_login_env "''n0''" ?tokens _ ?s ?s "[]" "''me''" Reached Map.empty _ "''you''"] by simp
  then show ?thesis by (intro exI [of _ ?s]) simp
qed

end
