(* ===== verification/Direct_Transport.thy ===== *)
theory Direct_Transport
  imports Direct_Sse Credential_Store Operation
begin

text \<open>
  The transport of the direct Codex backend, \<^verbatim>\<open>crates/openai-rs-codex/src/direct/transport.rs\<close>: the checks of the request
  body, the sealed request, the single retry with a refreshed session after a 401, the bounded JSON response, the
  sanitized error of a refused request, and the stream of typed events.

  HTTP, the random source, header encoding and JSON decoding are fields of the environment; the answers of the token
  manager are too, and are tied to its runs in \<^verbatim>\<open>Direct_Transport_Correctness\<close>.
\<close>

definition MAX_JSON_RESPONSE_BYTES :: nat where "MAX_JSON_RESPONSE_BYTES = 32 * 1024 * 1024"
definition MAX_ERROR_BYTES :: nat where "MAX_ERROR_BYTES = 64 * 1024"
definition DEFAULT_DIRECT_SSE_BYTES :: nat where "DEFAULT_DIRECT_SSE_BYTES = 32 * 1024 * 1024"
definition MAX_ERROR_MESSAGE_CHARS :: nat where "MAX_ERROR_MESSAGE_CHARS = 256"
definition DIRECT_REQUEST_TIMEOUT :: duration where "DIRECT_REQUEST_TIMEOUT = 600 * 1000000000"
definition CODEX_RESPONSES_ENDPOINT :: bytes where
  "CODEX_RESPONSES_ENDPOINT = ''https://chatgpt.com/backend-api/codex/responses''"

section \<open>The client\<close>

record direct_client =
  dc_request_timeout :: duration
  dc_max_sse_line_bytes :: nat
  dc_max_sse_event_bytes :: nat

definition direct_client_new :: direct_client where
  "direct_client_new =
     \<lparr>dc_request_timeout = DIRECT_REQUEST_TIMEOUT, dc_max_sse_line_bytes = DEFAULT_DIRECT_SSE_BYTES,
      dc_max_sse_event_bytes = DEFAULT_DIRECT_SSE_BYTES\<rparr>"

definition with_request_timeout :: "duration \<Rightarrow> direct_client \<Rightarrow> direct_client" where
  "with_request_timeout t c = c\<lparr>dc_request_timeout := t\<rparr>"

definition with_sse_limits :: "nat \<Rightarrow> nat \<Rightarrow> direct_client \<Rightarrow> (direct_failure, direct_client) result" where
  "with_sse_limits line_bytes event_bytes c =
     (if line_bytes = 0 then Err (DConfiguration ''max_line_bytes must be non-zero'')
      else if event_bytes = 0 then Err (DConfiguration ''max_event_bytes must be non-zero'')
      else Ok (c\<lparr>dc_max_sse_line_bytes := line_bytes, dc_max_sse_event_bytes := event_bytes\<rparr>))"

section \<open>The request\<close>

definition validate_body :: "json \<Rightarrow> bool \<Rightarrow> (direct_failure, unit) result" where
  "validate_body v streaming =
     res_bind (ok_or (as_object v) (DConfiguration ''Responses request did not serialize to an object'')) (\<lambda>object.
       if contains_key object ''max_output_tokens'' then Err (DUnsupportedRequestField ''max_output_tokens'')
       else if map_of object ''background'' = Some (JBool True) then Err (DUnsupportedRequestField ''background'')
       else if (if streaming then map_of object ''stream'' = Some (JBool True)
                else map_of object ''stream'' = None \<or> map_of object ''stream'' = Some (JBool False))
       then Ok ()
       else Err (DConfiguration ''Responses stream typestate did not match serialized body''))"

record direct_request =
  dq_url :: bytes
  dq_timeout :: "duration option"
  dq_authorization :: bytes
  dq_account_id :: bytes
  dq_originator :: bytes
  dq_session_id :: bytes
  dq_accept :: bytes
  dq_json :: json

text \<open>A response, with its \<^verbatim>\<open>Content-Type\<close> headers.\<close>

record direct_response = auth_response +
  dr_content_types :: "bytes list"

record ('r, 'e) direct_env =
  dt_random :: "nat \<Rightarrow> bytes option"
  dt_base64url :: "bytes \<Rightarrow> bytes"
  dt_header :: "bytes \<Rightarrow> bool"
  dt_header_text :: "bytes \<Rightarrow> bytes option"
  dt_post :: "nat \<Rightarrow> direct_request \<Rightarrow> (bytes, direct_response) result"
  dt_session :: "(direct_failure, stored_session) result"
  dt_refresh :: "nat \<Rightarrow> (direct_failure, stored_session) result"
  dt_json :: "bytes \<Rightarrow> (bytes, json) result"
  dt_response :: "bytes \<Rightarrow> (bytes, 'r) result"
  dt_event :: "bytes \<Rightarrow> (bytes, 'e) result"

definition sealed_request :: "direct_client \<Rightarrow> bytes \<Rightarrow> json \<Rightarrow> stored_session \<Rightarrow> bool \<Rightarrow> direct_request" where
  "sealed_request c sid v s streaming =
     \<lparr>dq_url = CODEX_RESPONSES_ENDPOINT,
      dq_timeout = (if streaming then None else Some (dc_request_timeout c)),
      dq_authorization = ''Bearer '' @ access_token s,
      dq_account_id = account_id_str (account_id s),
      dq_originator = CODEX_ORIGINATOR,
      dq_session_id = sid,
      dq_accept = (if streaming then ''text/event-stream'' else ''application/json''),
      dq_json = v\<rparr>"

text \<open>The \<open>n\<close>-th request of a call: its answer and what was sent.\<close>

definition direct_send ::
    "('r, 'e) direct_env \<Rightarrow> direct_client \<Rightarrow> nat \<Rightarrow> json \<Rightarrow> stored_session \<Rightarrow> bool
       \<Rightarrow> (direct_failure, direct_response) result \<times> direct_request list" where
  "direct_send env c n v s streaming =
     (case dt_random env n of
        None \<Rightarrow> (Err DRandom, [])
      | Some random \<Rightarrow>
          if \<not> dt_header env (''Bearer '' @ access_token s)
          then (Err (DConfiguration ''access token could not be encoded as a header''), [])
          else if \<not> dt_header env (account_id_str (account_id s))
          then (Err (DConfiguration ''account identifier could not be encoded as a header''), [])
          else let q = sealed_request c (dt_base64url env random) v s streaming
               in (map_err DHttp (dt_post env n q), [q]))"

text \<open>The request, and its one retry with a refreshed session when it is refused.\<close>

definition authorized_send ::
    "('r, 'e) direct_env \<Rightarrow> direct_client \<Rightarrow> json \<Rightarrow> bool \<Rightarrow> (direct_failure, direct_response) result \<times> direct_request list" where
  "authorized_send env c v streaming =
     (case validate_body v streaming of
        Err e \<Rightarrow> (Err e, [])
      | Ok _ \<Rightarrow>
          (case dt_session env of
             Err e \<Rightarrow> (Err e, [])
           | Ok s \<Rightarrow>
               (case direct_send env c 0 v s streaming of
                  (Err e, qs) \<Rightarrow> (Err e, qs)
                | (Ok r, qs) \<Rightarrow>
                    if ar_status r \<noteq> 401 then (Ok r, qs)
                    else (case dt_refresh env (generation s) of
                            Err e \<Rightarrow> (Err e, qs)
                          | Ok s' \<Rightarrow> let (r', qs') = direct_send env c 1 v s' streaming in (r', qs @ qs')))))"

section \<open>Errors of the endpoint\<close>

definition sanitize_error_code :: "bytes \<Rightarrow> bytes option" where
  "sanitize_error_code c =
     (if c \<noteq> [] \<and> length c \<le> 64 \<and> list_all (\<lambda>b. is_ascii_alphanumeric b \<or> b = CHR ''_'' \<or> b = CHR ''-'') c
      then Some c else None)"

text \<open>Control characters in UTF-8: the bytes below 0x20, 0x7F, and the pairs from C2 80 to C2 9F.\<close>

fun flatten_control :: "bytes \<Rightarrow> bytes" where
  "flatten_control [] = []"
| "flatten_control [b] = (if code b < 32 \<or> code b = 127 then [CHR '' ''] else [b])"
| "flatten_control (b # b' # bs) =
     (if code b < 32 \<or> code b = 127 then CHR '' '' # flatten_control (b' # bs)
      else if code b = 0xC2 \<and> 0x80 \<le> code b' \<and> code b' \<le> 0x9F then CHR '' '' # flatten_control bs
      else b # flatten_control (b' # bs))"

definition sanitize_error_message :: "bytes \<Rightarrow> bytes option" where
  "sanitize_error_message message =
     (let trimmed = str_trim (flatten_control message)
      in if trimmed = [] then None
         else let sanitized = take_chars MAX_ERROR_MESSAGE_CHARS trimmed
              in Some (if char_count sanitized < char_count trimmed then sanitized @ ''...[truncated]'' else sanitized))"

text \<open>The body of an error is read up to the limit or the first failure.\<close>

fun read_error_body :: "bytes \<Rightarrow> (bytes, bytes) result list \<Rightarrow> bytes" where
  "read_error_body acc [] = acc"
| "read_error_body acc (Inl e # cs) = acc"
| "read_error_body acc (Inr c # cs) =
     (if saturating_add (length acc) (length c) \<le> MAX_ERROR_BYTES then read_error_body (acc @ c) cs else acc)"

definition json_get :: "json \<Rightarrow> bytes \<Rightarrow> json option" where
  "json_get v k = Option.bind (as_object v) (\<lambda>m. map_of m k)"

fun find_map :: "('a \<Rightarrow> 'b option) \<Rightarrow> 'a list \<Rightarrow> 'b option" where
  "find_map f [] = None"
| "find_map f (x # xs) = (case f x of Some y \<Rightarrow> Some y | None \<Rightarrow> find_map f xs)"

definition message_from_error :: "json \<Rightarrow> bytes option" where
  "message_from_error v =
     Option.bind (json_get v ''error'') (\<lambda>error.
       or_else
         (Option.bind (Option.bind (json_get error ''code'') as_str) sanitize_error_code)
         (Option.bind (Option.bind (json_get error ''message'') as_str) sanitize_error_message))"

definition message_from_detail :: "json \<Rightarrow> bytes option" where
  "message_from_detail v =
     (case json_get v ''detail'' of
        Some (JString detail) \<Rightarrow> sanitize_error_message detail
      | Some (JArray items) \<Rightarrow>
          find_map (\<lambda>item. Option.bind (or_else (as_str item) (Option.bind (json_get item ''msg'') as_str)) sanitize_error_message)
            items
      | _ \<Rightarrow> None)"

definition status_error :: "('r, 'e) direct_env \<Rightarrow> 'm auth_response_scheme \<Rightarrow> direct_failure" where
  "status_error env r =
     (let parsed = (case dt_json env (read_error_body [] (ar_chunks r)) of Ok v \<Rightarrow> Some v | Err _ \<Rightarrow> None)
      in DHttpStatus (ar_status r)
           (case or_else (Option.bind parsed message_from_error) (Option.bind parsed message_from_detail) of
              Some m \<Rightarrow> m | None \<Rightarrow> ''request failed''))"

section \<open>The JSON operation\<close>

definition is_redirection :: "'m auth_response_scheme \<Rightarrow> bool" where
  "is_redirection r \<longleftrightarrow> 300 \<le> ar_status r \<and> ar_status r < 400"

definition is_success :: "'m auth_response_scheme \<Rightarrow> bool" where
  "is_success r \<longleftrightarrow> 200 \<le> ar_status r \<and> ar_status r < 300"

definition decode_json_response :: "('r, 'e) direct_env \<Rightarrow> 'm auth_response_scheme \<Rightarrow> (direct_failure, 'r) result" where
  "decode_json_response env r =
     (if is_redirection r then Err DRedirectRejected
      else if \<not> is_success r then Err (status_error env r)
      else if (case ar_content_length r of Some l \<Rightarrow> l > MAX_JSON_RESPONSE_BYTES | None \<Rightarrow> False) then Err DBodyTooLarge
      else res_bind (read_limited_loop MAX_JSON_RESPONSE_BYTES [] (ar_chunks r)) (\<lambda>b. map_err DJson (dt_response env b)))"

definition direct_create ::
    "('r, 'e) direct_env \<Rightarrow> direct_client \<Rightarrow> json \<Rightarrow> (direct_failure, 'r) result \<times> direct_request list" where
  "direct_create env c v =
     (let (r, qs) = authorized_send env c v False in (res_bind r (decode_json_response env), qs))"

section \<open>The stream\<close>

text \<open>\<^verbatim>\<open>{:?}\<close> on printable ASCII text.\<close>

definition debug_text :: "bytes \<Rightarrow> bytes" where
  "debug_text s =
     [CHR 0x22] @ concat (map (\<lambda>b. if b = CHR 0x22 \<or> b = CHR 0x5C then [CHR 0x5C, b] else [b]) s) @ [CHR 0x22]"

fun check_content_types :: "('r, 'e) direct_env \<Rightarrow> bytes list \<Rightarrow> (direct_failure, unit) result" where
  "check_content_types env [] = Ok ()"
| "check_content_types env (value # vs) =
     (case dt_header_text env value of
        None \<Rightarrow> Err (DSse ''response content type was not valid ASCII'')
      | Some content_type \<Rightarrow>
          if to_ascii_lowercase (str_trim (hd (split_on (CHR '';'') content_type))) = ''text/event-stream''
          then check_content_types env vs
          else Err (DSse (''response content type was '' @
                 debug_text (case sanitize_error_message content_type of Some m \<Rightarrow> m | None \<Rightarrow> ''<empty>'')
                 @ '', expected text/event-stream'')))"

text \<open>
  The channel to the caller: what it has taken, in order, and how many more items it will take before it drops the stream
  (\<open>None\<close>: it never does).
\<close>

record 'e channel =
  ch_items :: "(direct_failure, 'e) result list"
  ch_room :: "nat option"

definition channel_send :: "(direct_failure, 'e) result \<Rightarrow> 'e channel \<Rightarrow> bool \<times> 'e channel" where
  "channel_send x ch =
     (case ch_room ch of
        Some 0 \<Rightarrow> (False, ch)
      | Some (Suc n) \<Rightarrow> (True, ch\<lparr>ch_items := ch_items ch @ [x], ch_room := Some n\<rparr>)
      | None \<Rightarrow> (True, ch\<lparr>ch_items := ch_items ch @ [x]\<rparr>))"

fun dispatch_sse_items :: "(bytes \<Rightarrow> (bytes, 'e) result) \<Rightarrow> sse_item list \<Rightarrow> 'e channel \<Rightarrow> bool \<times> 'e channel" where
  "dispatch_sse_items event [] ch = (False, ch)"
| "dispatch_sse_items event (Done # xs) ch = (True, ch)"
| "dispatch_sse_items event (Data d # xs) ch =
     (case event d of
        Err e \<Rightarrow> (True, snd (channel_send (Err (DJson e)) ch))
      | Ok ev \<Rightarrow>
          (case channel_send (Ok ev) ch of (sent, ch') \<Rightarrow> if \<not> sent then (True, ch') else dispatch_sse_items event xs ch'))"

fun of_direct :: "direct_error \<Rightarrow> direct_failure" where
  "of_direct (DirectErrorSse m) = DSse m"

text \<open>The spawned task, on the chunks of the body.\<close>

fun stream_task ::
    "(bytes \<Rightarrow> (bytes, 'e) result) \<Rightarrow> bool \<Rightarrow> (bytes, bytes) result list \<Rightarrow> direct_decoder \<Rightarrow> bool \<Rightarrow> 'e channel \<Rightarrow> 'e channel" where
  "stream_task event content_type_missing [] d saw ch =
     (case fst (direct_finish d) of
        Err e \<Rightarrow> snd (channel_send (Err (of_direct e)) ch)
      | Ok items \<Rightarrow>
          let saw' = (saw \<or> items \<noteq> []); (stop, ch') = dispatch_sse_items event items ch
          in if stop then ch'
             else if content_type_missing \<and> \<not> saw'
             then snd (channel_send (Err (DSse ''response body did not contain SSE events'')) ch')
             else ch')"
| "stream_task event content_type_missing (Inl e # cs) d saw ch = snd (channel_send (Err (DHttp e)) ch)"
| "stream_task event content_type_missing (Inr chunk # cs) d saw ch =
     (case direct_feed chunk d of
        (Err e, d') \<Rightarrow> snd (channel_send (Err (of_direct e)) ch)
      | (Ok items, d') \<Rightarrow>
          let (stop, ch') = dispatch_sse_items event items ch
          in if stop then ch' else stream_task event content_type_missing cs d' (saw \<or> items \<noteq> []) ch')"

definition channel_new :: "nat option \<Rightarrow> 'e channel" where
  "channel_new room = \<lparr>ch_items = [], ch_room = room\<rparr>"

text \<open>\<^verbatim>\<open>stream\<close>, with a caller that takes as many items as \<open>room\<close> says: what the caller gets.\<close>

definition direct_stream ::
    "('r, 'e) direct_env \<Rightarrow> direct_client \<Rightarrow> json \<Rightarrow> nat option
       \<Rightarrow> (direct_failure, (direct_failure, 'e) result list) result \<times> direct_request list" where
  "direct_stream env c v room =
     (case authorized_send env c v True of
        (Err e, qs) \<Rightarrow> (Err e, qs)
      | (Ok r, qs) \<Rightarrow>
          if is_redirection r then (Err DRedirectRejected, qs)
          else if \<not> is_success r then (Err (status_error env r), qs)
          else
            (res_bind (check_content_types env (dr_content_types r)) (\<lambda>_.
               Ok (ch_items (stream_task (dt_event env) (dr_content_types r = []) (ar_chunks r)
                     (direct_new (dc_max_sse_line_bytes c) (dc_max_sse_event_bytes c)) False (channel_new room)))), qs))"

end
