(* ===== verification/Token_Manager_Safety.thy ===== *)
theory Token_Manager_Safety
  imports Token_Manager
begin

text \<open>
  What the token manager guarantees in every interleaving: one refresh at a time, each session refreshed once and in the
  order of the generations, and no call answered with the session that was refused.
\<close>

section \<open>The gate\<close>

definition gate_inv :: "token_manager \<Rightarrow> bool" where
  "gate_inv m \<longleftrightarrow> (\<forall>i. holds_gate (tm_calls m i) \<longleftrightarrow> tm_gate m = Some i)"

lemma set_call_simps [simp]:
  "tm_cached (set_call i p m) = tm_cached m" "tm_store (set_call i p m) = tm_store m" "tm_gate (set_call i p m) = tm_gate m"
  "tm_refreshed (set_call i p m) = tm_refreshed m" "tm_lost (set_call i p m) = tm_lost m"
  "tm_calls (set_call i p m) = (tm_calls m)(i := p)"
  by (simp_all add: set_call_def)

lemma answer_simps [simp]:
  "tm_cached (answer i k r m) = tm_cached m" "tm_store (answer i k r m) = tm_store m" "tm_gate (answer i k r m) = None"
  "tm_refreshed (answer i k r m) = tm_refreshed m" "tm_lost (answer i k r m) = tm_lost m"
  "tm_calls (answer i k r m) = (tm_calls m)(i := Answered k r)"
  by (simp_all add: answer_def)

lemma gate_keep: "gate_inv m \<Longrightarrow> holds_gate p = holds_gate (tm_calls m i) \<Longrightarrow> gate_inv (set_call i p m)"
  by (auto simp: gate_inv_def set_call_def)

lemma gate_release: "gate_inv m \<Longrightarrow> holds_gate (tm_calls m i) \<Longrightarrow> \<not> holds_gate p \<Longrightarrow> gate_inv (set_call i p (m\<lparr>tm_gate := None\<rparr>))"
  by (auto simp: gate_inv_def set_call_def)

lemma gate_take: "gate_inv m \<Longrightarrow> tm_gate m = None \<Longrightarrow> holds_gate p \<Longrightarrow> gate_inv (set_call i p (m\<lparr>tm_gate := Some i\<rparr>))"
  by (auto simp: gate_inv_def set_call_def)

lemma gate_irrelevant [simp]:
  "gate_inv (m\<lparr>tm_cached := x1\<rparr>) = gate_inv m" "gate_inv (m\<lparr>tm_store := x2\<rparr>) = gate_inv m"
  "gate_inv (m\<lparr>tm_refreshed := x3\<rparr>) = gate_inv m" "gate_inv (m\<lparr>tm_lost := x4\<rparr>) = gate_inv m"
  by (simp_all add: gate_inv_def)

lemma gate_answer: "gate_inv m \<Longrightarrow> holds_gate (tm_calls m i) \<Longrightarrow> gate_inv (answer i k r m)"
  by (simp add: answer_def gate_release)

lemma gate_drop: "gate_inv m \<Longrightarrow> gate_inv (drop_call i m)"
  by (auto simp: gate_inv_def drop_call_def set_call_def)

lemmas gate_intros = gate_keep gate_answer gate_take gate_drop

lemma gate_inv_step:
  assumes "gate_inv m" and "manager_step m m'"
  shows "gate_inv m'"
  using assms(2)
proof (cases rule: manager_step.cases)
  case (look i k)
  then show ?thesis using assms(1)
    by (cases k; cases "tm_cached m") (simp_all add: look_inside_def gate_intros)
next
  case (load i k outcome)
  then show ?thesis using assms(1) by (cases outcome; cases "tm_store m") (simp_all add: load_stored_def gate_intros)
next
  case (endpoint i k s now outcome)
  then show ?thesis using assms(1) by (cases outcome) (simp_all add: endpoint_answers_def gate_intros)
next
  case (save i k s s' outcome)
  then show ?thesis using assms(1) by (cases outcome) (simp_all add: store_answers_def gate_intros)
next
  case (call_session i now)
  then show ?thesis using assms(1) by (cases "tm_cached m") (simp_all add: begin_session_def gate_intros)
qed (use assms(1) in \<open>simp_all add: decide_def write_cache_def gate_intros\<close>)

text \<open>The call inside the gate.\<close>

definition active :: "token_manager \<Rightarrow> call_phase" where
  "active m = (case tm_gate m of Some i \<Rightarrow> tm_calls m i | None \<Rightarrow> NotCalled)"

lemma active_holder:
  assumes "gate_inv m" and "tm_calls m i = p"
  shows "holds_gate p \<Longrightarrow> active m = p \<and> tm_gate m = Some i" and "\<not> holds_gate p \<Longrightarrow> tm_gate m \<noteq> Some i"
  using assms by (auto simp: gate_inv_def active_def)

lemma active_simps [simp]:
  "active (m\<lparr>tm_cached := x1\<rparr>) = active m" "active (m\<lparr>tm_store := x2\<rparr>) = active m"
  "active (m\<lparr>tm_refreshed := x3\<rparr>) = active m" "active (m\<lparr>tm_lost := x4\<rparr>) = active m"
  "active (answer i k r m) = NotCalled"
  by (simp_all add: active_def answer_def set_call_def split: option.split)

lemma active_set_call: "active (set_call i p m) = (if tm_gate m = Some i then p else active m)"
  by (simp add: active_def set_call_def split: option.split)

lemma active_drop: "gate_inv m \<Longrightarrow> active (drop_call i m) = (if tm_gate m = Some i then NotCalled else active m)"
  by (auto simp: active_def drop_call_def set_call_def gate_inv_def split: option.split)

section \<open>Sessions\<close>

fun refused :: "call_kind \<Rightarrow> stored_session \<Rightarrow> bool" where
  "refused ForSession s = False"
| "refused (AfterUnauthorized g) s = (generation s = g)"

text \<open>
  The session in hand is the stored one; one that is about to be refreshed for a refusal is the refused one; one that is
  about to be returned is not.
\<close>

fun phase_ok :: "stored_session option \<Rightarrow> call_phase \<Rightarrow> bool" where
  "phase_ok st (Current k s) = (st = Some s)"
| "phase_ok st (Refreshing k s) = (st = Some s \<and> (k = ForSession \<or> refused k s))"
| "phase_ok st (Storing k s s') = (st = Some s \<and> generation s' = generation s + 1 \<and> (k = ForSession \<or> refused k s))"
| "phase_ok st (Caching k s) = (st = Some s \<and> \<not> refused k s)"
| "phase_ok st _ = True"

fun is_storing :: "call_phase \<Rightarrow> bool" where
  "is_storing (Storing k s s') = True"
| "is_storing _ = False"

fun is_caching :: "call_phase \<Rightarrow> bool" where
  "is_caching (Caching k s) = True"
| "is_caching _ = False"

definition sessions_ok :: "nat \<Rightarrow> token_manager \<Rightarrow> bool" where
  "sessions_ok g0 m \<longleftrightarrow>
     map generation (tm_refreshed m) = [g0..<g0 + length (tm_refreshed m)]
     \<and> (\<exists>s. tm_store m = Some s \<and> generation s + (if is_storing (active m) then 1 else 0) = g0 + length (tm_refreshed m))
     \<and> phase_ok (tm_store m) (active m)
     \<and> (tm_cached m = None \<or> tm_cached m = tm_store m \<or> is_caching (active m))"

definition answers_ok :: "token_manager \<Rightarrow> bool" where
  "answers_ok m \<longleftrightarrow> (\<forall>i k s. tm_calls m i = Answered k (Ok s) \<longrightarrow> \<not> refused k s)"

definition untroubled :: "nat \<Rightarrow> token_manager \<Rightarrow> bool" where
  "untroubled g0 m \<longleftrightarrow> \<not> tm_lost m \<and> g0 + length (tm_refreshed m) < USIZE_MAX"

lemma drop_call_simps [simp]:
  "tm_cached (drop_call i m) = tm_cached m" "tm_store (drop_call i m) = tm_store m" "tm_refreshed (drop_call i m) = tm_refreshed m"
  "tm_calls (drop_call i m) = (tm_calls m)(i := DroppedCall)"
  by (simp_all add: drop_call_def)

lemma untroubled_back: "manager_step m m' \<Longrightarrow> untroubled g0 m' \<Longrightarrow> untroubled g0 m"
proof (erule manager_step.cases)
  fix n i k outcome
  assume "untroubled g0 m'" "m = n" "m' = look_inside i k n"
  then show "untroubled g0 m"
    by (cases k; cases "tm_cached n") (auto simp: untroubled_def look_inside_def split: if_splits)
qed (auto simp: untroubled_def begin_session_def load_stored_def decide_def endpoint_answers_def store_answers_def write_cache_def
      drop_call_def split: option.splits sum.splits if_splits)

lemma answers_ok_set: "answers_ok m \<Longrightarrow> (\<And>k s. p = Answered k (Ok s) \<Longrightarrow> \<not> refused k s) \<Longrightarrow> tm_calls m' = (tm_calls m)(i := p) \<Longrightarrow> answers_ok m'"
  by (auto simp: answers_ok_def)

text \<open>The steps of the call inside the gate.\<close>

lemma look_ok:
  assumes "sessions_ok g0 m" and "active m = Inside k" and "tm_gate m = Some i"
  shows "sessions_ok g0 (look_inside i k m)"
  using assms
  by (cases k; cases "tm_cached m") (auto simp: sessions_ok_def look_inside_def active_set_call split: if_splits)

lemma load_ok:
  assumes "sessions_ok g0 m" and "active m = Loading k" and "tm_gate m = Some i"
  shows "sessions_ok g0 (load_stored i k outcome m)"
  using assms by (cases outcome; cases "tm_store m") (auto simp: sessions_ok_def load_stored_def active_set_call)

lemma decide_ok:
  assumes "sessions_ok g0 m" and "active m = Current k s" and "tm_gate m = Some i"
  shows "sessions_ok g0 (decide i k s now m)"
  using assms by (cases k) (auto simp: sessions_ok_def decide_def active_set_call)

lemma endpoint_ok:
  assumes "sessions_ok g0 m" and "active m = Refreshing k s" and "tm_gate m = Some i"
    and "untroubled g0 (endpoint_answers i k s now outcome m)"
  shows "sessions_ok g0 (endpoint_answers i k s now outcome m)"
proof (cases outcome)
  case (Inl e)
  with assms show ?thesis by (auto simp: sessions_ok_def endpoint_answers_def)
next
  case (Inr r)
  have s: "tm_store m = Some s" "generation s = g0 + length (tm_refreshed m)" using assms(1,2) by (auto simp: sessions_ok_def)
  have "generation (refreshed_session now r s) = generation s + 1"
    using assms(4) Inr s(2) by (simp add: untroubled_def endpoint_answers_def refreshed_session_def saturating_add_def)
  then show ?thesis using assms(1-3) Inr s
    by (auto simp: sessions_ok_def endpoint_answers_def active_set_call)
qed

lemma store_ok:
  assumes "sessions_ok g0 m" and "active m = Storing k s s'" and "tm_gate m = Some i" and "\<not> tm_lost (store_answers i k s' outcome m)"
  shows "sessions_ok g0 (store_answers i k s' outcome m)"
  using assms by (cases outcome; cases k) (auto simp: sessions_ok_def store_answers_def active_set_call)

lemma cache_ok:
  assumes "sessions_ok g0 m" and "active m = Caching k s"
  shows "sessions_ok g0 (write_cache i k s m)"
  using assms by (auto simp: sessions_ok_def write_cache_def)

lemma drop_ok:
  assumes "sessions_ok g0 m" and "gate_inv m" and "\<not> tm_lost (drop_call i m)"
  shows "sessions_ok g0 (drop_call i m)"
proof (cases "tm_gate m = Some i")
  case True
  then have "active m = tm_calls m i" by (simp add: active_def)
  moreover have "\<not> is_storing (tm_calls m i)" "\<not> is_caching (tm_calls m i)"
    using assms(3) by (cases "tm_calls m i"; simp add: drop_call_def)+
  ultimately show ?thesis using assms(1,2) True by (auto simp: sessions_ok_def active_drop)
next
  case False
  with assms(1,2) show ?thesis by (simp add: sessions_ok_def active_drop)
qed

lemma sessions_ok_other:
  assumes "sessions_ok g0 m" and "tm_gate m \<noteq> Some i"
  shows "sessions_ok g0 (set_call i p m)"
  using assms by (simp add: sessions_ok_def active_set_call)

lemma sessions_ok_step:
  assumes "sessions_ok g0 m" and "gate_inv m" and "manager_step m m'" and "untroubled g0 m'"
  shows "sessions_ok g0 m'"
  using assms(3)
proof (cases rule: manager_step.cases)
  case (call_session i now)
  then have "tm_gate m \<noteq> Some i" using active_holder(2) [OF assms(2)] by simp
  then show ?thesis using call_session assms(1) by (auto simp: begin_session_def sessions_ok_other split: option.split)
next
  case (call_unauthorized i g)
  then show ?thesis using active_holder(2) [OF assms(2)] assms(1) by (simp add: sessions_ok_other)
next
  case (take_gate i k)
  then have "active m = NotCalled" "active m' = Inside k" by (simp_all add: active_def set_call_def)
  then show ?thesis using take_gate assms(1) by (simp add: sessions_ok_def)
next
  case (look i k)
  then show ?thesis using active_holder(1) [OF assms(2) look(2)] look_ok [OF assms(1)] by simp
next
  case (load i k outcome)
  then show ?thesis using active_holder(1) [OF assms(2) load(2)] load_ok [OF assms(1)] by simp
next
  case (choose i k s now)
  then show ?thesis using active_holder(1) [OF assms(2) choose(2)] decide_ok [OF assms(1)] by simp
next
  case (endpoint i k s now outcome)
  then show ?thesis using active_holder(1) [OF assms(2) endpoint(2)] endpoint_ok [OF assms(1)] assms(4) by simp
next
  case (save i k s s' outcome)
  then show ?thesis using active_holder(1) [OF assms(2) save(2)] store_ok [OF assms(1)] assms(4) by (simp add: untroubled_def)
next
  case (cache i k s)
  then show ?thesis using active_holder(1) [OF assms(2) cache(2)] cache_ok [OF assms(1)] by simp
next
  case (clock_failed i)
  then show ?thesis using active_holder(2) [OF assms(2)] assms(1) by (simp add: sessions_ok_other)
next
  case (clock_failed_inside i)
  then show ?thesis using active_holder(1) [OF assms(2) clock_failed_inside(2)] assms(1) by (auto simp: sessions_ok_def)
next
  case (clock_failed_refresh i k s)
  then show ?thesis using assms(4) by (simp add: untroubled_def)
next
  case (drop i)
  then show ?thesis using drop_ok [OF assms(1,2)] assms(4) by (simp add: untroubled_def)
qed

lemma answers_ok_step:
  assumes "answers_ok m" and "sessions_ok g0 m" and "gate_inv m" and "manager_step m m'"
  shows "answers_ok m'"
  using assms(4)
proof (cases rule: manager_step.cases)
  case (look i k)
  then show ?thesis using assms(1) by (cases k; cases "tm_cached m") (auto simp: look_inside_def answers_ok_def split: if_splits)
next
  case (cache i k s)
  then have "active m = Caching k s" using active_holder(1) [OF assms(3) cache(2)] by simp
  then have "\<not> refused k s" using assms(2) by (simp add: sessions_ok_def)
  with cache show ?thesis using assms(1) by (auto simp: write_cache_def answers_ok_def)
qed (use assms(1) in \<open>auto simp: answers_ok_def begin_session_def load_stored_def decide_def endpoint_answers_def store_answers_def
      split: option.splits sum.splits if_splits\<close>)

definition manager_inv :: "nat \<Rightarrow> token_manager \<Rightarrow> bool" where
  "manager_inv g0 m \<longleftrightarrow> gate_inv m \<and> (untroubled g0 m \<longrightarrow> sessions_ok g0 m \<and> answers_ok m)"

interpretation tokens: machine_invariant "token_manager_new (Some s0)" manager_step "manager_inv (generation s0)" for s0
proof
  show "manager_inv (generation s0) (token_manager_new (Some s0))"
    by (simp add: manager_inv_def gate_inv_def sessions_ok_def answers_ok_def active_def token_manager_new_def)
  show "manager_inv (generation s0) m'" if "manager_inv (generation s0) m" "manager_step m m'" for m m'
    using that gate_inv_step sessions_ok_step answers_ok_step untroubled_back unfolding manager_inv_def by blast
qed

section \<open>Runs\<close>

abbreviation manager_run :: "stored_session \<Rightarrow> token_manager \<Rightarrow> bool" where
  "manager_run s0 m \<equiv> reach (token_manager_new (Some s0)) manager_step m"

text \<open>A session that expires at 1000, cached by call 0.\<close>

definition old_session :: stored_session where
  "old_session = \<lparr>access_token = ''a0'', refresh_token = ''r0'', expires_at = 1000, account_id = ChatGptAccountId ''acct-1'', generation = 0\<rparr>"

definition new_tokens :: refresh_response where
  "new_tokens = \<lparr>rr_access_token = ''a1'', rr_refresh_token = Some ''r1'', rr_expires_in = None\<rparr>"

definition new_session :: stored_session where
  "new_session = refreshed_session 950 new_tokens old_session"

definition cached_state :: token_manager where
  "cached_state = \<lparr>tm_cached = Some old_session, tm_store = Some old_session, tm_gate = None,
     tm_calls = (\<lambda>_. NotCalled)(0 := Answered ForSession (Ok old_session)), tm_refreshed = [], tm_lost = False\<rparr>"

lemma cached_state_run: "manager_run old_session cached_state"
proof -
  let ?m0 = "token_manager_new (Some old_session)"
  let ?m1 = "begin_session 0 0 ?m0" let ?m2 = "set_call 0 (Inside ForSession) (?m1\<lparr>tm_gate := Some 0\<rparr>)"
  let ?m3 = "look_inside 0 ForSession ?m2" let ?m4 = "load_stored 0 ForSession (Ok ()) ?m3"
  let ?m5 = "decide 0 ForSession old_session 0 ?m4"
  have "manager_run old_session ?m1"
    by (rule reach_step [OF reach_init]) (rule manager_step.call_session, simp add: token_manager_new_def)
  then have "manager_run old_session ?m2"
    by (rule reach_step) (rule manager_step.take_gate, simp_all add: begin_session_def token_manager_new_def)
  then have "manager_run old_session ?m3" by (rule reach_step) (rule manager_step.look, simp)
  then have "manager_run old_session ?m4"
    by (rule reach_step) (rule manager_step.load, simp add: look_inside_def begin_session_def token_manager_new_def)
  then have "manager_run old_session ?m5"
    by (rule reach_step) (rule manager_step.choose, simp add: load_stored_def look_inside_def begin_session_def token_manager_new_def)
  then have "manager_run old_session (write_cache 0 ForSession old_session ?m5)"
    by (rule reach_step) (rule manager_step.cache, simp add: decide_def usable_def saturating_add_def USIZE_MAX_def REFRESH_SKEW_def
      old_session_def)
  moreover have "write_cache 0 ForSession old_session ?m5 = cached_state"
    by (simp add: write_cache_def answer_def set_call_def decide_def usable_def saturating_add_def USIZE_MAX_def REFRESH_SKEW_def
        load_stored_def look_inside_def begin_session_def token_manager_new_def cached_state_def old_session_def)
  ultimately show ?thesis by simp
qed

text \<open>A call that finds the cached session used up and gets it refreshed.\<close>

definition refreshing_call :: "nat \<Rightarrow> token_manager \<Rightarrow> token_manager" where
  "refreshing_call i m =
     endpoint_answers i ForSession old_session 950 (Ok new_tokens)
       (decide i ForSession old_session 950
          (look_inside i ForSession (set_call i (Inside ForSession) ((begin_session i 950 m)\<lparr>tm_gate := Some i\<rparr>))))"

lemma not_usable: "\<not> usable 950 old_session"
  by (simp add: usable_def saturating_add_def USIZE_MAX_def REFRESH_SKEW_def old_session_def)

lemma refreshing_call_run:
  assumes "manager_run old_session m" and "tm_calls m i = NotCalled" and "tm_cached m = Some old_session" and "tm_gate m = None"
  shows "manager_run old_session (refreshing_call i m)"
proof -
  let ?m1 = "begin_session i 950 m" let ?m2 = "set_call i (Inside ForSession) (?m1\<lparr>tm_gate := Some i\<rparr>)"
  let ?m3 = "look_inside i ForSession ?m2" let ?m4 = "decide i ForSession old_session 950 ?m3"
  have b: "?m1 = set_call i (AtGate ForSession) m" using assms(3) not_usable by (simp add: begin_session_def)
  have "manager_run old_session ?m1" by (rule reach_step [OF assms(1)]) (rule manager_step.call_session, rule assms(2))
  then have "manager_run old_session ?m2" by (rule reach_step) (rule manager_step.take_gate, simp_all add: b assms(4))
  then have "manager_run old_session ?m3" by (rule reach_step) (rule manager_step.look, simp)
  then have "manager_run old_session ?m4" by (rule reach_step) (rule manager_step.choose, simp add: look_inside_def b assms(3))
  then show ?thesis unfolding refreshing_call_def
    by (rule reach_step) (rule manager_step.endpoint, simp add: decide_def not_usable)
qed

lemma refreshing_call_eq:
  assumes "tm_cached m = Some old_session" and "tm_gate m = None"
  shows "refreshing_call i m = m\<lparr>tm_gate := Some i, tm_calls := (tm_calls m)(i := Storing ForSession old_session new_session),
    tm_refreshed := tm_refreshed m @ [old_session]\<rparr>"
  using assms not_usable
  by (simp add: refreshing_call_def endpoint_answers_def decide_def look_inside_def begin_session_def set_call_def new_session_def)

section \<open>Properties\<close>

text \<open>
  C23: Refreshes are serialized and never repeated. While no refreshed session is lost (the clock or the store failed, or the call was dropped), the
  refreshes are those of the generations one after the other, each once, whatever the calls and their
  interleaving; and a call made because a session was refused is never answered with that session.
\<close>

theorem refresh_once_in_order:
  assumes "manager_run s0 m" and "\<not> tm_lost m" and "generation s0 + length (tm_refreshed m) < USIZE_MAX"
  shows "map generation (tm_refreshed m) = [generation s0..<generation s0 + length (tm_refreshed m)]
    \<and> (\<forall>i g s. tm_calls m i = Answered (AfterUnauthorized g) (Ok s) \<longrightarrow> generation s \<noteq> g)"
proof -
  have "sessions_ok (generation s0) m \<and> answers_ok m"
    using tokens.reach_inv [OF assms(1)] assms(2,3) by (simp add: manager_inv_def untroubled_def)
  then show ?thesis unfolding sessions_ok_def answers_ok_def by (metis refused.simps(2))
qed

theorem refresh_once_in_order_witness:
  "map generation (tm_refreshed (refreshing_call 2 cached_state)) = [0]"
proof -
  have run: "manager_run old_session (refreshing_call 2 cached_state)"
    by (rule refreshing_call_run [OF cached_state_run]) (simp_all add: cached_state_def)
  have eq: "tm_refreshed (refreshing_call 2 cached_state) = [old_session]" "\<not> tm_lost (refreshing_call 2 cached_state)"
    by (simp_all add: refreshing_call_eq cached_state_def)
  have "generation old_session + length (tm_refreshed (refreshing_call 2 cached_state)) < USIZE_MAX"
    by (simp add: eq old_session_def USIZE_MAX_def)
  with refresh_once_in_order [OF run] eq show ?thesis by (simp add: old_session_def)
qed

text \<open>At most one call at a time is between the gate and its answer, so at most one refresh is in flight, even if calls are dropped.\<close>

theorem refresh_single_flight:
  assumes "manager_run s0 m" and "holds_gate (tm_calls m i)" and "holds_gate (tm_calls m j)"
  shows "i = j"
  using tokens.reach_inv [OF assms(1)] assms(2,3) by (auto simp: manager_inv_def gate_inv_def)

theorem refresh_single_flight_witness: "\<not> holds_gate (tm_calls (refreshing_call 2 cached_state) 3)"
proof -
  have run: "manager_run old_session (refreshing_call 2 cached_state)"
    by (rule refreshing_call_run [OF cached_state_run]) (simp_all add: cached_state_def)
  have "holds_gate (tm_calls (refreshing_call 2 cached_state) 2)" by (simp add: refreshing_call_eq cached_state_def)
  with refresh_single_flight [OF run, of 2 3] show ?thesis by auto
qed

text \<open>
  A call dropped after the store has the refreshed session, but before the cache does, makes the manager refresh the old one
  again: the cache is preferred to the newer store, and a refresh token that was already exchanged is sent once more.
\<close>

theorem stale_cache_refreshed_again:
  "\<exists>m. manager_run old_session m \<and> tm_store m = Some new_session \<and> tm_refreshed m = [old_session, old_session]"
proof -
  let ?m1 = "refreshing_call 2 cached_state" let ?m2 = "store_answers 2 ForSession new_session (Ok ()) ?m1"
  let ?m3 = "drop_call 2 ?m2"
  have eq: "?m1 = cached_state\<lparr>tm_gate := Some 2, tm_calls := (tm_calls cached_state)(2 := Storing ForSession old_session new_session),
      tm_refreshed := [old_session]\<rparr>" by (simp add: refreshing_call_eq cached_state_def)
  have "manager_run old_session ?m1" by (rule refreshing_call_run [OF cached_state_run]) (simp_all add: cached_state_def)
  then have "manager_run old_session ?m2" by (rule reach_step) (rule manager_step.save, simp add: eq)
  then have r3: "manager_run old_session ?m3" by (rule reach_step) (rule manager_step.drop, simp_all add: store_answers_def)
  have e3: "tm_cached ?m3 = Some old_session" "tm_gate ?m3 = None" "tm_store ?m3 = Some new_session" "tm_refreshed ?m3 = [old_session]"
      "tm_calls ?m3 3 = NotCalled"
    unfolding drop_call_def store_answers_def eq by (simp_all add: cached_state_def)
  have "manager_run old_session (refreshing_call 3 ?m3)" by (rule refreshing_call_run [OF r3]) (simp_all only: e3)
  moreover have "tm_store (refreshing_call 3 ?m3) = Some new_session" "tm_refreshed (refreshing_call 3 ?m3) = [old_session, old_session]"
    using e3 by (simp_all add: refreshing_call_eq)
  ultimately show ?thesis by blast
qed

end
