(* ===== verification/Direct_Transport_Correctness.thy ===== *)
theory Direct_Transport_Correctness
  imports Direct_Transport Token_Manager_Safety
begin

text \<open>
  What the direct Codex transport promises: the requests it sends and its one retry, together with the token manager; the
  bound on what an error shows of the server's text; and the events a stream delivers, together with the SSE decoder.
\<close>

section \<open>Requests\<close>

lemma validate_body_Ok:
  assumes "validate_body v streaming = Ok ()"
  shows "\<exists>m. as_object v = Some m \<and> map_of m ''max_output_tokens'' = None \<and> map_of m ''background'' \<noteq> Some (JBool True)
    \<and> (map_of m ''stream'' = Some (JBool True) \<longleftrightarrow> streaming)"
  using assms by (auto simp: validate_body_def res_bind_Ok_iff ok_or_Ok_iff contains_key_def split: if_splits)

lemma sealed_request_simps [simp]:
  "dq_url (sealed_request c sid v s streaming) = CODEX_RESPONSES_ENDPOINT"
  "dq_json (sealed_request c sid v s streaming) = v"
  "dq_timeout (sealed_request c sid v s streaming) = (if streaming then None else Some (dc_request_timeout c))"
  "dq_authorization (sealed_request c sid v s streaming) = ''Bearer '' @ access_token s"
  by (simp_all add: sealed_request_def)

lemma direct_send_requests:
  assumes "direct_send env c n v s streaming = (r, qs)"
  shows "qs = [] \<and> \<not> is_ok r \<or> (\<exists>sid. qs = [sealed_request c sid v s streaming] \<and> r = map_err DHttp (dt_post env n (hd qs)))"
  using assms by (auto simp: direct_send_def Let_def split: option.splits if_splits)

text \<open>
  The call and its retry: either the first answer is returned, or it was a 401 and the session the manager gives for the
  refused one is tried, once.
\<close>

lemma authorized_send_cases:
  assumes "authorized_send env c v streaming = (r, qs)"
  shows "qs = [] \<and> \<not> is_ok r
    \<or> (\<exists>s sid. validate_body v streaming = Ok () \<and> dt_session env = Ok s
        \<and> (qs = [sealed_request c sid v s streaming]
           \<or> (\<exists>r0 s' sid'. qs = [sealed_request c sid v s streaming, sealed_request c sid' v s' streaming]
               \<and> dt_post env 0 (hd qs) = Ok r0 \<and> ar_status r0 = 401 \<and> dt_refresh env (generation s) = Ok s')))"
proof (cases "validate_body v streaming")
  case valid: (Inr u)
  show ?thesis
  proof (cases "dt_session env")
    case session: (Inr s)
    obtain r1 q1 where send: "direct_send env c 0 v s streaming = (r1, q1)" by fastforce
    note first = direct_send_requests [OF send]
    show ?thesis
    proof (cases r1)
      case (Inl e)
      then show ?thesis using assms valid session send first by (auto simp: authorized_send_def)
    next
      case (Inr r0)
      with first obtain sid where q1: "q1 = [sealed_request c sid v s streaming]" "dt_post env 0 (hd q1) = Ok r0"
        by (auto simp: map_err_Ok_iff eq_commute [of "Ok r0"])
      have branches: "authorized_send env c v streaming =
          (if ar_status r0 \<noteq> 401 then (Ok r0, q1)
           else case dt_refresh env (generation s) of
             Err e \<Rightarrow> (Err e, q1)
           | Ok s' \<Rightarrow> (fst (direct_send env c 1 v s' streaming), q1 @ snd (direct_send env c 1 v s' streaming)))"
        using valid session send Inr by (simp add: authorized_send_def split_def Let_def split: sum.split)
      show ?thesis
      proof (cases "dt_refresh env (generation s)")
        case refresh: (Inr s')
        obtain r2 q2 where "direct_send env c 1 v s' streaming = (r2, q2)" by fastforce
        with direct_send_requests [OF this] branches refresh q1 assms valid session show ?thesis by (auto split: if_splits)
      qed (use branches q1 assms valid session in \<open>auto split: if_splits\<close>)
    qed
  qed (use assms valid in \<open>auto simp: authorized_send_def\<close>)
qed (use assms in \<open>auto simp: authorized_send_def\<close>)

text \<open>
  C22: The direct transport sends at most two requests for a call, both to the fixed endpoint, with the same body, which is an
  object without \<^verbatim>\<open>max_output_tokens\<close> whose \<^verbatim>\<open>stream\<close> flag is that of the call; the timeout is set on non-streaming requests only.
  The second is sent only after a 401 on the first, and with the session that was obtained by refreshing the generation of the
  refused one; that session is of another generation, provided the sessions come from a run of the token manager that lost no refreshed session.
\<close>

theorem direct_retry_once:
  assumes "authorized_send env c v streaming = (r, qs)"
    and "manager_run s0 m" and "\<not> tm_lost m" and "generation s0 + length (tm_refreshed m) < USIZE_MAX"
    and "\<And>g s. dt_refresh env g = Ok s \<Longrightarrow> \<exists>j. tm_calls m j = Answered (AfterUnauthorized g) (Ok s)"
  shows "length qs \<le> 2
    \<and> (\<forall>q\<in>set qs. dq_url q = CODEX_RESPONSES_ENDPOINT \<and> dq_json q = v
        \<and> dq_timeout q = (if streaming then None else Some (dc_request_timeout c))
        \<and> (\<exists>obj. as_object v = Some obj \<and> map_of obj ''max_output_tokens'' = None
              \<and> (map_of obj ''stream'' = Some (JBool True) \<longleftrightarrow> streaming)))
    \<and> (length qs = 2 \<longrightarrow> (\<exists>s s' r0. dt_session env = Ok s \<and> dt_refresh env (generation s) = Ok s' \<and> dt_post env 0 (qs ! 0) = Ok r0 \<and> ar_status r0 = 401
        \<and> dq_authorization (qs ! 0) = ''Bearer '' @ access_token s \<and> dq_authorization (qs ! 1) = ''Bearer '' @ access_token s'
        \<and> generation s' \<noteq> generation s))"
proof -
  have "answers_ok m" using tokens.reach_inv [OF assms(2)] assms(3,4) by (simp add: manager_inv_def untroubled_def)
  then have other: "generation s' \<noteq> g" if "dt_refresh env g = Ok s'" for g s'
    using assms(5) [OF that] by (fastforce simp: answers_ok_def)
  show ?thesis
    using authorized_send_cases [OF assms(1)]
  proof (elim disjE conjE exE)
    fix s sid r0 s' sid'
    assume two: "qs = [sealed_request c sid v s streaming, sealed_request c sid' v s' streaming]"
      and valid: "validate_body v streaming = Ok ()"
      and facts: "dt_session env = Ok s" "dt_post env 0 (hd qs) = Ok r0" "ar_status r0 = 401" "dt_refresh env (generation s) = Ok s'"
    have "\<exists>s s' r0. dt_session env = Ok s \<and> dt_refresh env (generation s) = Ok s' \<and> dt_post env 0 (qs ! 0) = Ok r0 \<and> ar_status r0 = 401
        \<and> dq_authorization (qs ! 0) = ''Bearer '' @ access_token s \<and> dq_authorization (qs ! 1) = ''Bearer '' @ access_token s'
        \<and> generation s' \<noteq> generation s"
      using facts two other [OF facts(4)] by simp
    with two validate_body_Ok [OF valid] show ?thesis by auto
  qed (use validate_body_Ok [of v streaming] in auto)
qed

text \<open>A run in which call 2 refreshed the session, so that call 3, made after a 401 on the old one, gets the new one.\<close>

definition replaced_state :: token_manager where
  "replaced_state =
     \<lparr>tm_cached = Some new_session, tm_store = Some new_session, tm_gate = None,
      tm_calls = (tm_calls cached_state)(2 := Answered ForSession (Ok new_session), 3 := Answered (AfterUnauthorized 0) (Ok new_session)),
      tm_refreshed = [old_session], tm_lost = False\<rparr>"

lemma replaced_state_run: "manager_run old_session replaced_state"
proof -
  let ?m1 = "refreshing_call 2 cached_state" let ?m2 = "store_answers 2 ForSession new_session (Ok ()) ?m1"
  let ?m3 = "write_cache 2 ForSession new_session ?m2" let ?m4 = "set_call 3 (AtGate (AfterUnauthorized 0)) ?m3"
  let ?m5 = "set_call 3 (Inside (AfterUnauthorized 0)) (?m4\<lparr>tm_gate := Some 3\<rparr>)"
  have eq: "?m1 = cached_state\<lparr>tm_gate := Some 2, tm_calls := (tm_calls cached_state)(2 := Storing ForSession old_session new_session),
      tm_refreshed := [old_session]\<rparr>" by (simp add: refreshing_call_eq cached_state_def)
  have "manager_run old_session ?m1" by (rule refreshing_call_run [OF cached_state_run]) (simp_all add: cached_state_def)
  then have "manager_run old_session ?m2" by (rule reach_step) (rule manager_step.save, simp add: eq)
  then have "manager_run old_session ?m3" by (rule reach_step) (rule manager_step.cache, simp add: store_answers_def)
  then have "manager_run old_session ?m4"
    by (rule reach_step) (rule manager_step.call_unauthorized, simp add: write_cache_def answer_def store_answers_def eq,
      simp add: cached_state_def)
  then have "manager_run old_session ?m5"
    by (rule reach_step) (rule manager_step.take_gate, simp, simp add: write_cache_def answer_def)
  then have "manager_run old_session (look_inside 3 (AfterUnauthorized 0) ?m5)" by (rule reach_step) (rule manager_step.look, simp)
  moreover have "look_inside 3 (AfterUnauthorized 0) ?m5 = replaced_state"
    unfolding eq replaced_state_def
    by (simp add: look_inside_def write_cache_def answer_def store_answers_def set_call_def cached_state_def new_session_def
        refreshed_session_def old_session_def saturating_add_def USIZE_MAX_def)
  ultimately show ?thesis by simp
qed

definition plain_response :: "nat \<Rightarrow> bytes list \<Rightarrow> direct_response" where
  "plain_response st cs = \<lparr>ar_status = st, ar_content_length = None, ar_chunks = map Inr cs, dr_content_types = []\<rparr>"

definition demo_env :: "(json, bytes) direct_env" where
  "demo_env =
     \<lparr>dt_random = (\<lambda>n. Some (nat_to_string n)), dt_base64url = (\<lambda>b. b), dt_header = (\<lambda>_. True), dt_header_text = Some,
      dt_post = (\<lambda>n q. Ok (if n = 0 then plain_response 401 [] else plain_response 200 [''data: 1'' @ [LF], [LF] @ ''data: [DONE]'' @ [LF, LF]])),
      dt_session = Ok old_session, dt_refresh = (\<lambda>g. if g = 0 then Ok new_session else Err DReauthenticationRequired),
      dt_json = (\<lambda>_. Err []), dt_response = (\<lambda>_. Err []), dt_event = (\<lambda>d. if d = ''1'' then Ok d else Err d)\<rparr>"

definition demo_body :: json where
  "demo_body = JObject [(''model'', JString ''m''), (''stream'', JBool True)]"

theorem direct_retry_once_witness:
  "map dq_authorization (snd (authorized_send demo_env direct_client_new demo_body True)) = [''Bearer a0'', ''Bearer a1'']
   \<and> map dq_timeout (snd (authorized_send demo_env direct_client_new demo_body True)) = [None, None]"
proof -
  let ?qs = "snd (authorized_send demo_env direct_client_new demo_body True)"
  have run: "authorized_send demo_env direct_client_new demo_body True = (fst (authorized_send demo_env direct_client_new demo_body True), ?qs)"
    by simp
  have answers: "\<exists>j. tm_calls replaced_state j = Answered (AfterUnauthorized g) (Ok s)" if "dt_refresh demo_env g = Ok s" for g s
    using that by (intro exI [of _ 3]) (auto simp: demo_env_def replaced_state_def split: if_splits)
  have auth: "map dq_authorization ?qs = [''Bearer a0'', ''Bearer a1'']" by code_simp
  moreover have "\<not> tm_lost replaced_state" "generation old_session + length (tm_refreshed replaced_state) < USIZE_MAX"
    by (simp_all add: replaced_state_def old_session_def USIZE_MAX_def)
  ultimately have "length ?qs = 2" "\<forall>q\<in>set ?qs. dq_timeout q = None"
    using direct_retry_once [OF run replaced_state_run _ _ answers] by (auto dest: arg_cong [where f = length])
  then have "map dq_timeout ?qs = [None, None]" by (auto simp: length_Suc_conv numeral_2_eq_2)
  with auth show ?thesis by blast
qed

section \<open>Errors\<close>

text \<open>Text fit for a one-line display: no control character, and bounded.\<close>

fun displayable :: "bytes \<Rightarrow> bool" where
  "displayable [] \<longleftrightarrow> True"
| "displayable (b # s) \<longleftrightarrow> 32 \<le> code b \<and> code b \<noteq> 127
     \<and> \<not> (code b = 0xC2 \<and> s \<noteq> [] \<and> 0x80 \<le> code (hd s) \<and> code (hd s) \<le> 0x9F) \<and> displayable s"

lemma displayable_append: "displayable (s @ t) \<Longrightarrow> displayable s \<and> displayable t"
  by (induction s) (auto simp: hd_append)

lemma displayable_prefix: "displayable s \<Longrightarrow> prefix p s \<Longrightarrow> displayable p"
  by (auto simp: prefix_def dest: displayable_append)

lemma displayable_drop: "displayable s \<Longrightarrow> displayable (drop n s)"
  using displayable_append [of "take n s" "drop n s"] by simp

lemma displayable_take: "displayable s \<Longrightarrow> displayable (take n s)"
  using displayable_append [of "take n s" "drop n s"] by simp

lemma displayable_join: "displayable s \<Longrightarrow> displayable t \<Longrightarrow> code (hd t) < 0x80 \<Longrightarrow> displayable (s @ t)"
  by (induction s) (auto simp: hd_append)

lemma hd_flatten_control: "flatten_control (b # bs) = c # cs \<Longrightarrow> c = b \<or> c = CHR '' ''"
  by (cases bs) (auto split: if_splits)

lemma code_blank: "code (CHR '' '') = 32"
  by (simp add: code_def)

lemma displayable_flatten: "displayable (flatten_control s)"
proof (induction s rule: flatten_control.induct)
  case (3 b b' bs)
  have next_byte: "hd (flatten_control (b' # bs)) \<in> {b', CHR '' ''}" if "flatten_control (b' # bs) \<noteq> []"
    using that hd_flatten_control [of b' bs] by (cases "flatten_control (b' # bs)") auto
  show ?case
  proof (cases "code b < 32 \<or> code b = 127")
    case True
    with 3(1) show ?thesis by (simp add: code_blank)
  next
    case no_control: False
    show ?thesis
    proof (cases "code b = 0xC2 \<and> 0x80 \<le> code b' \<and> code b' \<le> 0x9F")
      case True
      with no_control 3(2) show ?thesis by (simp add: code_blank)
    next
      case False
      with no_control 3(3) next_byte show ?thesis by (auto simp: code_blank)
    qed
  qed
qed (auto simp: code_blank)

lemma displayable_trim: "displayable s \<Longrightarrow> displayable (str_trim s)"
proof -
  have "displayable s \<Longrightarrow> displayable (trim_start s)" for s
    by (induction s rule: trim_start.induct) (subst trim_start.simps, auto split: option.splits intro: displayable_drop)
  moreover have "displayable s \<Longrightarrow> displayable (trim_end s)" for s
    by (induction s rule: trim_end.induct) (subst trim_end.simps, auto split: option.splits intro: displayable_take)
  ultimately show "displayable s \<Longrightarrow> displayable (str_trim s)" by (simp add: str_trim_def)
qed

lemma take_chars_bounds: "prefix (take_chars n s) s \<and> length (take_chars n s) \<le> 4 * n \<and> (0 < n \<and> s \<noteq> [] \<longrightarrow> take_chars n s \<noteq> [])"
proof (induction n arbitrary: s)
  case 0
  then show ?case by (cases s) (simp_all add: take_chars.simps)
next
  case (Suc n)
  show ?case
  proof (cases s)
    case (Cons b bs)
    define w where "w = max 1 (utf8_char_width (code b))"
    have w: "1 \<le> w" "w \<le> 4" by (auto simp: w_def utf8_char_width_def)
    have eq: "take_chars (Suc n) s = take w s @ take_chars n (drop w s)"
      by (subst take_chars.simps) (simp add: Cons Let_def w_def)
    have "prefix (take w s @ take_chars n (drop w s)) s"
      using Suc.IH [of "drop w s"] by (metis append_take_drop_id same_prefix_prefix)
    moreover have "length (take w s) \<le> 4" using w by simp
    moreover have "take w s \<noteq> []" using w Cons by (cases w) auto
    ultimately show ?thesis using Suc.IH [of "drop w s"] unfolding eq by simp
  qed (simp add: take_chars.simps)
qed

text \<open>What a sanitized message is: not empty, displayable, at most 256 characters and the mark of a cut.\<close>

definition MAX_SHOWN_BYTES :: nat where "MAX_SHOWN_BYTES = 4 * MAX_ERROR_MESSAGE_CHARS + 14"

abbreviation shown :: "bytes \<Rightarrow> bool" where
  "shown s \<equiv> s \<noteq> [] \<and> displayable s \<and> length s \<le> MAX_SHOWN_BYTES"

lemma sanitize_error_message_shown:
  assumes "sanitize_error_message s = Some m"
  shows "shown m"
proof -
  define p where "p = str_trim (flatten_control s)"
  note cut = take_chars_bounds [of MAX_ERROR_MESSAGE_CHARS p]
  have p: "p \<noteq> []" "displayable p" using assms by (auto simp: sanitize_error_message_def p_def Let_def displayable_trim displayable_flatten split: if_splits)
  then have d: "displayable (take_chars MAX_ERROR_MESSAGE_CHARS p)" using cut by (blast intro: displayable_prefix)
  have mark: "displayable ''...[truncated]''" by code_simp
  have "m = take_chars MAX_ERROR_MESSAGE_CHARS p \<or> m = take_chars MAX_ERROR_MESSAGE_CHARS p @ ''...[truncated]''"
    using assms by (auto simp: sanitize_error_message_def p_def Let_def split: if_splits)
  then show ?thesis
    using cut d p displayable_join [OF d mark] by (auto simp: MAX_SHOWN_BYTES_def MAX_ERROR_MESSAGE_CHARS_def code_def)
qed

lemma sanitize_error_code_shown:
  assumes "sanitize_error_code c = Some m"
  shows "shown m"
proof -
  have "displayable s" if "list_all (\<lambda>b. is_ascii_alphanumeric b \<or> b = CHR ''_'' \<or> b = CHR ''-'') s" for s
    using that by (induction s) (auto simp: is_ascii_alphanumeric_def is_ascii_alphabetic_def is_ascii_digit_def code_def)
  with assms show ?thesis
    by (auto simp: sanitize_error_code_def MAX_SHOWN_BYTES_def MAX_ERROR_MESSAGE_CHARS_def split: if_splits)
qed

lemma find_map_Some: "find_map f xs = Some y \<Longrightarrow> \<exists>x\<in>set xs. f x = Some y"
  by (induction xs) (auto split: option.splits)

lemma message_from_error_shown: "message_from_error v = Some m \<Longrightarrow> shown m"
  by (auto simp: message_from_error_def or_else_def bind_eq_Some_conv split: option.splits
      dest: sanitize_error_code_shown sanitize_error_message_shown)

lemma message_from_detail_shown: "message_from_detail v = Some m \<Longrightarrow> shown m"
  by (auto simp: message_from_detail_def bind_eq_Some_conv split: option.splits json.splits
      dest: sanitize_error_message_shown dest!: find_map_Some)

text \<open>
  C32: Whatever a refused request's body holds, and however it is cut or fails, the message of the error is not empty, has no
  control character, and is bounded: at most 256 characters of the server's text and the mark of a cut.
\<close>

theorem status_error_displayable:
  "\<exists>m. status_error env r = DHttpStatus (ar_status r) m \<and> m \<noteq> [] \<and> displayable m \<and> length m \<le> MAX_SHOWN_BYTES"
proof -
  define parsed where "parsed = (case dt_json env (read_error_body [] (ar_chunks r)) of Ok v \<Rightarrow> Some v | Err _ \<Rightarrow> None)"
  define found where "found = or_else (Option.bind parsed message_from_error) (Option.bind parsed message_from_detail)"
  have "shown m" if "found = Some m" for m
    using that message_from_error_shown message_from_detail_shown
    by (auto simp: found_def or_else_def bind_eq_Some_conv split: option.splits)
  moreover have "shown ''request failed''" by code_simp
  moreover have "status_error env r = DHttpStatus (ar_status r) (case found of Some m \<Rightarrow> m | None \<Rightarrow> ''request failed'')"
    by (simp add: status_error_def found_def parsed_def Let_def)
  ultimately show ?thesis by (cases found) simp_all
qed

section \<open>The stream\<close>

text \<open>The items a caller gets for decoded SSE items, and whether they end the stream.\<close>

fun typed_items :: "(bytes \<Rightarrow> (bytes, 'e) result) \<Rightarrow> sse_item list \<Rightarrow> (direct_failure, 'e) result list" where
  "typed_items event [] = []"
| "typed_items event (Done # xs) = []"
| "typed_items event (Data d # xs) = (case event d of Err e \<Rightarrow> [Err (DJson e)] | Ok ev \<Rightarrow> Ok ev # typed_items event xs)"

fun ends_stream :: "(bytes \<Rightarrow> (bytes, 'e) result) \<Rightarrow> sse_item list \<Rightarrow> bool" where
  "ends_stream event [] = False"
| "ends_stream event (Done # xs) = True"
| "ends_stream event (Data d # xs) = (\<not> is_ok (event d) \<or> ends_stream event xs)"

lemma typed_items_append:
  "typed_items event (xs @ ys) = typed_items event xs @ (if ends_stream event xs then [] else typed_items event ys)"
  by (induction event xs rule: typed_items.induct) (auto split: sum.split)

lemma channel_send_unlimited [simp]:
  "ch_room ch = None \<Longrightarrow> channel_send x ch = (True, ch\<lparr>ch_items := ch_items ch @ [x]\<rparr>)"
  by (simp add: channel_send_def)

lemma dispatch_unlimited:
  "ch_room ch = None \<Longrightarrow>
     dispatch_sse_items event xs ch = (ends_stream event xs, ch\<lparr>ch_items := ch_items ch @ typed_items event xs\<rparr>)"
  by (induction event xs ch rule: dispatch_sse_items.induct) (auto split: sum.split)

lemma direct_decode_Nil: "direct_decode [] d = fst (direct_finish d)"
  by (cases "fst (direct_finish d)") (simp_all add: direct_decode_def)

lemma direct_decode_Cons:
  "direct_decode (c # cs) d =
     (case direct_feed c d of (Err e, _) \<Rightarrow> Err e | (Ok xs, d') \<Rightarrow> res_bind (direct_decode cs d') (\<lambda>ys. Ok (xs @ ys)))"
proof (cases "direct_feed c d")
  case (Pair r d')
  show ?thesis
  proof (cases r)
    case (Inr xs)
    obtain r' d'' where "feed_all direct_feed (\<lambda>r d. is_ok r) (\<lambda>r r'. res_bind r (\<lambda>xs. res_bind r' (\<lambda>ys. Ok (xs @ ys)))) (Ok []) cs d' = (r', d'')"
      by fastforce
    with Pair Inr show ?thesis by (cases r'; cases "fst (direct_finish d'')") (simp_all add: direct_decode_def)
  qed (simp add: Pair direct_decode_def)
qed

abbreviation no_events :: direct_failure where
  "no_events \<equiv> DSse ''response body did not contain SSE events''"

lemma stream_task_items:
  assumes "direct_decode cs d = Ok items" and "ch_room ch = None"
  shows "ch_items (stream_task event untyped (map Inr cs) d saw ch) =
    ch_items ch @ typed_items event items @ (if untyped \<and> \<not> saw \<and> items = [] then [Err no_events] else [])"
  using assms
proof (induction cs arbitrary: d saw ch items)
  case Nil
  then show ?case by (cases items) (auto simp: direct_decode_Nil dispatch_unlimited Let_def)
next
  case (Cons c cs)
  obtain xs d' ys where feed: "direct_feed c d = (Ok xs, d')" and rest: "direct_decode cs d' = Ok ys" "items = xs @ ys"
    using Cons.prems(1) by (auto simp: direct_decode_Cons res_bind_Ok_iff split: prod.splits sum.splits)
  let ?ch = "ch\<lparr>ch_items := ch_items ch @ typed_items event xs\<rparr>"
  have "xs \<noteq> []" if "ends_stream event xs" using that by (cases xs) auto
  then show ?case
    using feed rest Cons.IH [OF rest(1), of ?ch "saw \<or> xs \<noteq> []"] Cons.prems(2)
    by (auto simp: dispatch_unlimited typed_items_append Let_def)
qed



section \<open>A caller that drops the stream\<close>

text \<open>The channel of a caller that takes \<open>k\<close> items, beside that of one that takes them all.\<close>

definition limited :: "nat \<Rightarrow> 'e channel \<Rightarrow> 'e channel" where
  "limited k ch = \<lparr>ch_items = take k (ch_items ch), ch_room = Some (k - length (ch_items ch))\<rparr>"

lemma channel_send_limited:
  assumes "ch_room ch = None"
  shows "channel_send x (limited k ch) = (length (ch_items ch) < k, limited k (snd (channel_send x ch)))"
  using assms by (cases "k - length (ch_items ch)") (auto simp: channel_send_def limited_def)

lemma limited_full: "k \<le> length (ch_items ch) \<Longrightarrow> limited k (ch\<lparr>ch_items := ch_items ch @ xs\<rparr>) = limited k ch"
  by (simp add: limited_def)

lemma dispatch_limited:
  assumes "ch_room ch = None" and "dispatch_sse_items event xs ch = (stop, ch')"
  shows "\<exists>stop'. dispatch_sse_items event xs (limited k ch) = (stop', limited k ch') \<and> (stop' = stop \<or> stop' \<and> k \<le> length (ch_items ch'))"
  using assms
proof (induction event xs ch arbitrary: stop ch' rule: dispatch_sse_items.induct)
  case (3 event d xs ch)
  show ?case
  proof (cases "event d")
    case (Inl e)
    with 3 show ?thesis by (auto simp: channel_send_limited)
  next
    case (Inr ev)
    let ?ch = "ch\<lparr>ch_items := ch_items ch @ [Ok ev]\<rparr>"
    have next_ch: "dispatch_sse_items event xs ?ch = (stop, ch')" using 3 Inr by simp
    show ?thesis
    proof (cases "length (ch_items ch) < k")
      case True
      with 3(1) [OF Inr] 3(2) next_ch Inr show ?thesis by (simp add: channel_send_limited)
    next
      case False
      have "ch' = ch\<lparr>ch_items := ch_items ch @ Ok ev # typed_items event xs\<rparr>"
        using next_ch dispatch_unlimited [of ?ch event xs] 3(2) by simp
      with False Inr 3(2) show ?thesis by (auto simp: channel_send_limited limited_full)
    qed
  qed
qed auto

lemma stream_task_extends: "ch_room ch = None \<Longrightarrow> \<exists>ys. stream_task event untyped cs d saw ch = ch\<lparr>ch_items := ch_items ch @ ys\<rparr>"
proof (induction event untyped cs d saw ch rule: stream_task.induct)
  case (1 event untyped d saw ch)
  then show ?case by (auto simp: dispatch_unlimited Let_def split: sum.split)
next
  case (3 event untyped c cs d saw ch)
  then show ?case by (fastforce simp: dispatch_unlimited Let_def split: prod.split sum.split)
qed auto

lemma stream_task_limited:
  "ch_room ch = None \<Longrightarrow> stream_task event untyped cs d saw (limited k ch) = limited k (stream_task event untyped cs d saw ch)"
proof (induction event untyped cs d saw ch rule: stream_task.induct)
  case (1 event untyped d saw ch)
  show ?case
  proof (cases "fst (direct_finish d)")
    case (Inr items)
    obtain stop ch' where ch': "dispatch_sse_items event items ch = (stop, ch')" by fastforce
    with dispatch_unlimited [OF 1] have room: "ch_room ch' = None" using 1 by auto
    from dispatch_limited [OF 1 ch', of k] Inr ch' room show ?thesis
      by (auto simp: Let_def channel_send_limited limited_full)
  qed (use 1 in \<open>simp add: channel_send_limited\<close>)
next
  case (2 event untyped e cs d saw ch)
  then show ?case by (simp add: channel_send_limited)
next
  case (3 event untyped c cs d saw ch)
  obtain r d' where feed: "direct_feed c d = (r, d')" by fastforce
  show ?case
  proof (cases r)
    case (Inr items)
    obtain stop ch' where ch': "dispatch_sse_items event items ch = (stop, ch')" by fastforce
    with dispatch_unlimited [OF 3(2)] have room: "ch_room ch' = None" using 3(2) by auto
    obtain ys where ys: "stream_task event untyped cs d' (saw \<or> items \<noteq> []) ch' = ch'\<lparr>ch_items := ch_items ch' @ ys\<rparr>"
      using stream_task_extends [OF room] by blast
    note next_ch = 3(1) [OF feed [symmetric] Inr refl ch' [symmetric]]
    from dispatch_limited [OF 3(2) ch', of k] next_ch feed Inr ch' room ys show ?thesis
      by (auto simp: limited_full)
  qed (use 3 feed in \<open>simp add: channel_send_limited\<close>)
qed

text \<open>The shape of what a stream delivers: events, and at most one error, which is the last item.\<close>

definition fail_stop :: "(direct_failure, 'e) result list \<Rightarrow> bool" where
  "fail_stop xs \<longleftrightarrow> (\<forall>x\<in>set (butlast xs). is_ok x)"

lemma typed_items_shape: "fail_stop (typed_items event xs) \<and> (\<not> ends_stream event xs \<longrightarrow> list_all is_ok (typed_items event xs))"
  by (induction event xs rule: typed_items.induct) (auto simp: fail_stop_def list_all_iff split: sum.split)

lemma fail_stop_single [simp]: "fail_stop [x]"
  by (simp add: fail_stop_def)

lemma fail_stop_append: "list_all is_ok xs \<Longrightarrow> fail_stop ys \<Longrightarrow> fail_stop (xs @ ys)"
  by (auto simp: fail_stop_def butlast_append list_all_iff dest: in_set_butlastD)

lemma stream_task_shape:
  assumes "list_all is_ok (ch_items ch)" and "ch_room ch = None"
  shows "fail_stop (ch_items (stream_task event untyped cs d saw ch))"
  using assms
proof (induction event untyped cs d saw ch rule: stream_task.induct)
  case (1 event untyped d saw ch)
  then show ?case
    by (auto simp: dispatch_unlimited Let_def fail_stop_append typed_items_shape split: sum.split simp flip: append_assoc)
next
  case (2 event untyped e cs d saw ch)
  then show ?case by (simp add: fail_stop_append)
next
  case (3 event untyped c cs d saw ch)
  obtain r d' where feed: "direct_feed c d = (r, d')" by fastforce
  show ?case
  proof (cases r)
    case (Inr items)
    with 3 feed show ?thesis by (auto simp: dispatch_unlimited fail_stop_append typed_items_shape)
  qed (use 3 feed in \<open>simp add: fail_stop_append\<close>)
qed

text \<open>
  Whatever the chunks of the body, failed ones included, the stream is fail-stop: only its last item can be an error.  A caller
  that drops the stream after \<open>n\<close> items has seen the first \<open>n\<close> items of the whole stream.
\<close>

theorem direct_stream_fail_stop:
  fixes event :: "bytes \<Rightarrow> (bytes, 'e) result"
  shows "fail_stop (ch_items (stream_task event untyped cs d False (channel_new None)))
    \<and> ch_items (stream_task event untyped cs d False (channel_new (Some n)))
      = take n (ch_items (stream_task event untyped cs d False (channel_new None)))"
proof
  have new: "ch_room (channel_new None :: 'e channel) = None" "list_all is_ok (ch_items (channel_new None :: 'e channel))"
      "(channel_new (Some n) :: 'e channel) = limited n (channel_new None)"
    by (simp_all add: channel_new_def limited_def)
  show "fail_stop (ch_items (stream_task event untyped cs d False (channel_new None)))" by (rule stream_task_shape [OF new(2,1)])
  show "ch_items (stream_task event untyped cs d False (channel_new (Some n)))
      = take n (ch_items (stream_task event untyped cs d False (channel_new None)))"
    unfolding new(3) stream_task_limited [OF new(1)] by (simp add: limited_def)
qed

text \<open>
  A framing error discards the events decoded before it from the same chunk: unlike the Platform streams, what a caller of the
  direct stream gets before an error depends on how the body was cut.
\<close>

theorem direct_stream_error_drops_events:
  "\<exists>cs cs' d. concat cs = concat cs'
     \<and> ch_items (stream_task Ok False (map Inr cs) d False (channel_new None)) = [Ok ''1'', Err (DSse ''event line was not UTF-8'')]
     \<and> ch_items (stream_task Ok False (map Inr cs') d False (channel_new None)) = [Err (DSse ''event line was not UTF-8'')]"
proof (intro exI conjI)
  let ?a = "''data: 1'' @ [LF, LF]" and ?b = "''data: '' @ [CHR 0xFF, LF]"
  show "concat [?a, ?b] = concat [?a @ ?b]" by simp
  show "ch_items (stream_task Ok False (map Inr [?a, ?b]) (direct_new 100 100) False (channel_new None))
    = [Ok ''1'', Err (DSse ''event line was not UTF-8'')]" by code_simp
  show "ch_items (stream_task Ok False (map Inr [?a @ ?b]) (direct_new 100 100) False (channel_new None))
    = [Err (DSse ''event line was not UTF-8'')]" by code_simp
qed

end
