(* ===== verification/Web_Socket.thy ===== *)
theory Web_Socket
  imports Response_Stream Transport Rust_Text
begin

text \<open>
  The Responses WebSocket, \<^verbatim>\<open>crates/openai-rs-client/src/responses_websocket.rs\<close>: its configuration, the initial handshake
  with its retries and its single credential refresh, and the operations of the connection, with the wire form of
  \<^verbatim>\<open>ResponsesServerEvent\<close> from \<^verbatim>\<open>openai-rs-types/src/responses.rs\<close>.

  The WebSocket library is an environment: for each handshake it gives how long it takes and what it returns, and for
  the connection the messages it yields, in order, and whether a write succeeds.  Encoding an event to JSON text and
  parsing that text are parameters.
\<close>

section \<open>Configuration\<close>

definition WS_MAX_MESSAGE_BYTES :: nat where "WS_MAX_MESSAGE_BYTES = 32 * 1024 * 1024"
definition WS_MAX_FRAME_BYTES :: nat where "WS_MAX_FRAME_BYTES = 16 * 1024 * 1024"
definition WS_WRITE_BUFFER_BYTES :: nat where "WS_WRITE_BUFFER_BYTES = 64 * 1024"
definition WS_MAX_QUEUED_WRITE_BYTES :: nat where "WS_MAX_QUEUED_WRITE_BYTES = 1024 * 1024"
definition WS_CONNECT_TIMEOUT :: duration where "WS_CONNECT_TIMEOUT = 30 * 1000000000"
definition MAX_INITIAL_RECONNECTS :: nat where "MAX_INITIAL_RECONNECTS = 10"
definition MAX_RECONNECT_DELAY :: duration where "MAX_RECONNECT_DELAY = 60 * 1000000000"

datatype reconnect_policy = NeverReconnect | InitialConnect nat duration

record websocket_config =
  wc_max_message_bytes :: nat
  wc_max_frame_bytes :: nat
  wc_write_buffer_bytes :: nat
  wc_max_queued_write_bytes :: nat
  wc_connect_timeout :: duration
  wc_reconnect :: reconnect_policy

definition websocket_config_new :: websocket_config where
  "websocket_config_new =
     \<lparr>wc_max_message_bytes = WS_MAX_MESSAGE_BYTES, wc_max_frame_bytes = WS_MAX_FRAME_BYTES,
      wc_write_buffer_bytes = WS_WRITE_BUFFER_BYTES, wc_max_queued_write_bytes = WS_MAX_QUEUED_WRITE_BYTES,
      wc_connect_timeout = WS_CONNECT_TIMEOUT, wc_reconnect = NeverReconnect\<rparr>"

definition websocket_validate :: "websocket_config \<Rightarrow> (client_error, websocket_config) result" where
  "websocket_validate c =
     (if wc_max_message_bytes c = 0 \<or> wc_max_frame_bytes c = 0
      then Err (InvalidConfiguration ''WebSocket message and frame limits must be non-zero'')
      else if wc_max_queued_write_bytes c \<le> wc_write_buffer_bytes c
      then Err (InvalidConfiguration ''WebSocket queued-write limit must exceed its write-buffer size'')
      else if wc_connect_timeout c = 0 then Err (InvalidConfiguration ''WebSocket connect timeout must be non-zero'')
      else case wc_reconnect c of
        NeverReconnect \<Rightarrow> Ok c
      | InitialConnect retries delay \<Rightarrow>
          if retries > MAX_INITIAL_RECONNECTS
          then Err (InvalidConfiguration ''WebSocket initial reconnect count exceeds the supported limit'')
          else if delay > MAX_RECONNECT_DELAY
          then Err (InvalidConfiguration ''WebSocket initial reconnect delay exceeds 60 seconds'')
          else Ok c)"

section \<open>Errors of the library\<close>

text \<open>A rejected handshake; its headers are those whose first value is visible ASCII, with that value.\<close>

record ws_rejection =
  wr_status :: nat
  wr_headers :: "(bytes \<times> bytes) list"
  wr_tail :: "bytes option"

text \<open>The variants the code tells apart; the others carry the text they display.\<close>

datatype ws_failure =
    WsIo bytes
  | WsTls bytes
  | WsHttp ws_rejection
  | WsCapacity
  | WsUrl
  | WsOther bytes

definition retryable_connect_error :: "ws_failure \<Rightarrow> bool" where
  "retryable_connect_error e =
     (case e of
        WsIo _ \<Rightarrow> True
      | WsTls _ \<Rightarrow> True
      | WsHttp r \<Rightarrow> wr_status r = 408 \<or> wr_status r = 429 \<or> wr_status r \<ge> 500
      | _ \<Rightarrow> False)"

definition is_unauthorized_websocket_error :: "ws_failure \<Rightarrow> bool" where
  "is_unauthorized_websocket_error e = (case e of WsHttp r \<Rightarrow> wr_status r = 401 | _ \<Rightarrow> False)"

definition map_websocket_error :: "error_codec \<Rightarrow> ws_failure \<Rightarrow> client_error" where
  "map_websocket_error c e =
     (case e of
        WsHttp r \<Rightarrow>
          let tail = (case wr_tail r of Some b \<Rightarrow> b | None \<Rightarrow> []);
              truncated = (case Option.bind (map_of (wr_headers r) ''content-length'') parse_u64 of
                             Some declared \<Rightarrow> length tail < declared | None \<Rightarrow> False)
          in WebSocketHandshake (wr_status r) (map_of (wr_headers r) ''x-request-id'') (body_preview_of c tail truncated)
      | WsCapacity \<Rightarrow> WebSocketTransport ''WebSocket capacity limit exceeded''
      | WsUrl \<Rightarrow> WebSocketTransport ''invalid derived WebSocket URL''
      | WsIo t \<Rightarrow> WebSocketTransport t
      | WsTls t \<Rightarrow> WebSocketTransport t
      | WsOther t \<Rightarrow> WebSocketTransport t)"

section \<open>The handshake\<close>

text \<open>A URL of the model has no fragment, so there is none to drop.\<close>

definition derive_websocket_url :: "url \<Rightarrow> bytes \<Rightarrow> bytes \<Rightarrow> (client_error, url) result" where
  "derive_websocket_url base segment face =
     (case (if url_scheme base = ''https'' then Some ''wss'' else if url_scheme base = ''http'' then Some ''ws'' else None) of
        None \<Rightarrow> Err (InvalidConfiguration (face @ '' WebSocket requires an HTTP(S) base URL''))
      | Some scheme \<Rightarrow>
          (case url_segments base of
             None \<Rightarrow> Err (InvalidConfiguration (face @ '' base URL cannot encode a path''))
           | Some segs \<Rightarrow> Ok (base\<lparr>url_scheme := scheme, url_segments := Some (push_segment (pop_if_empty segs) segment)\<rparr>)))"

definition websocket_url :: "url \<Rightarrow> (client_error, url) result" where
  "websocket_url base = derive_websocket_url base ''responses'' ''Responses''"

record ws_request =
  wq_url :: url
  wq_headers :: "(bytes \<times> bytes) list"

text \<open>
  The environment of a handshake: the credential provider, the user agent, the library's request for a URL and its connection
  attempt, by the number of the attempt.
\<close>

record ws_env =
  we_send :: send_env
  we_errors :: error_codec
  we_user_agent :: bytes
  we_client_request :: "url \<Rightarrow> ws_failure option"
  we_connector :: "(client_error, unit) result"
  we_connect :: "nat \<Rightarrow> ws_request \<Rightarrow> duration \<times> (ws_failure, response_meta) result"

definition websocket_request :: "ws_env \<Rightarrow> transport \<Rightarrow> url \<Rightarrow> bytes \<Rightarrow> (client_error, ws_request) result" where
  "websocket_request env t u authorization =
     (case we_client_request env u of
        Some e \<Rightarrow> Err (map_websocket_error (we_errors env) e)
      | None \<Rightarrow>
          Ok \<lparr>wq_url = u,
              wq_headers =
                [(''authorization'', authorization), (''user-agent'', we_user_agent env)]
                @ optional_header ''openai-organization'' (t_organization t)
                @ optional_header ''openai-project'' (t_project t)
                @ optional_header ''x-client-request-id'' (t_client_request_id t)\<rparr>)"

definition websocket_connector :: "ws_env \<Rightarrow> url \<Rightarrow> (client_error, unit) result" where
  "websocket_connector env u =
     (if url_scheme u = ''ws'' then Ok ()
      else if url_scheme u \<noteq> ''wss'' then Err (InvalidConfiguration ''derived Responses WebSocket URL has an unsupported scheme'')
      else we_connector env)"

text \<open>What a handshake does, for the record, and how the loop goes on after an attempt.\<close>

datatype ws_event = Dialled ws_request | WsSlept duration | WsInvalidated nat

datatype ws_next = Finished "(client_error, response_meta) result" | RefreshCredential nat | RetryHandshake

definition handshake_next ::
    "ws_env \<Rightarrow> nat \<Rightarrow> nat \<Rightarrow> bool \<Rightarrow> nat option \<Rightarrow> (ws_failure, response_meta) result option \<Rightarrow> ws_next" where
  "handshake_next env limit retries auth_refreshed generation outcome =
     (case outcome of
        Some (Ok mt) \<Rightarrow> Finished (Ok mt)
      | Some (Err e) \<Rightarrow>
          (case (if \<not> auth_refreshed \<and> is_unauthorized_websocket_error e then generation else None) of
             Some g \<Rightarrow> RefreshCredential g
           | None \<Rightarrow>
               if retries < limit \<and> retryable_connect_error e then RetryHandshake
               else Finished (Err (map_websocket_error (we_errors env) e)))
      | None \<Rightarrow>
          if retries < limit then RetryHandshake
          else Finished (Err (WebSocketTransport ''initial WebSocket handshake timed out'')))"

text \<open>One attempt: the time it takes, what it logs, and what comes next.  A handshake that outlasts its budget is cut off.\<close>

definition handshake ::
    "ws_env \<Rightarrow> transport \<Rightarrow> url \<Rightarrow> duration \<Rightarrow> nat \<Rightarrow> nat \<Rightarrow> nat \<Rightarrow> bool \<Rightarrow> duration \<times> ws_event list \<times> ws_next" where
  "handshake env t u timeout n limit retries auth_refreshed =
     (case authorization_with_budget (we_send env) n 0 timeout of
        (now, Err e) \<Rightarrow> (now, [], Finished (Err e))
      | (now, Ok (lease, remaining)) \<Rightarrow>
          (case websocket_request env t u (lease_header lease) of
             Err e \<Rightarrow> (now, [], Finished (Err e))
           | Ok request \<Rightarrow>
               let (took, r) = we_connect env n request;
                   outcome = (if took < remaining then Some r else None)
               in (now + min took remaining, [Dialled request],
                   handshake_next env limit retries auth_refreshed (lease_generation lease) outcome)))"

lemma RetryHandshakeD:
  "handshake env t u timeout n k retries refreshed = (now, es, RetryHandshake) \<Longrightarrow> retries < k"
  by (auto simp: handshake_def handshake_next_def Let_def split: prod.splits sum.splits option.splits if_splits)

lemma RefreshCredentialD:
  "handshake env t u timeout n k retries refreshed = (now, es, RefreshCredential g) \<Longrightarrow> \<not> refreshed"
  by (auto simp: handshake_def handshake_next_def Let_def split: prod.splits sum.splits option.splits if_splits)

function connect_loop ::
    "ws_env \<Rightarrow> transport \<Rightarrow> url \<Rightarrow> duration \<Rightarrow> nat \<Rightarrow> duration \<Rightarrow> nat \<Rightarrow> nat \<Rightarrow> bool
       \<Rightarrow> duration \<times> ws_event list \<times> (client_error, response_meta) result" where
  "connect_loop env t u timeout limit delay n retries auth_refreshed =
     (case handshake env t u timeout n limit retries auth_refreshed of
        (took, es, Finished r) \<Rightarrow> (took, es, r)
      | (took, es, RefreshCredential g) \<Rightarrow>
          (let (took', es', r) = connect_loop env t u timeout limit delay (Suc n) retries True
           in (took + took', es @ [WsInvalidated g] @ es', r))
      | (took, es, RetryHandshake) \<Rightarrow>
          (let (took', es', r) = connect_loop env t u timeout limit delay (Suc n) (Suc retries) auth_refreshed
           in (took + delay + took', es @ [WsSlept delay] @ es', r)))"
  by pat_completeness auto
termination
  by (relation "measure (\<lambda>(env, t, u, timeout, limit, delay, n, retries, refreshed).
        limit - retries + (if refreshed then 0 else 1))")
    (auto dest!: RetryHandshakeD [OF sym] RefreshCredentialD [OF sym])

declare connect_loop.simps [simp del]

section \<open>The connection\<close>

datatype ws_message = WText bytes | WBinary | WPing | WPong | WClose "(nat \<times> bytes) option" | WFrame

text \<open>
  The connection, with the messages the library will yield and, as ghost state, the frames given to it to write, all but
  the last of a connection closed by a failed write completely written.
\<close>

record websocket =
  ws_meta :: response_meta
  ws_max_message_bytes :: nat
  ws_closed :: bool
  ws_last_close :: "(nat \<times> bytes) option"
  ws_incoming :: "(ws_failure, ws_message) result list"
  ws_wire :: "bytes list"

definition websocket_connect ::
    "ws_env \<Rightarrow> transport \<Rightarrow> websocket_config \<Rightarrow> (ws_failure, ws_message) result list
       \<Rightarrow> duration \<times> ws_event list \<times> (client_error, websocket) result" where
  "websocket_connect env t config incoming =
     (case websocket_validate config of
        Err e \<Rightarrow> (0, [], Err e)
      | Ok c \<Rightarrow>
          (case websocket_url (t_base_url t) of
             Err e \<Rightarrow> (0, [], Err e)
           | Ok u \<Rightarrow>
               (case websocket_connector env u of
                  Err e \<Rightarrow> (0, [], Err e)
                | Ok _ \<Rightarrow>
                    let (limit, delay) = (case wc_reconnect c of NeverReconnect \<Rightarrow> (0, 0) | InitialConnect k d \<Rightarrow> (k, d));
                        (took, es, r) = connect_loop env t u (wc_connect_timeout c) limit delay 0 0 False
                    in (took, es, res_bind r (\<lambda>mt. Ok
                         \<lparr>ws_meta = mt, ws_max_message_bytes = wc_max_message_bytes c, ws_closed = False, ws_last_close = None,
                          ws_incoming = incoming, ws_wire = []\<rparr>)))))"

section \<open>Sending\<close>

definition valid_stream_id :: "bytes \<Rightarrow> bool" where
  "valid_stream_id s \<longleftrightarrow> s \<noteq> [] \<and> length s \<le> 256
     \<and> list_all (\<lambda>b. is_ascii_alphanumeric b \<or> b = CHR ''_'' \<or> b = CHR ''.'' \<or> b = CHR ''-'') s"

definition validate_stream_id :: "(bytes \<Rightarrow> (bytes, json) result) \<Rightarrow> bytes \<Rightarrow> (client_error, unit) result" where
  "validate_stream_id parse encoded =
     res_bind (map_err Encode (parse encoded)) (\<lambda>v.
       case value_get v ''stream_id'' of
         None \<Rightarrow> Ok ()
       | Some sid \<Rightarrow>
           (case as_str sid of
              None \<Rightarrow> Err (WebSocketProtocol ''stream_id must be a string'')
            | Some s \<Rightarrow>
                if \<not> valid_stream_id s then Err (WebSocketProtocol ''stream_id must match ^[A-Za-z0-9_.-]{1,256}$'') else Ok ()))"

text \<open>\<open>send_event\<close> on the encoded event, and the library's answer to the write if there is one.\<close>

definition ws_send_event ::
    "error_codec \<Rightarrow> (bytes \<Rightarrow> (bytes, json) result) \<Rightarrow> (bytes, bytes) result \<Rightarrow> (ws_failure, unit) result \<Rightarrow> websocket
       \<Rightarrow> (client_error, unit) result \<times> websocket" where
  "ws_send_event c parse event written ws =
     (if ws_closed ws then (Err (WebSocketProtocol ''cannot send on a closed Responses WebSocket''), ws)
      else case event of
        Err e \<Rightarrow> (Err (Encode e), ws)
      | Ok encoded \<Rightarrow>
          (case validate_stream_id parse encoded of
             Err e \<Rightarrow> (Err e, ws)
           | Ok _ \<Rightarrow>
               if length encoded > ws_max_message_bytes ws
               then (Err (WebSocketProtocol ''outgoing Responses event exceeds the configured message limit''), ws)
               else (case written of
                 Ok _ \<Rightarrow> (Ok (), ws\<lparr>ws_wire := ws_wire ws @ [encoded]\<rparr>)
               | Err e \<Rightarrow> (Err (map_websocket_error c e), ws\<lparr>ws_wire := ws_wire ws @ [encoded], ws_closed := True\<rparr>))))"

section \<open>Receiving\<close>

datatype responses_server_event = StreamEvent response_stream_event "bytes option" | WebSocketErrorEvent json

record ws_codec =
  wcd_responses :: response_codec
  wcd_error :: "json \<Rightarrow> (bytes, json) result"

definition server_event_deserialize :: "ws_codec \<Rightarrow> json \<Rightarrow> (bytes, responses_server_event) result" where
  "server_event_deserialize c v =
     (if Option.bind (value_get v ''type'') as_str = Some ''error'' \<and> Option.bind (value_get v ''error'') as_object \<noteq> None
      then res_bind (wcd_error c v) (\<lambda>e. Ok (WebSocketErrorEvent e))
      else
        let decoded = event_deserialize (rc_payloads (wcd_responses c)) v
        in case value_get v ''stream_id'' of
             Some (JString s) \<Rightarrow> res_bind decoded (\<lambda>e. Ok (StreamEvent e (Some s)))
           | Some _ \<Rightarrow> Err ''WebSocket `stream_id` must be a string''
           | None \<Rightarrow> res_bind decoded (\<lambda>e. Ok (StreamEvent e None)))"

definition deserialize_server_event :: "ws_codec \<Rightarrow> bytes \<Rightarrow> (bytes \<times> bytes option, responses_server_event) result" where
  "deserialize_server_event c bs =
     res_bind (rc_value (wcd_responses c) bs) (\<lambda>v.
       map_err (\<lambda>e. (e, rc_path (wcd_responses c) bs)) (server_event_deserialize c v))"

fun server_event :: "responses_server_event \<Rightarrow> response_stream_event option" where
  "server_event (StreamEvent e sid) = Some e"
| "server_event (WebSocketErrorEvent e) = None"

definition decode_text :: "ws_codec \<Rightarrow> response_meta \<Rightarrow> bytes \<Rightarrow> (client_error, responses_server_event) result" where
  "decode_text c mt text =
     map_err (\<lambda>(source, path). Decode source path (meta_status mt) (meta_request_id mt)
       (body_preview_of (rc_errors (wcd_responses c)) text False)) (deserialize_server_event c text)"

text \<open>The loop of \<^verbatim>\<open>recv\<close> over the messages still to come: its result, what is left, and whether the connection is closed.\<close>

fun recv_loop ::
    "ws_codec \<Rightarrow> (ws_failure, ws_message) result list \<Rightarrow> websocket \<Rightarrow> (client_error, responses_server_event option) result \<times> websocket" where
  "recv_loop c [] ws = (Ok None, ws\<lparr>ws_incoming := [], ws_closed := True\<rparr>)"
| "recv_loop c (Inl e # ms) ws =
     (Err (map_websocket_error (rc_errors (wcd_responses c)) e), ws\<lparr>ws_incoming := ms, ws_closed := True\<rparr>)"
| "recv_loop c (Inr message # ms) ws =
     (case message of
        WText text \<Rightarrow>
          if length text > ws_max_message_bytes ws
          then (Err (WebSocketProtocol ''incoming Responses event exceeds the configured message limit''),
                ws\<lparr>ws_incoming := ms, ws_closed := True\<rparr>)
          else (res_bind (decode_text c (ws_meta ws) text) (\<lambda>e. Ok (Some e)), ws\<lparr>ws_incoming := ms\<rparr>)
      | WPing \<Rightarrow> recv_loop c ms ws
      | WPong \<Rightarrow> recv_loop c ms ws
      | WClose frame \<Rightarrow>
          (Ok None, ws\<lparr>ws_incoming := ms, ws_closed := True,
             ws_last_close := (case frame of Some f \<Rightarrow> Some f | None \<Rightarrow> ws_last_close ws)\<rparr>)
      | WBinary \<Rightarrow>
          (Err (WebSocketProtocol ''Responses WebSocket sent a binary data message''), ws\<lparr>ws_incoming := ms, ws_closed := True\<rparr>)
      | WFrame \<Rightarrow>
          (Err (WebSocketProtocol ''Responses WebSocket exposed an unexpected raw frame''),
           ws\<lparr>ws_incoming := ms, ws_closed := True\<rparr>))"

definition ws_recv :: "ws_codec \<Rightarrow> websocket \<Rightarrow> (client_error, responses_server_event option) result \<times> websocket" where
  "ws_recv c ws = (if ws_closed ws then (Ok None, ws) else recv_loop c (ws_incoming ws) ws)"

definition ws_recv_into ::
    "ws_codec \<Rightarrow> response_accumulator \<Rightarrow> websocket
       \<Rightarrow> (client_error, responses_server_event option) result \<times> response_accumulator \<times> websocket" where
  "ws_recv_into c acc ws =
     (case ws_recv c ws of
        (Err e, ws') \<Rightarrow> (Err e, acc, ws')
      | (Ok event, ws') \<Rightarrow>
          (case Option.bind event server_event of
             None \<Rightarrow> (Ok event, acc, ws')
           | Some e \<Rightarrow>
               (case acc_push e acc of
                  (Err a, acc') \<Rightarrow> (Err (Accumulator a), acc', ws')
                | (Ok _, acc') \<Rightarrow> (Ok event, acc', ws'))))"

definition ws_close :: "error_codec \<Rightarrow> (ws_failure, unit) result \<Rightarrow> websocket \<Rightarrow> (client_error, unit) result \<times> websocket" where
  "ws_close c closed ws =
     (if ws_closed ws then (Ok (), ws)
      else case closed of
        Err e \<Rightarrow> (Err (map_websocket_error c e), ws)
      | Ok _ \<Rightarrow> (Ok (), ws\<lparr>ws_closed := True\<rparr>))"

end
