(* ===== verification/Web_Socket_Correctness.thy ===== *)
theory Web_Socket_Correctness
  imports Web_Socket State_Machine
begin

text \<open>
  What the Responses WebSocket promises: a bounded handshake, frames that fit, a closed connection that stays closed and is not
  read again, and events that feed an accumulator the way the SSE stream does.
\<close>

section \<open>The handshake\<close>

definition dials :: "ws_event list \<Rightarrow> nat" where
  "dials es = length (filter (\<lambda>e. case e of Dialled _ \<Rightarrow> True | _ \<Rightarrow> False) es)"

definition invalidations :: "ws_event list \<Rightarrow> nat" where
  "invalidations es = length (filter (\<lambda>e. case e of WsInvalidated _ \<Rightarrow> True | _ \<Rightarrow> False) es)"

lemma event_counts [simp]:
  "dials [] = 0" "dials (es @ es') = dials es + dials es'" "dials (WsInvalidated g # es) = dials es" "dials (WsSlept d # es) = dials es"
  "invalidations [] = 0" "invalidations (es @ es') = invalidations es + invalidations es'"
  "invalidations (WsInvalidated g # es) = Suc (invalidations es)" "invalidations (WsSlept d # es) = invalidations es"
  "dials [Dialled q] = 1" "invalidations [Dialled q] = 0"
  by (simp_all add: dials_def invalidations_def)

lemma authorization_within:
  "authorization_with_budget env n 0 timeout = (now, r) \<Longrightarrow> now \<le> timeout \<and> (\<forall>l k. r = Ok (l, k) \<longrightarrow> now + k = timeout)"
  by (auto simp: authorization_with_budget_def Let_def split: prod.splits if_splits sum.splits)

lemma handshake_counts:
  assumes "handshake env t u timeout n k retries refreshed = (took, es, nxt)"
  shows "took \<le> timeout \<and> dials es \<le> 1 \<and> invalidations es = 0"
proof (cases "authorization_with_budget (we_send env) n 0 timeout")
  case (Pair now r)
  note w = authorization_within [OF Pair]
  show ?thesis
  proof (cases r)
    case (Inl e)
    with assms Pair w show ?thesis by (simp add: handshake_def)
  next
    case (Inr lr)
    then show ?thesis
      using assms Pair w by (cases lr) (auto simp: handshake_def Let_def split: sum.splits prod.splits)
  qed
qed

lemma connect_loop_bounded:
  assumes "connect_loop env t u timeout k delay n retries refreshed = (took, es, r)" and "retries \<le> k"
  shows "invalidations es \<le> (if refreshed then 0 else 1)
    \<and> dials es \<le> Suc (k - retries) + (if refreshed then 0 else 1)
    \<and> took \<le> (Suc (k - retries) + (if refreshed then 0 else 1)) * timeout + (k - retries) * delay"
  using assms
proof (induction env t u timeout k delay n retries refreshed arbitrary: took es r rule: connect_loop.induct)
  case (1 env t u timeout k delay n retries refreshed)
  obtain took1 es1 nxt where h: "handshake env t u timeout n k retries refreshed = (took1, es1, nxt)" by (metis prod_cases3)
  note c = handshake_counts [OF h]
  show ?case
  proof (cases nxt)
    case (Finished r')
    with "1.prems" h c show ?thesis by (subst (asm) connect_loop.simps) auto
  next
    case (RefreshCredential g)
    then have nr: "\<not> refreshed" using h by (auto dest: RefreshCredentialD)
    obtain took2 es2 where rest: "connect_loop env t u timeout k delay (Suc n) retries True = (took2, es2, r)"
        "took = took1 + took2" "es = es1 @ [WsInvalidated g] @ es2"
      using "1.prems"(1) h RefreshCredential by (subst (asm) connect_loop.simps) (auto split: prod.splits)
    from "1.IH"(1) [OF h [symmetric] refl RefreshCredential rest(1) "1.prems"(2)] c rest nr show ?thesis
      by (auto simp: algebra_simps)
  next
    case RetryHandshake
    then have lt: "retries < k" using h by (auto dest: RetryHandshakeD)
    obtain took2 es2 where rest: "connect_loop env t u timeout k delay (Suc n) (Suc retries) refreshed = (took2, es2, r)"
        "took = took1 + delay + took2" "es = es1 @ [WsSlept delay] @ es2"
      using "1.prems"(1) h RetryHandshake by (subst (asm) connect_loop.simps) (auto split: prod.splits)
    obtain j where j: "k - retries = Suc j" "k - Suc retries = j" using lt by (metis Suc_diff_Suc)
    from "1.IH"(2) [OF h [symmetric] refl RetryHandshake rest(1)] lt c rest show ?thesis
      unfolding j by (auto simp: algebra_simps)
  qed
qed

text \<open>
  The initial handshake is bounded. Whatever the peer and the credential provider do, a connection attempt with an accepted
  configuration dials at most twelve times, refreshes the credential at most once, and takes at most twelve connect
  timeouts and the ten pauses of at most sixty seconds.
\<close>

theorem handshake_bounded:
  assumes "websocket_connect env t config incoming = (took, es, r)"
  shows "dials es \<le> 12 \<and> invalidations es \<le> 1 \<and> took \<le> 12 * wc_connect_timeout config + 10 * MAX_RECONNECT_DELAY"
proof (cases "es = [] \<and> took = 0")
  case False
  define k d where kd: "k = (case wc_reconnect config of NeverReconnect \<Rightarrow> 0 | InitialConnect k d \<Rightarrow> k)"
    "d = (case wc_reconnect config of NeverReconnect \<Rightarrow> 0 | InitialConnect k d \<Rightarrow> d)"
  obtain c u r' where v: "websocket_validate config = Ok c" and l: "connect_loop env t u (wc_connect_timeout c) k d 0 0 False = (took, es, r')"
    using assms False unfolding websocket_connect_def kd
    by (auto simp: Let_def split: sum.splits reconnect_policy.splits prod.splits)
      (auto simp: websocket_validate_def split: if_splits reconnect_policy.splits)
  have c: "c = config" "k \<le> 10" "d \<le> MAX_RECONNECT_DELAY"
    using v by (auto simp: websocket_validate_def kd MAX_INITIAL_RECONNECTS_def split: if_splits reconnect_policy.splits)
  have "(Suc k + 1) * wc_connect_timeout config + k * d \<le> 12 * wc_connect_timeout config + 10 * MAX_RECONNECT_DELAY"
    using c(2,3) by (intro add_mono mult_le_mono) auto
  with connect_loop_bounded [OF l] c show ?thesis by auto
qed (use assms in simp)

text \<open>A peer that refuses the first credential, is busy once, then accepts.\<close>

definition ws_rejected :: "nat \<Rightarrow> ws_failure" where
  "ws_rejected st = WsHttp \<lparr>wr_status = st, wr_headers = [], wr_tail = None\<rparr>"

definition demo_ws_env :: ws_env where
  "demo_ws_env =
     \<lparr>we_send = \<lparr>env_auth = (\<lambda>n. (1, Ok \<lparr>lease_header = ''Bearer t'', lease_generation = Some n\<rparr>)), env_build = (\<lambda>_ _. None),
        env_http = (\<lambda>_ _. (0, Err \<lparr>tf_error = \<lparr>he_timeout = False, he_url = None, he_text = []\<rparr>, tf_connect = True\<rparr>)),
        env_nanos = (\<lambda>_. None), env_date = (\<lambda>_ _. None), env_trace = False, env_drain = (\<lambda>_. 0)\<rparr>,
      we_errors = demo_codec, we_user_agent = ''openai-rs'', we_client_request = (\<lambda>_. None), we_connector = Ok (),
      we_connect = (\<lambda>n _. (2, if n = 0 then Err (ws_rejected 401) else if n = 1 then Err (ws_rejected 503) else Ok demo_meta))\<rparr>"

definition demo_transport :: transport where
  "demo_transport =
     \<lparr>t_base_url = \<lparr>url_scheme = ''https'', url_host = Some ''api.openai.com'', url_port = None, url_segments = Some [''v1'', []], url_query = []\<rparr>,
      t_organization = None, t_project = Some ''p'', t_client_request_id = None, t_max_json_body_bytes = 100, t_max_error_body_bytes = 100,
      t_retry_policy = openai_compatible, t_overall_timeout = 1000\<rparr>"

definition demo_ws_config :: websocket_config where
  "demo_ws_config = websocket_config_new\<lparr>wc_connect_timeout := 100, wc_reconnect := InitialConnect 3 5\<rparr>"

definition demo_incoming :: "(ws_failure, ws_message) result list" where
  "demo_incoming = [Ok WPing, Ok (WText ''response.audio.done''), Ok (WText ''response.completed''), Ok (WText ''nonsense''), Ok WBinary]"

definition demo_ws :: websocket where
  "demo_ws = \<lparr>ws_meta = demo_meta, ws_max_message_bytes = WS_MAX_MESSAGE_BYTES, ws_closed = False, ws_last_close = None,
     ws_incoming = demo_incoming, ws_wire = []\<rparr>"

definition demo_dial :: ws_request where
  "demo_dial =
     \<lparr>wq_url = (t_base_url demo_transport)\<lparr>url_scheme := ''wss'', url_segments := Some [''v1'', ''responses'']\<rparr>,
      wq_headers = [(''authorization'', ''Bearer t''), (''user-agent'', ''openai-rs''), (''openai-project'', ''p'')]\<rparr>"

lemma demo_connects:
  "websocket_connect demo_ws_env demo_transport demo_ws_config demo_incoming =
     (14, [Dialled demo_dial, WsInvalidated 0, Dialled demo_dial, WsSlept 5, Dialled demo_dial], Ok demo_ws)"
proof -
  let ?u = "wq_url demo_dial"
  have url: "websocket_url (t_base_url demo_transport) = Ok ?u" "websocket_connector demo_ws_env ?u = Ok ()" by code_simp+
  have h: "handshake demo_ws_env demo_transport ?u 100 0 3 0 False = (3, [Dialled demo_dial], RefreshCredential 0)"
    "handshake demo_ws_env demo_transport ?u 100 (Suc 0) 3 0 True = (3, [Dialled demo_dial], RetryHandshake)"
    "handshake demo_ws_env demo_transport ?u 100 (Suc (Suc 0)) 3 (Suc 0) True = (3, [Dialled demo_dial], Finished (Ok demo_meta))"
    by code_simp+
  have "connect_loop demo_ws_env demo_transport ?u 100 3 5 (Suc (Suc 0)) (Suc 0) True = (3, [Dialled demo_dial], Ok demo_meta)"
    by (subst connect_loop.simps) (simp add: h)
  then have "connect_loop demo_ws_env demo_transport ?u 100 3 5 (Suc 0) 0 True = (11, [Dialled demo_dial, WsSlept 5, Dialled demo_dial], Ok demo_meta)"
    by (subst connect_loop.simps) (simp add: h)
  then have "connect_loop demo_ws_env demo_transport ?u 100 3 5 0 0 False =
      (14, [Dialled demo_dial, WsInvalidated 0, Dialled demo_dial, WsSlept 5, Dialled demo_dial], Ok demo_meta)"
    by (subst connect_loop.simps) (simp add: h)
  moreover have "websocket_validate demo_ws_config = Ok demo_ws_config"
    by (simp add: websocket_validate_def demo_ws_config_def websocket_config_new_def WS_MAX_MESSAGE_BYTES_def WS_MAX_FRAME_BYTES_def
        WS_WRITE_BUFFER_BYTES_def WS_MAX_QUEUED_WRITE_BYTES_def MAX_INITIAL_RECONNECTS_def MAX_RECONNECT_DELAY_def)
  moreover have "wc_reconnect demo_ws_config = InitialConnect 3 5" "wc_connect_timeout demo_ws_config = 100"
      "wc_max_message_bytes demo_ws_config = WS_MAX_MESSAGE_BYTES"
    by (simp_all add: demo_ws_config_def websocket_config_new_def)
  ultimately show ?thesis using url by (simp add: websocket_connect_def demo_ws_def)
qed

theorem handshake_bounded_witness:
  "dials (fst (snd (websocket_connect demo_ws_env demo_transport demo_ws_config demo_incoming))) \<le> 12"
  using handshake_bounded [OF demo_connects] by (simp add: demo_connects)

section \<open>The connection\<close>

text \<open>The operations of a connection, in any order, with whatever the library answers.\<close>

inductive ws_step :: "ws_codec \<Rightarrow> (bytes \<Rightarrow> (bytes, json) result) \<Rightarrow> websocket \<Rightarrow> websocket \<Rightarrow> bool" for c parse where
  send: "ws_step c parse ws (snd (ws_send_event (rc_errors (wcd_responses c)) parse event written ws))"
| recv: "ws_step c parse ws (snd (ws_recv c ws))"
| recv_into: "ws_step c parse ws (snd (snd (ws_recv_into c acc ws)))"
| close: "ws_step c parse ws (snd (ws_close (rc_errors (wcd_responses c)) closed ws))"

lemma ws_recv_into_socket: "snd (snd (ws_recv_into c acc ws)) = snd (ws_recv c ws)"
  by (simp add: ws_recv_into_def split: prod.split sum.split option.split)

text \<open>What a frame on the wire has passed.\<close>

definition frame_checked :: "(bytes \<Rightarrow> (bytes, json) result) \<Rightarrow> nat \<Rightarrow> bytes \<Rightarrow> bool" where
  "frame_checked parse limit f \<longleftrightarrow> length f \<le> limit
     \<and> (\<exists>v. parse f = Ok v \<and> (case value_get v ''stream_id'' of None \<Rightarrow> True | Some sid \<Rightarrow> (\<exists>s. sid = JString s \<and> valid_stream_id s)))"

lemma as_str_Some: "as_str v = Some s \<longleftrightarrow> v = JString s"
  by (cases v) auto

lemma validate_stream_id_Ok:
  assumes "validate_stream_id parse f = Ok ()" and "length f \<le> limit"
  shows "frame_checked parse limit f"
proof -
  from assms(1) obtain v where v: "parse f = Ok v" by (auto simp: validate_stream_id_def res_bind_Ok_iff)
  with assms(1) have "case value_get v ''stream_id'' of None \<Rightarrow> True | Some sid \<Rightarrow> (\<exists>s. sid = JString s \<and> valid_stream_id s)"
    by (auto simp: validate_stream_id_def as_str_Some split: option.splits if_splits)
  with v assms(2) show ?thesis by (auto simp: frame_checked_def)
qed

lemma send_checked:
  "\<exists>fs. ws_wire (snd (ws_send_event c parse event written ws)) = ws_wire ws @ fs \<and> list_all (frame_checked parse (ws_max_message_bytes ws)) fs"
proof (cases "\<exists>encoded. \<not> ws_closed ws \<and> event = Ok encoded \<and> validate_stream_id parse encoded = Ok () \<and> length encoded \<le> ws_max_message_bytes ws")
  case True
  then obtain encoded where "event = Ok encoded" "validate_stream_id parse encoded = Ok ()" "length encoded \<le> ws_max_message_bytes ws"
      "ws_wire (snd (ws_send_event c parse event written ws)) = ws_wire ws @ [encoded]"
    by (auto simp: ws_send_event_def split: sum.split)
  then show ?thesis by (intro exI [of _ "[encoded]"]) (simp add: validate_stream_id_Ok)
next
  case False
  then show ?thesis by (intro exI [of _ "[]"]) (auto simp: ws_send_event_def not_less split: sum.splits)
qed

lemma send_keeps:
  "ws_max_message_bytes (snd (ws_send_event c parse event written ws)) = ws_max_message_bytes ws"
  "ws_incoming (snd (ws_send_event c parse event written ws)) = ws_incoming ws"
  by (simp_all add: ws_send_event_def split: sum.split)

lemma recv_keeps:
  "ws_wire (snd (recv_loop c ms ws)) = ws_wire ws \<and> ws_max_message_bytes (snd (recv_loop c ms ws)) = ws_max_message_bytes ws"
  by (induction c ms ws rule: recv_loop.induct) (auto split: ws_message.split)

definition wire_checked :: "(bytes \<Rightarrow> (bytes, json) result) \<Rightarrow> nat \<Rightarrow> websocket \<Rightarrow> bool" where
  "wire_checked parse limit ws \<longleftrightarrow> ws_max_message_bytes ws = limit \<and> list_all (frame_checked parse limit) (ws_wire ws)"

lemma wire_checked_step:
  assumes "wire_checked parse limit ws" and "ws_step c parse ws ws'"
  shows "wire_checked parse limit ws'"
  using assms(2)
proof (cases rule: ws_step.cases)
  case (send event written)
  obtain fs where "ws_wire ws' = ws_wire ws @ fs" "list_all (frame_checked parse (ws_max_message_bytes ws)) fs"
    using send_checked send by metis
  moreover have "ws_max_message_bytes ws' = ws_max_message_bytes ws" using send send_keeps(1) by simp
  ultimately show ?thesis using assms(1) by (simp add: wire_checked_def)
next
  case (close closed)
  then show ?thesis using assms(1) by (simp add: wire_checked_def ws_close_def split: sum.split)
qed (use assms(1) recv_keeps in \<open>simp_all add: wire_checked_def ws_recv_def ws_recv_into_socket\<close>)

lemma closed_step: "ws_closed ws \<Longrightarrow> ws_step c parse ws ws' \<Longrightarrow> ws' = ws"
  by (erule ws_step.cases) (simp_all add: ws_send_event_def ws_recv_into_socket ws_recv_def ws_close_def)

definition opened :: "nat \<Rightarrow> websocket \<Rightarrow> bool" where
  "opened limit ws \<longleftrightarrow> ws_wire ws = [] \<and> ws_max_message_bytes ws = limit"

interpretation ws_wire: machine_invariant ws0 "ws_step c parse" "\<lambda>ws. opened limit ws0 \<longrightarrow> wire_checked parse limit ws" for ws0 c parse limit
  by unfold_locales (simp_all add: opened_def wire_checked_def, metis opened_def wire_checked_def wire_checked_step)

interpretation ws_end: machine_invariant ws0 "ws_step c parse" "\<lambda>ws. ws_closed ws0 \<longrightarrow> ws = ws0" for ws0 c parse
  by unfold_locales (auto dest: closed_step)

text \<open>
  C25: Every frame a connection ever puts on the wire, or begins to write, fits the message limit and names no stream or a valid one; and a connection
  that is closed stays exactly as it is whatever is called: nothing is written to it and nothing is read from it.
\<close>

theorem websocket_session_safe:
  assumes "websocket_connect env t config incoming = (took, es, Ok ws0)" and "reach ws0 (ws_step c parse) ws"
  shows "list_all (frame_checked parse (wc_max_message_bytes config)) (ws_wire ws)
    \<and> (ws_closed ws \<and> reach ws (ws_step c parse) ws' \<longrightarrow> ws' = ws)"
proof -
  have "opened (wc_max_message_bytes config) ws0"
    using assms(1) by (auto simp: websocket_connect_def websocket_validate_def opened_def Let_def res_bind_Ok_iff
        split: sum.splits reconnect_policy.splits prod.splits if_splits)
  with ws_wire.reach_inv [OF assms(2)] have "list_all (frame_checked parse (wc_max_message_bytes config)) (ws_wire ws)"
    by (auto simp: wire_checked_def)
  then show ?thesis using ws_end.reach_inv by blast
qed

definition demo_parse :: "bytes \<Rightarrow> (bytes, json) result" where
  "demo_parse s = Ok (JObject [(''stream_id'', JString s)])"

definition demo_ws_codec :: ws_codec where
  "demo_ws_codec = \<lparr>wcd_responses = demo_response_codec, wcd_error = (\<lambda>v. Ok v)\<rparr>"

theorem websocket_session_safe_witness:
  "ws_wire (snd (ws_send_event demo_codec demo_parse (Ok ''lane-1'') (Ok ()) demo_ws)) = [''lane-1'']
   \<and> frame_checked demo_parse WS_MAX_MESSAGE_BYTES ''lane-1''"
proof -
  let ?ws = "snd (ws_send_event demo_codec demo_parse (Ok ''lane-1'') (Ok ()) demo_ws)"
  have wire: "ws_wire ?ws = [''lane-1'']" by code_simp
  have "reach demo_ws (ws_step demo_ws_codec demo_parse) ?ws"
    using ws_step.send [of demo_ws_codec demo_parse demo_ws "Ok ''lane-1''" "Ok ()"]
    by (intro reach_step [OF reach_init]) (simp add: demo_ws_codec_def demo_response_codec_def)
  from websocket_session_safe [OF demo_connects this] wire show ?thesis
    by (simp add: demo_ws_config_def websocket_config_new_def)
qed

section \<open>Receiving\<close>

fun is_control :: "(ws_failure, ws_message) result \<Rightarrow> bool" where
  "is_control (Inr WPing) = True"
| "is_control (Inr WPong) = True"
| "is_control _ = False"

lemma recv_loop_control: "recv_loop c (ctl @ ms) ws = recv_loop c ms ws" if "list_all is_control ctl"
  using that
proof (induction ctl)
  case (Cons m ctl)
  then show ?case by (cases m rule: is_control.cases) auto
qed simp

text \<open>
  A failed \<^verbatim>\<open>recv\<close> closes the connection, with one exception: a text that fits and is not an event, after which the connection goes on
  with the next message. The end of the connection is reported only together with closing it.
\<close>

theorem recv_failure_closes:
  assumes "ws_recv c ws = (r, ws')" and "\<not> ws_closed ws" and "\<not> (\<exists>event. r = Ok (Some event))"
  shows "ws_closed ws'
    \<or> (\<exists>ctl text ms e. ws_incoming ws = ctl @ Ok (WText text) # ms \<and> list_all is_control ctl \<and> length text \<le> ws_max_message_bytes ws
         \<and> decode_text c (ws_meta ws) text = Err e \<and> r = Err e \<and> ws' = ws\<lparr>ws_incoming := ms\<rparr>)"
proof -
  have "recv_loop c ms ws = (r, ws') \<Longrightarrow> ws_closed ws'
    \<or> (\<exists>ctl text ms' e. ms = ctl @ Ok (WText text) # ms' \<and> list_all is_control ctl \<and> length text \<le> ws_max_message_bytes ws
         \<and> decode_text c (ws_meta ws) text = Err e \<and> r = Err e \<and> ws' = ws\<lparr>ws_incoming := ms'\<rparr>)" for ms
  proof (induction ms)
    case (Cons m ms)
    show ?case
    proof (cases "is_control m")
      case True
      then have "recv_loop c (m # ms) ws = recv_loop c ms ws" by (cases m rule: is_control.cases) auto
      with Cons.IH Cons.prems True show ?thesis by (metis append_Cons list.pred_inject(2))
    next
      case data: False
      show ?thesis
      proof (cases "\<exists>text. m = Ok (WText text) \<and> length text \<le> ws_max_message_bytes ws")
        case True
        then obtain tx where tx: "m = Ok (WText tx)" "length tx \<le> ws_max_message_bytes ws" by blast
        then obtain e where "decode_text c (ws_meta ws) tx = Err e" "r = Err e" "ws' = ws\<lparr>ws_incoming := ms\<rparr>"
          using Cons.prems assms(3) by (cases "decode_text c (ws_meta ws) tx") auto
        with tx show ?thesis
          by - (rule disjI2, rule exI [of _ "[]"], rule exI [of _ tx], rule exI [of _ ms], rule exI [of _ e], simp)
      next
        case False
        then show ?thesis using data Cons.prems by (cases m rule: is_control.cases) (auto split: if_splits)
      qed
    qed
  qed auto
  with assms(1,2) show ?thesis by (simp add: ws_recv_def)
qed

theorem recv_failure_closes_witness:
  "ws_closed (snd (ws_recv demo_ws_codec (demo_ws\<lparr>ws_incoming := [Ok WPong, Ok WBinary]\<rparr>)))"
  using recv_failure_closes [of demo_ws_codec "demo_ws\<lparr>ws_incoming := [Ok WPong, Ok WBinary]\<rparr>", OF prod.collapse [symmetric]]
  by (auto simp: ws_recv_def demo_ws_def)

section \<open>Feeding an accumulator\<close>

text \<open>A caller that receives \<open>n\<close> events into its accumulator, and stops at the first error.\<close>

fun recv_times ::
    "nat \<Rightarrow> ws_codec \<Rightarrow> response_accumulator \<Rightarrow> websocket \<Rightarrow> (client_error, unit) result \<times> response_accumulator \<times> websocket" where
  "recv_times 0 c acc ws = (Ok (), acc, ws)"
| "recv_times (Suc n) c acc ws =
     (case ws_recv_into c acc ws of
        (Err e, acc', ws') \<Rightarrow> (Err e, acc', ws')
      | (Ok _, acc', ws') \<Rightarrow> recv_times n c acc' ws')"

text \<open>The messages of one lane: texts that fit and decode to the events, with control frames between them.\<close>

inductive lane :: "ws_codec \<Rightarrow> websocket \<Rightarrow> (ws_failure, ws_message) result list \<Rightarrow> response_stream_event list \<Rightarrow> bool" for c ws where
  lane_end: "lane c ws ms []"
| lane_control: "is_control m \<Longrightarrow> lane c ws ms es \<Longrightarrow> lane c ws (m # ms) es"
| lane_event: "length text \<le> ws_max_message_bytes ws \<Longrightarrow> decode_text c (ws_meta ws) text = Ok (StreamEvent e sid) \<Longrightarrow>
    lane c ws ms es \<Longrightarrow> lane c ws (Ok (WText text) # ms) (e # es)"

inductive_cases lane_EventsE: "lane c ws ms (e # es)"

lemma lane_next:
  assumes "lane c ws ms (e # es)"
  shows "\<exists>text sid ms'. recv_loop c ms ws = (Ok (Some (StreamEvent e sid)), ws\<lparr>ws_incoming := ms'\<rparr>) \<and> lane c ws ms' es"
  using assms
proof (induction ms "e # es" rule: lane.induct)
  case (lane_control m ms)
  then show ?case by (cases m rule: is_control.cases) auto
next
  case (lane_event tx sid ms)
  then show ?case by auto
qed

lemma lane_meta: "lane c (ws\<lparr>ws_incoming := x\<rparr>) ms es = lane c ws ms es"
proof
  show "lane c (ws\<lparr>ws_incoming := x\<rparr>) ms es \<Longrightarrow> lane c ws ms es" by (induction rule: lane.induct) (auto intro: lane.intros)
  show "lane c ws ms es \<Longrightarrow> lane c (ws\<lparr>ws_incoming := x\<rparr>) ms es" by (induction rule: lane.induct) (auto intro: lane.intros)
qed

text \<open>
  C24: The WebSocket and the SSE stream reduce alike. For the events of one lane, receiving them into an accumulator and finishing it
  gives what collecting the same events of an SSE stream gives, the first accumulator error included.
\<close>

theorem websocket_reduces_like_sse:
  assumes "lane c ws (ws_incoming ws) events" and "\<not> ws_closed ws"
  shows "(case recv_times (length events) c acc ws of
            (Err e, _) \<Rightarrow> Err e
          | (Ok _, acc', _) \<Rightarrow> map_err Accumulator (acc_finish acc')) = collect_with (map Ok events) acc"
  using assms
proof (induction events arbitrary: acc ws rule: list.induct)
  case (Cons e events)
  obtain sid ms' where step: "ws_recv c ws = (Ok (Some (StreamEvent e sid)), ws\<lparr>ws_incoming := ms'\<rparr>)" and rest: "lane c ws ms' events"
    using lane_next [OF Cons.prems(1)] Cons.prems(2) by (auto simp: ws_recv_def)
  obtain r acc' where push: "acc_push e acc = (r, acc')" by fastforce
  have "lane c (ws\<lparr>ws_incoming := ms'\<rparr>) (ws_incoming (ws\<lparr>ws_incoming := ms'\<rparr>)) events" using rest by (simp add: lane_meta)
  from Cons.IH [OF this, of acc'] Cons.prems(2) step push show ?case by (cases r) (simp_all add: ws_recv_into_def)
qed simp

theorem websocket_reduces_like_sse_witness:
  "(case recv_times 2 demo_ws_codec accumulator_new demo_ws of
      (Err e, _) \<Rightarrow> Err e
    | (Ok _, acc', _) \<Rightarrow> map_err Accumulator (acc_finish acc')) = Ok \<lparr>resp_output = [], resp_rest = []\<rparr>"
proof -
  let ?r = "\<lparr>resp_output = [], resp_rest = []\<rparr> :: response"
  let ?evs = "[AudioDone \<lparr>pe_sequence = 1\<rparr>, Completed \<lparr>le_response = ?r, le_sequence = 2\<rparr>]"
  have "decode_text demo_ws_codec demo_meta ''response.audio.done'' = Ok (StreamEvent (?evs ! 0) None)"
      "decode_text demo_ws_codec demo_meta ''response.completed'' = Ok (StreamEvent (?evs ! 1) None)"
    by code_simp+
  then have "lane demo_ws_codec demo_ws (Ok WPing # Ok (WText ''response.audio.done'') # Ok (WText ''response.completed'') # ms) ?evs" for ms
    by (intro lane_control lane_event lane_end) (simp_all add: demo_ws_def WS_MAX_MESSAGE_BYTES_def)
  then have "lane demo_ws_codec demo_ws (ws_incoming demo_ws) ?evs" by (simp add: demo_ws_def demo_incoming_def)
  moreover have "collect_with (map Ok ?evs) accumulator_new = Ok ?r" by code_simp
  ultimately show ?thesis
    using websocket_reduces_like_sse [of demo_ws_codec demo_ws ?evs accumulator_new] by (simp add: demo_ws_def numeral_2_eq_2)
qed

text \<open>
  A close whose write fails does not close the connection: the failure is reported, and later calls go on with a connection that can no
  longer be written to.
\<close>

theorem failed_close_stays_open:
  "\<not> ws_closed ws \<Longrightarrow> ws_close c (Err (WsIo t)) ws = (Err (WebSocketTransport t), ws)"
  by (simp add: ws_close_def map_websocket_error_def)

end
