(* ===== verification/Multipart.thy ===== *)
theory Multipart
  imports Transport Auth Scalar
begin

text \<open>
  Multipart uploads and raw downloads, \<^verbatim>\<open>crates/openai-rs-client/src/multipart.rs\<close>, with the file names, media types and
  sources of \<^verbatim>\<open>crates/openai-rs-types/src/files.rs\<close>.

  The file system is an environment: it says what a path is when it is examined without following a link, and what opening
  it gives, the attempt and the position of the part being the moment.  The HTTP library is one too: it checks media types,
  builds a request and carries it out.  A form is what the library is given to encode: its text fields and its parts; the
  boundary is the library's.  A path is its bytes, with \<^verbatim>\<open>/\<close> between components, as on Unix.
\<close>

section \<open>Names and media types\<close>

datatype file_name_error = FileNameEmpty | UnsafeCharacter

type_synonym file_name = bytes
type_synonym media_type = bytes

definition file_name_new :: "bytes \<Rightarrow> (file_name_error, file_name) result" where
  "file_name_new v =
     (if v = [] then Err FileNameEmpty
      else if has_control v \<or> list_ex (\<lambda>b. b = CHR ''/'' \<or> b = CHR 0x5C \<or> b = CHR 0x22) v then Err UnsafeCharacter
      else Ok v)"

definition is_mime_token_character :: "byte \<Rightarrow> bool" where
  "is_mime_token_character b \<longleftrightarrow> is_ascii_alphanumeric b \<or> b \<in> set ''!#$%&*+-.^_|~'' \<or> b = CHR 0x27 \<or> b = CHR 0x60"

definition media_type_new :: "bytes \<Rightarrow> (unit, media_type) result" where
  "media_type_new v =
     (if v = [] \<or> surrounded v \<or> has_control v then Err ()
      else let essence = (case split_once (CHR '';'') v of Some (head, _) \<Rightarrow> head | None \<Rightarrow> v)
           in case split_once (CHR ''/'') essence of
                None \<Rightarrow> Err ()
              | Some (top_level, subtype) \<Rightarrow>
                  if top_level = [] \<or> subtype = [] \<or> \<not> list_all is_mime_token_character top_level
                     \<or> \<not> list_all is_mime_token_character subtype
                  then Err () else Ok v)"

section \<open>Sources\<close>

text \<open>The presence states are those of the wire kernel.\<close>

datatype replayable_source =
    BytesSource bytes "file_name omittable" "media_type omittable"
  | PathSource bytes "file_name omittable" "media_type omittable"

text \<open>A failure of the file system, as the code reads it: whether the path is missing, its text and the name of its kind.\<close>

record io_failure =
  io_not_found :: bool
  io_text :: bytes
  io_kind :: bytes

record file_metadata =
  fm_symlink :: bool
  fm_is_file :: bool
  fm_len :: nat
  fm_modified :: "(io_failure, nat) result"
  fm_device :: nat
  fm_inode :: nat
  fm_ctime_seconds :: int
  fm_ctime_nanoseconds :: int

record file_snapshot =
  sn_len :: nat
  sn_modified :: nat
  sn_device :: nat
  sn_inode :: nat
  sn_ctime_seconds :: int
  sn_ctime_nanoseconds :: int

text \<open>An open file: its metadata, and what reading it to the end gives.\<close>

record open_file =
  of_metadata :: "(io_failure, file_metadata) result"
  of_content :: bytes

record file_system =
  fs_lstat :: "bytes \<Rightarrow> (io_failure, file_metadata) result"
  fs_open :: "bytes \<Rightarrow> (io_failure, open_file) result"

definition source_error :: client_error where
  "source_error = InvalidConfiguration ''multipart source is not a readable regular file''"

definition source_io_error :: "io_failure \<Rightarrow> client_error" where
  "source_io_error e =
     InvalidConfiguration
       ((if io_not_found e then ''multipart source path was not found: '' else ''multipart source is not readable: '')
        @ io_text e @ '' (kind: '' @ io_kind e @ '')'')"

definition source_not_a_regular_file :: client_error where
  "source_not_a_regular_file = InvalidConfiguration ''multipart source is not a regular file''"

definition source_is_a_symlink :: client_error where
  "source_is_a_symlink = InvalidConfiguration ''multipart source is a symlink, not a regular file''"

definition source_changed :: client_error where
  "source_changed = InvalidConfiguration ''multipart path source changed after preparation''"

definition snapshot_from_metadata :: "file_metadata \<Rightarrow> (client_error, file_snapshot) result" where
  "snapshot_from_metadata md =
     (if \<not> fm_is_file md then Err source_not_a_regular_file
      else res_bind (map_err source_io_error (fm_modified md)) (\<lambda>modified.
        Ok \<lparr>sn_len = fm_len md, sn_modified = modified, sn_device = fm_device md, sn_inode = fm_inode md,
            sn_ctime_seconds = fm_ctime_seconds md, sn_ctime_nanoseconds = fm_ctime_nanoseconds md\<rparr>))"

definition snapshot_path :: "file_system \<Rightarrow> bytes \<Rightarrow> (client_error, file_snapshot) result" where
  "snapshot_path fs path =
     res_bind (map_err source_io_error (fs_lstat fs path)) (\<lambda>md.
       if fm_symlink md then Err source_is_a_symlink else snapshot_from_metadata md)"

definition verify_path_snapshot :: "file_system \<Rightarrow> bytes \<Rightarrow> file_snapshot \<Rightarrow> (client_error, unit) result" where
  "verify_path_snapshot fs path expected =
     res_bind (snapshot_path fs path) (\<lambda>current. if current = expected then Ok () else Err source_changed)"

text \<open>\<^verbatim>\<open>Path::file_name\<close>: the last component, unless the path has none or it is the parent directory.\<close>

definition path_file_name :: "bytes \<Rightarrow> bytes option" where
  "path_file_name path =
     (let cs = filter (\<lambda>c. c \<noteq> [] \<and> c \<noteq> ''.'') (split_on (CHR ''/'') path)
      in if cs = [] \<or> last cs = ''..'' then None else Some (last cs))"

definition DEFAULT_PART_MIME :: bytes where "DEFAULT_PART_MIME = ''application/octet-stream''"
definition DEFAULT_PART_FILE_NAME :: bytes where "DEFAULT_PART_FILE_NAME = ''file''"

definition explicit_or_default_file_name :: "file_name omittable \<Rightarrow> bytes option \<Rightarrow> (client_error, file_name) result" where
  "explicit_or_default_file_name name path =
     (case name of
        Present v \<Rightarrow> Ok v
      | Omitted \<Rightarrow>
          (case path of
             Some p \<Rightarrow>
               (case path_file_name p of
                  Some v \<Rightarrow> if utf8_valid v then map_err (\<lambda>_. source_error) (file_name_new v) else Err source_error
                | None \<Rightarrow> Err source_error)
           | None \<Rightarrow> map_err (\<lambda>_. source_error) (file_name_new DEFAULT_PART_FILE_NAME)))"

datatype prepared_inner = PreparedBytes bytes | PreparedPath bytes file_snapshot

record prepared_source =
  ps_inner :: prepared_inner
  ps_file_name :: file_name
  ps_media_type :: "media_type option"
  ps_length :: nat

text \<open>A slice is never longer than \<^verbatim>\<open>u64\<close> allows.\<close>

definition prepare_source :: "file_system \<Rightarrow> replayable_source \<Rightarrow> (client_error, prepared_source) result" where
  "prepare_source fs s =
     (case s of
        BytesSource bs name media \<Rightarrow>
          res_bind (explicit_or_default_file_name name None) (\<lambda>v.
            Ok \<lparr>ps_inner = PreparedBytes bs, ps_file_name = v, ps_media_type = omittable_into_option media, ps_length = length bs\<rparr>)
      | PathSource path name media \<Rightarrow>
          res_bind (snapshot_path fs path) (\<lambda>snapshot.
          res_bind (explicit_or_default_file_name name (Some path)) (\<lambda>v.
            Ok \<lparr>ps_inner = PreparedPath path snapshot, ps_file_name = v, ps_media_type = omittable_into_option media,
                ps_length = sn_len snapshot\<rparr>)))"

section \<open>Forms\<close>

datatype part_body = BytesBody bytes | FileBody bytes | StreamBody "(bytes, bytes) result list"

record form_part =
  fp_body :: part_body
  fp_length :: "nat option"
  fp_file_name :: bytes
  fp_mime :: bytes

text \<open>The media-type parser of the HTTP library is a parameter.\<close>

definition apply_part_metadata ::
    "(bytes \<Rightarrow> http_error option) \<Rightarrow> part_body \<Rightarrow> nat option \<Rightarrow> file_name option \<Rightarrow> media_type option \<Rightarrow> (client_error, form_part) result" where
  "apply_part_metadata mime bd len name media =
     (let m = (case media of Some v \<Rightarrow> v | None \<Rightarrow> DEFAULT_PART_MIME)
      in case mime m of
           Some e \<Rightarrow> Err (from_reqwest e)
         | None \<Rightarrow>
             Ok \<lparr>fp_body = bd, fp_length = len,
                 fp_file_name = (case name of Some v \<Rightarrow> v | None \<Rightarrow> DEFAULT_PART_FILE_NAME), fp_mime = m\<rparr>)"

definition open_source :: "file_system \<Rightarrow> prepared_inner \<Rightarrow> (client_error, part_body) result" where
  "open_source fs inner =
     (case inner of
        PreparedBytes bs \<Rightarrow> Ok (BytesBody bs)
      | PreparedPath path snapshot \<Rightarrow>
          res_bind (verify_path_snapshot fs path snapshot) (\<lambda>_.
          res_bind (map_err source_io_error (fs_open fs path)) (\<lambda>file.
          res_bind (map_err source_io_error (of_metadata file)) (\<lambda>opened.
          res_bind (snapshot_from_metadata opened) (\<lambda>current.
            if current \<noteq> snapshot then Err source_changed
            else Ok (FileBody (take (sn_len snapshot) (of_content file))))))))"

definition build_part :: "(bytes \<Rightarrow> http_error option) \<Rightarrow> file_system \<Rightarrow> prepared_source \<Rightarrow> (client_error, form_part) result" where
  "build_part mime fs s =
     res_bind (open_source fs (ps_inner s)) (\<lambda>bd.
       apply_part_metadata mime bd (Some (ps_length s)) (Some (ps_file_name s)) (ps_media_type s))"

record form =
  form_texts :: "(bytes \<times> bytes) list"
  form_parts :: "(bytes \<times> form_part) list"

record replayable_form =
  rf_texts :: "(bytes \<times> bytes) list"
  rf_parts :: "(bytes \<times> prepared_source \<times> bytes option) list"

definition replayable_form_new :: replayable_form where
  "replayable_form_new = \<lparr>rf_texts = [], rf_parts = []\<rparr>"

definition form_text :: "bytes \<Rightarrow> bytes \<Rightarrow> replayable_form \<Rightarrow> replayable_form" where
  "form_text name v f = f\<lparr>rf_texts := rf_texts f @ [(name, v)]\<rparr>"

definition form_part_of :: "bytes \<Rightarrow> prepared_source \<Rightarrow> replayable_form \<Rightarrow> replayable_form" where
  "form_part_of name s f = f\<lparr>rf_parts := rf_parts f @ [(name, s, None)]\<rparr>"

definition part_with_file_name :: "bytes \<Rightarrow> prepared_source \<Rightarrow> bytes \<Rightarrow> replayable_form \<Rightarrow> replayable_form" where
  "part_with_file_name name s v f = f\<lparr>rf_parts := rf_parts f @ [(name, s, Some v)]\<rparr>"

text \<open>Each part has its own moment; the file system may be another one for each.\<close>

fun build_parts ::
    "(bytes \<Rightarrow> http_error option) \<Rightarrow> (nat \<Rightarrow> file_system) \<Rightarrow> nat \<Rightarrow> (bytes \<times> prepared_source \<times> bytes option) list
       \<Rightarrow> (client_error, (bytes \<times> form_part) list) result" where
  "build_parts mime fs i [] = Ok []"
| "build_parts mime fs i ((name, s, v) # ps) =
     res_bind (build_part mime (fs i) s) (\<lambda>part.
     res_bind (build_parts mime fs (Suc i) ps) (\<lambda>parts.
       Ok ((name, case v of Some w \<Rightarrow> part\<lparr>fp_file_name := w\<rparr> | None \<Rightarrow> part) # parts)))"

definition build_form ::
    "(bytes \<Rightarrow> http_error option) \<Rightarrow> (nat \<Rightarrow> file_system) \<Rightarrow> replayable_form \<Rightarrow> (client_error, form) result" where
  "build_form mime fs f =
     res_bind (build_parts mime fs 0 (rf_parts f)) (\<lambda>parts. Ok \<lparr>form_texts = rf_texts f, form_parts = parts\<rparr>)"

section \<open>The lanes of the transport\<close>

text \<open>What a request carries, and the request the library is given.\<close>

datatype payload = NoPayload | JsonPayload bytes | FormPayload form

record multipart_request =
  mq_method :: bytes
  mq_url :: url
  mq_timeout :: duration
  mq_headers :: "(bytes \<times> bytes) list"
  mq_payload :: payload

text \<open>
  The environment of a call: the credential provider and the clocks are those of the JSON transport; the first argument of the
  other fields is the number of the attempt.
\<close>

record multipart_env =
  mp_send :: send_env
  mp_mime :: "bytes \<Rightarrow> http_error option"
  mp_fs :: "nat \<Rightarrow> nat \<Rightarrow> file_system"
  mp_form_took :: "nat \<Rightarrow> duration"
  mp_build :: "nat \<Rightarrow> multipart_request \<Rightarrow> http_error option"
  mp_http :: "nat \<Rightarrow> multipart_request \<Rightarrow> duration \<times> (transport_failure, http_response) result"

definition is_success_status :: "nat \<Rightarrow> bool" where
  "is_success_status st \<longleftrightarrow> st = 200 \<or> st = 201"

text \<open>The helpers this file has of its own, beside those of the JSON transport.\<close>

definition multipart_same_origin :: "url \<Rightarrow> url \<Rightarrow> bool" where
  "multipart_same_origin l r \<longleftrightarrow> url_scheme l = url_scheme r \<and> url_host l = url_host r \<and> url_port l = url_port r"

definition multipart_ensure_same_origin :: "transport \<Rightarrow> url \<Rightarrow> (client_error, unit) result" where
  "multipart_ensure_same_origin t u =
     (if multipart_same_origin u (t_base_url t) then Ok ()
      else Err (InvalidConfiguration ''operation URL escaped the configured authentication origin''))"

definition multipart_remaining_time :: "duration \<Rightarrow> duration \<Rightarrow> (client_error, duration) result" where
  "multipart_remaining_time elapsed overall_timeout =
     (if overall_timeout \<le> elapsed then Err DeadlineExceeded else Ok (overall_timeout - elapsed))"

definition multipart_local_retry_delay :: "nat \<Rightarrow> nat option \<Rightarrow> duration" where
  "multipart_local_retry_delay retries nanos =
     (let base = F64_HALF + min retries 4 * 2 ^ 52;
          fraction = (case nanos of Some n \<Rightarrow> f64_nearest (n * F64_ONE_UNITS) (10 ^ 9) | None \<Rightarrow> F64_HALF)
      in round_div (f64_units (f64_mul_mag base (f64_add_mag F64_THREE_QUARTERS (f64_mul_mag fraction F64_QUARTER))) * 10 ^ 9)
           F64_ONE_UNITS)"

definition multipart_retry_delay ::
    "(bytes \<Rightarrow> duration option) \<Rightarrow> nat option \<Rightarrow> (bytes \<Rightarrow> bytes option) \<Rightarrow> nat \<Rightarrow> duration \<Rightarrow> duration option" where
  "multipart_retry_delay http_date nanos headers retries maximum =
     (case server_retry_delay http_date headers maximum of
        Valid delay \<Rightarrow> Some delay
      | Absent \<Rightarrow> Some (multipart_local_retry_delay retries nanos)
      | TooLong \<Rightarrow> None)"

definition multipart_can_wait :: "duration \<Rightarrow> duration \<Rightarrow> duration \<Rightarrow> bool" where
  "multipart_can_wait elapsed delay overall_timeout \<longleftrightarrow> elapsed + delay < overall_timeout"

fun multipart_read_chunks :: "nat \<Rightarrow> (http_error, bytes) result list \<Rightarrow> bytes \<Rightarrow> (http_error, bytes \<times> bool) result" where
  "multipart_read_chunks limit [] acc = Ok (acc, False)"
| "multipart_read_chunks limit (Err e # cs) acc = Err e"
| "multipart_read_chunks limit (Ok chunk # cs) acc =
     (let remaining = saturating_sub limit (length acc)
      in if length chunk > remaining then Ok (acc @ take remaining chunk, True)
         else multipart_read_chunks limit cs (acc @ chunk))"

definition multipart_read_up_to :: "http_response \<Rightarrow> nat \<Rightarrow> (http_error, bytes \<times> bool) result" where
  "multipart_read_up_to r limit = multipart_read_chunks limit (rs_body r) []"

definition body_too_large :: "nat \<Rightarrow> response_meta \<Rightarrow> client_error" where
  "body_too_large limit mt = BodyTooLarge limit (meta_status mt) (meta_request_id mt)"

definition multipart_read_success :: "http_response \<Rightarrow> nat \<Rightarrow> response_meta \<Rightarrow> (client_error, bytes) result" where
  "multipart_read_success r limit mt =
     (if (case rs_content_length r of Some n \<Rightarrow> n > limit | None \<Rightarrow> False) then Err (body_too_large limit mt)
      else res_bind (map_err (\<lambda>e. from_response_body e mt) (multipart_read_up_to r limit)) (\<lambda>(bs, truncated).
        if truncated then Err (body_too_large limit mt) else Ok bs))"

definition MULTIPART_DECODE_PREVIEW_BYTES :: nat where "MULTIPART_DECODE_PREVIEW_BYTES = 8 * 1024"

definition multipart_decode_json ::
    "error_codec \<Rightarrow> 'a body_decoder \<Rightarrow> transport \<Rightarrow> http_response \<Rightarrow> (client_error, 'a api_response) result" where
  "multipart_decode_json c de t r =
     (let mt = rs_meta r
      in res_bind (multipart_read_success r (t_max_json_body_bytes t) mt) (\<lambda>bs.
         res_bind (map_err (\<lambda>(source, path). Decode source path (meta_status mt) (meta_request_id mt)
             (body_preview_of c (take (min (length bs) MULTIPART_DECODE_PREVIEW_BYTES) bs)
               (length bs > MULTIPART_DECODE_PREVIEW_BYTES))) (de bs)) (\<lambda>v.
           Ok \<lparr>body = v, meta = mt\<rparr>)))"

definition multipart_decode_bytes :: "transport \<Rightarrow> http_response \<Rightarrow> (client_error, bytes api_response) result" where
  "multipart_decode_bytes t r =
     (let mt = rs_meta r
      in res_bind (multipart_read_success r (t_max_json_body_bytes t) mt) (\<lambda>bs. Ok \<lparr>body = bs, meta = mt\<rparr>))"

text \<open>\<^verbatim>\<open>api_error\<close> always fails; this is the error.\<close>

definition multipart_api_error :: "error_codec \<Rightarrow> transport \<Rightarrow> http_response \<Rightarrow> client_error" where
  "multipart_api_error c t r =
     (let mt = rs_meta r
      in case multipart_read_up_to r (t_max_error_body_bytes t) of
           Err e \<Rightarrow> from_response_body e mt
         | Ok (bs, truncated) \<Rightarrow> Api (api_error_from_body c mt bs truncated))"

definition multipart_operation_url :: "transport \<Rightarrow> path_segment list \<Rightarrow> (client_error, url) result" where
  "multipart_operation_url t path =
     (case url_segments (t_base_url t) of
        None \<Rightarrow> Err (InvalidConfiguration ''base URL cannot contain path segments'')
      | Some segs \<Rightarrow>
          let u = (t_base_url t)\<lparr>url_segments := Some (foldl (\<lambda>acc s. push_segment acc (segment_value s)) (pop_if_empty segs) path)\<rparr>
          in res_bind (multipart_ensure_same_origin t u) (\<lambda>_. Ok u))"

definition multipart_headers :: "transport \<Rightarrow> bytes \<Rightarrow> bytes \<Rightarrow> (bytes \<times> bytes) list" where
  "multipart_headers t accept credential =
     [(''authorization'', credential), (''accept'', accept)]
     @ optional_header ''openai-organization'' (t_organization t)
     @ optional_header ''openai-project'' (t_project t)
     @ optional_header ''x-client-request-id'' (t_client_request_id t)"

text \<open>
  Three functions have the same loop, written out three times: they differ in the method, in what an attempt carries, in
  that a form is built anew for every attempt, within the time that remains, and in that only a download is retried whatever
  the policy says about mutations.
\<close>

datatype lane = FormLane replayable_form | JsonLane bytes | DownloadLane

definition lane_method :: "lane \<Rightarrow> bytes" where
  "lane_method l = (case l of DownloadLane \<Rightarrow> ''GET'' | _ \<Rightarrow> ''POST'')"

definition lane_retryable :: "retry_policy \<Rightarrow> lane \<Rightarrow> bool" where
  "lane_retryable policy l = (case l of DownloadLane \<Rightarrow> True | _ \<Rightarrow> retry_replayable_mutations policy)"

definition build_payload ::
    "multipart_env \<Rightarrow> lane \<Rightarrow> nat \<Rightarrow> duration \<Rightarrow> duration \<Rightarrow> duration \<times> (client_error, payload) result" where
  "build_payload env l n elapsed timeout =
     (case l of
        FormLane f \<Rightarrow>
          (case multipart_remaining_time elapsed timeout of
             Err e \<Rightarrow> (elapsed, Err e)
           | Ok remaining \<Rightarrow>
               if remaining \<le> mp_form_took env n then (timeout, Err DeadlineExceeded)
               else (elapsed + mp_form_took env n,
                     res_bind (build_form (mp_mime env) (mp_fs env n) f) (\<lambda>frm. Ok (FormPayload frm))))
      | JsonLane bs \<Rightarrow> (elapsed, Ok (JsonPayload bs))
      | DownloadLane \<Rightarrow> (elapsed, Ok NoPayload))"

definition multipart_request_of :: "transport \<Rightarrow> url \<Rightarrow> bytes \<Rightarrow> lane \<Rightarrow> payload \<Rightarrow> auth_lease \<Rightarrow> duration \<Rightarrow> multipart_request" where
  "multipart_request_of t u accept l pl lease remaining =
     \<lparr>mq_method = lane_method l, mq_url = u, mq_timeout = remaining,
      mq_headers = multipart_headers t accept (lease_header lease)
        @ (case pl of JsonPayload _ \<Rightarrow> [(''content-type'', ''application/json'')] | _ \<Rightarrow> []),
      mq_payload = pl\<rparr>"

datatype multipart_event =
    MpSent duration multipart_request "(transport_failure, http_response) result"
  | MpSlept duration duration
  | MpInvalidated nat

definition multipart_after_failure :: "transport \<Rightarrow> lane \<Rightarrow> multipart_env \<Rightarrow> nat \<Rightarrow> nat \<Rightarrow> duration \<Rightarrow> transport_failure \<Rightarrow> next_step" where
  "multipart_after_failure t l env n retries now e =
     (let policy = t_retry_policy t;
          delay = multipart_local_retry_delay retries (env_nanos (mp_send env) n)
      in if lane_retryable policy l \<and> retries < max_retries policy \<and> (tf_connect e \<or> he_timeout (tf_error e))
         then if multipart_can_wait now delay (t_overall_timeout t) then RetryAfter now delay else Return (Err (from_reqwest (tf_error e)))
         else Return (Err (from_reqwest (tf_error e))))"

definition multipart_after_response ::
    "error_codec \<Rightarrow> transport \<Rightarrow> lane \<Rightarrow> multipart_env \<Rightarrow> nat \<Rightarrow> nat \<Rightarrow> bool \<Rightarrow> auth_lease \<Rightarrow> duration \<Rightarrow> http_response \<Rightarrow> next_step" where
  "multipart_after_response c t l env n retries auth_refreshed lease now r =
     (let policy = t_retry_policy t; failed = Return (Err (multipart_api_error c t r))
      in case (if rs_status r = 401 \<and> \<not> auth_refreshed then lease_generation lease else None) of
           Some generation \<Rightarrow> RefreshAt now generation
         | None \<Rightarrow>
             if is_success_status (rs_status r) then Return (Ok r)
             else if lane_retryable policy l \<and> retries < max_retries policy \<and> should_retry_response (rs_status r) (rs_headers r)
             then (case multipart_retry_delay (env_date (mp_send env) n) (env_nanos (mp_send env) n) (rs_headers r) retries
                          (max_server_delay policy) of
                     Some delay \<Rightarrow> if multipart_can_wait now delay (t_overall_timeout t) then RetryAfter now delay else failed
                   | None \<Rightarrow> failed)
             else failed)"

definition multipart_exchange ::
    "transport \<Rightarrow> multipart_env \<Rightarrow> nat \<Rightarrow> url \<Rightarrow> bytes \<Rightarrow> lane \<Rightarrow> payload \<Rightarrow> duration
       \<Rightarrow> (client_error, duration \<times> auth_lease \<times> multipart_request \<times> duration \<times> (transport_failure, http_response) result) result" where
  "multipart_exchange t env n u accept l pl elapsed =
     (case authorization_with_budget (mp_send env) n elapsed (t_overall_timeout t) of
        (now, Err e) \<Rightarrow> Err e
      | (now, Ok (lease, remaining)) \<Rightarrow>
          let request = multipart_request_of t u accept l pl lease remaining
          in case mp_build env n request of
               Some e \<Rightarrow> Err (from_reqwest e)
             | None \<Rightarrow>
                 res_bind (multipart_ensure_same_origin t (mq_url request)) (\<lambda>_. Ok (now, lease, request, mp_http env n request)))"

definition multipart_attempt ::
    "error_codec \<Rightarrow> transport \<Rightarrow> multipart_env \<Rightarrow> url \<Rightarrow> bytes \<Rightarrow> lane \<Rightarrow> nat \<Rightarrow> nat \<Rightarrow> bool \<Rightarrow> duration
       \<Rightarrow> multipart_event list \<times> next_step" where
  "multipart_attempt c t env u accept l n retries auth_refreshed elapsed =
     (case build_payload env l n elapsed (t_overall_timeout t) of
        (_, Err e) \<Rightarrow> ([], Return (Err e))
      | (built, Ok pl) \<Rightarrow>
          (case multipart_exchange t env n u accept l pl built of
             Err e \<Rightarrow> ([], Return (Err e))
           | Ok (now, lease, request, took, Err e) \<Rightarrow>
               ([MpSent now request (Err e)], multipart_after_failure t l env n retries (now + took) e)
           | Ok (now, lease, request, took, Ok r) \<Rightarrow>
               ([MpSent now request (Ok r)], multipart_after_response c t l env n retries auth_refreshed lease (now + took) r)))"

lemma multipart_attempt_retry:
  "multipart_attempt c t env u accept l n retries auth_refreshed elapsed = (evs, RetryAfter s d) \<Longrightarrow> retries < max_retries (t_retry_policy t)"
  by (auto simp: multipart_attempt_def multipart_after_failure_def multipart_after_response_def Let_def
      split: prod.splits sum.splits option.splits if_splits)

lemma multipart_attempt_refresh:
  "multipart_attempt c t env u accept l n retries auth_refreshed elapsed = (evs, RefreshAt s g) \<Longrightarrow> \<not> auth_refreshed"
  by (auto simp: multipart_attempt_def multipart_after_failure_def multipart_after_response_def Let_def
      split: prod.splits sum.splits option.splits if_splits)

function multipart_loop ::
    "error_codec \<Rightarrow> transport \<Rightarrow> multipart_env \<Rightarrow> url \<Rightarrow> bytes \<Rightarrow> lane \<Rightarrow> nat \<Rightarrow> nat \<Rightarrow> bool \<Rightarrow> duration
       \<Rightarrow> multipart_event list \<times> (client_error, http_response) result" where
  "multipart_loop c t env u accept l n retries auth_refreshed elapsed =
     (case multipart_attempt c t env u accept l n retries auth_refreshed elapsed of
        (evs, Return r) \<Rightarrow> (evs, r)
      | (evs, RetryAfter now delay) \<Rightarrow>
          (let (evs', r) = multipart_loop c t env u accept l (n + 1) (retries + 1) auth_refreshed (now + delay)
           in (evs @ MpSlept now delay # evs', r))
      | (evs, RefreshAt now generation) \<Rightarrow>
          (let (evs', r) = multipart_loop c t env u accept l (n + 1) retries True now
           in (evs @ MpInvalidated generation # evs', r)))"
  by pat_completeness auto

termination
  by (relation "measure (\<lambda>(c, t, env, u, accept, l, n, retries, auth_refreshed, elapsed).
      (max_retries (t_retry_policy t) - retries) + (if auth_refreshed then 0 else 1))")
    (auto dest!: multipart_attempt_retry [OF sym] multipart_attempt_refresh [OF sym])

declare multipart_loop.simps [simp del]

definition send_replayable_form ::
    "error_codec \<Rightarrow> transport \<Rightarrow> multipart_env \<Rightarrow> path_segment list \<Rightarrow> replayable_form \<Rightarrow> bytes
       \<Rightarrow> multipart_event list \<times> (client_error, http_response) result" where
  "send_replayable_form c t env path f accept =
     (case multipart_operation_url t path of
        Err e \<Rightarrow> ([], Err e)
      | Ok u \<Rightarrow> multipart_loop c t env u accept (FormLane f) 0 0 False 0)"

text \<open>The body is what the caller's serializer gives.\<close>

definition send_replayable_json ::
    "error_codec \<Rightarrow> transport \<Rightarrow> multipart_env \<Rightarrow> path_segment list \<Rightarrow> (bytes, bytes) result \<Rightarrow> bytes
       \<Rightarrow> multipart_event list \<times> (client_error, http_response) result" where
  "send_replayable_json c t env path bd accept =
     (case multipart_operation_url t path of
        Err e \<Rightarrow> ([], Err e)
      | Ok u \<Rightarrow>
          (case bd of
             Err e \<Rightarrow> ([], Err (Encode e))
           | Ok encoded \<Rightarrow> multipart_loop c t env u accept (JsonLane encoded) 0 0 False 0))"

definition send_download_with_query ::
    "error_codec \<Rightarrow> transport \<Rightarrow> multipart_env \<Rightarrow> (json_number \<Rightarrow> bytes) \<Rightarrow> path_segment list \<Rightarrow> bytes
       \<Rightarrow> (bytes, json) result option \<Rightarrow> multipart_event list \<times> (client_error, http_response) result" where
  "send_download_with_query c t env number_text path accept query =
     (case res_bind (multipart_operation_url t path) (\<lambda>u.
             case query of None \<Rightarrow> Ok u | Some q \<Rightarrow> append_query number_text q u) of
        Err e \<Rightarrow> ([], Err e)
      | Ok u \<Rightarrow> multipart_loop c t env u accept DownloadLane 0 0 False 0)"

text \<open>A one-shot form is sent at most once; a refused credential is invalidated for later calls, and the request is not repeated.\<close>

definition send_one_shot_form ::
    "error_codec \<Rightarrow> transport \<Rightarrow> multipart_env \<Rightarrow> path_segment list \<Rightarrow> form \<Rightarrow> bytes
       \<Rightarrow> multipart_event list \<times> (client_error, http_response) result" where
  "send_one_shot_form c t env path frm accept =
     (case multipart_operation_url t path of
        Err e \<Rightarrow> ([], Err e)
      | Ok u \<Rightarrow>
          (case multipart_exchange t env 0 u accept (FormLane replayable_form_new) (FormPayload frm) 0 of
             Err e \<Rightarrow> ([], Err e)
           | Ok (now, lease, request, took, Err e) \<Rightarrow> ([MpSent now request (Err e)], Err (from_reqwest (tf_error e)))
           | Ok (now, lease, request, took, Ok r) \<Rightarrow>
               (MpSent now request (Ok r) #
                  (case (if rs_status r = 401 then lease_generation lease else None) of Some g \<Rightarrow> [MpInvalidated g] | None \<Rightarrow> []),
                if is_success_status (rs_status r) then Ok r else Err (multipart_api_error c t r))))"

section \<open>One-shot sources\<close>

datatype one_shot_inner = OneShotReader "(bytes, bytes) result list" | OneShotStream "(bytes, bytes) result list"

record one_shot_source =
  os_inner :: one_shot_inner
  os_length :: "nat option"
  os_file_name :: "file_name option"
  os_media_type :: "media_type option"

definition into_part :: "(bytes \<Rightarrow> http_error option) \<Rightarrow> one_shot_source \<Rightarrow> (client_error, form_part) result" where
  "into_part mime s =
     apply_part_metadata mime
       (case os_inner s of OneShotReader cs \<Rightarrow> StreamBody cs | OneShotStream cs \<Rightarrow> StreamBody cs)
       (os_length s) (os_file_name s) (os_media_type s)"

section \<open>File operations\<close>

text \<open>The purpose and the anchor of an expiration are open enums, kept as the strings they stand for.\<close>

definition MIN_FILE_EXPIRATION_SECONDS :: nat where "MIN_FILE_EXPIRATION_SECONDS = 3600"
definition MAX_FILE_EXPIRATION_SECONDS :: nat where "MAX_FILE_EXPIRATION_SECONDS = 2592000"

record file_expiration =
  fe_anchor :: bytes
  fe_seconds :: nat

definition file_expiration_from_raw_anchor :: "bytes \<Rightarrow> nat \<Rightarrow> (nat, file_expiration) result" where
  "file_expiration_from_raw_anchor anchor seconds =
     (if \<not> (MIN_FILE_EXPIRATION_SECONDS \<le> seconds \<and> seconds \<le> MAX_FILE_EXPIRATION_SECONDS) then Err seconds
      else Ok \<lparr>fe_anchor = anchor, fe_seconds = seconds\<rparr>)"

record create_file_request =
  cf_file :: replayable_source
  cf_purpose :: bytes
  cf_expires_after :: "file_expiration omittable"

record create_file_fields =
  cff_purpose :: bytes
  cff_expiration :: "(bytes \<times> bytes) option"

definition create_file_fields_new :: "bytes \<Rightarrow> file_expiration omittable \<Rightarrow> create_file_fields" where
  "create_file_fields_new purpose expires_after =
     \<lparr>cff_purpose = purpose,
      cff_expiration = (case expires_after of Omitted \<Rightarrow> None | Present v \<Rightarrow> Some (fe_anchor v, nat_to_string (fe_seconds v)))\<rparr>"

definition fields_texts :: "create_file_fields \<Rightarrow> (bytes \<times> bytes) list" where
  "fields_texts f =
     (''purpose'', cff_purpose f) #
     (case cff_expiration f of
        Some (anchor, seconds) \<Rightarrow> [(''expires_after[anchor]'', anchor), (''expires_after[seconds]'', seconds)] | None \<Rightarrow> [])"

definition apply_prepared :: "create_file_fields \<Rightarrow> replayable_form \<Rightarrow> replayable_form" where
  "apply_prepared f frm =
     (let frm' = form_text ''purpose'' (cff_purpose f) frm
      in case cff_expiration f of
           Some (anchor, seconds) \<Rightarrow> form_text ''expires_after[seconds]'' seconds (form_text ''expires_after[anchor]'' anchor frm')
         | None \<Rightarrow> frm')"

text \<open>The first file system is the one sources are prepared in.\<close>

definition create_file ::
    "error_codec \<Rightarrow> transport \<Rightarrow> multipart_env \<Rightarrow> file_system \<Rightarrow> 'a body_decoder \<Rightarrow> create_file_request
       \<Rightarrow> multipart_event list \<times> (client_error, 'a api_response) result" where
  "create_file c t env fs de request =
     (case prepare_source fs (cf_file request) of
        Err e \<Rightarrow> ([], Err e)
      | Ok s \<Rightarrow>
          let prepared = form_part_of ''file'' s
                (apply_prepared (create_file_fields_new (cf_purpose request) (cf_expires_after request)) replayable_form_new);
              (evs, r) = send_replayable_form c t env [Literal ''files''] prepared ''application/json''
          in (evs, res_bind r (multipart_decode_json c de t)))"

definition create_file_one_shot ::
    "error_codec \<Rightarrow> transport \<Rightarrow> multipart_env \<Rightarrow> 'a body_decoder \<Rightarrow> one_shot_source \<Rightarrow> bytes \<Rightarrow> file_expiration omittable
       \<Rightarrow> multipart_event list \<times> (client_error, 'a api_response) result" where
  "create_file_one_shot c t env de source purpose expires_after =
     (case into_part (mp_mime env) source of
        Err e \<Rightarrow> ([], Err e)
      | Ok part \<Rightarrow>
          let (evs, r) = send_one_shot_form c t env [Literal ''files'']
                \<lparr>form_texts = fields_texts (create_file_fields_new purpose expires_after), form_parts = [(''file'', part)]\<rparr>
                ''application/json''
          in (evs, res_bind r (multipart_decode_json c de t)))"

definition upload_part_path :: "bytes \<Rightarrow> (client_error, path_segment list) result" where
  "upload_part_path upload_id =
     res_bind (path_parameter ''upload_id'' upload_id) (\<lambda>p. Ok [Literal ''uploads'', p, Literal ''parts''])"

definition add_upload_part ::
    "error_codec \<Rightarrow> transport \<Rightarrow> multipart_env \<Rightarrow> file_system \<Rightarrow> 'a body_decoder \<Rightarrow> bytes \<Rightarrow> replayable_source
       \<Rightarrow> multipart_event list \<times> (client_error, 'a api_response) result" where
  "add_upload_part c t env fs de upload_id source =
     (case upload_part_path upload_id of
        Err e \<Rightarrow> ([], Err e)
      | Ok path \<Rightarrow>
          (case prepare_source fs source of
             Err e \<Rightarrow> ([], Err e)
           | Ok s \<Rightarrow>
               let (evs, r) = send_replayable_form c t env path (form_part_of ''data'' s replayable_form_new) ''application/json''
               in (evs, res_bind r (multipart_decode_json c de t))))"

definition add_upload_part_one_shot ::
    "error_codec \<Rightarrow> transport \<Rightarrow> multipart_env \<Rightarrow> 'a body_decoder \<Rightarrow> bytes \<Rightarrow> one_shot_source
       \<Rightarrow> multipart_event list \<times> (client_error, 'a api_response) result" where
  "add_upload_part_one_shot c t env de upload_id source =
     (case upload_part_path upload_id of
        Err e \<Rightarrow> ([], Err e)
      | Ok path \<Rightarrow>
          (case into_part (mp_mime env) source of
             Err e \<Rightarrow> ([], Err e)
           | Ok part \<Rightarrow>
               let (evs, r) = send_one_shot_form c t env path \<lparr>form_texts = [], form_parts = [(''data'', part)]\<rparr> ''application/json''
               in (evs, res_bind r (multipart_decode_json c de t))))"

text \<open>A download: its metadata, its media type and length, and the chunks of its body.\<close>

record file_content_stream =
  fc_meta :: response_meta
  fc_content_type :: "bytes option"
  fc_content_length :: "nat option"
  fc_chunks :: "(client_error, bytes) result list"

definition content_stream_from_response :: "http_response \<Rightarrow> file_content_stream" where
  "content_stream_from_response r =
     \<lparr>fc_meta = rs_meta r, fc_content_type = rs_headers r ''content-type'', fc_content_length = rs_content_length r,
      fc_chunks = map (map_err (\<lambda>e. from_response_body e (rs_meta r))) (rs_body r)\<rparr>"

fun collect_chunks :: "nat \<Rightarrow> response_meta \<Rightarrow> (client_error, bytes) result list \<Rightarrow> bytes \<Rightarrow> (client_error, bytes) result" where
  "collect_chunks limit mt [] acc = Ok acc"
| "collect_chunks limit mt (Inl e # cs) acc = Err e"
| "collect_chunks limit mt (Inr chunk # cs) acc =
     (if saturating_sub limit (length acc) < length chunk then Err (BodyTooLarge limit (meta_status mt) (meta_request_id mt))
      else collect_chunks limit mt cs (acc @ chunk))"

definition content_collect :: "file_content_stream \<Rightarrow> nat \<Rightarrow> (client_error, bytes api_response) result" where
  "content_collect s limit =
     (if (case fc_content_length s of Some n \<Rightarrow> limit < n | None \<Rightarrow> False)
      then Err (BodyTooLarge limit (meta_status (fc_meta s)) (meta_request_id (fc_meta s)))
      else res_bind (collect_chunks limit (fc_meta s) (fc_chunks s) []) (\<lambda>bs. Ok \<lparr>body = bs, meta = fc_meta s\<rparr>))"

definition download_file ::
    "error_codec \<Rightarrow> transport \<Rightarrow> multipart_env \<Rightarrow> (json_number \<Rightarrow> bytes) \<Rightarrow> bytes
       \<Rightarrow> multipart_event list \<times> (client_error, file_content_stream) result" where
  "download_file c t env number_text file_id =
     (case path_parameter ''file_id'' file_id of
        Err e \<Rightarrow> ([], Err e)
      | Ok p \<Rightarrow>
          let (evs, r) = send_download_with_query c t env number_text [Literal ''files'', p, Literal ''content''] ''application/binary'' None
          in (evs, res_bind r (\<lambda>x. Ok (content_stream_from_response x))))"

end
