(* ===== verification/Multipart_Correctness.thy ===== *)
theory Multipart_Correctness
  imports Multipart Transport_Correctness
begin

text \<open>
  What the uploads and downloads guarantee: an upload repeats the same form or stops, a one-shot upload is never repeated, the
  loops written out for JSON bodies and downloads are the loop of the JSON transport, and a collected download is a bounded
  read of its body.
\<close>

section \<open>One attempt\<close>

declare send_loop.simps [simp del]

lemma multipart_exchange_Ok:
  assumes "multipart_exchange t env n u accept l pl elapsed = Ok (now, lease, request, took, res)"
  shows "now < t_overall_timeout t \<and> request = multipart_request_of t u accept l pl lease (t_overall_timeout t - now)
    \<and> mp_http env n request = (took, res)"
  using assms
  by (auto simp: multipart_exchange_def Let_def res_bind_Ok_iff split: prod.splits sum.splits option.splits if_splits
      dest!: authorization_with_budget_Ok)

lemma multipart_attempt_cases:
  assumes "multipart_attempt c t env u accept l n retries auth_refreshed elapsed = (evs, step)"
  obtains (refused) e where "evs = []" and "step = Return (Err e)"
  | (sent) built pl now lease res took where "build_payload env l n elapsed (t_overall_timeout t) = (built, Ok pl)"
      and "now < t_overall_timeout t"
      and "evs = [MpSent now (multipart_request_of t u accept l pl lease (t_overall_timeout t - now)) res]"
      and "step = (case res of Err e \<Rightarrow> multipart_after_failure t l env n retries (now + took) e
                             | Ok r \<Rightarrow> multipart_after_response c t l env n retries auth_refreshed lease (now + took) r)"
proof -
  obtain built pres where b: "build_payload env l n elapsed (t_overall_timeout t) = (built, pres)" by fastforce
  show thesis
  proof (cases pres)
    case (Inl e)
    with b assms refused show thesis by (auto simp: multipart_attempt_def)
  next
    case (Inr pl)
    show thesis
    proof (cases "multipart_exchange t env n u accept l pl built")
      case (Inl e)
      with b Inr assms refused show thesis by (auto simp: multipart_attempt_def)
    next
      case x: (Inr x)
      obtain now lease request took res where xs: "x = (now, lease, request, took, res)" by (cases x) auto
      note ex = multipart_exchange_Ok [OF x [unfolded xs]]
      have "evs = [MpSent now request res]
        \<and> step = (case res of Err e \<Rightarrow> multipart_after_failure t l env n retries (now + took) e
                    | Ok r \<Rightarrow> multipart_after_response c t l env n retries auth_refreshed lease (now + took) r)"
        using assms b Inr x xs by (simp add: multipart_attempt_def split: sum.splits)
      with ex b Inr show thesis by (intro sent [of built pl now lease res took]) auto
    qed
  qed
qed

lemma multipart_retry_again:
  assumes "multipart_attempt c t env u accept l n retries auth_refreshed elapsed = (evs, RetryAfter s d)"
  shows "lane_retryable (t_retry_policy t) l \<and> retries < max_retries (t_retry_policy t)"
  using assms
  by (cases rule: multipart_attempt_cases)
    (auto simp: multipart_after_failure_def multipart_after_response_def Let_def split: sum.splits option.splits if_splits)

text \<open>The loop, one attempt at a time.\<close>

lemma multipart_loop_step:
  assumes "multipart_attempt c t env u accept l n retries auth_refreshed elapsed = (evs, step)"
  shows "multipart_loop c t env u accept l n retries auth_refreshed elapsed =
    (case step of
       Return r \<Rightarrow> (evs, r)
     | RetryAfter now delay \<Rightarrow>
         (let (evs', r) = multipart_loop c t env u accept l (Suc n) (Suc retries) auth_refreshed (now + delay)
          in (evs @ MpSlept now delay # evs', r))
     | RefreshAt now generation \<Rightarrow>
         (let (evs', r) = multipart_loop c t env u accept l (Suc n) retries True now in (evs @ MpInvalidated generation # evs', r)))"
  by (subst multipart_loop.simps) (simp add: assms split: next_step.split)

lemma multipart_loop_induct [consumes 1, case_names last retry refresh]:
  assumes "multipart_loop c t env u accept l n retries auth_refreshed elapsed = (evs, r)"
    and "\<And>n retries auth_refreshed elapsed evs r.
      multipart_attempt c t env u accept l n retries auth_refreshed elapsed = (evs, Return r) \<Longrightarrow> P n retries auth_refreshed elapsed evs r"
    and "\<And>n retries auth_refreshed elapsed evs s d evs' r.
      multipart_attempt c t env u accept l n retries auth_refreshed elapsed = (evs, RetryAfter s d) \<Longrightarrow>
      P (Suc n) (Suc retries) auth_refreshed (s + d) evs' r \<Longrightarrow> P n retries auth_refreshed elapsed (evs @ MpSlept s d # evs') r"
    and "\<And>n retries elapsed evs s g evs' r.
      multipart_attempt c t env u accept l n retries False elapsed = (evs, RefreshAt s g) \<Longrightarrow>
      P (Suc n) retries True s evs' r \<Longrightarrow> P n retries False elapsed (evs @ MpInvalidated g # evs') r"
  shows "P n retries auth_refreshed elapsed evs r"
  using assms(1)
proof (induction "max_retries (t_retry_policy t) - retries + (if auth_refreshed then 0 else 1 :: nat)"
    arbitrary: n retries auth_refreshed elapsed evs r rule: less_induct)
  case (less retries auth_refreshed n elapsed)
  obtain evs0 step where a: "multipart_attempt c t env u accept l n retries auth_refreshed elapsed = (evs0, step)" by fastforce
  note run = less.prems [unfolded multipart_loop_step [OF a]]
  show ?case
  proof (cases step)
    case (Return r')
    with run a assms(2) show ?thesis by auto
  next
    case (RetryAfter s d)
    obtain evs' r' where rec: "multipart_loop c t env u accept l (Suc n) (Suc retries) auth_refreshed (s + d) = (evs', r')" by fastforce
    have "retries < max_retries (t_retry_policy t)" using a RetryAfter multipart_attempt_retry by blast
    with less.hyps [OF _ rec] have "P (Suc n) (Suc retries) auth_refreshed (s + d) evs' r'" by auto
    from assms(3) [OF a [unfolded RetryAfter] this] run RetryAfter rec show ?thesis by auto
  next
    case (RefreshAt s g)
    obtain evs' r' where rec: "multipart_loop c t env u accept l (Suc n) retries True s = (evs', r')" by fastforce
    have fresh: "\<not> auth_refreshed" using a RefreshAt multipart_attempt_refresh by blast
    with less.hyps [OF _ rec] have "P (Suc n) retries True s evs' r'" by auto
    with assms(4) a RefreshAt fresh run rec show ?thesis by auto
  qed
qed

section \<open>How often an upload is sent\<close>

fun mp_sent :: "multipart_event \<Rightarrow> bool" where
  "mp_sent (MpSent _ _ _) = True" | "mp_sent _ = False"

fun mp_slept :: "multipart_event \<Rightarrow> bool" where
  "mp_slept (MpSlept _ _) = True" | "mp_slept _ = False"

fun in_budget :: "duration \<Rightarrow> multipart_event \<Rightarrow> bool" where
  "in_budget timeout (MpSent now q _) \<longleftrightarrow> now < timeout \<and> mq_timeout q = timeout - now" | "in_budget _ _ \<longleftrightarrow> True"

definition upload_retries :: "transport \<Rightarrow> nat" where
  "upload_retries t = (if retry_replayable_mutations (t_retry_policy t) then max_retries (t_retry_policy t) else 0)"

lemma multipart_attempt_events:
  assumes "multipart_attempt c t env u accept l n retries auth_refreshed elapsed = (evs, step)"
  shows "length (filter mp_sent evs) \<le> 1 \<and> filter mp_slept evs = [] \<and> list_all (in_budget (t_overall_timeout t)) evs"
  using assms by (cases rule: multipart_attempt_cases) (auto simp: multipart_request_of_def)

lemma multipart_loop_counts:
  assumes "multipart_loop c t env u accept l n retries auth_refreshed elapsed = (evs, r)"
  shows "length (filter mp_sent evs) \<le> length (filter mp_slept evs) + (if auth_refreshed then 1 else 2)
    \<and> length (filter mp_slept evs) \<le> (if lane_retryable (t_retry_policy t) l then max_retries (t_retry_policy t) else 0) - retries
    \<and> list_all (in_budget (t_overall_timeout t)) evs"
  using assms
proof (induction rule: multipart_loop_induct)
  case (last n retries auth_refreshed elapsed evs r)
  then show ?case using multipart_attempt_events by fastforce
next
  case (retry n retries auth_refreshed elapsed evs s d evs' r)
  with multipart_attempt_events [OF retry(1)] multipart_retry_again [OF retry(1)] show ?case by auto
next
  case (refresh n retries elapsed evs s g evs' r)
  with multipart_attempt_events [OF refresh(1)] show ?case by auto
qed

text \<open>
  An upload is sent at most as often as the retry policy allows and once more for a refreshed credential, twice at most
  and with no pause when the policy excludes mutations; every request is sent within the overall timeout and carries what is
  left of it as its own.
\<close>

theorem upload_attempts_bounded:
  "length (filter mp_sent (fst (send_replayable_form c t env path f accept))) \<le> upload_retries t + 2
   \<and> length (filter mp_slept (fst (send_replayable_form c t env path f accept))) \<le> upload_retries t
   \<and> list_all (in_budget (t_overall_timeout t)) (fst (send_replayable_form c t env path f accept))"
proof (cases "multipart_operation_url t path")
  case (Inr u)
  obtain evs r where run: "multipart_loop c t env u accept (FormLane f) 0 0 False 0 = (evs, r)" by fastforce
  from multipart_loop_counts [OF run] Inr run show ?thesis
    by (auto simp: send_replayable_form_def upload_retries_def lane_retryable_def)
qed (simp add: send_replayable_form_def)

section \<open>What an upload repeats\<close>

text \<open>
  What the code relies on: a regular file with the identity, size and times of a snapshot has the content it had then, and as
  many bytes as its size.  \<open>content\<close> is that content.
\<close>

definition snapshots_identify :: "multipart_env \<Rightarrow> (file_snapshot \<Rightarrow> bytes) \<Rightarrow> bool" where
  "snapshots_identify env content \<longleftrightarrow>
     (\<forall>sn. length (content sn) = sn_len sn)
     \<and> (\<forall>n i path file md sn. fs_open (mp_fs env n i) path = Ok file \<longrightarrow> of_metadata file = Ok md \<longrightarrow>
          snapshot_from_metadata md = Ok sn \<longrightarrow> of_content file = content sn)"

text \<open>The form of an upload, from the prepared sources and those contents alone.\<close>

definition part_of :: "(file_snapshot \<Rightarrow> bytes) \<Rightarrow> prepared_source \<Rightarrow> form_part" where
  "part_of content s =
     \<lparr>fp_body = (case ps_inner s of PreparedBytes bs \<Rightarrow> BytesBody bs | PreparedPath _ sn \<Rightarrow> FileBody (content sn)),
      fp_length = Some (ps_length s), fp_file_name = ps_file_name s,
      fp_mime = (case ps_media_type s of Some v \<Rightarrow> v | None \<Rightarrow> DEFAULT_PART_MIME)\<rparr>"

definition form_of :: "(file_snapshot \<Rightarrow> bytes) \<Rightarrow> replayable_form \<Rightarrow> form" where
  "form_of content f =
     \<lparr>form_texts = rf_texts f,
      form_parts = map (\<lambda>(name, s, v). (name, case v of Some w \<Rightarrow> (part_of content s)\<lparr>fp_file_name := w\<rparr> | None \<Rightarrow> part_of content s))
        (rf_parts f)\<rparr>"

lemma open_source_content:
  assumes "snapshots_identify env content" and "open_source (mp_fs env n i) inner = Ok bd"
  shows "bd = (case inner of PreparedBytes bs \<Rightarrow> BytesBody bs | PreparedPath _ sn \<Rightarrow> FileBody (content sn))"
proof (cases inner)
  case (PreparedPath path sn)
  with assms(2) obtain fl md where op: "fs_open (mp_fs env n i) path = Ok fl" "of_metadata fl = Ok md"
      "snapshot_from_metadata md = Ok sn" and bd: "bd = FileBody (take (sn_len sn) (of_content fl))"
    by (auto simp: open_source_def res_bind_Ok_iff map_err_Ok_iff split: if_splits)
  from op assms(1) have "of_content fl = content sn" "length (content sn) = sn_len sn" unfolding snapshots_identify_def by blast+
  with bd PreparedPath show ?thesis by simp
qed (use assms(2) in \<open>simp add: open_source_def\<close>)

lemma build_part_content:
  assumes "snapshots_identify env content" and "build_part mime (mp_fs env n i) s = Ok part"
  shows "part = part_of content s"
proof -
  from assms(2) obtain bd where "open_source (mp_fs env n i) (ps_inner s) = Ok bd"
      and a: "apply_part_metadata mime bd (Some (ps_length s)) (Some (ps_file_name s)) (ps_media_type s) = Ok part"
    by (auto simp: build_part_def res_bind_Ok_iff)
  from open_source_content [OF assms(1) this(1)] a show ?thesis
    by (auto simp: apply_part_metadata_def part_of_def Let_def split: option.splits)
qed

lemma build_parts_content:
  assumes "snapshots_identify env content"
  shows "build_parts mime (mp_fs env n) i ps = Ok parts \<Longrightarrow>
    parts = map (\<lambda>(name, s, v). (name, case v of Some w \<Rightarrow> (part_of content s)\<lparr>fp_file_name := w\<rparr> | None \<Rightarrow> part_of content s)) ps"
  by (induction mime "mp_fs env n" i ps arbitrary: parts rule: build_parts.induct)
    (auto simp: res_bind_Ok_iff dest: build_part_content [OF assms])

lemma build_payload_content:
  assumes "snapshots_identify env content" and "build_payload env (FormLane f) n elapsed timeout = (built, Ok pl)"
  shows "pl = FormPayload (form_of content f)"
  using assms(2) build_parts_content [OF assms(1)]
  by (auto simp: build_payload_def build_form_def form_of_def res_bind_Ok_iff split: if_splits sum.splits)

fun carries :: "payload \<Rightarrow> multipart_event \<Rightarrow> bool" where
  "carries pl (MpSent _ q _) \<longleftrightarrow> mq_payload q = pl" | "carries _ _ \<longleftrightarrow> True"

lemma multipart_loop_carries:
  assumes "snapshots_identify env content" and "multipart_loop c t env u accept (FormLane f) n retries auth_refreshed elapsed = (evs, r)"
  shows "list_all (carries (FormPayload (form_of content f))) evs"
proof -
  have one: "list_all (carries (FormPayload (form_of content f))) evs"
    if "multipart_attempt c t env u accept (FormLane f) n retries auth_refreshed elapsed = (evs, step)"
    for n retries auth_refreshed elapsed evs step
    using that by (cases rule: multipart_attempt_cases) (auto simp: multipart_request_of_def dest: build_payload_content [OF assms(1)])
  from assms(2) show ?thesis by (induction rule: multipart_loop_induct) (auto dest: one)
qed

text \<open>
  A source that is, at the moment a form is built from it, what it was when it was prepared: for a path, what stands there is
  a regular file and not a link, and it and the file that is opened there both have the prepared snapshot.
\<close>

definition source_unchanged :: "file_system \<Rightarrow> prepared_source \<Rightarrow> bool" where
  "source_unchanged fs s =
     (case ps_inner s of
        PreparedBytes _ \<Rightarrow> True
      | PreparedPath path sn \<Rightarrow>
          (\<exists>md. fs_lstat fs path = Ok md \<and> \<not> fm_symlink md \<and> snapshot_from_metadata md = Ok sn)
          \<and> (\<exists>opened md. fs_open fs path = Ok opened \<and> of_metadata opened = Ok md \<and> snapshot_from_metadata md = Ok sn))"

lemma open_source_unchanged: "open_source fs (ps_inner s) = Ok bd \<Longrightarrow> source_unchanged fs s"
  by (auto simp: open_source_def source_unchanged_def verify_path_snapshot_def snapshot_path_def res_bind_Ok_iff map_err_Ok_iff
      split: prepared_inner.splits if_splits)

lemma build_parts_unchanged:
  "build_parts mime fs i ps = Ok parts \<Longrightarrow> j < length ps \<Longrightarrow> source_unchanged (fs (i + j)) (fst (snd (ps ! j)))"
proof (induction mime fs i ps arbitrary: j parts rule: build_parts.induct)
  case (2 mime fs i name s v ps)
  then show ?case by (cases j) (auto simp: res_bind_Ok_iff build_part_def dest: open_source_unchanged)
qed simp

lemma build_payload_unchanged:
  "build_payload env (FormLane f) n elapsed timeout = (built, Ok pl) \<Longrightarrow> j < length (rf_parts f) \<Longrightarrow>
     source_unchanged (mp_fs env n j) (fst (snd (rf_parts f ! j)))"
  using build_parts_unchanged [of "mp_mime env" "mp_fs env n" 0 "rf_parts f" _ j]
  by (auto simp: build_payload_def build_form_def res_bind_Ok_iff split: sum.splits if_splits)

lemma multipart_continues_sent:
  assumes "multipart_attempt c t env u accept l n retries auth_refreshed elapsed = (evs, step)" and "\<And>r. step \<noteq> Return r"
  shows "length (filter mp_sent evs) = 1"
  using assms by (cases rule: multipart_attempt_cases) auto

text \<open>The \<open>k\<close>-th request is the one of the \<open>k\<close>-th attempt, since every attempt that is followed by another has sent one.\<close>

lemma multipart_loop_unchanged:
  assumes "multipart_loop c t env u accept (FormLane f) n retries auth_refreshed elapsed = (evs, r)" and "j < length (rf_parts f)"
  shows "\<forall>k < length (filter mp_sent evs). source_unchanged (mp_fs env (n + k) j) (fst (snd (rf_parts f ! j)))"
proof -
  have one: "source_unchanged (mp_fs env n j) (fst (snd (rf_parts f ! j)))"
    if "multipart_attempt c t env u accept (FormLane f) n retries auth_refreshed elapsed = (evs, step)" "filter mp_sent evs \<noteq> []"
    for n retries auth_refreshed elapsed evs step
    using that by (cases rule: multipart_attempt_cases) (auto dest: build_payload_unchanged [OF _ assms(2)])
  have more: "\<forall>k < length (filter mp_sent (evs @ e # evs')). source_unchanged (mp_fs env (n + k) j) (fst (snd (rf_parts f ! j)))"
    if a: "multipart_attempt c t env u accept (FormLane f) n retries auth_refreshed elapsed = (evs, step)" "\<And>r. step \<noteq> Return r"
      and e: "\<not> mp_sent e"
      and rest: "\<forall>k < length (filter mp_sent evs'). source_unchanged (mp_fs env (Suc n + k) j) (fst (snd (rf_parts f ! j)))"
    for n retries auth_refreshed elapsed evs step e evs'
  proof (intro allI impI)
    fix k assume k: "k < length (filter mp_sent (evs @ e # evs'))"
    have s: "length (filter mp_sent evs) = 1" using multipart_continues_sent [OF a] .
    show "source_unchanged (mp_fs env (n + k) j) (fst (snd (rf_parts f ! j)))"
    proof (cases k)
      case 0
      then show ?thesis using one [OF a(1)] s by fastforce
    next
      case (Suc i)
      then show ?thesis using rest k s e by simp
    qed
  qed
  from assms(1) show ?thesis
  proof (induction rule: multipart_loop_induct)
    case (last n retries auth_refreshed elapsed evs r)
    have "length (filter mp_sent evs) \<le> 1" using multipart_attempt_events [OF last] by blast
    then show ?case using one [OF last] by (cases "filter mp_sent evs") auto
  next
    case (retry n retries auth_refreshed elapsed evs s d evs' r)
    show ?case by (rule more [OF retry(1) _ _ retry(2)]) simp_all
  next
    case (refresh n retries elapsed evs s g evs' r)
    show ?case by (rule more [OF refresh(1) _ _ refresh(2)]) simp_all
  qed
qed

text \<open>A name that is safe inside a quoted header parameter, and the sources the types allow.\<close>

definition name_safe :: "bytes \<Rightarrow> bool" where
  "name_safe v \<longleftrightarrow> v \<noteq> [] \<and> \<not> has_control v \<and> CHR 0x22 \<notin> set v \<and> CHR ''/'' \<notin> set v \<and> CHR 0x5C \<notin> set v"

lemma file_name_new_iff: "file_name_new v = Ok w \<longleftrightarrow> w = v \<and> name_safe v"
  by (auto simp: file_name_new_def name_safe_def list_ex_iff)

fun source_wf :: "replayable_source \<Rightarrow> bool" where
  "source_wf (BytesSource _ name _) \<longleftrightarrow> (case name of Present v \<Rightarrow> file_name_new v = Ok v | Omitted \<Rightarrow> True)"
| "source_wf (PathSource _ name _) \<longleftrightarrow> (case name of Present v \<Rightarrow> file_name_new v = Ok v | Omitted \<Rightarrow> True)"

lemma explicit_or_default_safe:
  assumes "explicit_or_default_file_name name path = Ok v" and "\<And>w. name = Present w \<Longrightarrow> file_name_new w = Ok w"
  shows "name_safe v"
  using assms by (auto simp: explicit_or_default_file_name_def file_name_new_iff map_err_Ok_iff split: omittable.splits option.splits if_splits)

fun body_bytes :: "part_body \<Rightarrow> bytes" where
  "body_bytes (BytesBody bs) = bs" | "body_bytes (FileBody bs) = bs" | "body_bytes (StreamBody cs) = []"

lemma prepared_name_safe: "prepare_source fs src = Ok s \<Longrightarrow> source_wf src \<Longrightarrow> name_safe (ps_file_name s)"
  by (cases src) (auto simp: prepare_source_def res_bind_Ok_iff split: omittable.splits intro!: explicit_or_default_safe)

lemma prepared_framed:
  assumes "prepare_source fs src = Ok s" and "snapshots_identify env content"
  shows "fp_length (part_of content s) = Some (length (body_bytes (fp_body (part_of content s))))"
  using assms by (cases src) (auto simp: prepare_source_def part_of_def res_bind_Ok_iff snapshots_identify_def)

lemma create_form:
  "form_of content (form_part_of name s (apply_prepared flds replayable_form_new)) =
     \<lparr>form_texts = fields_texts flds, form_parts = [(name, part_of content s)]\<rparr>"
  by (simp add: form_of_def form_part_of_def apply_prepared_def form_text_def replayable_form_new_def fields_texts_def
      split: option.split)

lemma send_replayable_form_carries:
  assumes "snapshots_identify env content" and "send_replayable_form c t env path f accept = (evs, r)"
  shows "list_all (carries (FormPayload (form_of content f))) evs"
  using assms(2) multipart_loop_carries [OF assms(1)] by (auto simp: send_replayable_form_def split: sum.splits)

text \<open>
  C26: Every attempt of a file upload carries the same form, the one of the prepared source: its text fields and one file part, whose
  declared length is the length of its content and whose file name is safe in a header. A changed file stops the upload: the \<open>k\<close>-th
  request is sent only if, when its form was built, the source was what it was when it was prepared. That a file with the same
  snapshot has the same content, of the length the snapshot gives, is assumed of the file system.
\<close>

theorem create_file_repeats_one_form:
  assumes "create_file c t env fs de request = (evs, r)" and "source_wf (cf_file request)" and "snapshots_identify env content"
  shows "evs = [] \<or> (\<exists>s. prepare_source fs (cf_file request) = Ok s
    \<and> list_all (carries (FormPayload
        \<lparr>form_texts = fields_texts (create_file_fields_new (cf_purpose request) (cf_expires_after request)),
         form_parts = [(''file'', part_of content s)]\<rparr>)) evs
    \<and> fp_length (part_of content s) = Some (length (body_bytes (fp_body (part_of content s)))) \<and> name_safe (ps_file_name s)
    \<and> (\<forall>k < length (filter mp_sent evs). source_unchanged (mp_fs env k 0) s))"
proof (cases "prepare_source fs (cf_file request)")
  case (Inr s)
  let ?f = "form_part_of ''file'' s (apply_prepared (create_file_fields_new (cf_purpose request) (cf_expires_after request)) replayable_form_new)"
  obtain r' where run: "send_replayable_form c t env [Literal ''files''] ?f ''application/json'' = (evs, r')"
    using assms(1) Inr by (auto simp: create_file_def Let_def split: prod.splits)
  have part: "rf_parts ?f = [(''file'', s, None)]"
    by (simp add: form_part_of_def apply_prepared_def form_text_def replayable_form_new_def Let_def split: option.split)
  have "\<forall>k < length (filter mp_sent evs). source_unchanged (mp_fs env k 0) s"
    using run multipart_loop_unchanged [of c t env _ _ ?f 0 0 False 0 evs _ 0] part
    by (auto simp: send_replayable_form_def split: sum.splits)
  with send_replayable_form_carries [OF assms(3) run] prepared_framed [OF Inr assms(3)] prepared_name_safe [OF Inr assms(2)] Inr
  show ?thesis by (simp add: create_form)
qed (use assms(1) in \<open>simp add: create_file_def\<close>)

text \<open>An upload of a file of three bytes whose first credential is refused.\<close>

definition demo_upload_fs :: file_system where
  "demo_upload_fs =
     (let md = \<lparr>fm_symlink = False, fm_is_file = True, fm_len = 3, fm_modified = Ok 7, fm_device = 1, fm_inode = 2,
                fm_ctime_seconds = 0, fm_ctime_nanoseconds = 0\<rparr>
      in \<lparr>fs_lstat = (\<lambda>_. Ok md), fs_open = (\<lambda>_. Ok \<lparr>of_metadata = Ok md, of_content = ''xxx''\<rparr>)\<rparr>)"

definition demo_answer :: "nat \<Rightarrow> http_response" where
  "demo_answer st = \<lparr>rs_status = st, rs_headers = (\<lambda>_. None), rs_content_length = None, rs_body = []\<rparr>"

definition demo_upload_env :: multipart_env where
  "demo_upload_env =
     \<lparr>mp_send = \<lparr>env_auth = (\<lambda>n. (1, Ok \<lparr>lease_header = ''Bearer t'', lease_generation = Some n\<rparr>)), env_build = (\<lambda>_ _. None),
        env_http = (\<lambda>_ _. (0, Ok (demo_answer 200))), env_nanos = (\<lambda>_. None), env_date = (\<lambda>_ _. None), env_trace = False,
        env_drain = (\<lambda>_. 0)\<rparr>,
      mp_mime = (\<lambda>_. None), mp_fs = (\<lambda>_ _. demo_upload_fs), mp_form_took = (\<lambda>_. 1), mp_build = (\<lambda>_ _. None),
      mp_http = (\<lambda>n _. (1, Ok (demo_answer (if n = 0 then 401 else 200))))\<rparr>"

definition demo_upload_transport :: transport where
  "demo_upload_transport =
     \<lparr>t_base_url = \<lparr>url_scheme = ''https'', url_host = Some ''api.openai.com'', url_port = None, url_segments = Some [''v1'', []], url_query = []\<rparr>,
      t_organization = None, t_project = None, t_client_request_id = None, t_max_json_body_bytes = 100, t_max_error_body_bytes = 100,
      t_retry_policy = openai_compatible, t_overall_timeout = 1000\<rparr>"

definition demo_upload_request :: create_file_request where
  "demo_upload_request =
     \<lparr>cf_file = PathSource ''/tmp/a.jsonl'' Omitted Omitted, cf_purpose = ''batch'',
      cf_expires_after = Present \<lparr>fe_anchor = ''created_at'', fe_seconds = 3600\<rparr>\<rparr>"

definition demo_content :: "file_snapshot \<Rightarrow> bytes" where
  "demo_content sn = replicate (sn_len sn) (CHR ''x'')"

lemma demo_snapshots: "snapshots_identify demo_upload_env demo_content"
  by (auto simp: snapshots_identify_def demo_content_def demo_upload_env_def demo_upload_fs_def snapshot_from_metadata_def Let_def
      res_bind_Ok_iff numeral_3_eq_3)

lemma demo_attempt:
  assumes "build_payload demo_upload_env l n elapsed 1000 = (built, Ok pl)" and "built < 900" and "multipart_same_origin u (t_base_url demo_upload_transport)"
  shows "multipart_attempt c demo_upload_transport demo_upload_env u accept l n retries (n \<noteq> 0) elapsed =
    ([MpSent (built + 1) (multipart_request_of demo_upload_transport u accept l pl \<lparr>lease_header = ''Bearer t'', lease_generation = Some n\<rparr>
        (1000 - (built + 1))) (Ok (demo_answer (if n = 0 then 401 else 200)))],
     if n = 0 then RefreshAt (built + 2) 0 else Return (Ok (demo_answer 200)))"
proof -
  have t: "t_overall_timeout demo_upload_transport = 1000" by (simp add: demo_upload_transport_def)
  have h: "mp_http demo_upload_env n q = (1, Ok (demo_answer (if n = 0 then 401 else 200)))" "mp_build demo_upload_env n q = None"
      "env_auth (mp_send demo_upload_env) n = (1, Ok \<lparr>lease_header = ''Bearer t'', lease_generation = Some n\<rparr>)" for n q
    by (simp_all add: demo_upload_env_def)
  show ?thesis
    using assms
    by (simp add: multipart_attempt_def t h multipart_exchange_def authorization_with_budget_def multipart_after_response_def
        multipart_ensure_same_origin_def
        demo_answer_def is_success_status_def multipart_request_of_def) arith
qed

lemma demo_sends_twice:
  assumes "build_payload demo_upload_env l 0 0 1000 = (b, Ok pl)" and "build_payload demo_upload_env l 1 (b + 2) 1000 = (b', Ok pl')"
    and "b' < 900" and "multipart_same_origin u (t_base_url demo_upload_transport)" and "b < 900"
  shows "length (filter mp_sent (fst (multipart_loop c demo_upload_transport demo_upload_env u accept l 0 0 False 0))) = 2"
  using demo_attempt [OF assms(1,5,4)] demo_attempt [OF assms(2,3,4)]
  by (simp add: multipart_loop_step)

theorem create_file_repeats_one_form_witness:
  "\<exists>s. prepare_source demo_upload_fs (cf_file demo_upload_request) = Ok s \<and> source_unchanged (mp_fs demo_upload_env 1 0) s
     \<and> length (filter mp_sent (fst (create_file demo_codec demo_upload_transport demo_upload_env demo_upload_fs (\<lambda>bs. Ok bs) demo_upload_request))) = 2
     \<and> list_all (carries (FormPayload
        \<lparr>form_texts = [(''purpose'', ''batch''), (''expires_after[anchor]'', ''created_at''), (''expires_after[seconds]'', ''3600'')],
         form_parts = [(''file'', part_of demo_content s)]\<rparr>))
        (fst (create_file demo_codec demo_upload_transport demo_upload_env demo_upload_fs (\<lambda>bs. Ok bs) demo_upload_request))"
proof -
  let ?run = "create_file demo_codec demo_upload_transport demo_upload_env demo_upload_fs (\<lambda>bs. Ok bs) demo_upload_request"
  define f where "f = form_part_of ''file'' (case prepare_source demo_upload_fs (cf_file demo_upload_request) of Ok s \<Rightarrow> s | Err _ \<Rightarrow> undefined)
    (apply_prepared (create_file_fields_new (cf_purpose demo_upload_request) (cf_expires_after demo_upload_request)) replayable_form_new)"
  obtain frm where frm: "build_form (\<lambda>_. None) (\<lambda>_. demo_upload_fs) f = Ok frm"
  proof -
    have "case build_form (\<lambda>_. None) (\<lambda>_. demo_upload_fs) f of Ok _ \<Rightarrow> True | Err _ \<Rightarrow> False" unfolding f_def by code_simp
    with that show thesis by (auto split: sum.splits)
  qed
  have "build_payload demo_upload_env (FormLane f) 0 0 1000 = (1, Ok (FormPayload frm))"
      "build_payload demo_upload_env (FormLane f) 1 (1 + 2) 1000 = (4, Ok (FormPayload frm))"
    using frm by (simp_all add: build_payload_def demo_upload_env_def multipart_remaining_time_def)
  moreover have "case prepare_source demo_upload_fs (cf_file demo_upload_request) of Ok _ \<Rightarrow> True | Err _ \<Rightarrow> False" by code_simp
  moreover have u: "multipart_operation_url demo_upload_transport [Literal ''files''] =
      Ok ((t_base_url demo_upload_transport)\<lparr>url_segments := Some [''v1'', ''files'']\<rparr>)" by code_simp
  ultimately have n: "length (filter mp_sent (fst ?run)) = 2"
    using demo_sends_twice [of "FormLane f" 1 "FormPayload frm" 4 "FormPayload frm"
        "(t_base_url demo_upload_transport)\<lparr>url_segments := Some [''v1'', ''files'']\<rparr>" demo_codec "''application/json''"]
    by (auto simp: create_file_def send_replayable_form_def Let_def f_def multipart_same_origin_def split: sum.splits prod.splits)
  then have "fst ?run \<noteq> []" by fastforce
  moreover have "source_wf (cf_file demo_upload_request)" by code_simp
  moreover have "fields_texts (create_file_fields_new (cf_purpose demo_upload_request) (cf_expires_after demo_upload_request)) =
      [(''purpose'', ''batch''), (''expires_after[anchor]'', ''created_at''), (''expires_after[seconds]'', ''3600'')]" by code_simp
  ultimately show ?thesis
    using create_file_repeats_one_form [OF prod.collapse [symmetric] _ demo_snapshots,
        of demo_upload_request demo_codec demo_upload_transport demo_upload_fs "\<lambda>bs. Ok bs"] n by auto
qed

section \<open>One-shot uploads\<close>

text \<open>
  A one-shot upload, of a file or of an upload part, sends at most one request and never waits to send another, whatever the
  answer, the retry policy and the credential are.
\<close>

theorem one_shot_sent_once:
  "length (filter mp_sent (fst (create_file_one_shot c t env de src purpose expires_after))) \<le> 1
   \<and> filter mp_slept (fst (create_file_one_shot c t env de src purpose expires_after)) = []
   \<and> length (filter mp_sent (fst (add_upload_part_one_shot c t env de' upload_id src))) \<le> 1
   \<and> filter mp_slept (fst (add_upload_part_one_shot c t env de' upload_id src)) = []"
proof -
  have "length (filter mp_sent (fst (send_one_shot_form c t env path frm accept))) \<le> 1
    \<and> filter mp_slept (fst (send_one_shot_form c t env path frm accept)) = []" for path frm accept
    by (auto simp: send_one_shot_form_def split: sum.splits option.splits)
  then show ?thesis
    by (auto simp: create_file_one_shot_def add_upload_part_one_shot_def Let_def split: sum.split prod.split) (metis fst_conv)+
qed

section \<open>The other lanes\<close>

text \<open>The helpers of the file against those of the JSON transport.\<close>

lemma multipart_local_retry_delay_agrees: "multipart_local_retry_delay retries nanos = local_retry_delay retries nanos"
  by (simp add: multipart_local_retry_delay_def local_retry_delay_def base_seconds_def jitter_def Let_def)

lemma multipart_retry_delay_agrees:
  "multipart_retry_delay (env_date env n) (env_nanos env n) (rs_headers r) retries (max_server_delay (t_retry_policy t))
     = retry_delay t env n retries r"
  by (simp add: multipart_retry_delay_def retry_delay_def multipart_local_retry_delay_agrees cong: server_delay.case_cong)

lemma multipart_can_wait_agrees: "multipart_can_wait now delay timeout = can_wait now delay timeout"
  by (simp add: multipart_can_wait_def can_wait_def)

lemma multipart_read_chunks_agrees: "multipart_read_chunks limit cs acc = read_chunks limit cs acc"
  by (induction limit cs acc rule: read_chunks.induct) (simp_all add: Let_def)

lemma multipart_api_error_agrees: "multipart_api_error c t r = error_from_response c t r"
  by (simp add: multipart_api_error_def error_from_response_def multipart_read_up_to_def read_up_to_def multipart_read_chunks_agrees
      Let_def split: sum.split)

lemma multipart_same_origin_agrees: "multipart_same_origin u v = same_origin u v"
  by (simp add: multipart_same_origin_def same_origin_def)

lemmas multipart_agrees = multipart_local_retry_delay_agrees multipart_retry_delay_agrees multipart_can_wait_agrees
  multipart_api_error_agrees multipart_same_origin_agrees

text \<open>The environment of the JSON transport that a call of these lanes has, and the events of that transport.\<close>

fun body_payload :: "bytes option \<Rightarrow> payload" where
  "body_payload None = NoPayload" | "body_payload (Some bs) = JsonPayload bs"

definition as_multipart :: "http_request \<Rightarrow> multipart_request" where
  "as_multipart q =
     \<lparr>mq_method = rq_method q, mq_url = rq_url q, mq_timeout = rq_timeout q, mq_headers = rq_headers q,
      mq_payload = body_payload (rq_body q)\<rparr>"

definition as_send_env :: "multipart_env \<Rightarrow> send_env" where
  "as_send_env env = (mp_send env)
     \<lparr>env_build := \<lambda>n q. mp_build env n (as_multipart q), env_http := \<lambda>n q. mp_http env n (as_multipart q), env_trace := False\<rparr>"

fun as_multipart_event :: "send_event \<Rightarrow> multipart_event" where
  "as_multipart_event (Sent now q r) = MpSent now (as_multipart q) r"
| "as_multipart_event (Slept now d) = MpSlept now d"
| "as_multipart_event (Invalidated g) = MpInvalidated g"

definition lane_body :: "lane \<Rightarrow> bytes option" where
  "lane_body l = (case l of JsonLane bs \<Rightarrow> Some bs | _ \<Rightarrow> None)"

text \<open>The operation of the JSON transport that a lane stands for.\<close>

definition lane_operation :: "transport \<Rightarrow> url \<Rightarrow> bytes \<Rightarrow> lane \<Rightarrow> prepared \<Rightarrow> bool" where
  "lane_operation t u accept l p \<longleftrightarrow>
     op_method (pr_meta p) = lane_method l \<and> pr_url p = u \<and> pr_accept p = accept \<and> pr_static_header p = None
     \<and> pr_body p = lane_body l \<and> set (success_statuses (pr_meta p)) = {200, 201}
     \<and> retryable_operation (op_retry (pr_meta p)) (t_retry_policy t) = lane_retryable (t_retry_policy t) l"

lemma as_send_env_simps [simp]:
  "authorization_with_budget (as_send_env env) = authorization_with_budget (mp_send env)"
  "env_nanos (as_send_env env) = env_nanos (mp_send env)"
  "env_trace (as_send_env env) = False"
  "retry_delay t (as_send_env env) = retry_delay t (mp_send env)"
  "env_build (as_send_env env) n q = mp_build env n (as_multipart q)"
  "env_http (as_send_env env) n q = mp_http env n (as_multipart q)"
  by (auto simp: fun_eq_iff authorization_with_budget_def as_send_env_def retry_delay_def split: server_delay.split)

lemma build_request_lane:
  assumes "lane_operation t u accept l p" and "\<And>f. l \<noteq> FormLane f"
  shows "as_multipart (build_request t p lease d) = multipart_request_of t u accept l (body_payload (lane_body l)) lease d"
  using assms by (cases l)
    (auto simp: lane_operation_def as_multipart_def build_request_def multipart_request_of_def multipart_headers_def lane_body_def)

lemma attempt_lane:
  assumes "lane_operation t u accept l p" and "\<And>f. l \<noteq> FormLane f"
  shows "multipart_attempt c t env u accept l n retries auth_refreshed elapsed =
    map_prod (map as_multipart_event) id (attempt c t p (as_send_env env) n retries auth_refreshed elapsed)"
proof -
  have pl: "build_payload env l n elapsed timeout = (elapsed, Ok (body_payload (lane_body l)))" for timeout
    using assms(2) by (cases l) (auto simp: build_payload_def lane_body_def)
  have f: "multipart_after_failure t l env n retries now e = after_failure t p (as_send_env env) n retries now e" for now e
    using assms(1) by (auto simp: multipart_after_failure_def after_failure_def lane_operation_def multipart_agrees Let_def)
  have r: "multipart_after_response c t l env n retries auth_refreshed lease now r =
      after_response c t p (as_send_env env) n retries auth_refreshed lease now r" for lease now r
    using assms(1) by (auto simp: multipart_after_response_def after_response_def lane_operation_def is_success_status_def multipart_agrees Let_def
        split: option.splits)
  have u: "rq_url (build_request t p lease d) = u" for lease d using assms(1) by (simp add: lane_operation_def build_request_def)
  have u': "mq_url (multipart_request_of t u accept l pl lease d) = u" for pl lease d by (simp add: multipart_request_of_def)
  show ?thesis
    by (simp add: multipart_attempt_def attempt_def pl f r u u' multipart_exchange_def multipart_ensure_same_origin_def multipart_agrees
        Let_def build_request_lane [OF assms] split: prod.split sum.split option.split)
qed

lemma attempt_laneE:
  assumes "multipart_attempt c t env u accept l n retries auth_refreshed elapsed = (evs, step)"
    and "lane_operation t u accept l p" and "\<And>f. l \<noteq> FormLane f"
  obtains evs0 where "attempt c t p (as_send_env env) n retries auth_refreshed elapsed = (evs0, step)" and "evs = map as_multipart_event evs0"
  using assms(1) unfolding attempt_lane [OF assms(2,3)]
  by (cases "attempt c t p (as_send_env env) n retries auth_refreshed elapsed") auto

lemma loop_lane:
  assumes "lane_operation t u accept l p" and "\<And>f. l \<noteq> FormLane f"
  shows "multipart_loop c t env u accept l n retries auth_refreshed elapsed =
    map_prod (map as_multipart_event) id (send_loop c t p (as_send_env env) n retries auth_refreshed elapsed)"
proof -
  obtain evs r where run: "multipart_loop c t env u accept l n retries auth_refreshed elapsed = (evs, r)" by fastforce
  from run have "map_prod (map as_multipart_event) id (send_loop c t p (as_send_env env) n retries auth_refreshed elapsed) = (evs, r)"
  proof (induction rule: multipart_loop_induct)
    case (last n retries auth_refreshed elapsed evs r)
    from last assms obtain evs0 where a: "attempt c t p (as_send_env env) n retries auth_refreshed elapsed = (evs0, Return r)"
        "evs = map as_multipart_event evs0" by (rule attempt_laneE)
    then show ?case by (simp add: send_loop_step [OF a(1)])
  next
    case (retry n retries auth_refreshed elapsed evs s d evs' r)
    from retry(1) assms obtain evs0 where a: "attempt c t p (as_send_env env) n retries auth_refreshed elapsed = (evs0, RetryAfter s d)"
        "evs = map as_multipart_event evs0" by (rule attempt_laneE)
    with retry(2) show ?case
      by (cases "send_loop c t p (as_send_env env) (Suc n) (Suc retries) auth_refreshed (s + d)") (simp add: send_loop_step [OF a(1)])
  next
    case (refresh n retries elapsed evs s g evs' r)
    from refresh(1) assms obtain evs0 where a: "attempt c t p (as_send_env env) n retries False elapsed = (evs0, RefreshAt s g)"
        "evs = map as_multipart_event evs0" by (rule attempt_laneE)
    with refresh(2) show ?case
      by (cases "send_loop c t p (as_send_env env) (Suc n) retries True s") (simp add: send_loop_step [OF a(1)])
  qed
  with run show ?thesis by simp
qed

lemma multipart_operation_url_agrees: "multipart_operation_url t path = Ok u \<longleftrightarrow> operation_url (t_base_url t) path = Ok u"
  by (auto simp: multipart_operation_url_def operation_url_def multipart_ensure_same_origin_def multipart_agrees res_bind_def Let_def
      split: option.splits if_splits)

lemma prepare_lane:
  assumes "prepare lib t mt path q bd None = Ok p"
  obtains u where "multipart_operation_url t path = Ok u"
    and "(case q of None \<Rightarrow> Ok u | Some j \<Rightarrow> append_query (lib_number_text lib) j u) = Ok (pr_url p)"
    and "pr_meta p = mt" and "pr_static_header p = None"
    and "bd = map_option Ok (pr_body p)"
  using assms
  by (cases q) (auto simp: prepare_def multipart_operation_url_agrees res_bind_Ok_iff map_err_Ok_iff split: if_split_asm option.split_asm)

text \<open>
  C27: The loops written out for JSON bodies and for downloads are the attempt loop of the JSON transport. For any media type asked for,
  a JSON request of these lanes sends, waits, refreshes and ends exactly as the loop of the transport does for the replayable
  operation with the same URL, body and success statuses 200 and 201, and a download as for the safe one. The loop of the transport
  is taken without body tracing, in which it would read a body before it goes on; these lanes have no such tracing.
\<close>

theorem raw_lanes_are_the_transport:
  assumes "prepare lib t mt path q bd None = Ok p" and "set (success_statuses mt) = {200, 201}"
  shows "(op_method mt = ''POST'' \<and> op_retry mt = Replayable \<and> q = None \<and> bd = Some (Ok bs) \<longrightarrow>
      send_replayable_json (lib_errors lib) t env path (Ok bs) accept =
        map_prod (map as_multipart_event) id (send_loop (lib_errors lib) t (p\<lparr>pr_accept := accept\<rparr>) (as_send_env env) 0 0 False 0))
    \<and> (op_method mt = ''GET'' \<and> op_retry mt = Safe \<and> bd = None \<longrightarrow>
      send_download_with_query (lib_errors lib) t env (lib_number_text lib) path accept q =
        map_prod (map as_multipart_event) id (send_loop (lib_errors lib) t (p\<lparr>pr_accept := accept\<rparr>) (as_send_env env) 0 0 False 0))"
proof -
  obtain u where u: "multipart_operation_url t path = Ok u"
    and u': "(case q of None \<Rightarrow> Ok u | Some j \<Rightarrow> append_query (lib_number_text lib) j u) = Ok (pr_url p)"
    and p: "pr_meta p = mt" "pr_static_header p = None" "bd = map_option Ok (pr_body p)"
    using assms(1) by (rule prepare_lane)
  let ?p = "p\<lparr>pr_accept := accept\<rparr>"
  show ?thesis
  proof (intro conjI impI, goal_cases)
    case 1
    then have "lane_operation t (pr_url p) accept (JsonLane bs) ?p"
      using p assms(2) by (auto simp: lane_operation_def lane_method_def lane_body_def lane_retryable_def retryable_operation_def)
    from loop_lane [OF this, of "lib_errors lib" env 0 0 False 0] 1 u u' show ?case by (simp add: send_replayable_json_def)
  next
    case 2
    then have "lane_operation t (pr_url p) accept DownloadLane ?p"
      using p assms(2) by (auto simp: lane_operation_def lane_method_def lane_body_def lane_retryable_def retryable_operation_def)
    from loop_lane [OF this, of "lib_errors lib" env 0 0 False 0] u u' show ?case by (simp add: send_download_with_query_def)
  qed
qed

text \<open>A download whose first credential is refused, as an operation of the transport.\<close>

definition demo_download_meta :: operation_meta where
  "demo_download_meta =
     \<lparr>op_id = ''DownloadFile'', op_method = ''GET'', op_route = ''/files/{file_id}/content'', op_request_encoding = EncodingNone,
      op_response_mode = ModeJson, op_retry = Safe, success_statuses = [200, 201]\<rparr>"

definition demo_download_path :: "path_segment list" where
  "demo_download_path = [Literal ''files'', Parameter ''file_id'' ''file-1'', Literal ''content'']"

definition demo_send_libs :: send_libs where
  "demo_send_libs = \<lparr>lib_errors = demo_codec, lib_header_name = Some, lib_header_value = Some, lib_number_text = (\<lambda>_. [])\<rparr>"

definition demo_download :: prepared where
  "demo_download =
     \<lparr>pr_meta = demo_download_meta,
      pr_url = (t_base_url demo_upload_transport)\<lparr>url_segments := Some [''v1'', ''files'', ''file-1'', ''content'']\<rparr>,
      pr_accept = ''application/json'', pr_static_header = None, pr_body = None\<rparr>"

theorem raw_lanes_are_the_transport_witness:
  "send_download_with_query demo_codec demo_upload_transport demo_upload_env (\<lambda>_. []) demo_download_path ''application/binary'' None =
     map_prod (map as_multipart_event) id
       (send_loop demo_codec demo_upload_transport (demo_download\<lparr>pr_accept := ''application/binary''\<rparr>) (as_send_env demo_upload_env) 0 0 False 0)
   \<and> length (filter mp_sent (fst (send_download_with_query demo_codec demo_upload_transport demo_upload_env (\<lambda>_. []) demo_download_path
       ''application/binary'' None))) = 2"
proof
  have p: "prepare demo_send_libs demo_upload_transport demo_download_meta demo_download_path None None None = Ok demo_download" by code_simp
  have u: "multipart_operation_url demo_upload_transport demo_download_path = Ok (pr_url demo_download)" by code_simp
  from raw_lanes_are_the_transport [OF p, of undefined demo_upload_env "''application/binary''"]
  show "send_download_with_query demo_codec demo_upload_transport demo_upload_env (\<lambda>_. []) demo_download_path ''application/binary'' None =
     map_prod (map as_multipart_event) id
       (send_loop demo_codec demo_upload_transport (demo_download\<lparr>pr_accept := ''application/binary''\<rparr>) (as_send_env demo_upload_env) 0 0 False 0)"
    by (simp add: demo_download_meta_def demo_send_libs_def)
  show "length (filter mp_sent (fst (send_download_with_query demo_codec demo_upload_transport demo_upload_env (\<lambda>_. []) demo_download_path
       ''application/binary'' None))) = 2"
    using demo_sends_twice [of DownloadLane 0 NoPayload 2 NoPayload "pr_url demo_download"] u
    by (simp add: send_download_with_query_def build_payload_def multipart_same_origin_def demo_download_def)
qed

section \<open>Downloads\<close>

lemma collect_chunks_read:
  "collect_chunks limit mt (map (map_err f) cs) acc =
     (case read_chunks limit cs acc of
        Err e \<Rightarrow> Err (f e)
      | Ok (bs, truncated) \<Rightarrow> if truncated then Err (BodyTooLarge limit (meta_status mt) (meta_request_id mt)) else Ok bs)"
  by (induction limit cs acc rule: read_chunks.induct) (auto simp: Let_def)

text \<open>
  Collecting a download is the bounded read of the transport: the same bytes or the same error, the advertised length, the
  chunks and the limit being the same.
\<close>

theorem collect_is_bounded_read:
  "content_collect (content_stream_from_response r) limit =
     res_bind (read_success r limit (rs_meta r)) (\<lambda>bs. Ok \<lparr>body = bs, meta = rs_meta r\<rparr>)"
  by (auto simp: content_collect_def content_stream_from_response_def read_success_def read_up_to_def collect_chunks_read
      res_bind_def split: sum.splits prod.splits option.splits)

end
