(* ===== verification/Transport_Faces.thy ===== *)
theory Transport_Faces
  imports Transport Event_Stream Scalar
begin

text \<open>
  The remaining faces of the JSON transport, \<^verbatim>\<open>crates/openai-rs-client/src/transport.rs\<close>: operations with a header of their own,
  operations whose answer has no body to decode, and text answers; and JSON carried inside a JSON string,
  \<^verbatim>\<open>JsonText\<close> of \<^verbatim>\<open>crates/openai-rs-types/src/scalar.rs\<close>.
\<close>

section \<open>Execution\<close>

definition transport_send ::
    "send_libs \<Rightarrow> transport \<Rightarrow> send_env \<Rightarrow> operation_meta \<Rightarrow> path_segment list \<Rightarrow> (bytes, json) result option \<Rightarrow>
       (bytes, bytes) result option \<Rightarrow> send_event list \<times> (client_error, http_response) result" where
  "transport_send lib t env mt path q bd = send_with_static_header lib t env mt path q bd None"

definition execute_json_with_static_header ::
    "send_libs \<Rightarrow> transport \<Rightarrow> send_env \<Rightarrow> 'a body_decoder \<Rightarrow> operation_meta \<Rightarrow> path_segment list \<Rightarrow>
       (bytes, json) result option \<Rightarrow> (bytes, bytes) result option \<Rightarrow> bytes \<Rightarrow> bytes \<Rightarrow> (client_error, 'a api_response) result" where
  "execute_json_with_static_header lib t env de mt path q bd name v =
     (if op_response_mode mt \<noteq> ModeJson
      then Err (InvalidConfiguration ''JSON decoder used for a non-JSON operation'')
      else res_bind (snd (send_with_static_header lib t env mt path q bd (Some (name, v))))
        (decode_json (lib_errors lib) de (t_max_json_body_bytes t)))"

definition execute_optional_json_with_static_header ::
    "send_libs \<Rightarrow> transport \<Rightarrow> send_env \<Rightarrow> 'a body_decoder \<Rightarrow> operation_meta \<Rightarrow> path_segment list \<Rightarrow>
       (bytes, json) result option \<Rightarrow> (bytes, bytes) result option \<Rightarrow> bytes \<Rightarrow> bytes \<Rightarrow> (client_error, 'a option api_response) result" where
  "execute_optional_json_with_static_header lib t env de mt path q bd name v =
     (if op_response_mode mt \<noteq> ModeEmptyOrJson
      then Err (InvalidConfiguration ''empty-or-JSON decoder used for an incompatible operation'')
      else res_bind (snd (send_with_static_header lib t env mt path q bd (Some (name, v))))
        (decode_optional_json (lib_errors lib) de (t_max_json_body_bytes t)))"

definition execute_empty ::
    "send_libs \<Rightarrow> transport \<Rightarrow> send_env \<Rightarrow> operation_meta \<Rightarrow> path_segment list \<Rightarrow> (bytes, json) result option \<Rightarrow>
       (bytes, bytes) result option \<Rightarrow> (client_error, unit api_response) result" where
  "execute_empty lib t env mt path q bd =
     (if op_response_mode mt \<noteq> ModeEmpty
      then Err (InvalidConfiguration ''empty decoder used for an incompatible operation'')
      else res_bind (snd (transport_send lib t env mt path q bd)) (\<lambda>r.
        res_bind (read_success r (t_max_json_body_bytes t) (rs_meta r)) (\<lambda>_. Ok \<lparr>body = (), meta = rs_meta r\<rparr>)))"

text \<open>The headers of a request that a face builds for itself.\<close>

definition request_builder :: "transport \<Rightarrow> bytes \<Rightarrow> bytes \<Rightarrow> (bytes \<times> bytes) list" where
  "request_builder t accept credential =
     [(''authorization'', credential), (''accept'', accept)]
     @ optional_header ''openai-organization'' (t_organization t)
     @ optional_header ''openai-project'' (t_project t)
     @ optional_header ''x-client-request-id'' (t_client_request_id t)"

definition ensure_same_origin :: "transport \<Rightarrow> url \<Rightarrow> (client_error, unit) result" where
  "ensure_same_origin t u =
     (if same_origin u (t_base_url t) then Ok ()
      else Err (InvalidConfiguration ''request URL escaped the configured authentication origin''))"

section \<open>Text answers\<close>

definition has_mime :: "bytes \<Rightarrow> bytes option \<Rightarrow> bool" where
  "has_mime expected content_type =
     (case content_type of
        None \<Rightarrow> False
      | Some v \<Rightarrow>
          (case split_on (CHR '';'') v of [] \<Rightarrow> False | mime # _ \<Rightarrow> to_ascii_lowercase (trim mime) = to_ascii_lowercase expected))"

definition transport_decode_text :: "error_codec \<Rightarrow> transport \<Rightarrow> http_response \<Rightarrow> bytes \<Rightarrow> (client_error, bytes api_response) result" where
  "transport_decode_text c t r expected =
     (let mt = rs_meta r; content_type = rs_headers r ''content-type''
      in if \<not> has_mime expected content_type
         then Err (UnexpectedContentType expected content_type (meta_status mt) (meta_request_id mt))
         else res_bind (read_success r (t_max_json_body_bytes t) mt) (\<lambda>bs.
           if utf8_valid bs then Ok \<lparr>body = bs, meta = mt\<rparr>
           else Err (client_error.InvalidUtf8 (meta_status mt) (meta_request_id mt) (body_preview_of c bs False))))"

text \<open>
  A text answer is accepted exactly when it has the media type, every chunk arrives, what they amount to fits the limit and is
  UTF-8, and the advertised length fits too; then it is those bytes.
\<close>

lemma read_chunks_complete:
  "read_chunks limit cs acc = Ok (bs, False) \<and> length acc \<le> limit \<longleftrightarrow>
     (\<exists>xs. cs = map Ok xs \<and> bs = acc @ concat xs \<and> length bs \<le> limit)"
proof (induction limit cs acc rule: read_chunks.induct)
  case (3 limit chunk cs acc)
  show ?case
  proof (cases "limit - length acc < length chunk")
    case True
    then show ?thesis by (auto simp: Let_def saturating_sub_def Cons_eq_map_conv)
  next
    case False
    with 3 have "read_chunks limit cs (acc @ chunk) = Ok (bs, False) \<and> length (acc @ chunk) \<le> limit \<longleftrightarrow>
        (\<exists>xs. cs = map Ok xs \<and> bs = (acc @ chunk) @ concat xs \<and> length bs \<le> limit)"
      by (simp add: saturating_sub_def)
    with False show ?thesis by (auto simp: Let_def saturating_sub_def Cons_eq_map_conv)
  qed
qed (auto simp: Cons_eq_map_conv)

theorem decode_text_accepts_iff:
  "transport_decode_text c t r expected = Ok x \<longleftrightarrow>
     has_mime expected (rs_headers r ''content-type'')
     \<and> (case rs_content_length r of Some n \<Rightarrow> n \<le> t_max_json_body_bytes t | None \<Rightarrow> True)
     \<and> (\<exists>xs. rs_body r = map Ok xs \<and> length (concat xs) \<le> t_max_json_body_bytes t \<and> utf8_valid (concat xs)
          \<and> x = \<lparr>body = concat xs, meta = rs_meta r\<rparr>)"
proof -
  have "read_success r limit mt = Ok bs \<longleftrightarrow>
      (case rs_content_length r of Some n \<Rightarrow> n \<le> limit | None \<Rightarrow> True) \<and> read_chunks limit (rs_body r) [] = Ok (bs, False)" for limit mt bs
    by (auto simp: read_success_def read_up_to_def res_bind_Ok_iff split: option.splits)
  moreover have "read_chunks limit (rs_body r) [] = Ok (bs, False) \<longleftrightarrow>
      (\<exists>xs. rs_body r = map Ok xs \<and> bs = concat xs \<and> length bs \<le> limit)" for limit bs
    using read_chunks_complete [of limit "rs_body r" "[]" bs] by simp
  ultimately show ?thesis
    by (auto simp: transport_decode_text_def Let_def res_bind_Ok_iff split: if_splits)
qed

section \<open>JSON inside a JSON string\<close>

text \<open>The printer and the parser of the inner text are those of the value's type, and parameters.\<close>

type_synonym json_text = bytes

definition json_text_from_serializable :: "('a \<Rightarrow> (bytes, bytes) result) \<Rightarrow> 'a \<Rightarrow> (bytes, json_text) result" where
  "json_text_from_serializable to_string v = to_string v"

definition json_text_parse :: "(bytes \<Rightarrow> (bytes, 'a) result) \<Rightarrow> json_text \<Rightarrow> (bytes, 'a) result" where
  "json_text_parse from_str t = from_str t"

definition json_text_serialize :: "json_text serializer" where
  "json_text_serialize t = Ok (JString t)"

definition json_text_deserialize :: "json_text deserializer" where
  "json_text_deserialize = string_deserialize"

text \<open>On the wire the text is kept as it is, complete JSON or not; parsing it is left to the reader.\<close>

lemma json_text_lazy:
  "json_text_deserialize j = Ok t \<longleftrightarrow> json_text_serialize t = Ok j"
  by (cases j) (auto simp: json_text_deserialize_def json_text_serialize_def string_deserialize_def)

end
