(* ===== verification/Workload_Config.thy ===== *)
theory Workload_Config
  imports Workload_Safety
begin

text \<open>
  The configuration of workload identity and the request of its token exchange,
  \<^verbatim>\<open>crates/openai-rs-client/src/workload_identity.rs\<close>.
\<close>

definition TOKEN_EXCHANGE_URL :: bytes where "TOKEN_EXCHANGE_URL = ''https://auth.openai.com/oauth/token''"
definition TOKEN_EXCHANGE_GRANT_TYPE :: bytes where
  "TOKEN_EXCHANGE_GRANT_TYPE = ''urn:ietf:params:oauth:grant-type:token-exchange''"

datatype subject_token_type = JwtToken | IdToken

definition as_urn :: "subject_token_type \<Rightarrow> bytes" where
  "as_urn k = (case k of JwtToken \<Rightarrow> ''urn:ietf:params:oauth:token-type:jwt'' | IdToken \<Rightarrow> ''urn:ietf:params:oauth:token-type:id_token'')"

text \<open>As for bearer material, on ASCII text the white space that \<^verbatim>\<open>trim\<close> removes is found inside, too.\<close>

definition validate_identifier :: "bytes \<Rightarrow> bytes option" where
  "validate_identifier v =
     (if v = [] \<or> \<not> list_all is_ascii v \<or> list_ex is_rust_whitespace v \<or> list_ex (\<lambda>b. code b < 32 \<or> code b = 127) v
      then None else Some v)"

record workload_config =
  wic_identity_provider_id :: bytes
  wic_service_account_id :: bytes
  wic_client_id :: "bytes option"
  wic_refresh_buffer :: duration
  wic_token_type :: subject_token_type

definition workload_config_new :: "bytes \<Rightarrow> bytes \<Rightarrow> subject_token_type \<Rightarrow> workload_config option" where
  "workload_config_new identity_provider_id service_account_id token_type =
     Option.bind (validate_identifier identity_provider_id) (\<lambda>provider.
     Option.bind (validate_identifier service_account_id) (\<lambda>account.
       Some \<lparr>wic_identity_provider_id = provider, wic_service_account_id = account, wic_client_id = None,
             wic_refresh_buffer = DEFAULT_REFRESH_BUFFER, wic_token_type = token_type\<rparr>))"

definition with_client_id :: "bytes \<Rightarrow> workload_config \<Rightarrow> workload_config option" where
  "with_client_id client_id c = map_option (\<lambda>v. c\<lparr>wic_client_id := Some v\<rparr>) (validate_identifier client_id)"

definition with_refresh_buffer :: "duration \<Rightarrow> workload_config \<Rightarrow> workload_config" where
  "with_refresh_buffer d c = c\<lparr>wic_refresh_buffer := d\<rparr>"

text \<open>The check of the constructor before it hands its settings to the HTTP library, which may refuse them.\<close>

definition workload_auth_new :: "bool \<Rightarrow> http_error option \<Rightarrow> workload_config \<Rightarrow> (client_error, workload_config \<times> wi_state) result" where
  "workload_auth_new tls_backend refused c =
     (if take 8 TOKEN_EXCHANGE_URL = ''https://'' \<and> \<not> tls_backend
      then Err (InvalidConfiguration ''workload token exchange requires a compiled TLS backend'')
      else case refused of Some e \<Rightarrow> Err (from_reqwest e) | None \<Rightarrow> Ok (c, wi_state_default))"

text \<open>The members of the request, in the order they are written.\<close>

definition exchange_request :: "workload_config \<Rightarrow> bytes \<Rightarrow> (bytes \<times> bytes) list" where
  "exchange_request c subject =
     [(''grant_type'', TOKEN_EXCHANGE_GRANT_TYPE), (''subject_token'', subject), (''subject_token_type'', as_urn (wic_token_type c)),
      (''identity_provider_id'', wic_identity_provider_id c), (''service_account_id'', wic_service_account_id c)]
     @ optional_header ''client_id'' (wic_client_id c)"

section \<open>What a configuration lets through\<close>

definition visible :: "bytes \<Rightarrow> bool" where
  "visible v \<longleftrightarrow> v \<noteq> [] \<and> list_all (\<lambda>b. 33 \<le> code b \<and> code b \<le> 126) v"

lemma validate_identifier_iff: "validate_identifier v = Some w \<longleftrightarrow> w = v \<and> visible v"
proof -
  have "is_ascii b \<and> \<not> is_rust_whitespace b \<and> \<not> (code b < 32 \<or> code b = 127) \<longleftrightarrow> 33 \<le> code b \<and> code b \<le> 126" for b
    by (auto simp: is_ascii_def is_rust_whitespace_def)
  then show ?thesis by (auto simp: validate_identifier_def visible_def list_all_iff list_ex_iff)
qed

lemma validate_bearer_material_iff: "validate_bearer_material v = Some w \<longleftrightarrow> w = v \<and> visible v"
  using validate_identifier_iff [of v w] by (simp add: validate_identifier_def validate_bearer_material_def)

text \<open>
  The request of an exchange, for a configuration the constructors accept and a subject token that was validated: every member is
  visible ASCII, so nothing in it can break out of its place, and the client identifier is there only if it was set.
\<close>

theorem exchange_request_visible:
  assumes "workload_config_new provider account k = Some c0" and "c = c0 \<or> with_client_id client_id c0 = Some c"
    and "validate_bearer_material subject = Some s"
  shows "list_all (\<lambda>(name, v). visible v) (exchange_request c s)
    \<and> map_of (exchange_request c s) ''identity_provider_id'' = Some provider
    \<and> map_of (exchange_request c s) ''service_account_id'' = Some account
    \<and> map_of (exchange_request c s) ''client_id'' = (if c = c0 then None else Some client_id)"
proof -
  have "visible (as_urn JwtToken)" "visible (as_urn IdToken)" and grant: "visible TOKEN_EXCHANGE_GRANT_TYPE" by code_simp+
  then have urn: "visible (as_urn k)" for k by (cases k) simp_all
  from assms show ?thesis
    by (auto simp: workload_config_new_def with_client_id_def exchange_request_def validate_identifier_iff validate_bearer_material_iff
        bind_eq_Some_conv urn grant optional_header_def)
qed

definition demo_workload_config :: workload_config where
  "demo_workload_config =
     \<lparr>wic_identity_provider_id = ''idp_1'', wic_service_account_id = ''sa_1'', wic_client_id = None,
      wic_refresh_buffer = DEFAULT_REFRESH_BUFFER, wic_token_type = JwtToken\<rparr>"

theorem exchange_request_visible_witness:
  "workload_config_new ''idp_1'' ''sa_1'' JwtToken = Some demo_workload_config
   \<and> list_all (\<lambda>(name, v). visible v) (exchange_request demo_workload_config ''tok'')"
proof -
  have c: "workload_config_new ''idp_1'' ''sa_1'' JwtToken = Some demo_workload_config"
    "validate_bearer_material ''tok'' = Some ''tok''" by code_simp+
  from exchange_request_visible [OF c(1) disjI1 [OF refl] c(2)] c(1) show ?thesis by blast
qed

end
