(* ===== verification/Spec2Isabelle.thy ===== *)
theory Spec2Isabelle
  imports Sse_Dispatch Direct_Sse Polling Pagination Jsonl_Codec Webhook_Verifier Oidc_Verifier Tool_Registry
    Response_Stream Chat_Stream Transport_Correctness Workload_Safety Auth
    Mcp_Control Mcp_Bridge_Correctness App_Server_Correctness App_Server_Launch
    Direct_Browser Direct_Device Direct_Cancellation Direct_Transport_Correctness
    Web_Socket_Correctness Multipart_Correctness Transport_Faces Workload_Config
begin

text \<open>
  A verification of the Rust SDK \<^verbatim>\<open>openai-rs\<close>: the parts of its crates \<^verbatim>\<open>openai-rs-client\<close>,
  \<^verbatim>\<open>openai-rs-types\<close>, \<^verbatim>\<open>openai-rs-codex\<close> and \<^verbatim>\<open>openai-rs-rmcp\<close> that carry logic of their own.  Source paths
  below are relative to \<^verbatim>\<open>src/crates/\<close>.

  \<^bold>\<open>The program.\<close>  A call of the Platform client goes through the transport: a route and a query are
  built and checked against the configured origin, the attempt loop obtains a credential (an API key or a
  workload-identity token), sends, classifies the response, and retries, refreshes the credential or gives
  up within a deadline.  A JSON answer is read up to a limit and decoded; an error answer becomes a typed
  error whose retained text is redacted.  A streaming answer is fed in chunks to the SSE parser; the
  endpoint decoder interprets its frames by the terminal policy of the endpoint; the typed streams decode
  the payloads, and the accumulators reduce the events of a stream to one response or completion.  The same
  events also arrive over a WebSocket.  Files are uploaded as forms that every attempt builds again from their sources.
  Around this core stand cursor pagination, polling, webhook verification, and strict-schema normalization with the
  typed tool registry; the MCP bridge offers the tools of MCP servers to a model and routes its calls back.  For Codex, one
  client drives the app-server child process over JSON lines, and another signs in by itself, keeps its session
  fresh and calls the Responses endpoint directly.

  \<^bold>\<open>The theories\<close>, each with the source it models:

  \<^item> \<^verbatim>\<open>Prelude\<close>, \<^verbatim>\<open>Utf8\<close>, \<^verbatim>\<open>Rust_Text\<close>, \<^verbatim>\<open>Float64\<close>, \<^verbatim>\<open>Json_Value\<close>, \<^verbatim>\<open>Json_Number\<close>, \<^verbatim>\<open>Btree_Map\<close>: what the sources use of
    the language and of its data: results with the \<^verbatim>\<open>?\<close> operator, bytes, UTF-8 validation, binary64
    conversions and rounding, JSON values with insertion-ordered objects, ordered maps.
  \<^item> \<^verbatim>\<open>Chunked\<close>, \<^verbatim>\<open>Reducer\<close>, \<^verbatim>\<open>State_Machine\<close>: interfaces shared by components.  A \<open>chunked_decoder\<close>
    gives results that depend on the concatenation of its input only; a \<open>reducer\<close> keeps its invariant and
    closes; a \<open>machine_invariant\<close> holds in every interleaving.  A \<open>credential_store\<close>, in \<^verbatim>\<open>Credential_Store\<close>, gives
    back what was saved last.
  \<^item> \<^verbatim>\<open>Sse_Decoder\<close>, \<^verbatim>\<open>Sse_Framing\<close>, \<^verbatim>\<open>Sse_Refinement\<close>, \<^verbatim>\<open>Sse_Correctness\<close>, \<^verbatim>\<open>Sse_Invariants\<close>
    (\<^verbatim>\<open>openai-rs-client/src/sse.rs\<close>, \<^verbatim>\<open>SseDecoder\<close>): the incremental parser, its one-shot specification, the
    refinement for every chunking, and the memory, UTF-8 and fail-stop invariants.
  \<^item> \<^verbatim>\<open>Sse_Stream\<close>, \<^verbatim>\<open>Sse_Dispatch\<close> (\<^verbatim>\<open>sse.rs\<close>, \<^verbatim>\<open>SseStreamDecoder\<close>): the endpoint policies and their
    refinement of a specification on the frames of the whole body.
  \<^item> \<^verbatim>\<open>Event_Stream\<close>, \<^verbatim>\<open>Response_Stream\<close>, \<^verbatim>\<open>Chat_Stream\<close> (\<^verbatim>\<open>response_stream.rs\<close>, \<^verbatim>\<open>chat_stream.rs\<close>): the drain
    loop from body chunks to typed items, once as the locale \<open>stream_client\<close> and interpreted for both
    endpoints.
  \<^item> \<^verbatim>\<open>Response_Accumulator\<close>, \<^verbatim>\<open>Response_Reduction\<close> (\<^verbatim>\<open>openai-rs-types/src/responses.rs\<close>): the reducer of
    Responses events; ownership of output indices, ordering, and text as the concatenation of its deltas.
  \<^item> \<^verbatim>\<open>Chat_Accumulator\<close>, \<^verbatim>\<open>Chat_Reduction\<close> (\<^verbatim>\<open>chat_accumulator.rs\<close>, \<^verbatim>\<open>openai-rs-types/src/chat.rs\<close>): the fold of
    Chat chunks with the merge of unknown fields; every choice is a function of its own updates, and
    snapshots are well formed.
  \<^item> \<^verbatim>\<open>Retry\<close>, \<^verbatim>\<open>Transport\<close>, \<^verbatim>\<open>Transport_Correctness\<close>, \<^verbatim>\<open>Transport_Faces\<close> (\<^verbatim>\<open>retry.rs\<close>, \<^verbatim>\<open>transport.rs\<close>): delays, routes, the
    attempt loop and the decoders; how often it sends, when, what it sends again, and what it returns.
  \<^item> \<^verbatim>\<open>Auth\<close>, \<^verbatim>\<open>Workload_Identity\<close>, \<^verbatim>\<open>Workload_Safety\<close>, \<^verbatim>\<open>Workload_Config\<close> (\<^verbatim>\<open>auth.rs\<close>, \<^verbatim>\<open>workload_identity.rs\<close>): credentials, and the
    single-flight token refresh as a concurrent system of callers, refresh tasks and invalidations.
  \<^item> \<^verbatim>\<open>Operation\<close>, \<^verbatim>\<open>Redaction\<close>, \<^verbatim>\<open>Client_Error\<close> (\<^verbatim>\<open>operation.rs\<close>, \<^verbatim>\<open>error.rs\<close>): response metadata, previews of
    bodies and the errors built from them; no sensitive member and no prefixed secret survives.
  \<^item> \<^verbatim>\<open>Pagination\<close>, \<^verbatim>\<open>Polling\<close> (\<^verbatim>\<open>pagination.rs\<close>, \<^verbatim>\<open>batches.rs\<close>, \<^verbatim>\<open>files.rs\<close>, \<^verbatim>\<open>poll.rs\<close>): page streams and the polling
    loop with its cancellation token.
  \<^item> \<^verbatim>\<open>Kernel\<close>, \<^verbatim>\<open>Scalar\<close> (\<^verbatim>\<open>openai-rs-types/src/kernel.rs\<close>, \<^verbatim>\<open>scalar.rs\<close>): presence and nullability wrappers,
    retained unknown fields, tagged unions and open enums as wire codecs.
  \<^item> \<^verbatim>\<open>Strict_Schema\<close>, \<^verbatim>\<open>Strict_Schema_Correctness\<close>, \<^verbatim>\<open>Tool_Registry\<close> (\<^verbatim>\<open>openai-rs-types/src/structured.rs\<close>):
    schema normalization and the tool registry.
  \<^item> \<^verbatim>\<open>Webhook_Verifier\<close> (\<^verbatim>\<open>webhooks.rs\<close>): signature, timestamp and event checks.
  \<^item> \<^verbatim>\<open>Web_Socket\<close>, \<^verbatim>\<open>Web_Socket_Correctness\<close> (\<^verbatim>\<open>responses_websocket.rs\<close>):
    the handshake loop and the operations of a
    connection; sessions write checked frames only, failures close, and one lane reduces as an SSE stream does.
  \<^item> \<^verbatim>\<open>Multipart\<close>, \<^verbatim>\<open>Multipart_Correctness\<close> (\<^verbatim>\<open>multipart.rs\<close>, \<^verbatim>\<open>openai-rs-types/src/files.rs\<close>):
    file snapshots, forms,
    the upload and download lanes; attempts repeat one form and stop when the file has changed, and the copied loops, with the
    helpers the file has of its own, are the loop of the transport without body tracing.
  \<^item> \<^verbatim>\<open>Mcp_Catalog\<close>, \<^verbatim>\<open>Mcp_Catalog_Correctness\<close>, \<^verbatim>\<open>Mcp_Bridge\<close>, \<^verbatim>\<open>Mcp_Bridge_Correctness\<close>, \<^verbatim>\<open>Mcp_Control\<close> (\<^verbatim>\<open>openai-rs-rmcp/src\<close>):
    catalog,
    arguments, results, executor, bridge and cancellation; names are reversible, calls reach their tool within their limits.
  \<^item> \<^verbatim>\<open>App_Server\<close>, \<^verbatim>\<open>App_Server_Ledger\<close>, \<^verbatim>\<open>App_Server_Safety\<close>, \<^verbatim>\<open>App_Server_Refinement\<close>, \<^verbatim>\<open>App_Server_Correctness\<close>, \<^verbatim>\<open>App_Server_Launch\<close>, \<^verbatim>\<open>Jsonl_Codec\<close> (\<^verbatim>\<open>openai-rs-codex/src\<close>: \<^verbatim>\<open>app_server/client.rs\<close>,
    \<^verbatim>\<open>app_server/codec.rs\<close>, \<^verbatim>\<open>runtime.rs\<close>, \<^verbatim>\<open>credentials.rs\<close>):
    the connection as a concurrent system in which
    every request is answered once, the bounded line reader, and the checks before a runtime is launched.
  \<^item> \<^verbatim>\<open>Direct_Auth\<close>, \<^verbatim>\<open>Direct_Auth_Correctness\<close>, \<^verbatim>\<open>Direct_Browser\<close>, \<^verbatim>\<open>Direct_Device\<close>, \<^verbatim>\<open>Token_Manager\<close>, \<^verbatim>\<open>Token_Manager_Safety\<close>, \<^verbatim>\<open>Credential_Store\<close>, \<^verbatim>\<open>Direct_Cancellation\<close>, \<^verbatim>\<open>Oidc_Verifier\<close> (\<^verbatim>\<open>direct.rs\<close>, \<^verbatim>\<open>direct/auth.rs\<close>,
    \<^verbatim>\<open>direct/keyring_store.rs\<close>, \<^verbatim>\<open>direct/jwt.rs\<close>):
    the two logins with their checks, the shared session and its
    refresh as a concurrent system, the stores, cancellation and the ID-token checks.
  \<^item> \<^verbatim>\<open>Direct_Transport\<close>, \<^verbatim>\<open>Direct_Transport_Correctness\<close>, \<^verbatim>\<open>Direct_Sse\<close> (\<^verbatim>\<open>direct/transport.rs\<close>, \<^verbatim>\<open>direct/sse.rs\<close>):
    the direct client, its one retry,
    its typed stream with a reader task, and the byte-at-a-time decoder with its agreement with the Platform parser.

  \<^bold>\<open>How state and effects are modelled.\<close>  A struct is a record, an enum a datatype, a method that takes
  \<^verbatim>\<open>&mut self\<close> returns its result with the new state, a \<^verbatim>\<open>Result\<close> is a sum with the error on the left.
  \<^verbatim>\<open>usize\<close> and durations (in nanoseconds) are natural numbers where the source bounds or checks them;
  saturating and checked operations are written out.  Asynchronous code is a function of the sequence of what its
  environment does (the chunks of a body, the answers to the requests, the instants of a virtual clock);
  where tasks share state, every critical section is a step of a transition system.

  \<^bold>\<open>Loops and fuel.\<close>  Loops over input are structural recursions or have a termination proof; the
  attempt loop of the transport descends in the retries left and the refresh left.  The walk of schema
  normalization carries fuel; twice the number of nodes of the schema plus \<open>N (2 N + 1)\<close>, with \<open>N\<close> the
  inlining budget \<^verbatim>\<open>MAX_REF_INLINE_NODES\<close>, is proved to be enough, since every inlined reference spends
  from that budget.  Polling, page streams and the device login, whose loops the source does not
  bound by a count, carry fuel too; their termination theorems give the number of steps that is enough.

  \<^bold>\<open>Parameters.\<close>  Code of other packages is an argument of the definitions that use it: HMAC, SHA-256, RSA
  and base64, the JSON reader and printer, the deserializers that \<^verbatim>\<open>serde\<close> derives, HTTP-date parsing, the
  HTTP client with its URL and header types, the WebSocket library, the MCP peer, the file system, the keyring and the random
  source.  The clock, including the nanoseconds that serve as jitter, is input.  A theorem that relies on such code
  names what it relies on as a hypothesis, and its witness instantiates it.

  \<^bold>\<open>Not modelled.\<close>  The wire declarations of \<^verbatim>\<open>openai-rs-types\<close> beyond those a modelled component reads are
  data that \<^verbatim>\<open>serde\<close> derives a codec for.  The resource facades of \<^verbatim>\<open>openai-rs-client\<close> each build an operation
  and hand it to the transport; the administration client does so with a copy of it.  The realtime and beta sessions are further
  faces over the handshake, the transport and the decoders.  The client builder configures the HTTP library.  The child process of the
  Codex runtime, sockets, files and the system keyring appear as what they answer, and nothing is said about them
  beyond that.  \<^verbatim>\<open>Display\<close> and \<^verbatim>\<open>Debug\<close> texts, tracing, tests, examples, fuzz targets and the repository's
  own tooling (\<^verbatim>\<open>xtask\<close>) have no entry.
\<close>

section \<open>From the bytes of a body to the response\<close>

text \<open>
  C1: The Responses pipeline end to end, through the transport chunks, the SSE parser, the endpoint
  policy, the typed decoder and the reducer.  \<^verbatim>\<open>collect_final\<close> succeeds with \<open>r\<close> exactly when the
  body, taken as a whole, decodes to a sequence of events without an error item, the reducer accepts all
  of them, and the last one is the completed, failed or incomplete event that carries \<open>r\<close>.  In particular the
  result does not depend on the chunk boundaries, and a truncated body never gives a response.
\<close>

theorem collect_final_end_to_end:
  assumes "0 < max_line_bytes l"
  shows "collect_final (response_events c mt l (map Ok cs)) = Ok r \<longleftrightarrow>
    (\<exists>evs acc. body_events c mt l (concat cs) = map Ok evs
       \<and> push_all acc_push evs accumulator_new = (Ok (), acc)
       \<and> evs \<noteq> [] \<and> lifecycle (last evs) = Some (r, True))"
  by (simp add: response_events_body [OF assms] collect_final_Ok_iff)

theorem collect_final_end_to_end_witness:
  "collect_final (response_events demo_response_codec demo_meta sse_limits_default
      (map Ok [take 11 demo_response_body, drop 11 demo_response_body])) = Ok \<lparr>resp_output = [], resp_rest = []\<rparr>"
proof -
  let ?r = "\<lparr>resp_output = [], resp_rest = []\<rparr> :: response"
  let ?evs = "[AudioDone \<lparr>pe_sequence = 1\<rparr>, Completed \<lparr>le_response = ?r, le_sequence = 2\<rparr>]"
  have "body_events demo_response_codec demo_meta sse_limits_default demo_response_body = map Ok ?evs" by code_simp
  moreover have "fst (push_all acc_push ?evs accumulator_new) = Ok ()" by code_simp
  then obtain acc where "push_all acc_push ?evs accumulator_new = (Ok (), acc)" by (metis prod.collapse)
  moreover have "lifecycle (last ?evs) = Some (?r, True)" by (simp add: lifecycle_def)
  ultimately have "\<exists>evs acc. body_events demo_response_codec demo_meta sse_limits_default demo_response_body = map Ok evs
       \<and> push_all acc_push evs accumulator_new = (Ok (), acc)
       \<and> evs \<noteq> [] \<and> lifecycle (last evs) = Some (?r, True)" by blast
  moreover have "0 < max_line_bytes sse_limits_default"
    by (simp add: sse_limits_default_def DEFAULT_MAX_SSE_LINE_BYTES_def)
  ultimately show ?thesis
    by (subst collect_final_end_to_end) simp_all
qed

end
